(* ===== verification/Prelude.thy ===== *)
theory Prelude
  imports Main "HOL-Library.Word"
begin

text \<open>
  Shared ground of the development: the byte/character vocabulary of the C++ sources
  (a \<^verbatim>\<open>std::string\<close> is a list of 8-bit \<^typ>\<open>char\<close>s), the C-locale character
  classes the front end calls, decimal printing (\<^verbatim>\<open>std::to_string\<close>) with its inverse, and the
  collection \<open>print_simps\<close> of the equations that evaluate printing.
\<close>

unbundle bit_operations_syntax

type_synonym byte_string = string
type_synonym u32 = "32 word"
type_synonym u64 = "64 word"

subsection \<open>Characters as the C library classifies them (C locale)\<close>

definition byte_of :: "char \<Rightarrow> nat" where
  "byte_of c = of_char c"

definition isdigit :: "char \<Rightarrow> bool" where
  "isdigit c \<longleftrightarrow> 48 \<le> byte_of c \<and> byte_of c \<le> 57"

definition isalpha :: "char \<Rightarrow> bool" where
  "isalpha c \<longleftrightarrow> (65 \<le> byte_of c \<and> byte_of c \<le> 90) \<or> (97 \<le> byte_of c \<and> byte_of c \<le> 122)"

lemma byte_of_less [simp]: "byte_of c < 256"
  by (simp add: byte_of_def)

lemma byte_of_inject [simp]: "byte_of c = byte_of d \<longleftrightarrow> c = d"
  by (simp add: byte_of_def)

subsection \<open>Decimal printing: \<^verbatim>\<open>std::to_string\<close>\<close>

named_theorems print_simps "equations that evaluate decimal printing"

definition digitChar :: "nat \<Rightarrow> char" where
  "digitChar d = char_of (48 + d)"

fun natToString :: "nat \<Rightarrow> byte_string" where
  "natToString n = (if n < 10 then [digitChar n] else natToString (n div 10) @ [digitChar (n mod 10)])"

declare natToString.simps [simp del, print_simps]

definition intToString :: "int \<Rightarrow> byte_string" where
  "intToString i = (if i < 0 then ''-'' @ natToString (nat (- i)) else natToString (nat i))"

definition decimalValue :: "byte_string \<Rightarrow> nat" where
  "decimalValue ds = foldl (\<lambda>v c. v * 10 + (byte_of c - 48)) 0 ds"

lemma byte_of_digitChar [simp]: "d < 10 \<Longrightarrow> byte_of (digitChar d) = 48 + d"
  by (simp add: digitChar_def byte_of_def)

lemma isdigit_digitChar [simp]: "d < 10 \<Longrightarrow> isdigit (digitChar d)"
  by (simp add: isdigit_def)

lemma natToString_digits: "list_all isdigit (natToString n)"
proof (induction n rule: natToString.induct)
  case (1 n)
  then show ?case by (subst natToString.simps) auto
qed

lemma natToString_free: "\<not> isdigit c \<Longrightarrow> c \<notin> set (natToString n)"
  using natToString_digits[of n] by (auto simp: list_all_iff)

lemma natToString_nonempty [simp]: "natToString n \<noteq> []"
  by (subst natToString.simps) simp

lemma decimalValue_natToString [simp]: "decimalValue (natToString n) = n"
proof (induction n rule: natToString.induct)
  case (1 n)
  show ?case
  proof (cases "n < 10")
    case True
    then show ?thesis by (subst natToString.simps) (simp add: decimalValue_def)
  next
    case False
    have "decimalValue (natToString n) = decimalValue (natToString (n div 10)) * 10 + n mod 10"
      using False by (subst natToString.simps) (simp add: decimalValue_def)
    then show ?thesis using 1[OF False] by simp
  qed
qed

lemma natToString_inject [simp]: "natToString m = natToString n \<longleftrightarrow> m = n"
  by (metis decimalValue_natToString)

lemma isdigit_minus [simp]: "\<not> isdigit (CHR ''-'')"
  by (simp add: isdigit_def byte_of_def)

lemma natToString_not_minus: "natToString n \<noteq> CHR ''-'' # ds"
  using natToString_digits[of n] by auto

lemma intToString_inject [simp]: "intToString i = intToString j \<longleftrightarrow> i = j"
  using natToString_not_minus natToString_not_minus[symmetric]
  by (auto simp: intToString_def split: if_splits)

text \<open>A printed number is separated from what follows by the first character that is no digit.\<close>

lemma printed_prefix:
  assumes "natToString m @ r = natToString n @ r'" "r = [] \<or> \<not> isdigit (hd r)" "r' = [] \<or> \<not> isdigit (hd r')"
  shows "m = n \<and> r = r'"
proof -
  have "takeWhile isdigit (natToString k @ t) = natToString k" if "t = [] \<or> \<not> isdigit (hd t)" for k t
    using that natToString_digits[of k] by (cases t) (simp_all add: takeWhile_append2 list_all_iff)
  then have "natToString m = natToString n" using assms by metis
  with assms(1) show ?thesis by simp
qed

text \<open>Two texts without a separator, each followed by nothing or by the separator.\<close>

lemma separator_split:
  assumes "x @ r = y @ r'" "c \<notin> set x" "c \<notin> set y" "r = [] \<or> hd r = c" "r' = [] \<or> hd r' = c"
  shows "x = y \<and> r = r'"
proof -
  have "takeWhile (\<lambda>d. d \<noteq> c) (z @ t) = z" if "c \<notin> set z" "t = [] \<or> hd t = c" for z t
  proof (cases t)
    case (Cons d ds)
    have "takeWhile (\<lambda>d. d \<noteq> c) (z @ t) = z @ takeWhile (\<lambda>d. d \<noteq> c) t"
      using that(1) by (intro takeWhile_append2) auto
    then show ?thesis using Cons that(2) by simp
  qed (use that in \<open>auto simp: takeWhile_eq_all_conv\<close>)
  then have "x = y" using assms by metis
  with assms(1) show ?thesis by simp
qed

subsection \<open>Bit masks as arithmetic\<close>

lemma or_low_bits:
  fixes a b :: nat
  assumes "b < 2 ^ n"
  shows "a * 2 ^ n OR b = a * 2 ^ n + b"
proof -
  have "push_bit n a AND take_bit n b = 0"
    by (rule bit_eqI) (auto simp: bit_simps)
  moreover have "take_bit n b = b" using assms by (simp add: take_bit_nat_eq_self)
  ultimately show ?thesis
    by (metis disjunctive_add_eq_or push_bit_eq_mult)
qed

lemma and_low_bits: "x AND (2 ^ n - 1) = x mod 2 ^ n" for x :: nat
  by (metis mask_eq_exp_minus_1 take_bit_eq_mask take_bit_eq_mod)

end
