(* ===== verification/Linearizer.thy ===== *)
theory Linearizer
  imports Prelude "HOL-Library.Sublist"
begin

text \<open>
  Class linearization (\<^verbatim>\<open>src/src/frontend/Linearizer.cpp\<close>).  The header states the specification
  $L(C) = C, L(P_n) \mathbin{+\!:} \dots \mathbin{+\!:} L(P_1)$ of SLS 5.1.2; \<open>slsMerge\<close> and
  \<open>slsLinearization\<close> are that definition, written as it is read, and the loop of the source refines
  it.  From there: no type key is repeated, the keys are exactly those of the parents and the
  class itself, the last occurrence of a shared ancestor wins, and the superclass chain is kept.
  The header leaves it to the caller to reject a class that is its own ancestor; the refinement has that
  as its hypothesis, and fails without it.
\<close>

subsection \<open>The loop of the source\<close>

type_synonym type_key = byte_string

text \<open>One turn of the loop: \<^verbatim>\<open>merged\<close> is the new part of the parent, followed by \<^verbatim>\<open>acc\<close>.\<close>

definition mergeParent :: "type_key list \<Rightarrow> type_key list \<Rightarrow> type_key list" where
  "mergeParent acc parent = filter (\<lambda>x. x \<notin> set acc) parent @ acc"

definition linearize :: "type_key \<Rightarrow> type_key list list \<Rightarrow> type_key list" where
  "linearize self parents =
     (let acc = (case parents of [] \<Rightarrow> [] | p # ps \<Rightarrow> foldl mergeParent p ps)
      in self # filter (\<lambda>x. x \<noteq> self) acc)"

subsection \<open>The specification\<close>

text \<open>\<^verbatim>\<open>X +: Y\<close> keeps the elements of \<^verbatim>\<open>X\<close> that do not occur in \<^verbatim>\<open>Y\<close>, followed by \<^verbatim>\<open>Y\<close>.\<close>

primrec slsMerge :: "type_key list \<Rightarrow> type_key list \<Rightarrow> type_key list" where
  "slsMerge [] ys = ys"
| "slsMerge (x # xs) ys = (if x \<in> set ys then slsMerge xs ys else x # slsMerge xs ys)"

text \<open>The right-associative sum, of the parents in reverse order.\<close>

fun slsSum :: "type_key list list \<Rightarrow> type_key list" where
  "slsSum [] = []"
| "slsSum [p] = p"
| "slsSum (p # ps) = slsMerge p (slsSum ps)"

definition slsLinearization :: "type_key \<Rightarrow> type_key list list \<Rightarrow> type_key list" where
  "slsLinearization self parents = self # slsSum (rev parents)"

subsection \<open>Refinement\<close>

lemma mergeParent_sls: "mergeParent acc parent = slsMerge parent acc"
  by (induction parent) (auto simp: mergeParent_def)

lemma slsSum_Cons: "ps \<noteq> [] \<Longrightarrow> slsSum (p # ps) = slsMerge p (slsSum ps)"
  by (cases ps) auto

lemma foldl_sls: "foldl mergeParent p ps = slsSum (rev (p # ps))"
proof (induction ps rule: rev_induct)
  case (snoc q ps)
  then show ?case by (simp add: mergeParent_sls slsSum_Cons)
qed simp

lemma set_slsSum: "set (slsSum (rev ps)) = (\<Union>p \<in> set ps. set p)"
proof -
  have merge: "set (slsMerge xs ys) = set xs \<union> set ys" for xs ys by (induction xs) auto
  have "set (slsSum qs) = (\<Union>q \<in> set qs. set q)" for qs
    by (induction qs rule: slsSum.induct) (simp_all add: merge)
  then show ?thesis by simp
qed

lemma linearize_unfold: "linearize self parents = self # removeAll self (slsSum (rev parents))"
  by (cases parents) (simp_all add: linearize_def foldl_sls removeAll_filter_not_eq eq_commute[of self])

text \<open>
  C21: for a class that is not among its own ancestors the loop computes the linearization of the
  language specification: the class, then the right-associative sum of the parents' linearizations from
  the last parent to the first.  On a cycle the two differ, so the caller's check is needed.
\<close>

theorem linearize_refines_sls:
  "linearize self parents = slsLinearization self parents \<longleftrightarrow> (\<forall>p \<in> set parents. self \<notin> set p)"
proof -
  have "self # removeAll self xs = self # xs \<longleftrightarrow> self \<notin> set xs" for xs :: "type_key list"
    by (auto simp: removeAll_filter_not_eq filter_id_conv)
  then show ?thesis by (simp add: linearize_unfold slsLinearization_def set_slsSum)
qed

theorem linearize_refines_sls_witness:
  "linearize ''C'' [[''A'', ''R''], [''B'', ''A'', ''R'']] = slsLinearization ''C'' [[''A'', ''R''], [''B'', ''A'', ''R'']] \<and>
   slsLinearization ''C'' [[''A'', ''R''], [''B'', ''A'', ''R'']] = [''C'', ''B'', ''A'', ''R''] \<and>
   linearize ''C'' [[''A'', ''C'']] \<noteq> slsLinearization ''C'' [[''A'', ''C'']]"
proof -
  have "slsLinearization ''C'' [[''A'', ''R''], [''B'', ''A'', ''R'']] = [''C'', ''B'', ''A'', ''R'']"
    by (simp add: slsLinearization_def)
  then show ?thesis
    using linearize_refines_sls[of "''C''" "[[''A'', ''R''], [''B'', ''A'', ''R'']]"]
      linearize_refines_sls[of "''C''" "[[''A'', ''C'']]"] by simp
qed

subsection \<open>Last occurrence wins\<close>

lemma slsMerge_filter: "slsMerge xs ys = filter (\<lambda>x. x \<notin> set ys) xs @ ys"
  by (induction xs) auto

lemma remdups_append_filter: "remdups (xs @ ys) = filter (\<lambda>x. x \<notin> set ys) (remdups xs) @ remdups ys"
  by (induction xs) auto

lemma slsSum_remdups: "list_all distinct ps \<Longrightarrow> slsSum ps = remdups (concat ps)"
proof (induction ps rule: slsSum.induct)
  case (3 p q ps)
  then show ?case by (simp add: slsMerge_filter remdups_append_filter[of p] distinct_remdups_id)
qed (simp_all add: distinct_remdups_id)

text \<open>
  When the parents' linearizations are free of repetitions, the result is the class followed
  by all ancestors with only the last occurrence of each kept (and without the class itself), so
  it is again free of repetitions and holds exactly the class and its parents' ancestors.
\<close>

theorem linearize_last_wins:
  assumes "list_all distinct parents"
  shows "linearize self parents = self # removeAll self (remdups (concat (rev parents))) \<and>
    distinct (linearize self parents) \<and>
    set (linearize self parents) = insert self (\<Union> (set ` set parents))"
proof -
  have "slsSum (rev parents) = remdups (concat (rev parents))"
    using assms by (intro slsSum_remdups) (simp add: list_all_iff)
  then show ?thesis by (auto simp: linearize_unfold distinct_removeAll)
qed

theorem linearize_last_wins_witness:
  "linearize ''C'' [[''A'', ''R''], [''B'', ''R'']] = ''C'' # removeAll ''C'' (remdups (concat (rev [[''A'', ''R''], [''B'', ''R'']]))) \<and>
    distinct (linearize ''C'' [[''A'', ''R''], [''B'', ''R'']]) \<and>
    set (linearize ''C'' [[''A'', ''R''], [''B'', ''R'']]) = insert ''C'' (\<Union> (set ` set [[''A'', ''R''], [''B'', ''R'']]))"
  by (rule linearize_last_wins) simp

text \<open>
  The superclass chain is preserved: the linearization of the first parent is a suffix of the
  linearization of a class that is not its own ancestor.
\<close>

theorem linearize_superclass_suffix:
  assumes "self \<notin> set p"
  shows "suffix p (linearize self (p # ps))"
proof -
  have "suffix p (foldl mergeParent p ps)"
  proof (induction ps rule: rev_induct)
    case (snoc q ps)
    then show ?case by (simp add: mergeParent_def suffix_appendI)
  qed simp
  then obtain pre where "foldl mergeParent p ps = pre @ p" by (auto simp: suffix_def)
  moreover have "filter (\<lambda>x. x \<noteq> self) p = p" using assms by (auto simp: filter_id_conv)
  ultimately show ?thesis by (simp add: linearize_def suffix_ConsI suffix_appendI)
qed

theorem linearize_superclass_suffix_witness:
  "suffix [''A'', ''R''] (linearize ''C'' ([''A'', ''R''] # [[''B'', ''A'']]))"
  by (rule linearize_superclass_suffix) simp

end
