(* ===== verification/Utf8.thy ===== *)
theory Utf8
  imports Prelude
begin

text \<open>
  UTF-8 as the lexer handles it (\<^verbatim>\<open>src/src/frontend/Lexer.cpp\<close>): the validating decoder
  \<^verbatim>\<open>decodeUtf8\<close> and the encoder \<^verbatim>\<open>appendUtf8\<close>.  A code point (\<^verbatim>\<open>char32_t\<close>) is a natural
  number; the shifts of the decoder never leave 21 bits, so no 32-bit wrap-around can occur.
  The theorems: decoding what was encoded gives the code point back, and whatever decodes is
  exactly the encoding of a Unicode scalar value (so overlong forms, surrogates and values
  beyond U+10FFFF are refused).
\<close>

subsection \<open>The decoder and the encoder\<close>

definition utf8Lead :: "nat \<Rightarrow> (nat \<times> nat \<times> nat) option" where
  "utf8Lead b0 =
     (if b0 AND 0xE0 = 0xC0 then Some (2, b0 AND 0x1F, 0x80)
      else if b0 AND 0xF0 = 0xE0 then Some (3, b0 AND 0x0F, 0x800)
      else if b0 AND 0xF8 = 0xF0 then Some (4, b0 AND 0x07, 0x10000)
      else None)"

fun utf8Tail :: "byte_string \<Rightarrow> nat \<Rightarrow> nat \<Rightarrow> nat \<Rightarrow> nat option" where
  "utf8Tail s p 0 value = Some value"
| "utf8Tail s p (Suc n) value =
     (let b = byte_of (s ! p) in
      if b AND 0xC0 \<noteq> 0x80 then None
      else utf8Tail s (Suc p) n (push_bit 6 value OR (b AND 0x3F)))"

definition decodeUtf8 :: "byte_string \<Rightarrow> nat \<Rightarrow> (nat \<times> nat) option" where
  "decodeUtf8 s pos =
     (let b0 = byte_of (s ! pos) in
      if b0 < 0x80 then Some (1, b0)
      else case utf8Lead b0 of
          None \<Rightarrow> None
        | Some (len, value, minimum) \<Rightarrow>
            if len > length s - pos then None
            else case utf8Tail s (Suc pos) (len - 1) value of
                None \<Rightarrow> None
              | Some v \<Rightarrow>
                  if v < minimum \<or> v > 0x10FFFF \<or> (0xD800 \<le> v \<and> v \<le> 0xDFFF) then None
                  else Some (len, v))"

definition appendUtf8 :: "byte_string \<Rightarrow> nat \<Rightarrow> byte_string" where
  "appendUtf8 out cp =
     (if cp < 0x80 then out @ [char_of cp]
      else if cp < 0x800 then
        out @ [char_of (0xC0 OR drop_bit 6 cp), char_of (0x80 OR (cp AND 0x3F))]
      else if cp < 0x10000 then
        out @ [char_of (0xE0 OR drop_bit 12 cp),
               char_of (0x80 OR (drop_bit 6 cp AND 0x3F)),
               char_of (0x80 OR (cp AND 0x3F))]
      else
        out @ [char_of (0xF0 OR drop_bit 18 cp),
               char_of (0x80 OR (drop_bit 12 cp AND 0x3F)),
               char_of (0x80 OR (drop_bit 6 cp AND 0x3F)),
               char_of (0x80 OR (cp AND 0x3F))])"

text \<open>The values a well-formed UTF-8 sequence may carry.\<close>

definition unicodeScalar :: "nat \<Rightarrow> bool" where
  "unicodeScalar cp \<longleftrightarrow> cp \<le> 0x10FFFF \<and> \<not> (0xD800 \<le> cp \<and> cp \<le> 0xDFFF)"

subsection \<open>From bit masks to arithmetic\<close>

lemma and_3F: "x AND 0x3F = x mod 64" for x :: nat
  using and_low_bits[of x 6] by simp

lemma and_1F: "x AND 0x1F = x mod 32" for x :: nat
  using and_low_bits[of x 5] by simp

lemma and_0F: "x AND 0x0F = x mod 16" for x :: nat
  using and_low_bits[of x 4] by simp

lemma and_07: "x AND 0x07 = x mod 8" for x :: nat
  using and_low_bits[of x 3] by simp

lemma high_mask_eq:
  fixes x c :: nat
  assumes "x < 2 ^ (n + k)"
  shows "x AND ((2 ^ k - 1) * 2 ^ n) = (x div 2 ^ n) * 2 ^ n"
proof -
  have "x AND push_bit n (mask k) = push_bit n (drop_bit n x)"
  proof (rule bit_eqI)
    fix m
    assume "possible_bit TYPE(nat) m"
    have "bit x m \<Longrightarrow> m < n + k"
      using assms by (metis bit_take_bit_iff take_bit_nat_eq_self)
    then show "bit (x AND push_bit n (mask k)) m = bit (push_bit n (drop_bit n x)) m"
      by (auto simp: bit_simps)
  qed
  then show ?thesis
    by (simp add: push_bit_eq_mult drop_bit_eq_div mask_eq_exp_minus_1)
qed

lemma and_C0: "x < 256 \<Longrightarrow> x AND 0xC0 = (x div 64) * 64" for x :: nat
  using high_mask_eq[of x 6 2] by simp

lemma and_E0: "x < 256 \<Longrightarrow> x AND 0xE0 = (x div 32) * 32" for x :: nat
  using high_mask_eq[of x 5 3] by simp

lemma and_F0: "x < 256 \<Longrightarrow> x AND 0xF0 = (x div 16) * 16" for x :: nat
  using high_mask_eq[of x 4 4] by simp

lemma and_F8: "x < 256 \<Longrightarrow> x AND 0xF8 = (x div 8) * 8" for x :: nat
  using high_mask_eq[of x 3 5] by simp

lemma or_80: "x < 64 \<Longrightarrow> 0x80 OR x = 128 + x" for x :: nat
  using or_low_bits[of x 6 2] by simp

lemma or_C0: "x < 32 \<Longrightarrow> 0xC0 OR x = 192 + x" for x :: nat
  using or_low_bits[of x 5 6] by simp

lemma or_E0: "x < 16 \<Longrightarrow> 0xE0 OR x = 224 + x" for x :: nat
  using or_low_bits[of x 4 14] by simp

lemma or_F0: "x < 8 \<Longrightarrow> 0xF0 OR x = 240 + x" for x :: nat
  using or_low_bits[of x 3 30] by simp

lemma shift_or: "x < 64 \<Longrightarrow> push_bit 6 v OR x = v * 64 + x" for x v :: nat
  using or_low_bits[of x 6 v] by (simp add: push_bit_eq_mult)

lemmas utf8_arith = and_3F and_1F and_0F and_07 and_C0 and_E0 and_F0 and_F8
  or_80 or_C0 or_E0 or_F0 shift_or drop_bit_eq_div

lemma byte_char_of [simp]: "n < 256 \<Longrightarrow> byte_of (char_of n) = n"
  by (simp add: byte_of_def)

lemma char_of_byte [simp]: "char_of (byte_of c) = c"
  by (simp add: byte_of_def)


lemma div_window:
  fixes b m k :: nat
  assumes "0 < m"
  shows "b div m * m = k * m \<longleftrightarrow> k * m \<le> b \<and> b < k * m + m"
  using assms div_nat_eqI[of m k b] dividend_less_div_times[of m b]
  by (auto simp: algebra_simps)

lemma mod_window: "k * m \<le> b \<Longrightarrow> b < k * m + m \<Longrightarrow> b mod m = b - k * m" for b m k :: nat
  by (metis add.commute add_diff_cancel_left' less_diff_conv2 le_add_diff_inverse2 mod_less mod_mult_self3)

lemma utf8Lead_arith:
  "b < 256 \<Longrightarrow> utf8Lead b =
     (if 192 \<le> b \<and> b < 224 then Some (2, b - 192, 0x80)
      else if 224 \<le> b \<and> b < 240 then Some (3, b - 224, 0x800)
      else if 240 \<le> b \<and> b < 248 then Some (4, b - 240, 0x10000)
      else None)"
  using div_window[of 32 b 6] div_window[of 16 b 14] div_window[of 8 b 30]
    mod_window[of 6 32 b] mod_window[of 14 16 b] mod_window[of 30 8 b]
  by (simp add: utf8Lead_def and_1F and_0F and_07 and_E0 and_F0 and_F8)

lemma continuation_byte: "b < 256 \<Longrightarrow> b AND 0xC0 = 0x80 \<longleftrightarrow> 128 \<le> b \<and> b < 192" for b :: nat
  using div_window[of 64 b 2] by (simp add: and_C0)

lemma utf8Tail_Suc:
  "utf8Tail s p (Suc n) v =
     (if 128 \<le> byte_of (s ! p) \<and> byte_of (s ! p) < 192
      then utf8Tail s (Suc p) n (v * 64 + (byte_of (s ! p) - 128)) else None)"
  using mod_window[of 2 64 "byte_of (s ! p)"] continuation_byte[of "byte_of (s ! p)"]
    shift_or[of "byte_of (s ! p) - 128" v]
  by (cases "128 \<le> byte_of (s ! p) \<and> byte_of (s ! p) < 192") (auto simp: Let_def and_3F)

declare utf8Tail.simps(2) [simp del]

lemma utf8Tail_numeral:
  "utf8Tail s p (numeral k) v =
     (if 128 \<le> byte_of (s ! p) \<and> byte_of (s ! p) < 192
      then utf8Tail s (Suc p) (pred_numeral k) (v * 64 + (byte_of (s ! p) - 128)) else None)"
  using utf8Tail_Suc[of s p "pred_numeral k" v] by (simp only: numeral_eq_Suc[of k])

text \<open>The four shapes of an encoding, in arithmetic form.\<close>

lemma appendUtf8_arith:
  "cp < 0x110000 \<Longrightarrow> appendUtf8 out cp = out @
     (if cp < 0x80 then [char_of cp]
      else if cp < 0x800 then [char_of (192 + cp div 64), char_of (128 + cp mod 64)]
      else if cp < 0x10000 then
        [char_of (224 + cp div 4096), char_of (128 + cp div 64 mod 64), char_of (128 + cp mod 64)]
      else
        [char_of (240 + cp div 262144), char_of (128 + cp div 4096 mod 64),
         char_of (128 + cp div 64 mod 64), char_of (128 + cp mod 64)])"
  by (simp add: appendUtf8_def utf8_arith)

lemma appendUtf8_append: "appendUtf8 out cp = out @ appendUtf8 [] cp"
  by (simp add: appendUtf8_def)

subsection \<open>Round trips\<close>

lemma base64_step: "cp div (64 * k) * 64 + cp div k mod 64 = cp div k" for cp k :: nat
  by (metis div_mult2_eq div_mult_mod_eq mult.commute)

text \<open>What the decoder makes of each shape of byte sequence.\<close>

lemma decode_bytes2:
  assumes "a < 32" "b < 64"
  shows "decodeUtf8 (pre @ [char_of (192 + a), char_of (128 + b)] @ rest) (length pre) =
    (if a * 64 + b < 0x80 then None else Some (2, a * 64 + b))"
  using assms by (simp add: decodeUtf8_def nth_append utf8Lead_arith utf8Tail_Suc Let_def)

lemma decode_bytes3:
  assumes "a < 16" "b < 64" "c < 64" and v: "v = (a * 64 + b) * 64 + c"
  shows "decodeUtf8 (pre @ [char_of (224 + a), char_of (128 + b), char_of (128 + c)] @ rest) (length pre) =
    (if v < 0x800 \<or> \<not> unicodeScalar v then None else Some (3, v))"
  using assms(1-3) by (auto simp add: v decodeUtf8_def nth_append utf8Lead_arith utf8Tail_Suc
      utf8Tail_numeral Let_def unicodeScalar_def)

lemma decode_bytes4:
  assumes "a < 8" "b < 64" "c < 64" "d < 64" and v: "v = ((a * 64 + b) * 64 + c) * 64 + d"
  shows "decodeUtf8 (pre @ [char_of (240 + a), char_of (128 + b), char_of (128 + c), char_of (128 + d)] @ rest)
    (length pre) = (if v < 0x10000 \<or> \<not> unicodeScalar v then None else Some (4, v))"
  using assms(1-4) by (auto simp add: v decodeUtf8_def nth_append utf8Lead_arith utf8Tail_Suc
      utf8Tail_numeral Let_def unicodeScalar_def)

lemma decode_append_aux:
  assumes "unicodeScalar cp"
  shows "decodeUtf8 (pre @ appendUtf8 [] cp @ rest) (length pre)
           = Some (length (appendUtf8 [] cp), cp)"
proof -
  have cp: "cp < 1114112" using assms by (simp add: unicodeScalar_def)
  have d2: "cp div 4096 * 64 + cp div 64 mod 64 = cp div 64" using base64_step[of cp 64] by simp
  have d3: "cp div 262144 * 64 + cp div 4096 mod 64 = cp div 4096" using base64_step[of cp 4096] by simp
  have d1: "cp div 64 * 64 + cp mod 64 = cp" by (rule div_mult_mod_eq)
  consider "cp < 0x80" | "0x80 \<le> cp" "cp < 0x800" | "0x800 \<le> cp" "cp < 0x10000" | "0x10000 \<le> cp"
    by linarith
  then show ?thesis
  proof cases
    case 1
    then show ?thesis by (simp add: appendUtf8_def decodeUtf8_def nth_append)
  next
    case 2
    then have "cp div 64 < 32" by (simp add: less_mult_imp_div_less)
    from decode_bytes2[OF this, of "cp mod 64" pre rest] show ?thesis
      using 2 cp d1 by (simp add: appendUtf8_arith)
  next
    case 3
    then have "cp div 4096 < 16" by (simp add: less_mult_imp_div_less)
    from decode_bytes3[OF this, of "cp div 64 mod 64" "cp mod 64" cp pre rest] show ?thesis
      using 3 cp d1 d2 assms by (simp add: appendUtf8_arith)
  next
    case 4
    then have "cp div 262144 < 8" using cp by (simp add: less_mult_imp_div_less)
    from decode_bytes4[OF this, of "cp div 4096 mod 64" "cp div 64 mod 64" "cp mod 64" cp pre rest] show ?thesis
      using 4 cp d1 d2 d3 assms by (simp add: appendUtf8_arith)
  qed
qed

text \<open>
  Conversely, a successful decode names the bytes it read: they are the canonical encoding of
  the decoded value.
\<close>

lemma utf8Tail_SomeE:
  assumes "utf8Tail s p (Suc n) v = Some w"
  obtains b where "b < 64" "s ! p = char_of (128 + b)" "utf8Tail s (Suc p) n (v * 64 + b) = Some w"
proof
  from assms have b: "128 \<le> byte_of (s ! p)" "byte_of (s ! p) < 192"
    by (auto simp: utf8Tail_Suc split: if_splits)
  then show "byte_of (s ! p) - 128 < 64" by simp
  from b show "s ! p = char_of (128 + (byte_of (s ! p) - 128))" by simp
  from assms b show "utf8Tail s (Suc p) n (v * 64 + (byte_of (s ! p) - 128)) = Some w"
    by (simp add: utf8Tail_Suc)
qed

lemma take_Suc_nth: "p < length s \<Longrightarrow> take (Suc n) (drop p s) = s ! p # take n (drop (Suc p) s)"
  by (simp add: Cons_nth_drop_Suc[symmetric])

lemma take_drop_nth1: "p + 1 \<le> length s \<Longrightarrow> take 1 (drop p s) = [s ! p]"
  using take_Suc_nth[of p s 0] by simp

lemma take_drop_nth2: "p + 2 \<le> length s \<Longrightarrow> take 2 (drop p s) = [s ! p, s ! (p + 1)]"
  using take_Suc_nth[of p s 1] take_drop_nth1[of "Suc p" s] by (simp add: numeral_2_eq_2)

lemma take_drop_nth3: "p + 3 \<le> length s \<Longrightarrow> take 3 (drop p s) = [s ! p, s ! (p + 1), s ! (p + 2)]"
  using take_Suc_nth[of p s 2] take_drop_nth2[of "Suc p" s] by (simp add: numeral_3_eq_3)

lemma take_drop_nth4:
  "p + 4 \<le> length s \<Longrightarrow> take 4 (drop p s) = [s ! p, s ! (p + 1), s ! (p + 2), s ! (p + 3)]"
  using take_Suc_nth[of p s 3] take_drop_nth3[of "Suc p" s]
  by (simp add: eval_nat_numeral)

lemma digit64: "c < 64 \<Longrightarrow> cp = x * 64 + c \<Longrightarrow> cp div 64 = x \<and> cp mod 64 = c" for cp x c :: nat
  by simp

text \<open>A value assembled from its sextets is encoded by those sextets.\<close>

lemma encode_sextets2:
  assumes "a < 32" "b < 64" "cp = a * 64 + b" "0x80 \<le> cp"
  shows "appendUtf8 [] cp = [char_of (192 + a), char_of (128 + b)]"
proof -
  have "cp div 64 = a" "cp mod 64 = b" "cp < 0x800" using assms by simp_all
  then show ?thesis using assms(4) by (simp add: appendUtf8_arith)
qed

lemma encode_sextets3:
  assumes "a < 16" "b < 64" "c < 64" "cp = (a * 64 + b) * 64 + c" "0x800 \<le> cp"
  shows "appendUtf8 [] cp = [char_of (224 + a), char_of (128 + b), char_of (128 + c)]"
proof -
  have d: "cp div 64 = a * 64 + b" "cp mod 64 = c" using digit64[OF assms(3,4)] by simp_all
  have "a * 64 + b < 1024" using assms(1,2) by linarith
  then have "cp < 0x10000" using assms(3) by (simp add: assms(4))
  moreover have "cp div 4096 = a" using d(1) assms(2) div_mult2_eq[of cp 64 64] by simp
  ultimately show ?thesis using assms d by (simp add: appendUtf8_arith)
qed

lemma encode_sextets4:
  assumes "b < 64" "c < 64" "d < 64" "cp = ((a * 64 + b) * 64 + c) * 64 + d" "0x10000 \<le> cp" "cp \<le> 0x10FFFF"
  shows "appendUtf8 [] cp = [char_of (240 + a), char_of (128 + b), char_of (128 + c), char_of (128 + d)]"
proof -
  have e: "cp div 64 = (a * 64 + b) * 64 + c" "cp mod 64 = d" using digit64[OF assms(3,4)] by simp_all
  have f: "cp div 4096 = a * 64 + b" using e(1) assms(2) div_mult2_eq[of cp 64 64] by simp
  have g: "cp div 262144 = a" using f assms(1) div_mult2_eq[of cp 4096 64] by simp
  have "cp div 64 mod 64 = c" using digit64[OF assms(2) e(1)] by simp
  then show ?thesis using assms(1-3,5,6) e(2) f g by (simp add: appendUtf8_arith)
qed

lemma decode_sound_aux:
  assumes dec: "decodeUtf8 s p = Some (len, cp)" and p: "p < length s"
  shows "unicodeScalar cp \<and> len \<le> length s - p \<and> 0 < len \<and> take len (drop p s) = appendUtf8 [] cp"
proof (cases "byte_of (s ! p) < 0x80")
  case True
  then show ?thesis using dec p take_Suc_nth[of p s 0]
    by (auto simp: decodeUtf8_def appendUtf8_def unicodeScalar_def)
next
  case False
  let ?b = "byte_of (s ! p)"
  obtain val0 minimum where lead: "utf8Lead ?b = Some (len, val0, minimum)"
    and fit: "len \<le> length s - p" and tail: "utf8Tail s (Suc p) (len - 1) val0 = Some cp"
    and ok: "minimum \<le> cp" "unicodeScalar cp"
    using dec False
    by (auto simp: decodeUtf8_def Let_def unicodeScalar_def split: option.splits if_splits)
  from lead consider
      "val0 < 32" "s ! p = char_of (192 + val0)" "len = 2" "minimum = 0x80"
    | "val0 < 16" "s ! p = char_of (224 + val0)" "len = 3" "minimum = 0x800"
    | "val0 < 8" "s ! p = char_of (240 + val0)" "len = 4" "minimum = 0x10000"
    by (auto simp: utf8Lead_arith split: if_splits)
  then show ?thesis
  proof cases
    case 1
    from tail 1 obtain b where b: "b < 64" "s ! (p + 1) = char_of (128 + b)" "cp = val0 * 64 + b"
      by (auto elim!: utf8Tail_SomeE)
    then show ?thesis using ok 1 fit encode_sextets2[of val0 b cp] take_drop_nth2[of p s] by simp
  next
    case 2
    from tail 2 obtain b c where bc: "b < 64" "s ! (p + 1) = char_of (128 + b)"
        "c < 64" "s ! (p + 2) = char_of (128 + c)" "cp = (val0 * 64 + b) * 64 + c"
      by (auto simp: numeral_2_eq_2 elim!: utf8Tail_SomeE)
    then show ?thesis using ok 2 fit encode_sextets3[of val0 b c cp] take_drop_nth3[of p s] by simp
  next
    case 3
    from tail 3 obtain b c d where bcd: "b < 64" "s ! (p + 1) = char_of (128 + b)"
        "c < 64" "s ! (p + 2) = char_of (128 + c)" "d < 64" "s ! (p + 3) = char_of (128 + d)"
        "cp = ((val0 * 64 + b) * 64 + c) * 64 + d"
      by (auto simp: numeral_2_eq_2 numeral_3_eq_3 elim!: utf8Tail_SomeE)
    then show ?thesis
      using ok 3 fit encode_sextets4[of b c d cp val0] take_drop_nth4[of p s] by (simp add: unicodeScalar_def)
  qed
qed

text \<open>
  C20: decoding at the place where a Unicode scalar value was encoded, whatever surrounds it,
  gives that value and the number of bytes written.
\<close>

theorem appendUtf8_roundtrip:
  assumes "unicodeScalar cp"
  shows "decodeUtf8 (appendUtf8 out cp @ rest) (length out) = Some (length (appendUtf8 out cp) - length out, cp)"
  using decode_append_aux[OF assms, of out rest] by (simp add: appendUtf8_append[of out])

theorem appendUtf8_roundtrip_witness:
  "decodeUtf8 (appendUtf8 ''ab'' 8364 @ ''z'') 2 = Some (length (appendUtf8 ''ab'' 8364) - 2, 8364)"
  using appendUtf8_roundtrip[of 8364 "''ab''" "''z''"] by (simp add: unicodeScalar_def numeral_2_eq_2)

text \<open>
  Whatever the decoder accepts is the canonical encoding of a Unicode scalar value inside
  the string: overlong forms, surrogates, values beyond U+10FFFF and truncated sequences are all
  refused.
\<close>

theorem decodeUtf8_sound:
  assumes "decodeUtf8 s p = Some (len, cp)" "p < length s"
  shows "unicodeScalar cp \<and> p + len \<le> length s \<and> take len (drop p s) = appendUtf8 [] cp"
  using decode_sound_aux[OF assms] assms(2) by auto

theorem decodeUtf8_sound_witness:
  "unicodeScalar 97 \<and> 0 + 1 \<le> length ''ab'' \<and> take 1 (drop 0 ''ab'') = appendUtf8 [] 97"
  by (rule decodeUtf8_sound) (simp_all add: decodeUtf8_def byte_of_def)

end
