(* ===== verification/Hashing.thy ===== *)
theory Hashing
  imports Utf8
begin

text \<open>
  Hash functions (\<^verbatim>\<open>src/src/runtime/Hashing.h\<close>): MurmurHash3 as Scala uses it for products and
  sequences, and the hash codes of the Java library for strings, longs and (by their bit
  patterns) floating-point numbers.  All arithmetic is on 32- and 64-bit words, so the
  wrap-around of the C++ code is the wrap-around of the model.
\<close>

subsection \<open>The definitions\<close>

definition kProductSeed :: u32 where
  "kProductSeed = 0xcafebabe"

definition rotl :: "u32 \<Rightarrow> nat \<Rightarrow> u32" where
  "rotl x r = push_bit r x OR drop_bit (32 - r) x"

definition mixLast :: "u32 \<Rightarrow> u32 \<Rightarrow> u32" where
  "mixLast h k =
     (let k1 = k * 0xcc9e2d51;
          k2 = rotl k1 15;
          k3 = k2 * 0x1b873593
      in h XOR k3)"

definition mix :: "u32 \<Rightarrow> u32 \<Rightarrow> u32" where
  "mix h data =
     (let h1 = mixLast h data;
          h2 = rotl h1 13
      in h2 * 5 + 0xe6546b64)"

definition avalanche :: "u32 \<Rightarrow> u32" where
  "avalanche h =
     (let h1 = h XOR drop_bit 16 h;
          h2 = h1 * 0x85ebca6b;
          h3 = h2 XOR drop_bit 13 h2;
          h4 = h3 * 0xc2b2ae35
      in h4 XOR drop_bit 16 h4)"

definition finalizeHash :: "u32 \<Rightarrow> u32 \<Rightarrow> u32" where
  "finalizeHash h len = avalanche (h XOR len)"

text \<open>
  \<^verbatim>\<open>String.hashCode\<close> over the UTF-16 code units of a UTF-8 string.  The loop reads a lead byte, up
  to three continuation bytes (fewer at the end of the string), and adds one or two units.
\<close>

definition leadByte :: "nat \<Rightarrow> u32 \<times> nat" where
  "leadByte b =
     (if b < 0x80 then (of_nat b, 1)
      else if b < 0xE0 then (of_nat b AND 0x1F, 2)
      else if b < 0xF0 then (of_nat b AND 0x0F, 3)
      else (of_nat b AND 0x07, 4))"

definition continueCp :: "u32 \<Rightarrow> byte_string \<Rightarrow> u32" where
  "continueCp cp cs = foldl (\<lambda>v c. push_bit 6 v OR (of_nat (byte_of c) AND 0x3F)) cp cs"

definition addUnits :: "u32 \<Rightarrow> u32 \<Rightarrow> u32" where
  "addUnits h cp =
     (if cp \<ge> 0x10000 then
        let c = cp - 0x10000;
            h1 = 31 * h + (0xD800 + drop_bit 10 c)
        in 31 * h1 + (0xDC00 + (c AND 0x3FF))
      else 31 * h + cp)"

function stringHashLoop :: "u32 \<Rightarrow> byte_string \<Rightarrow> u32" where
  "stringHashLoop h [] = h"
| "stringHashLoop h (c # cs) =
     (case leadByte (byte_of c) of (cp0, len) \<Rightarrow>
        stringHashLoop (addUnits h (continueCp cp0 (take (len - 1) cs))) (drop (len - 1) cs))"
  by pat_completeness auto
termination
  by (relation "measure (\<lambda>(h, cs). length cs)") (auto simp: less_Suc_eq_le)

definition javaStringHash :: "byte_string \<Rightarrow> u32" where
  "javaStringHash utf8 = stringHashLoop 0 utf8"

definition productHash :: "u32 \<Rightarrow> u32 list \<Rightarrow> u32" where
  "productHash prefixHash elements =
     (if elements = [] then prefixHash
      else finalizeHash (foldl mix (mix kProductSeed prefixHash) elements) (of_nat (length elements)))"

definition seqHash :: "u32 list \<Rightarrow> u32" where
  "seqHash elements =
     finalizeHash (foldl mix (javaStringHash ''Seq'') elements) (of_nat (length elements))"

text \<open>\<^verbatim>\<open>std::int32_t\<close> results are kept as the words they are cast from.\<close>

definition longHash :: "u64 \<Rightarrow> u32" where
  "longHash v =
     (let i = ucast v :: u32 in
      if scast i = v then i else ucast (v XOR drop_bit 32 v))"

text \<open>IEEE bit patterns: a NaN has an all-ones exponent and a non-zero fraction.\<close>

definition isnanBits64 :: "u64 \<Rightarrow> bool" where
  "isnanBits64 bits \<longleftrightarrow>
     bits AND 0x7ff0000000000000 = 0x7ff0000000000000 \<and> bits AND 0x000fffffffffffff \<noteq> 0"

definition isnanBits32 :: "u32 \<Rightarrow> bool" where
  "isnanBits32 bits \<longleftrightarrow> bits AND 0x7f800000 = 0x7f800000 \<and> bits AND 0x007fffff \<noteq> 0"

definition javaDoubleHash :: "u64 \<Rightarrow> u32" where
  "javaDoubleHash d =
     (let bits = (if isnanBits64 d then 0x7ff8000000000000 else d)
      in ucast (bits XOR drop_bit 32 bits))"

definition javaFloatHash :: "u32 \<Rightarrow> u32" where
  "javaFloatHash f = (if isnanBits32 f then 0x7fc00000 else f)"

subsection \<open>Every step of the mixing is a bijection\<close>

lemma mult_cancel: "c * d = 1 \<Longrightarrow> x * c = y * c \<Longrightarrow> x = y" for c d x y :: "'a::len word"
  by (metis mult.assoc mult.right_neutral)

text \<open>Multiplication by each of the constants has an inverse modulo $2^{32}$.\<close>

lemma mult_inj:
  "inj (\<lambda>x :: u32. x * 0xcc9e2d51)" "inj (\<lambda>x :: u32. x * 0x1b873593)"
  "inj (\<lambda>x :: u32. x * 0x85ebca6b)" "inj (\<lambda>x :: u32. x * 0xc2b2ae35)" "inj (\<lambda>x :: u32. x * 5)"
proof -
  show "inj (\<lambda>x :: u32. x * 0xcc9e2d51)" by (rule injI, rule mult_cancel[of "0xcc9e2d51" "0xdee13bb1"]) simp_all
  show "inj (\<lambda>x :: u32. x * 0x1b873593)" by (rule injI, rule mult_cancel[of "0x1b873593" "0x56ed309b"]) simp_all
  show "inj (\<lambda>x :: u32. x * 0x85ebca6b)" by (rule injI, rule mult_cancel[of "0x85ebca6b" "0xa5cb9243"]) simp_all
  show "inj (\<lambda>x :: u32. x * 0xc2b2ae35)" by (rule injI, rule mult_cancel[of "0xc2b2ae35" "0x7ed1b41d"]) simp_all
  show "inj (\<lambda>x :: u32. x * 5)" by (rule injI, rule mult_cancel[of "5" "0xcccccccd"]) simp_all
qed

lemma rotl_bit:
  assumes "0 < r" "r < 32" "n < 32"
  shows "bit (rotl x r) n = bit x (if r \<le> n then n - r else n + 32 - r)"
  using assms
  by (auto simp: rotl_def bit_or_iff bit_push_bit_iff bit_drop_bit_eq dest: bit_imp_le_length)
     (simp_all add: add.commute)

lemma rotl_inj:
  assumes "0 < r" "r < 32"
  shows "inj (\<lambda>x. rotl x r)"
proof (rule injI)
  fix x y assume e: "rotl x r = rotl y r"
  show "x = y"
  proof (rule bit_word_eqI)
    fix n assume n: "n < LENGTH(32)"
    let ?m = "if n + r < 32 then n + r else n + r - 32"
    have "?m < 32" using n assms by auto
    from rotl_bit[OF assms this, of x] rotl_bit[OF assms this, of y] e
    show "bit x n = bit y n" using n assms by (auto split: if_splits)
  qed
qed

lemma xorshift_inj:
  assumes "0 < r"
  shows "inj (\<lambda>x :: u32. x XOR drop_bit r x)"
proof (rule injI)
  fix x y :: u32 assume e: "x XOR drop_bit r x = y XOR drop_bit r y"
  have "\<forall>n. 32 - n \<le> k \<longrightarrow> bit x n = bit y n" for k
  proof (induction k)
    case 0
    then show ?case using bit_imp_le_length[of x] bit_imp_le_length[of y] by (auto simp: not_le[symmetric])
  next
    case (Suc k)
    show ?case
    proof (intro allI impI)
      fix n assume "32 - n \<le> Suc k"
      then have "bit x (r + n) = bit y (r + n)" using Suc assms by simp
      moreover have "bit (x XOR drop_bit r x) n = bit (y XOR drop_bit r y) n" using e by simp
      ultimately show "bit x n = bit y n" by (simp add: bit_xor_iff bit_drop_bit_eq) blast
    qed
  qed
  then show "x = y" by (intro bit_eqI) (metis order_refl)
qed

lemma xor_inj: "inj (\<lambda>x :: u32. x XOR c)" "inj (\<lambda>x :: u32. c XOR x)"
  by (rule injI, metis xor.assoc xor_self_eq xor.right_neutral xor.commute)+

lemma mixLast_inj: "inj (\<lambda>h. mixLast h k)" "inj (mixLast h)"
proof -
  show "inj (\<lambda>h. mixLast h k)" using xor_inj(1) by (simp add: mixLast_def Let_def)
  have "mixLast h = (\<lambda>k. h XOR k) \<circ> (\<lambda>x. x * 0x1b873593) \<circ> (\<lambda>x. rotl x 15) \<circ> (\<lambda>x. x * 0xcc9e2d51)"
    by (auto simp: mixLast_def Let_def)
  then show "inj (mixLast h)" using mult_inj(1,2) rotl_inj[of 15] xor_inj(2)[of h]
    by (simp add: inj_compose)
qed

lemma step_inj: "inj (\<lambda>x. rotl x 13 * 5 + 0xe6546b64)"
proof -
  have "inj ((\<lambda>x :: u32. x + 0xe6546b64) \<circ> (\<lambda>x. x * 5) \<circ> (\<lambda>x. rotl x 13))"
    by (intro inj_compose mult_inj rotl_inj) (auto intro: injI)
  then show ?thesis by (simp add: comp_def)
qed

lemma mix_inj: "inj (\<lambda>h. mix h d)" "inj (mix h)"
proof -
  have "(\<lambda>h. mix h d) = (\<lambda>x. rotl x 13 * 5 + 0xe6546b64) \<circ> (\<lambda>h. mixLast h d)"
    "mix h = (\<lambda>x. rotl x 13 * 5 + 0xe6546b64) \<circ> mixLast h"
    by (auto simp: mix_def Let_def)
  then show "inj (\<lambda>h. mix h d)" "inj (mix h)"
    using inj_compose[OF step_inj mixLast_inj(1)[of d]] inj_compose[OF step_inj mixLast_inj(2)[of h]]
    by simp_all
qed

lemma avalanche_inj: "inj avalanche"
proof -
  have eq: "avalanche = (\<lambda>x. x XOR drop_bit 16 x) \<circ> (\<lambda>x. x * 0xc2b2ae35) \<circ> (\<lambda>x. x XOR drop_bit 13 x) \<circ>
      (\<lambda>x. x * 0x85ebca6b) \<circ> (\<lambda>x. x XOR drop_bit 16 x)"
    by (auto simp: avalanche_def Let_def)
  show ?thesis unfolding eq by (intro inj_compose mult_inj xorshift_inj) simp_all
qed

lemma foldl_mix_inj: "inj (\<lambda>h. foldl mix h es)"
proof (induction es)
  case (Cons e es)
  then show ?case using inj_compose[OF Cons mix_inj(1)[of e]] by (simp add: comp_def)
qed (simp add: inj_on_def)

lemma finalizeHash_inj: "inj (\<lambda>h. finalizeHash h n)"
  using inj_compose[OF avalanche_inj xor_inj(1)[of n]] by (simp add: finalizeHash_def comp_def)

text \<open>
  The finaliser is a permutation of the 32-bit words and each mixing step is a permutation
  in either argument, so no hash state is lost between the seed and the result.
\<close>

theorem mixing_bijective: "bij avalanche \<and> bij (mix h) \<and> bij (\<lambda>h. mix h d) \<and> bij (\<lambda>h. finalizeHash h n)"
  using avalanche_inj mix_inj finalizeHash_inj by (auto intro!: bijI finite_UNIV_inj_surj[OF finite])

text \<open>
  Values of one case class, or two tuples of one arity, that differ in exactly one component's
  hash have different hashes; so do two sequences.
\<close>

theorem productHash_separates:
  assumes "x \<noteq> y"
  shows "productHash p (es @ x # fs) \<noteq> productHash p (es @ y # fs) \<and>
         seqHash (es @ x # fs) \<noteq> seqHash (es @ y # fs)"
proof -
  have ne: "foldl mix h (es @ x # fs) \<noteq> foldl mix h (es @ y # fs)" for h
  proof -
    have "mix (foldl mix h es) x \<noteq> mix (foldl mix h es) y" using assms by (simp add: inj_eq[OF mix_inj(2)])
    then show ?thesis by (simp add: inj_eq[OF foldl_mix_inj])
  qed
  have "finalizeHash a n \<noteq> finalizeHash b n" if "a \<noteq> b" for a b n
    using that by (simp add: inj_eq[OF finalizeHash_inj])
  from this[OF ne] show ?thesis unfolding productHash_def seqHash_def by simp
qed

theorem productHash_separates_witness:
  "productHash 7 ([1] @ 2 # [3]) \<noteq> productHash 7 ([1] @ 4 # [3]) \<and> seqHash ([1] @ 2 # [3]) \<noteq> seqHash ([1] @ 4 # [3])"
  by (rule productHash_separates) simp

subsection \<open>String hashes\<close>

text \<open>The UTF-16 code units of a scalar value, and the hash as the Java library defines it.\<close>

definition utf16Units :: "nat \<Rightarrow> nat list" where
  "utf16Units cp =
     (if cp < 0x10000 then [cp]
      else [0xD800 + (cp - 0x10000) div 1024, 0xDC00 + (cp - 0x10000) mod 1024])"

definition polyHash :: "u32 \<Rightarrow> nat list \<Rightarrow> u32" where
  "polyHash h units = foldl (\<lambda>h u. 31 * h + of_nat u) h units"

definition encodeUtf8 :: "nat list \<Rightarrow> byte_string" where
  "encodeUtf8 cps = concat (map (appendUtf8 []) cps)"

lemma of_nat_and: "of_nat (m AND n) = (of_nat m AND of_nat n :: u32)"
  by (rule of_nat_and_eq)

lemma cont_step: "b < 64 \<Longrightarrow> push_bit 6 (of_nat v :: u32) OR (of_nat (128 + b) AND 0x3F) = of_nat (v * 64 + b)"
proof -
  assume b: "b < 64"
  have "of_nat (128 + b) AND 0x3F = (of_nat b :: u32)"
    using of_nat_and[of "128 + b" "0x3F"] b by (simp add: and_3F mod_add_eq[symmetric])
  moreover have "push_bit 6 (of_nat v :: u32) OR of_nat b = of_nat (push_bit 6 v OR b)"
    by (simp add: of_nat_or_eq push_bit_of_nat)
  ultimately show ?thesis using shift_or[OF b, of v] by simp
qed

lemma leadByte_shapes:
  "a < 32 \<Longrightarrow> leadByte (192 + a) = (of_nat a, 2)"
  "a < 16 \<Longrightarrow> leadByte (224 + a) = (of_nat a, 3)"
  "a < 8 \<Longrightarrow> leadByte (240 + a) = (of_nat a, 4)"
  using of_nat_and[of "192 + a" "0x1F"] of_nat_and[of "224 + a" "0x0F"] of_nat_and[of "240 + a" "0x07"]
  by (simp_all add: leadByte_def and_1F and_0F and_07 mod_add_eq[symmetric])

lemma hash_shapes:
  "a < 32 \<Longrightarrow> b < 64 \<Longrightarrow> stringHashLoop h ([char_of (192 + a), char_of (128 + b)] @ rest) =
     stringHashLoop (addUnits h (of_nat (a * 64 + b))) rest"
  "a < 16 \<Longrightarrow> b < 64 \<Longrightarrow> c < 64 \<Longrightarrow>
     stringHashLoop h ([char_of (224 + a), char_of (128 + b), char_of (128 + c)] @ rest) =
     stringHashLoop (addUnits h (of_nat ((a * 64 + b) * 64 + c))) rest"
  "a < 8 \<Longrightarrow> b < 64 \<Longrightarrow> c < 64 \<Longrightarrow> d < 64 \<Longrightarrow>
     stringHashLoop h ([char_of (240 + a), char_of (128 + b), char_of (128 + c), char_of (128 + d)] @ rest) =
     stringHashLoop (addUnits h (of_nat (((a * 64 + b) * 64 + c) * 64 + d))) rest"
  by (simp_all add: leadByte_shapes continueCp_def cont_step numeral_2_eq_2 numeral_3_eq_3
      del: of_nat_add of_nat_mult)

lemma hash_one_char:
  assumes "cp < 0x110000"
  shows "stringHashLoop h (appendUtf8 [] cp @ rest) = stringHashLoop (addUnits h (of_nat cp)) rest"
proof -
  have d: "cp div 64 * 64 + cp mod 64 = cp" "cp div 4096 * 64 + cp div 64 mod 64 = cp div 64"
    "cp div 262144 * 64 + cp div 4096 mod 64 = cp div 4096"
    using div_mult_mod_eq base64_step[of cp 64] base64_step[of cp 4096] by simp_all
  consider "cp < 0x80" | "0x80 \<le> cp" "cp < 0x800" | "0x800 \<le> cp" "cp < 0x10000" | "0x10000 \<le> cp"
    by linarith
  then show ?thesis
  proof cases
    case 1
    then show ?thesis by (simp add: appendUtf8_arith leadByte_def continueCp_def)
  next
    case 2
    then have "cp div 64 < 32" by (simp add: less_mult_imp_div_less)
    from hash_shapes(1)[OF this, of "cp mod 64"] 2 assms show ?thesis by (simp add: appendUtf8_arith d)
  next
    case 3
    then have "cp div 4096 < 16" by (simp add: less_mult_imp_div_less)
    from hash_shapes(2)[OF this, of "cp div 64 mod 64" "cp mod 64"] 3 assms show ?thesis
      by (simp add: appendUtf8_arith d)
  next
    case 4
    then have "cp div 262144 < 8" using assms by (simp add: less_mult_imp_div_less)
    from hash_shapes(3)[OF this, of "cp div 4096 mod 64" "cp div 64 mod 64" "cp mod 64"] 4 assms show ?thesis
      by (simp add: appendUtf8_arith d)
  qed
qed

lemma addUnits_polyHash:
  assumes "cp < 0x110000"
  shows "addUnits h (of_nat cp) = polyHash h (utf16Units cp)"
proof (cases "cp < 0x10000")
  case True
  then have "\<not> (0x10000 :: u32) \<le> of_nat cp" by (simp add: word_le_nat_alt unat_of_nat)
  then show ?thesis using True by (simp add: addUnits_def polyHash_def utf16Units_def)
next
  case False
  then have "(0x10000 :: u32) \<le> of_nat cp" using assms by (simp add: word_le_nat_alt unat_of_nat)
  moreover have sub: "of_nat cp - (0x10000 :: u32) = of_nat (cp - 0x10000)" using False by (simp add: of_nat_diff)
  moreover have "drop_bit 10 (of_nat (cp - 0x10000) :: u32) = of_nat ((cp - 0x10000) div 1024)"
  proof (rule word_unat_eq_iff[THEN iffD2])
    have "cp - 0x10000 < 2 ^ 32" using assms by simp
    then show "unat (drop_bit 10 (of_nat (cp - 0x10000) :: u32)) = unat (of_nat ((cp - 0x10000) div 1024) :: u32)"
      using assms by (simp only: unat_drop_bit_eq) (simp add: unat_of_nat drop_bit_eq_div)
  qed
  moreover have "of_nat (cp - 0x10000) AND (0x3FF :: u32) = of_nat ((cp - 0x10000) mod 1024)"
    using of_nat_and[of "cp - 0x10000" "0x3FF"] and_low_bits[of "cp - 0x10000" 10] by simp
  ultimately show ?thesis using False
    by (simp add: addUnits_def Let_def polyHash_def utf16Units_def)
qed

lemma stringHashLoop_encode:
  "list_all unicodeScalar cps \<Longrightarrow> stringHashLoop h (encodeUtf8 cps) = polyHash h (concat (map utf16Units cps))"
proof (induction cps arbitrary: h)
  case (Cons cp cps)
  have "cp < 0x110000" using Cons(2) by (simp add: unicodeScalar_def)
  then show ?case using Cons hash_one_char[of cp h "encodeUtf8 cps"] addUnits_polyHash[of cp h]
    by (simp add: encodeUtf8_def) (simp add: polyHash_def)
qed (simp add: encodeUtf8_def polyHash_def)

text \<open>
  C22: on the UTF-8 form of any sequence of Unicode scalar values, \<^verbatim>\<open>javaStringHash\<close> is the
  polynomial $\sum 31^{n-1-i} u_i$ over the UTF-16 code units $u_i$ of the text, surrogate pairs
  included, computed modulo $2^{32}$.
\<close>

theorem javaStringHash_utf16:
  assumes "list_all unicodeScalar cps"
  shows "javaStringHash (encodeUtf8 cps) = polyHash 0 (concat (map utf16Units cps))"
  using stringHashLoop_encode[OF assms] by (simp add: javaStringHash_def)

theorem javaStringHash_utf16_witness:
  "javaStringHash (encodeUtf8 [97, 8364, 128512]) = polyHash 0 (concat (map utf16Units [97, 8364, 128512]))"
  by (rule javaStringHash_utf16) (simp add: unicodeScalar_def)

subsection \<open>Hashes of numbers\<close>

text \<open>
  An integer in the 32-bit range hashes to itself, so \<^verbatim>\<open>Int\<close> and \<^verbatim>\<open>Long\<close> values that are equal
  have equal hashes.
\<close>

lemma longHash_int_range: "longHash (scast (i :: u32)) = i"
proof -
  have "ucast (scast i :: u64) = i"
    by (rule bit_word_eqI) (simp add: bit_simps)
  then show ?thesis by (simp add: longHash_def Let_def)
qed

end
