(* ===== verification/Opcodes.thy ===== *)
theory Opcodes
  imports Prelude
begin

text \<open>
  The instruction set (\<^verbatim>\<open>src/src/compiler/Opcodes.h\<close>): opcodes with their fixed numbers, the names
  and the type codes of \<^verbatim>\<open>TEST_TYPE\<close> (named in \<^verbatim>\<open>src/src/compiler/BytecodeModule.cpp\<close>), and the
  layout constants of an instruction word.  A byte that is no opcode has the name \<^verbatim>\<open>?\<close>, as the
  default branch of the source gives it.
\<close>

subsection \<open>Opcodes\<close>

datatype (plugins only: code size) Op =
   EXTEND | PUSH_CONST | PUSH_UNIT | PUSH_NULL | PUSH_TRUE | PUSH_FALSE | POP | DUP
  | PUSH_LOCAL | STORE_LOCAL | MAKE_CELL | PUSH_CELL | STORE_CELL | PUSH_GLOBAL | STORE_GLOBAL
  | MAKE_FN | CALL | CALL_SPREAD | SEND | RETURN | MAKE_LAZY | FORCE | JUMP | JUMP_IF_FALSE
  | JUMP_IF_TRUE | JUMP_BACK | ADD | SUB | MUL | LT | LE | GT | GE | EQ | NE | NEG | OP_NOT
  | FORCE_THUNK | CONCAT | MAKE_CLASS | NEW | INVOKE_INIT | STORE_FIELD | SET_FIELD
  | SEND_SUPER | TEST_TYPE | TEST_PROTO | UNAPPLY_FIELDS | UNCONS | MATCH_ERROR | CAST_FAIL
  | MAKE_TUPLE | SEND_KW | NEW_SPREAD | SEND_APPLY | CALL_KW | STORE_FIELD_IF_NEW
  | STORE_FIELDS_IF_NEW | THROW | RETHROW

primrec opNumber :: "Op \<Rightarrow> nat" where
  "opNumber EXTEND = 1"
| "opNumber PUSH_CONST = 2"
| "opNumber PUSH_UNIT = 3"
| "opNumber PUSH_NULL = 4"
| "opNumber PUSH_TRUE = 5"
| "opNumber PUSH_FALSE = 6"
| "opNumber POP = 7"
| "opNumber DUP = 8"
| "opNumber PUSH_LOCAL = 9"
| "opNumber STORE_LOCAL = 10"
| "opNumber MAKE_CELL = 11"
| "opNumber PUSH_CELL = 12"
| "opNumber STORE_CELL = 13"
| "opNumber PUSH_GLOBAL = 14"
| "opNumber STORE_GLOBAL = 15"
| "opNumber MAKE_FN = 16"
| "opNumber CALL = 17"
| "opNumber CALL_SPREAD = 18"
| "opNumber SEND = 19"
| "opNumber RETURN = 20"
| "opNumber MAKE_LAZY = 21"
| "opNumber FORCE = 22"
| "opNumber JUMP = 23"
| "opNumber JUMP_IF_FALSE = 24"
| "opNumber JUMP_IF_TRUE = 25"
| "opNumber JUMP_BACK = 26"
| "opNumber ADD = 27"
| "opNumber SUB = 28"
| "opNumber MUL = 29"
| "opNumber LT = 30"
| "opNumber LE = 31"
| "opNumber GT = 32"
| "opNumber GE = 33"
| "opNumber EQ = 34"
| "opNumber NE = 35"
| "opNumber NEG = 36"
| "opNumber OP_NOT = 37"
| "opNumber FORCE_THUNK = 38"
| "opNumber CONCAT = 39"
| "opNumber MAKE_CLASS = 64"
| "opNumber NEW = 65"
| "opNumber INVOKE_INIT = 66"
| "opNumber STORE_FIELD = 67"
| "opNumber SET_FIELD = 68"
| "opNumber SEND_SUPER = 69"
| "opNumber TEST_TYPE = 70"
| "opNumber TEST_PROTO = 71"
| "opNumber UNAPPLY_FIELDS = 72"
| "opNumber UNCONS = 73"
| "opNumber MATCH_ERROR = 74"
| "opNumber CAST_FAIL = 75"
| "opNumber MAKE_TUPLE = 76"
| "opNumber SEND_KW = 77"
| "opNumber NEW_SPREAD = 78"
| "opNumber SEND_APPLY = 79"
| "opNumber CALL_KW = 80"
| "opNumber STORE_FIELD_IF_NEW = 81"
| "opNumber STORE_FIELDS_IF_NEW = 82"
| "opNumber THROW = 96"
| "opNumber RETHROW = 97"

primrec opName :: "Op \<Rightarrow> byte_string" where
  "opName EXTEND = ''EXTEND''"
| "opName PUSH_CONST = ''PUSH_CONST''"
| "opName PUSH_UNIT = ''PUSH_UNIT''"
| "opName PUSH_NULL = ''PUSH_NULL''"
| "opName PUSH_TRUE = ''PUSH_TRUE''"
| "opName PUSH_FALSE = ''PUSH_FALSE''"
| "opName POP = ''POP''"
| "opName DUP = ''DUP''"
| "opName PUSH_LOCAL = ''PUSH_LOCAL''"
| "opName STORE_LOCAL = ''STORE_LOCAL''"
| "opName MAKE_CELL = ''MAKE_CELL''"
| "opName PUSH_CELL = ''PUSH_CELL''"
| "opName STORE_CELL = ''STORE_CELL''"
| "opName PUSH_GLOBAL = ''PUSH_GLOBAL''"
| "opName STORE_GLOBAL = ''STORE_GLOBAL''"
| "opName MAKE_FN = ''MAKE_FN''"
| "opName CALL = ''CALL''"
| "opName CALL_SPREAD = ''CALL_SPREAD''"
| "opName SEND = ''SEND''"
| "opName RETURN = ''RETURN''"
| "opName MAKE_LAZY = ''MAKE_LAZY''"
| "opName FORCE = ''FORCE''"
| "opName JUMP = ''JUMP''"
| "opName JUMP_IF_FALSE = ''JUMP_IF_FALSE''"
| "opName JUMP_IF_TRUE = ''JUMP_IF_TRUE''"
| "opName JUMP_BACK = ''JUMP_BACK''"
| "opName ADD = ''ADD''"
| "opName SUB = ''SUB''"
| "opName MUL = ''MUL''"
| "opName LT = ''LT''"
| "opName LE = ''LE''"
| "opName GT = ''GT''"
| "opName GE = ''GE''"
| "opName EQ = ''EQ''"
| "opName NE = ''NE''"
| "opName NEG = ''NEG''"
| "opName OP_NOT = ''NOT''"
| "opName FORCE_THUNK = ''FORCE_THUNK''"
| "opName CONCAT = ''CONCAT''"
| "opName MAKE_CLASS = ''MAKE_CLASS''"
| "opName NEW = ''NEW''"
| "opName INVOKE_INIT = ''INVOKE_INIT''"
| "opName STORE_FIELD = ''STORE_FIELD''"
| "opName SET_FIELD = ''SET_FIELD''"
| "opName SEND_SUPER = ''SEND_SUPER''"
| "opName TEST_TYPE = ''TEST_TYPE''"
| "opName TEST_PROTO = ''TEST_PROTO''"
| "opName UNAPPLY_FIELDS = ''UNAPPLY_FIELDS''"
| "opName UNCONS = ''UNCONS''"
| "opName MATCH_ERROR = ''MATCH_ERROR''"
| "opName CAST_FAIL = ''CAST_FAIL''"
| "opName MAKE_TUPLE = ''MAKE_TUPLE''"
| "opName SEND_KW = ''SEND_KW''"
| "opName NEW_SPREAD = ''NEW_SPREAD''"
| "opName SEND_APPLY = ''SEND_APPLY''"
| "opName CALL_KW = ''CALL_KW''"
| "opName STORE_FIELD_IF_NEW = ''STORE_FIELD_IF_NEW''"
| "opName STORE_FIELDS_IF_NEW = ''STORE_FIELDS_IF_NEW''"
| "opName THROW = ''THROW''"
| "opName RETHROW = ''RETHROW''"

text \<open>All enumerators, in the order of the source.\<close>

definition allOps :: "Op list" where
  "allOps = [EXTEND, PUSH_CONST, PUSH_UNIT, PUSH_NULL, PUSH_TRUE, PUSH_FALSE, POP, DUP,
     PUSH_LOCAL, STORE_LOCAL, MAKE_CELL, PUSH_CELL, STORE_CELL, PUSH_GLOBAL,
     STORE_GLOBAL, MAKE_FN, CALL, CALL_SPREAD, SEND, RETURN, MAKE_LAZY, FORCE, JUMP,
     JUMP_IF_FALSE, JUMP_IF_TRUE, JUMP_BACK, ADD, SUB, MUL, LT, LE, GT, GE, EQ, NE, NEG,
     OP_NOT, FORCE_THUNK, CONCAT, MAKE_CLASS, NEW, INVOKE_INIT, STORE_FIELD, SET_FIELD,
     SEND_SUPER, TEST_TYPE, TEST_PROTO, UNAPPLY_FIELDS, UNCONS, MATCH_ERROR, CAST_FAIL,
     MAKE_TUPLE, SEND_KW, NEW_SPREAD, SEND_APPLY, CALL_KW, STORE_FIELD_IF_NEW,
     STORE_FIELDS_IF_NEW, THROW, RETHROW]"

text \<open>\<^verbatim>\<open>static_cast<Op>\<close> of a byte, and the name that is printed for it.\<close>

definition opOfByte :: "nat \<Rightarrow> Op option" where
  "opOfByte b = find (\<lambda>op. opNumber op = b) allOps"

definition opNameOfByte :: "nat \<Rightarrow> byte_string" where
  "opNameOfByte b = (case opOfByte b of Some op \<Rightarrow> opName op | None \<Rightarrow> ''?'')"

definition kOperandShift :: nat where
  "kOperandShift = 8"

definition kMaxOperand :: nat where
  "kMaxOperand = 2 ^ 24 - 1"

definition kMaxExtendedOperand :: nat where
  "kMaxExtendedOperand = 2 ^ 48 - 1"

subsection \<open>Type codes\<close>

datatype TypeCode =
    TC_Integer | TC_Double | TC_Boolean | TC_Char | TC_String | TC_Unit | TC_List | TC_ConsList
  | TC_Function | TC_AnyRef | TC_AnyVal | TC_Null | TC_NonNull | TC_Nothing

primrec typeCodeName :: "TypeCode \<Rightarrow> byte_string" where
  "typeCodeName TC_Integer = ''Int''"
| "typeCodeName TC_Double = ''Double''"
| "typeCodeName TC_Boolean = ''Boolean''"
| "typeCodeName TC_Char = ''Char''"
| "typeCodeName TC_String = ''String''"
| "typeCodeName TC_Unit = ''Unit''"
| "typeCodeName TC_List = ''List''"
| "typeCodeName TC_ConsList = ''::''"
| "typeCodeName TC_Function = ''Function''"
| "typeCodeName TC_AnyRef = ''AnyRef''"
| "typeCodeName TC_AnyVal = ''AnyVal''"
| "typeCodeName TC_Null = ''Null''"
| "typeCodeName TC_NonNull = ''Any''"
| "typeCodeName TC_Nothing = ''Nothing''"

text \<open>The enumerators are numbered from 0.\<close>

definition typeCodes :: "TypeCode list" where
  "typeCodes = [TC_Integer, TC_Double, TC_Boolean, TC_Char, TC_String, TC_Unit, TC_List, TC_ConsList,
     TC_Function, TC_AnyRef, TC_AnyVal, TC_Null, TC_NonNull, TC_Nothing]"

definition typeCodeNameOf :: "nat \<Rightarrow> byte_string" where
  "typeCodeNameOf n = (if n < length typeCodes then typeCodeName (typeCodes ! n) else ''?'')"

subsection \<open>The numbering\<close>

lemma allOps_complete: "op \<in> set allOps"
  by (cases op) (simp_all add: allOps_def)

lemma allOps_numbers: "sorted_wrt (<) (map opNumber allOps)"
  by (simp add: allOps_def)

lemma opNumber_inject: "opNumber op = opNumber op' \<longleftrightarrow> op = op'"
proof
  assume eq: "opNumber op = opNumber op'"
  have "distinct (map opNumber allOps)" using allOps_numbers by (simp add: strict_sorted_iff)
  then have "inj_on opNumber (set allOps)" by (simp add: distinct_map)
  then show "op = op'" using eq allOps_complete by (auto dest: inj_onD)
qed simp

lemma opNumber_range: "0 < opNumber op \<and> opNumber op < 256"
  by (cases op) simp_all

lemma opOfByte_opNumber [simp]: "opOfByte (opNumber op) = Some op"
proof -
  obtain o' where "find (\<lambda>o'. opNumber o' = opNumber op) allOps = Some o'"
    using allOps_complete[of op] by (metis (mono_tags, lifting) find_None_iff option.exhaust)
  then show ?thesis unfolding opOfByte_def by (auto simp: find_Some_iff opNumber_inject)
qed

text \<open>
  Every opcode fits its byte, no opcode is 0 (so a zeroed word is never an instruction), and
  reading an opcode back from its byte gives the opcode: the numbering has no collision.
\<close>

lemma opcode_roundtrip:
  "opOfByte (opNumber op) = Some op \<and> 0 < opNumber op \<and> opNumber op < 256 \<and> opOfByte 0 = None"
proof -
  have "opOfByte 0 = None" unfolding opOfByte_def by (simp add: find_None_iff opNumber_range)
  then show ?thesis using opNumber_range by simp
qed

end
