(* ===== verification/Bytecode.thy ===== *)
theory Bytecode
  imports Opcodes
begin

text \<open>
  One compiled function body (\<^verbatim>\<open>src/src/compiler/BytecodeModule.h\<close> and \<^verbatim>\<open>.cpp\<close>): code words with a
  parallel line table, the constant pool with its de-duplicating indices, the exception-handler
  table, parameter and slot metadata, and nested blocks.  The pointers that \<^verbatim>\<open>linkSymbols\<close> fills
  from protoCore's symbol table, and the native entry and debug source set by the linker and the
  debugger, are not part of the model.  A \<^verbatim>\<open>double\<close> is its 64-bit pattern.  The exceptions of the
  source are the values of \<open>ModuleError\<close>.
\<close>

subsection \<open>Data\<close>

datatype ConstKind =
    CK_Int | CK_BigInt | CK_Double | CK_String | CK_Char | CK_Symbol | CK_SendSite
  | CK_Names | CK_ClassSpec | CK_SuperSite | CK_KwSendSite

record Const =
  cn_kind :: ConstKind
  cn_ival :: int
  cn_dval :: u64
  cn_sval :: byte_string
  cn_base :: int
  cn_argc :: u32
  cn_names :: "byte_string list"
  cn_fields :: "byte_string list"
  cn_key :: byte_string
  cn_flags :: u32
  cn_exact :: bool

text \<open>\<^verbatim>\<open>Const{kind, ival, dval, sval}\<close>, the other members at their initialisers.\<close>

definition mkConst :: "ConstKind \<Rightarrow> int \<Rightarrow> u64 \<Rightarrow> byte_string \<Rightarrow> Const" where
  "mkConst kind ival dval sval =
     \<lparr>cn_kind = kind, cn_ival = ival, cn_dval = dval, cn_sval = sval, cn_base = 10, cn_argc = 0,
      cn_names = [], cn_fields = [], cn_key = [], cn_flags = 0, cn_exact = False\<rparr>"

record ClassSpecData =
  cs_displayName :: byte_string
  cs_key :: byte_string
  cs_parentCount :: u32
  cs_memberKeys :: "byte_string list"
  cs_fields :: "byte_string list"
  cs_flags :: u32

record CaptureSpec =
  cp_parentSlot :: int
  cp_localSlot :: int

datatype HandlerKind = HK_Catch | HK_Finally

record Handler =
  hd_startPc :: nat
  hd_endPc :: nat
  hd_handlerPc :: nat
  hd_stackDepth :: int
  hd_slot :: int
  hd_kind :: HandlerKind

record CatchFilter =
  cf_all :: bool
  cf_unknown :: bool
  cf_keys :: "(byte_string \<times> bool) list"

text \<open>
  The flat members of the class.  \<^verbatim>\<open>kNoDefault\<close> is the value \<^const>\<open>None\<close> of an entry of
  \<^verbatim>\<open>defaultBlocks_\<close>.
\<close>

record ModuleBody =
  bm_code :: "u32 list"
  bm_lines :: "int list"
  bm_consts :: "Const list"
  bm_intIndex :: "int \<rightharpoonup> nat"
  bm_doubleIndex :: "u64 \<rightharpoonup> nat"
  bm_bigIntIndex :: "byte_string \<rightharpoonup> nat"
  bm_stringIndex :: "byte_string \<rightharpoonup> nat"
  bm_charIndex :: "int \<rightharpoonup> nat"
  bm_symbolIndex :: "byte_string \<rightharpoonup> nat"
  bm_sendIndex :: "byte_string \<rightharpoonup> nat"
  bm_namesIndex :: "byte_string \<rightharpoonup> nat"
  bm_superIndex :: "byte_string \<rightharpoonup> nat"
  bm_kwIndex :: "byte_string \<rightharpoonup> nat"
  bm_captures :: "CaptureSpec list"
  bm_handlers :: "Handler list"
  bm_name :: byte_string
  bm_arity :: int
  bm_variadic :: bool
  bm_localCount :: int
  bm_maxStack :: int
  bm_method :: bool
  bm_paramless :: bool
  bm_paramNames :: "byte_string list"
  bm_defaultBlocks :: "nat option list"
  bm_hasDefaults :: bool
  bm_minArity :: int
  bm_slotNames :: "byte_string list"
  bm_slotBoxed :: "bool list"
  bm_catchFilters :: "nat \<rightharpoonup> CatchFilter"

datatype BytecodeModule = Module (moduleBody: ModuleBody) (moduleBlocks: "BytecodeModule list")

definition newBody :: ModuleBody where
  "newBody =
     \<lparr>bm_code = [], bm_lines = [], bm_consts = [], bm_intIndex = Map.empty,
      bm_doubleIndex = Map.empty, bm_bigIntIndex = Map.empty, bm_stringIndex = Map.empty,
      bm_charIndex = Map.empty, bm_symbolIndex = Map.empty, bm_sendIndex = Map.empty,
      bm_namesIndex = Map.empty, bm_superIndex = Map.empty, bm_kwIndex = Map.empty,
      bm_captures = [], bm_handlers = [], bm_name = ''<top>'', bm_arity = 0, bm_variadic = False,
      bm_localCount = 0, bm_maxStack = 0, bm_method = False, bm_paramless = False,
      bm_paramNames = [], bm_defaultBlocks = [], bm_hasDefaults = False, bm_minArity = 0,
      bm_slotNames = [], bm_slotBoxed = [], bm_catchFilters = Map.empty\<rparr>"

datatype ModuleError = LengthError byte_string | OutOfRange byte_string

subsection \<open>Blocks and handlers\<close>

definition addBlock :: "BytecodeModule \<Rightarrow> BytecodeModule \<Rightarrow> nat \<times> BytecodeModule" where
  "addBlock sub m =
     (let blocks = moduleBlocks m @ [sub] in (length blocks - 1, Module (moduleBody m) blocks))"

definition addHandler :: "Handler \<Rightarrow> ModuleBody \<Rightarrow> nat \<times> ModuleBody" where
  "addHandler h m =
     (let hs = bm_handlers m @ [h] in (length hs - 1, m\<lparr>bm_handlers := hs\<rparr>))"

text \<open>An index out of the table is undefined behaviour in the source; here it changes nothing.\<close>

definition patchHandlerBody :: "nat \<Rightarrow> nat \<Rightarrow> ModuleBody \<Rightarrow> ModuleBody" where
  "patchHandlerBody index handlerPc m =
     m\<lparr>bm_handlers := (bm_handlers m)[index := (bm_handlers m ! index)\<lparr>hd_handlerPc := handlerPc\<rparr>]\<rparr>"

definition handlerFor :: "ModuleBody \<Rightarrow> nat \<Rightarrow> Handler option" where
  "handlerFor m pc = find (\<lambda>h. pc \<ge> hd_startPc h \<and> pc < hd_endPc h) (bm_handlers m)"

subsection \<open>The constant pool\<close>

text \<open>The index, the constants, and the index returned: \<^verbatim>\<open>try_emplace\<close> and \<^verbatim>\<open>push_back\<close>.\<close>

definition findOrAdd ::
  "('k \<rightharpoonup> nat) \<Rightarrow> 'k \<Rightarrow> Const list \<Rightarrow> Const \<Rightarrow> nat \<times> ('k \<rightharpoonup> nat) \<times> Const list" where
  "findOrAdd index key consts c =
     (case index key of
        Some i \<Rightarrow> (i, index, consts)
      | None \<Rightarrow> (length consts, index(key \<mapsto> length consts), consts @ [c]))"

definition addInt :: "int \<Rightarrow> ModuleBody \<Rightarrow> nat \<times> ModuleBody" where
  "addInt v m =
     (case findOrAdd (bm_intIndex m) v (bm_consts m) (mkConst CK_Int v 0 []) of
        (i, index, consts) \<Rightarrow> (i, m\<lparr>bm_intIndex := index, bm_consts := consts\<rparr>))"

definition addBigInt :: "byte_string \<Rightarrow> int \<Rightarrow> ModuleBody \<Rightarrow> nat \<times> ModuleBody" where
  "addBigInt digits base m =
     (case findOrAdd (bm_bigIntIndex m) (intToString base @ '':'' @ digits) (bm_consts m)
             ((mkConst CK_BigInt 0 0 digits)\<lparr>cn_base := base\<rparr>) of
        (i, index, consts) \<Rightarrow> (i, m\<lparr>bm_bigIntIndex := index, bm_consts := consts\<rparr>))"

definition addDouble :: "u64 \<Rightarrow> ModuleBody \<Rightarrow> nat \<times> ModuleBody" where
  "addDouble v m =
     (case findOrAdd (bm_doubleIndex m) v (bm_consts m) (mkConst CK_Double 0 v []) of
        (i, index, consts) \<Rightarrow> (i, m\<lparr>bm_doubleIndex := index, bm_consts := consts\<rparr>))"

definition addString :: "byte_string \<Rightarrow> ModuleBody \<Rightarrow> nat \<times> ModuleBody" where
  "addString s m =
     (case findOrAdd (bm_stringIndex m) s (bm_consts m) (mkConst CK_String 0 0 s) of
        (i, index, consts) \<Rightarrow> (i, m\<lparr>bm_stringIndex := index, bm_consts := consts\<rparr>))"

definition addChar :: "nat \<Rightarrow> ModuleBody \<Rightarrow> nat \<times> ModuleBody" where
  "addChar c m =
     (case findOrAdd (bm_charIndex m) (int c) (bm_consts m) (mkConst CK_Char (int c) 0 []) of
        (i, index, consts) \<Rightarrow> (i, m\<lparr>bm_charIndex := index, bm_consts := consts\<rparr>))"

definition addSymbol :: "byte_string \<Rightarrow> ModuleBody \<Rightarrow> nat \<times> ModuleBody" where
  "addSymbol name m =
     (case findOrAdd (bm_symbolIndex m) name (bm_consts m) (mkConst CK_Symbol 0 0 name) of
        (i, index, consts) \<Rightarrow> (i, m\<lparr>bm_symbolIndex := index, bm_consts := consts\<rparr>))"

definition sendKey :: "byte_string \<Rightarrow> u32 \<Rightarrow> byte_string \<Rightarrow> byte_string" where
  "sendKey name argc fallback = name @ ''/'' @ natToString (unat argc) @ ''/'' @ fallback"

definition addSendSite :: "byte_string \<Rightarrow> u32 \<Rightarrow> byte_string \<Rightarrow> ModuleBody \<Rightarrow> nat \<times> ModuleBody" where
  "addSendSite name argc fallback m =
     (case findOrAdd (bm_sendIndex m) (sendKey name argc fallback) (bm_consts m)
             ((mkConst CK_SendSite 0 0 name)\<lparr>cn_argc := argc, cn_key := fallback\<rparr>) of
        (i, index, consts) \<Rightarrow> (i, m\<lparr>bm_sendIndex := index, bm_consts := consts\<rparr>))"

definition joined :: "byte_string list \<Rightarrow> byte_string" where
  "joined v = foldl (\<lambda>out s. out @ (if out = [] then [] else '','') @ s) [] v"

definition addNames :: "byte_string list \<Rightarrow> ModuleBody \<Rightarrow> nat \<times> ModuleBody" where
  "addNames names m =
     (case findOrAdd (bm_namesIndex m) (joined names) (bm_consts m)
             ((mkConst CK_Names 0 0 [])\<lparr>cn_names := names\<rparr>) of
        (i, index, consts) \<Rightarrow> (i, m\<lparr>bm_namesIndex := index, bm_consts := consts\<rparr>))"

definition addClassSpec :: "ClassSpecData \<Rightarrow> ModuleBody \<Rightarrow> nat \<times> ModuleBody" where
  "addClassSpec spec m =
     (let c = (mkConst CK_ClassSpec 0 0 (cs_displayName spec))\<lparr>cn_argc := cs_parentCount spec,
                cn_names := cs_memberKeys spec, cn_fields := cs_fields spec, cn_key := cs_key spec,
                cn_flags := cs_flags spec\<rparr>;
          consts = bm_consts m @ [c]
      in (length consts - 1, m\<lparr>bm_consts := consts\<rparr>))"

definition superKey :: "byte_string \<Rightarrow> u32 \<Rightarrow> byte_string \<Rightarrow> bool \<Rightarrow> byte_string" where
  "superKey name argc ownerKey exact =
     ownerKey @ ''/'' @ name @ ''/'' @ natToString (unat argc) @ (if exact then ''/x'' else [])"

definition addSuperSite :: "byte_string \<Rightarrow> u32 \<Rightarrow> byte_string \<Rightarrow> bool \<Rightarrow> ModuleBody \<Rightarrow> nat \<times> ModuleBody" where
  "addSuperSite name argc ownerKey exact m =
     (case findOrAdd (bm_superIndex m) (superKey name argc ownerKey exact) (bm_consts m)
             ((mkConst CK_SuperSite 0 0 name)\<lparr>cn_argc := argc, cn_key := ownerKey, cn_exact := exact\<rparr>) of
        (i, index, consts) \<Rightarrow> (i, m\<lparr>bm_superIndex := index, bm_consts := consts\<rparr>))"

definition kwKey :: "byte_string \<Rightarrow> u32 \<Rightarrow> byte_string list \<Rightarrow> byte_string \<Rightarrow> byte_string" where
  "kwKey name positional kws fallback =
     name @ ''/'' @ natToString (unat positional) @ ''/'' @ joined kws @ ''/'' @ fallback"

definition addKwSendSite ::
  "byte_string \<Rightarrow> u32 \<Rightarrow> byte_string list \<Rightarrow> byte_string \<Rightarrow> ModuleBody \<Rightarrow> nat \<times> ModuleBody" where
  "addKwSendSite name positional kws fallback m =
     (case findOrAdd (bm_kwIndex m) (kwKey name positional kws fallback) (bm_consts m)
             ((mkConst CK_KwSendSite 0 0 name)\<lparr>cn_argc := positional, cn_names := kws, cn_key := fallback\<rparr>) of
        (i, index, consts) \<Rightarrow> (i, m\<lparr>bm_kwIndex := index, bm_consts := consts\<rparr>))"

subsection \<open>Code\<close>

definition limitMsg :: "Op \<Rightarrow> nat \<Rightarrow> byte_string" where
  "limitMsg op operand = opName op @ '' operand '' @ natToString operand @ '' exceeds the bytecode limit''"

text \<open>One word: the operand above the opcode byte.\<close>

definition instrWord :: "nat \<Rightarrow> nat \<Rightarrow> u32" where
  "instrWord opByte operand = push_bit kOperandShift (of_nat operand) OR of_nat opByte"

definition appendRawInstr :: "u32 \<Rightarrow> int \<Rightarrow> ModuleBody \<Rightarrow> ModuleBody" where
  "appendRawInstr word line m = m\<lparr>bm_code := bm_code m @ [word], bm_lines := bm_lines m @ [line]\<rparr>"

definition emit :: "Op \<Rightarrow> nat \<Rightarrow> int \<Rightarrow> ModuleBody \<Rightarrow> ModuleError + nat \<times> ModuleBody" where
  "emit op operand line m =
     (if operand > kMaxExtendedOperand then Inl (LengthError (limitMsg op operand))
      else
        let m1 = (if operand > kMaxOperand
                  then appendRawInstr (instrWord (opNumber EXTEND) (drop_bit 24 operand)) line m
                  else m);
            low = (if operand > kMaxOperand then operand AND kMaxOperand else operand);
            m2 = appendRawInstr (instrWord (opNumber op) low) line m1
        in Inr (length (bm_code m2) - 1, m2))"

definition emitJump :: "Op \<Rightarrow> int \<Rightarrow> ModuleBody \<Rightarrow> ModuleError + nat \<times> ModuleBody" where
  "emitJump op line m = emit op 0 line m"

definition patchJumpTo :: "nat \<Rightarrow> nat \<Rightarrow> ModuleBody \<Rightarrow> ModuleError + ModuleBody" where
  "patchJumpTo jumpAt target m =
     (if jumpAt \<ge> length (bm_code m) \<or> target \<le> jumpAt
      then Inl (OutOfRange ''patchJumpTo: bad jump or target'')
      else
        let offset = target - (jumpAt + 1) in
        if offset > kMaxOperand then Inl (LengthError ''function body too large'')
        else
          let opByte = unat (bm_code m ! jumpAt AND 0xFF)
          in Inr (m\<lparr>bm_code := (bm_code m)[jumpAt := instrWord opByte offset]\<rparr>))"

text \<open>\<^verbatim>\<open>target\<close> is a \<^verbatim>\<open>size_t\<close> not above the current position; the subtraction does not wrap then.\<close>

definition emitJumpBack :: "nat \<Rightarrow> int \<Rightarrow> ModuleBody \<Rightarrow> ModuleError + nat \<times> ModuleBody" where
  "emitJumpBack target line m =
     (let offset = nat ((int (length (bm_code m)) + 1 - int target) mod 2 ^ 64) in
      if offset > kMaxOperand then Inl (LengthError ''function body too large'')
      else emit JUMP_BACK offset line m)"

definition lineAt :: "ModuleBody \<Rightarrow> nat \<Rightarrow> int" where
  "lineAt m pc = (if pc < length (bm_lines m) then bm_lines m ! pc else 0)"

subsection \<open>Parameters and slots\<close>

definition setParamNames :: "byte_string list \<Rightarrow> ModuleBody \<Rightarrow> ModuleBody" where
  "setParamNames names m =
     m\<lparr>bm_paramNames := names, bm_defaultBlocks := replicate (length names) None,
       bm_minArity := bm_arity m\<rparr>"

definition resize :: "nat \<Rightarrow> 'a \<Rightarrow> 'a list \<Rightarrow> 'a list" where
  "resize n x xs = take n xs @ replicate (n - length xs) x"

definition setDefaultBlock :: "nat \<Rightarrow> nat \<Rightarrow> ModuleBody \<Rightarrow> ModuleBody" where
  "setDefaultBlock param blockIndex m =
     (let blocks = (if length (bm_defaultBlocks m) \<le> param
                    then resize (param + 1) None (bm_defaultBlocks m) else bm_defaultBlocks m)
      in m\<lparr>bm_defaultBlocks := blocks[param := Some blockIndex], bm_hasDefaults := True,
           bm_minArity := (if int param < bm_minArity m then int param else bm_minArity m)\<rparr>)"

definition defaultBlock :: "ModuleBody \<Rightarrow> nat \<Rightarrow> nat option" where
  "defaultBlock m param =
     (if param < length (bm_defaultBlocks m) then bm_defaultBlocks m ! param else None)"

definition setSlotName :: "int \<Rightarrow> byte_string \<Rightarrow> bool \<Rightarrow> ModuleBody \<Rightarrow> ModuleBody" where
  "setSlotName slot name boxed m =
     (if slot < 0 then m
      else
        let i = nat slot;
            m1 = (if length (bm_slotNames m) \<le> i
                  then m\<lparr>bm_slotNames := resize (i + 1) [] (bm_slotNames m),
                         bm_slotBoxed := resize (i + 1) False (bm_slotBoxed m)\<rparr>
                  else m)
        in if bm_slotNames m1 ! i \<noteq> [] then m1
           else m1\<lparr>bm_slotNames := (bm_slotNames m1)[i := name],
                   bm_slotBoxed := (bm_slotBoxed m1)[i := boxed]\<rparr>)"

definition slotName :: "ModuleBody \<Rightarrow> int \<Rightarrow> byte_string" where
  "slotName m slot =
     (if slot < 0 \<or> nat slot \<ge> length (bm_slotNames m) then [] else bm_slotNames m ! nat slot)"

definition slotBoxed :: "ModuleBody \<Rightarrow> int \<Rightarrow> bool" where
  "slotBoxed m slot \<longleftrightarrow>
     slot \<ge> 0 \<and> nat slot < length (bm_slotBoxed m) \<and> bm_slotBoxed m ! nat slot"

definition setCatchFilter :: "nat \<Rightarrow> CatchFilter \<Rightarrow> ModuleBody \<Rightarrow> ModuleBody" where
  "setCatchFilter handlerPc f m = m\<lparr>bm_catchFilters := (bm_catchFilters m)(handlerPc \<mapsto> f)\<rparr>"

definition catchFilter :: "ModuleBody \<Rightarrow> nat \<Rightarrow> CatchFilter option" where
  "catchFilter m handlerPc = bm_catchFilters m handlerPc"

definition addCapture :: "int \<Rightarrow> int \<Rightarrow> ModuleBody \<Rightarrow> ModuleBody" where
  "addCapture parentSlot localSlot m =
     m\<lparr>bm_captures := bm_captures m @ [\<lparr>cp_parentSlot = parentSlot, cp_localSlot = localSlot\<rparr>]\<rparr>"

subsection \<open>Reading the code back\<close>

text \<open>
  The instructions of a code vector as the disassembler walks them: position of the opcode word,
  opcode byte and full operand.  A prefix with nothing after it ends the walk.
\<close>

fun decodeFrom :: "nat \<Rightarrow> u32 list \<Rightarrow> (nat \<times> nat \<times> nat) list" where
  "decodeFrom pc [] = []"
| "decodeFrom pc [w] =
     (if unat (w AND 0xFF) = opNumber EXTEND then []
      else [(pc, unat (w AND 0xFF), unat (drop_bit kOperandShift w))])"
| "decodeFrom pc (w # v # ws) =
     (if unat (w AND 0xFF) = opNumber EXTEND
      then (pc + 1, unat (v AND 0xFF), push_bit 24 (unat (drop_bit kOperandShift w)) OR unat (drop_bit kOperandShift v))
             # decodeFrom (pc + 2) ws
      else (pc, unat (w AND 0xFF), unat (drop_bit kOperandShift w)) # decodeFrom (pc + 1) (v # ws))"

definition decodeCode :: "u32 list \<Rightarrow> (nat \<times> nat \<times> nat) list" where
  "decodeCode code = decodeFrom 0 code"

subsection \<open>Words\<close>

lemma instrWord_unat:
  assumes "b < 256" "operand < 2 ^ 24"
  shows "unat (instrWord b operand) = operand * 256 + b"
proof -
  have "instrWord b operand = of_nat (push_bit 8 operand OR b)"
    by (simp add: instrWord_def kOperandShift_def of_nat_or_eq push_bit_of_nat)
  also have "push_bit 8 operand OR b = operand * 256 + b"
    using or_low_bits[of b 8 operand] assms(1) by (simp add: push_bit_eq_mult)
  finally show ?thesis using assms by (simp only: unat_of_nat) simp
qed

lemma word_opcode: "unat (w AND 0xFF) = unat w mod 256" for w :: u32
  using and_low_bits[of "unat w" 8] by (simp add: unsigned_and_eq)

lemma word_operand: "unat (drop_bit kOperandShift w) = unat w div 256" for w :: u32
  by (simp only: kOperandShift_def unat_drop_bit_eq) (simp add: drop_bit_eq_div)

lemma instrWord_fields [simp]:
  assumes "b < 256" "operand < 2 ^ 24"
  shows "unat (instrWord b operand AND 0xFF) = b" "unat (drop_bit kOperandShift (instrWord b operand)) = operand"
  using assms by (simp_all only: word_opcode word_operand instrWord_unat) simp_all

lemma operand_split: "push_bit 24 (drop_bit 24 n) OR (n AND kMaxOperand) = n" for n :: nat
proof -
  have "n AND kMaxOperand = n mod 2 ^ 24" using and_low_bits[of n 24] by (simp only: kMaxOperand_def)
  then show ?thesis using or_low_bits[of "n mod 2 ^ 24" 24 "n div 2 ^ 24"]
    by (simp add: push_bit_eq_mult drop_bit_eq_div)
qed

subsection \<open>Emitting and decoding\<close>

text \<open>Code whose last word is not the prefix of a missing instruction.\<close>

fun complete :: "u32 list \<Rightarrow> bool" where
  "complete [] = True"
| "complete [w] = (unat (w AND 0xFF) \<noteq> opNumber EXTEND)"
| "complete (w # v # ws) = (if unat (w AND 0xFF) = opNumber EXTEND then complete ws else complete (v # ws))"

lemma decodeFrom_append:
  "complete ws \<Longrightarrow> decodeFrom pc (ws @ vs) = decodeFrom pc ws @ decodeFrom (pc + length ws) vs"
proof (induction pc ws rule: decodeFrom.induct)
  case (2 pc w)
  then show ?case by (cases vs) auto
qed auto

lemma complete_append: "complete ws \<Longrightarrow> complete (ws @ vs) = complete vs"
proof (induction ws rule: complete.induct)
  case (2 w)
  then show ?case by (cases vs) auto
qed auto

definition emitted :: "Op \<Rightarrow> nat \<Rightarrow> u32 list" where
  "emitted op operand =
     (if operand > kMaxOperand
      then [instrWord (opNumber EXTEND) (drop_bit 24 operand), instrWord (opNumber op) (operand AND kMaxOperand)]
      else [instrWord (opNumber op) operand])"

lemma emit_cases:
  "emit op operand line m =
     (if operand > kMaxExtendedOperand then Inl (LengthError (limitMsg op operand))
      else Inr (length (bm_code m) + length (emitted op operand) - 1,
                m\<lparr>bm_code := bm_code m @ emitted op operand,
                  bm_lines := bm_lines m @ replicate (length (emitted op operand)) line\<rparr>))"
  by (simp add: emit_def emitted_def appendRawInstr_def Let_def)

lemma emitted_decodes:
  assumes "op \<noteq> EXTEND" "operand \<le> kMaxExtendedOperand"
  shows "decodeFrom pc (emitted op operand) = [(pc + length (emitted op operand) - 1, opNumber op, operand)]"
    and "complete (emitted op operand)"
proof -
  have op: "opNumber op < 256" "opNumber op \<noteq> opNumber EXTEND"
    using assms(1) opNumber_range[of op] opNumber_inject[of op EXTEND] by auto
  have e: "opNumber EXTEND < 256" by simp
  have low: "operand AND kMaxOperand < 2 ^ 24"
    using and_low_bits[of operand 24] by (simp add: kMaxOperand_def)
  have high: "drop_bit 24 operand < 2 ^ 24"
    using assms(2) by (simp add: kMaxExtendedOperand_def drop_bit_eq_div less_mult_imp_div_less)
  have small: "\<not> operand > kMaxOperand \<Longrightarrow> operand < 2 ^ 24" by (simp add: kMaxOperand_def)
  note w = instrWord_fields[OF op(1) low] instrWord_fields[OF e high] instrWord_fields[OF op(1) small]
  show "decodeFrom pc (emitted op operand) = [(pc + length (emitted op operand) - 1, opNumber op, operand)]"
    using op(2) w operand_split[of operand] by (simp add: emitted_def del: opNumber.simps)
  show "complete (emitted op operand)" using op(2) w by (simp add: emitted_def del: opNumber.simps)
qed

text \<open>
  C16: an emitted instruction is read back with its opcode and its full operand, wherever it stands
  and whether or not it needed the \<^const>\<open>EXTEND\<close> prefix; the position returned is the position
  of its opcode word, and emission fails exactly when the operand exceeds 48 bits.
\<close>

theorem emit_decode:
  assumes "complete (bm_code m)" "op \<noteq> EXTEND"
  shows "case emit op operand line m of
      Inl e \<Rightarrow> operand \<ge> 2 ^ 48
    | Inr (pos, m') \<Rightarrow> operand < 2 ^ 48 \<and> complete (bm_code m') \<and>
        decodeCode (bm_code m') = decodeCode (bm_code m) @ [(pos, opNumber op, operand)] \<and>
        pos = length (bm_code m') - 1"
proof (cases "operand > kMaxExtendedOperand")
  case True
  then show ?thesis by (simp add: emit_cases kMaxExtendedOperand_def)
next
  case False
  then have d: "decodeFrom pc (emitted op operand) = [(pc + length (emitted op operand) - 1, opNumber op, operand)]"
    "complete (emitted op operand)" for pc
    using emitted_decodes[OF assms(2)] by simp_all
  have "operand < 2 ^ 48" using False by (simp add: kMaxExtendedOperand_def)
  then show ?thesis using False assms(1)
    by (simp add: emit_cases decodeCode_def decodeFrom_append complete_append d)
qed

theorem emit_decode_witness:
  "case emit PUSH_CONST 70000000 3 newBody of
      Inl e \<Rightarrow> (70000000 :: nat) \<ge> 2 ^ 48
    | Inr (pos, m') \<Rightarrow> (70000000 :: nat) < 2 ^ 48 \<and> complete (bm_code m') \<and>
        decodeCode (bm_code m') = decodeCode (bm_code newBody) @ [(pos, opNumber PUSH_CONST, 70000000)] \<and>
        pos = length (bm_code m') - 1"
  by (rule emit_decode) (simp_all add: newBody_def)

subsection \<open>Jumps\<close>

lemma decodeFrom_plain:
  "unat (w AND 0xFF) \<noteq> opNumber EXTEND \<Longrightarrow>
   decodeFrom pc (w # ws) = (pc, unat (w AND 0xFF), unat (drop_bit kOperandShift w)) # decodeFrom (pc + 1) ws"
  by (cases ws) simp_all

lemma decodeFrom_positions: "(p, b, n) \<in> set (decodeFrom pc ws) \<Longrightarrow> pc \<le> p \<and> b < 256"
  by (induction pc ws rule: decodeFrom.induct) (auto simp: word_opcode split: if_splits)

definition retarget :: "nat \<Rightarrow> nat \<Rightarrow> nat \<times> nat \<times> nat \<Rightarrow> nat \<times> nat \<times> nat" where
  "retarget at offset = (\<lambda>(p, b, n). if p = at then (p, b, offset) else (p, b, n))"

lemma retarget_later: "at < pc \<Longrightarrow> map (retarget at offset) (decodeFrom pc ws) = decodeFrom pc ws"
  by (rule map_idI) (auto simp: retarget_def dest: decodeFrom_positions)

lemma or_zero_nat: "m OR n = 0 \<longleftrightarrow> m = 0 \<and> n = 0" for m n :: nat
  by (metis or_eq_0_iff)

lemma decodeFrom_at:
  "(p, b, n) \<in> set (decodeFrom pc ws) \<Longrightarrow> p - pc < length ws \<and> b = unat (ws ! (p - pc) AND 0xFF)"
proof (induction pc ws rule: decodeFrom.induct)
  case (3 pc w v ws)
  then show ?case
    using decodeFrom_positions[of p b n "pc + 2" ws] decodeFrom_positions[of p b n "pc + 1" "v # ws"]
    by (auto simp: nth_Cons' split: if_splits)
qed (auto split: if_splits)

text \<open>Overwriting an instruction whose operand is 0 changes that operand and nothing else.\<close>

lemma decodeFrom_patch:
  assumes "(pc + j, b, 0) \<in> set (decodeFrom pc ws)" "offset < 2 ^ 24"
  shows "decodeFrom pc (ws[j := instrWord b offset]) = map (retarget (pc + j) offset) (decodeFrom pc ws)"
  using assms
proof (induction pc ws arbitrary: j rule: decodeFrom.induct)
  case (2 pc w)
  have b: "b < 256" using decodeFrom_positions[OF 2(1)] by simp
  have "j = 0" "unat (w AND 0xFF) = b" "b \<noteq> opNumber EXTEND" using 2(1) by (auto split: if_splits)
  then show ?case using instrWord_fields[OF b 2(2)] by (simp add: retarget_def)
next
  case (3 pc w v ws)
  have b: "b < 256" using decodeFrom_positions[OF 3(3)] by simp
  note i = instrWord_fields[OF b 3(4)]
  show ?case
  proof (cases "unat (w AND 0xFF) = opNumber EXTEND")
    case True
    consider "j = 0" | "j = 1" | k where "j = Suc (Suc k)" by (metis One_nat_def not0_implies_Suc)
    then show ?thesis
    proof cases
      case 1
      then show ?thesis using 3(3) True by (auto dest: decodeFrom_positions)
    next
      case 2
      then have "unat (v AND 0xFF) = b" "unat (drop_bit kOperandShift w) = 0"
        using 3(3) True by (auto simp: or_zero_nat dest: decodeFrom_positions)
      then show ?thesis using 2 True i by (simp add: retarget_later) (simp add: retarget_def)
    next
      case (3 k)
      have "(pc + 2 + k, b, 0) \<in> set (decodeFrom (pc + 2) ws)" using 3 "3.prems"(1) True by auto
      from "3.IH"(1)[OF True this \<open>offset < 2 ^ 24\<close>] show ?thesis using 3 True
        by simp (simp add: retarget_def)
    qed
  next
    case False
    show ?thesis
    proof (cases j)
      case 0
      then have "unat (w AND 0xFF) = b"
        using 3(3) False by (auto dest: decodeFrom_positions)
      then show ?thesis using 0 False i by (simp add: decodeFrom_plain retarget_later) (simp add: retarget_def)
    next
      case (Suc k)
      have "(pc + 1 + k, b, 0) \<in> set (decodeFrom (pc + 1) (v # ws))" using Suc 3(3) False by auto
      from 3(2)[OF False this 3(4)] show ?thesis using Suc False
        by (simp add: decodeFrom_plain) (simp add: retarget_def)
    qed
  qed
qed simp

text \<open>
  C17: patching a forward jump (an instruction emitted with operand 0) makes it land exactly on
  \<open>target\<close>: its position plus one plus its operand is the target, and every other instruction
  of the body is read back unchanged.
\<close>

theorem patchJumpTo_lands:
  assumes "(jumpAt, b, 0) \<in> set (decodeCode (bm_code m))" "patchJumpTo jumpAt target m = Inr m'"
  shows "decodeCode (bm_code m') =
      map (retarget jumpAt (target - (jumpAt + 1))) (decodeCode (bm_code m))
    \<and> jumpAt + 1 + (target - (jumpAt + 1)) = target"
proof -
  have b: "b = unat (bm_code m ! jumpAt AND 0xFF)"
    using decodeFrom_at[of jumpAt b 0 0] assms(1) by (simp add: decodeCode_def)
  let ?n = "target - (jumpAt + 1)"
  have t: "jumpAt < target" "?n < 2 ^ 24"
    and m': "bm_code m' = (bm_code m)[jumpAt := instrWord b ?n]"
    using assms(2) b by (auto simp: patchJumpTo_def Let_def kMaxOperand_def split: if_splits)
  have "decodeFrom 0 ((bm_code m)[jumpAt := instrWord b ?n]) = map (retarget jumpAt ?n) (decodeFrom 0 (bm_code m))"
    using decodeFrom_patch[of 0 jumpAt b "bm_code m" ?n] assms(1) t(2) by (simp add: decodeCode_def)
  then show ?thesis using t(1) m' by (simp add: decodeCode_def)
qed

theorem patchJumpTo_lands_witness:
  "let m = snd (projr (emit PUSH_UNIT 0 1 (snd (projr (emitJump JUMP 1 newBody)))));
       m' = projr (patchJumpTo 0 2 m)
   in decodeCode (bm_code m') =
        map (retarget 0 (2 - (0 + 1))) (decodeCode (bm_code m))
      \<and> 0 + 1 + (2 - (0 + 1)) = (2 :: nat)"
  unfolding Let_def
proof (rule patchJumpTo_lands[where b = 23])
  show "(0, 23, 0) \<in> set (decodeCode (bm_code (snd (projr (emit PUSH_UNIT 0 1 (snd (projr (emitJump JUMP 1 newBody))))))))"
    by (simp add: emitJump_def emit_cases newBody_def kMaxExtendedOperand_def emitted_def kMaxOperand_def decodeCode_def)
  show "patchJumpTo 0 2 (snd (projr (emit PUSH_UNIT 0 1 (snd (projr (emitJump JUMP 1 newBody)))))) =
      Inr (projr (patchJumpTo 0 2 (snd (projr (emit PUSH_UNIT 0 1 (snd (projr (emitJump JUMP 1 newBody))))))))"
    by (simp add: emitJump_def emit_cases newBody_def kMaxExtendedOperand_def emitted_def kMaxOperand_def
        patchJumpTo_def Let_def)
qed

text \<open>
  A backward jump emitted at the end of the body (whose length is a \<^verbatim>\<open>size_t\<close>) lands on the
  position it was asked for: the position after it minus its operand is the target.
\<close>

theorem emitJumpBack_lands:
  assumes "target \<le> length (bm_code m)" "length (bm_code m) + 1 < 2 ^ 64" "complete (bm_code m)"
    and "emitJumpBack target line m = Inr (pos, m')"
  shows "\<exists>operand. decodeCode (bm_code m') = decodeCode (bm_code m) @ [(pos, opNumber JUMP_BACK, operand)] \<and>
    pos + 1 - operand = target \<and> pos = length (bm_code m)"
proof -
  define n where "n = length (bm_code m) + 1 - target"
  have "(int (length (bm_code m)) + 1 - int target) mod 2 ^ 64 = int n"
    using assms(1,2) by (simp add: n_def of_nat_diff)
  then have le: "n \<le> kMaxOperand" and e: "emit JUMP_BACK n line m = Inr (pos, m')"
    using assms(4) by (auto simp: emitJumpBack_def Let_def split: if_splits)
  have n: "n \<le> kMaxExtendedOperand" using le by (simp add: kMaxOperand_def kMaxExtendedOperand_def)
  have "decodeFrom pc (emitted JUMP_BACK n) = [(pc, opNumber JUMP_BACK, n)]" for pc
    using emitted_decodes(1)[OF _ n, of JUMP_BACK] le by (simp add: emitted_def)
  then have "decodeCode (bm_code m') = decodeCode (bm_code m) @ [(pos, opNumber JUMP_BACK, n)]"
    "pos = length (bm_code m)"
    using e le n assms(3) by (auto simp: emit_cases decodeCode_def decodeFrom_append emitted_def)
  then show ?thesis using assms(1) by (intro exI[of _ n]) (simp add: n_def)
qed

theorem emitJumpBack_lands_witness:
  "\<exists>operand. decodeCode (bm_code (snd (projr (emitJumpBack 0 4 newBody)))) =
      decodeCode (bm_code newBody) @ [(0, opNumber JUMP_BACK, operand)] \<and>
    0 + 1 - operand = 0 \<and> 0 = length (bm_code newBody)"
  by (rule emitJumpBack_lands[where line = 4])
     (simp_all add: newBody_def emitJumpBack_def emit_cases kMaxExtendedOperand_def kMaxOperand_def emitted_def)

subsection \<open>Interning: the contract shared by the pools\<close>

locale intern_pool =
  fixes add :: "'v \<Rightarrow> ModuleBody \<Rightarrow> nat \<times> ModuleBody"
    and index :: "ModuleBody \<Rightarrow> 'k \<rightharpoonup> nat" and key :: "'v \<Rightarrow> 'k" and const :: "'v \<Rightarrow> Const"
  assumes add_index: "fst (add v m) = fst (findOrAdd (index m) (key v) (bm_consts m) (const v))"
    and add_map: "index (snd (add v m)) = fst (snd (findOrAdd (index m) (key v) (bm_consts m) (const v)))"
    and add_consts: "bm_consts (snd (add v m)) = snd (snd (findOrAdd (index m) (key v) (bm_consts m) (const v)))"
begin

lemma hit: "index m (key v) = Some i \<Longrightarrow> fst (add v m) = i \<and> bm_consts (snd (add v m)) = bm_consts m"
  by (simp add: add_index add_consts findOrAdd_def)

lemma miss:
  "index m (key v) = None \<Longrightarrow>
   fst (add v m) = length (bm_consts m) \<and> bm_consts (snd (add v m)) = bm_consts m @ [const v]"
  by (simp add: add_index add_consts findOrAdd_def)

lemma index_after: "index (snd (add v m)) = (index m)(key v \<mapsto> fst (add v m))"
  by (auto simp: add_index add_map findOrAdd_def fun_upd_idem split: option.split)

lemma add_outcome:
  "index m (key v) = Some (fst (add v m)) \<and> bm_consts (snd (add v m)) = bm_consts m \<or>
   index m (key v) = None \<and> fst (add v m) = length (bm_consts m) \<and>
     bm_consts (snd (add v m)) = bm_consts m @ [const v]"
  using hit miss by (cases "index m (key v)") auto

end

lemmas pool_defs = addInt_def addBigInt_def addDouble_def addString_def addChar_def addSymbol_def
  addSendSite_def addNames_def addSuperSite_def addKwSendSite_def findOrAdd_def

interpretation ints: intern_pool addInt bm_intIndex "\<lambda>v. v" "\<lambda>v. mkConst CK_Int v 0 []"
  by unfold_locales (simp_all add: pool_defs split: option.split)

interpretation bigints: intern_pool "\<lambda>(d, b). addBigInt d b" bm_bigIntIndex
  "\<lambda>(d, b). intToString b @ '':'' @ d" "\<lambda>(d, b). (mkConst CK_BigInt 0 0 d)\<lparr>cn_base := b\<rparr>"
  by unfold_locales (auto simp: pool_defs split: option.split)

interpretation doubles: intern_pool addDouble bm_doubleIndex "\<lambda>v. v" "\<lambda>v. mkConst CK_Double 0 v []"
  by unfold_locales (simp_all add: pool_defs split: option.split)

interpretation pooled_strings: intern_pool addString bm_stringIndex "\<lambda>v. v" "\<lambda>v. mkConst CK_String 0 0 v"
  by unfold_locales (simp_all add: pool_defs split: option.split)

interpretation pooled_chars: intern_pool addChar bm_charIndex int "\<lambda>c. mkConst CK_Char (int c) 0 []"
  by unfold_locales (simp_all add: pool_defs split: option.split)

interpretation symbols: intern_pool addSymbol bm_symbolIndex "\<lambda>v. v" "\<lambda>v. mkConst CK_Symbol 0 0 v"
  by unfold_locales (simp_all add: pool_defs split: option.split)

interpretation sends: intern_pool "\<lambda>(n, a, f). addSendSite n a f" bm_sendIndex "\<lambda>(n, a, f). sendKey n a f"
  "\<lambda>(n, a, f). (mkConst CK_SendSite 0 0 n)\<lparr>cn_argc := a, cn_key := f\<rparr>"
  by unfold_locales (auto simp: pool_defs split: option.split)

interpretation name_lists: intern_pool addNames bm_namesIndex joined
  "\<lambda>ns. (mkConst CK_Names 0 0 [])\<lparr>cn_names := ns\<rparr>"
  by unfold_locales (simp_all add: pool_defs split: option.split)

interpretation supers: intern_pool "\<lambda>(n, a, k, x). addSuperSite n a k x" bm_superIndex
  "\<lambda>(n, a, k, x). superKey n a k x"
  "\<lambda>(n, a, k, x). (mkConst CK_SuperSite 0 0 n)\<lparr>cn_argc := a, cn_key := k, cn_exact := x\<rparr>"
  by unfold_locales (auto simp: pool_defs split: option.split)

interpretation kw_sends: intern_pool "\<lambda>(n, a, ks, f). addKwSendSite n a ks f" bm_kwIndex
  "\<lambda>(n, a, ks, f). kwKey n a ks f"
  "\<lambda>(n, a, ks, f). (mkConst CK_KwSendSite 0 0 n)\<lparr>cn_argc := a, cn_names := ks, cn_key := f\<rparr>"
  by unfold_locales (auto simp: pool_defs split: option.split)

subsection \<open>The keys\<close>

text \<open>A name in which no \<^verbatim>\<open>/\<close> is followed by a digit: every identifier the lexer reads unquoted.\<close>

fun noSlashDigit :: "byte_string \<Rightarrow> bool" where
  "noSlashDigit (a # b # cs) \<longleftrightarrow> \<not> (a = CHR ''/'' \<and> isdigit b) \<and> noSlashDigit (b # cs)"
| "noSlashDigit _ \<longleftrightarrow> True"

lemma isdigit_slash [simp]: "\<not> isdigit (CHR ''/'')"
  by (simp add: isdigit_def byte_of_def)

lemma noSlashDigit_tl: "noSlashDigit (a # cs) \<Longrightarrow> noSlashDigit cs"
  by (cases cs) auto

lemma slash_digit_split:
  assumes "n @ CHR ''/'' # c # xs = n' @ CHR ''/'' # c' # ys" "isdigit c" "isdigit c'"
    and "noSlashDigit n" "noSlashDigit n'"
  shows "n = n' \<and> c = c' \<and> xs = ys"
  using assms
proof (induction n arbitrary: n')
  case Nil
  then show ?case
  proof (cases n')
    case (Cons a as)
    then show ?thesis using Nil by (cases as) auto
  qed auto
next
  case (Cons a n)
  then show ?case
  proof (cases n')
    case Nil
    then show ?thesis using Cons.prems by (cases n) auto
  next
    case (Cons b bs)
    then show ?thesis using Cons.IH[of bs] Cons.prems noSlashDigit_tl by auto
  qed
qed

lemma natToString_Cons: obtains d ds where "natToString n = d # ds" "isdigit d"
  using natToString_digits[of n] natToString_nonempty[of n] by (cases "natToString n") auto

lemma site_split:
  assumes "n @ ''/'' @ natToString k @ r = n' @ ''/'' @ natToString k' @ r'" "noSlashDigit n" "noSlashDigit n'"
  shows "n = n' \<and> natToString k @ r = natToString k' @ r'"
proof -
  obtain d ds where d: "natToString k = d # ds" "isdigit d" by (rule natToString_Cons)
  obtain e es where e: "natToString k' = e # es" "isdigit e" by (rule natToString_Cons)
  show ?thesis using slash_digit_split[of n d "ds @ r" n' e "es @ r'"] assms d e by simp
qed

lemma sendKey_inject:
  assumes "sendKey n a f = sendKey n' a' f'" "noSlashDigit n" "noSlashDigit n'"
  shows "n = n' \<and> a = a' \<and> f = f'"
proof -
  have "n = n'" "natToString (unat a) @ CHR ''/'' # f = natToString (unat a') @ CHR ''/'' # f'"
    using site_split[of n "unat a" "''/'' @ f" n' "unat a'" "''/'' @ f'"] assms by (auto simp: sendKey_def)
  then show ?thesis using printed_prefix[of "unat a" "CHR ''/'' # f" "unat a'" "CHR ''/'' # f'"]
    by (simp add: word_unat_eq_iff)
qed

lemma superKey_inject:
  assumes "superKey n a k x = superKey n' a' k' x'" "noSlashDigit n" "noSlashDigit n'"
    and "CHR ''/'' \<notin> set k" "CHR ''/'' \<notin> set k'"
  shows "n = n' \<and> a = a' \<and> k = k' \<and> x = x'"
proof -
  let ?r = "if x then ''/x'' else []" and ?r' = "if x' then ''/x'' else []"
  have "k = k'" and e: "n @ ''/'' @ natToString (unat a) @ ?r = n' @ ''/'' @ natToString (unat a') @ ?r'"
    using separator_split[of k "''/'' @ n @ ''/'' @ natToString (unat a) @ ?r" k'
        "''/'' @ n' @ ''/'' @ natToString (unat a') @ ?r'" "CHR ''/''"] assms
    by (auto simp: superKey_def)
  have "n = n'" "natToString (unat a) @ ?r = natToString (unat a') @ ?r'"
    using site_split[OF e assms(2,3)] by simp_all
  moreover have "?r = [] \<or> \<not> isdigit (hd ?r)" "?r' = [] \<or> \<not> isdigit (hd ?r')" by simp_all
  ultimately have "unat a = unat a'" "?r = ?r'"
    using printed_prefix[of "unat a" ?r "unat a'" ?r'] by blast+
  then show ?thesis using \<open>n = n'\<close> \<open>k = k'\<close> by (auto simp: word_unat_eq_iff split: if_splits)
qed

text \<open>A list of names is recovered from the joined key when the names are not empty and free of commas.\<close>

definition plainNames :: "byte_string list \<Rightarrow> bool" where
  "plainNames ns \<longleftrightarrow> list_all (\<lambda>n. n \<noteq> [] \<and> CHR '','' \<notin> set n) ns"

definition commas :: "byte_string list \<Rightarrow> byte_string" where
  "commas ns = concat (map (\<lambda>n. CHR '','' # n) ns)"

lemma joined_foldl:
  "out \<noteq> [] \<Longrightarrow> foldl (\<lambda>out s. out @ (if out = [] then [] else '','') @ s) out ns = out @ commas ns"
  by (induction ns arbitrary: out) (auto simp: commas_def)

lemma joined_Cons: "n \<noteq> [] \<Longrightarrow> joined (n # ns) = n @ commas ns"
  using joined_foldl[of n ns] by (simp add: joined_def)

lemma commas_head: "commas ns = [] \<or> hd (commas ns) = CHR '',''"
  by (cases ns) (simp_all add: commas_def)

lemma commas_inject: "plainNames ns \<Longrightarrow> plainNames ms \<Longrightarrow> commas ns = commas ms \<Longrightarrow> ns = ms"
proof (induction ns arbitrary: ms)
  case Nil
  then show ?case by (cases ms) (auto simp: commas_def)
next
  case (Cons n ns)
  then obtain m ms' where ms: "ms = m # ms'" by (cases ms) (auto simp: commas_def)
  have "n @ commas ns = m @ commas ms'" using Cons.prems(3) ms by (simp add: commas_def)
  then have "n = m \<and> commas ns = commas ms'"
    using separator_split[of n "commas ns" m "commas ms'" "CHR '',''"] Cons.prems(1,2) ms commas_head
    by (auto simp: plainNames_def)
  then show ?case using Cons ms by (simp add: plainNames_def)
qed

lemma joined_inject: "plainNames ns \<Longrightarrow> plainNames ms \<Longrightarrow> joined ns = joined ms \<Longrightarrow> ns = ms"
proof (cases ns; cases ms)
  fix n ns' m ms'
  assume p: "plainNames ns" "plainNames ms" "joined ns = joined ms" and e: "ns = n # ns'" "ms = m # ms'"
  have "n @ commas ns' = m @ commas ms'" using p e by (simp add: joined_Cons plainNames_def)
  then have "commas ns = commas ms" using e by (simp add: commas_def)
  then show "ns = ms" using commas_inject p by blast
qed (auto simp: joined_Cons plainNames_def joined_def[of "[]"])

lemma joined_no_slash: "list_all (\<lambda>n. CHR ''/'' \<notin> set n) ns \<Longrightarrow> CHR ''/'' \<notin> set (joined ns)"
proof -
  assume ns: "list_all (\<lambda>n. CHR ''/'' \<notin> set n) ns"
  have "CHR ''/'' \<notin> set out \<Longrightarrow>
      CHR ''/'' \<notin> set (foldl (\<lambda>out s. out @ (if out = [] then [] else '','') @ s) out ns)" for out
    using ns by (induction ns arbitrary: out) auto
  then show ?thesis by (simp add: joined_def)
qed

lemma kwKey_inject:
  assumes "kwKey n a ks f = kwKey n' a' ks' f'" "noSlashDigit n" "noSlashDigit n'"
    and "plainNames ks" "plainNames ks'"
    and "list_all (\<lambda>k. CHR ''/'' \<notin> set k) ks" "list_all (\<lambda>k. CHR ''/'' \<notin> set k) ks'"
  shows "n = n' \<and> a = a' \<and> ks = ks' \<and> f = f'"
proof -
  let ?r = "CHR ''/'' # joined ks @ CHR ''/'' # f" and ?r' = "CHR ''/'' # joined ks' @ CHR ''/'' # f'"
  have "n = n'" "natToString (unat a) @ ?r = natToString (unat a') @ ?r'"
    using site_split[of n "unat a" ?r n' "unat a'" ?r'] assms(1-3) by (auto simp: kwKey_def)
  then have a: "a = a'" "joined ks @ CHR ''/'' # f = joined ks' @ CHR ''/'' # f'" and n: "n = n'"
    using printed_prefix[of "unat a" ?r "unat a'" ?r'] by (auto simp: word_unat_eq_iff)
  have "joined ks = joined ks' \<and> f = f'"
    using separator_split[OF a(2), of "CHR ''/''"] joined_no_slash assms(6,7) by simp
  then show ?thesis using n a joined_inject assms(4,5) by blast
qed

lemma bigIntKey_inject: "intToString b @ CHR '':'' # d = intToString b' @ CHR '':'' # d' \<Longrightarrow> b = b' \<and> d = d'"
proof -
  assume "intToString b @ CHR '':'' # d = intToString b' @ CHR '':'' # d'"
  moreover have "CHR '':'' \<notin> set (intToString i)" for i
    by (simp add: intToString_def natToString_free isdigit_def byte_of_def)
  ultimately show ?thesis
    using separator_split[of "intToString b" "'':'' @ d" "intToString b'" "'':'' @ d'" "CHR '':''"] by simp
qed

subsection \<open>The pool as a whole\<close>

text \<open>The eleven ways to ask for a constant, as values, so that sequences of them can be stated.\<close>

datatype PoolRequest =
    RInt int
  | RBigInt byte_string int
  | RDouble u64
  | RString byte_string
  | RChar nat
  | RSymbol byte_string
  | RSendSite byte_string u32 byte_string
  | RNames "byte_string list"
  | RClassSpec ClassSpecData
  | RSuperSite byte_string u32 byte_string bool
  | RKwSendSite byte_string u32 "byte_string list" byte_string

fun addRequest :: "PoolRequest \<Rightarrow> ModuleBody \<Rightarrow> nat \<times> ModuleBody" where
  "addRequest (RInt v) = addInt v"
| "addRequest (RBigInt d b) = addBigInt d b"
| "addRequest (RDouble v) = addDouble v"
| "addRequest (RString t) = addString t"
| "addRequest (RChar c) = addChar c"
| "addRequest (RSymbol n) = addSymbol n"
| "addRequest (RSendSite n a f) = addSendSite n a f"
| "addRequest (RNames ns) = addNames ns"
| "addRequest (RClassSpec c) = addClassSpec c"
| "addRequest (RSuperSite n a k x) = addSuperSite n a k x"
| "addRequest (RKwSendSite n a ks f) = addKwSendSite n a ks f"

fun requestConst :: "PoolRequest \<Rightarrow> Const" where
  "requestConst (RInt v) = mkConst CK_Int v 0 []"
| "requestConst (RBigInt d b) = (mkConst CK_BigInt 0 0 d)\<lparr>cn_base := b\<rparr>"
| "requestConst (RDouble v) = mkConst CK_Double 0 v []"
| "requestConst (RString t) = mkConst CK_String 0 0 t"
| "requestConst (RChar c) = mkConst CK_Char (int c) 0 []"
| "requestConst (RSymbol n) = mkConst CK_Symbol 0 0 n"
| "requestConst (RSendSite n a f) = (mkConst CK_SendSite 0 0 n)\<lparr>cn_argc := a, cn_key := f\<rparr>"
| "requestConst (RNames ns) = (mkConst CK_Names 0 0 [])\<lparr>cn_names := ns\<rparr>"
| "requestConst (RClassSpec c) = (mkConst CK_ClassSpec 0 0 (cs_displayName c))\<lparr>cn_argc := cs_parentCount c,
     cn_names := cs_memberKeys c, cn_fields := cs_fields c, cn_key := cs_key c, cn_flags := cs_flags c\<rparr>"
| "requestConst (RSuperSite n a k x) =
     (mkConst CK_SuperSite 0 0 n)\<lparr>cn_argc := a, cn_key := k, cn_exact := x\<rparr>"
| "requestConst (RKwSendSite n a ks f) =
     (mkConst CK_KwSendSite 0 0 n)\<lparr>cn_argc := a, cn_names := ks, cn_key := f\<rparr>"

text \<open>Requests whose key determines them: names as the lexer reads them unquoted.\<close>

fun plainRequest :: "PoolRequest \<Rightarrow> bool" where
  "plainRequest (RSendSite n a f) \<longleftrightarrow> noSlashDigit n"
| "plainRequest (RNames ns) \<longleftrightarrow> plainNames ns"
| "plainRequest (RSuperSite n a k x) \<longleftrightarrow> noSlashDigit n \<and> CHR ''/'' \<notin> set k"
| "plainRequest (RKwSendSite n a ks f) \<longleftrightarrow>
     noSlashDigit n \<and> plainNames ks \<and> list_all (\<lambda>k. CHR ''/'' \<notin> set k) ks"
| "plainRequest _ \<longleftrightarrow> True"

fun shared :: "PoolRequest \<Rightarrow> bool" where
  "shared (RClassSpec c) \<longleftrightarrow> False"
| "shared _ \<longleftrightarrow> True"

fun poolLookup :: "ModuleBody \<Rightarrow> PoolRequest \<Rightarrow> nat option" where
  "poolLookup m (RInt v) = bm_intIndex m v"
| "poolLookup m (RBigInt d b) = bm_bigIntIndex m (intToString b @ '':'' @ d)"
| "poolLookup m (RDouble v) = bm_doubleIndex m v"
| "poolLookup m (RString t) = bm_stringIndex m t"
| "poolLookup m (RChar c) = bm_charIndex m (int c)"
| "poolLookup m (RSymbol n) = bm_symbolIndex m n"
| "poolLookup m (RSendSite n a f) = bm_sendIndex m (sendKey n a f)"
| "poolLookup m (RNames ns) = bm_namesIndex m (joined ns)"
| "poolLookup m (RClassSpec c) = None"
| "poolLookup m (RSuperSite n a k x) = bm_superIndex m (superKey n a k x)"
| "poolLookup m (RKwSendSite n a ks f) = bm_kwIndex m (kwKey n a ks f)"

lemma requestConst_inject: "requestConst r = requestConst r' \<longleftrightarrow> r = r'"
  by (cases r; cases r') (auto simp: mkConst_def)

lemma addRequest_outcome:
  "poolLookup m r = Some (fst (addRequest r m)) \<and> bm_consts (snd (addRequest r m)) = bm_consts m \<or>
   poolLookup m r = None \<and> fst (addRequest r m) = length (bm_consts m) \<and>
     bm_consts (snd (addRequest r m)) = bm_consts m @ [requestConst r]"
  using ints.add_outcome[of m] doubles.add_outcome[of m] pooled_strings.add_outcome[of m]
    pooled_chars.add_outcome[of m] symbols.add_outcome[of m] name_lists.add_outcome[of m]
    bigints.add_outcome[of m "(d, b)" for d b] sends.add_outcome[of m "(n, a, f)" for n a f]
    supers.add_outcome[of m "(n, a, k, x)" for n a k x] kw_sends.add_outcome[of m "(n, a, ks, f)" for n a ks f]
  by (cases r) (simp_all add: addClassSpec_def)

lemma poolLookup_self: "shared r \<Longrightarrow> poolLookup (snd (addRequest r m)) r = Some (fst (addRequest r m))"
  using bigints.index_after[of "(d, b)" m for d b] sends.index_after[of "(n, a, f)" m for n a f]
    supers.index_after[of "(n, a, k, x)" m for n a k x] kw_sends.index_after[of "(n, a, ks, f)" m for n a ks f]
  by (cases r) (simp_all add: ints.index_after doubles.index_after pooled_strings.index_after
      pooled_chars.index_after symbols.index_after name_lists.index_after)

text \<open>Each operation touches its own index and the constants, nothing else.\<close>

lemma pool_updates:
  "\<exists>cs. snd (addInt v m) = m\<lparr>bm_intIndex := (bm_intIndex m)(v \<mapsto> fst (addInt v m)), bm_consts := cs\<rparr>"
  "\<exists>cs. snd (addBigInt d b m) = m\<lparr>bm_bigIntIndex := (bm_bigIntIndex m)(intToString b @ '':'' @ d \<mapsto> fst (addBigInt d b m)), bm_consts := cs\<rparr>"
  "\<exists>cs. snd (addDouble w m) = m\<lparr>bm_doubleIndex := (bm_doubleIndex m)(w \<mapsto> fst (addDouble w m)), bm_consts := cs\<rparr>"
  "\<exists>cs. snd (addString t m) = m\<lparr>bm_stringIndex := (bm_stringIndex m)(t \<mapsto> fst (addString t m)), bm_consts := cs\<rparr>"
  "\<exists>cs. snd (addChar c m) = m\<lparr>bm_charIndex := (bm_charIndex m)(int c \<mapsto> fst (addChar c m)), bm_consts := cs\<rparr>"
  "\<exists>cs. snd (addSymbol n m) = m\<lparr>bm_symbolIndex := (bm_symbolIndex m)(n \<mapsto> fst (addSymbol n m)), bm_consts := cs\<rparr>"
  "\<exists>cs. snd (addSendSite n a f m) = m\<lparr>bm_sendIndex := (bm_sendIndex m)(sendKey n a f \<mapsto> fst (addSendSite n a f m)), bm_consts := cs\<rparr>"
  "\<exists>cs. snd (addNames ns m) = m\<lparr>bm_namesIndex := (bm_namesIndex m)(joined ns \<mapsto> fst (addNames ns m)), bm_consts := cs\<rparr>"
  "\<exists>cs. snd (addSuperSite n a k x m) = m\<lparr>bm_superIndex := (bm_superIndex m)(superKey n a k x \<mapsto> fst (addSuperSite n a k x m)), bm_consts := cs\<rparr>"
  "\<exists>cs. snd (addKwSendSite n a ks f m) = m\<lparr>bm_kwIndex := (bm_kwIndex m)(kwKey n a ks f \<mapsto> fst (addKwSendSite n a ks f m)), bm_consts := cs\<rparr>"
  by (auto simp: pool_defs fun_upd_idem split: option.split intro: exI[of _ "bm_consts m"])

lemma poolLookup_other:
  assumes "plainRequest r" "plainRequest r'" "r \<noteq> r'"
  shows "poolLookup (snd (addRequest r m)) r' = poolLookup m r'"
proof (cases r)
  case (RInt v)
  then show ?thesis using assms pool_updates(1)[where m = m and v = v]
    by (cases r') (auto)
next
  case (RBigInt d b)
  then show ?thesis using assms pool_updates(2)[where m = m and d = d and b = b]
    by (cases r') (auto dest: bigIntKey_inject)
next
  case (RDouble w)
  then show ?thesis using assms pool_updates(3)[where m = m and w = w]
    by (cases r') (auto)
next
  case (RString t)
  then show ?thesis using assms pool_updates(4)[where m = m and t = t]
    by (cases r') (auto)
next
  case (RChar c)
  then show ?thesis using assms pool_updates(5)[where m = m and c = c]
    by (cases r') (auto)
next
  case (RSymbol n)
  then show ?thesis using assms pool_updates(6)[where m = m and n = n]
    by (cases r') (auto)
next
  case (RSendSite n a f)
  then show ?thesis using assms pool_updates(7)[where m = m and n = n and a = a and f = f]
    by (cases r') (auto dest: sendKey_inject)
next
  case (RNames ns)
  then show ?thesis using assms pool_updates(8)[where m = m and ns = ns]
    by (cases r') (auto dest: joined_inject)
next
  case (RSuperSite n a k x)
  then show ?thesis using assms pool_updates(9)[where m = m and n = n and a = a and k = k and x = x]
    by (cases r') (auto dest: superKey_inject split: if_splits)
next
  case (RKwSendSite n a ks f)
  then show ?thesis using assms pool_updates(10)[where m = m and n = n and a = a and ks = ks and f = f]
    by (cases r') (auto dest: kwKey_inject)
next
  case (RClassSpec c)
  then show ?thesis by (cases r') (simp_all add: addClassSpec_def)
qed

text \<open>What the pool promises, and that every plain request keeps it.\<close>

definition poolInv :: "ModuleBody \<Rightarrow> bool" where
  "poolInv m \<longleftrightarrow> (\<forall>r i. plainRequest r \<longrightarrow> poolLookup m r = Some i \<longrightarrow>
     i < length (bm_consts m) \<and> bm_consts m ! i = requestConst r)"

lemma poolInv_new: "poolInv newBody"
  unfolding poolInv_def
proof (intro allI impI)
  fix r i assume "poolLookup newBody r = Some i"
  then show "i < length (bm_consts newBody) \<and> bm_consts newBody ! i = requestConst r"
    by (cases r) (simp_all add: newBody_def)
qed

lemma addRequest_const:
  assumes "poolInv m" "plainRequest r" "addRequest r m = (i, m')"
  shows "i < length (bm_consts m')" "bm_consts m' ! i = requestConst r" "\<exists>cs. bm_consts m' = bm_consts m @ cs"
  using addRequest_outcome[of m r] assms by (auto simp: poolInv_def)

lemma poolInv_addRequest:
  assumes "poolInv m" "plainRequest r" "addRequest r m = (i, m')"
  shows "poolInv m'"
  unfolding poolInv_def
proof (intro allI impI)
  fix r' k assume p: "plainRequest r'" and l: "poolLookup m' r' = Some k"
  show "k < length (bm_consts m') \<and> bm_consts m' ! k = requestConst r'"
  proof (cases "r' = r")
    case True
    have "shared r" using l True by (cases r) auto
    then have "k = i" using poolLookup_self[of r m] l True assms(3) by simp
    then show ?thesis using addRequest_const[OF assms] True by simp
  next
    case False
    then have "poolLookup m r' = Some k" using poolLookup_other[OF assms(2) p, of m] l assms(3) by auto
    then show ?thesis using assms(1) p addRequest_const(3)[OF assms] by (auto simp: poolInv_def nth_append)
  qed
qed

text \<open>A sequence of requests, with the indices it returns.\<close>

fun addRequests :: "PoolRequest list \<Rightarrow> ModuleBody \<Rightarrow> nat list \<times> ModuleBody" where
  "addRequests [] m = ([], m)"
| "addRequests (r # rs) m =
     (case addRequest r m of (i, m1) \<Rightarrow> case addRequests rs m1 of (is, m2) \<Rightarrow> (i # is, m2))"

lemma addRequests_grow:
  assumes "poolInv m" "list_all plainRequest rs" "addRequests rs m = (is, m')"
  shows "poolInv m' \<and> (\<exists>cs. bm_consts m' = bm_consts m @ cs) \<and> length is = length rs \<and>
    list_all2 (\<lambda>r i. i < length (bm_consts m') \<and> bm_consts m' ! i = requestConst r) rs is"
  using assms
proof (induction rs arbitrary: m "is")
  case (Cons r rs)
  obtain i m1 where a: "addRequest r m = (i, m1)" by fastforce
  obtain js where b: "addRequests rs m1 = (js, m')" "is = i # js"
    using Cons.prems(3) a by (auto split: prod.splits)
  have p: "plainRequest r" using Cons.prems by simp
  note c = addRequest_const[OF Cons.prems(1) p a]
  have "poolInv m' \<and> (\<exists>cs. bm_consts m' = bm_consts m1 @ cs) \<and> length js = length rs \<and>
    list_all2 (\<lambda>r i. i < length (bm_consts m') \<and> bm_consts m' ! i = requestConst r) rs js"
    using Cons.IH[OF poolInv_addRequest[OF Cons.prems(1) p a] _ b(1)] Cons.prems by simp
  then show ?case using c b(2) by (auto simp: nth_append)
qed auto

text \<open>A shared request that was answered once is answered with the same index from then on.\<close>

lemma addRequest_hit: "poolLookup m r = Some i \<Longrightarrow> fst (addRequest r m) = i"
  using addRequest_outcome[of m r] by auto

lemma poolLookup_keep:
  assumes "plainRequest r" "plainRequest r'" "poolLookup m r' = Some k"
  shows "poolLookup (snd (addRequest r m)) r' = Some k"
proof (cases "r = r'")
  case True
  moreover have "shared r'" using assms(3) by (cases r') auto
  ultimately show ?thesis using poolLookup_self[of r m] addRequest_hit[of m r' k] assms(3) by simp
next
  case False
  then show ?thesis using poolLookup_other[OF assms(1,2)] assms(3) by simp
qed

lemma addRequests_hit:
  assumes "list_all plainRequest rs" "plainRequest r" "poolLookup m r = Some k"
    and "addRequests rs m = (is, m')" "j < length rs" "rs ! j = r"
  shows "is ! j = k"
  using assms
proof (induction rs arbitrary: m "is" j)
  case (Cons q qs)
  obtain i m1 where a: "addRequest q m = (i, m1)" by fastforce
  obtain js where b: "addRequests qs m1 = (js, m')" "is = i # js"
    using Cons.prems(4) a by (auto split: prod.splits)
  have keep: "poolLookup m1 r = Some k" using poolLookup_keep[of q r m k] Cons.prems a by simp
  show ?case
  proof (cases j)
    case 0
    then show ?thesis using Cons.prems a b addRequest_hit[of m r k] by simp
  next
    case (Suc n)
    then show ?thesis using Cons.IH[OF _ Cons.prems(2) keep b(1), of n] Cons.prems b by simp
  qed
qed simp

lemma addRequests_same:
  assumes "list_all plainRequest rs" "addRequests rs m = (is, m')"
    and "j < k" "k < length rs" "rs ! j = rs ! k" "shared (rs ! j)"
  shows "is ! j = is ! k"
  using assms
proof (induction rs arbitrary: m "is" j k)
  case (Cons q qs)
  obtain i m1 where a: "addRequest q m = (i, m1)" by fastforce
  obtain js where b: "addRequests qs m1 = (js, m')" "is = i # js"
    using Cons.prems(2) a by (auto split: prod.splits)
  obtain k' where k: "k = Suc k'" using Cons.prems(3) by (cases k) auto
  show ?case
  proof (cases j)
    case 0
    then have q: "poolLookup m1 q = Some i" using poolLookup_self[of q m] a Cons.prems(6) by simp
    have "js ! k' = i"
      by (rule addRequests_hit[OF _ _ q b(1)]) (use Cons.prems(1,4,5) 0 k in simp_all)
    then show ?thesis using b(2) 0 k by simp
  next
    case (Suc n)
    have "js ! n = js ! k'"
      by (rule Cons.IH[OF _ b(1)]) (use Cons.prems Suc k in simp_all)
    then show ?thesis using b(2) Suc k by simp
  qed
qed simp

text \<open>
  C15: whatever mix of constants a function body asks for, in whatever order, every index handed
  out denotes exactly the constant asked for in the finished pool, two requests share an index
  only if they are equal, and equal requests always share one (class specifications excepted,
  which are never merged), provided the requests are plain: no empty name and no comma in a list of names,
  and no slash in a name where a site key uses it as a separator.  Unquoted identifiers have neither.
\<close>

theorem constant_pool_exact:
  assumes "list_all plainRequest rs" "addRequests rs newBody = (is, m)" "j < length rs" "k < length rs"
  shows "is ! j < length (bm_consts m) \<and> bm_consts m ! (is ! j) = requestConst (rs ! j) \<and>
    (is ! j = is ! k \<longrightarrow> rs ! j = rs ! k) \<and> (rs ! j = rs ! k \<and> shared (rs ! j) \<longrightarrow> is ! j = is ! k)"
proof -
  have all: "list_all2 (\<lambda>r i. i < length (bm_consts m) \<and> bm_consts m ! i = requestConst r) rs is"
    using addRequests_grow[OF poolInv_new assms(1,2)] by simp
  note at = list_all2_nthD[OF all]
  have "is ! j = is ! k \<longrightarrow> rs ! j = rs ! k"
    using at[OF assms(3)] at[OF assms(4)] requestConst_inject by metis
  moreover have "is ! j = is ! k" if "rs ! j = rs ! k" "shared (rs ! j)"
    using addRequests_same[OF assms(1,2), of j k] addRequests_same[OF assms(1,2), of k j] that assms(3,4)
    by (metis linorder_neqE_nat)
  ultimately show ?thesis using at[OF assms(3)] by blast
qed

theorem constant_pool_exact_witness:
  "let rs = [RInt 1, RString ''x'', RSendSite ''/'' 1 [], RInt 1]; is = fst (addRequests rs newBody); m = snd (addRequests rs newBody)
   in is ! 0 < length (bm_consts m) \<and> bm_consts m ! (is ! 0) = requestConst (rs ! 0) \<and>
    (is ! 0 = is ! 3 \<longrightarrow> rs ! 0 = rs ! 3) \<and> (rs ! 0 = rs ! 3 \<and> shared (rs ! 0) \<longrightarrow> is ! 0 = is ! 3)"
  unfolding Let_def by (rule constant_pool_exact) simp_all

text \<open>
  Outside those names the pool is not exact: the lists of names \<^verbatim>\<open>["a,b"]\<close> and \<^verbatim>\<open>["a", "b"]\<close> are
  joined to the same key, so a body that asks for both gets the first one's constant for both.
\<close>

theorem addNames_collision:
  "fst (addRequests [RNames [''a,b''], RNames [''a'', ''b'']] newBody) = [0, 0] \<and>
   bm_consts (snd (addRequests [RNames [''a,b''], RNames [''a'', ''b'']] newBody)) = [requestConst (RNames [''a,b''])]"
  by (simp add: pool_defs joined_def newBody_def)

subsection \<open>Handlers\<close>

definition covers :: "Handler \<Rightarrow> nat \<Rightarrow> bool" where
  "covers h pc \<longleftrightarrow> hd_startPc h \<le> pc \<and> pc < hd_endPc h"

text \<open>
  The order in which the compiler appends entries: an earlier region is inside, or apart from,
  every later one.
\<close>

definition innermostFirst :: "Handler list \<Rightarrow> bool" where
  "innermostFirst hs \<longleftrightarrow>
     sorted_wrt (\<lambda>h h'. hd_endPc h \<le> hd_startPc h' \<or> hd_endPc h' \<le> hd_startPc h \<or>
       (hd_startPc h' \<le> hd_startPc h \<and> hd_endPc h \<le> hd_endPc h')) hs"

text \<open>
  On a table in the compiler's order, the handler found for a position is the innermost one:
  it covers the position, every other handler that covers it encloses it, and none is found
  exactly when no region covers the position.
\<close>

theorem handlerFor_innermost:
  assumes "innermostFirst (bm_handlers m)"
  shows "case handlerFor m pc of
      None \<Rightarrow> (\<forall>h \<in> set (bm_handlers m). \<not> covers h pc)
    | Some h \<Rightarrow> h \<in> set (bm_handlers m) \<and> covers h pc \<and>
        (\<forall>h' \<in> set (bm_handlers m). covers h' pc \<longrightarrow> hd_startPc h' \<le> hd_startPc h \<and> hd_endPc h \<le> hd_endPc h')"
proof (cases "handlerFor m pc")
  case None
  then have "\<forall>h \<in> set (bm_handlers m). \<not> covers h pc"
    by (auto simp: handlerFor_def find_None_iff covers_def)
  then show ?thesis using None by simp
next
  case (Some h)
  then obtain i where i: "i < length (bm_handlers m)" "h = bm_handlers m ! i" "covers h pc"
    "\<And>j. j < i \<Longrightarrow> \<not> covers (bm_handlers m ! j) pc"
    by (auto simp: handlerFor_def find_Some_iff covers_def)
  have "hd_startPc h' \<le> hd_startPc h \<and> hd_endPc h \<le> hd_endPc h'"
    if h': "h' \<in> set (bm_handlers m)" "covers h' pc" for h'
  proof -
    obtain k where k: "k < length (bm_handlers m)" "h' = bm_handlers m ! k" using h'(1) by (metis in_set_conv_nth)
    show ?thesis
    proof (cases "i < k")
      case True
      then show ?thesis using sorted_wrt_nth_less[OF assms[unfolded innermostFirst_def] True k(1)] i k h'(2)
        by (auto simp: covers_def)
    next
      case False
      then have "k = i" using i(4)[of k] k h'(2) by (cases "k = i") auto
      then show ?thesis using i k by simp
    qed
  qed
  then show ?thesis using Some i by auto
qed

theorem handlerFor_innermost_witness:
  "let h1 = \<lparr>hd_startPc = 2, hd_endPc = 5, hd_handlerPc = 9, hd_stackDepth = 0, hd_slot = 1, hd_kind = HK_Catch\<rparr>;
       h2 = \<lparr>hd_startPc = 0, hd_endPc = 8, hd_handlerPc = 12, hd_stackDepth = 0, hd_slot = 2, hd_kind = HK_Finally\<rparr>;
       m = newBody\<lparr>bm_handlers := [h1, h2]\<rparr>
   in case handlerFor m 3 of
      None \<Rightarrow> (\<forall>h \<in> set (bm_handlers m). \<not> covers h 3)
    | Some h \<Rightarrow> h \<in> set (bm_handlers m) \<and> covers h 3 \<and>
        (\<forall>h' \<in> set (bm_handlers m). covers h' 3 \<longrightarrow> hd_startPc h' \<le> hd_startPc h \<and> hd_endPc h \<le> hd_endPc h')"
  unfolding Let_def by (rule handlerFor_innermost) (simp add: innermostFirst_def)

subsection \<open>Default parameters and slots\<close>

lemma minArity_setDefaultBlock:
  "bm_minArity (setDefaultBlock p b m) = min (int p) (bm_minArity m)"
  by (simp add: setDefaultBlock_def Let_def)

lemma minArity_defaults:
  "bm_minArity (foldl (\<lambda>m (p, b). setDefaultBlock p b m) m ds) = Min (insert (bm_minArity m) (int ` fst ` set ds))"
proof (induction ds arbitrary: m)
  case (Cons d ds)
  have "Min (insert (min a b) S) = Min (insert b (insert a S))" if "finite S" for a b and S :: "int set"
    using that by (cases "S = {}") (auto simp: Min_insert min.assoc min.commute min.left_commute)
  from this[of "int ` fst ` set ds" "int (fst d)" "bm_minArity m"]
  show ?case using Cons[of "setDefaultBlock (fst d) (snd d) m"]
    by (simp add: case_prod_beta minArity_setDefaultBlock)
qed simp

text \<open>
  After the parameter names are set and any parameters are given default blocks, in any
  order, the least positional count is the index of the first parameter with a default (or the
  arity when there is none), whether or not the parameters after it have defaults.
\<close>

lemma minArity_first_default:
  "bm_minArity (foldl (\<lambda>m (p, b). setDefaultBlock p b m) (setParamNames names m) ds) =
     Min (insert (bm_arity m) (int ` fst ` set ds))"
  using minArity_defaults[of "setParamNames names m" ds] by (simp add: setParamNames_def)

text \<open>
  So \<^verbatim>\<open>minArity\<close> is not the arity minus the trailing parameters with a default: with a default
  on the first of two parameters only, no trailing parameter has one, and it is 0.
\<close>

theorem minArity_not_trailing:
  "bm_minArity (setDefaultBlock 0 5 (setParamNames [''a'', ''b''] (newBody\<lparr>bm_arity := 2\<rparr>))) = 0 \<and>
   defaultBlock (setDefaultBlock 0 5 (setParamNames [''a'', ''b''] (newBody\<lparr>bm_arity := 2\<rparr>))) 1 = None"
  by (simp add: setDefaultBlock_def setParamNames_def newBody_def defaultBlock_def Let_def)

lemma nth_resize: "i < n \<Longrightarrow> resize n x xs ! i = (if i < length xs then xs ! i else x)"
  by (auto simp: resize_def nth_append)

lemma length_resize [simp]: "length (resize n x xs) = n"
  by (simp add: resize_def)

text \<open>
  The first name a slot is given stays: naming a slot changes the name of that slot only, and
  only when it had none.
\<close>

lemma setSlotName_first:
  "slotName (setSlotName slot name boxed m) s =
     (if s = slot \<and> 0 \<le> slot \<and> slotName m slot = [] then name else slotName m s)"
proof (cases "0 \<le> slot \<and> 0 \<le> s")
  case True
  define i where "i = nat slot"
  define k where "k = nat s"
  have e: "slot = int i" "s = int k" using True by (simp_all add: i_def k_def)
  show ?thesis
  proof (cases "length (bm_slotNames m) \<le> i")
    case True
    then show ?thesis
      by (cases "k < Suc i") (auto simp: e setSlotName_def slotName_def Let_def nth_resize nth_list_update)
  next
    case False
    then show ?thesis
      by (auto simp: e setSlotName_def slotName_def Let_def nth_list_update)
  qed
next
  case False
  show ?thesis
  proof (cases "slot < 0")
    case True
    then show ?thesis by (auto simp: setSlotName_def)
  next
    case F: False
    then have "s < 0" using False by simp
    then show ?thesis by (auto simp: slotName_def)
  qed
qed

subsection \<open>The line table\<close>

definition linesParallel :: "ModuleBody \<Rightarrow> bool" where
  "linesParallel m \<longleftrightarrow> length (bm_lines m) = length (bm_code m)"

lemma linesParallel_new: "linesParallel newBody"
  by (simp add: linesParallel_def newBody_def)

lemma linesParallel_emit: "linesParallel m \<Longrightarrow> emit op operand line m = Inr (pos, m') \<Longrightarrow> linesParallel m'"
  by (auto simp: linesParallel_def emit_cases split: if_splits)

lemma linesParallel_patch: "linesParallel m \<Longrightarrow> patchJumpTo at target m = Inr m' \<Longrightarrow> linesParallel m'"
  by (auto simp: linesParallel_def patchJumpTo_def Let_def split: if_splits)

lemma linesParallel_raw: "linesParallel m \<Longrightarrow> linesParallel (appendRawInstr w line m)"
  by (simp add: linesParallel_def appendRawInstr_def)

text \<open>
  The line table stays parallel to the code under emission, and the line recorded for an
  emitted instruction is the one it was emitted with, while earlier lines keep theirs.
\<close>

lemma emit_line:
  assumes "linesParallel m" "emit op operand line m = Inr (pos, m')"
  shows "linesParallel m' \<and> lineAt m' pos = line \<and> take (length (bm_code m)) (bm_lines m') = bm_lines m"
proof -
  have "length (emitted op operand) \<noteq> 0" by (simp add: emitted_def)
  then obtain n where "length (emitted op operand) = Suc n" using not0_implies_Suc by blast
  then show ?thesis using assms linesParallel_emit[OF assms]
    by (auto simp: emit_cases lineAt_def linesParallel_def nth_append nth_Cons' split: if_splits)
qed

theorem emit_line_witness:
  "linesParallel (snd (projr (emit POP 0 7 newBody))) \<and> lineAt (snd (projr (emit POP 0 7 newBody))) 0 = 7 \<and>
   take (length (bm_code newBody)) (bm_lines (snd (projr (emit POP 0 7 newBody)))) = bm_lines newBody"
  by (rule emit_line[where op = POP and operand = 0])
     (simp_all add: linesParallel_def emit_cases newBody_def kMaxExtendedOperand_def kMaxOperand_def emitted_def)

end
