(* ===== verification/Disassembler.thy ===== *)
theory Disassembler
  imports Bytecode
begin

text \<open>
  The listing of a module (\<^verbatim>\<open>disassemble\<close> and its helpers in
  \<^verbatim>\<open>src/src/compiler/BytecodeModule.cpp\<close>).  \<^verbatim>\<open>formatDouble\<close> is \<^verbatim>\<open>snprintf("%.17g")\<close> of the C library and
  is the argument \<open>fd\<close>, a function of the bit pattern.  \<^verbatim>\<open>substr(1)\<close> of an empty key throws; the
  other reads are in range for a module the compiler built (a constant index is below the size of
  the pool), which is where \<open>nth\<close> is applied.
\<close>

subsection \<open>Printing the parts\<close>

definition escapeChar :: "char \<Rightarrow> byte_string" where
  "escapeChar ch =
     (if ch = CHR 0x22 then [CHR 0x5C, CHR 0x22]
      else if ch = CHR 0x5C then [CHR 0x5C, CHR 0x5C]
      else if ch = CHR 0x0A then [CHR 0x5C, CHR ''n'']
      else if ch = CHR 0x09 then [CHR 0x5C, CHR ''t'']
      else if ch = CHR 0x0D then [CHR 0x5C, CHR ''r'']
      else [ch])"

definition escapeString :: "byte_string \<Rightarrow> byte_string" where
  "escapeString s = [CHR 0x22] @ concat (map escapeChar s) @ [CHR 0x22]"

text \<open>\<^verbatim>\<open>%llX\<close>\<close>

definition upperHexDigit :: "nat \<Rightarrow> char" where
  "upperHexDigit d = (if d < 10 then char_of (48 + d) else char_of (55 + d))"

fun upperHex :: "nat \<Rightarrow> byte_string" where
  "upperHex n = (if n < 16 then [upperHexDigit n] else upperHex (n div 16) @ [upperHexDigit (n mod 16)])"

declare upperHex.simps [simp del]

definition formatChar :: "int \<Rightarrow> byte_string" where
  "formatChar codepoint =
     [CHR 0x27] @
     (if codepoint \<ge> 0x20 \<and> codepoint < 0x7F then [char_of (nat codepoint)]
      else ''U+'' @ upperHex (nat (codepoint mod 2 ^ 64))) @
     [CHR 0x27]"

definition nameList :: "byte_string list \<Rightarrow> byte_string" where
  "nameList v =
     ''['' @ (case v of [] \<Rightarrow> [] | n # ns \<Rightarrow> n @ concat (map (\<lambda>s. '','' @ s) ns)) @ '']''"

definition kwList :: "byte_string list \<Rightarrow> byte_string" where
  "kwList v = (case v of [] \<Rightarrow> [] | n # ns \<Rightarrow> n @ ''='' @ concat (map (\<lambda>s. '','' @ s @ ''='') ns))"

definition substrError :: ModuleError where
  "substrError = OutOfRange ''basic_string::substr''"

definition formatConst :: "(u64 \<Rightarrow> byte_string) \<Rightarrow> Const \<Rightarrow> ModuleError + byte_string" where
  "formatConst fd c =
     (let argc = natToString (unat (cn_argc c)) in
      case cn_kind c of
        CK_Int \<Rightarrow> Inr (intToString (cn_ival c))
      | CK_BigInt \<Rightarrow> Inr (cn_sval c)
      | CK_Double \<Rightarrow> Inr (fd (cn_dval c))
      | CK_String \<Rightarrow> Inr (escapeString (cn_sval c))
      | CK_Char \<Rightarrow> Inr (formatChar (cn_ival c))
      | CK_Symbol \<Rightarrow> Inr (cn_sval c)
      | CK_SendSite \<Rightarrow> Inr (cn_sval c @ ''/'' @ argc)
      | CK_Names \<Rightarrow> Inr (nameList (cn_names c))
      | CK_ClassSpec \<Rightarrow>
          Inr (''class '' @ cn_sval c @ '' '' @ cn_key c @ '' parents='' @ argc @ '' members='' @
               nameList (cn_names c) @
               (if cn_flags c AND 1 \<noteq> 0 then '' fields='' @ nameList (cn_fields c) else []))
      | CK_SuperSite \<Rightarrow>
          if cn_exact c \<and> cn_key c = [] then Inl substrError
          else Inr (''super'' @ (if cn_exact c then ''['' @ drop 1 (cn_key c) @ '']'' else []) @ ''.'' @
                    cn_sval c @ ''/'' @ argc @ '' in '' @ cn_key c)
      | CK_KwSendSite \<Rightarrow>
          Inr (cn_sval c @ ''/'' @ argc @ ''('' @ kwList (cn_names c) @ '')'' @
               (if cn_key c = [] then [] else '' or '' @ cn_key c)))"

text \<open>\<^verbatim>\<open>%04zu\<close>\<close>

definition fourDigits :: "nat \<Rightarrow> byte_string" where
  "fourDigits pc = replicate (4 - length (natToString pc)) (CHR ''0'') @ natToString pc"

definition commentFor ::
  "(u64 \<Rightarrow> byte_string) \<Rightarrow> ModuleBody \<Rightarrow> nat \<Rightarrow> nat \<Rightarrow> nat \<Rightarrow> ModuleError + byte_string" where
  "commentFor fd m opByte operand instrPc =
     (let c = bm_consts m ! operand;
          whole = (case formatConst fd c of Inl e \<Rightarrow> Inl e | Inr t \<Rightarrow> Inr ('' ; '' @ t))
      in case opOfByte opByte of
           None \<Rightarrow> Inr []
         | Some op \<Rightarrow>
             if op = PUSH_CONST then whole
             else if op \<in> {PUSH_GLOBAL, STORE_GLOBAL} then Inr ('' ; '' @ cn_sval c)
             else if op \<in> {SEND, SEND_APPLY} then
               Inr ('' ; '' @ cn_sval c @ ''/'' @ natToString (unat (cn_argc c)) @
                    (if cn_key c = [] then [] else '' or '' @ cn_key c))
             else if op \<in> {MAKE_CLASS, NEW, NEW_SPREAD, INVOKE_INIT, SEND_SUPER, UNAPPLY_FIELDS,
                           STORE_FIELDS_IF_NEW, SEND_KW, CALL_KW} then whole
             else if op \<in> {STORE_FIELD, STORE_FIELD_IF_NEW, SET_FIELD, TEST_PROTO, CAST_FAIL} then
               Inr ('' ; '' @ cn_sval c)
             else if op = TEST_TYPE then Inr ('' ; '' @ typeCodeNameOf (operand mod 256))
             else if op = MAKE_FN then Inr ('' ; -> block '' @ natToString operand)
             else if op \<in> {JUMP, JUMP_IF_FALSE, JUMP_IF_TRUE} then
               Inr ('' ; -> '' @ natToString (instrPc + 1 + operand))
             else if op = JUMP_BACK then
               Inr ('' ; -> '' @ natToString (nat ((int instrPc + 1 - int operand) mod 2 ^ 64)))
             else Inr [])"

subsection \<open>The listing\<close>

definition instrLine ::
  "(u64 \<Rightarrow> byte_string) \<Rightarrow> byte_string \<Rightarrow> ModuleBody \<Rightarrow> nat \<Rightarrow> nat \<Rightarrow> nat \<Rightarrow> ModuleError + byte_string" where
  "instrLine fd pad m pc opByte operand =
     (case commentFor fd m opByte operand pc of
        Inl e \<Rightarrow> Inl e
      | Inr comment \<Rightarrow>
          Inr (pad @ ''  '' @ fourDigits pc @ ''  L'' @ intToString (bm_lines m ! pc) @ ''  '' @
               opNameOfByte opByte @ '' '' @ natToString operand @ comment @ [CHR 0x0A]))"

text \<open>The \<^verbatim>\<open>while (pc < m.code_.size())\<close> loop.\<close>

function codeLines ::
  "(u64 \<Rightarrow> byte_string) \<Rightarrow> byte_string \<Rightarrow> ModuleBody \<Rightarrow> nat \<Rightarrow> byte_string \<Rightarrow> ModuleError + byte_string" where
  "codeLines fd pad m pc out =
     (if pc < length (bm_code m) then
        let word = bm_code m ! pc;
            opByte = unat (word AND 0xFF);
            operand = unat (drop_bit kOperandShift word)
        in if opByte = opNumber EXTEND then
             (if pc + 1 \<ge> length (bm_code m) then Inr out
              else
                let nxt = bm_code m ! (pc + 1);
                    full = push_bit 24 operand OR unat (drop_bit kOperandShift nxt)
                in case instrLine fd pad m (pc + 1) (unat (nxt AND 0xFF)) full of
                     Inl e \<Rightarrow> Inl e
                   | Inr l \<Rightarrow> codeLines fd pad m (pc + 2) (out @ l))
           else
             (case instrLine fd pad m pc opByte operand of
                Inl e \<Rightarrow> Inl e
              | Inr l \<Rightarrow> codeLines fd pad m (pc + 1) (out @ l))
      else Inr out)"
  by pat_completeness auto
termination
  by (relation "measure (\<lambda>(fd, pad, m, pc, out). length (bm_code m) - pc)") auto

declare codeLines.simps [simp del]

definition headerLine :: "byte_string \<Rightarrow> ModuleBody \<Rightarrow> byte_string" where
  "headerLine pad m =
     pad @ ''function '' @ bm_name m @ '' arity='' @ intToString (bm_arity m) @
     (if bm_variadic m then '' variadic'' else []) @
     (if bm_method m then '' method'' else []) @
     '' locals='' @ intToString (bm_localCount m) @ '' stack='' @ intToString (bm_maxStack m) @
     '' captures='' @ natToString (length (bm_captures m)) @ [CHR 0x0A]"

text \<open>The last \<^verbatim>\<open>;\<close> of the captures line becomes its newline.\<close>

definition capturesLine :: "byte_string \<Rightarrow> ModuleBody \<Rightarrow> byte_string" where
  "capturesLine pad m =
     (if bm_captures m = [] then []
      else butlast (pad @ ''  captures:'' @
             concat (map (\<lambda>c. '' slot '' @ intToString (cp_localSlot c) @ '' <- parent slot '' @
                              intToString (cp_parentSlot c) @ '';'') (bm_captures m))) @ [CHR 0x0A])"

definition handlerLine :: "byte_string \<Rightarrow> Handler \<Rightarrow> byte_string" where
  "handlerLine pad h =
     pad @ ''  handler ['' @ natToString (hd_startPc h) @ '', '' @ natToString (hd_endPc h) @ '') -> '' @
     natToString (hd_handlerPc h) @ ''  depth='' @ intToString (hd_stackDepth h) @ '' slot='' @
     intToString (hd_slot h) @ '' '' @ (if hd_kind h = HK_Catch then ''catch'' else ''finally'') @
     [CHR 0x0A]"

definition bodyListing :: "(u64 \<Rightarrow> byte_string) \<Rightarrow> nat \<Rightarrow> ModuleBody \<Rightarrow> ModuleError + byte_string" where
  "bodyListing fd indent m =
     (let pad = replicate (indent * 2) (CHR '' '') in
      case codeLines fd pad m 0 (headerLine pad m @ capturesLine pad m) of
        Inl e \<Rightarrow> Inl e
      | Inr out \<Rightarrow> Inr (out @ concat (map (handlerLine pad) (bm_handlers m))))"

text \<open>The recursive lambda \<^verbatim>\<open>go\<close>: a body, then each block after an empty line, one level deeper.\<close>

fun listing :: "(u64 \<Rightarrow> byte_string) \<Rightarrow> nat \<Rightarrow> BytecodeModule \<Rightarrow> ModuleError + byte_string"
  and blockListings :: "(u64 \<Rightarrow> byte_string) \<Rightarrow> nat \<Rightarrow> BytecodeModule list \<Rightarrow> byte_string \<Rightarrow> ModuleError + byte_string" where
  "listing fd indent (Module b blocks) =
     (case bodyListing fd indent b of
        Inl e \<Rightarrow> Inl e
      | Inr out \<Rightarrow> blockListings fd (indent + 1) blocks out)"
| "blockListings fd indent [] out = Inr out"
| "blockListings fd indent (m # ms) out =
     (case listing fd indent m of
        Inl e \<Rightarrow> Inl e
      | Inr t \<Rightarrow> blockListings fd indent ms (out @ [CHR 0x0A] @ t))"

definition disassemble :: "(u64 \<Rightarrow> byte_string) \<Rightarrow> BytecodeModule \<Rightarrow> ModuleError + byte_string" where
  "disassemble fd m = listing fd 0 m"

end
