(* ===== verification/Tokens.thy ===== *)
theory Tokens
  imports Prelude
begin

text \<open>
  The token vocabulary of \<^verbatim>\<open>src/src/frontend/Token.h\<close>: source positions, the token kinds, the
  parts of an interpolated string and the token record itself.  Two fields are represented
  rather than computed: \<^verbatim>\<open>floatValue\<close> holds the spelling handed to \<^verbatim>\<open>strtod\<close> (IEEE rounding is
  not modelled), and the exact \<^verbatim>\<open>long long\<close> range test of \<^verbatim>\<open>intValue\<close>/\<^verbatim>\<open>fitsLong\<close> is kept as an
  integer with its bound written out.
\<close>

record SourcePos =
  sp_line :: nat
  sp_column :: nat

datatype (plugins only: code size) TokenKind =
    IntLit | FloatLit | CharLit | StringLit | InterpolatedString | Identifier
  | KwAbstract | KwCase | KwCatch | KwClass | KwDef | KwDo
  | KwElse | KwEnum | KwExport | KwExtends | KwFalse | KwFinal
  | KwFinally | KwFor | KwGiven | KwIf | KwImplicit | KwImport
  | KwLazy | KwMatch | KwNew | KwNull | KwObject | KwOverride
  | KwPackage | KwPrivate | KwProtected | KwReturn | KwSealed | KwSuper
  | KwThen | KwThis | KwThrow | KwTrait | KwTrue | KwTry
  | KwType | KwVal | KwVar | KwWhile | KwWith | KwYield
  | LParen | RParen | LBracket | RBracket | LBrace | RBrace
  | Comma | Semicolon | Dot | Colon | Equals | Arrow
  | CtxArrow | TypeLambdaArrow | LeftArrow | Subtype | Supertype | Hash
  | At | Underscore | ColonEol | Newline | Indent | Outdent
  | EndMarker | EndOfFile | Error

record InterpolationPart =
  ip_isHole :: bool
  ip_text :: byte_string
  ip_pos :: SourcePos

record Token =
  tk_kind :: TokenKind
  tk_text :: byte_string
  tk_pos :: SourcePos
  tk_end :: SourcePos
  tk_lineIndent :: nat
  tk_firstOnLine :: bool
  tk_pastBlankLine :: bool
  tk_backquoted :: bool
  tk_isOperator :: bool
  tk_errorAtEof :: bool
  tk_intValue :: int
  tk_fitsLong :: bool
  tk_digits :: byte_string
  tk_base :: nat
  tk_floatValue :: byte_string
  tk_charValue :: nat
  tk_stringValue :: byte_string
  tk_parts :: "InterpolationPart list"

text \<open>The default member initialisers of the two structs.\<close>

definition startPos :: SourcePos where
  "startPos = \<lparr>sp_line = 1, sp_column = 1\<rparr>"

definition defaultToken :: Token where
  "defaultToken = \<lparr>tk_kind = Error, tk_text = [], tk_pos = startPos, tk_end = startPos,
     tk_lineIndent = 0, tk_firstOnLine = False, tk_pastBlankLine = False, tk_backquoted = False,
     tk_isOperator = False, tk_errorAtEof = False, tk_intValue = 0, tk_fitsLong = True,
     tk_digits = [], tk_base = 10, tk_floatValue = [], tk_charValue = 0, tk_stringValue = [],
     tk_parts = []\<rparr>"

primrec tokenKindName :: "TokenKind \<Rightarrow> byte_string" where
  "tokenKindName IntLit = ''IntLit''"
| "tokenKindName FloatLit = ''FloatLit''"
| "tokenKindName CharLit = ''CharLit''"
| "tokenKindName StringLit = ''StringLit''"
| "tokenKindName InterpolatedString = ''InterpolatedString''"
| "tokenKindName Identifier = ''Identifier''"
| "tokenKindName KwAbstract = ''KwAbstract''"
| "tokenKindName KwCase = ''KwCase''"
| "tokenKindName KwCatch = ''KwCatch''"
| "tokenKindName KwClass = ''KwClass''"
| "tokenKindName KwDef = ''KwDef''"
| "tokenKindName KwDo = ''KwDo''"
| "tokenKindName KwElse = ''KwElse''"
| "tokenKindName KwEnum = ''KwEnum''"
| "tokenKindName KwExport = ''KwExport''"
| "tokenKindName KwExtends = ''KwExtends''"
| "tokenKindName KwFalse = ''KwFalse''"
| "tokenKindName KwFinal = ''KwFinal''"
| "tokenKindName KwFinally = ''KwFinally''"
| "tokenKindName KwFor = ''KwFor''"
| "tokenKindName KwGiven = ''KwGiven''"
| "tokenKindName KwIf = ''KwIf''"
| "tokenKindName KwImplicit = ''KwImplicit''"
| "tokenKindName KwImport = ''KwImport''"
| "tokenKindName KwLazy = ''KwLazy''"
| "tokenKindName KwMatch = ''KwMatch''"
| "tokenKindName KwNew = ''KwNew''"
| "tokenKindName KwNull = ''KwNull''"
| "tokenKindName KwObject = ''KwObject''"
| "tokenKindName KwOverride = ''KwOverride''"
| "tokenKindName KwPackage = ''KwPackage''"
| "tokenKindName KwPrivate = ''KwPrivate''"
| "tokenKindName KwProtected = ''KwProtected''"
| "tokenKindName KwReturn = ''KwReturn''"
| "tokenKindName KwSealed = ''KwSealed''"
| "tokenKindName KwSuper = ''KwSuper''"
| "tokenKindName KwThen = ''KwThen''"
| "tokenKindName KwThis = ''KwThis''"
| "tokenKindName KwThrow = ''KwThrow''"
| "tokenKindName KwTrait = ''KwTrait''"
| "tokenKindName KwTrue = ''KwTrue''"
| "tokenKindName KwTry = ''KwTry''"
| "tokenKindName KwType = ''KwType''"
| "tokenKindName KwVal = ''KwVal''"
| "tokenKindName KwVar = ''KwVar''"
| "tokenKindName KwWhile = ''KwWhile''"
| "tokenKindName KwWith = ''KwWith''"
| "tokenKindName KwYield = ''KwYield''"
| "tokenKindName LParen = ''LParen''"
| "tokenKindName RParen = ''RParen''"
| "tokenKindName LBracket = ''LBracket''"
| "tokenKindName RBracket = ''RBracket''"
| "tokenKindName LBrace = ''LBrace''"
| "tokenKindName RBrace = ''RBrace''"
| "tokenKindName Comma = ''Comma''"
| "tokenKindName Semicolon = ''Semicolon''"
| "tokenKindName Dot = ''Dot''"
| "tokenKindName Colon = ''Colon''"
| "tokenKindName Equals = ''Equals''"
| "tokenKindName Arrow = ''Arrow''"
| "tokenKindName CtxArrow = ''CtxArrow''"
| "tokenKindName TypeLambdaArrow = ''TypeLambdaArrow''"
| "tokenKindName LeftArrow = ''LeftArrow''"
| "tokenKindName Subtype = ''Subtype''"
| "tokenKindName Supertype = ''Supertype''"
| "tokenKindName Hash = ''Hash''"
| "tokenKindName At = ''At''"
| "tokenKindName Underscore = ''Underscore''"
| "tokenKindName ColonEol = ''ColonEol''"
| "tokenKindName Newline = ''Newline''"
| "tokenKindName Indent = ''Indent''"
| "tokenKindName Outdent = ''Outdent''"
| "tokenKindName EndMarker = ''EndMarker''"
| "tokenKindName EndOfFile = ''EOF''"
| "tokenKindName Error = ''Error''"

text \<open>The kinds only the layout pass may produce, and the two that end a raw stream.\<close>

definition layoutKinds :: "TokenKind set" where
  "layoutKinds = {ColonEol, Newline, Indent, Outdent, EndMarker}"

definition terminalKind :: "TokenKind \<Rightarrow> bool" where
  "terminalKind k \<longleftrightarrow> k = EndOfFile \<or> k = Error"

end
