(* ===== verification/Scanner.thy ===== *)
theory Scanner
  imports Utf8 UnicodeLetters Tokens
begin

text \<open>
  The cursor of the lexer (\<^verbatim>\<open>src/src/frontend/Lexer.h\<close>, the first half of
  \<^verbatim>\<open>src/src/frontend/Lexer.cpp\<close>): its state, the primitives \<^verbatim>\<open>eof\<close>, \<^verbatim>\<open>cur\<close>, \<^verbatim>\<open>peekChar\<close> and
  \<^verbatim>\<open>advance\<close>, the line-indentation table of the constructor, token construction, and the loops
  every scanning routine is made of.  The relation \<open>moves\<close> says that one state is reached from
  another by \<open>advance\<close> alone; the locale \<open>scanning\<close> states the contract of a scanning routine in
  those terms, and everything a later proof needs of a routine (source untouched, position
  monotone and in range, line and column right) follows from it.
\<close>

abbreviation NUL :: char where "NUL \<equiv> CHR 0x00"
abbreviation NL :: char where "NL \<equiv> CHR 0x0A"
abbreviation TAB :: char where "TAB \<equiv> CHR 0x09"
abbreviation CR :: char where "CR \<equiv> CHR 0x0D"
abbreviation FF :: char where "FF \<equiv> CHR 0x0C"
abbreviation BS :: char where "BS \<equiv> CHR 0x08"
abbreviation DQUOTE :: char where "DQUOTE \<equiv> CHR 0x22"
abbreviation SQUOTE :: char where "SQUOTE \<equiv> CHR 0x27"
abbreviation BACKSLASH :: char where "BACKSLASH \<equiv> CHR 0x5C"
abbreviation BACKQUOTE :: char where "BACKQUOTE \<equiv> CHR 0x60"

subsection \<open>State and cursor\<close>

record Lexer =
  lx_source :: byte_string
  lx_pos :: nat
  lx_line :: nat
  lx_column :: nat
  lx_lastTokenLine :: nat
  lx_lastTokenEnd :: nat
  lx_pastBlankLine :: bool
  lx_done :: bool
  lx_lineIndent :: "nat list"
  lx_lineHasTab :: "bool list"
  lx_lineHasSpace :: "bool list"
  lx_sawTabIndent :: bool
  lx_sawSpaceIndent :: bool

definition eof :: "Lexer \<Rightarrow> bool" where
  "eof s \<longleftrightarrow> lx_pos s \<ge> length (lx_source s)"

definition cur :: "Lexer \<Rightarrow> char" where
  "cur s = (if eof s then NUL else lx_source s ! lx_pos s)"

definition peekChar :: "Lexer \<Rightarrow> nat \<Rightarrow> char" where
  "peekChar s k =
     (if lx_pos s + k < length (lx_source s) then lx_source s ! (lx_pos s + k) else NUL)"

definition isContinuation :: "char \<Rightarrow> bool" where
  "isContinuation c \<longleftrightarrow> byte_of c AND 0xC0 = 0x80"

definition advance :: "Lexer \<Rightarrow> Lexer" where
  "advance s =
     (if eof s then s
      else let c = lx_source s ! lx_pos s in
        if c = NL then s\<lparr>lx_line := lx_line s + 1, lx_column := 1, lx_pos := lx_pos s + 1\<rparr>
        else if \<not> isContinuation c then s\<lparr>lx_column := lx_column s + 1, lx_pos := lx_pos s + 1\<rparr>
        else s\<lparr>lx_pos := lx_pos s + 1\<rparr>)"

definition curPos :: "Lexer \<Rightarrow> SourcePos" where
  "curPos s = \<lparr>sp_line = lx_line s, sp_column = lx_column s\<rparr>"

definition isBlank :: "char \<Rightarrow> bool" where
  "isBlank c \<longleftrightarrow> c = CHR '' '' \<or> c = TAB"

text \<open>Leading-blank width of every line, and whether tabs or spaces were used.\<close>

function computeLineIndents :: "byte_string \<Rightarrow> (nat \<times> bool \<times> bool) list" where
  "computeLineIndents rest =
     (let blanks = takeWhile isBlank rest;
          after = dropWhile (\<lambda>c. c \<noteq> NL) (dropWhile isBlank rest)
      in (length blanks, TAB \<in> set blanks, CHR '' '' \<in> set blanks) #
         (if after = [] then [] else computeLineIndents (tl after)))"
  by pat_completeness auto
termination
proof (relation "measure length")
  fix rest x xa
  assume "xa = dropWhile (\<lambda>c. c \<noteq> NL) (dropWhile isBlank rest)" "xa \<noteq> []"
  then have "length xa \<le> length rest" "0 < length xa"
    using length_dropWhile_le[of "\<lambda>c. c \<noteq> NL" "dropWhile isBlank rest"]
      length_dropWhile_le[of isBlank rest] by (simp_all del: dropWhile_eq_Nil_conv)
  then show "(tl xa, rest) \<in> measure length" by (simp only: in_measure length_tl)
qed simp

declare computeLineIndents.simps [simp del]

text \<open>A UTF-8 byte-order mark at the start of the source is not part of it.\<close>

definition stripBom :: "byte_string \<Rightarrow> byte_string" where
  "stripBom source =
     (if take 3 source = [CHR 0xEF, CHR 0xBB, CHR 0xBF] then drop 3 source else source)"

definition newLexer :: "byte_string \<Rightarrow> Lexer" where
  "newLexer source =
     (let src = stripBom source;
          rows = computeLineIndents src
      in \<lparr>lx_source = src,
          lx_pos = (if take 2 src = ''#!'' then length (takeWhile (\<lambda>c. c \<noteq> NL) src) else 0),
          lx_line = 1, lx_column = 1, lx_lastTokenLine = 0, lx_lastTokenEnd = 0,
          lx_pastBlankLine = False, lx_done = False,
          lx_lineIndent = map fst rows,
          lx_lineHasTab = map (fst \<circ> snd) rows,
          lx_lineHasSpace = map (snd \<circ> snd) rows,
          lx_sawTabIndent = False, lx_sawSpaceIndent = False\<rparr>)"

subsection \<open>Token construction\<close>

definition makeToken :: "TokenKind \<Rightarrow> SourcePos \<Rightarrow> byte_string \<Rightarrow> Lexer \<Rightarrow> Token" where
  "makeToken k start text s =
     defaultToken\<lparr>tk_kind := k, tk_text := text, tk_pos := start, tk_end := curPos s,
       tk_lineIndent := lx_lineIndent s ! (sp_line start - 1),
       tk_firstOnLine := (sp_line start \<noteq> lx_lastTokenLine s),
       tk_pastBlankLine := lx_pastBlankLine s\<rparr>"

definition lexError :: "byte_string \<Rightarrow> SourcePos \<Rightarrow> bool \<Rightarrow> Lexer \<Rightarrow> Token" where
  "lexError msg at atEof s =
     defaultToken\<lparr>tk_kind := Error, tk_text := msg, tk_pos := at, tk_end := curPos s,
       tk_errorAtEof := atEof,
       tk_lineIndent := (if 1 \<le> sp_line at \<and> sp_line at \<le> length (lx_lineIndent s)
                         then lx_lineIndent s ! (sp_line at - 1) else 0),
       tk_firstOnLine := (sp_line at \<noteq> lx_lastTokenLine s)\<rparr>"

text \<open>
  The bytes from one past the previous token up to \<open>to\<close>: a newline reached with only whitespace
  seen since the newline before it is a blank line.
\<close>

fun blankLineScan :: "bool \<Rightarrow> byte_string \<Rightarrow> bool" where
  "blankLineScan blank [] = False"
| "blankLineScan blank (c # cs) =
     (if c = NL then (if blank then True else blankLineScan True cs)
      else if c \<noteq> CR \<and> c \<noteq> FF then blankLineScan (blank \<and> byte_of c \<le> 32) cs
      else blankLineScan blank cs)"

definition pastBlankLine :: "Lexer \<Rightarrow> nat \<Rightarrow> bool" where
  "pastBlankLine s to =
     blankLineScan False (take (to - lx_lastTokenEnd s) (drop (lx_lastTokenEnd s) (lx_source s)))"

subsection \<open>Moving the cursor\<close>

definition remaining :: "Lexer \<Rightarrow> nat" where
  "remaining s = length (lx_source s) - lx_pos s"

definition moves :: "Lexer \<Rightarrow> Lexer \<Rightarrow> bool" where
  "moves s s' \<longleftrightarrow> (\<exists>n. s' = (advance ^^ n) s)"

lemma moves_refl [simp, intro]: "moves s s"
  unfolding moves_def by (rule exI[of _ 0]) simp

lemma moves_trans [trans]: "moves s s' \<Longrightarrow> moves s' s'' \<Longrightarrow> moves s s''"
  unfolding moves_def by (metis comp_apply funpow_add)

lemma moves_advance [simp, intro]: "moves s (advance s)"
  unfolding moves_def by (rule exI[of _ 1]) simp

lemma moves_advance_left: "moves (advance s) s' \<Longrightarrow> moves s s'"
  using moves_advance moves_trans by blast

lemma moves_funpow [simp, intro]: "moves s ((advance ^^ n) s)"
  unfolding moves_def by blast

lemma advance_fields [simp]:
  "lx_source (advance s) = lx_source s" "lx_lastTokenLine (advance s) = lx_lastTokenLine s"
  "lx_lastTokenEnd (advance s) = lx_lastTokenEnd s" "lx_pastBlankLine (advance s) = lx_pastBlankLine s"
  "lx_done (advance s) = lx_done s" "lx_lineIndent (advance s) = lx_lineIndent s"
  "lx_lineHasTab (advance s) = lx_lineHasTab s" "lx_lineHasSpace (advance s) = lx_lineHasSpace s"
  "lx_sawTabIndent (advance s) = lx_sawTabIndent s" "lx_sawSpaceIndent (advance s) = lx_sawSpaceIndent s"
  by (simp_all add: advance_def Let_def)

lemma pos_advance: "lx_pos (advance s) = (if eof s then lx_pos s else Suc (lx_pos s))"
  by (simp add: advance_def Let_def)

lemma moves_induct [consumes 1, case_names refl step]:
  assumes "moves s s'" "P s" "\<And>t. moves s t \<Longrightarrow> P t \<Longrightarrow> P (advance t)"
  shows "P s'"
proof -
  from assms(1) obtain n where "s' = (advance ^^ n) s" by (auto simp: moves_def)
  moreover have "P ((advance ^^ n) s)" by (induction n) (auto intro: assms)
  ultimately show ?thesis by simp
qed

lemma moves_fields:
  assumes "moves s s'"
  shows "lx_source s' = lx_source s" "lx_lastTokenLine s' = lx_lastTokenLine s"
    "lx_lastTokenEnd s' = lx_lastTokenEnd s" "lx_pastBlankLine s' = lx_pastBlankLine s"
    "lx_done s' = lx_done s" "lx_lineIndent s' = lx_lineIndent s"
    "lx_lineHasTab s' = lx_lineHasTab s" "lx_lineHasSpace s' = lx_lineHasSpace s"
    "lx_sawTabIndent s' = lx_sawTabIndent s" "lx_sawSpaceIndent s' = lx_sawSpaceIndent s"
  using assms by (induction rule: moves_induct) simp_all

lemma moves_pos: "moves s s' \<Longrightarrow> lx_pos s \<le> lx_pos s'"
  by (induction rule: moves_induct) (auto simp: pos_advance)

lemma moves_pos_le:
  "moves s s' \<Longrightarrow> lx_pos s \<le> length (lx_source s) \<Longrightarrow> lx_pos s' \<le> length (lx_source s)"
proof (induction rule: moves_induct)
  case (step t)
  then show ?case by (auto simp: pos_advance eof_def moves_fields(1))
qed

lemma remaining_advance_less [simp]: "\<not> eof s \<Longrightarrow> remaining (advance s) < remaining s"
  by (auto simp: remaining_def pos_advance eof_def)

lemma remaining_advance_le [simp]: "remaining (advance s) \<le> remaining s"
  by (auto simp: remaining_def pos_advance)

lemma moves_remaining: "moves s s' \<Longrightarrow> remaining s' \<le> remaining s"
  by (auto simp: remaining_def moves_fields moves_pos intro: diff_le_mono2)

lemma eof_remaining: "eof s \<longleftrightarrow> remaining s = 0"
  by (auto simp: eof_def remaining_def)

lemma pos_funpow_advance:
  "lx_pos s + n \<le> length (lx_source s) \<Longrightarrow> lx_pos ((advance ^^ n) s) = lx_pos s + n"
proof (induction n)
  case (Suc n)
  then show ?case
    using moves_fields(1)[OF moves_funpow, of n s] by (simp add: pos_advance eof_def)
qed simp

lemma cur_not_NUL_not_eof: "cur s \<noteq> NUL \<Longrightarrow> \<not> eof s"
  by (auto simp: cur_def)

subsection \<open>The loops of the scanning routines\<close>

text \<open>\<^verbatim>\<open>while (!eof() && P(cur())) advance();\<close>\<close>

function advanceWhile :: "(char \<Rightarrow> bool) \<Rightarrow> Lexer \<Rightarrow> Lexer" where
  "advanceWhile P s = (if \<not> eof s \<and> P (cur s) then advanceWhile P (advance s) else s)"
  by pat_completeness auto
termination
  by (relation "measure (\<lambda>(P, s). remaining s)") auto

declare advanceWhile.simps [simp del]

text \<open>\<^verbatim>\<open>while (!eof() && P(cur())) { text += cur(); advance(); }\<close>\<close>

function collectWhile :: "(char \<Rightarrow> bool) \<Rightarrow> byte_string \<Rightarrow> Lexer \<Rightarrow> byte_string \<times> Lexer" where
  "collectWhile P text s =
     (if \<not> eof s \<and> P (cur s) then collectWhile P (text @ [cur s]) (advance s) else (text, s))"
  by pat_completeness auto
termination
  by (relation "measure (\<lambda>(P, text, s). remaining s)") auto

declare collectWhile.simps [simp del]

text \<open>\<^verbatim>\<open>int run = 0; while (!eof() && cur() == '"') { ++run; advance(); }\<close>\<close>

function quoteRun :: "nat \<Rightarrow> Lexer \<Rightarrow> nat \<times> Lexer" where
  "quoteRun run s = (if \<not> eof s \<and> cur s = DQUOTE then quoteRun (run + 1) (advance s) else (run, s))"
  by pat_completeness auto
termination
  by (relation "measure (\<lambda>(run, s). remaining s)") auto

declare quoteRun.simps [simp del]

subsection \<open>The contract of a scanning routine\<close>

locale scanning =
  fixes scan :: "Lexer \<Rightarrow> 'r \<times> Lexer"
  assumes scan_moves: "moves s (snd (scan s))"
begin

lemma scan_movesD [dest]: "scan s = (r, s') \<Longrightarrow> moves s s'"
  using scan_moves[of s] by simp

lemma scan_source: "scan s = (r, s') \<Longrightarrow> lx_source s' = lx_source s"
  by (auto dest: moves_fields)

lemma scan_pos: "scan s = (r, s') \<Longrightarrow> lx_pos s \<le> lx_pos s'"
  by (auto dest: moves_pos)

lemma scan_remaining: "scan s = (r, s') \<Longrightarrow> remaining s' \<le> remaining s"
  by (auto dest: moves_remaining)

lemma scan_after_advance: "\<not> eof s \<Longrightarrow> scan (advance s) = (r, s') \<Longrightarrow> remaining s' < remaining s"
  using scan_remaining[of "advance s" r s'] remaining_advance_less[of s] by linarith

end

lemma advanceWhile_moves [simp, intro]: "moves s (advanceWhile P s)"
proof (induction P s rule: advanceWhile.induct)
  case (1 P s)
  then show ?case by (subst advanceWhile.simps) (auto intro: moves_advance_left)
qed

lemma collectWhile_moves: "moves s (snd (collectWhile P acc s))"
proof (induction P acc s rule: collectWhile.induct)
  case (1 P acc s)
  then show ?case by (subst collectWhile.simps) (auto intro: moves_advance_left)
qed

lemma quoteRun_moves: "moves s (snd (quoteRun n s))"
proof (induction n s rule: quoteRun.induct)
  case (1 n s)
  then show ?case by (subst quoteRun.simps) (auto intro: moves_advance_left)
qed

interpretation collect: scanning "collectWhile P acc" for P acc
  by unfold_locales (rule collectWhile_moves)

interpretation quotes: scanning "quoteRun n" for n
  by unfold_locales (rule quoteRun_moves)

lemma quoteRun_progress:
  assumes "(r, s') = quoteRun n s" "\<not> eof s" "cur s = DQUOTE"
  shows "remaining s' < remaining s"
  using assms quotes.scan_after_advance[of s "n + 1" r s'] by (simp add: quoteRun.simps[of n s])

lemma collectWhile_progress:
  assumes "\<not> eof s" "P (cur s)" "collectWhile P acc s = (r, s')"
  shows "remaining s' < remaining s"
  using assms collect.scan_after_advance[of s P "acc @ [cur s]" r s']
  by (simp add: collectWhile.simps[of P acc s])

end
