(* ===== verification/Tokenizer.thy ===== *)
theory Tokenizer
  imports Scanner
begin

text \<open>
  The raw lexer of \<^verbatim>\<open>src/src/frontend/Lexer.cpp\<close>: trivia, identifiers and keywords, operators,
  numbers, characters, strings and interpolated strings, \<^verbatim>\<open>next\<close> (here \<open>lexNext\<close>) and
  \<^verbatim>\<open>tokenizeAll\<close>.  Every routine takes the state and returns its token with the new state; a
  lexical error is an \<open>Error\<close> token, never an exception, as in the source.  Loops are recursive
  functions with the number of unread bytes as their measure, so that each of them, and the
  whole tokenizer, is total.
\<close>

subsection \<open>Tables and character classes\<close>

definition keywordTable :: "(byte_string \<times> TokenKind) list" where
  "keywordTable = [
     (''abstract'', KwAbstract), (''case'', KwCase), (''catch'', KwCatch),
     (''class'', KwClass), (''def'', KwDef), (''do'', KwDo),
     (''else'', KwElse), (''enum'', KwEnum), (''export'', KwExport),
     (''extends'', KwExtends), (''false'', KwFalse), (''final'', KwFinal),
     (''finally'', KwFinally), (''for'', KwFor), (''given'', KwGiven),
     (''if'', KwIf), (''implicit'', KwImplicit), (''import'', KwImport),
     (''lazy'', KwLazy), (''match'', KwMatch), (''new'', KwNew),
     (''null'', KwNull), (''object'', KwObject), (''override'', KwOverride),
     (''package'', KwPackage), (''private'', KwPrivate), (''protected'', KwProtected),
     (''return'', KwReturn), (''sealed'', KwSealed), (''super'', KwSuper),
     (''then'', KwThen), (''this'', KwThis), (''throw'', KwThrow),
     (''trait'', KwTrait), (''true'', KwTrue), (''try'', KwTry),
     (''type'', KwType), (''val'', KwVal), (''var'', KwVar),
     (''while'', KwWhile), (''with'', KwWith), (''yield'', KwYield)]"

definition reservedOperator :: "byte_string \<Rightarrow> TokenKind" where
  "reservedOperator opr =
     (if opr = ''='' then Equals
      else if opr = ''=>'' then Arrow
      else if opr = ''?=>'' then CtxArrow
      else if opr = ''=>>'' then TypeLambdaArrow
      else if opr = ''<-'' then LeftArrow
      else if opr = ''<:'' then Subtype
      else if opr = ''>:'' then Supertype
      else if opr = ''#'' then Hash
      else if opr = ''@'' then At
      else if opr = '':'' then Colon
      else Identifier)"

definition isIdentCodePoint :: "nat \<Rightarrow> bool" where
  "isIdentCodePoint cp =
     (if cp < 0x80 then
        (48 \<le> cp \<and> cp \<le> 57) \<or> (65 \<le> cp \<and> cp \<le> 90) \<or> (97 \<le> cp \<and> cp \<le> 122) \<or> cp = 95 \<or> cp = 36
      else isSymbolLetter cp)"

definition isOpChar :: "char \<Rightarrow> bool" where
  "isOpChar c \<longleftrightarrow> c \<in> set (''!#%&*+-/:<=>?@'' @ [BACKSLASH] @ ''^|~'')"

text \<open>0 when the byte at \<open>at\<close> does not start an identifier character, else its length in bytes.\<close>

definition identCharLength :: "Lexer \<Rightarrow> nat \<Rightarrow> nat" where
  "identCharLength s at =
     (if at \<ge> length (lx_source s) then 0
      else let c = byte_of (lx_source s ! at) in
        if c < 0x80 then (if isIdentCodePoint c then 1 else 0)
        else case decodeUtf8 (lx_source s) at of
            None \<Rightarrow> 0
          | Some (len, cp) \<Rightarrow> if isIdentCodePoint cp then len else 0)"

subsection \<open>Trivia: blanks, newlines, line comments and nested block comments\<close>

definition commentStep :: "int \<Rightarrow> Lexer \<Rightarrow> int \<times> Lexer" where
  "commentStep depth s =
     (if cur s = CHR ''/'' \<and> peekChar s 1 = CHR ''*'' then (depth + 1, advance (advance s))
      else if cur s = CHR ''*'' \<and> peekChar s 1 = CHR ''/'' then (depth - 1, advance (advance s))
      else (depth, advance s))"

lemma commentStep_moves: "moves s (snd (commentStep d s))"
  by (auto simp: commentStep_def intro: moves_advance_left)

interpretation comment_step: scanning "commentStep d" for d
  by unfold_locales (rule commentStep_moves)

lemma remaining_advance_twice [simp]: "\<not> eof s \<Longrightarrow> remaining (advance (advance s)) < remaining s"
  by (rule le_less_trans[OF remaining_advance_le remaining_advance_less])

lemma commentStep_progress:
  assumes "\<not> eof s"
  shows "remaining (snd (commentStep d s)) < remaining s"
  using assms by (simp add: commentStep_def)

lemma commentStep_at_eof: "eof s \<Longrightarrow> eof (snd (commentStep d s))"
  using moves_remaining[OF commentStep_moves[of s d]] by (simp add: eof_remaining)

text \<open>The \<^verbatim>\<open>do ... while (depth > 0 && !eof())\<close> loop of a block comment.\<close>

function commentLoop :: "int \<Rightarrow> Lexer \<Rightarrow> int \<times> Lexer" where
  "commentLoop depth s =
     (if 0 < fst (commentStep depth s) \<and> \<not> eof (snd (commentStep depth s))
      then commentLoop (fst (commentStep depth s)) (snd (commentStep depth s))
      else commentStep depth s)"
  by pat_completeness auto
termination
  by (relation "measure (\<lambda>(depth, s). remaining s)")
     (use commentStep_progress commentStep_at_eof in \<open>auto simp: case_prod_beta\<close>)

declare commentLoop.simps [simp del]

lemma commentLoop_moves: "moves s (snd (commentLoop d s))"
proof (induction d s rule: commentLoop.induct)
  case (1 d s)
  then show ?case
    by (subst commentLoop.simps) (auto intro: moves_trans[OF commentStep_moves] commentStep_moves)
qed

interpretation comment_loop: scanning "commentLoop d" for d
  by unfold_locales (rule commentLoop_moves)

lemma commentLoop_progress:
  assumes "\<not> eof s"
  shows "remaining (snd (commentLoop d s)) < remaining s"
  using commentStep_progress[OF assms, of d]
    moves_remaining[OF commentLoop_moves, of "fst (commentStep d s)" "snd (commentStep d s)"]
  by (subst commentLoop.simps) auto

definition nothingToReport :: Token where
  "nothingToReport = defaultToken\<lparr>tk_kind := EndOfFile\<rparr>"

function skipTrivia :: "Lexer \<Rightarrow> Token \<times> Lexer" where
  "skipTrivia s =
     (if eof s then (nothingToReport, s)
      else if cur s = CHR '' '' \<or> cur s = TAB \<or> cur s = CR \<or> cur s = NL then skipTrivia (advance s)
      else if cur s = CHR ''/'' \<and> peekChar s 1 = CHR ''/'' then
        skipTrivia (advanceWhile (\<lambda>c. c \<noteq> NL) s)
      else if cur s = CHR ''/'' \<and> peekChar s 1 = CHR ''*'' then
        (if 0 < fst (commentLoop 0 s)
         then (lexError ''unclosed comment'' (curPos s) True (snd (commentLoop 0 s)),
               snd (commentLoop 0 s))
         else skipTrivia (snd (commentLoop 0 s)))
      else (nothingToReport, s))"
  by pat_completeness auto
termination
proof (relation "measure remaining", goal_cases)
  case (3 s)
  then have "advanceWhile (\<lambda>c. c \<noteq> NL) s = advanceWhile (\<lambda>c. c \<noteq> NL) (advance s)"
    by (subst advanceWhile.simps) auto
  moreover have "remaining (advanceWhile (\<lambda>c. c \<noteq> NL) (advance s)) < remaining s"
    using 3 moves_remaining[OF advanceWhile_moves, of "\<lambda>c. c \<noteq> NL" "advance s"]
      remaining_advance_less[of s] by linarith
  ultimately show ?case by simp
qed (auto simp: commentLoop_progress)

declare skipTrivia.simps [simp del]

lemma skipTrivia_moves: "moves s (snd (skipTrivia s))"
proof (induction s rule: skipTrivia.induct)
  case (1 s)
  then show ?case
    by (subst skipTrivia.simps)
       (auto intro: moves_advance_left moves_trans[OF advanceWhile_moves]
         moves_trans[OF commentLoop_moves] commentLoop_moves)
qed

interpretation trivia: scanning skipTrivia
  by unfold_locales (rule skipTrivia_moves)

subsection \<open>Interpolated strings\<close>

definition unterminatedMsg :: "bool \<Rightarrow> byte_string" where
  "unterminatedMsg triple =
     (if triple then ''unclosed multi-line string literal'' else ''unclosed string literal'')"

text \<open>
  One escape sequence; the current character is the one after the backslash.  The result is the
  error message (empty when there is none), the extended buffer and the state.
\<close>

definition hexDigit :: "char \<Rightarrow> nat option" where
  "hexDigit h =
     (let b = byte_of h in
      if 48 \<le> b \<and> b \<le> 57 then Some (b - 48)
      else if 97 \<le> b \<and> b \<le> 102 then Some (b - 97 + 10)
      else if 65 \<le> b \<and> b \<le> 70 then Some (b - 65 + 10)
      else None)"

fun unicodeEscape :: "nat \<Rightarrow> nat \<Rightarrow> Lexer \<Rightarrow> nat option \<times> Lexer" where
  "unicodeEscape 0 cp s = (Some cp, s)"
| "unicodeEscape (Suc n) cp s =
     (case hexDigit (cur s) of
        None \<Rightarrow> (None, s)
      | Some digit \<Rightarrow> unicodeEscape n (push_bit 4 cp OR digit) (advance s))"

definition simpleEscape :: "char \<Rightarrow> char option" where
  "simpleEscape c =
     (if c = CHR ''b'' then Some BS
      else if c = CHR ''t'' then Some TAB
      else if c = CHR ''n'' then Some NL
      else if c = CHR ''f'' then Some FF
      else if c = CHR ''r'' then Some CR
      else if c = DQUOTE then Some DQUOTE
      else if c = SQUOTE then Some SQUOTE
      else if c = BACKSLASH then Some BACKSLASH
      else None)"

definition readEscape :: "byte_string \<Rightarrow> Lexer \<Rightarrow> (byte_string \<times> byte_string) \<times> Lexer" where
  "readEscape out s =
     (case simpleEscape (cur s) of
        Some ch \<Rightarrow> (([], out @ [ch]), advance s)
      | None \<Rightarrow>
          if cur s = CHR ''u'' then
            (case unicodeEscape 4 0 (advanceWhile (\<lambda>c. c = CHR ''u'') s) of
               (None, s1) \<Rightarrow> ((''invalid unicode escape'', out), s1)
             | (Some cp, s1) \<Rightarrow> (([], appendUtf8 out cp), s1))
          else if isdigit (cur s) then
            ((''octal escape literals are unsupported: use '' @ [BACKSLASH] @ ''u escapes'', out), s)
          else ((''invalid escape character'', out), s))"

lemma unicodeEscape_moves: "moves s (snd (unicodeEscape n cp s))"
  by (induction n cp s rule: unicodeEscape.induct)
     (auto split: option.split intro: moves_advance_left)

lemma readEscape_moves: "moves s (snd (readEscape out s))"
  using moves_trans[OF advanceWhile_moves[of s "\<lambda>c. c = CHR ''u''"] unicodeEscape_moves[where n = 4 and cp = 0]]
  by (auto simp: readEscape_def split: option.split prod.split)

interpretation escapes: scanning "readEscape out" for out
  by unfold_locales (rule readEscape_moves)

text \<open>A string literal nested in a hole is skipped verbatim: the triple-quoted form \<dots>\<close>

function nestedTripleLoop :: "SourcePos \<Rightarrow> byte_string \<Rightarrow> Lexer \<Rightarrow> (Token + byte_string) \<times> Lexer" where
  "nestedTripleLoop start e s =
     (if eof s then (Inl (lexError ''unclosed multi-line string literal'' start True s), s)
      else if cur s = DQUOTE then
        (case quoteRun 0 s of (r, s1) \<Rightarrow>
           if r \<ge> 3 then (Inr (e @ replicate r DQUOTE), s1)
           else nestedTripleLoop start (e @ replicate r DQUOTE) s1)
      else nestedTripleLoop start (e @ [cur s]) (advance s))"
  by pat_completeness auto
termination
  by (relation "measure (\<lambda>(start, e, s). remaining s)") (auto dest: quoteRun_progress)

declare nestedTripleLoop.simps [simp del]

text \<open>\<dots> and the single-line form, in which a backslash takes the next character with it.\<close>

function nestedStringLoop :: "SourcePos \<Rightarrow> byte_string \<Rightarrow> Lexer \<Rightarrow> (Token + byte_string) \<times> Lexer" where
  "nestedStringLoop start e s =
     (if eof s \<or> cur s = NL then (Inl (lexError ''unclosed string literal'' start False s), s)
      else if cur s = DQUOTE then (Inr (e @ [cur s]), advance s)
      else if cur s = BACKSLASH then
        (if \<not> eof (advance s)
         then nestedStringLoop start (e @ [cur s] @ [cur (advance s)]) (advance (advance s))
         else nestedStringLoop start (e @ [cur s]) (advance s))
      else nestedStringLoop start (e @ [cur s]) (advance s))"
  by pat_completeness auto
termination
  by (relation "measure (\<lambda>(start, e, s). remaining s)") auto

declare nestedStringLoop.simps [simp del]

lemma nestedTripleLoop_moves: "moves s (snd (nestedTripleLoop start e s))"
proof (induction start e s rule: nestedTripleLoop.induct)
  case (1 start e s)
  show ?case
  proof (cases "\<not> eof s \<and> cur s = DQUOTE")
    case True
    obtain r s1 where q: "quoteRun 0 s = (r, s1)" by fastforce
    with True 1 show ?thesis
      by (subst nestedTripleLoop.simps) (auto intro: moves_trans[OF quotes.scan_movesD[OF q]])
  next
    case False
    with 1 show ?thesis by (subst nestedTripleLoop.simps) (auto intro: moves_advance_left)
  qed
qed

lemma nestedStringLoop_moves: "moves s (snd (nestedStringLoop start e s))"
proof (induction start e s rule: nestedStringLoop.induct)
  case (1 start e s)
  then show ?case by (subst nestedStringLoop.simps) (auto intro: moves_advance_left)
qed

interpretation nested_triple: scanning "nestedTripleLoop start e" for start e
  by unfold_locales (rule nestedTripleLoop_moves)

interpretation nested_string: scanning "nestedStringLoop start e" for start e
  by unfold_locales (rule nestedStringLoop_moves)

text \<open>The skipping of one nested literal, from its opening quote.\<close>

definition nestedLiteral :: "SourcePos \<Rightarrow> byte_string \<Rightarrow> Lexer \<Rightarrow> (Token + byte_string) \<times> Lexer" where
  "nestedLiteral start e s =
     (if peekChar s 1 = DQUOTE \<and> peekChar s 2 = DQUOTE
      then nestedTripleLoop start
             (e @ [cur s] @ [cur (advance s)] @ [cur (advance (advance s))])
             (advance (advance (advance s)))
      else nestedStringLoop start (e @ [cur s]) (advance s))"

lemma nestedLiteral_moves: "moves (advance s) (snd (nestedLiteral start e s))"
  by (auto simp: nestedLiteral_def nestedStringLoop_moves
      intro: moves_trans[OF moves_advance moves_trans[OF moves_advance nestedTripleLoop_moves]])

lemma nestedLiteral_progress:
  assumes "(r, s') = nestedLiteral start e s" "\<not> eof s"
  shows "remaining s' < remaining s"
  using moves_remaining[OF nestedLiteral_moves[of s start e]] remaining_advance_less[OF assms(2)]
  by (simp add: assms(1)[symmetric])

text \<open>The source text of a \<^verbatim>\<open>${...}\<close> hole, up to the matching brace.\<close>

function holeLoop ::
  "bool \<Rightarrow> SourcePos \<Rightarrow> int \<Rightarrow> byte_string \<Rightarrow> Lexer \<Rightarrow> (Token + byte_string) \<times> Lexer" where
  "holeLoop triple start depth e s =
     (if eof s then (Inl (lexError (unterminatedMsg triple) start triple s), s)
      else if cur s = CHR ''{'' then holeLoop triple start (depth + 1) (e @ [cur s]) (advance s)
      else if cur s = CHR ''}'' then
        (if depth - 1 = 0 then (Inr e, advance s)
         else holeLoop triple start (depth - 1) (e @ [cur s]) (advance s))
      else if cur s = DQUOTE then
        (case nestedLiteral start e s of
           (Inl t, s1) \<Rightarrow> (Inl t, s1)
         | (Inr e1, s1) \<Rightarrow> holeLoop triple start depth e1 s1)
      else holeLoop triple start depth (e @ [cur s]) (advance s))"
  by pat_completeness auto
termination
  by (relation "measure (\<lambda>(triple, start, depth, e, s). remaining s)") (auto dest: nestedLiteral_progress)

declare holeLoop.simps [simp del]

lemma holeLoop_moves: "moves s (snd (holeLoop triple start depth e s))"
proof (induction triple start depth e s rule: holeLoop.induct)
  case (1 triple start depth e s)
  show ?case
  proof (cases "\<not> eof s \<and> cur s = DQUOTE")
    case True
    obtain r s1 where n: "nestedLiteral start e s = (r, s1)" by fastforce
    have "moves s s1" using nestedLiteral_moves[of s start e] n by (auto intro: moves_advance_left)
    with True n 1(3)[OF _ _ _ _ n[symmetric]] show ?thesis
      by (subst holeLoop.simps) (auto split: sum.split intro: moves_trans)
  next
    case False
    with 1(1,2,4) show ?thesis by (subst holeLoop.simps) (auto intro: moves_advance_left)
  qed
qed

interpretation holes: scanning "holeLoop triple start depth e" for triple start depth e
  by unfold_locales (rule holeLoop_moves)

text \<open>\<^verbatim>\<open>$name\<close> scans an identifier that stops at the next \<^verbatim>\<open>$\<close>.\<close>

definition holeIdentCharLength :: "Lexer \<Rightarrow> nat \<Rightarrow> nat" where
  "holeIdentCharLength s at =
     (if at < length (lx_source s) \<and> lx_source s ! at = CHR ''$'' then 0 else identCharLength s at)"

lemma identCharLength_bound: "identCharLength s at \<le> length (lx_source s) - at"
proof (cases "decodeUtf8 (lx_source s) at")
  case (Some r)
  then show ?thesis using decode_sound_aux[of "lx_source s" at]
    by (cases r) (auto simp: identCharLength_def Let_def)
qed (auto simp: identCharLength_def Let_def)

lemma holeIdentCharLength_bound: "holeIdentCharLength s at \<le> length (lx_source s) - at"
  using identCharLength_bound by (simp add: holeIdentCharLength_def)

lemma remaining_funpow: "n \<le> remaining s \<Longrightarrow> remaining ((advance ^^ n) s) = remaining s - n"
  using pos_funpow_advance[of s n] moves_fields(1)[OF moves_funpow, of n s]
  by (cases "n = 0") (auto simp: remaining_def)

lemma ident_step_progress:
  assumes "0 < identCharLength s (lx_pos s)"
  shows "remaining ((advance ^^ identCharLength s (lx_pos s)) s) < remaining s"
  using assms identCharLength_bound[of s "lx_pos s"] remaining_funpow[of "identCharLength s (lx_pos s)" s]
  by (simp add: remaining_def)

lemma hole_step_progress:
  assumes "0 < holeIdentCharLength s (lx_pos s)"
  shows "remaining ((advance ^^ holeIdentCharLength s (lx_pos s)) s) < remaining s"
  using assms ident_step_progress[of s] by (auto simp: holeIdentCharLength_def split: if_splits)

function holeNameLoop :: "byte_string \<Rightarrow> Lexer \<Rightarrow> byte_string \<times> Lexer" where
  "holeNameLoop name s =
     (if holeIdentCharLength s (lx_pos s) = 0 then (name, s)
      else holeNameLoop (name @ take (holeIdentCharLength s (lx_pos s)) (drop (lx_pos s) (lx_source s)))
             ((advance ^^ holeIdentCharLength s (lx_pos s)) s))"
  by pat_completeness auto
termination
  by (relation "measure (\<lambda>(name, s). remaining s)") (auto simp: hole_step_progress)

declare holeNameLoop.simps [simp del]

lemma holeNameLoop_moves: "moves s (snd (holeNameLoop name s))"
proof (induction name s rule: holeNameLoop.induct)
  case (1 name s)
  then show ?case by (subst holeNameLoop.simps) (auto intro: moves_trans[OF moves_funpow])
qed

interpretation hole_name: scanning "holeNameLoop name" for name
  by unfold_locales (rule holeNameLoop_moves)

definition flushLiteral ::
  "InterpolationPart list \<Rightarrow> byte_string \<Rightarrow> SourcePos \<Rightarrow> InterpolationPart list" where
  "flushLiteral parts literal literalStart =
     (if literal \<noteq> [] then parts @ [\<lparr>ip_isHole = False, ip_text = literal, ip_pos = literalStart\<rparr>]
      else parts)"

definition holePart :: "byte_string \<Rightarrow> SourcePos \<Rightarrow> InterpolationPart" where
  "holePart e at = \<lparr>ip_isHole = True, ip_text = e, ip_pos = at\<rparr>"

definition interpolationMsg :: byte_string where
  "interpolationMsg = ''invalid string interpolation: $$, $ident or ${expr} expected''"

text \<open>What follows a \<^verbatim>\<open>$\<close> that is not doubled: the hole and the state after it.\<close>

definition readHole ::
  "bool \<Rightarrow> SourcePos \<Rightarrow> SourcePos \<Rightarrow> Lexer \<Rightarrow> (Token + InterpolationPart) \<times> Lexer" where
  "readHole triple start dollarPos s =
     (if cur s = CHR ''{'' then
        (case holeLoop triple start 1 [] (advance s) of
           (Inl t, s1) \<Rightarrow> (Inl t, s1)
         | (Inr e, s1) \<Rightarrow> (Inr (holePart e (curPos (advance s))), s1))
      else if holeIdentCharLength s (lx_pos s) = 0 then
        (Inl (lexError interpolationMsg dollarPos False s), s)
      else case holeNameLoop [] s of (name, s1) \<Rightarrow> (Inr (holePart name (curPos s)), s1))"

lemma readHole_moves: "moves s (snd (readHole triple start dollarPos s))"
  using moves_trans[OF moves_advance holeLoop_moves[of "advance s" triple start 1 "[]"]]
    holeNameLoop_moves[of s "[]"]
  by (auto simp: readHole_def split: prod.split sum.split)

interpretation read_hole: scanning "readHole triple start dollarPos" for triple start dollarPos
  by unfold_locales (rule readHole_moves)

lemma readHole_progress:
  assumes "(r, s') = readHole triple start dollarPos (advance s)" "\<not> eof s"
  shows "remaining s' < remaining s"
  using read_hole.scan_after_advance[OF assms(2) assms(1)[symmetric]] .

lemma readEscape_progress:
  assumes "(r, s') = readEscape out (advance s)" "\<not> eof s"
  shows "remaining s' < remaining s"
  using escapes.scan_after_advance[OF assms(2) assms(1)[symmetric]] .

function interpolationLoop ::
  "bool \<Rightarrow> bool \<Rightarrow> SourcePos \<Rightarrow> InterpolationPart list \<Rightarrow> byte_string \<Rightarrow> SourcePos \<Rightarrow> Lexer \<Rightarrow>
     (Token + InterpolationPart list) \<times> Lexer" where
  "interpolationLoop triple raw start parts literal literalStart s =
     (if eof s then (Inl (lexError (unterminatedMsg triple) start triple s), s)
      else if \<not> triple \<and> cur s = NL then
        (Inl (lexError ''unclosed string literal'' start False s), s)
      else if triple \<and> cur s = DQUOTE then
        (case quoteRun 0 s of (run, s1) \<Rightarrow>
           if run \<ge> 3 then
             (Inr (flushLiteral parts (literal @ replicate (run - 3) DQUOTE) literalStart), s1)
           else if eof s1 then (Inl (lexError (unterminatedMsg triple) start True s1), s1)
           else interpolationLoop triple raw start parts (literal @ replicate run DQUOTE) literalStart s1)
      else if \<not> triple \<and> cur s = DQUOTE then
        (Inr (flushLiteral parts literal literalStart), advance s)
      else if cur s = CHR ''$'' then
        (if cur (advance s) = CHR ''$'' then
           interpolationLoop triple raw start parts (literal @ ''$'') literalStart (advance (advance s))
         else
           (case readHole triple start (curPos s) (advance s) of
              (Inl t, s1) \<Rightarrow> (Inl t, s1)
            | (Inr hole, s1) \<Rightarrow>
                interpolationLoop triple raw start (flushLiteral parts literal literalStart @ [hole])
                  [] (curPos s1) s1))
      else if \<not> triple \<and> \<not> raw \<and> cur s = BACKSLASH then
        (case readEscape literal (advance s) of ((msg, literal1), s1) \<Rightarrow>
           if msg \<noteq> [] then (Inl (lexError msg (curPos s) False s1), s1)
           else interpolationLoop triple raw start parts literal1 literalStart s1)
      else interpolationLoop triple raw start parts (literal @ [cur s])
             (if literal = [] then curPos s else literalStart) (advance s))"
  by pat_completeness auto
termination
  by (relation "measure (\<lambda>(triple, raw, start, parts, literal, literalStart, s). remaining s)")
     (auto dest: quoteRun_progress readHole_progress readEscape_progress)

declare interpolationLoop.simps [simp del]

lemma interpolationLoop_moves:
  "moves s (snd (interpolationLoop triple raw start parts literal literalStart s))"
proof (induction triple raw start parts literal literalStart s rule: interpolationLoop.induct)
  case (1 triple raw start parts literal literalStart s)
  obtain run q where q: "quoteRun 0 s = (run, q)" by fastforce
  obtain r h where h: "readHole triple start (curPos s) (advance s) = (r, h)" by fastforce
  obtain msg lit e where e: "readEscape literal (advance s) = ((msg, lit), e)" by (metis prod.exhaust)
  have m: "moves s q" "moves s h" "moves s e"
    using quotes.scan_movesD[OF q] read_hole.scan_movesD[OF h] escapes.scan_movesD[OF e]
    by (auto intro: moves_advance_left)
  have s2: "moves s (advance (advance s))" by (rule moves_trans[OF moves_advance moves_advance])
  consider (stop) "eof s \<or> (\<not> triple \<and> (cur s = NL \<or> cur s = DQUOTE))"
    | (run) "\<not> eof s" "triple" "cur s = DQUOTE"
    | (dollar) "\<not> eof s" "cur s = CHR ''$''"
    | (esc) "\<not> eof s" "\<not> triple" "\<not> raw" "cur s = BACKSLASH"
    | (plain) "\<not> eof s" "cur s \<noteq> DQUOTE" "cur s \<noteq> CHR ''$''" "\<not> (\<not> triple \<and> cur s = NL)"
        "\<not> (\<not> triple \<and> \<not> raw \<and> cur s = BACKSLASH)"
    by blast
  then show ?case
  proof cases
    case stop
    then show ?thesis by (subst interpolationLoop.simps) auto
  next
    case run
    then show ?thesis using m(1) 1(1)[OF _ _ _ q[symmetric]] moves_trans[OF m(1)]
      by (subst interpolationLoop.simps) (simp add: q)
  next
    case dollar
    then show ?thesis
      using m(2) 1(2) 1(3)[OF _ _ _ _ _ _ h[symmetric]] moves_trans[OF m(2)] moves_trans[OF s2]
      by (subst interpolationLoop.simps) (simp add: h split: sum.split)
  next
    case esc
    then show ?thesis using m(3) 1(4)[OF _ _ _ _ _ _ e[symmetric]] moves_trans[OF m(3)]
      by (subst interpolationLoop.simps) (simp add: e)
  next
    case plain
    then show ?thesis using 1(5) moves_trans[OF moves_advance[of s]]
      by (subst interpolationLoop.simps) auto
  qed
qed

interpretation interpolation: scanning "interpolationLoop triple raw start parts literal literalStart"
  for triple raw start parts literal literalStart
  by unfold_locales (rule interpolationLoop_moves)

definition lexInterpolated :: "byte_string \<Rightarrow> SourcePos \<Rightarrow> Lexer \<Rightarrow> Token \<times> Lexer" where
  "lexInterpolated interpolator start s =
     (let s1 = advance s;
          triple = (cur s1 = DQUOTE \<and> peekChar s1 1 = DQUOTE);
          s2 = (if triple then advance (advance s1) else s1)
      in case interpolationLoop triple (interpolator = ''raw'') start [] [] (curPos s2) s2 of
           (Inl t, s3) \<Rightarrow> (t, s3)
         | (Inr parts, s3) \<Rightarrow>
             ((makeToken InterpolatedString start interpolator s3)\<lparr>tk_parts := parts\<rparr>, s3))"

lemma lexInterpolated_moves: "moves s (snd (lexInterpolated interpolator start s))"
  by (auto simp: lexInterpolated_def Let_def split: prod.split sum.split
      dest!: interpolation.scan_movesD intro: moves_advance_left)

interpretation interpolated: scanning "lexInterpolated interpolator start" for interpolator start
  by unfold_locales (rule lexInterpolated_moves)

subsection \<open>Identifiers, keywords and operators\<close>

function identLoop :: "bool \<Rightarrow> byte_string \<Rightarrow> Lexer \<Rightarrow> byte_string \<times> Lexer" where
  "identLoop lastWasUnderscore text s =
     (if eof s then (text, s)
      else if lastWasUnderscore \<and> isOpChar (cur s) then collectWhile isOpChar text s
      else if identCharLength s (lx_pos s) = 0 then (text, s)
      else identLoop (cur s = CHR ''_'' \<and> text \<noteq> [])
             (text @ take (identCharLength s (lx_pos s)) (drop (lx_pos s) (lx_source s)))
             ((advance ^^ identCharLength s (lx_pos s)) s))"
  by pat_completeness auto
termination
  by (relation "measure (\<lambda>(u, text, s). remaining s)") (auto simp: ident_step_progress)

declare identLoop.simps [simp del]

lemma identLoop_moves: "moves s (snd (identLoop u acc s))"
proof (induction u acc s rule: identLoop.induct)
  case (1 u acc s)
  then show ?case
    by (subst identLoop.simps) (auto intro: moves_trans[OF moves_funpow] collectWhile_moves)
qed

interpretation ident_loop: scanning "identLoop u acc" for u acc
  by unfold_locales (rule identLoop_moves)

definition lexIdentifierOrKeyword :: "Lexer \<Rightarrow> Token \<times> Lexer" where
  "lexIdentifierOrKeyword s =
     (let start = curPos s in
      case identLoop False [] s of (text, s1) \<Rightarrow>
        if cur s1 = DQUOTE then lexInterpolated text start s1
        else if text = ''_'' then (makeToken Underscore start text s1, s1)
        else case map_of keywordTable text of
            Some k \<Rightarrow> (makeToken k start text s1, s1)
          | None \<Rightarrow> (makeToken Identifier start text s1, s1))"

lemma lexIdentifierOrKeyword_moves: "moves s (snd (lexIdentifierOrKeyword s))"
proof -
  obtain acc s1 where i: "identLoop False [] s = (acc, s1)" by fastforce
  then have "moves s s1" by (rule ident_loop.scan_movesD)
  with i show ?thesis
    by (auto simp: lexIdentifierOrKeyword_def Let_def split: option.split intro: moves_trans[OF _ lexInterpolated_moves])
qed

interpretation identifiers: scanning lexIdentifierOrKeyword
  by unfold_locales (rule lexIdentifierOrKeyword_moves)

text \<open>
  A maximal run of operator characters, stopping before a \<^verbatim>\<open>//\<close> or \<^verbatim>\<open>/*\<close> that would start a
  comment.
\<close>

function operatorLoop :: "byte_string \<Rightarrow> Lexer \<Rightarrow> byte_string \<times> Lexer" where
  "operatorLoop text s =
     (if \<not> eof s \<and> isOpChar (cur s) then
        (if text \<noteq> [] \<and> cur s = CHR ''/'' \<and> (peekChar s 1 = CHR ''/'' \<or> peekChar s 1 = CHR ''*'')
         then (text, s)
         else operatorLoop (text @ [cur s]) (advance s))
      else (text, s))"
  by pat_completeness auto
termination
  by (relation "measure (\<lambda>(text, s). remaining s)") auto

declare operatorLoop.simps [simp del]

lemma operatorLoop_moves: "moves s (snd (operatorLoop acc s))"
proof (induction acc s rule: operatorLoop.induct)
  case (1 acc s)
  then show ?case by (subst operatorLoop.simps) (auto intro: moves_advance_left)
qed

interpretation operator_loop: scanning "operatorLoop acc" for acc
  by unfold_locales (rule operatorLoop_moves)

definition lexOperator :: "Lexer \<Rightarrow> Token \<times> Lexer" where
  "lexOperator s =
     (case operatorLoop [] s of (text, s1) \<Rightarrow>
        let reserved = reservedOperator text
        in ((makeToken reserved (curPos s) text s1)\<lparr>tk_isOperator := (reserved = Identifier)\<rparr>, s1))"

lemma lexOperator_moves: "moves s (snd (lexOperator s))"
  by (auto simp: lexOperator_def Let_def split: prod.split dest: operator_loop.scan_movesD)

interpretation operators: scanning lexOperator
  by unfold_locales (rule lexOperator_moves)

definition lexBackquoted :: "Lexer \<Rightarrow> Token \<times> Lexer" where
  "lexBackquoted s =
     (let start = curPos s in
      case collectWhile (\<lambda>c. c \<noteq> BACKQUOTE \<and> c \<noteq> NL) [] (advance s) of (text, s1) \<Rightarrow>
        if text = [] \<or> eof s1 \<or> cur s1 \<noteq> BACKQUOTE
        then (lexError ''unclosed quoted identifier'' start False s1, s1)
        else let s2 = advance s1
             in ((makeToken Identifier start text s2)\<lparr>tk_backquoted := True\<rparr>, s2))"

lemma lexBackquoted_moves: "moves s (snd (lexBackquoted s))"
  by (auto simp: lexBackquoted_def Let_def split: prod.split
      dest!: collect.scan_movesD intro: moves_advance_left moves_trans[OF _ moves_advance])

interpretation backquoted: scanning lexBackquoted
  by unfold_locales (rule lexBackquoted_moves)

subsection \<open>Numbers\<close>

definition isxdigit :: "char \<Rightarrow> bool" where
  "isxdigit c \<longleftrightarrow> hexDigit c \<noteq> None"

definition isBaseDigit :: "nat \<Rightarrow> char \<Rightarrow> bool" where
  "isBaseDigit base c =
     (if base = 16 then isxdigit c
      else if base = 2 then c = CHR ''0'' \<or> c = CHR ''1''
      else isdigit c)"

text \<open>
  \<^verbatim>\<open>strtoll\<close> on a digit string of its base: the value, which is out of range (\<^verbatim>\<open>ERANGE\<close>) from
  $2^{63}$ on.  The empty string reads as 0, as in C.
\<close>

definition strtollValue :: "nat \<Rightarrow> byte_string \<Rightarrow> nat" where
  "strtollValue base digits =
     foldl (\<lambda>v c. v * base + (case hexDigit c of Some d \<Rightarrow> d | None \<Rightarrow> 0)) 0 digits"

definition maxLongLong :: int where
  "maxLongLong = 2 ^ 63 - 1"

text \<open>
  A run of digits and underscores: the digits are appended, the flag says whether the last
  character taken was an underscore.
\<close>

function digitLoop ::
  "(char \<Rightarrow> bool) \<Rightarrow> byte_string \<Rightarrow> bool \<Rightarrow> Lexer \<Rightarrow> (byte_string \<times> bool) \<times> Lexer" where
  "digitLoop isDig digits lastWasUnderscore s =
     (if \<not> eof s \<and> (isDig (cur s) \<or> cur s = CHR ''_'') then
        (if cur s = CHR ''_'' then digitLoop isDig digits True (advance s)
         else digitLoop isDig (digits @ [cur s]) False (advance s))
      else ((digits, lastWasUnderscore), s))"
  by pat_completeness auto
termination
  by (relation "measure (\<lambda>(isDig, digits, u, s). remaining s)") auto

declare digitLoop.simps [simp del]

lemma digitLoop_moves: "moves s (snd (digitLoop isDig digits u s))"
proof (induction isDig digits u s rule: digitLoop.induct)
  case (1 isDig digits u s)
  then show ?case by (subst digitLoop.simps) (auto intro: moves_advance_left)
qed

interpretation digit_loop: scanning "digitLoop isDig digits u" for isDig digits u
  by unfold_locales (rule digitLoop_moves)

text \<open>The base prefix; \<^const>\<open>None\<close> is the leading-zero error.\<close>

definition numberPrefix :: "Lexer \<Rightarrow> nat option \<times> Lexer" where
  "numberPrefix s =
     (if cur s = CHR ''0'' \<and> (peekChar s 1 = CHR ''x'' \<or> peekChar s 1 = CHR ''X'')
      then (Some 16, advance (advance s))
      else if cur s = CHR ''0'' \<and> (peekChar s 1 = CHR ''b'' \<or> peekChar s 1 = CHR ''B'')
      then (Some 2, advance (advance s))
      else if cur s = CHR ''0'' \<and> isdigit (peekChar s 1) then (None, s)
      else (Some 10, s))"

text \<open>
  The fraction and the exponent of a decimal literal, and its float suffix.  Each returns
  whether the literal is now a float, the digits, and whether a digit run ended in an underscore.
\<close>

definition numberFraction :: "byte_string \<Rightarrow> Lexer \<Rightarrow> (bool \<times> byte_string \<times> bool) \<times> Lexer" where
  "numberFraction digits s =
     (if cur s = CHR ''.'' \<and> isdigit (peekChar s 1) then
        (case digitLoop isdigit (digits @ ''.'') False (advance s) of
           ((d, und), s1) \<Rightarrow> ((True, d, und), s1))
      else ((False, digits, False), s))"

definition numberExponent :: "byte_string \<Rightarrow> Lexer \<Rightarrow> (bool \<times> byte_string \<times> bool) \<times> Lexer" where
  "numberExponent digits s =
     (let c1 = peekChar s 1;
          hasSign = (c1 = CHR ''+'' \<or> c1 = CHR ''-'');
          candidate = (if hasSign then peekChar s 2 else c1)
      in if (cur s = CHR ''e'' \<or> cur s = CHR ''E'') \<and> isdigit candidate then
           let s1 = advance s;
               d1 = digits @ ''e'';
               d2 = (if hasSign then d1 @ [cur s1] else d1);
               s2 = (if hasSign then advance s1 else s1)
           in case digitLoop isdigit d2 False s2 of ((d, und), s3) \<Rightarrow> ((True, d, und), s3)
         else ((False, digits, False), s))"

definition numberSuffix :: "bool \<Rightarrow> Lexer \<Rightarrow> bool \<times> Lexer" where
  "numberSuffix decimal s =
     (if decimal \<and> cur s \<in> {CHR ''f'', CHR ''F'', CHR ''d'', CHR ''D''} then (True, advance s)
      else (False, s))"

lemma numberPrefix_moves: "moves s (snd (numberPrefix s))"
  using moves_trans[OF moves_advance moves_advance, of s] by (simp add: numberPrefix_def)

lemma numberFraction_moves: "moves s (snd (numberFraction digits s))"
  by (auto simp: numberFraction_def split: prod.split
      dest!: digit_loop.scan_movesD intro: moves_advance_left)

lemma numberExponent_moves: "moves s (snd (numberExponent digits s))"
  by (auto simp: numberExponent_def Let_def split: prod.split
      dest!: digit_loop.scan_movesD intro: moves_advance_left)

lemma numberSuffix_moves: "moves s (snd (numberSuffix decimal s))"
  by (simp add: numberSuffix_def)

interpretation prefixes: scanning numberPrefix
  by unfold_locales (rule numberPrefix_moves)

interpretation fractions: scanning "numberFraction digits" for digits
  by unfold_locales (rule numberFraction_moves)

interpretation exponents: scanning "numberExponent digits" for digits
  by unfold_locales (rule numberExponent_moves)

interpretation suffixes: scanning "numberSuffix decimal" for decimal
  by unfold_locales (rule numberSuffix_moves)

text \<open>The part after the integer digits: suffixes, the malformed-literal check, the token.\<close>

definition finishNumber ::
  "SourcePos \<Rightarrow> nat \<Rightarrow> bool \<Rightarrow> byte_string \<Rightarrow> Lexer \<Rightarrow> Token \<times> Lexer" where
  "finishNumber start base isFloat0 digits s =
     (case numberSuffix (base = 10) s of (suffixed, s1) \<Rightarrow>
        let isFloat = (isFloat0 \<or> suffixed);
            s2 = (if \<not> isFloat \<and> (cur s1 = CHR ''l'' \<or> cur s1 = CHR ''L'') then advance s1 else s1)
        in if identCharLength s2 (lx_pos s2) > 0
           then (lexError ''malformed number literal'' start False s2, s2)
           else if isFloat
           then ((makeToken FloatLit start digits s2)\<lparr>tk_floatValue := digits\<rparr>, s2)
           else let v = int (strtollValue base digits);
                    t = (makeToken IntLit start digits s2)\<lparr>tk_digits := digits, tk_base := base\<rparr>
                in (if v > maxLongLong then t\<lparr>tk_fitsLong := False\<rparr> else t\<lparr>tk_intValue := v\<rparr>, s2))"

definition trailingUnderscore :: byte_string where
  "trailingUnderscore = ''trailing '' @ [SQUOTE] @ ''_'' @ [SQUOTE] @ '' in number literal''"

definition lexNumber :: "Lexer \<Rightarrow> Token \<times> Lexer" where
  "lexNumber s =
     (let start = curPos s in
      case numberPrefix s of
        (None, s1) \<Rightarrow>
          (lexError ''decimal integer literals may not have a leading zero'' start False s1, s1)
      | (Some base, s1) \<Rightarrow>
          (case digitLoop (isBaseDigit base) [] False s1 of ((digits, und), s2) \<Rightarrow>
             if und then (lexError trailingUnderscore start False s2, s2)
             else if base \<noteq> 10 then finishNumber start base False digits s2
             else case numberFraction digits s2 of ((isFrac, d1, und1), s3) \<Rightarrow>
               if und1 then (lexError trailingUnderscore start False s3, s3)
               else case numberExponent d1 s3 of ((isExp, d2, und2), s4) \<Rightarrow>
                 if und2 then (lexError trailingUnderscore start False s4, s4)
                 else finishNumber start base (isFrac \<or> isExp) d2 s4))"

lemma finishNumber_moves: "moves s (snd (finishNumber start base isFloat0 digits s))"
  by (auto simp: finishNumber_def Let_def split: prod.split
      dest!: suffixes.scan_movesD intro: moves_trans[OF _ moves_advance])

interpretation finish_number: scanning "finishNumber start base f digits" for start base f digits
  by unfold_locales (rule finishNumber_moves)

lemma lexNumber_moves: "moves s (snd (lexNumber s))"
proof -
  obtain b s1 where p: "numberPrefix s = (b, s1)" by fastforce
  obtain digits und s2 where d: "digitLoop (isBaseDigit (the b)) [] False s1 = ((digits, und), s2)"
    by (metis prod.exhaust)
  obtain isFrac d1 und1 s3 where f: "numberFraction digits s2 = ((isFrac, d1, und1), s3)"
    by (metis prod.exhaust)
  obtain isExp d2 und2 s4 where e: "numberExponent d1 s3 = ((isExp, d2, und2), s4)"
    by (metis prod.exhaust)
  have m: "moves s s1" "moves s s2" "moves s s3" "moves s s4"
    using prefixes.scan_movesD[OF p] digit_loop.scan_movesD[OF d] fractions.scan_movesD[OF f]
      exponents.scan_movesD[OF e] by (meson moves_trans)+
  show ?thesis
    using m p d f e moves_trans[OF m(2) finishNumber_moves] moves_trans[OF m(4) finishNumber_moves]
    by (cases b) (auto simp: lexNumber_def Let_def)
qed

interpretation numbers: scanning lexNumber
  by unfold_locales (rule lexNumber_moves)

subsection \<open>Character and string literals\<close>

text \<open>The code point between the quotes, or the error token.\<close>

definition charBody :: "SourcePos \<Rightarrow> Lexer \<Rightarrow> (Token + nat) \<times> Lexer" where
  "charBody start s =
     (if cur s = BACKSLASH then
        (case readEscape [] (advance s) of ((msg, encoded), s1) \<Rightarrow>
           if msg \<noteq> [] then (Inl (lexError msg start False s1), s1)
           else if encoded = [] then (Inl (lexError ''invalid escape character'' start False s1), s1)
           else case decodeUtf8 encoded 0 of
               None \<Rightarrow> (Inl (lexError ''invalid escape character'' start False s1), s1)
             | Some (len, cp) \<Rightarrow> (Inr cp, s1))
      else if eof s \<or> cur s = NL then
        (Inl (lexError ''unclosed character literal'' start False s), s)
      else case decodeUtf8 (lx_source s) (lx_pos s) of
          None \<Rightarrow> (Inl (lexError ''invalid UTF-8 in character literal'' start False s), s)
        | Some (len, cp) \<Rightarrow> (Inr cp, (advance ^^ len) s))"

definition lexChar :: "Lexer \<Rightarrow> Token \<times> Lexer" where
  "lexChar s =
     (let start = curPos s; s1 = advance s in
      if cur s1 = SQUOTE then
        (lexError ''empty character literal'' start False (advance s1), advance s1)
      else case charBody start s1 of
          (Inl t, s2) \<Rightarrow> (t, s2)
        | (Inr cp, s2) \<Rightarrow>
            if cur s2 \<noteq> SQUOTE then
              (if isIdentCodePoint cp
               then (lexError ''symbol literals are not supported in Scala 3'' start False s2, s2)
               else (lexError ''unclosed character literal'' start False s2, s2))
            else let s3 = advance s2
                 in ((makeToken CharLit start [] s3)\<lparr>tk_charValue := cp\<rparr>, s3))"

lemma charBody_moves: "moves s (snd (charBody start s))"
  by (auto simp: charBody_def split: prod.split option.split
      dest!: escapes.scan_movesD intro: moves_advance_left)

interpretation char_body: scanning "charBody start" for start
  by unfold_locales (rule charBody_moves)

lemma lexChar_moves: "moves s (snd (lexChar s))"
proof -
  obtain r s2 where b: "charBody (curPos s) (advance s) = (r, s2)" by fastforce
  have "moves s s2" using char_body.scan_movesD[OF b] by (rule moves_advance_left)
  then show ?thesis
    using b moves_trans[OF moves_advance moves_advance, of s]
    by (auto simp: lexChar_def Let_def split: sum.split intro: moves_trans[OF _ moves_advance])
qed

interpretation chars: scanning lexChar
  by unfold_locales (rule lexChar_moves)

text \<open>
  The body of a triple-quoted string: a run of $k \geq 3$ quotes closes it with its last three,
  the first $k - 3$ belong to the content.  \<^const>\<open>None\<close> is the unclosed literal.
\<close>

function tripleLoop :: "byte_string \<Rightarrow> Lexer \<Rightarrow> byte_string option \<times> Lexer" where
  "tripleLoop content s =
     (if eof s then (None, s)
      else if cur s = DQUOTE then
        (case quoteRun 0 s of (run, s1) \<Rightarrow>
           if run \<ge> 3 then (Some (content @ replicate (run - 3) DQUOTE), s1)
           else if eof s1 then (None, s1)
           else tripleLoop (content @ replicate run DQUOTE) s1)
      else tripleLoop (content @ [cur s]) (advance s))"
  by pat_completeness auto
termination
  by (relation "measure (\<lambda>(content, s). remaining s)") (auto dest: quoteRun_progress)

declare tripleLoop.simps [simp del]

text \<open>The body of a single-line string.\<close>

function stringLoop :: "SourcePos \<Rightarrow> byte_string \<Rightarrow> Lexer \<Rightarrow> (Token + byte_string) \<times> Lexer" where
  "stringLoop start v s =
     (if eof s \<or> cur s = NL then (Inl (lexError ''unclosed string literal'' start False s), s)
      else if cur s = DQUOTE then (Inr v, advance s)
      else if cur s = BACKSLASH then
        (case readEscape v (advance s) of ((msg, v1), s1) \<Rightarrow>
           if msg \<noteq> [] then (Inl (lexError msg (curPos s) False s1), s1)
           else stringLoop start v1 s1)
      else stringLoop start (v @ [cur s]) (advance s))"
  by pat_completeness auto
termination
  by (relation "measure (\<lambda>(start, v, s). remaining s)") (auto dest: readEscape_progress)

declare stringLoop.simps [simp del]

lemma tripleLoop_moves: "moves s (snd (tripleLoop content s))"
proof (induction content s rule: tripleLoop.induct)
  case (1 content s)
  obtain run q where q: "quoteRun 0 s = (run, q)" by fastforce
  have m: "moves s q" by (rule quotes.scan_movesD[OF q])
  show ?case
    by (subst tripleLoop.simps)
       (use 1(1)[OF _ _ q[symmetric]] 1(2) m moves_trans[OF m] in \<open>auto simp: q intro: moves_advance_left\<close>)
qed

lemma stringLoop_moves: "moves s (snd (stringLoop start v s))"
proof (induction start v s rule: stringLoop.induct)
  case (1 start v s)
  obtain msg lit e where e: "readEscape v (advance s) = ((msg, lit), e)" by (metis prod.exhaust)
  have m: "moves s e" using escapes.scan_movesD[OF e] by (rule moves_advance_left)
  show ?case
    by (subst stringLoop.simps)
       (use 1(1)[OF _ _ _ e[symmetric]] 1(2) m moves_trans[OF m] in \<open>auto simp: e intro: moves_advance_left\<close>)
qed

interpretation triple_loop: scanning "tripleLoop content" for content
  by unfold_locales (rule tripleLoop_moves)

interpretation string_loop: scanning "stringLoop start v" for start v
  by unfold_locales (rule stringLoop_moves)

definition lexString :: "Lexer \<Rightarrow> Token \<times> Lexer" where
  "lexString s =
     (let start = curPos s; s1 = advance s in
      if cur s1 = DQUOTE \<and> peekChar s1 1 = DQUOTE then
        (case tripleLoop [] (advance (advance s1)) of
           (None, s2) \<Rightarrow> (lexError ''unclosed multi-line string literal'' start True s2, s2)
         | (Some content, s2) \<Rightarrow>
             ((makeToken StringLit start content s2)\<lparr>tk_stringValue := content\<rparr>, s2))
      else
        (case stringLoop start [] s1 of
           (Inl t, s2) \<Rightarrow> (t, s2)
         | (Inr v, s2) \<Rightarrow> ((makeToken StringLit start v s2)\<lparr>tk_stringValue := v\<rparr>, s2)))"

lemma lexString_moves: "moves s (snd (lexString s))"
  by (auto simp: lexString_def Let_def split: prod.split sum.split option.split
      dest!: triple_loop.scan_movesD string_loop.scan_movesD intro: moves_advance_left)

interpretation strings: scanning lexString
  by unfold_locales (rule lexString_moves)

subsection \<open>The next token, and the whole stream\<close>

definition punctuation :: "char \<Rightarrow> TokenKind option" where
  "punctuation c =
     (if c = CHR ''('' then Some LParen
      else if c = CHR '')'' then Some RParen
      else if c = CHR ''['' then Some LBracket
      else if c = CHR '']'' then Some RBracket
      else if c = CHR ''{'' then Some LBrace
      else if c = CHR ''}'' then Some RBrace
      else if c = CHR '','' then Some Comma
      else if c = CHR '';'' then Some Semicolon
      else None)"

definition illegalCharacter :: "char \<Rightarrow> byte_string" where
  "illegalCharacter c = ''illegal character '' @ [SQUOTE, c, SQUOTE]"

text \<open>The \<^verbatim>\<open>switch\<close> on the current character.\<close>

definition lexToken :: "Lexer \<Rightarrow> Token \<times> Lexer" where
  "lexToken s =
     (let start = curPos s; c = cur s in
      case punctuation c of
        Some k \<Rightarrow> (makeToken k start [c] (advance s), advance s)
      | None \<Rightarrow>
          if c = BACKQUOTE then lexBackquoted s
          else if c = DQUOTE then lexString s
          else if c = SQUOTE then lexChar s
          else if c = CHR ''.'' then
            (if isdigit (peekChar s 1) then lexNumber s
             else (makeToken Dot start ''.'' (advance s), advance s))
          else if isdigit c then lexNumber s
          else if isOpChar c then lexOperator s
          else if identCharLength s (lx_pos s) > 0 then lexIdentifierOrKeyword s
          else (lexError (illegalCharacter c) start False s, s))"

text \<open>The indentation-consistency check, made on the first token of a line.\<close>

definition noteIndentation :: "Lexer \<Rightarrow> Lexer" where
  "noteIndentation s =
     (if lx_line s \<noteq> lx_lastTokenLine s then
        s\<lparr>lx_sawTabIndent := lx_sawTabIndent s \<or> lx_lineHasTab s ! (lx_line s - 1),
          lx_sawSpaceIndent := lx_sawSpaceIndent s \<or> lx_lineHasSpace s ! (lx_line s - 1)\<rparr>
      else s)"

definition mixedIndentation :: "Lexer \<Rightarrow> bool" where
  "mixedIndentation s \<longleftrightarrow>
     lx_line s \<noteq> lx_lastTokenLine s \<and> lx_sawTabIndent (noteIndentation s) \<and>
     lx_sawSpaceIndent (noteIndentation s)"

definition lexNext :: "Lexer \<Rightarrow> Token \<times> Lexer" where
  "lexNext s =
     (if lx_done s then (defaultToken\<lparr>tk_kind := EndOfFile, tk_pos := curPos s\<rparr>, s)
      else case skipTrivia s of (trivia, s1) \<Rightarrow>
        if tk_kind trivia = Error then (trivia, s1\<lparr>lx_done := True\<rparr>)
        else let s2 = s1\<lparr>lx_pastBlankLine := pastBlankLine s1 (lx_pos s1)\<rparr>; start = curPos s2 in
          if eof s2 then
            ((makeToken EndOfFile start [] s2)\<lparr>tk_firstOnLine := True\<rparr>, s2\<lparr>lx_done := True\<rparr>)
          else if mixedIndentation s2 then
            (lexError ''indentation mixes tabs and spaces'' start False s2,
             (noteIndentation s2)\<lparr>lx_done := True\<rparr>)
          else case lexToken (noteIndentation s2) of (t, s3) \<Rightarrow>
            (t, s3\<lparr>lx_done := (tk_kind t = Error), lx_lastTokenLine := sp_line start,
                   lx_lastTokenEnd := lx_pos s3\<rparr>))"

subsection \<open>Progress: a token that is not an error consumes input\<close>

lemma kind_lexError [simp]: "tk_kind (lexError msg at e s) = Error"
  by (simp add: lexError_def)

lemma kind_makeToken [simp]: "tk_kind (makeToken k start acc s) = k"
  by (simp add: makeToken_def)

lemma moves_less:
  assumes "\<not> eof s" "moves (advance s) s'"
  shows "remaining s' < remaining s"
  using moves_remaining[OF assms(2)] remaining_advance_less[OF assms(1)] by linarith

lemma lexBackquoted_from: "moves (advance s) (snd (lexBackquoted s))"
  by (auto simp: lexBackquoted_def Let_def split: prod.split
      dest!: collect.scan_movesD intro: moves_trans[OF _ moves_advance])

lemma lexChar_from: "moves (advance s) (snd (lexChar s))"
  by (auto simp: lexChar_def Let_def split: prod.split sum.split
      dest!: char_body.scan_movesD intro: moves_trans[OF _ moves_advance])

lemma lexString_from: "moves (advance s) (snd (lexString s))"
  by (auto simp: lexString_def Let_def split: prod.split sum.split option.split
      dest!: triple_loop.scan_movesD string_loop.scan_movesD intro: moves_advance_left)

lemma lexOperator_from:
  assumes "\<not> eof s" "isOpChar (cur s)"
  shows "moves (advance s) (snd (lexOperator s))"
proof -
  have "operatorLoop [] s = operatorLoop [cur s] (advance s)"
    using assms by (subst operatorLoop.simps) simp
  then show ?thesis using operatorLoop_moves[of "advance s" "[cur s]"]
    by (cases "operatorLoop [cur s] (advance s)") (simp add: lexOperator_def Let_def)
qed

lemma funpow_advance_from: "0 < n \<Longrightarrow> moves (advance s) ((advance ^^ n) s)"
  by (cases n) (auto simp: funpow_swap1)

lemma lexIdentifier_from:
  assumes "\<not> eof s" "0 < identCharLength s (lx_pos s)"
  shows "moves (advance s) (snd (lexIdentifierOrKeyword s))"
proof -
  let ?n = "identCharLength s (lx_pos s)"
  obtain acc s1 where i: "identLoop False [] s = (acc, s1)" by fastforce
  have "moves ((advance ^^ ?n) s) s1"
    using i assms identLoop_moves[of "(advance ^^ ?n) s" "False" "take ?n (drop (lx_pos s) (lx_source s))"]
    by (simp add: identLoop.simps[of False "[]" s])
  then have "moves (advance s) s1" by (rule moves_trans[OF funpow_advance_from[OF assms(2)]])
  with i show ?thesis
    by (auto simp: lexIdentifierOrKeyword_def Let_def split: option.split
        intro: moves_trans[OF _ lexInterpolated_moves])
qed

lemma digitLoop_from:
  assumes "\<not> eof s" "isDig (cur s)"
  shows "moves (advance s) (snd (digitLoop isDig digits u s))"
  using assms digitLoop_moves[of "advance s"] by (subst digitLoop.simps) simp

lemma digitLoop_stop: "\<not> isDig (cur s) \<Longrightarrow> cur s \<noteq> CHR ''_'' \<Longrightarrow> digitLoop isDig d u s = ((d, u), s)"
  by (subst digitLoop.simps) simp

lemma numberFraction_from:
  "cur s = CHR ''.'' \<Longrightarrow> isdigit (peekChar s 1) \<Longrightarrow> moves (advance s) (snd (numberFraction digits s))"
  by (auto simp: numberFraction_def split: prod.split dest: digit_loop.scan_movesD)

text \<open>After the prefix, the digits and the fraction of a numeral at least one byte is consumed.\<close>

lemma number_head_from:
  assumes "\<not> eof s" "isdigit (cur s) \<or> (cur s = CHR ''.'' \<and> isdigit (peekChar s 1))"
    and p: "numberPrefix s = (Some base, s1)"
    and d: "digitLoop (isBaseDigit base) [] False s1 = ((digits, und), s2)"
  shows "moves (advance s) s2 \<or> (base = 10 \<and> s2 = s \<and> cur s = CHR ''.'' \<and> isdigit (peekChar s 1))"
proof (cases "base = 10")
  case False
  then have "s1 = advance (advance s)" using p by (auto simp: numberPrefix_def split: if_splits)
  then show ?thesis using digit_loop.scan_movesD[OF d] by (auto intro: moves_advance_left)
next
  case True
  then have s1: "s1 = s" using p by (auto simp: numberPrefix_def split: if_splits)
  show ?thesis
  proof (cases "isdigit (cur s)")
    case True
    then show ?thesis using digitLoop_from[of s "isBaseDigit base" "[]" False] assms(1) d s1 \<open>base = 10\<close>
      by (simp add: isBaseDigit_def)
  next
    case False
    then show ?thesis
      using digitLoop_stop[of "isBaseDigit base" s "[]" False] assms(2) d s1 \<open>base = 10\<close>
      by (simp add: isBaseDigit_def)
  qed
qed

lemma lexNumber_from:
  assumes "\<not> eof s" "isdigit (cur s) \<or> (cur s = CHR ''.'' \<and> isdigit (peekChar s 1))"
    and "tk_kind (fst (lexNumber s)) \<noteq> Error"
  shows "moves (advance s) (snd (lexNumber s))"
proof -
  obtain base s1 where p: "numberPrefix s = (Some base, s1)"
    using assms(3) by (cases "numberPrefix s") (auto simp: lexNumber_def Let_def split: option.splits)
  obtain digits und s2 where d: "digitLoop (isBaseDigit base) [] False s1 = ((digits, und), s2)"
    by (metis prod.exhaust)
  obtain isFrac d1 und1 s3 where f: "numberFraction digits s2 = ((isFrac, d1, und1), s3)"
    by (metis prod.exhaust)
  obtain isExp d2 und2 s4 where e: "numberExponent d1 s3 = ((isExp, d2, und2), s4)"
    by (metis prod.exhaust)
  have no: "\<not> und" using assms(3) p d by (auto simp: lexNumber_def Let_def)
  show ?thesis
  proof (cases "base = 10")
    case False
    with number_head_from[OF assms(1,2) p d] have "moves (advance s) s2" by simp
    with False no show ?thesis
      by (simp add: lexNumber_def Let_def p d moves_trans[OF _ finishNumber_moves])
  next
    case True
    have m3: "moves (advance s) s3"
      using number_head_from[OF assms(1,2) p d] fractions.scan_movesD[OF f]
        numberFraction_from[of s digits] f by (auto intro: moves_trans)
    moreover have "moves (advance s) s4" by (rule moves_trans[OF m3 exponents.scan_movesD[OF e]])
    ultimately show ?thesis using True no
      by (simp add: lexNumber_def Let_def p d[unfolded True] f e moves_trans[OF _ finishNumber_moves])
  qed
qed

lemma lexToken_from:
  assumes "\<not> eof s" "tk_kind (fst (lexToken s)) \<noteq> Error"
  shows "moves (advance s) (snd (lexToken s))"
  using assms lexBackquoted_from[of s] lexChar_from[of s] lexString_from[of s] lexOperator_from[of s]
    lexIdentifier_from[of s] lexNumber_from[of s]
  by (cases "punctuation (cur s)") (auto simp: lexToken_def Let_def split: if_splits)

lemma lexToken_moves: "moves s (snd (lexToken s))"
  using lexBackquoted_moves[of s] lexChar_moves[of s] lexString_moves[of s] lexOperator_moves[of s]
    lexIdentifierOrKeyword_moves[of s] lexNumber_moves[of s]
  by (simp add: lexToken_def Let_def split: option.splits)

interpretation tokens: scanning lexToken
  by unfold_locales (rule lexToken_moves)

lemma noteIndentation_cursor [simp]:
  "lx_source (noteIndentation s) = lx_source s" "lx_pos (noteIndentation s) = lx_pos s"
  "lx_line (noteIndentation s) = lx_line s" "lx_column (noteIndentation s) = lx_column s"
  "lx_lineIndent (noteIndentation s) = lx_lineIndent s" "lx_done (noteIndentation s) = lx_done s"
  "remaining (noteIndentation s) = remaining s" "eof (noteIndentation s) = eof s"
  by (simp_all add: noteIndentation_def remaining_def eof_def)

lemma remaining_update [simp]:
  "remaining (s\<lparr>lx_done := d\<rparr>) = remaining s" "remaining (s\<lparr>lx_pastBlankLine := b\<rparr>) = remaining s"
  "remaining (s\<lparr>lx_lastTokenLine := l\<rparr>) = remaining s" "remaining (s\<lparr>lx_lastTokenEnd := n\<rparr>) = remaining s"
  by (simp_all add: remaining_def)

lemma lexNext_progress:
  assumes "\<not> terminalKind (tk_kind (fst (lexNext s)))"
  shows "remaining (snd (lexNext s)) < remaining s"
proof -
  obtain tr s1 where t: "skipTrivia s = (tr, s1)" by fastforce
  define s2 where "s2 = s1\<lparr>lx_pastBlankLine := pastBlankLine s1 (lx_pos s1)\<rparr>"
  obtain tk s3 where k: "lexToken (noteIndentation s2) = (tk, s3)" by fastforce
  have r: "remaining s2 \<le> remaining s" using trivia.scan_remaining[OF t] by (simp add: s2_def)
  have "\<not> eof s2" "tk_kind tk \<noteq> Error" "snd (lexNext s) = s3\<lparr>lx_done := (tk_kind tk = Error),
      lx_lastTokenLine := sp_line (curPos s2), lx_lastTokenEnd := lx_pos s3\<rparr>"
    using assms t k
    by (auto simp: lexNext_def Let_def s2_def[symmetric] terminalKind_def split: if_splits)
  with k r moves_less[of "noteIndentation s2" s3] lexToken_from[of "noteIndentation s2"]
  show ?thesis by simp
qed

function tokenizeFrom :: "Lexer \<Rightarrow> Token list" where
  "tokenizeFrom s =
     (if terminalKind (tk_kind (fst (lexNext s))) then [fst (lexNext s)]
      else fst (lexNext s) # tokenizeFrom (snd (lexNext s)))"
  by pat_completeness auto
termination
  by (relation "measure remaining") (auto simp: lexNext_progress)

declare tokenizeFrom.simps [simp del]

definition tokenizeAll :: "byte_string \<Rightarrow> Token list" where
  "tokenizeAll source = tokenizeFrom (newLexer source)"

end
