(* ===== verification/TokenStream.thy ===== *)
theory TokenStream
  imports Tokenizer
begin

text \<open>
  What the tokenizer guarantees to its client, the layout pass: the shape of the token stream
  (one terminal token, at the end; no layout kinds), lines and indentations that index existing
  source lines, exact integer literals, and the classification of identifiers and keywords.
\<close>

subsection \<open>Kinds\<close>

definition rawKind :: "TokenKind \<Rightarrow> bool" where
  "rawKind k \<longleftrightarrow> k \<notin> layoutKinds \<and> k \<noteq> EndOfFile"

lemma rawKind_Error [simp]: "rawKind Error"
  by (simp add: rawKind_def layoutKinds_def)

lemma keyword_kinds: "map_of keywordTable w = Some k \<Longrightarrow> rawKind k \<and> k \<noteq> Identifier \<and> k \<noteq> Error"
  by (auto simp: keywordTable_def rawKind_def layoutKinds_def split: if_splits)

lemma keyword_entries:
  "list_all (\<lambda>(w, k). 2 \<le> length w \<and> isalpha (hd w) \<and> take 2 (tokenKindName k) = ''Kw'') keywordTable"
  by (simp add: keywordTable_def isalpha_def byte_of_def)

lemma keyword_name: "k \<in> snd ` set keywordTable \<Longrightarrow> take 2 (tokenKindName k) = ''Kw''"
  using keyword_entries by (auto simp: list_all_iff)

lemma not_keyword_word: "length w < 2 \<or> \<not> isalpha (hd w) \<Longrightarrow> map_of keywordTable w = None"
  using keyword_entries by (auto simp: map_of_eq_None_iff list_all_iff)

lemma reservedOperator_raw: "rawKind (reservedOperator w) \<and> reservedOperator w \<noteq> Error"
  by (auto simp: reservedOperator_def rawKind_def layoutKinds_def)

lemma punctuation_raw: "punctuation c = Some k \<Longrightarrow> rawKind k \<and> k \<noteq> Error"
  by (auto simp: punctuation_def rawKind_def layoutKinds_def split: if_splits)

text \<open>A routine that fails does so with an \<^const>\<open>Error\<close> token.\<close>

lemma nestedTripleLoop_error: "fst (nestedTripleLoop start e s) = Inl t \<Longrightarrow> tk_kind t = Error"
proof (induction start e s rule: nestedTripleLoop.induct)
  case (1 start e s)
  obtain run q where q: "quoteRun 0 s = (run, q)" by fastforce
  show ?case using 1(3) 1(1)[OF _ _ q[symmetric]] 1(2)
    by (subst (asm) nestedTripleLoop.simps) (auto simp: q split: if_splits)
qed

lemma nestedStringLoop_error: "fst (nestedStringLoop start e s) = Inl t \<Longrightarrow> tk_kind t = Error"
proof (induction start e s rule: nestedStringLoop.induct)
  case (1 start e s)
  then show ?case by (subst (asm) nestedStringLoop.simps) (auto split: if_splits)
qed

lemma nestedLiteral_error: "fst (nestedLiteral start e s) = Inl t \<Longrightarrow> tk_kind t = Error"
  by (auto simp: nestedLiteral_def nestedTripleLoop_error nestedStringLoop_error split: if_splits)

lemma holeLoop_error: "fst (holeLoop triple start depth e s) = Inl t \<Longrightarrow> tk_kind t = Error"
proof (induction triple start depth e s rule: holeLoop.induct)
  case (1 triple start depth e s)
  obtain r n where n: "nestedLiteral start e s = (r, n)" by fastforce
  show ?case using 1(5) 1(1,2,4) 1(3)[OF _ _ _ _ n[symmetric]] nestedLiteral_error[of start e s]
    by (subst (asm) holeLoop.simps) (auto simp: n split: if_splits sum.splits)
qed

lemma readHole_error: "fst (readHole triple start dp s) = Inl t \<Longrightarrow> tk_kind t = Error"
  using holeLoop_error[of triple start 1 "[]" "advance s"]
  by (auto simp: readHole_def split: if_splits prod.splits sum.splits)

lemma interpolationLoop_error:
  "fst (interpolationLoop triple raw start parts literal ls s) = Inl t \<Longrightarrow> tk_kind t = Error"
proof (induction triple raw start parts literal ls s rule: interpolationLoop.induct)
  case (1 triple raw start parts literal ls s)
  obtain run q where q: "quoteRun 0 s = (run, q)" by fastforce
  obtain r h where h: "readHole triple start (curPos s) (advance s) = (r, h)" by fastforce
  obtain msg lit e where e: "readEscape literal (advance s) = ((msg, lit), e)" by (metis prod.exhaust)
  show ?case
    using 1(6) 1(1)[OF _ _ _ q[symmetric]] 1(2) 1(3)[OF _ _ _ _ _ _ h[symmetric]]
      1(4)[OF _ _ _ _ _ _ e[symmetric]] 1(5) readHole_error[of triple start "curPos s" "advance s" t]
    by (subst (asm) interpolationLoop.simps) (simp add: q h e split: if_splits sum.splits; auto)
qed

lemma stringLoop_error: "fst (stringLoop start v s) = Inl t \<Longrightarrow> tk_kind t = Error"
proof (induction start v s rule: stringLoop.induct)
  case (1 start v s)
  obtain msg lit e where e: "readEscape v (advance s) = ((msg, lit), e)" by (metis prod.exhaust)
  show ?case using 1(3) 1(1)[OF _ _ _ e[symmetric]] 1(2)
    by (subst (asm) stringLoop.simps) (auto simp: e split: if_splits)
qed

lemma charBody_error: "fst (charBody start s) = Inl t \<Longrightarrow> tk_kind t = Error"
  by (auto simp: charBody_def split: if_splits prod.splits option.splits)

lemma interpolationLoop_result:
  "interpolationLoop triple raw start parts literal ls s = (Inl t, s') \<Longrightarrow> tk_kind t = Error"
  using interpolationLoop_error[of triple raw start parts literal ls s t] by simp

lemma charBody_result: "charBody start s = (Inl t, s') \<Longrightarrow> tk_kind t = Error"
  using charBody_error[of start s t] by simp

lemma stringLoop_result: "stringLoop start v s = (Inl t, s') \<Longrightarrow> tk_kind t = Error"
  using stringLoop_error[of start v s t] by simp

lemma lexInterpolated_kind: "tk_kind (fst (lexInterpolated i start s)) \<in> {Error, InterpolatedString}"
  by (simp add: lexInterpolated_def Let_def interpolationLoop_result split: prod.split sum.split)

lemma lexIdentifierOrKeyword_raw: "rawKind (tk_kind (fst (lexIdentifierOrKeyword s)))"
proof -
  obtain acc s1 where i: "identLoop False [] s = (acc, s1)" by fastforce
  show ?thesis using lexInterpolated_kind[of acc "curPos s" s1] keyword_kinds[of acc]
    by (auto simp: lexIdentifierOrKeyword_def Let_def i rawKind_def layoutKinds_def split: option.split)
qed

lemma lexOperator_raw: "rawKind (tk_kind (fst (lexOperator s)))"
  using reservedOperator_raw by (simp add: lexOperator_def Let_def split: prod.split)

lemma lexBackquoted_raw: "rawKind (tk_kind (fst (lexBackquoted s)))"
  by (simp add: lexBackquoted_def Let_def rawKind_def layoutKinds_def split: prod.split)

lemma finishNumber_kind: "tk_kind (fst (finishNumber st b f d s)) \<in> {Error, IntLit, FloatLit}"
  by (simp add: finishNumber_def Let_def split: prod.split)

lemma lexNumber_kind: "tk_kind (fst (lexNumber s)) \<in> {Error, IntLit, FloatLit}"
  using finishNumber_kind by (auto simp: lexNumber_def Let_def split: prod.split option.split)

lemma lexChar_kind: "tk_kind (fst (lexChar s)) \<in> {Error, CharLit}"
  by (simp add: lexChar_def Let_def charBody_result split: prod.split sum.split)

lemma lexString_kind: "tk_kind (fst (lexString s)) \<in> {Error, StringLit}"
  by (simp add: lexString_def Let_def stringLoop_result split: prod.split sum.split option.split)

lemma lexToken_raw: "rawKind (tk_kind (fst (lexToken s)))"
proof -
  have "rawKind (tk_kind (fst (lexNumber s)))" "rawKind (tk_kind (fst (lexChar s)))"
    "rawKind (tk_kind (fst (lexString s)))"
    using lexNumber_kind[of s] lexChar_kind[of s] lexString_kind[of s]
    by (auto simp: rawKind_def layoutKinds_def)
  moreover have "rawKind Dot" by (simp add: rawKind_def layoutKinds_def)
  ultimately show ?thesis
    using lexIdentifierOrKeyword_raw[of s] lexOperator_raw[of s] lexBackquoted_raw[of s]
      punctuation_raw[of "cur s"]
    by (cases "punctuation (cur s)") (simp_all add: lexToken_def Let_def)
qed

lemma skipTrivia_kind: "tk_kind (fst (skipTrivia s)) \<in> {Error, EndOfFile}"
proof (induction s rule: skipTrivia.induct)
  case (1 s)
  then show ?case by (subst skipTrivia.simps) (auto simp: nothingToReport_def)
qed

lemma lexNext_cases:
  obtains (ended) "lx_done s" "lexNext s = (defaultToken\<lparr>tk_kind := EndOfFile, tk_pos := curPos s\<rparr>, s)"
  | (error) tr s1 where "skipTrivia s = (tr, s1)" "tk_kind tr = Error" "lexNext s = (tr, s1\<lparr>lx_done := True\<rparr>)"
  | (finish) tr s1 s2 where "\<not> lx_done s" "skipTrivia s = (tr, s1)"
      "s2 = s1\<lparr>lx_pastBlankLine := pastBlankLine s1 (lx_pos s1)\<rparr>" "eof s2"
      "lexNext s = ((makeToken EndOfFile (curPos s2) [] s2)\<lparr>tk_firstOnLine := True\<rparr>, s2\<lparr>lx_done := True\<rparr>)"
  | (mixed) tr s1 s2 where "\<not> lx_done s" "skipTrivia s = (tr, s1)"
      "s2 = s1\<lparr>lx_pastBlankLine := pastBlankLine s1 (lx_pos s1)\<rparr>" "\<not> eof s2" "mixedIndentation s2"
      "lexNext s = (lexError ''indentation mixes tabs and spaces'' (curPos s2) False s2,
                    (noteIndentation s2)\<lparr>lx_done := True\<rparr>)"
  | (token) tr s1 s2 t s3 where "\<not> lx_done s" "skipTrivia s = (tr, s1)"
      "s2 = s1\<lparr>lx_pastBlankLine := pastBlankLine s1 (lx_pos s1)\<rparr>" "\<not> eof s2" "\<not> mixedIndentation s2"
      "lexToken (noteIndentation s2) = (t, s3)"
      "lexNext s = (t, s3\<lparr>lx_done := (tk_kind t = Error), lx_lastTokenLine := lx_line s2,
                          lx_lastTokenEnd := lx_pos s3\<rparr>)"
proof -
  obtain tr s1 where t: "skipTrivia s = (tr, s1)" by fastforce
  define s2 where "s2 = s1\<lparr>lx_pastBlankLine := pastBlankLine s1 (lx_pos s1)\<rparr>"
  obtain tk s3 where k: "lexToken (noteIndentation s2) = (tk, s3)" by fastforce
  note eq = lexNext_def[of s, unfolded t prod.case Let_def, folded s2_def, unfolded k prod.case]
  show thesis
  proof (cases "lx_done s")
    case True
    with eq show ?thesis by (intro ended) auto
  next
    case nd: False
    show ?thesis
    proof (cases "tk_kind tr = Error")
      case True
      with nd eq show ?thesis by (intro error[OF t]) auto
    next
      case False
      then show ?thesis
        using nd eq finish[OF nd t s2_def] mixed[OF nd t s2_def] token[OF nd t s2_def _ _ k]
        by (auto simp: curPos_def)
    qed
  qed
qed

lemma lexNext_kind: "tk_kind (fst (lexNext s)) \<notin> layoutKinds"
proof (cases s rule: lexNext_cases)
  case (token tr s1 s2 t s3)
  then show ?thesis using lexToken_raw[of "noteIndentation s2"] by (simp add: rawKind_def)
qed (simp_all add: layoutKinds_def)

lemma lexNext_eof_first:
  "\<not> lx_done s \<Longrightarrow> tk_kind (fst (lexNext s)) = EndOfFile \<Longrightarrow> tk_firstOnLine (fst (lexNext s))"
proof (cases s rule: lexNext_cases)
  case (token tr s1 s2 t s3)
  moreover assume "tk_kind (fst (lexNext s)) = EndOfFile"
  ultimately show ?thesis using lexToken_raw[of "noteIndentation s2"] by (simp add: rawKind_def)
qed simp_all

lemma lexNext_not_done:
  "\<not> terminalKind (tk_kind (fst (lexNext s))) \<Longrightarrow> \<not> lx_done (snd (lexNext s))"
  by (auto simp: lexNext_def Let_def terminalKind_def split: if_splits prod.splits)

subsection \<open>Lines\<close>

fun sourceLines :: "byte_string \<Rightarrow> byte_string list" where
  "sourceLines [] = [[]]"
| "sourceLines (c # cs) =
     (if c = NL then [] # sourceLines cs
      else case sourceLines cs of l # ls \<Rightarrow> (c # l) # ls | [] \<Rightarrow> [[c]])"

definition lineStats :: "byte_string \<Rightarrow> nat \<times> bool \<times> bool" where
  "lineStats l = (length (takeWhile isBlank l), TAB \<in> set (takeWhile isBlank l),
     CHR '' '' \<in> set (takeWhile isBlank l))"

lemma sourceLines_nonempty [simp]: "sourceLines cs \<noteq> []"
  by (induction cs) (auto split: list.split)

lemma length_sourceLines: "length (sourceLines cs) = Suc (count_list cs NL)"
  by (induction cs) (auto split: list.split)

lemma sourceLines_append: "NL \<notin> set l \<Longrightarrow> sourceLines (l @ NL # cs) = l # sourceLines cs"
  by (induction l) auto

lemma sourceLines_single: "NL \<notin> set l \<Longrightarrow> sourceLines l = [l]"
  by (induction l) auto

lemma isBlank_not_NL [simp]: "\<not> isBlank NL"
  by (simp add: isBlank_def)

lemma blank_prefix: "takeWhile isBlank (l @ NL # cs) = takeWhile isBlank l"
  by (induction l) auto

text \<open>The indentation table of the constructor is the table of the source's lines.\<close>

lemma computeLineIndents_lines: "computeLineIndents rest = map lineStats (sourceLines rest)"
proof (induction rest rule: computeLineIndents.induct)
  case (1 rest)
  define after where "after = dropWhile (\<lambda>c. c \<noteq> NL) (dropWhile isBlank rest)"
  define l where "l = takeWhile (\<lambda>c. c \<noteq> NL) rest"
  have blanks: "set (takeWhile isBlank rest) \<subseteq> {c. c \<noteq> NL}"
    by (auto dest!: set_takeWhileD)
  have "dropWhile (\<lambda>c. c \<noteq> NL) (takeWhile isBlank rest @ dropWhile isBlank rest)
      = dropWhile (\<lambda>c. c \<noteq> NL) (dropWhile isBlank rest)"
    using blanks by (subst dropWhile_append2) auto
  then have drop: "after = dropWhile (\<lambda>c. c \<noteq> NL) rest" by (simp add: after_def)
  then have rest: "rest = l @ after" by (simp add: l_def)
  have l: "NL \<notin> set l" by (auto simp: l_def dest: set_takeWhileD)
  have eq: "computeLineIndents rest = lineStats rest # (if after = [] then [] else computeLineIndents (tl after))"
    unfolding computeLineIndents.simps[of rest] after_def lineStats_def Let_def by (rule refl)
  show ?case
  proof (cases "after = []")
    case True
    then show ?thesis using eq rest l sourceLines_single[OF l] by simp
  next
    case False
    then have "hd after = NL"
      using hd_dropWhile[of "\<lambda>c. c \<noteq> NL" rest] unfolding drop by blast
    then have hd: "after = NL # tl after" using False by (metis list.collapse)
    have "computeLineIndents (tl after) = map lineStats (sourceLines (tl after))"
      using 1[OF refl after_def False] .
    moreover have "lineStats rest = lineStats l"
      using rest hd blank_prefix[of l "tl after"] unfolding lineStats_def by metis
    moreover have "sourceLines rest = l # sourceLines (tl after)"
      using rest hd sourceLines_append[OF l, of "tl after"] by metis
    ultimately show ?thesis using eq False by simp
  qed
qed

subsection \<open>The cursor invariant\<close>

definition lexInv :: "Lexer \<Rightarrow> bool" where
  "lexInv s \<longleftrightarrow> lx_pos s \<le> length (lx_source s) \<and>
     lx_line s = Suc (count_list (take (lx_pos s) (lx_source s)) NL) \<and>
     lx_lineIndent s = map (fst \<circ> lineStats) (sourceLines (lx_source s)) \<and>
     lx_lineHasTab s = map (fst \<circ> snd \<circ> lineStats) (sourceLines (lx_source s)) \<and>
     lx_lineHasSpace s = map (snd \<circ> snd \<circ> lineStats) (sourceLines (lx_source s))"

lemma count_take_le: "count_list (take n xs) c \<le> count_list xs c"
  by (metis append_take_drop_id count_list_append le_add1)

lemma lexInv_line: "lexInv s \<Longrightarrow> 1 \<le> lx_line s \<and> lx_line s \<le> length (lx_lineIndent s)"
  using count_take_le[of "lx_pos s" "lx_source s" NL] by (simp add: lexInv_def length_sourceLines)

lemma line_advance:
  "lx_line (advance s) = (if \<not> eof s \<and> lx_source s ! lx_pos s = NL then Suc (lx_line s) else lx_line s)"
  by (simp add: advance_def Let_def)

lemma lexInv_advance: "lexInv s \<Longrightarrow> lexInv (advance s)"
  by (auto simp: lexInv_def pos_advance line_advance eof_def take_Suc_conv_app_nth)

lemma lexInv_moves: "moves s s' \<Longrightarrow> lexInv s \<Longrightarrow> lexInv s'"
  by (induction rule: moves_induct) (auto simp: lexInv_advance)

lemma lexInv_newLexer: "lexInv (newLexer src)"
proof -
  define src' where "src' = stripBom src"
  have "count_list (take (length (takeWhile (\<lambda>c. c \<noteq> NL) src')) src') NL = 0"
    by (metis (mono_tags, lifting) count_notin set_takeWhileD takeWhile_eq_take)
  moreover have "length (takeWhile (\<lambda>c. c \<noteq> NL) src') \<le> length src'" by (rule length_takeWhile_le)
  ultimately show ?thesis
    by (simp add: lexInv_def newLexer_def Let_def src'_def[symmetric] computeLineIndents_lines)
qed

lemma lexInv_update [simp]:
  "lexInv (s\<lparr>lx_done := d\<rparr>) = lexInv s" "lexInv (s\<lparr>lx_pastBlankLine := b\<rparr>) = lexInv s"
  "lexInv (s\<lparr>lx_lastTokenLine := l\<rparr>) = lexInv s" "lexInv (s\<lparr>lx_lastTokenEnd := n\<rparr>) = lexInv s"
  by (simp_all add: lexInv_def)

lemma noteIndentation_tables [simp]:
  "lx_lineHasTab (noteIndentation s) = lx_lineHasTab s" "lx_lineHasSpace (noteIndentation s) = lx_lineHasSpace s"
  by (simp_all add: noteIndentation_def)

lemma lexInv_noteIndentation [simp]: "lexInv (noteIndentation s) = lexInv s"
  by (simp add: lexInv_def)

lemma skipTrivia_inv: "lexInv s \<Longrightarrow> skipTrivia s = (tr, s1) \<Longrightarrow> lexInv s1"
  using lexInv_moves[OF trivia.scan_movesD] by blast

lemma lexToken_inv: "lexInv s \<Longrightarrow> lexToken s = (t, s1) \<Longrightarrow> lexInv s1"
  using lexInv_moves[OF tokens.scan_movesD] by blast

lemma lexNext_inv: "lexInv s \<Longrightarrow> lexInv (snd (lexNext s))"
proof (cases s rule: lexNext_cases)
  case (token tr s1 s2 t s3)
  moreover assume "lexInv s"
  ultimately have "lexInv s3"
    using skipTrivia_inv lexToken_inv[of "noteIndentation s2" t s3] by simp
  then show ?thesis using token by simp
qed (auto dest: skipTrivia_inv)

subsection \<open>What every token records of its place\<close>

definition headed :: "Lexer \<Rightarrow> Token \<Rightarrow> bool" where
  "headed s t \<longleftrightarrow> tk_pos t = curPos s \<and> tk_lineIndent t = lx_lineIndent s ! (lx_line s - 1) \<and>
     tk_firstOnLine t = (lx_line s \<noteq> lx_lastTokenLine s)"

lemma headed_makeToken: "moves s s' \<Longrightarrow> headed s (makeToken k (curPos s) acc s')"
  by (simp add: headed_def makeToken_def moves_fields curPos_def)

lemma headed_update [simp]:
  "headed s (t\<lparr>tk_isOperator := a\<rparr>) = headed s t" "headed s (t\<lparr>tk_backquoted := a\<rparr>) = headed s t"
  "headed s (t\<lparr>tk_digits := d\<rparr>) = headed s t" "headed s (t\<lparr>tk_base := n\<rparr>) = headed s t"
  "headed s (t\<lparr>tk_fitsLong := a\<rparr>) = headed s t" "headed s (t\<lparr>tk_intValue := i\<rparr>) = headed s t"
  "headed s (t\<lparr>tk_floatValue := d\<rparr>) = headed s t" "headed s (t\<lparr>tk_charValue := n\<rparr>) = headed s t"
  "headed s (t\<lparr>tk_stringValue := d\<rparr>) = headed s t" "headed s (t\<lparr>tk_parts := ps\<rparr>) = headed s t"
  by (simp_all add: headed_def)

lemma lexInterpolated_headed:
  assumes "moves s s0" "tk_kind (fst (lexInterpolated i (curPos s) s0)) \<noteq> Error"
  shows "headed s (fst (lexInterpolated i (curPos s) s0))"
proof -
  define s1 where "s1 = advance s0"
  define triple where "triple \<longleftrightarrow> cur s1 = DQUOTE \<and> peekChar s1 1 = DQUOTE"
  define s2 where "s2 = (if triple then advance (advance s1) else s1)"
  obtain r s3 where l: "interpolationLoop triple (i = ''raw'') (curPos s) [] [] (curPos s2) s2 = (r, s3)"
    by fastforce
  have "moves s0 s2" unfolding s2_def s1_def by (auto intro: moves_advance_left)
  then have m: "moves s s3" using assms(1) interpolation.scan_movesD[OF l] by (blast intro: moves_trans)
  have eq: "lexInterpolated i (curPos s) s0 = (case r of Inl t \<Rightarrow> (t, s3)
      | Inr parts \<Rightarrow> ((makeToken InterpolatedString (curPos s) i s3)\<lparr>tk_parts := parts\<rparr>, s3))"
    unfolding lexInterpolated_def Let_def s1_def[symmetric] triple_def[symmetric] s2_def[symmetric] l
    by (simp split: sum.split)
  show ?thesis using assms(2) interpolationLoop_result[of triple "i = ''raw''"] l
    by (cases r) (simp_all add: eq headed_makeToken[OF m])
qed

lemma lexIdentifier_headed:
  "tk_kind (fst (lexIdentifierOrKeyword s)) \<noteq> Error \<Longrightarrow> headed s (fst (lexIdentifierOrKeyword s))"
proof -
  assume k: "tk_kind (fst (lexIdentifierOrKeyword s)) \<noteq> Error"
  obtain acc s1 where i: "identLoop False [] s = (acc, s1)" by fastforce
  note m = ident_loop.scan_movesD[OF i]
  show ?thesis using k lexInterpolated_headed[OF m, of acc]
    by (auto simp: lexIdentifierOrKeyword_def Let_def i headed_makeToken[OF m] split: option.split if_splits)
qed

lemma lexOperator_headed: "headed s (fst (lexOperator s))"
  by (auto simp: lexOperator_def Let_def split: prod.split
      intro: headed_makeToken dest: operator_loop.scan_movesD)

lemma lexBackquoted_headed:
  "tk_kind (fst (lexBackquoted s)) \<noteq> Error \<Longrightarrow> headed s (fst (lexBackquoted s))"
  by (auto simp: lexBackquoted_def Let_def split: prod.splits if_splits
      intro!: headed_makeToken moves_trans[OF _ moves_advance] intro: moves_advance_left
      dest!: collect.scan_movesD)

lemma lexChar_headed: "tk_kind (fst (lexChar s)) \<noteq> Error \<Longrightarrow> headed s (fst (lexChar s))"
  by (auto simp: lexChar_def Let_def split: prod.splits if_splits sum.splits
      intro!: headed_makeToken moves_trans[OF _ moves_advance] intro: moves_advance_left
      dest!: char_body.scan_movesD charBody_result)

lemma lexString_headed: "tk_kind (fst (lexString s)) \<noteq> Error \<Longrightarrow> headed s (fst (lexString s))"
  by (auto simp: lexString_def Let_def split: prod.splits if_splits sum.splits option.splits
      intro!: headed_makeToken intro: moves_advance_left
      dest: triple_loop.scan_movesD string_loop.scan_movesD dest: stringLoop_result)

lemma finishNumber_headed:
  assumes "moves s s0" "tk_kind (fst (finishNumber (curPos s) base f digits s0)) \<noteq> Error"
  shows "headed s (fst (finishNumber (curPos s) base f digits s0))"
proof -
  obtain r s1 where n: "numberSuffix (base = 10) s0 = (r, s1)" by fastforce
  have "moves s s1" by (rule moves_trans[OF assms(1) suffixes.scan_movesD[OF n]])
  then have "headed s (makeToken k (curPos s) acc s1)" "headed s (makeToken k (curPos s) acc (advance s1))" for k acc
    by (auto intro: headed_makeToken moves_trans[OF _ moves_advance])
  then show ?thesis using assms(2) n by (auto simp: finishNumber_def Let_def split: if_splits)
qed

lemma lexNumber_headed: "tk_kind (fst (lexNumber s)) \<noteq> Error \<Longrightarrow> headed s (fst (lexNumber s))"
proof -
  assume k: "tk_kind (fst (lexNumber s)) \<noteq> Error"
  obtain base s1 where p: "numberPrefix s = (Some base, s1)"
    using k by (cases "numberPrefix s") (auto simp: lexNumber_def Let_def split: option.splits)
  obtain digits und s2 where d: "digitLoop (isBaseDigit base) [] False s1 = ((digits, und), s2)"
    by (metis prod.exhaust)
  obtain isFrac d1 und1 s3 where f: "numberFraction digits s2 = ((isFrac, d1, und1), s3)"
    by (metis prod.exhaust)
  obtain isExp d2 und2 s4 where e: "numberExponent d1 s3 = ((isExp, d2, und2), s4)"
    by (metis prod.exhaust)
  have m: "moves s s2" "moves s s4"
    using prefixes.scan_movesD[OF p] digit_loop.scan_movesD[OF d] fractions.scan_movesD[OF f]
      exponents.scan_movesD[OF e] by (meson moves_trans)+
  show ?thesis
  proof (cases "base = 10")
    case True
    show ?thesis using k finishNumber_headed[OF m(2)]
      by (auto simp: lexNumber_def Let_def p True d[unfolded True] f e split: if_splits)
  next
    case False
    then show ?thesis using k finishNumber_headed[OF m(1)]
      by (auto simp: lexNumber_def Let_def p d split: if_splits)
  qed
qed

lemma lexToken_headed: "tk_kind (fst (lexToken s)) \<noteq> Error \<Longrightarrow> headed s (fst (lexToken s))"
  using lexBackquoted_headed[of s] lexChar_headed[of s] lexString_headed[of s] lexOperator_headed[of s]
    lexIdentifier_headed[of s] lexNumber_headed[of s] headed_makeToken[OF moves_advance, of s]
  by (cases "punctuation (cur s)") (auto simp: lexToken_def Let_def split: if_splits)

subsection \<open>From one token to the stream\<close>

lemma tokenizeFrom_all:
  assumes "good s" "\<And>s. good s \<Longrightarrow> P (fst (lexNext s))"
    and "\<And>s. good s \<Longrightarrow> \<not> terminalKind (tk_kind (fst (lexNext s))) \<Longrightarrow> good (snd (lexNext s))"
  shows "list_all P (tokenizeFrom s)"
  using assms(1)
proof (induction s rule: tokenizeFrom.induct)
  case (1 s)
  then show ?case using assms(2,3)[of s] by (subst tokenizeFrom.simps) simp
qed

lemma tokenizeFrom_nonempty [simp]: "tokenizeFrom s \<noteq> []"
  by (subst tokenizeFrom.simps) simp

lemma tokenizeFrom_butlast: "list_all (\<lambda>t. \<not> terminalKind (tk_kind t)) (butlast (tokenizeFrom s))"
proof (induction s rule: tokenizeFrom.induct)
  case (1 s)
  then show ?case by (subst tokenizeFrom.simps) simp
qed

lemma tokenizeFrom_last: "terminalKind (tk_kind (last (tokenizeFrom s)))"
proof (induction s rule: tokenizeFrom.induct)
  case (1 s)
  then show ?case by (subst tokenizeFrom.simps) simp
qed

definition eofFirst :: "Token \<Rightarrow> bool" where
  "eofFirst t \<longleftrightarrow> (tk_kind t = EndOfFile \<longrightarrow> tk_firstOnLine t)"

lemma tokenizeFrom_eofFirst: "\<not> lx_done s \<Longrightarrow> list_all eofFirst (tokenizeFrom s)"
  by (rule tokenizeFrom_all[where good = "\<lambda>s. \<not> lx_done s"])
     (auto simp: eofFirst_def lexNext_eof_first lexNext_not_done)

lemma newLexer_not_done [simp]: "\<not> lx_done (newLexer src)"
  by (simp add: newLexer_def Let_def)

lemma tokenizeFrom_kinds: "list_all (\<lambda>t. tk_kind t \<notin> layoutKinds) (tokenizeFrom s)"
  by (rule tokenizeFrom_all[where good = "\<lambda>_. True"]) (auto simp: lexNext_kind)

text \<open>
  The raw stream of any source text is a non-empty list of which the last token, and no
  other, is an end-of-file or an error token; an end-of-file token is marked as the first of its
  line, and none of the kinds reserved to the layout pass occurs.
\<close>

theorem tokenizeAll_shape:
  "tokenizeAll source \<noteq> [] \<and>
   list_all (\<lambda>t. \<not> terminalKind (tk_kind t) \<and> tk_kind t \<notin> layoutKinds) (butlast (tokenizeAll source)) \<and>
   (tk_kind (last (tokenizeAll source)) = Error \<or>
    tk_kind (last (tokenizeAll source)) = EndOfFile \<and> tk_firstOnLine (last (tokenizeAll source)))"
proof -
  let ?ts = "tokenizeFrom (newLexer source)"
  have "list_all (\<lambda>t. tk_kind t \<notin> layoutKinds) (butlast ?ts)"
    using tokenizeFrom_kinds by (auto simp: list_all_iff dest: in_set_butlastD)
  moreover have "eofFirst (last ?ts)"
    using tokenizeFrom_eofFirst[of "newLexer source"] by (simp add: list_all_iff)
  ultimately show ?thesis
    using tokenizeFrom_butlast[of "newLexer source"] tokenizeFrom_last[of "newLexer source"]
    by (auto simp: tokenizeAll_def list_all_iff terminalKind_def eofFirst_def)
qed

subsection \<open>Lines and indentation of the stream\<close>

definition placed :: "byte_string \<Rightarrow> Token \<Rightarrow> bool" where
  "placed src t \<longleftrightarrow>
     (let line = sp_line (tk_pos t) in
      1 \<le> line \<and> line \<le> length (sourceLines src) \<and>
      tk_lineIndent t = length (takeWhile isBlank (sourceLines src ! (line - 1))))"

lemma headed_placed: "lexInv s \<Longrightarrow> headed s t \<Longrightarrow> placed (lx_source s) t"
  using lexInv_line[of s] by (simp add: headed_def placed_def lexInv_def curPos_def lineStats_def)

lemma skipTrivia_source: "skipTrivia s = (tr, s1) \<Longrightarrow> lx_source s1 = lx_source s"
  by (rule trivia.scan_source)

lemma lexNext_placed:
  assumes "lexInv s" "\<not> lx_done s" "tk_kind (fst (lexNext s)) \<noteq> Error"
  shows "placed (lx_source s) (fst (lexNext s))"
proof (cases s rule: lexNext_cases)
  case (token tr s1 s2 t s3)
  have "lexInv (noteIndentation s2)" using token skipTrivia_inv[OF assms(1)] by simp
  moreover have "headed (noteIndentation s2) t"
    using lexToken_headed[of "noteIndentation s2"] token assms(3) by simp
  ultimately show ?thesis
    using headed_placed[of "noteIndentation s2" t] token(3,7) skipTrivia_source[OF token(2)] by simp
next
  case (finish tr s1 s2)
  have "lexInv s2" using finish skipTrivia_inv[OF assms(1)] by simp
  moreover have "placed src (t\<lparr>tk_firstOnLine := b\<rparr>) = placed src t" for src t b
    by (simp add: placed_def Let_def)
  ultimately show ?thesis
    using headed_placed[OF _ headed_makeToken[OF moves_refl], of s2] finish(3,5)
      skipTrivia_source[OF finish(2)] by simp
qed (use assms in auto)

lemma lexNext_source: "lx_source (snd (lexNext s)) = lx_source s"
proof (cases s rule: lexNext_cases)
  case (token tr s1 s2 t s3)
  then show ?thesis using tokens.scan_source[OF token(6)] skipTrivia_source[OF token(2)] by simp
qed (auto dest: skipTrivia_source)

text \<open>
  Every token of the stream that is not a lexical error starts on an existing line of the
  source (without its byte-order mark), and the indentation it records is the width of the
  leading blanks of exactly that line.
\<close>

theorem tokenizeAll_placed:
  "list_all (\<lambda>t. tk_kind t = Error \<or> placed (stripBom source) t) (tokenizeAll source)"
  unfolding tokenizeAll_def
proof (rule tokenizeFrom_all[where good = "\<lambda>s. lexInv s \<and> \<not> lx_done s \<and> lx_source s = stripBom source"])
  show "lexInv (newLexer source) \<and> \<not> lx_done (newLexer source) \<and> lx_source (newLexer source) = stripBom source"
    using lexInv_newLexer by (simp add: newLexer_def Let_def)
next
  fix s
  assume inv: "lexInv s \<and> \<not> lx_done s \<and> lx_source s = stripBom source"
  then show "tk_kind (fst (lexNext s)) = Error \<or> placed (stripBom source) (fst (lexNext s))"
    using lexNext_placed[of s] by auto
  assume "\<not> terminalKind (tk_kind (fst (lexNext s)))"
  with inv show "lexInv (snd (lexNext s)) \<and> \<not> lx_done (snd (lexNext s)) \<and>
      lx_source (snd (lexNext s)) = stripBom source"
    by (simp add: lexNext_inv lexNext_not_done lexNext_source)
qed

subsection \<open>The text of a token is its stretch of the source\<close>

definition stretch :: "nat \<Rightarrow> nat \<Rightarrow> byte_string \<Rightarrow> byte_string" where
  "stretch p q src = take (q - p) (drop p src)"

lemma stretch_empty [simp]: "stretch p p src = []"
  by (simp add: stretch_def)

lemma stretch_append:
  assumes "p \<le> q" "q \<le> r"
  shows "stretch p q src @ stretch q r src = stretch p r src"
proof -
  have "take (q - p) (drop p src) @ take (r - q) (drop (q - p) (drop p src)) = take ((q - p) + (r - q)) (drop p src)"
    by (rule take_add[symmetric])
  then show ?thesis using assms by (simp add: stretch_def)
qed

lemma stretch_cur: "\<not> eof s \<Longrightarrow> stretch (lx_pos s) (lx_pos (advance s)) (lx_source s) = [cur s]"
  by (simp add: stretch_def pos_advance cur_def eof_def take_Suc_conv_app_nth)

text \<open>One step of a collecting loop extends the stretch read so far.\<close>

lemma stretch_step:
  assumes "\<not> eof s" "lx_pos (advance s) \<le> p" "r = (acc @ [cur s]) @ stretch (lx_pos (advance s)) p (lx_source s)"
  shows "r = acc @ stretch (lx_pos s) p (lx_source s)"
  using assms stretch_append[of "lx_pos s" "lx_pos (advance s)" p "lx_source s"] stretch_cur[OF assms(1)]
  by (simp add: pos_advance)

lemma collectWhile_stretch:
  "collectWhile P acc s = (r, s') \<Longrightarrow> r = acc @ stretch (lx_pos s) (lx_pos s') (lx_source s)"
proof (induction P acc s rule: collectWhile.induct)
  case (1 P acc s)
  show ?case
  proof (cases "\<not> eof s \<and> P (cur s)")
    case True
    then have c: "collectWhile P (acc @ [cur s]) (advance s) = (r, s')"
      using 1(2) by (simp add: collectWhile.simps[of P acc s])
    show ?thesis using 1(1)[OF True c] True collect.scan_pos[OF c]
      by (intro stretch_step) simp_all
  next
    case False
    then show ?thesis using 1(2) by (auto simp: collectWhile.simps[of P acc s] split: if_splits)
  qed
qed

lemma operatorLoop_stretch:
  "operatorLoop acc s = (r, s') \<Longrightarrow> r = acc @ stretch (lx_pos s) (lx_pos s') (lx_source s)"
proof (induction acc s rule: operatorLoop.induct)
  case (1 acc s)
  show ?case
  proof (cases "\<not> eof s \<and> isOpChar (cur s) \<and> \<not> (acc \<noteq> [] \<and> cur s = CHR ''/'' \<and>
      (peekChar s 1 = CHR ''/'' \<or> peekChar s 1 = CHR ''*''))")
    case True
    then have c: "operatorLoop (acc @ [cur s]) (advance s) = (r, s')"
      using 1(2) by (subst (asm) operatorLoop.simps) (simp split: if_splits)
    show ?thesis using 1(1)[OF _ _ c] True operator_loop.scan_pos[OF c]
      by (intro stretch_step) simp_all
  next
    case False
    then show ?thesis using 1(2) by (subst (asm) operatorLoop.simps) (auto split: if_splits)
  qed
qed

lemma identLoop_stretch:
  "identLoop u acc s = (r, s') \<Longrightarrow> r = acc @ stretch (lx_pos s) (lx_pos s') (lx_source s)"
proof (induction u acc s rule: identLoop.induct)
  case (1 u acc s)
  let ?n = "identCharLength s (lx_pos s)"
  let ?s1 = "(advance ^^ ?n) s"
  let ?acc = "acc @ take ?n (drop (lx_pos s) (lx_source s))"
  consider (stop) "eof s \<or> (\<not> (u \<and> isOpChar (cur s)) \<and> ?n = 0)"
    | (ops) "\<not> eof s" "u \<and> isOpChar (cur s)"
    | (step) "\<not> eof s" "\<not> (u \<and> isOpChar (cur s))" "?n \<noteq> 0" by blast
  then show ?case
  proof cases
    case stop
    then show ?thesis using 1(2) by (auto simp: identLoop.simps[of u acc s] split: if_splits)
  next
    case ops
    then have "collectWhile isOpChar acc s = (r, s')"
      using 1(2) by (subst (asm) identLoop.simps) simp
    then show ?thesis by (rule collectWhile_stretch)
  next
    case step
    then have c: "identLoop (cur s = CHR ''_'' \<and> acc \<noteq> []) ?acc ?s1 = (r, s')"
      using 1(2) by (auto simp: identLoop.simps[of u acc s])
    have pos: "lx_pos ?s1 = lx_pos s + ?n"
      using pos_funpow_advance[of s ?n] identCharLength_bound[of s "lx_pos s"] step(1)
      by (simp add: eof_def)
    have "r = ?acc @ stretch (lx_pos ?s1) (lx_pos s') (lx_source s)"
      using 1(1)[OF step c] by (simp add: moves_fields(1)[OF moves_funpow])
    moreover have "lx_pos ?s1 \<le> lx_pos s'" by (rule ident_loop.scan_pos[OF c])
    ultimately show ?thesis
      using stretch_append[of "lx_pos s" "lx_pos ?s1" "lx_pos s'" "lx_source s"] pos
      by (simp add: stretch_def)
  qed
qed

text \<open>Tokens that are spelled in the source exactly as their text.\<close>

definition plainToken :: "Token \<Rightarrow> bool" where
  "plainToken t \<longleftrightarrow>
     tk_kind t \<notin> {IntLit, FloatLit, CharLit, StringLit, InterpolatedString, EndOfFile, Error} \<and>
     \<not> tk_backquoted t"

lemma backquoted_makeToken [simp]: "\<not> tk_backquoted (makeToken k p acc s)"
  by (simp add: makeToken_def defaultToken_def)

lemma text_makeToken [simp]: "tk_text (makeToken k p acc s) = acc"
  by (simp add: makeToken_def)

lemma lexIdentifier_text:
  assumes "plainToken (fst (lexIdentifierOrKeyword s))"
  shows "tk_text (fst (lexIdentifierOrKeyword s)) =
    stretch (lx_pos s) (lx_pos (snd (lexIdentifierOrKeyword s))) (lx_source s)"
proof -
  obtain acc s1 where i: "identLoop False [] s = (acc, s1)" by fastforce
  have "\<not> plainToken (fst (lexInterpolated acc (curPos s) s1))"
    using lexInterpolated_kind[of acc "curPos s" s1] by (auto simp: plainToken_def)
  then show ?thesis using assms identLoop_stretch[OF i]
    by (auto simp: lexIdentifierOrKeyword_def Let_def i split: option.splits if_splits)
qed

lemma lexOperator_text:
  "tk_text (fst (lexOperator s)) = stretch (lx_pos s) (lx_pos (snd (lexOperator s))) (lx_source s)"
  using operatorLoop_stretch[of "[]" s] by (auto simp: lexOperator_def Let_def split: prod.split)

lemma lexBackquoted_plain: "\<not> plainToken (fst (lexBackquoted s))"
  by (auto simp: plainToken_def lexBackquoted_def Let_def split: prod.split)

lemma lexToken_text:
  assumes "plainToken (fst (lexToken s))" "\<not> eof s"
  shows "tk_text (fst (lexToken s)) = stretch (lx_pos s) (lx_pos (snd (lexToken s))) (lx_source s)"
proof -
  have "\<not> plainToken (fst (lexNumber s))" "\<not> plainToken (fst (lexChar s))"
    "\<not> plainToken (fst (lexString s))"
    using lexNumber_kind[of s] lexChar_kind[of s] lexString_kind[of s] by (auto simp: plainToken_def)
  moreover have "\<not> plainToken (lexError m p e s)" for m p e by (simp add: plainToken_def)
  ultimately show ?thesis
    using assms lexIdentifier_text[of s] lexOperator_text[of s] lexBackquoted_plain[of s] stretch_cur[of s]
    by (auto simp: lexToken_def Let_def split: option.splits if_splits)
qed

text \<open>Where in the source, and on which line, a token's text stands.\<close>

definition spelledAt :: "byte_string \<Rightarrow> Token \<Rightarrow> nat \<Rightarrow> bool" where
  "spelledAt src t p \<longleftrightarrow>
     tk_text t \<noteq> [] \<and> p + length (tk_text t) \<le> length src \<and>
     take (length (tk_text t)) (drop p src) = tk_text t \<and>
     sp_line (tk_pos t) = Suc (count_list (take p src) NL)"

lemma lexToken_spelled:
  assumes "lexInv s" "\<not> eof s" "plainToken (fst (lexToken s))"
  shows "spelledAt (lx_source s) (fst (lexToken s)) (lx_pos s)"
proof -
  obtain t s1 where k: "lexToken s = (t, s1)" by fastforce
  have ne: "tk_kind t \<noteq> Error" using assms(3) k by (simp add: plainToken_def)
  have "moves (advance s) s1" using lexToken_from[OF assms(2)] k ne by simp
  then have less: "lx_pos s < lx_pos s1" using moves_pos[of "advance s" s1] assms(2) by (simp add: pos_advance)
  have "moves s s1" by (rule tokens.scan_movesD[OF k])
  then have le: "lx_pos s1 \<le> length (lx_source s)"
    using moves_pos_le[of s s1] assms(1) by (simp add: lexInv_def)
  have tx: "tk_text t = take (lx_pos s1 - lx_pos s) (drop (lx_pos s) (lx_source s))"
    using lexToken_text[OF assms(3,2)] k by (simp add: stretch_def)
  then have "length (tk_text t) = lx_pos s1 - lx_pos s" using le by simp
  moreover have "sp_line (tk_pos t) = lx_line s"
    using lexToken_headed[of s] k ne by (simp add: headed_def curPos_def)
  ultimately show ?thesis using k tx less le assms(1) by (auto simp: spelledAt_def lexInv_def)
qed

lemma lexNext_spelled:
  assumes "lexInv s" "plainToken (fst (lexNext s))"
  shows "\<exists>p. spelledAt (lx_source s) (fst (lexNext s)) p"
proof (cases s rule: lexNext_cases)
  case (token tr s1 s2 t s3)
  have "spelledAt (lx_source (noteIndentation s2)) t (lx_pos s2)"
    using lexToken_spelled[of "noteIndentation s2"] token assms skipTrivia_inv[OF assms(1) token(2)] by simp
  then show ?thesis using token(3,7) skipTrivia_source[OF token(2)] by auto
qed (use assms(2) in \<open>auto simp: plainToken_def\<close>)

text \<open>
  C18: every keyword, identifier, operator and punctuation token of the stream is spelled in the
  source exactly as its text, at an offset that lies on the line the token reports.  The one
  exception is the backquoted identifier, whose text lacks the quotes.
\<close>

theorem tokenizeAll_spelled:
  assumes "t \<in> set (tokenizeAll source)" "plainToken t"
  shows "\<exists>p. spelledAt (stripBom source) t p"
proof -
  have "list_all (\<lambda>t. plainToken t \<longrightarrow> (\<exists>p. spelledAt (stripBom source) t p)) (tokenizeFrom (newLexer source))"
  proof (rule tokenizeFrom_all[where good = "\<lambda>s. lexInv s \<and> lx_source s = stripBom source"])
    show "lexInv (newLexer source) \<and> lx_source (newLexer source) = stripBom source"
      using lexInv_newLexer by (simp add: newLexer_def Let_def)
  next
    fix s
    assume good: "lexInv s \<and> lx_source s = stripBom source"
    then show "plainToken (fst (lexNext s)) \<longrightarrow> (\<exists>p. spelledAt (stripBom source) (fst (lexNext s)) p)"
      using lexNext_spelled[of s] by auto
    show "lexInv (snd (lexNext s)) \<and> lx_source (snd (lexNext s)) = stripBom source"
      using good by (simp add: lexNext_inv lexNext_source)
  qed
  then show ?thesis using assms by (simp add: tokenizeAll_def list_all_iff)
qed

theorem tokenizeAll_spelled_witness:
  "\<exists>p. spelledAt (stripBom ''val x'') (hd (tokenizeAll ''val x'')) p"
proof (rule tokenizeAll_spelled)
  show "hd (tokenizeAll ''val x'') \<in> set (tokenizeAll ''val x'')"
    by (simp add: tokenizeAll_def)
  show "plainToken (hd (tokenizeAll ''val x''))"
    by code_simp
qed

subsection \<open>Integer literals\<close>

definition exactInt :: "Token \<Rightarrow> bool" where
  "exactInt t \<longleftrightarrow>
     tk_base t \<in> {2, 10, 16} \<and> list_all (isBaseDigit (tk_base t)) (tk_digits t) \<and>
     tk_fitsLong t = (strtollValue (tk_base t) (tk_digits t) < 2 ^ 63) \<and>
     tk_intValue t = (if tk_fitsLong t then int (strtollValue (tk_base t) (tk_digits t)) else 0)"

lemma digitLoop_digits:
  "list_all isDig digits \<Longrightarrow> digitLoop isDig digits u s = ((ds, und), s') \<Longrightarrow> list_all isDig ds"
proof (induction isDig digits u s rule: digitLoop.induct)
  case (1 isDig digits u s)
  show ?case
  proof (cases "\<not> eof s \<and> (isDig (cur s) \<or> cur s = CHR ''_'')")
    case True
    then show ?thesis using 1(1)[OF True] 1(2)[OF True] 1(3,4)
      by (subst (asm) (2) digitLoop.simps) (auto split: if_splits)
  next
    case False
    then show ?thesis using 1(3,4) by (subst (asm) digitLoop.simps) auto
  qed
qed

lemma finishNumber_exact:
  assumes "tk_kind (fst (finishNumber st base f digits s)) = IntLit"
    and "base \<in> {2, 10, 16}" "list_all (isBaseDigit base) digits"
  shows "exactInt (fst (finishNumber st base f digits s))"
  using assms
  by (auto simp: finishNumber_def Let_def exactInt_def maxLongLong_def makeToken_def defaultToken_def
      split: prod.splits if_splits)

lemma finishNumber_float: "tk_kind (fst (finishNumber st base True digits s)) \<noteq> IntLit"
  by (auto simp: finishNumber_def Let_def split: prod.splits)

lemma lexNumber_exact:
  assumes "tk_kind (fst (lexNumber s)) = IntLit"
  shows "exactInt (fst (lexNumber s))"
proof -
  obtain base s1 where p: "numberPrefix s = (Some base, s1)"
    using assms by (cases "numberPrefix s") (auto simp: lexNumber_def Let_def split: option.splits)
  then have base: "base \<in> {2, 10, 16}" by (auto simp: numberPrefix_def split: if_splits)
  obtain digits und s2 where d: "digitLoop (isBaseDigit base) [] False s1 = ((digits, und), s2)"
    by (metis prod.exhaust)
  have ds: "list_all (isBaseDigit base) digits" by (rule digitLoop_digits[OF _ d]) simp
  obtain isFrac d1 und1 s3 where f: "numberFraction digits s2 = ((isFrac, d1, und1), s3)"
    by (metis prod.exhaust)
  obtain isExp d2 und2 s4 where e: "numberExponent d1 s3 = ((isExp, d2, und2), s4)"
    by (metis prod.exhaust)
  have same: "\<not> isFrac \<Longrightarrow> d1 = digits" "\<not> isExp \<Longrightarrow> d2 = d1"
    using f e by (auto simp: numberFraction_def numberExponent_def Let_def split: if_splits prod.splits)
  show ?thesis
  proof (cases "base = 10")
    case False
    then have "fst (lexNumber s) = fst (finishNumber (curPos s) base False digits s2)"
      using assms by (auto simp: lexNumber_def Let_def p d)
    then show ?thesis using finishNumber_exact[OF _ base ds] assms by simp
  next
    case True
    then have eq: "fst (lexNumber s) = fst (finishNumber (curPos s) base (isFrac \<or> isExp) d2 s4)"
      using assms by (auto simp: lexNumber_def Let_def p d[unfolded True] f e)
    then have "\<not> (isFrac \<or> isExp)" using assms finishNumber_float[of "curPos s" base d2 s4] by auto
    then show ?thesis using eq finishNumber_exact[OF _ base ds] assms same by simp
  qed
qed

lemma map_of_keyword: "map_of keywordTable w = Some k \<Longrightarrow> take 2 (tokenKindName k) = ''Kw''"
  by (rule keyword_name) (force dest: map_of_SomeD)

lemma lexToken_exact:
  assumes "tk_kind (fst (lexToken s)) = IntLit"
  shows "exactInt (fst (lexToken s))"
proof -
  have "tk_kind (fst (lexInterpolated i st s')) \<noteq> IntLit" for i st s'
    using lexInterpolated_kind[of i st s'] by auto
  then have "tk_kind (fst (lexIdentifierOrKeyword s)) \<noteq> IntLit" "tk_kind (fst (lexOperator s)) \<noteq> IntLit"
    "tk_kind (fst (lexBackquoted s)) \<noteq> IntLit" "punctuation (cur s) \<noteq> Some IntLit"
    by (auto simp: lexIdentifierOrKeyword_def lexOperator_def reservedOperator_def lexBackquoted_def
        Let_def punctuation_def dest: map_of_keyword split: prod.split option.split if_splits)
  moreover have "tk_kind (fst (lexChar s)) \<noteq> IntLit" "tk_kind (fst (lexString s)) \<noteq> IntLit"
    using lexChar_kind[of s] lexString_kind[of s] by auto
  ultimately show ?thesis using assms lexNumber_exact[of s]
    by (cases "punctuation (cur s)") (auto simp: lexToken_def Let_def split: if_splits)
qed

lemma lexNext_exact: "tk_kind (fst (lexNext s)) = IntLit \<Longrightarrow> exactInt (fst (lexNext s))"
proof (cases s rule: lexNext_cases)
  case (token tr s1 s2 t s3)
  moreover assume "tk_kind (fst (lexNext s)) = IntLit"
  ultimately show ?thesis using lexToken_exact[of "noteIndentation s2"] by simp
qed auto

text \<open>
  An integer literal carries the digits of its base, is flagged as fitting a signed 64-bit
  integer exactly when the number those digits denote is below $2^{63}$, and then carries that
  number; an out-of-range literal carries 0 and its digits.
\<close>

theorem tokenizeAll_exactInt:
  assumes "t \<in> set (tokenizeAll source)" "tk_kind t = IntLit"
  shows "exactInt t"
proof -
  have "list_all (\<lambda>t. tk_kind t = IntLit \<longrightarrow> exactInt t) (tokenizeFrom (newLexer source))"
    by (rule tokenizeFrom_all[where good = "\<lambda>_. True"]) (auto simp: lexNext_exact)
  then show ?thesis using assms by (simp add: tokenizeAll_def list_all_iff)
qed

theorem tokenizeAll_exactInt_witness:
  "exactInt (hd (tokenizeAll ''0x1F''))"
proof (rule tokenizeAll_exactInt)
  show "hd (tokenizeAll ''0x1F'') \<in> set (tokenizeAll ''0x1F'')"
    by (simp add: tokenizeAll_def)
  show "tk_kind (hd (tokenizeAll ''0x1F'')) = IntLit"
    by code_simp
qed

subsection \<open>Keywords\<close>

lemma operatorLoop_chars: "list_all isOpChar acc \<Longrightarrow> list_all isOpChar (fst (operatorLoop acc s))"
proof (induction acc s rule: operatorLoop.induct)
  case (1 acc s)
  then show ?case by (subst operatorLoop.simps) auto
qed

lemma operator_not_keyword: "list_all isOpChar w \<Longrightarrow> map_of keywordTable w = None"
  by (cases w) (auto simp: isOpChar_def isalpha_def byte_of_def intro: not_keyword_word)

definition keywordKind :: "byte_string \<Rightarrow> TokenKind \<Rightarrow> bool" where
  "keywordKind w k \<longleftrightarrow>
     map_of keywordTable w = (if k \<in> snd ` set keywordTable then Some k else None)"

lemma keywordKind_keyword: "map_of keywordTable w = Some k \<Longrightarrow> keywordKind w k"
  by (auto simp: keywordKind_def dest: map_of_SomeD intro: image_eqI[rotated])

lemma keywordKind_other:
  "take 2 (tokenKindName k) \<noteq> ''Kw'' \<Longrightarrow> map_of keywordTable w = None \<Longrightarrow> keywordKind w k"
  using keyword_name[of k] by (auto simp: keywordKind_def)

lemma lexIdentifier_keyword:
  assumes "plainToken (fst (lexIdentifierOrKeyword s))"
  shows "keywordKind (tk_text (fst (lexIdentifierOrKeyword s))) (tk_kind (fst (lexIdentifierOrKeyword s)))"
proof -
  obtain acc s1 where i: "identLoop False [] s = (acc, s1)" by fastforce
  have "\<not> plainToken (fst (lexInterpolated acc (curPos s) s1))"
    using lexInterpolated_kind[of acc "curPos s" s1] by (auto simp: plainToken_def)
  moreover have "keywordKind ''_'' Underscore"
    by (rule keywordKind_other) (simp_all add: not_keyword_word)
  moreover have "map_of keywordTable acc = None \<Longrightarrow> keywordKind acc Identifier"
    by (rule keywordKind_other) simp_all
  ultimately show ?thesis using assms keywordKind_keyword[of acc]
    by (auto simp: lexIdentifierOrKeyword_def Let_def i split: option.splits if_splits)
qed

lemma lexOperator_keyword: "keywordKind (tk_text (fst (lexOperator s))) (tk_kind (fst (lexOperator s)))"
proof -
  obtain acc s1 where l: "operatorLoop [] s = (acc, s1)" by fastforce
  have "map_of keywordTable acc = None"
    using operatorLoop_chars[of "[]" s] l by (simp add: operator_not_keyword)
  moreover have "take 2 (tokenKindName (reservedOperator acc)) \<noteq> ''Kw''"
    by (simp add: reservedOperator_def)
  ultimately show ?thesis using l by (simp add: lexOperator_def Let_def keywordKind_other)
qed

lemma punctuation_keyword: "punctuation c = Some k \<Longrightarrow> keywordKind [c] k"
  by (rule keywordKind_other) (auto simp: punctuation_def not_keyword_word split: if_splits)

lemma lexToken_keyword:
  assumes "plainToken (fst (lexToken s))"
  shows "keywordKind (tk_text (fst (lexToken s))) (tk_kind (fst (lexToken s)))"
proof -
  have "\<not> plainToken (fst (lexNumber s))" "\<not> plainToken (fst (lexChar s))"
    "\<not> plainToken (fst (lexString s))"
    using lexNumber_kind[of s] lexChar_kind[of s] lexString_kind[of s] by (auto simp: plainToken_def)
  moreover have "\<not> plainToken (lexError m p e s)" for m p e by (simp add: plainToken_def)
  moreover have "keywordKind ''.'' Dot" by (rule keywordKind_other) (simp_all add: not_keyword_word)
  ultimately show ?thesis
    using assms lexIdentifier_keyword[of s] lexOperator_keyword[of s] lexBackquoted_plain[of s]
      punctuation_keyword[of "cur s"]
    by (cases "punctuation (cur s)") (auto simp: lexToken_def Let_def split: if_splits)
qed

text \<open>
  Among the tokens spelled as their text, the spelling decides: a reserved word is always
  the keyword token of the keyword table, and no identifier, operator or punctuation token is
  spelled like one.
\<close>

theorem tokenizeAll_keywords:
  assumes "t \<in> set (tokenizeAll source)" "plainToken t"
  shows "keywordKind (tk_text t) (tk_kind t)"
proof -
  have "plainToken (fst (lexNext s)) \<Longrightarrow> keywordKind (tk_text (fst (lexNext s))) (tk_kind (fst (lexNext s)))" for s
  proof (cases s rule: lexNext_cases)
    case (token tr s1 s2 t s3)
    moreover assume "plainToken (fst (lexNext s))"
    ultimately show ?thesis using lexToken_keyword[of "noteIndentation s2"] by simp
  qed (auto simp: plainToken_def)
  then have "list_all (\<lambda>t. plainToken t \<longrightarrow> keywordKind (tk_text t) (tk_kind t)) (tokenizeFrom (newLexer source))"
    by (intro tokenizeFrom_all[where good = "\<lambda>_. True"]) auto
  then show ?thesis using assms by (simp add: tokenizeAll_def list_all_iff)
qed

theorem tokenizeAll_keywords_witness:
  "keywordKind (tk_text (hd (tokenizeAll ''yield''))) (tk_kind (hd (tokenizeAll ''yield'')))"
proof (rule tokenizeAll_keywords)
  show "hd (tokenizeAll ''yield'') \<in> set (tokenizeAll ''yield'')"
    by (simp add: tokenizeAll_def)
  show "plainToken (hd (tokenizeAll ''yield''))"
    by code_simp
qed

end
