(* ===== verification/Layout.thy ===== *)
theory Layout
  imports TokenStream
begin

text \<open>
  The offside rule (\<^verbatim>\<open>src/src/frontend/Layout.cpp\<close>): the pass that turns the raw token vector into
  one with \<^const>\<open>Newline\<close>, \<^const>\<open>Indent\<close>, \<^const>\<open>Outdent\<close> and \<^const>\<open>EndMarker\<close> tokens.  The
  fields of \<^verbatim>\<open>LayoutPass\<close> are the record \<open>LayoutPass\<close>; the vectors \<^verbatim>\<open>regions_\<close> and \<^verbatim>\<open>pending\<close>
  are lists whose head is the vector's \<^verbatim>\<open>back()\<close>; the index \<^verbatim>\<open>i\<close> into \<^verbatim>\<open>raw_\<close> is the suffix that
  starts at \<^verbatim>\<open>i\<close>, so \<^verbatim>\<open>raw_[i + 1]\<close> is the head of the rest.  A thrown \<^verbatim>\<open>LexError\<close> is the left
  summand of the result.
\<close>

subsection \<open>Regions and token classes\<close>

datatype RegionKind = TopLevel | Braces | Parens | Brackets | Indented

record Region =
  rg_kind :: RegionKind
  rg_width :: nat
  rg_widthKnown :: bool
  rg_opener :: TokenKind
  rg_condition :: bool
  rg_provisional :: bool
  rg_pending :: "TokenKind list"

record LexError =
  le_what :: byte_string
  le_pos :: SourcePos
  le_atEof :: bool

definition newRegion :: "RegionKind \<Rightarrow> nat \<Rightarrow> bool \<Rightarrow> TokenKind \<Rightarrow> bool \<Rightarrow> Region" where
  "newRegion k width known opener condition =
     \<lparr>rg_kind = k, rg_width = width, rg_widthKnown = known, rg_opener = opener,
      rg_condition = condition, rg_provisional = False, rg_pending = []\<rparr>"

definition canEndStatement :: "TokenKind \<Rightarrow> bool" where
  "canEndStatement k \<longleftrightarrow>
     k \<in> {IntLit, FloatLit, CharLit, StringLit, InterpolatedString, Identifier, KwThis, KwNull,
          KwTrue, KwFalse, KwReturn, KwType, Underscore, RParen, RBracket, RBrace, EndMarker,
          Outdent, KwGiven}"

definition canBeginStatement :: "TokenKind \<Rightarrow> bool" where
  "canBeginStatement k \<longleftrightarrow>
     k \<notin> {KwCatch, KwElse, KwExtends, KwFinally, KwMatch, KwWith, KwYield, KwThen, KwDo, Comma, Dot,
          Semicolon, Colon, ColonEol, Equals, Arrow, CtxArrow, TypeLambdaArrow, LeftArrow, Subtype,
          Supertype, Hash, LBracket, RParen, RBracket, RBrace, EndOfFile}"

definition opensRegion :: "TokenKind \<Rightarrow> bool" where
  "opensRegion k \<longleftrightarrow>
     k \<in> {Equals, Arrow, CtxArrow, LeftArrow, KwCatch, KwDo, KwElse, KwFinally, KwFor, KwIf, KwMatch,
          KwReturn, KwThen, KwThrow, KwTry, KwWhile, KwYield, KwWith, ColonEol}"

definition continuesStatement :: "TokenKind \<Rightarrow> bool" where
  "continuesStatement k \<longleftrightarrow> k \<in> {KwThen, KwElse, KwDo, KwCatch, KwFinally, KwYield, KwMatch}"

definition closesRegionOpenedBy :: "TokenKind \<Rightarrow> TokenKind \<Rightarrow> bool" where
  "closesRegionOpenedBy closer opener =
     (if closer = KwThen then opener = KwIf \<or> opener = RParen
      else if closer = KwElse then opener = KwThen \<or> opener = RParen
      else if closer = KwDo then opener = KwWhile \<or> opener = KwFor \<or> opener = RParen
      else if closer = KwYield then opener = KwFor \<or> opener = RParen \<or> opener = RBrace
      else if closer = KwCatch then opener = KwTry
      else if closer = KwFinally then opener = KwTry \<or> opener = KwCatch
      else False)"

definition isCloser :: "TokenKind \<Rightarrow> bool" where
  "isCloser k \<longleftrightarrow> k = RParen \<or> k = RBracket \<or> k = RBrace"

definition isEndDesignator :: "TokenKind \<Rightarrow> bool" where
  "isEndDesignator k \<longleftrightarrow>
     k \<in> {Identifier, KwIf, KwWhile, KwFor, KwMatch, KwTry, KwNew, KwThis, KwVal, KwGiven}"

definition isConditionKeyword :: "TokenKind \<Rightarrow> bool" where
  "isConditionKeyword k \<longleftrightarrow> k = KwIf \<or> k = KwWhile \<or> k = KwFor"

definition openerName :: "RegionKind \<Rightarrow> byte_string" where
  "openerName k =
     (case k of Parens \<Rightarrow> ''('' | Brackets \<Rightarrow> ''['' | Braces \<Rightarrow> ''{'' | _ \<Rightarrow> ''?'')"

definition tokenKindSpelling :: "TokenKind \<Rightarrow> byte_string" where
  "tokenKindSpelling k =
     (if k = KwThen then ''then''
      else if k = KwElse then ''else''
      else if k = KwDo then ''do''
      else if k = KwCatch then ''catch''
      else if k = KwFinally then ''finally''
      else if k = KwYield then ''yield''
      else if k = KwMatch then ''match''
      else ''?'')"

subsection \<open>The state of the pass\<close>

record LayoutPass =
  lp_out :: "Token list"
  lp_regions :: "Region list"
  lp_prevKind :: TokenKind
  lp_prevClosesCondition :: bool
  lp_extensionHeaderLine :: int

type_synonym layout_result = "LexError + LayoutPass"

definition backRegion :: "LayoutPass \<Rightarrow> Region" where
  "backRegion L = hd (lp_regions L)"

definition pushRegion :: "Region \<Rightarrow> LayoutPass \<Rightarrow> LayoutPass" where
  "pushRegion r L = L\<lparr>lp_regions := r # lp_regions L\<rparr>"

definition setBack :: "Region \<Rightarrow> LayoutPass \<Rightarrow> LayoutPass" where
  "setBack r L = L\<lparr>lp_regions := r # tl (lp_regions L)\<rparr>"

definition setPending :: "TokenKind list \<Rightarrow> LayoutPass \<Rightarrow> LayoutPass" where
  "setPending ks L = setBack ((backRegion L)\<lparr>rg_pending := ks\<rparr>) L"

definition synthToken :: "TokenKind \<Rightarrow> Token \<Rightarrow> Token" where
  "synthToken k at =
     defaultToken\<lparr>tk_kind := k, tk_pos := tk_pos at, tk_end := tk_pos at,
       tk_lineIndent := tk_lineIndent at\<rparr>"

definition synth :: "TokenKind \<Rightarrow> Token \<Rightarrow> LayoutPass \<Rightarrow> LayoutPass" where
  "synth k at L =
     (let L1 = (if k = Newline then setPending [] L else L)
      in L1\<lparr>lp_out := lp_out L1 @ [synthToken k at]\<rparr>)"

text \<open>
  The three loops that close indented regions, each emitting one \<^const>\<open>Outdent\<close> per region;
  \<open>stop\<close> is the loop's own part of the condition.
\<close>

fun popRegions :: "(Region \<Rightarrow> bool) \<Rightarrow> Token \<Rightarrow> Region list \<Rightarrow> Token list \<Rightarrow> Region list \<times> Token list" where
  "popRegions go t [] out = ([], out)"
| "popRegions go t (r # rs) out =
     (if rg_kind r = Indented \<and> go r then popRegions go t rs (out @ [synthToken Outdent t])
      else (r # rs, out))"

definition popIndented :: "(Region \<Rightarrow> bool) \<Rightarrow> Token \<Rightarrow> LayoutPass \<Rightarrow> LayoutPass" where
  "popIndented go t L =
     (case popRegions go t (lp_regions L) (lp_out L) of (rs, out) \<Rightarrow> L\<lparr>lp_regions := rs, lp_out := out\<rparr>)"

subsection \<open>Line breaks\<close>

text \<open>The token after \<^verbatim>\<open>i\<close>; the raw vector ends with a token that is never asked for its successor.\<close>

definition nextRaw :: "Token list \<Rightarrow> Token" where
  "nextRaw rest = (case rest of n # _ \<Rightarrow> n | [] \<Rightarrow> defaultToken)"

definition isLeadingInfix :: "Token \<Rightarrow> Token list \<Rightarrow> bool" where
  "isLeadingInfix t rest =
     (if tk_kind t \<noteq> Identifier \<or> \<not> tk_isOperator t \<or> tk_backquoted t then False
      else if tk_pastBlankLine t then False
      else let n = nextRaw rest in
        if tk_kind n = EndOfFile \<or> tk_firstOnLine n then False
        else if sp_column (tk_pos n) \<le> sp_column (tk_end t) then False
        else canBeginStatement (tk_kind n) \<and> \<not> isCloser (tk_kind n))"

text \<open>A brace region learns its width from the first line break inside it.\<close>

definition settleWidth :: "nat \<Rightarrow> bool \<Rightarrow> LayoutPass \<Rightarrow> LayoutPass" where
  "settleWidth w conditionOpener L =
     (let r = backRegion L in
      if rg_kind r = Braces \<and> \<not> rg_widthKnown r then
        setBack (r\<lparr>rg_width := w, rg_widthKnown := True\<rparr>) L
      else if rg_provisional r then
        (let r1 = r\<lparr>rg_provisional := False\<rparr> in
         if w > rg_width r \<and> \<not> opensRegion (lp_prevKind L) \<and> \<not> conditionOpener
         then setBack (r1\<lparr>rg_width := w\<rparr>) L
         else setBack r1 L)
      else L)"

text \<open>The line is indented less than the current region.\<close>

definition unindent :: "Token \<Rightarrow> Token list \<Rightarrow> LayoutPass \<Rightarrow> layout_result" where
  "unindent t rest L =
     (let w = tk_lineIndent t in
      if continuesStatement (lp_prevKind L) then
        Inl \<lparr>le_what = ''the line after '' @ [SQUOTE] @ tokenKindSpelling (lp_prevKind L) @ [SQUOTE] @
               '' is indented less than its enclosing block'',
             le_pos = tk_pos t, le_atEof = False\<rparr>
      else
        let L1 = popIndented (\<lambda>r. w < rg_width r) t L;
            popped = (length (lp_regions L1) < length (lp_regions L));
            c = backRegion L1;
            between = (popped \<and> rg_kind c = Indented \<and> w > rg_width c);
            belowTop = (rg_kind c = TopLevel \<and> w \<noteq> rg_width c);
            widthOk = (w = rg_width c \<or> (rg_kind c = Braces \<and> w < rg_width c))
        in if (between \<or> belowTop) \<and> \<not> isCloser (tk_kind t) then
             Inl \<lparr>le_what = ''unindent does not match any outer indentation level'',
                  le_pos = tk_pos t, le_atEof = False\<rparr>
           else if widthOk \<and> (popped \<or> canEndStatement (lp_prevKind L)) \<and>
                   canBeginStatement (tk_kind t) \<and> \<not> isLeadingInfix t rest
           then Inr (synth Newline t L1)
           else Inr L1)"

definition lineBreak :: "Token \<Rightarrow> Token list \<Rightarrow> LayoutPass \<Rightarrow> layout_result" where
  "lineBreak t rest L =
     (if rg_kind (backRegion L) = Parens \<or> rg_kind (backRegion L) = Brackets then Inr L
      else
        let w = tk_lineIndent t;
            conditionOpener = (lp_prevClosesCondition L \<and> tk_kind t \<noteq> KwThen \<and> tk_kind t \<noteq> KwDo \<and>
                               tk_kind t \<noteq> KwYield);
            L1 = settleWidth w conditionOpener L;
            prev = lp_prevKind L
        in if (opensRegion prev \<or> conditionOpener) \<and> w > rg_width (backRegion L1) then
             Inr (synth Indent t (pushRegion
               (newRegion Indented w True (if conditionOpener then RParen else prev) False) L1))
           else if w < rg_width (backRegion L1) then unindent t rest L1
           else if w = rg_width (backRegion L1) \<and> canEndStatement prev \<and>
                   canBeginStatement (tk_kind t) \<and> \<not> isLeadingInfix t rest
           then Inr (synth Newline t L1)
           else if w > rg_width (backRegion L1) \<and> tk_pastBlankLine t \<and> canEndStatement prev \<and>
                   canBeginStatement (tk_kind t)
           then Inr (synth Newline t L1)
           else Inr L1)"

subsection \<open>Closing keywords and brackets\<close>

text \<open>The pending list after the closer, or \<^const>\<open>None\<close> when no partner of it is pending.\<close>

definition satisfyPending :: "TokenKind \<Rightarrow> LayoutPass \<Rightarrow> LayoutPass option" where
  "satisfyPending closer L =
     (case dropWhile (\<lambda>p. \<not> closesRegionOpenedBy closer p) (rg_pending (backRegion L)) of
        [] \<Rightarrow> None
      | p # ps \<Rightarrow>
          Some (setPending (if closer = KwThen \<or> closer = KwCatch then closer # ps else ps) L))"

definition closeByKeyword :: "Token \<Rightarrow> LayoutPass \<Rightarrow> LayoutPass" where
  "closeByKeyword t L =
     (case satisfyPending (tk_kind t) L of
        Some L1 \<Rightarrow> L1
      | None \<Rightarrow>
          if tk_firstOnLine t then L
          else if rg_kind (backRegion L) = Indented \<and>
                  closesRegionOpenedBy (tk_kind t) (rg_opener (backRegion L)) then
            let L1 = synth Outdent t (L\<lparr>lp_regions := tl (lp_regions L)\<rparr>)
            in (case satisfyPending (tk_kind t) L1 of Some L2 \<Rightarrow> L2 | None \<Rightarrow> L1)
          else L)"

definition conditionClosed :: "LayoutPass \<Rightarrow> LayoutPass" where
  "conditionClosed L =
     (case rg_pending (backRegion L) of
        p # ps \<Rightarrow> if isConditionKeyword p then setPending (RParen # ps) L else L
      | [] \<Rightarrow> L)"

definition bracketRegion :: "TokenKind \<Rightarrow> RegionKind" where
  "bracketRegion k = (if k = RParen then Parens else if k = RBracket then Brackets else Braces)"

definition closeBracket :: "Token \<Rightarrow> LayoutPass \<Rightarrow> LexError + (bool \<times> LayoutPass)" where
  "closeBracket t L =
     (let L1 = popIndented (\<lambda>_. True) t L in
      if rg_kind (backRegion L1) \<noteq> bracketRegion (tk_kind t) then
        Inl \<lparr>le_what = ''unbalanced '' @ [SQUOTE] @ tk_text t @ [SQUOTE], le_pos = tk_pos t,
             le_atEof = False\<rparr>
      else Inr (rg_condition (backRegion L1), L1\<lparr>lp_regions := tl (lp_regions L1)\<rparr>))"

subsection \<open>End markers\<close>

definition endMarker :: "Token \<Rightarrow> Token \<Rightarrow> Token" where
  "endMarker t designator =
     t\<lparr>tk_kind := EndMarker, tk_text := tk_text designator, tk_end := tk_end designator\<rparr>"

text \<open>\<^verbatim>\<open>end\<close>, a designator on its line, and nothing else there.\<close>

definition isEndMarker :: "Token \<Rightarrow> Token list \<Rightarrow> bool" where
  "isEndMarker t rest =
     (tk_kind t = Identifier \<and> tk_text t = ''end'' \<and> tk_firstOnLine t \<and>
      (let designator = nextRaw rest;
           after = (case rest of _ # a # _ \<Rightarrow> a | _ \<Rightarrow> designator)
       in \<not> tk_firstOnLine designator \<and> isEndDesignator (tk_kind designator) \<and>
          (tk_firstOnLine after \<or> tk_kind after = EndOfFile)))"

definition tryEndMarker :: "Token \<Rightarrow> Token list \<Rightarrow> LayoutPass \<Rightarrow> LayoutPass option" where
  "tryEndMarker t rest L =
     (if isEndMarker t rest then
        Some (L\<lparr>lp_out := lp_out L @ [endMarker t (nextRaw rest)], lp_prevKind := EndMarker,
                lp_prevClosesCondition := False\<rparr>)
      else None)"

subsection \<open>The main loop\<close>

text \<open>The \<^verbatim>\<open>switch\<close> on the token's kind: whether a condition closed, and the new regions.\<close>

definition enterToken :: "Token \<Rightarrow> Token list \<Rightarrow> LayoutPass \<Rightarrow> LexError + (bool \<times> LayoutPass)" where
  "enterToken t rest L =
     (let k = tk_kind t in
      if k = LParen then
        Inr (False, pushRegion (newRegion Parens 0 True EndOfFile (isConditionKeyword (lp_prevKind L))) L)
      else if k = LBracket then Inr (False, pushRegion (newRegion Brackets 0 True EndOfFile False) L)
      else if k = LBrace then
        (let sameLine = (\<not> tk_firstOnLine (nextRaw rest)) in
         Inr (False, pushRegion
           ((newRegion Braces (if sameLine then tk_lineIndent t else 0) sameLine EndOfFile
               (lp_prevKind L = KwFor))\<lparr>rg_provisional := sameLine\<rparr>) L))
      else if isCloser k then
        (case closeBracket t L of
           Inl e \<Rightarrow> Inl e
         | Inr (condition, L1) \<Rightarrow>
             let header = (\<not> condition \<and> lp_extensionHeaderLine L1 \<ge> 0 \<and>
                           int (sp_line (tk_pos t)) = lp_extensionHeaderLine L1 \<and>
                           tk_firstOnLine (nextRaw rest));
                 L2 = (if header then L1\<lparr>lp_extensionHeaderLine := -1\<rparr> else L1)
             in Inr (condition \<or> header, if condition \<or> header then conditionClosed L2 else L2))
      else if k = Semicolon then Inr (False, setPending [] L)
      else if k \<in> {KwIf, KwTry, KwWhile, KwFor} then
        Inr (False, setPending (k # rg_pending (backRegion L)) L)
      else Inr (False, L))"

text \<open>A \<^verbatim>\<open>:\<close> that ends its line is a template opener.\<close>

definition relabel :: "Token \<Rightarrow> Token list \<Rightarrow> Token" where
  "relabel t rest =
     (if tk_kind t = Colon \<and> tk_firstOnLine (nextRaw rest) then t\<lparr>tk_kind := ColonEol\<rparr> else t)"

definition startsExtension :: "Token \<Rightarrow> Token list \<Rightarrow> bool" where
  "startsExtension t rest \<longleftrightarrow>
     tk_kind t = Identifier \<and> tk_firstOnLine t \<and> \<not> tk_backquoted t \<and> tk_text t = ''extension'' \<and>
     (tk_kind (nextRaw rest) = LParen \<or> tk_kind (nextRaw rest) = LBracket)"

definition emitToken :: "Token \<Rightarrow> Token list \<Rightarrow> LayoutPass \<Rightarrow> layout_result" where
  "emitToken t rest L =
     (case enterToken t rest (closeByKeyword t L) of
        Inl e \<Rightarrow> Inl e
      | Inr (closesCondition, L1) \<Rightarrow>
          let L2 = (if startsExtension t rest
                    then L1\<lparr>lp_extensionHeaderLine := int (sp_line (tk_pos t))\<rparr> else L1)
          in Inr (L2\<lparr>lp_out := lp_out L2 @ [relabel t rest], lp_prevKind := tk_kind (relabel t rest),
                     lp_prevClosesCondition := closesCondition\<rparr>))"

definition finishLayout :: "Token \<Rightarrow> LayoutPass \<Rightarrow> LexError + Token list" where
  "finishLayout t L =
     (let L1 = popIndented (\<lambda>_. True) t L in
      if length (lp_regions L1) > 1 then
        Inl \<lparr>le_what = ''unclosed '' @ [SQUOTE] @ openerName (rg_kind (backRegion L1)) @ [SQUOTE],
             le_pos = tk_pos t, le_atEof = True\<rparr>
      else Inr (lp_out L1 @ [t]))"

definition breakLine :: "Token \<Rightarrow> Token list \<Rightarrow> LayoutPass \<Rightarrow> layout_result" where
  "breakLine t rest L =
     (if tk_firstOnLine t \<and> lp_out L \<noteq> [] then lineBreak t rest L else Inr L)"

fun run :: "Token list \<Rightarrow> LayoutPass \<Rightarrow> LexError + Token list" where
  "run [] L = Inr (lp_out L)"
| "run (t # rest) L =
     (if tk_kind t = Error then
        Inl \<lparr>le_what = tk_text t, le_pos = tk_pos t, le_atEof = tk_errorAtEof t\<rparr>
      else if tk_kind t = EndOfFile then finishLayout t L
      else case breakLine t rest L of
          Inl e \<Rightarrow> Inl e
        | Inr L1 \<Rightarrow>
            (case tryEndMarker t rest L1 of
               Some L2 \<Rightarrow> run (tl rest) L2
             | None \<Rightarrow>
                 (case emitToken t rest L1 of Inl e \<Rightarrow> Inl e | Inr L2 \<Rightarrow> run rest L2)))"

datatype LayoutFailure = LexFailure LexError | InvalidArgument byte_string

definition newLayoutPass :: "Token list \<Rightarrow> LayoutPass" where
  "newLayoutPass raw =
     \<lparr>lp_out = [], lp_regions = [newRegion TopLevel (tk_lineIndent (hd raw)) True EndOfFile False],
      lp_prevKind = EndOfFile, lp_prevClosesCondition = False, lp_extensionHeaderLine = -1\<rparr>"

definition applyLayout :: "Token list \<Rightarrow> LayoutFailure + Token list" where
  "applyLayout raw =
     (if raw = [] then Inr [defaultToken\<lparr>tk_kind := EndOfFile\<rparr>]
      else if tk_kind (last raw) \<noteq> EndOfFile \<and> tk_kind (last raw) \<noteq> Error then
        Inl (InvalidArgument ''applyLayout: token vector must end with EndOfFile or Error'')
      else case run raw (newLayoutPass raw) of
          Inl e \<Rightarrow> Inl (LexFailure e)
        | Inr out \<Rightarrow> Inr out)"

definition tokenize :: "byte_string \<Rightarrow> LayoutFailure + Token list" where
  "tokenize source = applyLayout (tokenizeAll source)"

subsection \<open>Nesting\<close>

text \<open>
  The reference checker: a stack of open regions, which every token kind pushes, pops or
  leaves.  Layout tokens are refused directly inside parentheses and brackets.
\<close>

definition layoutAllowed :: "RegionKind \<Rightarrow> bool" where
  "layoutAllowed r \<longleftrightarrow> r \<noteq> Parens \<and> r \<noteq> Brackets"

fun nestStep :: "TokenKind \<Rightarrow> RegionKind list \<Rightarrow> RegionKind list option" where
  "nestStep k [] = None"
| "nestStep k (r # rs) =
     (if k = LParen then Some (Parens # r # rs)
      else if k = LBracket then Some (Brackets # r # rs)
      else if k = LBrace then Some (Braces # r # rs)
      else if k = Indent then (if layoutAllowed r then Some (Indented # r # rs) else None)
      else if isCloser k then (if r = bracketRegion k then Some rs else None)
      else if k = Outdent then (if r = Indented then Some rs else None)
      else if k = Newline then (if layoutAllowed r then Some (r # rs) else None)
      else Some (r # rs))"

fun nestAll :: "TokenKind list \<Rightarrow> RegionKind list \<Rightarrow> RegionKind list option" where
  "nestAll [] st = Some st"
| "nestAll (k # ks) st = Option.bind (nestStep k st) (nestAll ks)"

lemma nestAll_append: "nestAll (ks @ ls) st = Option.bind (nestAll ks st) (nestAll ls)"
proof (induction ks arbitrary: st)
  case (Cons k ks)
  then show ?case by (cases "nestStep k st") simp_all
qed simp

definition nested :: "LayoutPass \<Rightarrow> bool" where
  "nested L \<longleftrightarrow>
     nestAll (map tk_kind (lp_out L)) [TopLevel] = Some (map rg_kind (lp_regions L)) \<and>
     (\<exists>rs. map rg_kind (lp_regions L) = rs @ [TopLevel] \<and> TopLevel \<notin> set rs)"

lemma nested_nonempty: "nested L \<Longrightarrow> lp_regions L \<noteq> []"
  by (auto simp: nested_def)

lemma nested_cases:
  assumes "nested L"
  obtains r rs where "lp_regions L = r # rs" "backRegion L = r"
  using nested_nonempty[OF assms] by (cases "lp_regions L") (auto simp: backRegion_def)

text \<open>How the primitive updates of the state act on the nesting.\<close>

lemma nested_setBack: "nested L \<Longrightarrow> rg_kind r = rg_kind (backRegion L) \<Longrightarrow> nested (setBack r L)"
  by (cases "lp_regions L") (auto simp: nested_def setBack_def backRegion_def)

lemma nested_setPending [simp]: "nested L \<Longrightarrow> nested (setPending ks L)"
  by (simp add: setPending_def nested_setBack)

lemma nested_fields [simp]:
  "nested (L\<lparr>lp_prevKind := k\<rparr>) = nested L" "nested (L\<lparr>lp_prevClosesCondition := b\<rparr>) = nested L"
  "nested (L\<lparr>lp_extensionHeaderLine := i\<rparr>) = nested L"
  by (simp_all add: nested_def)

lemma kind_synthToken [simp]: "tk_kind (synthToken k t) = k"
  by (simp add: synthToken_def)

lemma setPending_fields [simp]:
  "lp_out (setPending ks L) = lp_out L" "lp_prevKind (setPending ks L) = lp_prevKind L"
  "rg_kind (backRegion (setPending ks L)) = rg_kind (backRegion L)"
  by (simp_all add: setPending_def setBack_def backRegion_def)

lemma nested_emit:
  assumes "nested L" "nestStep (tk_kind t) (map rg_kind (lp_regions L)) = Some (map rg_kind (lp_regions L))"
  shows "nested (L\<lparr>lp_out := lp_out L @ [t]\<rparr>)"
  using assms by (auto simp: nested_def nestAll_append)

lemma nested_Newline:
  assumes "nested L" "layoutAllowed (rg_kind (backRegion L))"
  shows "nested (synth Newline t L)"
proof -
  have n: "nested (setPending [] L)" using assms(1) by simp
  then have "nestStep Newline (map rg_kind (lp_regions (setPending [] L))) =
      Some (map rg_kind (lp_regions (setPending [] L)))"
    using assms(2) by (elim nested_cases) (auto simp: isCloser_def setPending_fields(3)[symmetric])
  with n show ?thesis using nested_emit[OF n, of "synthToken Newline t"] by (simp add: synth_def)
qed

lemma nested_push_emit:
  assumes "nested L" "rg_kind r \<noteq> TopLevel"
    and "nestStep (tk_kind t) (map rg_kind (lp_regions L)) = Some (rg_kind r # map rg_kind (lp_regions L))"
  shows "nested ((pushRegion r L)\<lparr>lp_out := lp_out L @ [t]\<rparr>)"
  using assms by (auto simp: nested_def nestAll_append pushRegion_def)

lemma nested_pop_emit:
  assumes "nested L" "rg_kind (backRegion L) \<noteq> TopLevel"
    and "nestStep (tk_kind t) (map rg_kind (lp_regions L)) = Some (map rg_kind (tl (lp_regions L)))"
  shows "nested (L\<lparr>lp_regions := tl (lp_regions L), lp_out := lp_out L @ [t]\<rparr>)"
proof (rule nested_cases[OF assms(1)])
  fix r rs assume r: "lp_regions L = r # rs" "backRegion L = r"
  obtain ks where "map rg_kind (lp_regions L) = ks @ [TopLevel]" "TopLevel \<notin> set ks"
    using assms(1) by (auto simp: nested_def)
  then have "\<exists>ks. map rg_kind rs = ks @ [TopLevel] \<and> TopLevel \<notin> set ks"
    using r assms(2) by (cases ks) auto
  then show ?thesis using assms r by (auto simp: nested_def nestAll_append)
qed

text \<open>Closing indented regions emits a matching \<^const>\<open>Outdent\<close> for each.\<close>

lemma popRegions_nested:
  "nested (L\<lparr>lp_regions := rs, lp_out := out\<rparr>) \<Longrightarrow> popRegions go t rs out = (rs', out') \<Longrightarrow>
   nested (L\<lparr>lp_regions := rs', lp_out := out'\<rparr>)"
proof (induction go t rs out rule: popRegions.induct)
  case (2 go t r rs out)
  show ?case
  proof (cases "rg_kind r = Indented \<and> go r")
    case True
    have "nested (L\<lparr>lp_regions := rs, lp_out := out @ [synthToken Outdent t]\<rparr>)"
      using nested_pop_emit[OF 2(2), of "synthToken Outdent t"] True
      by (simp add: backRegion_def isCloser_def)
    then show ?thesis using 2(1,3) True by simp
  next
    case False
    then show ?thesis using 2(2,3) by auto
  qed
qed auto

lemma nested_popIndented: "nested L \<Longrightarrow> nested (popIndented go t L)"
  using popRegions_nested[where L = L and rs = "lp_regions L" and out = "lp_out L" and go = go and t = t]
  by (auto simp: popIndented_def split: prod.split)

text \<open>No indented region stands directly in parentheses or brackets.\<close>

fun layered :: "RegionKind list \<Rightarrow> bool" where
  "layered (r # r' # rs) \<longleftrightarrow> (r = Indented \<longrightarrow> layoutAllowed r') \<and> layered (r' # rs)"
| "layered _ \<longleftrightarrow> True"

lemma layered_tl: "layered (r # rs) \<Longrightarrow> layered rs"
  by (cases rs) auto

lemma nestStep_layered: "nestStep k st = Some st' \<Longrightarrow> layered st \<Longrightarrow> layered st'"
  by (cases st) (auto split: if_splits dest: layered_tl)

lemma nestAll_layered: "nestAll ks st = Some st' \<Longrightarrow> layered st \<Longrightarrow> layered st'"
  by (induction ks st rule: nestAll.induct)
     (auto simp: bind_eq_Some_conv dest: nestStep_layered)

lemma nested_layered: "nested L \<Longrightarrow> layered (map rg_kind (lp_regions L))"
  using nestAll_layered[of "map tk_kind (lp_out L)" "[TopLevel]"] by (simp add: nested_def)

lemma popRegions_allowed:
  "popRegions go t rs out = (rs', out') \<Longrightarrow> layered (map rg_kind rs) \<Longrightarrow> rs' \<noteq> [] \<Longrightarrow>
   layoutAllowed (rg_kind (hd rs)) \<Longrightarrow> layoutAllowed (rg_kind (hd rs'))"
proof (induction go t rs out rule: popRegions.induct)
  case (2 go t r rs out)
  then show ?case by (cases rs) (auto split: if_splits)
qed simp

lemma popIndented_allowed:
  assumes "nested L" "layoutAllowed (rg_kind (backRegion L))"
  shows "layoutAllowed (rg_kind (backRegion (popIndented go t L)))"
proof -
  obtain rs out where p: "popRegions go t (lp_regions L) (lp_out L) = (rs, out)" by fastforce
  have "rs \<noteq> []"
    using nested_nonempty[OF nested_popIndented[OF assms(1), of go t]] p by (simp add: popIndented_def)
  then show ?thesis
    using popRegions_allowed[OF p nested_layered[OF assms(1)]] p assms(2)
    by (simp add: popIndented_def backRegion_def)
qed

lemma settleWidth_back:
  "lp_out (settleWidth w c L) = lp_out L" "lp_prevKind (settleWidth w c L) = lp_prevKind L"
  "rg_kind (backRegion (settleWidth w c L)) = rg_kind (backRegion L)"
  by (simp_all add: settleWidth_def Let_def setBack_def backRegion_def)

lemma nested_settleWidth: "nested L \<Longrightarrow> nested (settleWidth w c L)"
  by (simp add: settleWidth_def Let_def nested_setBack)

lemma nested_unindent:
  assumes "nested L" "layoutAllowed (rg_kind (backRegion L))" "unindent t rest L = Inr L'"
  shows "nested L'"
  using assms nested_Newline[OF nested_popIndented popIndented_allowed] nested_popIndented[OF assms(1)]
  by (auto simp: unindent_def Let_def split: if_splits)

lemma nested_Indent:
  assumes "nested L" "layoutAllowed (rg_kind (backRegion L))" "rg_kind r = Indented"
  shows "nested (synth Indent t (pushRegion r L))"
proof -
  have "nestStep Indent (map rg_kind (lp_regions L)) = Some (Indented # map rg_kind (lp_regions L))"
    using assms(1,2) by (elim nested_cases) simp
  then show ?thesis using nested_push_emit[OF assms(1), of r "synthToken Indent t"] assms(3)
    by (simp add: synth_def pushRegion_def)
qed

lemma nested_lineBreak:
  assumes "nested L" "lineBreak t rest L = Inr L'"
  shows "nested L'"
proof (cases "layoutAllowed (rg_kind (backRegion L))")
  case False
  then show ?thesis using assms by (auto simp: lineBreak_def layoutAllowed_def)
next
  case True
  define c where "c \<longleftrightarrow> lp_prevClosesCondition L \<and> tk_kind t \<noteq> KwThen \<and> tk_kind t \<noteq> KwDo \<and> tk_kind t \<noteq> KwYield"
  let ?L1 = "settleWidth (tk_lineIndent t) c L"
  have n: "nested ?L1" "layoutAllowed (rg_kind (backRegion ?L1))"
    using nested_settleWidth[OF assms(1)] True by (simp_all add: settleWidth_back)
  show ?thesis
    using assms(2) n True nested_unindent[OF n] nested_Newline[OF n] nested_Indent[OF n]
    unfolding lineBreak_def Let_def c_def[symmetric]
    by (auto simp: layoutAllowed_def newRegion_def split: if_splits)
qed

lemma nested_satisfyPending: "nested L \<Longrightarrow> satisfyPending k L = Some L' \<Longrightarrow> nested L'"
  by (auto simp: satisfyPending_def split: list.splits)

lemma nested_Outdent:
  assumes "nested L" "rg_kind (backRegion L) = Indented"
  shows "nested (synth Outdent t (L\<lparr>lp_regions := tl (lp_regions L)\<rparr>))"
proof -
  have "nestStep Outdent (map rg_kind (lp_regions L)) = Some (map rg_kind (tl (lp_regions L)))"
    using assms by (elim nested_cases) (simp add: isCloser_def)
  then show ?thesis using nested_pop_emit[OF assms(1), of "synthToken Outdent t"] assms(2)
    by (simp add: synth_def)
qed

lemma nested_closeByKeyword: "nested L \<Longrightarrow> nested (closeByKeyword t L)"
  using nested_satisfyPending nested_Outdent[of L t]
  by (auto simp: closeByKeyword_def Let_def split: option.split)

lemma conditionClosed_out:
  "conditionClosed (L\<lparr>lp_out := out\<rparr>) = (conditionClosed L)\<lparr>lp_out := out\<rparr>"
  "lp_out (conditionClosed L) = lp_out L"
  by (simp_all add: conditionClosed_def backRegion_def setPending_def setBack_def split: list.split)

lemma nested_conditionClosed: "nested L \<Longrightarrow> nested (conditionClosed L)"
  by (simp add: conditionClosed_def split: list.split)

lemma nested_closeBracket:
  assumes "nested L" "isCloser (tk_kind t)" "closeBracket t L = Inr (c, L1)"
  shows "nested (L1\<lparr>lp_out := lp_out L1 @ [t]\<rparr>)"
proof -
  let ?L = "popIndented (\<lambda>_. True) t L"
  have n: "nested ?L" by (rule nested_popIndented[OF assms(1)])
  have k: "rg_kind (backRegion ?L) = bracketRegion (tk_kind t)"
    and L1: "L1 = ?L\<lparr>lp_regions := tl (lp_regions ?L)\<rparr>"
    using assms(3) by (auto simp: closeBracket_def Let_def split: if_splits)
  have "nestStep (tk_kind t) (map rg_kind (lp_regions ?L)) = Some (map rg_kind (tl (lp_regions ?L)))"
    using k assms(2) by (rule_tac nested_cases[OF n]) (auto simp: isCloser_def bracketRegion_def)
  moreover have "rg_kind (backRegion ?L) \<noteq> TopLevel" using k by (simp add: bracketRegion_def)
  ultimately show ?thesis using nested_pop_emit[OF n, of t] by (simp add: L1)
qed

lemma relabel_other: "tk_kind t \<noteq> Colon \<Longrightarrow> relabel t rest = t"
  by (simp add: relabel_def)

lemma relabel_kind: "tk_kind (relabel t rest) = tk_kind t \<or> (tk_kind t = Colon \<and> tk_kind (relabel t rest) = ColonEol)"
  by (simp add: relabel_def)

lemma nestStep_neutral:
  assumes "nested L" "k \<notin> {LParen, LBracket, LBrace, Indent, Outdent, Newline}" "\<not> isCloser k"
  shows "nestStep k (map rg_kind (lp_regions L)) = Some (map rg_kind (lp_regions L))"
  using assms by (elim nested_cases) simp

lemma nested_neutral:
  assumes "nested L" "k \<notin> {LParen, LBracket, LBrace, Indent, Outdent, Newline}" "\<not> isCloser k" "tk_kind t = k"
  shows "nested (L\<lparr>lp_out := lp_out L @ [t]\<rparr>)"
  using nested_emit[OF assms(1), of t] nestStep_neutral[OF assms(1-3)] assms(4) by simp

lemma nested_open:
  assumes "nested L" "(tk_kind t, rg_kind r) \<in> {(LParen, Parens), (LBracket, Brackets), (LBrace, Braces)}"
  shows "nested ((pushRegion r L)\<lparr>lp_out := lp_out (pushRegion r L) @ [relabel t rest]\<rparr>)"
proof -
  have "nestStep (tk_kind t) (x # xs) = Some (rg_kind r # x # xs)" for x xs
    using assms(2) by (elim insertE emptyE) simp_all
  then have "nestStep (tk_kind t) (map rg_kind (lp_regions L)) = Some (rg_kind r # map rg_kind (lp_regions L))"
    using nested_nonempty[OF assms(1)] by (cases "map rg_kind (lp_regions L)") simp_all
  moreover have "rg_kind r \<noteq> TopLevel" "relabel t rest = t" using assms(2) by (auto simp: relabel_other)
  ultimately show ?thesis
    using nested_push_emit[OF assms(1), of r t] by (simp add: pushRegion_def)
qed

lemma nested_close:
  assumes "nested L" "isCloser (tk_kind t)" "closeBracket t L = Inr (c, L1)"
  shows "nested (L1\<lparr>lp_out := lp_out L1 @ [relabel t rest]\<rparr>)"
    and "nested ((conditionClosed (L1\<lparr>lp_extensionHeaderLine := i\<rparr>))\<lparr>lp_out := lp_out L1 @ [relabel t rest]\<rparr>)"
    and "nested ((conditionClosed L1)\<lparr>lp_out := lp_out L1 @ [relabel t rest]\<rparr>)"
proof -
  have r: "relabel t rest = t" using assms(2) by (auto simp: isCloser_def relabel_other)
  note n = nested_closeBracket[OF assms]
  show "nested (L1\<lparr>lp_out := lp_out L1 @ [relabel t rest]\<rparr>)" using n r by simp
  show "nested ((conditionClosed L1)\<lparr>lp_out := lp_out L1 @ [relabel t rest]\<rparr>)"
    using nested_conditionClosed[OF n] r by (simp add: conditionClosed_out)
  have "nested ((L1\<lparr>lp_extensionHeaderLine := i\<rparr>)\<lparr>lp_out := lp_out L1 @ [t]\<rparr>)"
    using n by (simp add: nested_def)
  from nested_conditionClosed[OF this]
  show "nested ((conditionClosed (L1\<lparr>lp_extensionHeaderLine := i\<rparr>))\<lparr>lp_out := lp_out L1 @ [relabel t rest]\<rparr>)"
    unfolding r conditionClosed_out .
qed

lemma enterToken_closer:
  assumes "isCloser (tk_kind t)" "closeBracket t L = Inr (b, L2)" "enterToken t rest L = Inr (c, L1)"
  shows "L1 \<in> {L2, conditionClosed L2, conditionClosed (L2\<lparr>lp_extensionHeaderLine := -1\<rparr>)}"
  using assms(1,3) unfolding enterToken_def Let_def assms(2)
  by (cases b) (auto simp: isCloser_def split: if_splits)

lemma nested_enterToken:
  assumes "nested L" "tk_kind t \<notin> layoutKinds" "enterToken t rest L = Inr (c, L1)"
  shows "nested (L1\<lparr>lp_out := lp_out L1 @ [relabel t rest]\<rparr>)"
proof -
  consider (op) "tk_kind t \<in> {LParen, LBracket, LBrace}" | (cl) "isCloser (tk_kind t)"
    | (other) "tk_kind t \<notin> {LParen, LBracket, LBrace}" "\<not> isCloser (tk_kind t)" by blast
  then show ?thesis
  proof cases
    case op
    then show ?thesis using assms(3)
      by (auto simp: enterToken_def Let_def newRegion_def intro!: nested_open[OF assms(1)])
  next
    case cl
    then obtain b L2 where b: "closeBracket t L = Inr (b, L2)"
      using assms(3) by (auto simp: enterToken_def Let_def isCloser_def split: sum.splits)
    show ?thesis using nested_close[OF assms(1) cl b] enterToken_closer[OF cl b assms(3)]
      by (auto simp: conditionClosed_out(2))
  next
    case other
    have "tk_kind (relabel t rest) \<notin> {LParen, LBracket, LBrace, Indent, Outdent, Newline}"
      "\<not> isCloser (tk_kind (relabel t rest))"
      using relabel_kind[of t rest] other assms(2) by (auto simp: layoutKinds_def isCloser_def)
    moreover have "nested L1" using other assms(1,3)
      by (auto simp: enterToken_def Let_def split: if_splits)
    ultimately show ?thesis using nested_neutral by blast
  qed
qed

lemma nested_emitToken:
  assumes "nested L" "tk_kind t \<notin> layoutKinds" "emitToken t rest L = Inr L'"
  shows "nested L'"
proof -
  obtain c L1 where e: "enterToken t rest (closeByKeyword t L) = Inr (c, L1)"
    using assms(3) by (auto simp: emitToken_def split: sum.splits)
  have "nested (L1\<lparr>lp_out := lp_out L1 @ [relabel t rest]\<rparr>)"
    by (rule nested_enterToken[OF nested_closeByKeyword[OF assms(1)] assms(2) e])
  then show ?thesis using assms(3) e by (auto simp: emitToken_def Let_def nested_def)
qed

lemma nested_tryEndMarker: "nested L \<Longrightarrow> tryEndMarker t rest L = Some L' \<Longrightarrow> nested L'"
  using nested_neutral[of L EndMarker "endMarker t (nextRaw rest)"]
  by (auto simp: tryEndMarker_def endMarker_def isCloser_def nested_def split: if_splits)

lemma nested_finishLayout:
  assumes "nested L" "tk_kind t = EndOfFile" "finishLayout t L = Inr out"
  shows "nestAll (map tk_kind out) [TopLevel] = Some [TopLevel]"
proof -
  let ?L = "popIndented (\<lambda>_. True) t L"
  have n: "nested ?L" by (rule nested_popIndented[OF assms(1)])
  obtain rs where rs: "map rg_kind (lp_regions ?L) = rs @ [TopLevel]" using n by (auto simp: nested_def)
  have "length (lp_regions ?L) \<le> 1" and out: "out = lp_out ?L @ [t]"
    using assms(3) by (auto simp: finishLayout_def Let_def split: if_splits)
  then have "map rg_kind (lp_regions ?L) = [TopLevel]"
    using rs arg_cong[OF rs, of length] by (cases rs) auto
  then show ?thesis using n out assms(2) by (simp add: nested_def nestAll_append isCloser_def)
qed

subsection \<open>Invariants of the pass\<close>

text \<open>
  What a raw suffix of the loop looks like: it still ends with a terminal token, and holds none
  of the kinds the pass itself produces.
\<close>

definition rawSuffix :: "Token list \<Rightarrow> bool" where
  "rawSuffix raw \<longleftrightarrow> raw \<noteq> [] \<and> terminalKind (tk_kind (last raw)) \<and>
     list_all (\<lambda>t. tk_kind t \<notin> layoutKinds) raw"

lemma rawSuffix_rest: "rawSuffix (t # rest) \<Longrightarrow> \<not> terminalKind (tk_kind t) \<Longrightarrow> rawSuffix rest"
  by (auto simp: rawSuffix_def split: if_splits)

lemma rawSuffix_marker:
  assumes "rawSuffix (t # rest)" "\<not> terminalKind (tk_kind t)" "isEndMarker t rest"
  shows "rawSuffix (tl rest)"
proof -
  have r: "rawSuffix rest" by (rule rawSuffix_rest[OF assms(1,2)])
  then obtain d ds where "rest = d # ds" by (cases rest) (auto simp: rawSuffix_def)
  then show ?thesis using r rawSuffix_rest[of d ds] assms(3)
    by (auto simp: isEndMarker_def Let_def nextRaw_def isEndDesignator_def terminalKind_def)
qed

locale layout_invariant =
  fixes I :: "Token list \<Rightarrow> LayoutPass \<Rightarrow> bool" and Q :: "Token list \<Rightarrow> bool"
  assumes marker: "rawSuffix (t # rest) \<Longrightarrow> \<not> terminalKind (tk_kind t) \<Longrightarrow> I (t # rest) L \<Longrightarrow>
      breakLine t rest L = Inr L1 \<Longrightarrow> tryEndMarker t rest L1 = Some L2 \<Longrightarrow> I (tl rest) L2"
    and token: "rawSuffix (t # rest) \<Longrightarrow> \<not> terminalKind (tk_kind t) \<Longrightarrow> I (t # rest) L \<Longrightarrow>
      breakLine t rest L = Inr L1 \<Longrightarrow> tryEndMarker t rest L1 = None \<Longrightarrow> emitToken t rest L1 = Inr L2 \<Longrightarrow>
      I rest L2"
    and finish: "rawSuffix (t # rest) \<Longrightarrow> tk_kind t = EndOfFile \<Longrightarrow> I (t # rest) L \<Longrightarrow>
      finishLayout t L = Inr out \<Longrightarrow> Q out"
begin

lemma run_sound: "rawSuffix raw \<Longrightarrow> I raw L \<Longrightarrow> run raw L = Inr out \<Longrightarrow> Q out"
proof (induction raw L rule: run.induct)
  case (2 t rest L)
  show ?case
  proof (cases "terminalKind (tk_kind t)")
    case True
    then show ?thesis using 2(5) finish[OF 2(3) _ 2(4)] by (auto simp: terminalKind_def split: if_splits)
  next
    case False
    then have k: "tk_kind t \<noteq> Error" "tk_kind t \<noteq> EndOfFile" by (auto simp: terminalKind_def)
    obtain L1 where L1: "breakLine t rest L = Inr L1"
      using 2(5) k by (cases "breakLine t rest L") auto
    show ?thesis
    proof (cases "tryEndMarker t rest L1")
      case (Some L2)
      have "rawSuffix (tl rest)"
        using rawSuffix_marker[OF 2(3) False] Some by (auto simp: tryEndMarker_def split: if_splits)
      then show ?thesis using 2(2)[OF k L1 Some] marker[OF 2(3) False 2(4) L1 Some] 2(5) k L1 Some by simp
    next
      case None
      obtain L2 where L2: "emitToken t rest L1 = Inr L2"
        using 2(5) k L1 None by (cases "emitToken t rest L1") auto
      show ?thesis
        using 2(1)[OF k L1 None L2 rawSuffix_rest[OF 2(3) False]] token[OF 2(3) False 2(4) L1 None L2]
          2(5) k L1 None L2 by simp
    qed
  qed
qed (simp add: rawSuffix_def)

lemma applyLayout_sound:
  assumes "rawSuffix raw" "I raw (newLayoutPass raw)" "applyLayout raw = Inr out"
  shows "Q out"
  using run_sound[OF assms(1,2)] assms(1,3)
  by (auto simp: applyLayout_def rawSuffix_def terminalKind_def split: if_splits sum.splits)

end

lemma nested_breakLine: "nested L \<Longrightarrow> breakLine t rest L = Inr L1 \<Longrightarrow> nested L1"
  using nested_lineBreak[of L t rest L1] by (auto simp: breakLine_def split: if_splits)

interpretation nesting: layout_invariant
  "\<lambda>_. nested" "\<lambda>out. nestAll (map tk_kind out) [TopLevel] = Some [TopLevel]"
proof unfold_locales
  fix t rest L L1 L2
  assume "nested L" "breakLine t rest L = Inr L1" "tryEndMarker t rest L1 = Some L2"
  then show "nested L2" using nested_breakLine nested_tryEndMarker by blast
next
  fix t rest L L1 L2
  assume "rawSuffix (t # rest)" "nested L" "breakLine t rest L = Inr L1" "emitToken t rest L1 = Inr L2"
  then show "nested L2"
    using nested_breakLine nested_emitToken[of L1 t rest L2] by (auto simp: rawSuffix_def)
next
  fix t L out
  assume "tk_kind t = EndOfFile" "nested L" "finishLayout t L = Inr out"
  then show "nestAll (map tk_kind out) [TopLevel] = Some [TopLevel]" using nested_finishLayout by blast
qed

lemma nested_new: "nested (newLayoutPass raw)"
  by (simp add: nested_def newLayoutPass_def newRegion_def)

subsection \<open>Erasure: the pass only inserts\<close>

definition inserted :: "Token \<Rightarrow> bool" where
  "inserted t \<longleftrightarrow> tk_kind t \<in> {Newline, Indent, Outdent}"

definition sourceTokens :: "LayoutPass \<Rightarrow> Token list" where
  "sourceTokens L = filter (\<lambda>t. \<not> inserted t) (lp_out L)"

text \<open>What is left of the raw stream: end markers merged, line-final colons relabelled.\<close>

fun mergeEnds :: "Token list \<Rightarrow> Token list" where
  "mergeEnds [] = []"
| "mergeEnds (t # rest) =
     (if terminalKind (tk_kind t) then [t]
      else if isEndMarker t rest then endMarker t (nextRaw rest) # mergeEnds (tl rest)
      else relabel t rest # mergeEnds rest)"

lemma popRegions_out:
  "popRegions go t rs out = (rs', out') \<Longrightarrow>
   \<exists>n. out' = out @ replicate n (synthToken Outdent t) \<and> length rs = n + length rs'"
proof (induction go t rs out rule: popRegions.induct)
  case (2 go t r rs out)
  show ?case
  proof (cases "rg_kind r = Indented \<and> go r")
    case True
    then obtain n where "out' = (out @ [synthToken Outdent t]) @ replicate n (synthToken Outdent t)"
      "length rs = n + length rs'" using 2 by auto
    then show ?thesis by (intro exI[of _ "Suc n"]) simp
  next
    case False
    then show ?thesis using 2(2) by (intro exI[of _ 0]) auto
  qed
qed simp

lemma popIndented_out:
  obtains n where "lp_out (popIndented go t L) = lp_out L @ replicate n (synthToken Outdent t)"
    and "length (lp_regions L) = n + length (lp_regions (popIndented go t L))"
    and "lp_prevKind (popIndented go t L) = lp_prevKind L"
proof -
  obtain rs out where p: "popRegions go t (lp_regions L) (lp_out L) = (rs, out)" by fastforce
  show thesis using popRegions_out[OF p] that by (auto simp: popIndented_def p)
qed

lemma sourceTokens_update [simp]:
  "sourceTokens (L\<lparr>lp_regions := rs\<rparr>) = sourceTokens L" "sourceTokens (L\<lparr>lp_prevKind := k\<rparr>) = sourceTokens L"
  "sourceTokens (L\<lparr>lp_prevClosesCondition := b\<rparr>) = sourceTokens L"
  "sourceTokens (L\<lparr>lp_extensionHeaderLine := i\<rparr>) = sourceTokens L"
  "sourceTokens (pushRegion r L) = sourceTokens L" "sourceTokens (setBack r L) = sourceTokens L"
  "sourceTokens (setPending ks L) = sourceTokens L" "sourceTokens (settleWidth w c L) = sourceTokens L"
  "sourceTokens (conditionClosed L) = sourceTokens L"
  by (simp_all add: sourceTokens_def pushRegion_def setBack_def settleWidth_back conditionClosed_out)

lemma sourceTokens_synth [simp]:
  "k \<in> {Newline, Indent, Outdent} \<Longrightarrow> sourceTokens (synth k t L) = sourceTokens L"
  by (auto simp: sourceTokens_def synth_def Let_def inserted_def)

lemma sourceTokens_popIndented [simp]: "sourceTokens (popIndented go t L) = sourceTokens L"
  by (rule popIndented_out[of go t L]) (simp add: sourceTokens_def inserted_def)

lemma sourceTokens_emit:
  "sourceTokens (L\<lparr>lp_out := lp_out L @ [t]\<rparr>) = sourceTokens L @ (if inserted t then [] else [t])"
  by (simp add: sourceTokens_def)

lemma sourceTokens_unindent: "unindent t rest L = Inr L1 \<Longrightarrow> sourceTokens L1 = sourceTokens L"
  unfolding unindent_def Let_def by (simp split: if_splits) auto

lemma sourceTokens_lineBreak: "lineBreak t rest L = Inr L1 \<Longrightarrow> sourceTokens L1 = sourceTokens L"
  unfolding lineBreak_def Let_def
  by (simp split: if_splits) (auto dest: sourceTokens_unindent)

lemma sourceTokens_breakLine: "breakLine t rest L = Inr L1 \<Longrightarrow> sourceTokens L1 = sourceTokens L"
  by (auto simp: breakLine_def dest: sourceTokens_lineBreak split: if_splits)

lemma sourceTokens_closeByKeyword [simp]: "sourceTokens (closeByKeyword t L) = sourceTokens L"
  by (auto simp: closeByKeyword_def satisfyPending_def Let_def split: option.splits list.splits)

lemma sourceTokens_enterToken: "enterToken t rest L = Inr (c, L1) \<Longrightarrow> sourceTokens L1 = sourceTokens L"
proof (cases "isCloser (tk_kind t)")
  case True
  moreover assume e: "enterToken t rest L = Inr (c, L1)"
  ultimately obtain b L2 where b: "closeBracket t L = Inr (b, L2)"
    by (auto simp: enterToken_def Let_def isCloser_def split: sum.splits)
  then have "sourceTokens L2 = sourceTokens L" by (auto simp: closeBracket_def Let_def split: if_splits)
  then show ?thesis using enterToken_closer[OF True b e] by auto
next
  case False
  moreover assume "enterToken t rest L = Inr (c, L1)"
  ultimately show ?thesis by (auto simp: enterToken_def Let_def split: if_splits)
qed

lemma sourceTokens_emitToken:
  assumes "tk_kind t \<notin> layoutKinds" "emitToken t rest L = Inr L'"
  shows "sourceTokens L' = sourceTokens L @ [relabel t rest]"
proof -
  obtain c L1 where e: "enterToken t rest (closeByKeyword t L) = Inr (c, L1)"
    using assms(2) by (auto simp: emitToken_def split: sum.splits)
  have "\<not> inserted (relabel t rest)"
    using assms(1) relabel_kind[of t rest] by (auto simp: inserted_def layoutKinds_def)
  moreover have "sourceTokens L1 = sourceTokens L" using sourceTokens_enterToken[OF e] by simp
  moreover have "lp_out L' = lp_out L1 @ [relabel t rest]"
    using assms(2) e by (auto simp: emitToken_def Let_def)
  ultimately show ?thesis by (simp add: sourceTokens_def)
qed

interpretation erasure: layout_invariant
  "\<lambda>raw L. sourceTokens L @ mergeEnds raw = mergeEnds raw0"
  "\<lambda>out. filter (\<lambda>t. \<not> inserted t) out = mergeEnds raw0" for raw0
proof unfold_locales
  fix t rest L L1 L2
  assume k: "\<not> terminalKind (tk_kind t)" and i: "sourceTokens L @ mergeEnds (t # rest) = mergeEnds raw0"
    and b: "breakLine t rest L = Inr L1" and m: "tryEndMarker t rest L1 = Some L2"
  from m have "isEndMarker t rest" and "sourceTokens L2 = sourceTokens L1 @ [endMarker t (nextRaw rest)]"
    by (auto simp: tryEndMarker_def sourceTokens_def inserted_def endMarker_def split: if_splits)
  then show "sourceTokens L2 @ mergeEnds (tl rest) = mergeEnds raw0"
    using i k sourceTokens_breakLine[OF b] by simp
next
  fix t rest L L1 L2
  assume k: "\<not> terminalKind (tk_kind t)" and i: "sourceTokens L @ mergeEnds (t # rest) = mergeEnds raw0"
    and b: "breakLine t rest L = Inr L1" and m: "tryEndMarker t rest L1 = None"
    and e: "emitToken t rest L1 = Inr L2" and r: "rawSuffix (t # rest)"
  have "\<not> isEndMarker t rest" using m by (simp add: tryEndMarker_def split: if_splits)
  then show "sourceTokens L2 @ mergeEnds rest = mergeEnds raw0"
    using i k sourceTokens_breakLine[OF b] sourceTokens_emitToken[OF _ e] r by (simp add: rawSuffix_def)
next
  fix t rest L out
  assume k: "tk_kind t = EndOfFile" and i: "sourceTokens L @ mergeEnds (t # rest) = mergeEnds raw0"
    and f: "finishLayout t L = Inr out"
  let ?L = "popIndented (\<lambda>_. True) t L"
  have "out = lp_out ?L @ [t]" using f by (simp add: finishLayout_def Let_def split: if_splits)
  then have "filter (\<lambda>t. \<not> inserted t) out = sourceTokens ?L @ [t]"
    using k by (simp add: sourceTokens_def inserted_def)
  then show "filter (\<lambda>t. \<not> inserted t) out = mergeEnds raw0"
    using i k by (simp add: terminalKind_def)
qed

subsection \<open>Where separators and indentations may stand\<close>

definition follows :: "TokenKind \<Rightarrow> TokenKind \<Rightarrow> bool" where
  "follows a b \<longleftrightarrow> (b = Newline \<longrightarrow> canEndStatement a) \<and> (a = Newline \<longrightarrow> canBeginStatement b) \<and>
     (b = Indent \<longrightarrow> opensRegion a \<or> isCloser a)"

definition outKinds :: "LayoutPass \<Rightarrow> TokenKind list" where
  "outKinds L = map tk_kind (lp_out L)"

text \<open>Between two raw tokens, and while the token \<open>t\<close> is being processed.\<close>

definition separated :: "LayoutPass \<Rightarrow> bool" where
  "separated L \<longleftrightarrow> successively follows (outKinds L) \<and>
     (outKinds L \<noteq> [] \<longrightarrow> last (outKinds L) = lp_prevKind L \<and> lp_prevKind L \<noteq> Newline) \<and>
     (lp_prevClosesCondition L \<longrightarrow> isCloser (lp_prevKind L))"

definition separating :: "Token \<Rightarrow> LayoutPass \<Rightarrow> bool" where
  "separating t L \<longleftrightarrow> successively follows (outKinds L) \<and>
     (outKinds L \<noteq> [] \<longrightarrow> last (outKinds L) = Newline \<longrightarrow> canBeginStatement (tk_kind t) \<and> tk_firstOnLine t)"

lemma successively_snoc:
  "successively P (xs @ [x]) \<longleftrightarrow> successively P xs \<and> (xs \<noteq> [] \<longrightarrow> P (last xs) x)"
  by (auto simp: successively_append_iff)

lemma successively_outdents:
  "successively follows ks \<Longrightarrow> (ks \<noteq> [] \<Longrightarrow> last ks \<noteq> Newline) \<Longrightarrow>
   successively follows (ks @ replicate n Outdent)"
proof (induction n)
  case (Suc n)
  have "ks @ replicate (Suc n) Outdent = (ks @ replicate n Outdent) @ [Outdent]"
    by (simp add: replicate_append_same)
  moreover have "follows (last (ks @ replicate n Outdent)) Outdent" if "ks @ replicate n Outdent \<noteq> []"
    using that Suc(3) by (cases n) (auto simp: follows_def)
  ultimately show ?case using Suc by (simp only: successively_snoc) simp
qed simp

lemma outKinds_update [simp]:
  "outKinds (L\<lparr>lp_regions := rs\<rparr>) = outKinds L" "outKinds (L\<lparr>lp_prevKind := k\<rparr>) = outKinds L"
  "outKinds (L\<lparr>lp_prevClosesCondition := b\<rparr>) = outKinds L"
  "outKinds (L\<lparr>lp_extensionHeaderLine := i\<rparr>) = outKinds L"
  "outKinds (pushRegion r L) = outKinds L" "outKinds (setBack r L) = outKinds L"
  "outKinds (setPending ks L) = outKinds L" "outKinds (settleWidth w c L) = outKinds L"
  "outKinds (conditionClosed L) = outKinds L" "outKinds (synth k t L) = outKinds L @ [k]"
  by (simp_all add: outKinds_def pushRegion_def setBack_def settleWidth_back conditionClosed_out
      synth_def Let_def)

lemma outKinds_popIndented:
  obtains n where "outKinds (popIndented go t L) = outKinds L @ replicate n Outdent"
    and "length (lp_regions L) = n + length (lp_regions (popIndented go t L))"
  by (rule popIndented_out[of go t L]) (simp add: outKinds_def)

lemma separating_unindent:
  assumes "separated L" "outKinds L \<noteq> []" "tk_firstOnLine t" "unindent t rest L = Inr L'"
  shows "separating t L'"
proof -
  define go :: "Region \<Rightarrow> bool" where "go = (\<lambda>r. tk_lineIndent t < rg_width r)"
  obtain n where n: "outKinds (popIndented go t L) = outKinds L @ replicate n Outdent"
    and len: "length (lp_regions L) = n + length (lp_regions (popIndented go t L))"
    by (rule outKinds_popIndented)
  have s: "successively follows (outKinds L @ replicate n Outdent)"
    using assms(1,2) by (intro successively_outdents) (auto simp: separated_def)
  have l: "last (outKinds L @ replicate n Outdent) = (if n = 0 then lp_prevKind L else Outdent)"
    using assms(1,2) by (simp add: separated_def)
  from assms(4) consider (keep) "L' = popIndented go t L"
    | (nl) "L' = synth Newline t (popIndented go t L)" "n > 0 \<or> canEndStatement (lp_prevKind L)"
        "canBeginStatement (tk_kind t)"
    using len by (auto simp: unindent_def Let_def go_def[symmetric] split: if_splits)
  then show ?thesis
  proof cases
    case keep
    then show ?thesis using s l n assms(1,2) by (auto simp: separating_def separated_def)
  next
    case nl
    have "follows (last (outKinds L @ replicate n Outdent)) Newline"
      using nl(2) l by (auto simp: follows_def canEndStatement_def canBeginStatement_def)
    then show ?thesis using nl s n assms(3) by (simp add: separating_def successively_snoc del: append_assoc)
  qed
qed

lemma separating_synth:
  assumes "separated L" "outKinds L \<noteq> []" "tk_firstOnLine t" "outKinds L' = outKinds L"
    and "k = Newline \<Longrightarrow> canEndStatement (lp_prevKind L) \<and> canBeginStatement (tk_kind t)"
    and "k = Indent \<Longrightarrow> opensRegion (lp_prevKind L) \<or> isCloser (lp_prevKind L)"
  shows "separating t (synth k t L')"
  using assms by (auto simp: separating_def separated_def successively_snoc follows_def canBeginStatement_def)

lemma separating_lineBreak:
  assumes "separated L" "outKinds L \<noteq> []" "tk_firstOnLine t" "lineBreak t rest L = Inr L'"
  shows "separating t L'"
proof -
  define c where "c \<longleftrightarrow> lp_prevClosesCondition L \<and> tk_kind t \<noteq> KwThen \<and> tk_kind t \<noteq> KwDo \<and> tk_kind t \<noteq> KwYield"
  let ?L = "settleWidth (tk_lineIndent t) c L"
  have closer: "c \<Longrightarrow> isCloser (lp_prevKind L)" using assms(1) by (simp add: c_def separated_def)
  have L1: "separated ?L" "outKinds ?L \<noteq> []"
    using assms(1,2) by (simp_all add: separated_def settleWidth_back(2)) (simp add: settleWidth_def Let_def setBack_def)
  have "separating t L" "separating t ?L" using assms(1,2) by (auto simp: separating_def separated_def)
  moreover have "separating t (synth Indent t (pushRegion r ?L))" if "opensRegion (lp_prevKind L) \<or> c" for r
    using that closer by (intro separating_synth[OF assms(1-3)]) auto
  moreover have "separating t (synth Newline t ?L)"
    if "canEndStatement (lp_prevKind L)" "canBeginStatement (tk_kind t)"
    using that by (intro separating_synth[OF assms(1-3)]) auto
  ultimately show ?thesis
    using assms(4) separating_unindent[OF L1 assms(3), of rest L']
    unfolding lineBreak_def Let_def c_def[symmetric]
    by (auto split: if_splits)
qed

lemma separating_breakLine:
  assumes "separated L" "breakLine t rest L = Inr L'"
  shows "separating t L'"
proof (cases "tk_firstOnLine t \<and> lp_out L \<noteq> []")
  case True
  then show ?thesis using separating_lineBreak[OF assms(1)] assms(2) by (simp add: breakLine_def outKinds_def)
next
  case False
  then show ?thesis using assms by (auto simp: breakLine_def separating_def separated_def split: if_splits)
qed

lemma satisfyPending_out: "satisfyPending k L = Some L' \<Longrightarrow> outKinds L' = outKinds L"
  by (auto simp: satisfyPending_def split: list.splits)

lemma separating_closeByKeyword: "separating t L \<Longrightarrow> separating t (closeByKeyword t L)"
  by (auto simp: closeByKeyword_def Let_def separating_def successively_snoc follows_def satisfyPending_out
      split: option.split)

lemma separating_popIndented:
  assumes "separating t L" "\<not> canBeginStatement (tk_kind t)"
  shows "separating t (popIndented go t L)"
proof -
  obtain n where n: "outKinds (popIndented go t L) = outKinds L @ replicate n Outdent"
    by (rule outKinds_popIndented)
  have "successively follows (outKinds L @ replicate n Outdent)"
    using assms by (intro successively_outdents) (auto simp: separating_def)
  then show ?thesis using assms n by (cases n) (auto simp: separating_def)
qed

lemma enterToken_sep:
  assumes "separating t L" "enterToken t rest L = Inr (c, L1)"
  shows "separating t L1" "c \<Longrightarrow> isCloser (tk_kind t)"
proof -
  show "separating t L1"
  proof (cases "isCloser (tk_kind t)")
    case True
    then obtain b L2 where b: "closeBracket t L = Inr (b, L2)"
      using assms(2) by (auto simp: enterToken_def Let_def isCloser_def split: sum.splits)
    have "separating t (popIndented (\<lambda>_. True) t L)"
      using True by (intro separating_popIndented[OF assms(1)]) (auto simp: isCloser_def canBeginStatement_def)
    then have "separating t L2"
      using b by (auto simp: closeBracket_def Let_def separating_def split: if_splits)
    then show ?thesis using enterToken_closer[OF True b assms(2)] by (auto simp: separating_def)
  next
    case False
    then show ?thesis using assms by (auto simp: enterToken_def Let_def separating_def split: if_splits)
  qed
  show "isCloser (tk_kind t)" if c
    using that assms(2) by (auto simp: enterToken_def Let_def split: if_splits)
qed

lemma separated_emitToken:
  assumes "separating t L" "tk_kind t \<notin> layoutKinds" "emitToken t rest L = Inr L'"
  shows "separated L'"
proof -
  obtain c L1 where e: "enterToken t rest (closeByKeyword t L) = Inr (c, L1)"
    using assms(3) by (auto simp: emitToken_def split: sum.splits)
  note s = enterToken_sep[OF separating_closeByKeyword[OF assms(1)] e]
  have out: "outKinds L' = outKinds L1 @ [tk_kind (relabel t rest)]" "lp_prevKind L' = tk_kind (relabel t rest)"
    "lp_prevClosesCondition L' = c"
    using assms(3) e by (auto simp: emitToken_def Let_def outKinds_def)
  have k: "tk_kind (relabel t rest) \<notin> {Newline, Indent}" "isCloser (tk_kind t) \<Longrightarrow> isCloser (tk_kind (relabel t rest))"
    "canBeginStatement (tk_kind t) \<Longrightarrow> canBeginStatement (tk_kind (relabel t rest))"
    using assms(2) relabel_kind[of t rest]
    by (auto simp: layoutKinds_def isCloser_def canBeginStatement_def)
  show ?thesis using s k out by (auto simp: separated_def separating_def successively_snoc follows_def)
qed

lemma separated_tryEndMarker:
  assumes "separating t L" "tryEndMarker t rest L = Some L'"
  shows "separated L'"
proof -
  have "outKinds L' = outKinds L @ [EndMarker]" "lp_prevKind L' = EndMarker" "\<not> lp_prevClosesCondition L'"
    using assms(2) by (auto simp: tryEndMarker_def outKinds_def endMarker_def split: if_splits)
  then show ?thesis using assms(1)
    by (auto simp: separated_def separating_def successively_snoc follows_def canBeginStatement_def)
qed

lemma separated_finishLayout:
  assumes "separated L" "tk_kind t = EndOfFile" "finishLayout t L = Inr out"
  shows "successively follows (map tk_kind out)"
proof -
  let ?L = "popIndented (\<lambda>_. True) t L"
  have "separating t L" using assms(1) by (auto simp: separated_def separating_def)
  then have s: "separating t ?L"
    using assms(2) by (intro separating_popIndented) (auto simp: canBeginStatement_def)
  have "map tk_kind out = outKinds ?L @ [EndOfFile]"
    using assms(2,3) by (auto simp: finishLayout_def Let_def outKinds_def split: if_splits)
  then show ?thesis using s assms(2)
    by (auto simp: separating_def successively_snoc follows_def canBeginStatement_def)
qed

interpretation separation: layout_invariant
  "\<lambda>_. separated" "\<lambda>out. successively follows (map tk_kind out)"
proof unfold_locales
  fix t rest L L1 L2
  assume "separated L" "breakLine t rest L = Inr L1" "tryEndMarker t rest L1 = Some L2"
  then show "separated L2" using separating_breakLine separated_tryEndMarker by blast
next
  fix t rest L L1 L2
  assume "rawSuffix (t # rest)" "separated L" "breakLine t rest L = Inr L1" "emitToken t rest L1 = Inr L2"
  then show "separated L2"
    using separating_breakLine separated_emitToken[of t L1 rest L2] by (auto simp: rawSuffix_def)
qed (rule separated_finishLayout)

lemma separated_new: "separated (newLayoutPass raw)"
  by (simp add: separated_def outKinds_def newLayoutPass_def)

text \<open>A stream whose one terminal token is an error has no layout.\<close>

interpretation failing: layout_invariant
  "\<lambda>raw _. list_all (\<lambda>t. tk_kind t \<noteq> EndOfFile) raw" "\<lambda>_. False"
proof unfold_locales
  fix t rest L2
  assume "list_all (\<lambda>t. tk_kind t \<noteq> EndOfFile) (t # rest)"
  then show "list_all (\<lambda>t. tk_kind t \<noteq> EndOfFile) (tl rest)" by (cases rest) auto
qed auto

subsection \<open>The pass as a client of the lexer\<close>

text \<open>
  What the pass relies on: a stream that ends with its only terminal token, and without the
  kinds the pass produces.  The second assumption is what makes errors impossible to lose.
\<close>

locale token_source =
  fixes toks :: "byte_string \<Rightarrow> Token list"
  assumes suffix: "rawSuffix (toks src)"
    and inner: "list_all (\<lambda>t. \<not> terminalKind (tk_kind t)) (butlast (toks src))"
begin

lemma layout_nested:
  "applyLayout (toks src) = Inr out \<Longrightarrow> nestAll (map tk_kind out) [TopLevel] = Some [TopLevel]"
  by (rule nesting.applyLayout_sound[OF suffix nested_new])

lemma layout_erasure:
  "applyLayout (toks src) = Inr out \<Longrightarrow> filter (\<lambda>t. \<not> inserted t) out = mergeEnds (toks src)"
  by (rule erasure.applyLayout_sound[OF suffix]) (simp_all add: sourceTokens_def newLayoutPass_def)

lemma layout_separated:
  "applyLayout (toks src) = Inr out \<Longrightarrow> successively follows (map tk_kind out)"
  by (rule separation.applyLayout_sound[OF suffix separated_new])

lemma layout_no_invalid_argument: "applyLayout (toks src) \<noteq> Inl (InvalidArgument m)"
  using suffix by (auto simp: applyLayout_def rawSuffix_def terminalKind_def split: sum.split)

lemma layout_error:
  assumes "tk_kind (last (toks src)) = Error"
  shows "\<exists>e. applyLayout (toks src) = Inl (LexFailure e)"
proof -
  have "list_all (\<lambda>t. tk_kind t \<noteq> EndOfFile) (butlast (toks src) @ [last (toks src)])"
    using inner[of src] assms by (auto simp: list_all_iff terminalKind_def)
  moreover have "toks src \<noteq> []" using suffix by (simp add: rawSuffix_def)
  ultimately have "list_all (\<lambda>t. tk_kind t \<noteq> EndOfFile) (toks src)" by simp
  then have "applyLayout (toks src) \<noteq> Inr out" for out
    using failing.applyLayout_sound[OF suffix] by blast
  then show ?thesis using layout_no_invalid_argument
    by (metis LayoutFailure.exhaust sum.exhaust)
qed

end

lemma tokenizeAll_suffix: "rawSuffix (tokenizeAll src)"
  using tokenizeFrom_last tokenizeFrom_kinds by (simp add: rawSuffix_def tokenizeAll_def)

interpretation lexer_source: token_source tokenizeAll
proof unfold_locales
  fix src
  show "rawSuffix (tokenizeAll src)" by (rule tokenizeAll_suffix)
  show "list_all (\<lambda>t. \<not> terminalKind (tk_kind t)) (butlast (tokenizeAll src))"
    by (simp add: tokenizeAll_def tokenizeFrom_butlast)
qed

text \<open>
  C12: the brackets and the \<^const>\<open>Indent\<close>/\<^const>\<open>Outdent\<close> pairs of every successful tokenization
  are well nested, and no \<^const>\<open>Newline\<close> or \<^const>\<open>Indent\<close> stands directly inside parentheses or
  square brackets.
\<close>

theorem tokenize_nested:
  assumes "tokenize source = Inr out"
  shows "nestAll (map tk_kind out) [TopLevel] = Some [TopLevel]"
  using lexer_source.layout_nested assms unfolding tokenize_def .

theorem tokenize_nested_witness:
  "nestAll (map tk_kind (projr (tokenize ''f(a) =\<newline>  b\<newline>c''))) [TopLevel] = Some [TopLevel]"
proof (rule tokenize_nested)
  show "tokenize ''f(a) =\<newline>  b\<newline>c'' = Inr (projr (tokenize ''f(a) =\<newline>  b\<newline>c''))"
    by code_simp
qed

text \<open>
  C13: the pass only inserts.  Dropping the \<^const>\<open>Newline\<close>, \<^const>\<open>Indent\<close> and \<^const>\<open>Outdent\<close>
  tokens of a successful tokenization leaves the raw tokens, in order and unchanged, with each
  \<^verbatim>\<open>end\<close> marker merged into one token and each line-final colon relabelled.
\<close>

theorem tokenize_erasure:
  assumes "tokenize source = Inr out"
  shows "filter (\<lambda>t. \<not> inserted t) out = mergeEnds (tokenizeAll source)"
  using lexer_source.layout_erasure assms unfolding tokenize_def .

theorem tokenize_erasure_witness:
  "filter (\<lambda>t. \<not> inserted t) (projr (tokenize ''x:\<newline> y\<newline>end x'')) = mergeEnds (tokenizeAll ''x:\<newline> y\<newline>end x'')"
proof (rule tokenize_erasure)
  show "tokenize ''x:\<newline> y\<newline>end x'' = Inr (projr (tokenize ''x:\<newline> y\<newline>end x''))"
    by code_simp
qed

text \<open>
  C14: statement separators are inserted only where the grammar can take them: a
  \<^const>\<open>Newline\<close> stands after a token that can end a statement and before one that can begin
  one, and an \<^const>\<open>Indent\<close> stands after a region opener or a closing bracket.
\<close>

theorem tokenize_separated:
  assumes "tokenize source = Inr out"
  shows "successively follows (map tk_kind out)"
  using lexer_source.layout_separated assms unfolding tokenize_def .

theorem tokenize_separated_witness:
  "successively follows (map tk_kind (projr (tokenize ''a\<newline>b'')))"
proof (rule tokenize_separated)
  show "tokenize ''a\<newline>b'' = Inr (projr (tokenize ''a\<newline>b''))"
    by code_simp
qed

text \<open>
  C19: a lexical error is never lost: when the raw stream ends with an error token, the
  tokenization fails with a \<^verbatim>\<open>LexError\<close> and never returns tokens.
\<close>

theorem tokenize_error:
  assumes "tk_kind (last (tokenizeAll source)) = Error"
  shows "\<exists>e. tokenize source = Inl (LexFailure e)"
  using lexer_source.layout_error[OF assms] unfolding tokenize_def .

theorem tokenize_error_witness:
  "\<exists>e. tokenize ''a ?? /*'' = Inl (LexFailure e)"
  by (rule tokenize_error) code_simp

end
