(* ===== verification/Monads.thy ===== *)
theory Monads
  imports Main
begin

text \<open>
  Sequencing for the routines of the sources that fail or that thread a state through many calls.
  A failing routine returns \<open>'e + 'a\<close> (\<^const>\<open>Inl\<close> is the exception); a routine that also updates a
  state is a function from the state to \<open>'e + 'a \<times> 's\<close>.  The congruence rules let \<^theory_text>\<open>function\<close> see
  the recursive calls made inside the combinators.
\<close>

subsection \<open>Errors\<close>

definition bindE :: "'e + 'a \<Rightarrow> ('a \<Rightarrow> 'e + 'b) \<Rightarrow> 'e + 'b" where
  "bindE m f = (case m of Inl e \<Rightarrow> Inl e | Inr x \<Rightarrow> f x)"

fun traverseE :: "('a \<Rightarrow> 'e + 'b) \<Rightarrow> 'a list \<Rightarrow> 'e + 'b list" where
  "traverseE f [] = Inr []"
| "traverseE f (x # xs) = bindE (f x) (\<lambda>y. bindE (traverseE f xs) (\<lambda>ys. Inr (y # ys)))"

definition optionE :: "('a \<Rightarrow> 'e + 'b) \<Rightarrow> 'a option \<Rightarrow> 'e + 'b option" where
  "optionE f x = (case x of None \<Rightarrow> Inr None | Some a \<Rightarrow> bindE (f a) (\<lambda>b. Inr (Some b)))"

lemma bindE_simps [simp]: "bindE (Inr x) f = f x" "bindE (Inl e) f = Inl e"
  by (simp_all add: bindE_def)

lemma bindE_Inr_iff [simp]: "bindE m f = Inr y \<longleftrightarrow> (\<exists>x. m = Inr x \<and> f x = Inr y)"
  by (cases m) auto

lemma bindE_cong [fundef_cong]:
  "m = m' \<Longrightarrow> (\<And>x. m' = Inr x \<Longrightarrow> f x = g x) \<Longrightarrow> bindE m f = bindE m' g"
  by (cases m') simp_all

lemma traverseE_cong [fundef_cong]:
  "xs = ys \<Longrightarrow> (\<And>x. x \<in> set ys \<Longrightarrow> f x = g x) \<Longrightarrow> traverseE f xs = traverseE g ys"
  by (induction xs arbitrary: ys) auto

lemma optionE_cong [fundef_cong]:
  "x = y \<Longrightarrow> (\<And>a. y = Some a \<Longrightarrow> f a = g a) \<Longrightarrow> optionE f x = optionE g y"
  by (cases y) (simp_all add: optionE_def)

lemma traverseE_id: "(\<And>x. x \<in> set xs \<Longrightarrow> f x = Inr x) \<Longrightarrow> traverseE f xs = Inr xs"
  by (induction xs) simp_all

subsection \<open>Errors and state\<close>

type_synonym ('e, 's, 'a) action = "'s \<Rightarrow> 'e + 'a \<times> 's"

definition ret :: "'a \<Rightarrow> ('e, 's, 'a) action" where
  "ret x s = Inr (x, s)"

definition throw :: "'e \<Rightarrow> ('e, 's, 'a) action" where
  "throw e s = Inl e"

definition lift :: "'e + 'a \<Rightarrow> ('e, 's, 'a) action" where
  "lift m s = (case m of Inl e \<Rightarrow> Inl e | Inr x \<Rightarrow> Inr (x, s))"

definition andThen :: "('e, 's, 'a) action \<Rightarrow> ('a \<Rightarrow> ('e, 's, 'b) action) \<Rightarrow> ('e, 's, 'b) action" where
  "andThen m f s = (case m s of Inl e \<Rightarrow> Inl e | Inr (x, s') \<Rightarrow> f x s')"

fun mapA :: "('a \<Rightarrow> ('e, 's, 'b) action) \<Rightarrow> 'a list \<Rightarrow> ('e, 's, 'b list) action" where
  "mapA f [] = ret []"
| "mapA f (x # xs) = andThen (f x) (\<lambda>y. andThen (mapA f xs) (\<lambda>ys. ret (y # ys)))"

definition optionA :: "('a \<Rightarrow> ('e, 's, 'b) action) \<Rightarrow> 'a option \<Rightarrow> ('e, 's, 'b option) action" where
  "optionA f x = (case x of None \<Rightarrow> ret None | Some a \<Rightarrow> andThen (f a) (\<lambda>b. ret (Some b)))"

lemma ret_simp [simp]: "ret x s = Inr (x, s)"
  by (simp add: ret_def)

lemma throw_simp [simp]: "throw e s = Inl e"
  by (simp add: throw_def)

lemma lift_simps [simp]: "lift (Inr x) s = Inr (x, s)" "lift (Inl e) s = Inl e"
  by (simp_all add: lift_def)

lemma lift_Inr_iff [simp]: "lift m s = Inr (x, s') \<longleftrightarrow> m = Inr x \<and> s' = s"
  by (cases m) auto

lemma andThen_Inr_iff [simp]:
  "andThen m f s = Inr (y, t) \<longleftrightarrow> (\<exists>x s'. m s = Inr (x, s') \<and> f x s' = Inr (y, t))"
  by (auto simp: andThen_def split: sum.splits)

lemma andThen_ok [simp]: "m s = Inr (x, s') \<Longrightarrow> andThen m f s = f x s'"
  by (simp add: andThen_def)

lemma andThen_fail [simp]: "m s = Inl e \<Longrightarrow> andThen m f s = Inl e"
  by (simp add: andThen_def)

text \<open>
  Rules of this form, with the state on both sides, are what the recursive functions below need:
  a recursive call is applied to the state that the calls before it left.
\<close>

lemma andThen_cong [fundef_cong]:
  "m s = m' s' \<Longrightarrow> s = s' \<Longrightarrow> (\<And>x t. m' s' = Inr (x, t) \<Longrightarrow> f x t = g x t) \<Longrightarrow>
   andThen m f s = andThen m' g s'"
  by (auto simp: andThen_def split: sum.split)

lemma mapA_cong [fundef_cong]:
  assumes "xs = ys" "s = s'" "\<And>x t. x \<in> set ys \<Longrightarrow> f x t = g x t"
  shows "mapA f xs s = mapA g ys s'"
proof -
  have "mapA f ys t = mapA g ys t" for t
    using assms(3)
  proof (induction ys arbitrary: t)
    case (Cons y ys)
    then have "f y t = g y t" and "mapA f ys = mapA g ys" by (auto intro: ext)
    then show ?case by (auto simp: andThen_def split: sum.split)
  qed simp
  with assms(1,2) show ?thesis by simp
qed

lemma optionA_cong [fundef_cong]:
  "x = y \<Longrightarrow> s = s' \<Longrightarrow> (\<And>a t. y = Some a \<Longrightarrow> f a t = g a t) \<Longrightarrow> optionA f x s = optionA g y s'"
  by (cases y) (auto simp: optionA_def andThen_def split: sum.split)

lemma mapA_member:
  "mapA f xs s = Inr (ys, s') \<Longrightarrow> y \<in> set ys \<Longrightarrow> \<exists>x \<in> set xs. \<exists>t t'. f x t = Inr (y, t')"
  by (induction xs arbitrary: s ys) (fastforce simp: ret_def)+

text \<open>
  \<open>succeeds m P\<close>: from every state the action returns, and its result satisfies \<open>P\<close>.
\<close>

definition succeeds :: "('e, 's, 'a) action \<Rightarrow> ('a \<Rightarrow> bool) \<Rightarrow> bool" where
  "succeeds m P \<longleftrightarrow> (\<forall>s. \<exists>x s'. m s = Inr (x, s') \<and> P x)"

lemma succeedsD: "succeeds m P \<Longrightarrow> \<exists>x s'. m s = Inr (x, s') \<and> P x"
  by (simp add: succeeds_def)

lemma succeeds_ret [simp]: "succeeds (ret x) P \<longleftrightarrow> P x"
  by (simp add: succeeds_def)

lemma succeeds_Inr [simp]: "succeeds (\<lambda>s. Inr (x, s)) P \<longleftrightarrow> P x"
  by (simp add: succeeds_def)

lemma succeeds_lift: "m = Inr x \<Longrightarrow> P x \<Longrightarrow> succeeds (lift m) P"
  by (simp add: succeeds_def)

lemma succeeds_andThen:
  "succeeds m Q \<Longrightarrow> (\<And>x. Q x \<Longrightarrow> succeeds (f x) P) \<Longrightarrow> succeeds (andThen m f) P"
  unfolding succeeds_def by (metis andThen_ok)

lemma succeeds_mono: "succeeds m Q \<Longrightarrow> (\<And>x. Q x \<Longrightarrow> P x) \<Longrightarrow> succeeds m P"
  unfolding succeeds_def by blast

lemma succeeds_conj:
  "succeeds m P \<Longrightarrow> (\<And>s x s'. m s = Inr (x, s') \<Longrightarrow> Q x) \<Longrightarrow> succeeds m (\<lambda>x. P x \<and> Q x)"
  unfolding succeeds_def by blast

lemma succeeds_mapA:
  "(\<And>x. x \<in> set xs \<Longrightarrow> succeeds (f x) P) \<Longrightarrow> succeeds (mapA f xs) (\<lambda>ys. length ys = length xs \<and> list_all P ys)"
proof (induction xs)
  case (Cons x xs)
  then have x: "succeeds (f x) P"
    and xs: "succeeds (mapA f xs) (\<lambda>ys. length ys = length xs \<and> list_all P ys)" by auto
  show ?case
    unfolding mapA.simps by (rule succeeds_andThen [OF x]) (rule succeeds_andThen [OF xs], simp)
qed simp

lemma succeeds_optionA:
  "(\<And>a. x = Some a \<Longrightarrow> succeeds (f a) P) \<Longrightarrow>
   succeeds (optionA f x) (\<lambda>y. (y = None) = (x = None) \<and> pred_option P y)"
  by (cases x) (auto simp: optionA_def intro: succeeds_andThen)

end
