(* ===== verification/AST.thy ===== *)
theory AST
  imports Tokens Utf8
begin

text \<open>
  The syntax tree of \<^verbatim>\<open>src/src/frontend/AST.h\<close> and the operations of \<^verbatim>\<open>AST.cpp\<close>: the rendering the
  parser tests assert on, the variables of a pattern, the table of child slots with the two walks
  built on it (\<^verbatim>\<open>rebase\<close>, \<^verbatim>\<open>destroyTree\<close>) and the copies the desugarer makes.

  A \<^verbatim>\<open>unique_ptr\<close> that may be null is an option, one that never is, its target.  The structs that
  hold nodes are polymorphic in the node type, so that \<open>Node\<close> is one datatype nested through them;
  their other members are a record.  A \<^verbatim>\<open>double\<close> is its 64-bit pattern.  Reading a missing
  sub-pattern or type argument, undefined behaviour of the source, gives the empty string here.
\<close>

subsection \<open>Types, parameters and patterns\<close>

datatype TypeKind =
  TK_Name | TK_Applied | TK_Function | TK_Tuple | TK_ByName | TK_Repeated | TK_Wildcard | TK_Infix | TK_Builtin

datatype TypeTree =
  TypeTree (tt_kind: TypeKind) (tt_name: byte_string) (tt_args: "TypeTree list") (tt_pos: SourcePos)

record Modifiers =
  isPrivate :: bool
  isProtected :: bool
  isOverride :: bool
  isAbstract :: bool
  isFinal :: bool
  isSealed :: bool

record ParamHead =
  pa_name :: byte_string
  pa_type :: "TypeTree option"
  pa_byName :: bool
  pa_repeated :: bool
  pa_pos :: SourcePos
  pa_isVal :: bool
  pa_isVar :: bool
  pa_mods :: Modifiers

datatype 'n Param = Param (pa_head: ParamHead) (pa_default: "'n option")

datatype PatternKind =
  PK_Wildcard | PK_Var | PK_Literal | PK_Stable | PK_Typed | PK_Bind | PK_Alt | PK_Extractor | PK_Tuple
| PK_SeqWildcard

datatype 'n Pattern =
  Pattern (pt_kind: PatternKind) (pt_pos: SourcePos) (pt_name: byte_string) (pt_expr: "'n option")
    (pt_type: "TypeTree option") (pt_args: "'n Pattern list")

datatype ('p, 'n) CaseDef =
  CaseDef (cd_pattern: 'p) (cd_guard: "'n option") (cd_body: 'n) (cd_pos: SourcePos)

datatype EnumeratorKind = EK_Generator | EK_Guard | EK_Value

datatype ('p, 'n) Enumerator =
  Enumerator (en_kind: EnumeratorKind) (en_pattern: "'p option") (en_expr: 'n) (en_pos: SourcePos)
    (en_hasCase: bool)

datatype 'n ParentRef =
  ParentRef (pr_type: TypeTree) (pr_args: "'n list") (pr_hasArgs: bool) (pr_pos: SourcePos)

datatype 'n EnumCase =
  EnumCase (ec_name: byte_string) (ec_params: "'n Param list") (ec_parentArgs: "'n list")
    (ec_hasParentArgs: bool) (ec_hasParens: bool) (ec_pos: SourcePos)

subsection \<open>Definitions and templates\<close>

record ValHead =
  vd_pos :: SourcePos
  vd_name :: byte_string
  vd_isVar :: bool
  vd_isLazy :: bool
  vd_mods :: Modifiers
  vd_type :: "TypeTree option"
  vd_synthetic :: bool

record DefHead =
  dd_pos :: SourcePos
  dd_name :: byte_string
  dd_annotations :: "byte_string list"
  dd_typeParams :: "byte_string list"
  dd_resultType :: "TypeTree option"
  dd_curried :: bool
  dd_mods :: Modifiers
  dd_synthetic :: bool

record ImportSelector =
  is_name :: byte_string
  is_alias :: byte_string
  is_wildcard :: bool
  is_given :: bool
  is_pos :: SourcePos

record ImportData =
  im_pos :: SourcePos
  im_text :: byte_string
  im_path :: "byte_string list"
  im_selectors :: "ImportSelector list"
  im_moduleAlias :: byte_string

datatype TemplateKind = TM_Class | TM_Trait | TM_Object | TM_Enum

record TemplateHead =
  td_pos :: SourcePos
  td_kind :: TemplateKind
  td_isCase :: bool
  td_mods :: Modifiers
  td_name :: byte_string
  td_typeParams :: "byte_string list"
  td_hasParamClause :: bool
  td_selfName :: byte_string
  td_synthetic :: bool
  td_enumCompanion :: bool

record TypeDefData =
  ty_pos :: SourcePos
  ty_name :: byte_string
  ty_typeParams :: "byte_string list"
  ty_rhs :: "TypeTree option"
  ty_mods :: Modifiers

subsection \<open>Nodes\<close>

text \<open>
  One constructor for each \<^verbatim>\<open>NodeKind\<close>, with the members of its struct in order: \<open>IntLitN\<close> has
  value, fitsLong, digits, base; \<open>ApplyN\<close> fn, args, blockArg, doubleWidening; \<open>BlockN\<close> stats,
  valueDiscard; \<open>LambdaN\<close> params, body, ownsReturn, fromCurriedDef; \<open>NewN\<close> type, args, hasArgs.
\<close>

datatype (plugins only: code size) Node =
    IntLitN SourcePos int bool byte_string int
  | FloatLitN SourcePos u64 byte_string
  | StringLitN SourcePos byte_string
  | CharLitN SourcePos nat
  | BoolLitN SourcePos bool
  | NullLitN SourcePos
  | UnitLitN SourcePos
  | InterpStringN SourcePos byte_string "byte_string list" "Node list" "byte_string list"
  | IdentN SourcePos byte_string
  | SelectN SourcePos Node byte_string
  | ApplyN SourcePos Node "Node list" bool bool
  | TypeApplyN SourcePos Node "TypeTree list"
  | InfixN SourcePos Node byte_string Node
  | PrefixN SourcePos byte_string Node
  | AssignN SourcePos Node Node
  | IfN SourcePos Node Node "Node option"
  | WhileN SourcePos Node Node
  | ReturnN SourcePos "Node option"
  | BlockN SourcePos "Node list" bool
  | LambdaN SourcePos "Node Param list" "Node option" bool bool
  | TypedN SourcePos Node TypeTree
  | ParensN SourcePos Node
  | TupleN SourcePos "Node list"
  | SpliceN SourcePos Node
  | NamedArgN SourcePos byte_string Node
  | ValDefN ValHead "Node option" "Node Pattern option"
  | DefDefN DefHead "Node Param list list" "Node option"
  | ImportN ImportData
  | TemplateDefN TemplateHead "Node Param list" "Node ParentRef list" "Node list" "Node EnumCase list"
  | NewN SourcePos TypeTree "Node list" bool
  | MatchN SourcePos Node "(Node Pattern, Node) CaseDef list"
  | ForN SourcePos "(Node Pattern, Node) Enumerator list" Node bool
  | TryN SourcePos Node "(Node Pattern, Node) CaseDef list" "Node option"
  | ThrowN SourcePos Node
  | SuperN SourcePos byte_string
  | ExtensionDefN SourcePos byte_string TypeTree "Node list"
  | TypeDefN TypeDefData

datatype CompilationUnit = CompilationUnit (unitStats: "Node list")

text \<open>The default member initialisers.\<close>

definition noModifiers :: Modifiers where
  "noModifiers =
     \<lparr>isPrivate = False, isProtected = False, isOverride = False, isAbstract = False, isFinal = False,
      isSealed = False\<rparr>"

definition newParam :: "byte_string \<Rightarrow> SourcePos \<Rightarrow> ParamHead" where
  "newParam name pos =
     \<lparr>pa_name = name, pa_type = None, pa_byName = False, pa_repeated = False, pa_pos = pos,
      pa_isVal = False, pa_isVar = False, pa_mods = noModifiers\<rparr>"

definition newValDef :: "SourcePos \<Rightarrow> byte_string \<Rightarrow> ValHead" where
  "newValDef pos name =
     \<lparr>vd_pos = pos, vd_name = name, vd_isVar = False, vd_isLazy = False, vd_mods = noModifiers,
      vd_type = None, vd_synthetic = False\<rparr>"

definition newDefDef :: "SourcePos \<Rightarrow> byte_string \<Rightarrow> DefHead" where
  "newDefDef pos name =
     \<lparr>dd_pos = pos, dd_name = name, dd_annotations = [], dd_typeParams = [], dd_resultType = None,
      dd_curried = False, dd_mods = noModifiers, dd_synthetic = False\<rparr>"

definition newTemplate :: "SourcePos \<Rightarrow> TemplateKind \<Rightarrow> byte_string \<Rightarrow> TemplateHead" where
  "newTemplate pos kind name =
     \<lparr>td_pos = pos, td_kind = kind, td_isCase = False, td_mods = noModifiers, td_name = name,
      td_typeParams = [], td_hasParamClause = False, td_selfName = [], td_synthetic = False,
      td_enumCompanion = False\<rparr>"

definition kEnumMarkerKey :: byte_string where
  "kEnumMarkerKey = ''@Enum''"

definition isDoubleTypeName :: "TypeTree option \<Rightarrow> bool" where
  "isDoubleTypeName t =
     (case t of
        None \<Rightarrow> False
      | Some ty \<Rightarrow> tt_kind ty = TK_Name \<and>
                   tt_name ty \<in> {''Double'', ''scala.Double'', ''Float'', ''scala.Float''})"

text \<open>The part of an annotation after its last dot decides (\<^verbatim>\<open>rfind('.')\<close>).\<close>

definition simpleAnnotation :: "byte_string \<Rightarrow> byte_string" where
  "simpleAnnotation a = rev (takeWhile (\<lambda>c. c \<noteq> CHR ''.'') (rev a))"

definition hasAnnotation :: "byte_string \<Rightarrow> DefHead \<Rightarrow> bool" where
  "hasAnnotation simpleName d = list_ex (\<lambda>a. simpleAnnotation a = simpleName) (dd_annotations d)"

definition isMain :: "DefHead \<Rightarrow> bool" where
  "isMain d = hasAnnotation ''main'' d"

definition isTailrec :: "DefHead \<Rightarrow> bool" where
  "isTailrec d = hasAnnotation ''tailrec'' d"

subsection \<open>Positions\<close>

primrec nodePos :: "Node \<Rightarrow> SourcePos" where
  "nodePos (IntLitN p v f d b) = p"
| "nodePos (FloatLitN p v t) = p"
| "nodePos (StringLitN p v) = p"
| "nodePos (CharLitN p v) = p"
| "nodePos (BoolLitN p v) = p"
| "nodePos (NullLitN p) = p"
| "nodePos (UnitLitN p) = p"
| "nodePos (InterpStringN p i ls as ss) = p"
| "nodePos (IdentN p n) = p"
| "nodePos (SelectN p q n) = p"
| "nodePos (ApplyN p f as b w) = p"
| "nodePos (TypeApplyN p f ts) = p"
| "nodePos (InfixN p l op r) = p"
| "nodePos (PrefixN p op e) = p"
| "nodePos (AssignN p t v) = p"
| "nodePos (IfN p c t e) = p"
| "nodePos (WhileN p c b) = p"
| "nodePos (ReturnN p v) = p"
| "nodePos (BlockN p ss d) = p"
| "nodePos (LambdaN p ps b ow c) = p"
| "nodePos (TypedN p e t) = p"
| "nodePos (ParensN p e) = p"
| "nodePos (TupleN p es) = p"
| "nodePos (SpliceN p e) = p"
| "nodePos (NamedArgN p n v) = p"
| "nodePos (NewN p t as h) = p"
| "nodePos (MatchN p s cs) = p"
| "nodePos (ForN p es b y) = p"
| "nodePos (TryN p b cs f) = p"
| "nodePos (ThrowN p v) = p"
| "nodePos (SuperN p q) = p"
| "nodePos (ExtensionDefN p n t ms) = p"
| "nodePos (ValDefN h r pt) = vd_pos h"
| "nodePos (DefDefN h ls b) = dd_pos h"
| "nodePos (ImportN d) = im_pos d"
| "nodePos (TemplateDefN h ps prs ss cs) = td_pos h"
| "nodePos (TypeDefN d) = ty_pos d"

primrec setPos :: "SourcePos \<Rightarrow> Node \<Rightarrow> Node" where
  "setPos at (IntLitN p v f d b) = IntLitN at v f d b"
| "setPos at (FloatLitN p v t) = FloatLitN at v t"
| "setPos at (StringLitN p v) = StringLitN at v"
| "setPos at (CharLitN p v) = CharLitN at v"
| "setPos at (BoolLitN p v) = BoolLitN at v"
| "setPos at (NullLitN p) = NullLitN at"
| "setPos at (UnitLitN p) = UnitLitN at"
| "setPos at (InterpStringN p i ls as ss) = InterpStringN at i ls as ss"
| "setPos at (IdentN p n) = IdentN at n"
| "setPos at (SelectN p q n) = SelectN at q n"
| "setPos at (ApplyN p f as b w) = ApplyN at f as b w"
| "setPos at (TypeApplyN p f ts) = TypeApplyN at f ts"
| "setPos at (InfixN p l op r) = InfixN at l op r"
| "setPos at (PrefixN p op e) = PrefixN at op e"
| "setPos at (AssignN p t v) = AssignN at t v"
| "setPos at (IfN p c t e) = IfN at c t e"
| "setPos at (WhileN p c b) = WhileN at c b"
| "setPos at (ReturnN p v) = ReturnN at v"
| "setPos at (BlockN p ss d) = BlockN at ss d"
| "setPos at (LambdaN p ps b ow c) = LambdaN at ps b ow c"
| "setPos at (TypedN p e t) = TypedN at e t"
| "setPos at (ParensN p e) = ParensN at e"
| "setPos at (TupleN p es) = TupleN at es"
| "setPos at (SpliceN p e) = SpliceN at e"
| "setPos at (NamedArgN p n v) = NamedArgN at n v"
| "setPos at (NewN p t as h) = NewN at t as h"
| "setPos at (MatchN p s cs) = MatchN at s cs"
| "setPos at (ForN p es b y) = ForN at es b y"
| "setPos at (TryN p b cs f) = TryN at b cs f"
| "setPos at (ThrowN p v) = ThrowN at v"
| "setPos at (SuperN p q) = SuperN at q"
| "setPos at (ExtensionDefN p n t ms) = ExtensionDefN at n t ms"
| "setPos at (ValDefN h r pt) = ValDefN (h\<lparr>vd_pos := at\<rparr>) r pt"
| "setPos at (DefDefN h ls b) = DefDefN (h\<lparr>dd_pos := at\<rparr>) ls b"
| "setPos at (ImportN d) = ImportN (d\<lparr>im_pos := at\<rparr>)"
| "setPos at (TemplateDefN h ps prs ss cs) = TemplateDefN (h\<lparr>td_pos := at\<rparr>) ps prs ss cs"
| "setPos at (TypeDefN d) = TypeDefN (d\<lparr>ty_pos := at\<rparr>)"

end
