(* ===== verification/AstRender.thy ===== *)
theory AstRender
  imports AST
begin

text \<open>
  The S-expression rendering of trees (\<^verbatim>\<open>renderType\<close>, \<^verbatim>\<open>renderPattern\<close>, \<^verbatim>\<open>render\<close> and the \<^verbatim>\<open>dump\<close>
  functions of \<^verbatim>\<open>src/src/frontend/AST.cpp\<close>).  The source appends to an output string; here each
  routine returns what it appends, from the renderings of the children, which is what the mapped
  structs carry in place of nodes.
\<close>

subsection \<open>Text\<close>

definition encodeUtf8 :: "nat \<Rightarrow> byte_string" where
  "encodeUtf8 c =
     (if c < 0x80 then [char_of c]
      else if c < 0x800 then [char_of (0xC0 OR drop_bit 6 c), char_of (0x80 OR (c AND 0x3F))]
      else if c < 0x10000 then
        [char_of (0xE0 OR drop_bit 12 c), char_of (0x80 OR (drop_bit 6 c AND 0x3F)),
         char_of (0x80 OR (c AND 0x3F))]
      else
        [char_of (0xF0 OR drop_bit 18 c), char_of (0x80 OR (drop_bit 12 c AND 0x3F)),
         char_of (0x80 OR (drop_bit 6 c AND 0x3F)), char_of (0x80 OR (c AND 0x3F))])"

definition escapedChar :: "char \<Rightarrow> byte_string" where
  "escapedChar c =
     (if c = CHR 0x0A then [CHR 0x5C, CHR ''n'']
      else if c = CHR 0x09 then [CHR 0x5C, CHR ''t'']
      else if c = CHR 0x22 then [CHR 0x5C, CHR 0x22]
      else if c = CHR 0x5C then [CHR 0x5C, CHR 0x5C]
      else [c])"

definition appendEscaped :: "byte_string \<Rightarrow> byte_string" where
  "appendEscaped s = concat (map escapedChar s)"

definition quoted :: "byte_string \<Rightarrow> byte_string" where
  "quoted s = [CHR 0x22] @ appendEscaped s @ [CHR 0x22]"

definition separated :: "byte_string \<Rightarrow> byte_string list \<Rightarrow> byte_string" where
  "separated sep xs = (case xs of [] \<Rightarrow> [] | y # ys \<Rightarrow> y @ concat (map (\<lambda>z. sep @ z) ys))"

subsection \<open>Types\<close>

definition firstText :: "byte_string list \<Rightarrow> byte_string" where
  "firstText xs = (case xs of [] \<Rightarrow> [] | y # _ \<Rightarrow> y)"

definition renderTypeList :: "byte_string list \<Rightarrow> byte_string" where
  "renderTypeList ts = separated '', '' ts"

definition typeText :: "TypeKind \<Rightarrow> byte_string \<Rightarrow> byte_string list \<Rightarrow> byte_string" where
  "typeText kind name args =
     (case kind of
        TK_Name \<Rightarrow> name
      | TK_Applied \<Rightarrow> name @ ''['' @ renderTypeList args @ '']''
      | TK_Function \<Rightarrow> ''('' @ renderTypeList (butlast args) @ '') => '' @ (if args = [] then [] else last args)
      | TK_Tuple \<Rightarrow> ''('' @ renderTypeList args @ '')''
      | TK_ByName \<Rightarrow> ''=> '' @ firstText args
      | TK_Repeated \<Rightarrow> firstText args @ ''*''
      | TK_Wildcard \<Rightarrow> ''?''
      | TK_Builtin \<Rightarrow> name
      | TK_Infix \<Rightarrow> firstText args @ '' '' @ name @ '' '' @ firstText (drop 1 args))"

primrec renderType :: "TypeTree \<Rightarrow> byte_string" where
  "renderType (TypeTree kind name args pos) = typeText kind name (map renderType args)"

subsection \<open>Patterns\<close>

definition patternText ::
  "PatternKind \<Rightarrow> byte_string \<Rightarrow> byte_string option \<Rightarrow> TypeTree option \<Rightarrow> byte_string list \<Rightarrow> byte_string" where
  "patternText kind name expr type args =
     (let e = (case expr of None \<Rightarrow> [] | Some t \<Rightarrow> t) in
      case kind of
        PK_Wildcard \<Rightarrow> ''_''
      | PK_Var \<Rightarrow> name
      | PK_Literal \<Rightarrow> e
      | PK_Stable \<Rightarrow> ''(stable '' @ e @ '')''
      | PK_Typed \<Rightarrow> ''(: '' @ firstText args @ '' '' @
                     (case type of None \<Rightarrow> [] | Some t \<Rightarrow> renderType t) @ '')''
      | PK_Bind \<Rightarrow> ''(@ '' @ name @ '' '' @ firstText args @ '')''
      | PK_Alt \<Rightarrow> ''(|'' @ concat (map (\<lambda>a. '' '' @ a) args) @ '')''
      | PK_Extractor \<Rightarrow> ''(unapply '' @ e @ concat (map (\<lambda>a. '' '' @ a) args) @ '')''
      | PK_Tuple \<Rightarrow> ''(tuple-pat'' @ concat (map (\<lambda>a. '' '' @ a) args) @ '')''
      | PK_SeqWildcard \<Rightarrow> if name = [] then ''_*'' else ''(_* '' @ name @ '')'')"

primrec renderPattern :: "byte_string Pattern \<Rightarrow> byte_string" where
  "renderPattern (Pattern kind pos name expr type args) =
     patternText kind name expr type (map renderPattern args)"

subsection \<open>Parts of definitions\<close>

definition renderChildren :: "byte_string list \<Rightarrow> byte_string" where
  "renderChildren nodes = concat (map (\<lambda>c. '' '' @ c) nodes)"

definition renderParam :: "byte_string Param \<Rightarrow> byte_string" where
  "renderParam p =
     (let h = pa_head p in
      pa_name h @
      (case pa_type h of
         None \<Rightarrow> []
       | Some t \<Rightarrow>
           '':'' @ (if pa_byName h \<and> tt_kind t \<noteq> TK_ByName then ''=> '' else []) @ renderType t @
           (if pa_repeated h \<and> tt_kind t \<noteq> TK_Repeated then ''*'' else [])) @
      (case pa_default p of None \<Rightarrow> [] | Some d \<Rightarrow> '' = '' @ d))"

definition renderParams :: "byte_string Param list \<Rightarrow> byte_string" where
  "renderParams params = ''('' @ separated '' '' (map renderParam params) @ '')''"

definition renderMods :: "Modifiers \<Rightarrow> byte_string" where
  "renderMods m =
     (if isPrivate m then '' private'' else []) @ (if isOverride m then '' override'' else []) @
     (if isAbstract m then '' abstract'' else [])"

definition renderClassParam :: "byte_string Param \<Rightarrow> byte_string" where
  "renderClassParam p =
     (if isPrivate (pa_mods (pa_head p)) then ''private '' else []) @
     (if pa_isVal (pa_head p) then ''val '' else []) @ (if pa_isVar (pa_head p) then ''var '' else []) @
     renderParam p"

definition renderParent :: "byte_string ParentRef \<Rightarrow> byte_string" where
  "renderParent p =
     (if \<not> pr_hasArgs p then renderType (pr_type p)
      else ''('' @ renderType (pr_type p) @ renderChildren (pr_args p) @ '')'')"

definition renderTypeParams :: "byte_string list \<Rightarrow> byte_string" where
  "renderTypeParams tps = (if tps = [] then [] else '' ['' @ separated '' '' tps @ '']'')"

definition renderCase :: "(byte_string Pattern, byte_string) CaseDef \<Rightarrow> byte_string" where
  "renderCase c =
     '' (case '' @ renderPattern (cd_pattern c) @
     (case cd_guard c of None \<Rightarrow> [] | Some g \<Rightarrow> '' (if '' @ g @ '')'') @ '' '' @ cd_body c @ '')''"

definition renderEnumerator :: "(byte_string Pattern, byte_string) Enumerator \<Rightarrow> byte_string" where
  "renderEnumerator en =
     (case en_kind en of EK_Generator \<Rightarrow> '' (<- '' | EK_Guard \<Rightarrow> '' (if '' | EK_Value \<Rightarrow> '' (= '') @
     (case en_pattern en of None \<Rightarrow> [] | Some p \<Rightarrow> renderPattern p @ '' '') @ en_expr en @ '')''"

definition renderOpt :: "byte_string option \<Rightarrow> byte_string" where
  "renderOpt e = (case e of None \<Rightarrow> [] | Some t \<Rightarrow> '' '' @ t)"

subsection \<open>Nodes\<close>

definition renderInt :: "int \<Rightarrow> bool \<Rightarrow> byte_string \<Rightarrow> byte_string" where
  "renderInt v fitsLong digits = ''(int '' @ (if fitsLong then intToString v else digits) @ '')''"

text \<open>Literal and hole alternate; a specification follows its hole when it is not empty.\<close>

fun interpPieces :: "byte_string list \<Rightarrow> byte_string list \<Rightarrow> byte_string list \<Rightarrow> byte_string" where
  "interpPieces (l # ls) (a # args) (s # specs) =
     '' '' @ quoted l @ '' '' @ a @ (if s = [] then [] else '' '' @ [CHR 0x22] @ s @ [CHR 0x22]) @
     interpPieces ls args specs"
| "interpPieces _ _ _ = []"

definition renderInterp ::
  "byte_string \<Rightarrow> byte_string list \<Rightarrow> byte_string list \<Rightarrow> byte_string list \<Rightarrow> byte_string" where
  "renderInterp interpolator literals args specs =
     ''(interp '' @ interpolator @ interpPieces literals args specs @ '' '' @
     quoted (if literals = [] then [] else last literals) @ '')''"

definition renderVal :: "ValHead \<Rightarrow> byte_string option \<Rightarrow> byte_string Pattern option \<Rightarrow> byte_string" where
  "renderVal h rhs pattern =
     (case pattern of
        Some p \<Rightarrow>
          (if vd_isVar h then ''(var-pat'' else ''(val-pat'') @ renderMods (vd_mods h) @ '' '' @
          renderPattern p @ renderOpt rhs @ '')''
      | None \<Rightarrow>
          (if vd_isLazy h then ''(lazy-val'' else if vd_isVar h then ''(var'' else ''(val'') @
          renderMods (vd_mods h) @ '' '' @ vd_name h @
          (case vd_type h of None \<Rightarrow> [] | Some t \<Rightarrow> '' : '' @ renderType t) @ renderOpt rhs @ '')'')"

definition renderDef :: "DefHead \<Rightarrow> byte_string Param list list \<Rightarrow> byte_string option \<Rightarrow> byte_string" where
  "renderDef h paramLists body =
     ''(def'' @ concat (map (\<lambda>a. '' @'' @ a) (dd_annotations h)) @ renderMods (dd_mods h) @ '' '' @
     dd_name h @ renderTypeParams (dd_typeParams h) @
     (if paramLists = [] then [] else '' ('' @ separated '' '' (map renderParams paramLists) @ '')'') @
     (case dd_resultType h of None \<Rightarrow> [] | Some t \<Rightarrow> '' : '' @ renderType t) @ renderOpt body @ '')''"

definition templateWord :: "TemplateKind \<Rightarrow> bool \<Rightarrow> byte_string" where
  "templateWord kind isCase =
     (case kind of
        TM_Class \<Rightarrow> if isCase then ''case-class'' else ''class''
      | TM_Trait \<Rightarrow> ''trait''
      | TM_Object \<Rightarrow> if isCase then ''case-object'' else ''object''
      | TM_Enum \<Rightarrow> ''enum'')"

definition renderTemplate ::
  "TemplateHead \<Rightarrow> byte_string Param list \<Rightarrow> byte_string ParentRef list \<Rightarrow> byte_string list \<Rightarrow> byte_string" where
  "renderTemplate h ctorParams parents body =
     ''('' @ templateWord (td_kind h) (td_isCase h) @
     (if isAbstract (td_mods h) then '' abstract'' else []) @
     (if isFinal (td_mods h) then '' final'' else []) @
     (if isSealed (td_mods h) then '' sealed'' else []) @ '' '' @ td_name h @
     renderTypeParams (td_typeParams h) @
     (if td_hasParamClause h then '' ('' @ separated '' '' (map renderClassParam ctorParams) @ '')'' else []) @
     (if parents = [] then [] else '' (extends'' @ renderChildren (map renderParent parents) @ '')'') @
     (if td_selfName h = [] then [] else '' (self '' @ td_selfName h @ '')'') @
     '' (body'' @ renderChildren body @ ''))''"

definition renderTypeDef :: "TypeDefData \<Rightarrow> byte_string" where
  "renderTypeDef d =
     ''(type'' @ renderMods (ty_mods d) @ '' '' @ ty_name d @ renderTypeParams (ty_typeParams d) @
     (case ty_rhs d of None \<Rightarrow> [] | Some t \<Rightarrow> '' = '' @ renderType t) @ '')''"

primrec render :: "Node \<Rightarrow> byte_string" where
  "render (IntLitN p v f d b) = renderInt v f d"
| "render (FloatLitN p v t) = ''(float '' @ t @ '')''"
| "render (StringLitN p v) = ''(str '' @ quoted v @ '')''"
| "render (CharLitN p v) = ''(char '' @ [CHR 0x27] @ appendEscaped (encodeUtf8 v) @ [CHR 0x27] @ '')''"
| "render (BoolLitN p v) = (if v then ''true'' else ''false'')"
| "render (NullLitN p) = ''null''"
| "render (UnitLitN p) = ''()''"
| "render (InterpStringN p i ls as ss) = renderInterp i ls (map render as) ss"
| "render (IdentN p n) = n"
| "render (SelectN p q n) = ''(. '' @ render q @ '' '' @ n @ '')''"
| "render (ApplyN p f as b w) = ''(apply '' @ render f @ renderChildren (map render as) @ '')''"
| "render (TypeApplyN p f ts) = ''(tapply '' @ render f @ renderChildren (map renderType ts) @ '')''"
| "render (InfixN p l op r) = ''(infix '' @ op @ '' '' @ render l @ '' '' @ render r @ '')''"
| "render (PrefixN p op e) = ''(prefix '' @ op @ '' '' @ render e @ '')''"
| "render (AssignN p t v) = ''(= '' @ render t @ '' '' @ render v @ '')''"
| "render (IfN p c t e) = ''(if '' @ render c @ '' '' @ render t @ renderOpt (map_option render e) @ '')''"
| "render (WhileN p c b) = ''(while '' @ render c @ '' '' @ render b @ '')''"
| "render (ReturnN p v) = ''(return'' @ renderOpt (map_option render v) @ '')''"
| "render (BlockN p ss d) = ''(block'' @ renderChildren (map render ss) @ '')''"
| "render (LambdaN p ps b ow c) =
     ''(lambda '' @ renderParams (map (map_Param render) ps) @ renderOpt (map_option render b) @ '')''"
| "render (TypedN p e t) = ''(typed '' @ render e @ '' '' @ renderType t @ '')''"
| "render (ParensN p e) = ''(parens '' @ render e @ '')''"
| "render (TupleN p es) = ''(tuple'' @ renderChildren (map render es) @ '')''"
| "render (SpliceN p e) = ''(splice '' @ render e @ '')''"
| "render (NamedArgN p n v) = ''(named '' @ n @ '' '' @ render v @ '')''"
| "render (ValDefN h r pt) = renderVal h (map_option render r) (map_option (map_Pattern render) pt)"
| "render (DefDefN h ls b) = renderDef h (map (map (map_Param render)) ls) (map_option render b)"
| "render (ImportN d) = ''(import '' @ im_text d @ '')''"
| "render (TemplateDefN h ps prs ss cs) =
     renderTemplate h (map (map_Param render) ps) (map (map_ParentRef render) prs) (map render ss)"
| "render (NewN p t as h) = ''(new '' @ renderType t @ renderChildren (map render as) @ '')''"
| "render (MatchN p s cs) =
     ''(match '' @ render s @ concat (map renderCase (map (map_CaseDef (map_Pattern render) render) cs)) @ '')''"
| "render (ForN p es b y) =
     (if y then ''(for-yield'' else ''(for-do'') @
     concat (map renderEnumerator (map (map_Enumerator (map_Pattern render) render) es)) @ '' '' @ render b @ '')''"
| "render (TryN p b cs f) =
     ''(try '' @ render b @ concat (map renderCase (map (map_CaseDef (map_Pattern render) render) cs)) @
     (case map_option render f of None \<Rightarrow> [] | Some t \<Rightarrow> '' (finally '' @ t @ '')'') @ '')''"
| "render (ThrowN p v) = ''(throw '' @ render v @ '')''"
| "render (SuperN p q) = (if q = [] then ''super'' else ''(super '' @ q @ '')'')"
| "render (ExtensionDefN p n t ms) =
     ''(extension ('' @ n @ '' '' @ renderType t @ '')'' @ renderChildren (map render ms) @ '')''"
| "render (TypeDefN d) = renderTypeDef d"

definition dumpNode :: "Node \<Rightarrow> byte_string" where
  "dumpNode n = render n"

definition dumpPattern :: "Node Pattern \<Rightarrow> byte_string" where
  "dumpPattern p = renderPattern (map_Pattern render p)"

definition dumpUnit :: "CompilationUnit \<Rightarrow> byte_string" where
  "dumpUnit u = ''(unit'' @ renderChildren (map render (unitStats u)) @ '')''"

subsection \<open>The encoder agrees with the lexer's\<close>

lemma encodeUtf8_appendUtf8: "appendUtf8 out c = out @ encodeUtf8 c"
  by (simp add: appendUtf8_def encodeUtf8_def)

end
