(* ===== verification/AstWalk.thy ===== *)
theory AstWalk
  imports AstRender Monads "HOL-Library.Multiset"
begin

text \<open>
  The walks over trees of \<^verbatim>\<open>src/src/frontend/AST.cpp\<close>.  \<^verbatim>\<open>eachChildSlot\<close> is one table of the child
  slots of a node; the source instantiates it twice, and so does the model: \<open>childSlots\<close> lists the
  filled slots in the order they are visited (\<^verbatim>\<open>releaseChildren\<close>), \<open>mapSlots\<close> updates each of them
  (\<^verbatim>\<open>rebase\<close>).  The theorems: rebasing reaches every node of the walk and changes nothing but
  positions, and the iterative teardown frees every node exactly once.
\<close>

subsection \<open>Variables of a pattern\<close>

fun patternVariables :: "'n Pattern \<Rightarrow> byte_string list" where
  "patternVariables (Pattern kind pos name expr type args) =
     (case kind of
        PK_Var \<Rightarrow> if name \<noteq> ''_'' then [name] else []
      | PK_Bind \<Rightarrow> name # (case args of [] \<Rightarrow> [] | a # _ \<Rightarrow> patternVariables a)
      | PK_SeqWildcard \<Rightarrow> if name \<noteq> [] then [name] else []
      | PK_Alt \<Rightarrow> []
      | _ \<Rightarrow> concat (map patternVariables args))"

subsection \<open>The child slots\<close>

definition slot :: "'n option \<Rightarrow> 'n list" where
  "slot x = (case x of None \<Rightarrow> [] | Some n \<Rightarrow> [n])"

definition takeParams :: "'n Param list \<Rightarrow> 'n list" where
  "takeParams ps = concat (map (\<lambda>p. slot (pa_default p)) ps)"

primrec childSlots :: "Node \<Rightarrow> Node list" where
  "childSlots (IntLitN p v f d b) = []"
| "childSlots (FloatLitN p v t) = []"
| "childSlots (StringLitN p v) = []"
| "childSlots (CharLitN p v) = []"
| "childSlots (BoolLitN p v) = []"
| "childSlots (NullLitN p) = []"
| "childSlots (UnitLitN p) = []"
| "childSlots (InterpStringN p i ls as ss) = as"
| "childSlots (IdentN p n) = []"
| "childSlots (SelectN p q n) = [q]"
| "childSlots (ApplyN p f as b w) = f # as"
| "childSlots (TypeApplyN p f ts) = [f]"
| "childSlots (InfixN p l op r) = [l, r]"
| "childSlots (PrefixN p op e) = [e]"
| "childSlots (AssignN p t v) = [t, v]"
| "childSlots (IfN p c t e) = [c, t] @ slot e"
| "childSlots (WhileN p c b) = [c, b]"
| "childSlots (ReturnN p v) = slot v"
| "childSlots (BlockN p ss d) = ss"
| "childSlots (LambdaN p ps b ow c) = takeParams ps @ slot b"
| "childSlots (TypedN p e t) = [e]"
| "childSlots (ParensN p e) = [e]"
| "childSlots (TupleN p es) = es"
| "childSlots (SpliceN p e) = [e]"
| "childSlots (NamedArgN p n v) = [v]"
| "childSlots (ValDefN h r pt) = slot r"
| "childSlots (DefDefN h ls b) = concat (map takeParams ls) @ slot b"
| "childSlots (ImportN d) = []"
| "childSlots (TemplateDefN h ps prs ss cs) =
     takeParams ps @ concat (map pr_args prs) @ ss @
     concat (map (\<lambda>c. takeParams (ec_params c) @ ec_parentArgs c) cs)"
| "childSlots (NewN p t as h) = as"
| "childSlots (MatchN p s cs) = s # concat (map (\<lambda>c. slot (cd_guard c) @ [cd_body c]) cs)"
| "childSlots (ForN p es b y) = map en_expr es @ [b]"
| "childSlots (TryN p b cs f) = b # concat (map (\<lambda>c. slot (cd_guard c) @ [cd_body c]) cs) @ slot f"
| "childSlots (ThrowN p v) = [v]"
| "childSlots (SuperN p q) = []"
| "childSlots (ExtensionDefN p n t ms) = ms"
| "childSlots (TypeDefN d) = []"

definition mapCase :: "('n \<Rightarrow> 'n) \<Rightarrow> ('p, 'n) CaseDef \<Rightarrow> ('p, 'n) CaseDef" where
  "mapCase f = map_CaseDef id f"

definition mapEnumerator :: "('n \<Rightarrow> 'n) \<Rightarrow> ('p, 'n) Enumerator \<Rightarrow> ('p, 'n) Enumerator" where
  "mapEnumerator f = map_Enumerator id f"

primrec mapSlots :: "(Node \<Rightarrow> Node) \<Rightarrow> Node \<Rightarrow> Node" where
  "mapSlots g (IntLitN p v f d b) = IntLitN p v f d b"
| "mapSlots g (FloatLitN p v t) = FloatLitN p v t"
| "mapSlots g (StringLitN p v) = StringLitN p v"
| "mapSlots g (CharLitN p v) = CharLitN p v"
| "mapSlots g (BoolLitN p v) = BoolLitN p v"
| "mapSlots g (NullLitN p) = NullLitN p"
| "mapSlots g (UnitLitN p) = UnitLitN p"
| "mapSlots g (InterpStringN p i ls as ss) = InterpStringN p i ls (map g as) ss"
| "mapSlots g (IdentN p n) = IdentN p n"
| "mapSlots g (SelectN p q n) = SelectN p (g q) n"
| "mapSlots g (ApplyN p f as b w) = ApplyN p (g f) (map g as) b w"
| "mapSlots g (TypeApplyN p f ts) = TypeApplyN p (g f) ts"
| "mapSlots g (InfixN p l op r) = InfixN p (g l) op (g r)"
| "mapSlots g (PrefixN p op e) = PrefixN p op (g e)"
| "mapSlots g (AssignN p t v) = AssignN p (g t) (g v)"
| "mapSlots g (IfN p c t e) = IfN p (g c) (g t) (map_option g e)"
| "mapSlots g (WhileN p c b) = WhileN p (g c) (g b)"
| "mapSlots g (ReturnN p v) = ReturnN p (map_option g v)"
| "mapSlots g (BlockN p ss d) = BlockN p (map g ss) d"
| "mapSlots g (LambdaN p ps b ow c) = LambdaN p (map (map_Param g) ps) (map_option g b) ow c"
| "mapSlots g (TypedN p e t) = TypedN p (g e) t"
| "mapSlots g (ParensN p e) = ParensN p (g e)"
| "mapSlots g (TupleN p es) = TupleN p (map g es)"
| "mapSlots g (SpliceN p e) = SpliceN p (g e)"
| "mapSlots g (NamedArgN p n v) = NamedArgN p n (g v)"
| "mapSlots g (ValDefN h r pt) = ValDefN h (map_option g r) pt"
| "mapSlots g (DefDefN h ls b) = DefDefN h (map (map (map_Param g)) ls) (map_option g b)"
| "mapSlots g (ImportN d) = ImportN d"
| "mapSlots g (TemplateDefN h ps prs ss cs) =
     TemplateDefN h (map (map_Param g) ps) (map (map_ParentRef g) prs) (map g ss) (map (map_EnumCase g) cs)"
| "mapSlots g (NewN p t as h) = NewN p t (map g as) h"
| "mapSlots g (MatchN p s cs) = MatchN p (g s) (map (mapCase g) cs)"
| "mapSlots g (ForN p es b y) = ForN p (map (mapEnumerator g) es) (g b) y"
| "mapSlots g (TryN p b cs f) = TryN p (g b) (map (mapCase g) cs) (map_option g f)"
| "mapSlots g (ThrowN p v) = ThrowN p (g v)"
| "mapSlots g (SuperN p q) = SuperN p q"
| "mapSlots g (ExtensionDefN p n t ms) = ExtensionDefN p n t (map g ms)"
| "mapSlots g (TypeDefN d) = TypeDefN d"

lemma set_slot [simp]: "set (slot x) = set_option x"
  by (cases x) (simp_all add: slot_def)

lemma set_takeParams [simp]: "set (takeParams ps) = (\<Union>p \<in> set ps. set_Param p)"
  by (auto simp: takeParams_def Param.set_sel elim!: Param.set_cases split: option.splits)

text \<open>A child is smaller than its node, which is what makes every walk below terminate.\<close>

lemma size_option_ge: "x \<in> set_option o' \<Longrightarrow> f x < size_option f o'"
  by (cases o') simp_all

lemma size_Param_ge: "x \<in> set_Param p \<Longrightarrow> f x < size_Param f p"
  by (cases p) (auto dest: size_option_ge [of _ _ f])

lemma size_list_ge: "x \<in> set xs \<Longrightarrow> f x < size_list f xs"
  by (induction xs) auto

lemma size_list_ge': "x \<in> set xs \<Longrightarrow> k < f x \<Longrightarrow> k < size_list f xs"
  using size_list_ge [of x xs f] by simp

lemma size_params_ge: "p \<in> set ps \<Longrightarrow> x \<in> set_Param p \<Longrightarrow> f x < size_list (size_Param f) ps"
  by (erule size_list_ge') (rule size_Param_ge)

lemma size_paramLists_ge:
  "ps \<in> set ls \<Longrightarrow> p \<in> set ps \<Longrightarrow> x \<in> set_Param p \<Longrightarrow> f x < size_list (size_list (size_Param f)) ls"
  by (erule size_list_ge') (rule size_params_ge)

lemma size_parents_ge: "p \<in> set ps \<Longrightarrow> x \<in> set (pr_args p) \<Longrightarrow> f x < size_list (size_ParentRef f) ps"
  by (erule size_list_ge', cases p) (auto dest: size_list_ge [of _ _ f])

lemma size_enumCases_ge:
  "c \<in> set cs \<Longrightarrow> x \<in> set (ec_parentArgs c) \<Longrightarrow> f x < size_list (size_EnumCase f) cs"
  "c \<in> set cs \<Longrightarrow> p \<in> set (ec_params c) \<Longrightarrow> x \<in> set_Param p \<Longrightarrow> f x < size_list (size_EnumCase f) cs"
  by (erule size_list_ge', cases c, auto dest: size_list_ge [of _ _ f] size_params_ge [of _ _ _ f])+

lemma size_cases_ge:
  "c \<in> set cs \<Longrightarrow> cd_guard c = Some x \<Longrightarrow> f x < size_list (size_CaseDef g f) cs"
  "c \<in> set cs \<Longrightarrow> f (cd_body c) < size_list (size_CaseDef g f) cs"
  by (erule size_list_ge', cases c, auto)+

lemma size_enums_ge: "e \<in> set es \<Longrightarrow> f (en_expr e) < size_list (size_Enumerator g f) es"
  by (erule size_list_ge', cases e) auto

lemmas size_ge =
  size_option_ge [of _ _ size] size_list_ge [of _ _ size] size_params_ge [of _ _ _ size]
  size_paramLists_ge [of _ _ _ _ size] size_parents_ge [of _ _ _ size] size_enumCases_ge [where f = size]
  size_cases_ge [where f = size and g = "size_Pattern size"]
  size_enums_ge [where f = size and g = "size_Pattern size"]

lemma childSlots_size: "c \<in> set (childSlots n) \<Longrightarrow> size c < size n"
  by (cases n) (auto dest: size_ge less_SucI)

text \<open>The two instances of the table agree: an update reads exactly the filled slots.\<close>

lemma map_Param_slot: "slot (pa_default (map_Param g p)) = map g (slot (pa_default p))"
  by (cases p) (simp add: slot_def split: option.split)

lemma takeParams_map: "takeParams (map (map_Param g) ps) = map g (takeParams ps)"
  by (simp add: takeParams_def map_concat comp_def map_Param_slot)

lemma slot_map_option: "slot (map_option g x) = map g (slot x)"
  by (cases x) (simp_all add: slot_def)

lemma childSlots_mapSlots: "childSlots (mapSlots g n) = map g (childSlots n)"
  by (cases n)
    (simp_all add: takeParams_map slot_map_option map_concat comp_def mapCase_def mapEnumerator_def
      CaseDef.map_sel Enumerator.map_sel ParentRef.map_sel EnumCase.map_sel)

lemma struct_sets:
  "set_ParentRef p = set (pr_args p)"
  "set_EnumCase e = (\<Union>p \<in> set (ec_params e). set_Param p) \<union> set (ec_parentArgs e)"
  "set2_CaseDef c = insert (cd_body c) (set_option (cd_guard c))"
  "set2_Enumerator en = {en_expr en}"
  by (cases p, simp) (cases e, simp, cases c, auto, cases en, auto, cases en, auto)

lemma mapSlots_cong [fundef_cong]:
  assumes "n = m" "\<And>c. c \<in> set (childSlots m) \<Longrightarrow> f c = g c"
  shows "mapSlots f n = mapSlots g m"
  using assms(2) unfolding assms(1)
  by (cases m;
      auto simp: mapCase_def mapEnumerator_def struct_sets
        intro!: map_option_cong list.map_cong Param.map_cong CaseDef.map_cong Enumerator.map_cong
          ParentRef.map_cong EnumCase.map_cong; blast)

subsection \<open>Rebasing and tearing down\<close>

function rebase :: "SourcePos \<Rightarrow> Node \<Rightarrow> Node" where
  "rebase at n = mapSlots (rebase at) (setPos at n)"
  by auto
termination
proof (relation "measure (\<lambda>(at, n). size n)")
  fix at n c assume "c \<in> set (childSlots (setPos at n))"
  then have "size c < size (setPos at n)" by (rule childSlots_size)
  also have "size (setPos at n) = size n" by (cases n) simp_all
  finally show "((at, c), (at, n)) \<in> measure (\<lambda>(at, n). size n)" by simp
qed simp

declare rebase.simps [simp del]

text \<open>
  \<^verbatim>\<open>work.back()\<close> is taken, its children are pushed, and it is freed childless.  The result lists the
  nodes in the order they are freed.
\<close>

definition releaseChildren :: "Node \<Rightarrow> Node list \<Rightarrow> Node list" where
  "releaseChildren n out = out @ childSlots n"

text \<open>The nodes of a tree that the walk reaches, the root first.\<close>

function subnodes :: "Node \<Rightarrow> Node list" where
  "subnodes n = n # concat (map subnodes (childSlots n))"
  by auto
termination
  by (relation "measure size") (auto dest: childSlots_size)

declare subnodes.simps [simp del]

function destroyLoop :: "Node list \<Rightarrow> Node list \<Rightarrow> Node list" where
  "destroyLoop work freed =
     (if work = [] then freed
      else destroyLoop (releaseChildren (last work) (butlast work)) (freed @ [last work]))"
  by auto
termination
proof (relation "measure (\<lambda>(work, freed). \<Sum>w \<leftarrow> work. length (subnodes w))")
  fix work freed :: "Node list" assume "work \<noteq> []"
  then obtain ws w where "work = ws @ [w]" by (metis append_butlast_last_id)
  then show "((releaseChildren (last work) (butlast work), freed @ [last work]), (work, freed))
      \<in> measure (\<lambda>(work, freed). \<Sum>w \<leftarrow> work. length (subnodes w))"
    by (simp add: releaseChildren_def subnodes.simps [of w] length_concat comp_def)
qed simp

declare destroyLoop.simps [simp del]

definition destroyTree :: "Node option \<Rightarrow> Node list" where
  "destroyTree root = destroyLoop (slot root) []"

lemma mset_destroyLoop:
  "mset (destroyLoop work freed) = mset freed + (\<Sum>w \<leftarrow> work. mset (subnodes w))"
proof (induction work freed rule: destroyLoop.induct)
  case (1 work freed)
  show ?case
  proof (cases "work = []")
    case True then show ?thesis by (simp add: destroyLoop.simps)
  next
    case False
    then obtain ws w where work: "work = ws @ [w]" by (metis append_butlast_last_id)
    with 1 False show ?thesis
      by (simp add: destroyLoop.simps [of "ws @ [w]"] releaseChildren_def subnodes.simps [of w] mset_concat comp_def)
  qed
qed

text \<open>
  The nodes of a tree, read off the fields of the classes of \<^verbatim>\<open>AST.h\<close>: every field that holds a node, an optional node or a
  list of nodes, also inside a parameter (its default value), a parent (its arguments), a case of an enumeration, a case of
  a match (its guard and body) and an enumerator of a comprehension.  The literals and paths inside
  a pattern belong to the pattern, which is destroyed with the node that holds it.
\<close>

definition held :: "Node multiset option \<Rightarrow> Node multiset" where
  "held x = (case x of None \<Rightarrow> {#} | Some m \<Rightarrow> m)"

definition paramNodes :: "Node multiset Param \<Rightarrow> Node multiset" where
  "paramNodes p = held (pa_default p)"

definition parentNodes :: "Node multiset ParentRef \<Rightarrow> Node multiset" where
  "parentNodes p = sum_list (pr_args p)"

definition enumCaseNodes :: "Node multiset EnumCase \<Rightarrow> Node multiset" where
  "enumCaseNodes c = sum_list (map paramNodes (ec_params c)) + sum_list (ec_parentArgs c)"

definition caseNodes :: "('p, Node multiset) CaseDef \<Rightarrow> Node multiset" where
  "caseNodes c = held (cd_guard c) + cd_body c"

primrec nodesOf :: "Node \<Rightarrow> Node multiset" where
  "nodesOf (IntLitN x1 x2 x3 x4 x5) = {#IntLitN x1 x2 x3 x4 x5#}"
| "nodesOf (FloatLitN x1 x2 x3) = {#FloatLitN x1 x2 x3#}"
| "nodesOf (StringLitN x1 x2) = {#StringLitN x1 x2#}"
| "nodesOf (CharLitN x1 x2) = {#CharLitN x1 x2#}"
| "nodesOf (BoolLitN x1 x2) = {#BoolLitN x1 x2#}"
| "nodesOf (NullLitN x1) = {#NullLitN x1#}"
| "nodesOf (UnitLitN x1) = {#UnitLitN x1#}"
| "nodesOf (InterpStringN x1 x2 x3 x4 x5) = {#InterpStringN x1 x2 x3 x4 x5#} + sum_list (map nodesOf x4)"
| "nodesOf (IdentN x1 x2) = {#IdentN x1 x2#}"
| "nodesOf (SelectN x1 x2 x3) = {#SelectN x1 x2 x3#} + nodesOf x2"
| "nodesOf (ApplyN x1 x2 x3 x4 x5) = {#ApplyN x1 x2 x3 x4 x5#} + nodesOf x2 + sum_list (map nodesOf x3)"
| "nodesOf (TypeApplyN x1 x2 x3) = {#TypeApplyN x1 x2 x3#} + nodesOf x2"
| "nodesOf (InfixN x1 x2 x3 x4) = {#InfixN x1 x2 x3 x4#} + nodesOf x2 + nodesOf x4"
| "nodesOf (PrefixN x1 x2 x3) = {#PrefixN x1 x2 x3#} + nodesOf x3"
| "nodesOf (AssignN x1 x2 x3) = {#AssignN x1 x2 x3#} + nodesOf x2 + nodesOf x3"
| "nodesOf (IfN x1 x2 x3 x4) = {#IfN x1 x2 x3 x4#} + nodesOf x2 + nodesOf x3 + held (map_option nodesOf x4)"
| "nodesOf (WhileN x1 x2 x3) = {#WhileN x1 x2 x3#} + nodesOf x2 + nodesOf x3"
| "nodesOf (ReturnN x1 x2) = {#ReturnN x1 x2#} + held (map_option nodesOf x2)"
| "nodesOf (BlockN x1 x2 x3) = {#BlockN x1 x2 x3#} + sum_list (map nodesOf x2)"
| "nodesOf (LambdaN x1 x2 x3 x4 x5) =
     {#LambdaN x1 x2 x3 x4 x5#} +
     sum_list (map paramNodes (map (map_Param nodesOf) x2)) +
     held (map_option nodesOf x3)"
| "nodesOf (TypedN x1 x2 x3) = {#TypedN x1 x2 x3#} + nodesOf x2"
| "nodesOf (ParensN x1 x2) = {#ParensN x1 x2#} + nodesOf x2"
| "nodesOf (TupleN x1 x2) = {#TupleN x1 x2#} + sum_list (map nodesOf x2)"
| "nodesOf (SpliceN x1 x2) = {#SpliceN x1 x2#} + nodesOf x2"
| "nodesOf (NamedArgN x1 x2 x3) = {#NamedArgN x1 x2 x3#} + nodesOf x3"
| "nodesOf (ValDefN x1 x2 x3) = {#ValDefN x1 x2 x3#} + held (map_option nodesOf x2)"
| "nodesOf (DefDefN x1 x2 x3) =
     {#DefDefN x1 x2 x3#} +
     sum_list (map sum_list (map (map paramNodes) (map (map (map_Param nodesOf)) x2))) +
     held (map_option nodesOf x3)"
| "nodesOf (ImportN x1) = {#ImportN x1#}"
| "nodesOf (TemplateDefN x1 x2 x3 x4 x5) =
     {#TemplateDefN x1 x2 x3 x4 x5#} +
     sum_list (map paramNodes (map (map_Param nodesOf) x2)) +
     sum_list (map parentNodes (map (map_ParentRef nodesOf) x3)) +
     sum_list (map nodesOf x4) +
     sum_list (map enumCaseNodes (map (map_EnumCase nodesOf) x5))"
| "nodesOf (NewN x1 x2 x3 x4) = {#NewN x1 x2 x3 x4#} + sum_list (map nodesOf x3)"
| "nodesOf (MatchN x1 x2 x3) =
     {#MatchN x1 x2 x3#} +
     nodesOf x2 +
     sum_list (map caseNodes (map (map_CaseDef (map_Pattern nodesOf) nodesOf) x3))"
| "nodesOf (ForN x1 x2 x3 x4) =
     {#ForN x1 x2 x3 x4#} +
     sum_list (map en_expr (map (map_Enumerator (map_Pattern nodesOf) nodesOf) x2)) +
     nodesOf x3"
| "nodesOf (TryN x1 x2 x3 x4) =
     {#TryN x1 x2 x3 x4#} +
     nodesOf x2 +
     sum_list (map caseNodes (map (map_CaseDef (map_Pattern nodesOf) nodesOf) x3)) +
     held (map_option nodesOf x4)"
| "nodesOf (ThrowN x1 x2) = {#ThrowN x1 x2#} + nodesOf x2"
| "nodesOf (SuperN x1 x2) = {#SuperN x1 x2#}"
| "nodesOf (ExtensionDefN x1 x2 x3 x4) = {#ExtensionDefN x1 x2 x3 x4#} + sum_list (map nodesOf x4)"
| "nodesOf (TypeDefN x1) = {#TypeDefN x1#}"

lemma sum_slot: "(\<Sum>c \<leftarrow> slot x. f c) = held (map_option f x)"
  by (cases x) (simp_all add: slot_def held_def)

lemma sum_concat: "(\<Sum>c \<leftarrow> concat xss. f c) = (\<Sum>xs \<leftarrow> xss. \<Sum>c \<leftarrow> xs. f c)"
  by (induction xss) simp_all

lemma sum_structs:
  "(\<Sum>c \<leftarrow> takeParams ps. f c) = sum_list (map (paramNodes \<circ> map_Param f) ps)"
  "parentNodes (map_ParentRef f p) = (\<Sum>c \<leftarrow> pr_args p. f c)"
  "enumCaseNodes (map_EnumCase f e) = (\<Sum>c \<leftarrow> takeParams (ec_params e) @ ec_parentArgs e. f c)"
  "caseNodes (map_CaseDef g f d) = (\<Sum>c \<leftarrow> slot (cd_guard d) @ [cd_body d]. f c)"
  by (simp_all add: takeParams_def sum_concat comp_def paramNodes_def parentNodes_def enumCaseNodes_def caseNodes_def
      sum_slot Param.map_sel ParentRef.map_sel EnumCase.map_sel CaseDef.map_sel)

text \<open>The table of child slots misses no node.\<close>

lemma nodesOf_children: "nodesOf n = {#n#} + (\<Sum>c \<leftarrow> childSlots n. nodesOf c)"
  by (cases n) (simp_all add: sum_slot sum_concat sum_structs comp_def Enumerator.map_sel)

lemma nodesOf_subnodes: "mset (subnodes n) = nodesOf n"
proof (induction n rule: subnodes.induct)
  case (1 n)
  then have "map mset (map subnodes (childSlots n)) = map nodesOf (childSlots n)" by simp
  then show ?case
    by (simp only: subnodes.simps [of n] nodesOf_children [of n] mset_concat mset.simps) simp
qed

subsection \<open>Rebasing changes positions only\<close>

lemma childSlots_setPos [simp]: "childSlots (setPos at n) = childSlots n"
  by (cases n) simp_all

lemma nodePos_mapSlots [simp]: "nodePos (mapSlots f n) = nodePos n"
  by (cases n) simp_all

lemma nodePos_setPos [simp]: "nodePos (setPos at n) = at"
  by (cases n) simp_all

lemma subnodes_rebase: "subnodes (rebase at n) = map (rebase at) (subnodes n)"
proof (induction n rule: subnodes.induct)
  case (1 n)
  then have "map subnodes (childSlots (rebase at n)) = map (\<lambda>c. map (rebase at) (subnodes c)) (childSlots n)"
    by (simp add: rebase.simps [of at n] childSlots_mapSlots)
  then show ?case by (simp add: subnodes.simps [of n] subnodes.simps [of "rebase at n"] map_concat comp_def)
qed

lemma map_structs_cong:
  "\<forall>p \<in> set ps. \<forall>c \<in> set_Param p. r (f c) = r c \<Longrightarrow>
     map (map_Param r \<circ> map_Param f) ps = map (map_Param r) ps"
  "\<forall>ps \<in> set ls. \<forall>p \<in> set ps. \<forall>c \<in> set_Param p. r (f c) = r c \<Longrightarrow>
     map (map (map_Param r \<circ> map_Param f)) ls = map (map (map_Param r)) ls"
  "\<forall>p \<in> set prs. \<forall>c \<in> set (pr_args p). r (f c) = r c \<Longrightarrow>
     map (map_ParentRef r \<circ> map_ParentRef f) prs = map (map_ParentRef r) prs"
  "\<forall>c \<in> set cs. r (f (cd_body c)) = r (cd_body c) \<and> (\<forall>x \<in> set_option (cd_guard c). r (f x) = r x) \<Longrightarrow>
     map (h \<circ> (map_CaseDef q r \<circ> map_CaseDef id f)) cs = map (h \<circ> map_CaseDef q r) cs"
  "\<forall>e \<in> set es. r (f (en_expr e)) = r (en_expr e) \<Longrightarrow>
     map (h' \<circ> (map_Enumerator q r \<circ> map_Enumerator id f)) es = map (h' \<circ> map_Enumerator q r) es"
  "\<forall>x \<in> set_option v. r (f x) = r x \<Longrightarrow> map_option (r \<circ> f) v = map_option r v"
  "\<forall>x \<in> set xs. r (f x) = r x \<Longrightarrow> map (r \<circ> f) xs = map r xs"
  by (auto simp: struct_sets Param.map_comp ParentRef.map_comp CaseDef.map_comp Enumerator.map_comp
      intro!: Param.map_cong0 ParentRef.map_cong0 CaseDef.map_cong0 Enumerator.map_cong0
      option.map_cong0 arg_cong [where f = h] arg_cong [where f = h'])

lemma render_mapSlots:
  "\<forall>c \<in> set (childSlots n). render (f c) = render c \<Longrightarrow> render (mapSlots f n) = render n"
  by (cases n)
    (simp_all add: map_structs_cong mapCase_def mapEnumerator_def option.map_comp ball_Un)

lemma render_setPos: "render (setPos at n) = render n"
  by (cases n) (simp_all add: renderVal_def renderDef_def renderTemplate_def renderTypeDef_def split: option.split)

lemma render_rebase: "render (rebase at n) = render n"
proof (induction n rule: subnodes.induct)
  case (1 n)
  then have "render (mapSlots (rebase at) (setPos at n)) = render (setPos at n)"
    by (intro render_mapSlots) simp
  then show ?case by (simp add: rebase.simps [of at n] render_setPos)
qed

subsection \<open>Copies\<close>

text \<open>
  The exceptions of the front end.  \<open>Undefined\<close> stands for undefined behaviour of the source: a null
  pointer dereferenced, or an element read from an empty vector.
\<close>

datatype FrontendError =
    LogicError byte_string
  | ParseError byte_string SourcePos bool
  | Undefined byte_string

primrec cloneType :: "TypeTree \<Rightarrow> TypeTree" where
  "cloneType (TypeTree kind name args pos) = TypeTree kind name (map cloneType args) pos"

fun cloneSimpleExpr :: "Node \<Rightarrow> FrontendError + Node" where
  "cloneSimpleExpr (IntLitN p v f d b) = Inr (IntLitN p v f d b)"
| "cloneSimpleExpr (FloatLitN p v t) = Inr (FloatLitN p v t)"
| "cloneSimpleExpr (StringLitN p v) = Inr (StringLitN p v)"
| "cloneSimpleExpr (CharLitN p v) = Inr (CharLitN p v)"
| "cloneSimpleExpr (BoolLitN p v) = Inr (BoolLitN p v)"
| "cloneSimpleExpr (NullLitN p) = Inr (NullLitN p)"
| "cloneSimpleExpr (UnitLitN p) = Inr (UnitLitN p)"
| "cloneSimpleExpr (IdentN p n) = Inr (IdentN p n)"
| "cloneSimpleExpr (SelectN p q n) =
     (case cloneSimpleExpr q of Inl e \<Rightarrow> Inl e | Inr q' \<Rightarrow> Inr (SelectN p q' n))"
| "cloneSimpleExpr _ = Inl (LogicError ''cloneSimpleExpr: not a literal or a path'')"

primrec clonePattern :: "Node Pattern \<Rightarrow> FrontendError + Node Pattern" where
  "clonePattern (Pattern kind pos name expr type args) =
     bindE (optionE cloneSimpleExpr expr) (\<lambda>expr'.
     bindE (traverseE id (map clonePattern args)) (\<lambda>args'.
       Inr (Pattern kind pos name expr' (map_option cloneType type) args')))"

text \<open>What the comment of \<^verbatim>\<open>AST.h\<close> says a pattern contains: literals and paths only.\<close>

fun simpleExpr :: "Node \<Rightarrow> bool" where
  "simpleExpr (IntLitN p v f d b) = True"
| "simpleExpr (FloatLitN p v t) = True"
| "simpleExpr (StringLitN p v) = True"
| "simpleExpr (CharLitN p v) = True"
| "simpleExpr (BoolLitN p v) = True"
| "simpleExpr (NullLitN p) = True"
| "simpleExpr (UnitLitN p) = True"
| "simpleExpr (IdentN p n) = True"
| "simpleExpr (SelectN p q n) = simpleExpr q"
| "simpleExpr _ = False"

definition simplePattern :: "Node Pattern \<Rightarrow> bool" where
  "simplePattern p = pred_Pattern simpleExpr p"

lemma cloneType_id [simp]: "cloneType t = t"
  by (induction t) (simp add: map_idI)

text \<open>A pattern definition, which only a statement list may hold.\<close>

fun isPatternVal :: "Node \<Rightarrow> bool" where
  "isPatternVal (ValDefN h r pt) = (pt \<noteq> None)"
| "isPatternVal _ = False"

definition cloneError :: FrontendError where
  "cloneError = LogicError ''cloneSimpleExpr: not a literal or a path''"

lemma cloneSimpleExpr_exact: "cloneSimpleExpr n = (if simpleExpr n then Inr n else Inl cloneError)"
  by (induction n rule: cloneSimpleExpr.induct) (simp_all add: cloneError_def)

lemma map_option_cloneType [simp]: "map_option cloneType t = t"
  by (cases t) simp_all

lemma traverseE_checked:
  "(\<And>x. x \<in> set xs \<Longrightarrow> f x = (if P x then Inr x else Inl e)) \<Longrightarrow>
   traverseE id (map f xs) = (if list_all P xs then Inr xs else Inl e)"
  by (induction xs) simp_all

lemma clonePattern_checked: "clonePattern p = (if simplePattern p then Inr p else Inl cloneError)"
proof (induction p)
  case (Pattern kind pos name expr type args)
  have "traverseE id (map clonePattern args) =
      (if list_all (pred_Pattern simpleExpr) args then Inr args else Inl cloneError)"
    by (rule traverseE_checked) (simp add: Pattern simplePattern_def)
  then show ?case
    by (cases expr) (simp_all add: simplePattern_def optionE_def cloneSimpleExpr_exact)
qed

subsection \<open>Properties\<close>

text \<open>
  \<^verbatim>\<open>rebase\<close> gives every node of the tree that the walk reaches the position asked for, keeps the
  number of nodes, and changes nothing that the rendering of the tree shows.
\<close>

theorem rebase_only_positions:
  "set (map nodePos (subnodes (rebase at n))) = {at} \<and>
   length (subnodes (rebase at n)) = length (subnodes n) \<and>
   dumpNode (rebase at n) = dumpNode n"
proof -
  have "nodePos (rebase at m) = at" for m by (simp add: rebase.simps [of at m])
  then show ?thesis
    by (simp add: subnodes_rebase comp_def dumpNode_def render_rebase)
       (simp add: subnodes.simps [of n] image_constant_conv)
qed

text \<open>
  C25: the teardown, which keeps its own worklist so that a deep tree cannot overflow the native
  stack, terminates and frees exactly once every node the fields of the tree hold, the expressions inside
  patterns apart; an empty pointer frees nothing.
\<close>

theorem destroyTree_frees_once:
  "mset (destroyTree (Some n)) = nodesOf n \<and> destroyTree None = []"
  by (simp add: destroyTree_def slot_def mset_destroyLoop nodesOf_subnodes) (simp add: destroyLoop.simps)

text \<open>
  A pattern is copied exactly when all the expressions in it are literals or paths, and the
  copy is equal to the original; every other pattern is refused with the documented logic error.
\<close>

theorem clonePattern_exact:
  "clonePattern p =
     (if simplePattern p then Inr p
      else Inl (LogicError ''cloneSimpleExpr: not a literal or a path''))"
  using clonePattern_checked by (simp add: cloneError_def)

end
