(* ===== verification/Operators.thy ===== *)
theory Operators
  imports AST
begin

text \<open>
  How an operator's spelling decides its syntax (the free functions at the head of
  \<^verbatim>\<open>src/src/frontend/Parser.cpp\<close>): assignment operators, associativity and precedence.  The parser and
  the desugarer both consult them.
\<close>

definition isLetterStart :: "char \<Rightarrow> bool" where
  "isLetterStart c \<longleftrightarrow> isalpha c \<or> c = CHR ''_'' \<or> c = CHR ''$'' \<or> byte_of c \<ge> 0x80"

definition isAssignmentOperator :: "byte_string \<Rightarrow> bool" where
  "isAssignmentOperator op \<longleftrightarrow>
     \<not> (length op < 2 \<or> last op \<noteq> CHR ''='' \<or> hd op = CHR ''='') \<and>
     op \<notin> {''<='', ''>='', ''!=''} \<and> list_all (\<lambda>c. \<not> (isLetterStart c \<or> isdigit c)) op"

definition isRightAssociative :: "byte_string \<Rightarrow> bool" where
  "isRightAssociative op \<longleftrightarrow> op \<noteq> [] \<and> last op = CHR '':''"

text \<open>
  \<^verbatim>\<open>precedence\<close> reads the first character; the parser asks only for the text of an identifier, which
  the lexer never leaves empty (the empty text is given the lowest branch here).
\<close>

definition precedence :: "byte_string \<Rightarrow> nat" where
  "precedence op =
     (if isAssignmentOperator op then 0
      else case op of
          [] \<Rightarrow> 10
        | c # _ \<Rightarrow>
            if isLetterStart c then 1
            else if c = CHR ''|'' then 2
            else if c = CHR ''^'' then 3
            else if c = CHR ''&'' then 4
            else if c \<in> {CHR ''='', CHR ''!''} then 5
            else if c \<in> {CHR ''<'', CHR ''>''} then 6
            else if c = CHR '':'' then 7
            else if c \<in> {CHR ''+'', CHR ''-''} then 8
            else if c \<in> {CHR ''*'', CHR ''/'', CHR ''%''} then 9
            else 10)"

definition kLevels :: nat where
  "kLevels = 11"

lemma precedence_level [simp]: "precedence op < kLevels"
  by (auto simp: precedence_def kLevels_def split: list.split)

definition makePattern :: "PatternKind \<Rightarrow> SourcePos \<Rightarrow> Node Pattern" where
  "makePattern k pos = Pattern k pos [] None None []"

end
