(* ===== verification/ParserState.thy ===== *)
theory ParserState
  imports Layout Monads AstWalk Operators
begin

text \<open>
  The state of \<^verbatim>\<open>class Parser\<close> (\<^verbatim>\<open>src/src/frontend/Parser.h\<close>) and its token helpers.  A parsing
  routine is an action on that state; it stops with an exception of the front end, with the failure
  of the lexer run on the text of an interpolation hole, or, an artefact of the model, because the
  recursion bound ran out (\<open>OutOfFuel\<close>, which is proved never to happen).

  Tokens are referred to by their index in the token vector, as the source refers to them by
  address.  \<^verbatim>\<open>placeholderFrames_\<close> is a list with the innermost frame first.
\<close>

record Parser =
  ps_toks :: "Token list"
  ps_i :: nat
  ps_closingParen :: "nat option list"
  ps_inTemplateBody :: bool
  ps_enumTarget :: "Node EnumCase list option"
  ps_placeholderFrames :: "byte_string list list"
  ps_placeholderCounter :: nat
  ps_caseLambdaCounter :: nat

datatype ParserStop = Raised FrontendError | LexRaised LayoutFailure | OutOfFuel

type_synonym 'a parsing = "(ParserStop, Parser, 'a) action"

subsection \<open>Sequencing\<close>

definition ask :: "(Parser \<Rightarrow> 'b) \<Rightarrow> ('b \<Rightarrow> 'a parsing) \<Rightarrow> 'a parsing" where
  "ask g f s = f (g s) s"

definition ifS :: "(Parser \<Rightarrow> bool) \<Rightarrow> 'a parsing \<Rightarrow> 'a parsing \<Rightarrow> 'a parsing" where
  "ifS c f g s = (if c s then f s else g s)"

definition update :: "(Parser \<Rightarrow> Parser) \<Rightarrow> unit parsing" where
  "update f s = Inr ((), f s)"

definition thenA :: "'b parsing \<Rightarrow> 'a parsing \<Rightarrow> 'a parsing" where
  "thenA m n = andThen m (\<lambda>_. n)"

definition whenS :: "(Parser \<Rightarrow> bool) \<Rightarrow> 'b parsing \<Rightarrow> unit parsing" where
  "whenS c m = ifS c (thenA m (ret ())) (ret ())"

text \<open>
  A loop of the source: the body returns \<^const>\<open>Inl\<close> to go on and \<^const>\<open>Inr\<close> to leave.  Every iteration
  that goes on consumes a token, so the number of tokens left bounds the loop.
\<close>

definition remainingTokens :: "Parser \<Rightarrow> nat" where
  "remainingTokens s = length (ps_toks s) - ps_i s"

primrec loopN :: "nat \<Rightarrow> ('b \<Rightarrow> ('b + 'a) parsing) \<Rightarrow> 'b \<Rightarrow> 'a parsing" where
  "loopN 0 body b s = Inl OutOfFuel"
| "loopN (Suc n) body b s =
     (case body b s of
        Inl e \<Rightarrow> Inl e
      | Inr (Inl b', s') \<Rightarrow> loopN n body b' s'
      | Inr (Inr x, s') \<Rightarrow> Inr (x, s'))"

definition loopA :: "('b \<Rightarrow> ('b + 'a) parsing) \<Rightarrow> 'b \<Rightarrow> 'a parsing" where
  "loopA body b s = loopN (Suc (remainingTokens s)) body b s"

definition continue :: "'b \<Rightarrow> ('b + 'a) parsing" where
  "continue b = ret (Inl b)"

definition leave :: "'a \<Rightarrow> ('b + 'a) parsing" where
  "leave x = ret (Inr x)"

subsection \<open>Construction\<close>

text \<open>For each opening parenthesis the index of the closing one (\<^verbatim>\<open>closingParen_\<close>).\<close>

fun matchParens :: "nat \<Rightarrow> nat list \<Rightarrow> nat option list \<Rightarrow> Token list \<Rightarrow> nat option list" where
  "matchParens j opened acc [] = acc"
| "matchParens j opened acc (t # ts) =
     (if tk_kind t = LParen then matchParens (Suc j) (j # opened) acc ts
      else if tk_kind t = RParen \<and> opened \<noteq> [] then
        matchParens (Suc j) (tl opened) (acc[hd opened := Some j]) ts
      else matchParens (Suc j) opened acc ts)"

definition withEof :: "Token list \<Rightarrow> Token list" where
  "withEof toks =
     (if toks = [] \<or> tk_kind (last toks) \<noteq> EndOfFile
      then toks @ [defaultToken\<lparr>tk_kind := EndOfFile,
                                tk_pos := if toks = [] then startPos else tk_end (last toks)\<rparr>]
      else toks)"

definition newParser :: "Token list \<Rightarrow> Parser" where
  "newParser tokens =
     (let toks = withEof tokens in
      \<lparr>ps_toks = toks, ps_i = 0,
       ps_closingParen = matchParens 0 [] (replicate (length toks) None) toks,
       ps_inTemplateBody = False, ps_enumTarget = None, ps_placeholderFrames = [],
       ps_placeholderCounter = 0, ps_caseLambdaCounter = 0\<rparr>)"

subsection \<open>Token helpers\<close>

definition peekIndex :: "nat \<Rightarrow> Parser \<Rightarrow> nat" where
  "peekIndex k s =
     (if ps_i s + k < length (ps_toks s) then ps_i s + k else length (ps_toks s) - 1)"

definition peek :: "nat \<Rightarrow> Parser \<Rightarrow> Token" where
  "peek k s = ps_toks s ! peekIndex k s"

abbreviation here :: "Parser \<Rightarrow> Token" where
  "here s \<equiv> peek 0 s"

abbreviation peekKind :: "nat \<Rightarrow> Parser \<Rightarrow> TokenKind" where
  "peekKind k s \<equiv> tk_kind (peek k s)"

definition atKind :: "TokenKind \<Rightarrow> Parser \<Rightarrow> bool" where
  "atKind k s \<longleftrightarrow> tk_kind (here s) = k"

definition atIdent :: "byte_string \<Rightarrow> Parser \<Rightarrow> bool" where
  "atIdent text s \<longleftrightarrow> atKind Identifier s \<and> \<not> tk_backquoted (here s) \<and> tk_text (here s) = text"

definition stepToken :: "Parser \<Rightarrow> Parser" where
  "stepToken s = (if ps_i s < length (ps_toks s) - 1 then s\<lparr>ps_i := ps_i s + 1\<rparr> else s)"

definition advanceToken :: "Token parsing" where
  "advanceToken s = Inr (here s, stepToken s)"

text \<open>Layout closes open blocks before the end of the input; an error there is still at the end.\<close>

definition atEndOfInput :: "nat \<Rightarrow> Parser \<Rightarrow> bool" where
  "atEndOfInput j s =
     (case dropWhile (\<lambda>t. tk_kind t = Newline \<or> tk_kind t = Outdent) (drop j (ps_toks s)) of
        [] \<Rightarrow> False
      | t # _ \<Rightarrow> tk_kind t = EndOfFile)"

definition failAt :: "nat \<Rightarrow> byte_string \<Rightarrow> 'a parsing" where
  "failAt j msg s =
     (let eof = atEndOfInput j s in
      Inl (Raised (ParseError
        (if eof then ''unexpected end of input'' @ (if msg = [] then [] else '': '' @ msg) else msg)
        (tk_pos (ps_toks s ! j)) eof)))"

definition failPeek :: "nat \<Rightarrow> byte_string \<Rightarrow> 'a parsing" where
  "failPeek k msg s = failAt (peekIndex k s) msg s"

abbreviation fail :: "byte_string \<Rightarrow> 'a parsing" where
  "fail \<equiv> failPeek 0"

definition unsupported :: "byte_string \<Rightarrow> Token \<Rightarrow> bool \<Rightarrow> 'a parsing" where
  "unsupported feature at plural =
     throw (Raised (ParseError
       (feature @ (if plural then '' are'' else '' is'') @ '' not implemented yet'') (tk_pos at) False))"

definition notImplemented :: "byte_string \<Rightarrow> Token \<Rightarrow> 'a parsing" where
  "notImplemented what at =
     throw (Raised (ParseError (what @ '' are not implemented yet'') (tk_pos at) False))"

definition spelling :: "Token \<Rightarrow> byte_string" where
  "spelling t = (if tk_text t = [] then tokenKindName (tk_kind t) else tk_text t)"

definition quote :: "byte_string \<Rightarrow> byte_string" where
  "quote x = [SQUOTE] @ x @ [SQUOTE]"

definition expectedMsg :: "byte_string \<Rightarrow> Token \<Rightarrow> byte_string" where
  "expectedMsg what t = what @ '' expected but '' @ quote (spelling t) @ '' found''"

definition failFound :: "byte_string \<Rightarrow> 'a parsing" where
  "failFound what = ask here (\<lambda>t. fail (expectedMsg what t))"

definition expect :: "TokenKind \<Rightarrow> byte_string \<Rightarrow> Token parsing" where
  "expect k what = ifS (atKind k) advanceToken (failFound what)"

definition atSeparator :: "Parser \<Rightarrow> bool" where
  "atSeparator s \<longleftrightarrow> atKind Newline s \<or> atKind Semicolon s"

text \<open>\<^verbatim>\<open>while (...) advance();\<close> and \<^verbatim>\<open>while (skipOneNewline()) {}\<close>\<close>

definition skipWhile :: "(Parser \<Rightarrow> bool) \<Rightarrow> unit parsing" where
  "skipWhile c = loopA (\<lambda>_. ifS c (thenA advanceToken (continue ())) (leave ())) ()"

abbreviation skipNewlines :: "unit parsing" where
  "skipNewlines \<equiv> skipWhile atSeparator"

definition isLayoutToken :: "TokenKind \<Rightarrow> bool" where
  "isLayoutToken k \<longleftrightarrow> k = Newline \<or> k = Indent \<or> k = Outdent \<or> k = EndMarker \<or> k = ColonEol"

definition stopsLine :: "TokenKind \<Rightarrow> bool" where
  "stopsLine k \<longleftrightarrow> k = KwElse \<or> k = KwIf \<or> k = KwWhile \<or> k = KwThen \<or> k = KwDo \<or> k = Arrow"

fun sameLineScan :: "TokenKind \<Rightarrow> bool \<Rightarrow> nat \<Rightarrow> Token list \<Rightarrow> bool" where
  "sameLineScan k first depth [] = False"
| "sameLineScan k first depth (t # ts) =
     (if tk_kind t = EndOfFile \<or> isLayoutToken (tk_kind t) then False
      else if \<not> first \<and> tk_firstOnLine t then False
      else if depth = 0 \<and> tk_kind t = k then True
      else if depth = 0 \<and> stopsLine (tk_kind t) then False
      else if tk_kind t \<in> {LParen, LBracket, LBrace} then sameLineScan k False (depth + 1) ts
      else if tk_kind t \<in> {RParen, RBracket, RBrace} then
        depth \<noteq> 0 \<and> sameLineScan k False (depth - 1) ts
      else sameLineScan k False depth ts)"

definition sameLineAhead :: "TokenKind \<Rightarrow> Parser \<Rightarrow> bool" where
  "sameLineAhead k s = sameLineScan k True 0 (drop (ps_i s) (ps_toks s))"

definition makeType :: "TypeKind \<Rightarrow> SourcePos \<Rightarrow> byte_string \<Rightarrow> TypeTree list \<Rightarrow> TypeTree" where
  "makeType kind pos name args = TypeTree kind name args pos"

end
