(* ===== verification/ParserTypes.thy ===== *)
theory ParserTypes
  imports ParserState
begin

text \<open>
  The recursion of \<^verbatim>\<open>src/src/frontend/Parser.cpp\<close> and its type grammar.  The routines of the class call
  each other; the calls that close a cycle go through the fields of \<open>Rules\<close>, so that every routine is
  an ordinary definition over the rules it calls.  \<open>r_hole\<close> is the nested parser that
  \<^verbatim>\<open>parseInterpolation\<close> creates for the text of a hole.
\<close>

record Rules =
  r_expr :: "Node parsing"
  r_infix :: "nat \<Rightarrow> (nat \<times> bool) option \<Rightarrow> Node parsing"
  r_type :: "TypeTree parsing"
  r_pattern :: "Node Pattern parsing"
  r_infixPattern :: "nat \<Rightarrow> nat option \<Rightarrow> Node Pattern parsing"
  r_blockBody :: "TokenKind \<Rightarrow> Node list parsing"
  r_definition :: "Node parsing"
  r_hole :: "byte_string \<Rightarrow> SourcePos \<Rightarrow> ParserStop + Node"

text \<open>\<open>item {',' item}\<close>, a loop that occurs throughout.\<close>

definition moreItems :: "'a parsing \<Rightarrow> 'a list \<Rightarrow> 'a list parsing" where
  "moreItems item = loopA (\<lambda>xs.
     ifS (atKind Comma) (thenA advanceToken (andThen item (\<lambda>x. continue (xs @ [x])))) (leave xs))"

definition commaSeparated :: "'a parsing \<Rightarrow> 'a list parsing" where
  "commaSeparated item = andThen item (\<lambda>x. moreItems item [x])"

text \<open>\<open>{'.' id}\<close> after the first name of a path.\<close>

definition qualifiedName :: "byte_string \<Rightarrow> byte_string parsing" where
  "qualifiedName = loopA (\<lambda>name.
     ifS (\<lambda>s. atKind Dot s \<and> peekKind 1 s = Identifier)
       (thenA advanceToken (andThen advanceToken (\<lambda>t. continue (name @ ''.'' @ tk_text t))))
       (leave name))"

definition typeArguments :: "Rules \<Rightarrow> TypeTree list parsing" where
  "typeArguments r =
     thenA advanceToken (andThen (commaSeparated (r_type r)) (\<lambda>ts.
     thenA (expect RBracket (quote '']'')) (ret ts)))"

definition parseSimpleType :: "Rules \<Rightarrow> TypeTree parsing" where
  "parseSimpleType r = ask here (\<lambda>t.
     ifS (\<lambda>s. tk_kind t = Underscore \<or> atIdent ''?'' s)
       (thenA advanceToken
         (ifS (\<lambda>s. tk_kind t = Underscore \<and> atIdent ''*'' s)
           (thenA advanceToken
             (ret (makeType TK_Repeated (tk_pos t) [] [makeType TK_Wildcard (tk_pos t) [] []])))
           (ret (makeType TK_Wildcard (tk_pos t) [] []))))
     (if tk_kind t \<noteq> Identifier then failFound ''type''
      else thenA advanceToken (andThen (qualifiedName (tk_text t)) (\<lambda>name.
        ifS (atKind LBracket)
          (andThen (typeArguments r) (\<lambda>args. ret (makeType TK_Applied (tk_pos t) name args)))
          (ret (makeType TK_Name (tk_pos t) name []))))))"

definition infixTypes :: "Rules \<Rightarrow> (Parser \<Rightarrow> bool) \<Rightarrow> TypeTree \<Rightarrow> TypeTree parsing" where
  "infixTypes r isOp = loopA (\<lambda>lhs.
     ifS isOp
       (andThen advanceToken (\<lambda>op. andThen (parseSimpleType r) (\<lambda>rhs.
          continue (makeType TK_Infix (tt_pos lhs) (tk_text op) [lhs, rhs]))))
       (leave lhs))"

definition parseInfixType :: "Rules \<Rightarrow> TypeTree parsing" where
  "parseInfixType r =
     andThen (parseSimpleType r) (infixTypes r (\<lambda>s. atIdent ''|'' s \<or> atIdent ''&'' s))"

text \<open>\<open>'(' [T {',' T}] ')' ['=>' T]\<close>\<close>

definition parenType :: "Rules \<Rightarrow> SourcePos \<Rightarrow> TypeTree parsing" where
  "parenType r pos =
     thenA advanceToken
     (andThen (ifS (atKind RParen) (ret []) (commaSeparated (r_type r))) (\<lambda>elems.
      thenA (expect RParen (quote '')''))
      (ifS (atKind Arrow)
        (thenA advanceToken (andThen (r_type r) (\<lambda>res. ret (makeType TK_Function pos [] (elems @ [res])))))
        (case elems of
           [] \<Rightarrow> fail (quote ''=>'' @ '' expected after '' @ quote ''()'' @ '' in a type'')
         | [ty] \<Rightarrow> ret ty
         | _ \<Rightarrow> ret (makeType TK_Tuple pos [] elems)))))"

definition parseType :: "Rules \<Rightarrow> TypeTree parsing" where
  "parseType r = ask here (\<lambda>t.
     if tk_kind t = Arrow then
       thenA advanceToken (andThen (r_type r) (\<lambda>ty. ret (makeType TK_ByName (tk_pos t) [] [ty])))
     else if tk_kind t = LParen then parenType r (tk_pos t)
     else andThen (parseInfixType r) (\<lambda>ty.
       ifS (atKind Arrow)
         (thenA advanceToken (andThen (r_type r) (\<lambda>res. ret (makeType TK_Function (tt_pos ty) [] [ty, res]))))
         (ret ty)))"

text \<open>The type of a typed pattern: \<open>|\<close> and \<open>=>\<close> do not belong to it.\<close>

definition parsePatternType :: "Rules \<Rightarrow> TypeTree parsing" where
  "parsePatternType r = ask here (\<lambda>t.
     andThen
       (ifS (atKind LParen)
         (thenA advanceToken (andThen (commaSeparated (r_type r)) (\<lambda>elems.
          thenA (expect RParen (quote '')''))
            (case elems of [ty] \<Rightarrow> ret ty | _ \<Rightarrow> ret (makeType TK_Tuple (tk_pos t) [] elems)))))
         (parseSimpleType r))
       (infixTypes r (atIdent ''&'')))"

text \<open>\<^verbatim>\<open>do { ... } while (depth > 0)\<close>: a bracketed group whose contents are skipped.\<close>

definition skipGroup :: "TokenKind \<Rightarrow> TokenKind \<Rightarrow> byte_string \<Rightarrow> unit parsing" where
  "skipGroup opening closing msg = loopA (\<lambda>depth.
     ifS (atKind EndOfFile) (fail msg)
       (ask here (\<lambda>t.
          let depth' = (if tk_kind t = opening then depth + 1
                        else if tk_kind t = closing then depth - 1 else depth) in
          thenA advanceToken (if depth' > 0 then continue depth' else leave ())))) (0 :: int)"

definition typeParamName :: "byte_string parsing" where
  "typeParamName =
     thenA (whenS (\<lambda>s. atIdent ''+'' s \<or> atIdent ''-'' s) advanceToken)
     (ifS (atKind Underscore) (thenA advanceToken (ret ''_''))
       (andThen (expect Identifier ''type parameter'') (\<lambda>t. ret (tk_text t))))"

definition skipBounds :: "Rules \<Rightarrow> unit parsing" where
  "skipBounds r = loopA (\<lambda>_.
     ifS (\<lambda>s. atKind Subtype s \<or> atKind Supertype s \<or> atKind Colon s)
       (thenA advanceToken (thenA (r_type r) (continue ()))) (leave ())) ()"

definition typeParamNames :: "Rules \<Rightarrow> byte_string list \<Rightarrow> byte_string list parsing" where
  "typeParamNames r = loopA (\<lambda>names.
     ifS (atKind RBracket) (leave names)
       (andThen typeParamName (\<lambda>name.
        thenA (whenS (atKind LBracket) (skipGroup LBracket RBracket (quote '']'' @ '' expected'')))
        (thenA (skipBounds r)
        (ifS (atKind Comma) (thenA advanceToken (continue (names @ [name])))
          (leave (names @ [name])))))))"

definition parseTypeParams :: "Rules \<Rightarrow> byte_string list parsing" where
  "parseTypeParams r =
     thenA (expect LBracket (quote ''[''))
     (andThen (typeParamNames r []) (\<lambda>names. thenA (expect RBracket (quote '']'')) (ret names)))"

end
