(* ===== verification/Strtod.thy ===== *)
theory Strtod
  imports Prelude
begin

text \<open>
  \<^verbatim>\<open>strtod\<close> of the C library on the spellings the lexer hands it (digits, an optional fraction and an
  optional exponent): the 64-bit pattern of the double nearest to the decimal value, ties to even,
  infinity beyond the largest double.
\<close>

function bitsOf :: "nat \<Rightarrow> nat" where
  "bitsOf n = (if n = 0 then 0 else Suc (bitsOf (n div 2)))"
  by auto
termination
  by (relation "measure id") auto

declare bitsOf.simps [simp del]

text \<open>The quotient rounded to the nearest integer, ties to even.\<close>

definition roundHalfEven :: "nat \<Rightarrow> nat \<Rightarrow> nat" where
  "roundHalfEven num den =
     (let q = num div den; r = num mod den in
      if 2 * r < den then q else if 2 * r > den then q + 1 else if even q then q else q + 1)"

definition floorLog2 :: "nat \<Rightarrow> nat \<Rightarrow> int" where
  "floorLog2 num den =
     (let e = int (bitsOf num) - int (bitsOf den) in
      if (if e \<ge> 0 then den * 2 ^ nat e \<le> num else den \<le> num * 2 ^ nat (- e)) then e else e - 1)"

definition infinityBits :: nat where
  "infinityBits = 2047 * 2 ^ 52"

text \<open>
  With \<open>E\<close> the binary exponent of the value, at least that of the smallest normal number, the
  significand is the value scaled by \<open>2 ^ (52 - E)\<close> and rounded; adding it to the exponent field
  lets the carry of the rounding reach the exponent.
\<close>

definition ratioBits :: "nat \<Rightarrow> nat \<Rightarrow> u64" where
  "ratioBits num den =
     (if num = 0 then 0
      else
        let E = max (floorLog2 num den) (- 1022);
            m = (if E \<le> 52 then roundHalfEven (num * 2 ^ nat (52 - E)) den
                 else roundHalfEven num (den * 2 ^ nat (E - 52)))
        in of_nat (min (nat (E + 1022) * 2 ^ 52 + m) infinityBits))"

definition isExponentChar :: "char \<Rightarrow> bool" where
  "isExponentChar c \<longleftrightarrow> c = CHR ''e'' \<or> c = CHR ''E''"

definition exponentValue :: "byte_string \<Rightarrow> int" where
  "exponentValue x =
     (case x of
        [] \<Rightarrow> 0
      | c # ds \<Rightarrow>
          if c = CHR ''-'' then - int (decimalValue ds)
          else if c = CHR ''+'' then int (decimalValue ds)
          else int (decimalValue x))"

definition strtod :: "byte_string \<Rightarrow> u64" where
  "strtod text =
     (let mantissa = takeWhile (\<lambda>c. \<not> isExponentChar c) text;
          whole = takeWhile (\<lambda>c. c \<noteq> CHR ''.'') mantissa;
          fraction = drop (Suc (length whole)) mantissa;
          e = exponentValue (drop (Suc (length mantissa)) text) - int (length fraction);
          m = decimalValue (whole @ fraction)
      in if e \<ge> 0 then ratioBits (m * 10 ^ nat e) 1 else ratioBits m (10 ^ nat (- e)))"

text \<open>\<^verbatim>\<open>-x\<close> on a double flips the sign bit.\<close>

definition negateDouble :: "u64 \<Rightarrow> u64" where
  "negateDouble x = x XOR 0x8000000000000000"

lemma negateDouble_involution [simp]: "negateDouble (negateDouble x) = x"
  by (simp add: negateDouble_def xor.assoc)

end
