(* ===== verification/ParserTerms.thy ===== *)
theory ParserTerms
  imports ParserTypes Strtod
begin

text \<open>
  Operators and operands (\<^verbatim>\<open>src/src/frontend/Parser.cpp\<close>): lambdas and placeholders, blocks and cases,
  simple expressions with their suffixes, prefix operators and the precedence climbing of infix
  expressions.
\<close>

subsection \<open>Lambdas and placeholders\<close>

definition lambdaAhead :: "Parser \<Rightarrow> bool" where
  "lambdaAhead s =
     (let t = here s in
      if (tk_kind t = Identifier \<and> \<not> tk_isOperator t) \<or> tk_kind t = Underscore then peekKind 1 s = Arrow
      else if tk_kind t \<noteq> LParen \<or> ps_i s \<ge> length (ps_closingParen s) then False
      else case ps_closingParen s ! ps_i s of
          None \<Rightarrow> False
        | Some close \<Rightarrow> close + 1 < length (ps_toks s) \<and> tk_kind (ps_toks s ! (close + 1)) = Arrow)"

definition isByName :: "TypeTree \<Rightarrow> bool" where
  "isByName ty \<longleftrightarrow> tt_kind ty = TK_ByName"

definition lambdaParam :: "Rules \<Rightarrow> Node Param parsing" where
  "lambdaParam r = ask here (\<lambda>t.
     andThen
       (ifS (atKind Underscore) (thenA advanceToken (ret ''_''))
         (andThen (expect Identifier ''parameter name'') (\<lambda>n. ret (tk_text n)))) (\<lambda>name.
     ifS (atKind Colon)
       (thenA advanceToken (andThen (r_type r) (\<lambda>ty.
          ret (Param ((newParam name (tk_pos t))\<lparr>pa_type := Some ty, pa_byName := isByName ty\<rparr>) None))))
       (ret (Param (newParam name (tk_pos t)) None))))"

definition parseLambdaParams :: "Rules \<Rightarrow> Node Param list parsing" where
  "parseLambdaParams r =
     andThen
       (ifS (atKind LParen)
         (thenA advanceToken
         (andThen (ifS (atKind RParen) (ret []) (commaSeparated (lambdaParam r))) (\<lambda>ps.
          thenA (expect RParen (quote '')'')) (ret ps))))
         (andThen (lambdaParam r) (\<lambda>p. ret [p]))) (\<lambda>ps.
     thenA (expect Arrow (quote ''=>'')) (ret ps))"

definition placeholder :: "SourcePos \<Rightarrow> Node parsing" where
  "placeholder pos =
     ifS (\<lambda>s. ps_placeholderFrames s = []) (fail (''unbound placeholder '' @ quote ''_''))
       (ask (\<lambda>s. ''_$'' @ natToString (ps_placeholderCounter s + 1)) (\<lambda>name.
        thenA (update (\<lambda>s. s\<lparr>ps_placeholderCounter := ps_placeholderCounter s + 1,
          ps_placeholderFrames := (hd (ps_placeholderFrames s) @ [name]) # tl (ps_placeholderFrames s)\<rparr>))
        (ret (IdentN pos name))))"

subsection \<open>Blocks\<close>

definition parseIndentedBlock :: "Rules \<Rightarrow> Node parsing" where
  "parseIndentedBlock r =
     andThen (expect Indent ''indented block'') (\<lambda>t.
     andThen (r_blockBody r Outdent) (\<lambda>ss.
     thenA (expect Outdent ''end of indented block'') (ret (BlockN (tk_pos t) ss False))))"

definition parseExprOrIndented :: "Rules \<Rightarrow> Node parsing" where
  "parseExprOrIndented r = ifS (atKind Indent) (parseIndentedBlock r) (r_expr r)"

definition parseLambda :: "Rules \<Rightarrow> Node parsing" where
  "parseLambda r = ask here (\<lambda>t.
     andThen (parseLambdaParams r) (\<lambda>ps.
     andThen (parseExprOrIndented r) (\<lambda>b. ret (LambdaN (tk_pos t) ps (Some b) False False))))"

text \<open>Keywords that begin a definition, and the modifiers before them.\<close>

definition isSoftModifier :: "Token \<Rightarrow> bool" where
  "isSoftModifier t \<longleftrightarrow>
     tk_kind t = Identifier \<and> \<not> tk_backquoted t \<and>
     tk_text t \<in> {''open'', ''inline'', ''transparent'', ''infix'', ''opaque''}"

definition isHardModifier :: "TokenKind \<Rightarrow> bool" where
  "isHardModifier k \<longleftrightarrow>
     k \<in> {KwPrivate, KwProtected, KwFinal, KwOverride, KwAbstract, KwSealed}"

definition isDefinitionKeyword :: "TokenKind \<Rightarrow> bool" where
  "isDefinitionKeyword k \<longleftrightarrow>
     k \<in> {KwVal, KwVar, KwDef, KwLazy, KwImport, KwImplicit, KwGiven, KwClass, KwObject, KwTrait,
          KwEnum, KwCase, KwType, KwPackage, KwExport} \<or> isHardModifier k"

definition isExtensionStart :: "Token \<Rightarrow> Token \<Rightarrow> bool" where
  "isExtensionStart t next_tok \<longleftrightarrow>
     tk_kind t = Identifier \<and> \<not> tk_backquoted t \<and> tk_text t = ''extension'' \<and>
     (tk_kind next_tok = LParen \<or> tk_kind next_tok = LBracket)"

definition atDefinitionStart :: "Parser \<Rightarrow> bool" where
  "atDefinitionStart s \<longleftrightarrow>
     atKind At s \<or> isDefinitionKeyword (tk_kind (here s)) \<or> isExtensionStart (here s) (peek 1 s) \<or>
     (isSoftModifier (here s) \<and>
      (case dropWhile isSoftModifier (drop (ps_i s) (ps_toks s)) of
         [] \<Rightarrow> False
       | t # _ \<Rightarrow> isDefinitionKeyword (tk_kind t)))"

definition parseBlockStat :: "Rules \<Rightarrow> TokenKind \<Rightarrow> Node parsing" where
  "parseBlockStat r terminator =
     ifS atDefinitionStart (r_definition r)
     (ifS lambdaAhead
       (ask here (\<lambda>t.
        andThen (parseLambdaParams r) (\<lambda>ps.
        andThen
          (ifS (atKind Indent) (parseIndentedBlock r)
            (ask here (\<lambda>u. andThen (r_blockBody r terminator) (\<lambda>ss. ret (BlockN (tk_pos u) ss False)))))
          (\<lambda>b. ret (LambdaN (tk_pos t) ps (Some b) False False)))))
       (r_expr r))"

definition endMarkerMatches :: "Node \<Rightarrow> byte_string \<Rightarrow> bool" where
  "endMarkerMatches previous d =
     (case previous of
        IfN _ _ _ _ \<Rightarrow> d = ''if''
      | WhileN _ _ _ \<Rightarrow> d = ''while''
      | MatchN _ _ _ \<Rightarrow> d = ''match''
      | ForN _ _ _ _ \<Rightarrow> d = ''for''
      | DefDefN h _ _ \<Rightarrow> d = dd_name h
      | ValDefN h _ _ \<Rightarrow> d = ''val'' \<or> d = vd_name h
      | TemplateDefN h _ _ _ _ \<Rightarrow> d = td_name h
      | _ \<Rightarrow> False)"

text \<open>
  At an end marker: it must close the last statement (\<^verbatim>\<open>checkEndMarker\<close> and the two callers' check
  that there is one).
\<close>

definition checkEndMarker :: "Node list \<Rightarrow> unit parsing" where
  "checkEndMarker stats = ask here (\<lambda>marker.
     let d = ''misaligned end marker: '' @ [SQUOTE] @ ''end '' @ tk_text marker @ [SQUOTE] in
     if stats = [] then fail (d @ '' does not close a preceding construct'')
     else if \<not> endMarkerMatches (last stats) (tk_text marker)
     then fail (d @ '' does not close the preceding construct'')
     else thenA advanceToken (ret ()))"

definition separatorMissing :: "'a parsing" where
  "separatorMissing = failFound (quote '';'' @ '' or newline'')"

text \<open>After a statement: a separator or the terminator must follow.\<close>

definition endStatement :: "TokenKind \<Rightarrow> unit parsing" where
  "endStatement terminator =
     ifS (\<lambda>s. \<not> atSeparator s \<and> \<not> atKind terminator s) separatorMissing (ret ())"

subsection \<open>Cases\<close>

text \<open>
  The indented form of a case body: it ends at its Outdent, or at a \<open>case\<close> inside the region, which is
  then left open and counted.
\<close>

definition indentedStats :: "Rules \<Rightarrow> nat \<Rightarrow> Node list \<Rightarrow> (Node list \<times> nat) parsing" where
  "indentedStats r openRegions = loopA (\<lambda>ss.
     thenA skipNewlines
     (ifS (atKind Outdent) (thenA advanceToken (leave (ss, openRegions)))
     (ifS (atKind KwCase) (leave (ss, openRegions + 1))
     (ifS (atKind EndOfFile) (fail [])
     (ifS (atKind EndMarker) (thenA (checkEndMarker ss) (continue ss))
       (andThen (parseBlockStat r Outdent) (\<lambda>st.
        thenA (endStatement Outdent) (continue (ss @ [st])))))))))"

definition indentedCaseBody :: "Rules \<Rightarrow> nat \<Rightarrow> (Node \<times> nat) parsing" where
  "indentedCaseBody r openRegions =
     andThen advanceToken (\<lambda>t.
     andThen (indentedStats r openRegions []) (\<lambda>(ss, openRegions').
     ret (BlockN (tk_pos t) ss False, openRegions')))"

definition caseBodyEnds :: "TokenKind \<Rightarrow> nat \<Rightarrow> TokenKind \<Rightarrow> bool" where
  "caseBodyEnds terminator openRegions k \<longleftrightarrow>
     k = KwCase \<or> k = terminator \<or> k = EndOfFile \<or> k = EndMarker \<or> (openRegions > 0 \<and> k = Outdent)"

definition isValOrDef :: "Node \<Rightarrow> bool" where
  "isValOrDef n = (case n of ValDefN _ _ _ \<Rightarrow> True | DefDefN _ _ _ \<Rightarrow> True | _ \<Rightarrow> False)"

definition caseResult :: "SourcePos \<Rightarrow> Node list \<Rightarrow> Node" where
  "caseResult pos ss =
     (case ss of
        [n] \<Rightarrow> if isValOrDef n then BlockN pos ss False else n
      | _ \<Rightarrow> BlockN pos ss False)"

definition inlineStats :: "Rules \<Rightarrow> TokenKind \<Rightarrow> nat \<Rightarrow> Node list \<Rightarrow> Node list parsing" where
  "inlineStats r terminator openRegions = loopA (\<lambda>ss.
     ifS (\<lambda>s. caseBodyEnds terminator openRegions (tk_kind (here s))) (leave ss)
     (ifS atSeparator
       (ask (peekKind 1) (\<lambda>k.
        thenA advanceToken (if k = KwCase \<or> k = terminator then leave ss else continue ss)))
       (andThen (parseBlockStat r terminator) (\<lambda>st.
        ifS (\<lambda>s. \<not> atSeparator s \<and> \<not> caseBodyEnds terminator openRegions (tk_kind (here s)))
          separatorMissing (continue (ss @ [st]))))))"

definition inlineCaseBody :: "Rules \<Rightarrow> TokenKind \<Rightarrow> nat \<Rightarrow> Node parsing" where
  "inlineCaseBody r terminator openRegions = ask here (\<lambda>t.
     andThen (inlineStats r terminator openRegions []) (\<lambda>ss. ret (caseResult (tk_pos t) ss)))"

definition withTemplateBody :: "bool \<Rightarrow> 'a parsing \<Rightarrow> 'a parsing" where
  "withTemplateBody flag m = ask ps_inTemplateBody (\<lambda>saved.
     thenA (update (\<lambda>s. s\<lparr>ps_inTemplateBody := flag\<rparr>))
     (andThen m (\<lambda>x. thenA (update (\<lambda>s. s\<lparr>ps_inTemplateBody := saved\<rparr>)) (ret x))))"

definition parseCaseBody :: "Rules \<Rightarrow> TokenKind \<Rightarrow> nat \<Rightarrow> (Node \<times> nat) parsing" where
  "parseCaseBody r terminator openRegions = withTemplateBody False
     (ifS (atKind Indent) (indentedCaseBody r openRegions)
       (andThen (inlineCaseBody r terminator openRegions) (\<lambda>b. ret (b, openRegions))))"

definition caseGuard :: "Rules \<Rightarrow> Node option parsing" where
  "caseGuard r =
     ifS (atKind KwIf) (thenA advanceToken (andThen (r_infix r 0 None) (\<lambda>g. ret (Some g)))) (ret None)"

definition parseCaseClause ::
  "Rules \<Rightarrow> TokenKind \<Rightarrow> nat \<Rightarrow> ((Node Pattern, Node) CaseDef \<times> nat) parsing" where
  "parseCaseClause r terminator openRegions =
     andThen (expect KwCase (quote ''case'')) (\<lambda>t.
     andThen (r_pattern r) (\<lambda>p.
     andThen (caseGuard r) (\<lambda>g.
     thenA (expect Arrow (quote ''=>''))
     (andThen (parseCaseBody r terminator openRegions) (\<lambda>(b, openRegions').
      ret (CaseDef p g b (tk_pos t), openRegions'))))))"

definition casesFrom ::
  "Rules \<Rightarrow> TokenKind \<Rightarrow> (Node Pattern, Node) CaseDef list \<times> nat \<Rightarrow> (Node Pattern, Node) CaseDef list parsing" where
  "casesFrom r terminator = loopA (\<lambda>(cases, openRegions).
     ifS (atKind KwCase)
       (andThen (parseCaseClause r terminator openRegions) (\<lambda>(c, openRegions').
        thenA skipNewlines (continue (cases @ [c], openRegions'))))
     (ifS (\<lambda>s. openRegions > 0 \<and> atKind Outdent s)
       (thenA advanceToken (thenA skipNewlines (continue (cases, openRegions - 1))))
       (leave cases)))"

definition parseCases :: "Rules \<Rightarrow> TokenKind \<Rightarrow> (Node Pattern, Node) CaseDef list parsing" where
  "parseCases r terminator = casesFrom r terminator ([], 0)"

definition bumpCaseLambda :: "byte_string \<Rightarrow> byte_string parsing" where
  "bumpCaseLambda prefix = ask (\<lambda>s. prefix @ natToString (ps_caseLambdaCounter s + 1)) (\<lambda>name.
     thenA (update (\<lambda>s. s\<lparr>ps_caseLambdaCounter := ps_caseLambdaCounter s + 1\<rparr>)) (ret name))"

definition parseCaseLambda :: "Rules \<Rightarrow> SourcePos \<Rightarrow> TokenKind \<Rightarrow> Node parsing" where
  "parseCaseLambda r pos terminator =
     andThen (bumpCaseLambda ''x$'') (\<lambda>param.
     andThen (parseCases r terminator) (\<lambda>cases.
     ret (LambdaN pos [Param (newParam param pos) None] (Some (MatchN pos (IdentN pos param) cases))
            False False)))"

definition parseBlockExpr :: "Rules \<Rightarrow> Node parsing" where
  "parseBlockExpr r =
     andThen (expect LBrace (quote ''{'')) (\<lambda>t.
     thenA (skipWhile (atKind Newline))
     (andThen
       (ifS (atKind KwCase) (parseCaseLambda r (tk_pos t) RBrace)
         (andThen (r_blockBody r RBrace) (\<lambda>ss. ret (BlockN (tk_pos t) ss False)))) (\<lambda>n.
      thenA (expect RBrace (quote ''}'')) (ret n))))"

subsection \<open>Simple expressions\<close>

definition parseParensExpr :: "Rules \<Rightarrow> Node parsing" where
  "parseParensExpr r =
     andThen (expect LParen (quote ''('')) (\<lambda>t.
     ifS (atKind RParen) (thenA advanceToken (ret (UnitLitN (tk_pos t))))
     (andThen (r_expr r) (\<lambda>first.
      ifS (\<lambda>s. \<not> atKind Comma s)
        (thenA (expect RParen (quote '')'')) (ret (ParensN (tk_pos t) first)))
        (andThen (moreItems (r_expr r) [first]) (\<lambda>elems.
         thenA (expect RParen (quote '')'')) (ret (TupleN (tk_pos t) elems)))))))"

definition typedSplice :: "Node \<Rightarrow> Node" where
  "typedSplice arg =
     (case arg of
        TypedN p e ty \<Rightarrow>
          (case tt_args ty of
             a # _ \<Rightarrow> if tt_kind ty = TK_Repeated \<and> tt_kind a = TK_Wildcard then SpliceN p e else arg
           | [] \<Rightarrow> arg)
      | _ \<Rightarrow> arg)"

definition parseArg :: "Rules \<Rightarrow> Node parsing" where
  "parseArg r =
     ifS (\<lambda>s. atKind Identifier s \<and> peekKind 1 s = Equals)
       (andThen advanceToken (\<lambda>name.
        thenA advanceToken (andThen (r_expr r) (\<lambda>v. ret (NamedArgN (tk_pos name) (tk_text name) v)))))
       (andThen (r_expr r) (\<lambda>arg.
        ifS (\<lambda>s. atIdent ''*'' s \<and> peekKind 1 s = RParen)
          (thenA advanceToken (ret (SpliceN (nodePos arg) arg)))
          (ret (typedSplice arg))))"

definition parseArgs :: "Rules \<Rightarrow> Node list parsing" where
  "parseArgs r =
     ifS (atKind RParen) (thenA advanceToken (ret []))
       (andThen (commaSeparated (parseArg r)) (\<lambda>args. thenA (expect RParen (quote '')'')) (ret args)))"

definition opensArguments :: "Parser \<Rightarrow> bool" where
  "opensArguments s \<longleftrightarrow> atKind LParen s \<and> \<not> tk_firstOnLine (here s)"

definition constructorArgs :: "Rules \<Rightarrow> Node list \<times> bool \<Rightarrow> (Node list \<times> bool) parsing" where
  "constructorArgs r = loopA (\<lambda>(args, hasArgs).
     ifS opensArguments
       (thenA advanceToken (andThen (parseArgs r) (\<lambda>clause. continue (args @ clause, True))))
       (leave (args, hasArgs)))"

definition parseNew :: "Rules \<Rightarrow> Node parsing" where
  "parseNew r =
     andThen (expect KwNew (quote ''new'')) (\<lambda>t.
     andThen (parseSimpleType r) (\<lambda>ty.
     andThen (constructorArgs r ([], False)) (\<lambda>(args, hasArgs).
     ifS (\<lambda>s. atKind Newline s \<and> peekKind 1 s = LBrace)
       (ask (peek 1) (\<lambda>u. unsupported ''anonymous classes'' u True))
     (ifS (\<lambda>s. (atKind LBrace s \<and> \<not> tk_firstOnLine (here s)) \<or> atKind ColonEol s \<or> atKind KwWith s)
       (ask here (\<lambda>u. unsupported ''anonymous classes'' u True))
       (ret (NewN (tk_pos t) ty args hasArgs))))))"

text \<open>The length of the \<open>%\<close> specifier a literal starts with (0: none).\<close>

definition formatSpecLength :: "byte_string \<Rightarrow> nat" where
  "formatSpecLength text =
     (case text of
        p # q # _ \<Rightarrow>
          if p \<noteq> CHR ''%'' \<or> q = CHR ''%'' then 0
          else
            let flags = takeWhile (\<lambda>c. c \<in> set ''-+ 0,#'') (drop 1 text);
                k1 = 1 + length flags;
                width = takeWhile isdigit (drop k1 text);
                k2 = k1 + length width;
                k3 = (case drop k2 text of
                        c # rest \<Rightarrow> if c = CHR ''.'' then k2 + 1 + length (takeWhile isdigit rest) else k2
                      | [] \<Rightarrow> k2)
            in if k3 \<ge> length text then 0 else k3 + 1
      | _ \<Rightarrow> 0)"

record InterpolationState =
  it_literals :: "byte_string list"
  it_args :: "Node list"
  it_specs :: "byte_string list"
  it_pending :: byte_string
  it_afterHole :: bool

definition literalPart :: "bool \<Rightarrow> byte_string \<Rightarrow> InterpolationState \<Rightarrow> InterpolationState" where
  "literalPart isF text st =
     (let len = (if isF \<and> it_afterHole st then formatSpecLength text else 0) in
      st\<lparr>it_specs := if len > 0 then butlast (it_specs st) @ [take len text] else it_specs st,
         it_pending := it_pending st @ drop len text, it_afterHole := False\<rparr>)"

definition holeNode :: "Node \<Rightarrow> InterpolationState \<Rightarrow> InterpolationState" where
  "holeNode e st =
     st\<lparr>it_literals := it_literals st @ [it_pending st], it_pending := [], it_args := it_args st @ [e],
        it_specs := it_specs st @ [[]], it_afterHole := True\<rparr>"

fun interpolationParts ::
  "(byte_string \<Rightarrow> SourcePos \<Rightarrow> ParserStop + Node) \<Rightarrow> bool \<Rightarrow> InterpolationPart list \<Rightarrow>
   InterpolationState \<Rightarrow> ParserStop + InterpolationState" where
  "interpolationParts hole isF [] st = Inr st"
| "interpolationParts hole isF (part # parts) st =
     (if \<not> ip_isHole part then interpolationParts hole isF parts (literalPart isF (ip_text part) st)
      else bindE (hole (ip_text part) (ip_pos part)) (\<lambda>e.
             interpolationParts hole isF parts (holeNode e st)))"

definition parseInterpolation :: "Rules \<Rightarrow> Token \<Rightarrow> Node parsing" where
  "parseInterpolation r t =
     andThen (lift (interpolationParts (r_hole r) (tk_text t = ''f'') (tk_parts t)
       \<lparr>it_literals = [], it_args = [], it_specs = [], it_pending = [], it_afterHole = False\<rparr>)) (\<lambda>st.
     ret (InterpStringN (tk_pos t) (tk_text t) (it_literals st @ [it_pending st]) (it_args st) (it_specs st)))"

definition parseSuper :: "Rules \<Rightarrow> Node parsing" where
  "parseSuper r =
     andThen advanceToken (\<lambda>t.
     andThen
       (ifS (atKind LBracket)
         (thenA advanceToken (andThen (expect Identifier ''an ancestor type name'') (\<lambda>q.
          thenA (expect RBracket (quote '']'')) (ret (tk_text q)))))
         (ret [])) (\<lambda>qualifier.
     ifS (\<lambda>s. \<not> atKind Dot s) (fail (quote ''.'' @ '' expected after '' @ quote ''super''))
       (ret (SuperN (tk_pos t) qualifier))))"

definition simpleToken :: "Node \<Rightarrow> Node parsing" where
  "simpleToken n = thenA advanceToken (ret n)"

definition simpleBase :: "Rules \<Rightarrow> Node parsing" where
  "simpleBase r = ask here (\<lambda>t.
     let k = tk_kind t; pos = tk_pos t in
     if k = IntLit then
       simpleToken (IntLitN pos (tk_intValue t) (tk_fitsLong t) (tk_digits t) (int (tk_base t)))
     else if k = FloatLit then simpleToken (FloatLitN pos (strtod (tk_floatValue t)) (tk_text t))
     else if k = StringLit then simpleToken (StringLitN pos (tk_stringValue t))
     else if k = CharLit then simpleToken (CharLitN pos (tk_charValue t))
     else if k = InterpolatedString then
       andThen (parseInterpolation r t) (\<lambda>n. simpleToken n)
     else if k = Identifier then simpleToken (IdentN pos (tk_text t))
     else if k = KwTrue \<or> k = KwFalse then simpleToken (BoolLitN pos (k = KwTrue))
     else if k = KwNull then simpleToken (NullLitN pos)
     else if k = LParen then parseParensExpr r
     else if k = LBrace then parseBlockExpr r
     else if k = KwNew then parseNew r
     else if k = KwThis then simpleToken (IdentN pos ''this'')
     else if k = KwSuper then parseSuper r
     else if k = Underscore then andThen (placeholder pos) (\<lambda>n. simpleToken n)
     else failFound ''expression'')"

definition parseSimpleRest :: "Rules \<Rightarrow> Node \<Rightarrow> Node parsing" where
  "parseSimpleRest r = loopA (\<lambda>base.
     ifS (atKind Dot)
       (thenA advanceToken (andThen (expect Identifier ''member name'') (\<lambda>name.
        continue (SelectN (nodePos base) base (tk_text name)))))
     (ifS opensArguments
       (thenA advanceToken (andThen (parseArgs r) (\<lambda>args.
        continue (ApplyN (nodePos base) base args False False))))
     (ifS (\<lambda>s. atKind LBrace s \<and> \<not> tk_firstOnLine (here s))
       (andThen (parseBlockExpr r) (\<lambda>b. continue (ApplyN (nodePos base) base [b] True False)))
     (ifS (atKind LBracket)
       (andThen (typeArguments r) (\<lambda>ts. continue (TypeApplyN (nodePos base) base ts)))
       (leave base)))))"

definition parseSimple :: "Rules \<Rightarrow> Node parsing" where
  "parseSimple r = andThen (simpleBase r) (parseSimpleRest r)"

subsection \<open>Prefix and infix expressions\<close>

text \<open>The sign of \<open>-1.abs\<close> is folded into the literal below the suffixes.\<close>

fun negateLiteral :: "SourcePos \<Rightarrow> Node \<Rightarrow> Node" where
  "negateLiteral pos (SelectN p q n) = SelectN p (negateLiteral pos q) n"
| "negateLiteral pos (ApplyN p f as b w) = ApplyN p (negateLiteral pos f) as b w"
| "negateLiteral pos (TypeApplyN p f ts) = TypeApplyN p (negateLiteral pos f) ts"
| "negateLiteral pos (IntLitN p v fits d b) = IntLitN pos (- v) fits (if fits then d else ''-'' @ d) b"
| "negateLiteral pos (FloatLitN p v t) = FloatLitN pos (negateDouble v) (''-'' @ t)"
| "negateLiteral pos n = n"

definition isPrefixOperator :: "Token \<Rightarrow> bool" where
  "isPrefixOperator t \<longleftrightarrow>
     tk_kind t = Identifier \<and> \<not> tk_backquoted t \<and> tk_text t \<in> {''-'', ''+'', ''!'', ''~''}"

definition parsePrefix :: "Rules \<Rightarrow> Node parsing" where
  "parsePrefix r = ask here (\<lambda>t. ask (peek 1) (\<lambda>operand.
     if isPrefixOperator t then
       (if tk_text t = ''-'' \<and> tk_pos operand = tk_end t \<and>
           (tk_kind operand = IntLit \<or> tk_kind operand = FloatLit)
        then thenA advanceToken (andThen (parseSimple r) (\<lambda>lit.
               ret (setPos (tk_pos t) (negateLiteral (tk_pos t) lit))))
        else thenA advanceToken (andThen (parseSimple r) (\<lambda>e. ret (PrefixN (tk_pos t) (tk_text t) e))))
     else parseSimple r))"

text \<open>The associativity seen at each level; a level is forgotten when a looser operator closes it.\<close>

definition noteLevel :: "nat \<Rightarrow> bool \<Rightarrow> bool option list \<Rightarrow> bool option list" where
  "noteLevel p right seen = take p seen @ [Some right] @ replicate (kLevels - Suc p) None"

definition initialLevels :: "(nat \<times> bool) option \<Rightarrow> bool option list" where
  "initialLevels assoc =
     (let none = replicate kLevels None in
      case assoc of None \<Rightarrow> none | Some (p, right) \<Rightarrow> none[p := Some right])"

definition mixedMsg :: byte_string where
  "mixedMsg = ''left- and right-associative operators with the same precedence may not be mixed''"

definition postfixMsg :: "byte_string \<Rightarrow> byte_string" where
  "postfixMsg op = ''postfix operators are not supported; '' @ quote op @ '' needs a right operand''"

definition infixOperand :: "Rules \<Rightarrow> byte_string \<Rightarrow> Node parsing" where
  "infixOperand r op =
     thenA advanceToken (thenA (whenS (atKind Newline) advanceToken)
     (ifS (\<lambda>s. tk_kind (here s) \<in> {RParen, RBrace, Outdent, Comma}) (fail (postfixMsg op))
       (let p = precedence op in
        if isRightAssociative op then r_infix r p (Some (p, True)) else r_infix r (p + 1) None)))"

definition isSplice :: "Parser \<Rightarrow> bool" where
  "isSplice s \<longleftrightarrow> tk_text (here s) = ''*'' \<and> peekKind 1 s = RParen"

definition parseInfixLoop :: "Rules \<Rightarrow> nat \<Rightarrow> Node \<times> bool option list \<Rightarrow> Node parsing" where
  "parseInfixLoop r minPrec = loopA (\<lambda>(lhs, seen).
     ifS (\<lambda>s. \<not> atKind Identifier s \<or> isSplice s) (leave lhs)
     (ask here (\<lambda>opTok.
        let op = tk_text opTok; p = precedence op; right = isRightAssociative op in
        if p < minPrec then leave lhs
        else if seen ! p \<noteq> None \<and> seen ! p \<noteq> Some right then fail mixedMsg
        else andThen (infixOperand r op) (\<lambda>rhs.
          continue (InfixN (nodePos lhs) lhs op rhs, noteLevel p right seen)))))"

definition parseInfixRest :: "Rules \<Rightarrow> nat \<Rightarrow> (nat \<times> bool) option \<Rightarrow> Node \<Rightarrow> Node parsing" where
  "parseInfixRest r minPrec assoc lhs = parseInfixLoop r minPrec (lhs, initialLevels assoc)"

definition parseInfix :: "Rules \<Rightarrow> nat \<Rightarrow> (nat \<times> bool) option \<Rightarrow> Node parsing" where
  "parseInfix r minPrec assoc = andThen (parsePrefix r) (parseInfixRest r minPrec assoc)"

end
