(* ===== verification/ParserPatterns.thy ===== *)
theory ParserPatterns
  imports ParserTerms
begin

text \<open>
  The pattern grammar of \<^verbatim>\<open>src/src/frontend/Parser.cpp\<close>: alternatives, typed patterns, binders, infix
  patterns and simple patterns.
\<close>

definition isVarId :: "Token \<Rightarrow> bool" where
  "isVarId t \<longleftrightarrow>
     tk_kind t = Identifier \<and> \<not> tk_backquoted t \<and> \<not> tk_isOperator t \<and>
     (case tk_text t of
        [] \<Rightarrow> False
      | c # _ \<Rightarrow> c = CHR ''_'' \<or> (97 \<le> byte_of c \<and> byte_of c \<le> 122) \<or> byte_of c \<ge> 0x80)"

definition namedPattern :: "PatternKind \<Rightarrow> SourcePos \<Rightarrow> byte_string \<Rightarrow> Node Pattern list \<Rightarrow> Node Pattern" where
  "namedPattern k pos name args = Pattern k pos name None None args"

definition exprPattern :: "PatternKind \<Rightarrow> SourcePos \<Rightarrow> byte_string \<Rightarrow> Node \<Rightarrow> Node Pattern list \<Rightarrow> Node Pattern" where
  "exprPattern k pos name e args = Pattern k pos name (Some e) None args"

definition isLiteralNode :: "Node \<Rightarrow> bool" where
  "isLiteralNode n =
     (case n of
        IntLitN _ _ _ _ _ \<Rightarrow> True | FloatLitN _ _ _ \<Rightarrow> True | StringLitN _ _ \<Rightarrow> True | CharLitN _ _ \<Rightarrow> True
      | BoolLitN _ _ \<Rightarrow> True | NullLitN _ \<Rightarrow> True | _ \<Rightarrow> False)"

definition isNumberNode :: "Node \<Rightarrow> bool" where
  "isNumberNode n = (case n of IntLitN _ _ _ _ _ \<Rightarrow> True | FloatLitN _ _ _ \<Rightarrow> True | _ \<Rightarrow> False)"

definition literalMsg :: byte_string where
  "literalMsg = ''a literal pattern cannot be selected or applied''"

text \<open>A literal, by the expression routine \<open>m\<close>; the error is reported at the first token.\<close>

definition literalPattern :: "(Node \<Rightarrow> bool) \<Rightarrow> Node parsing \<Rightarrow> Node Pattern parsing" where
  "literalPattern isLit m = ask here (\<lambda>t. ask (peekIndex 0) (\<lambda>j.
     andThen m (\<lambda>e.
     if \<not> isLit e then failAt j literalMsg else ret (exprPattern PK_Literal (tk_pos t) [] e []))))"

text \<open>\<open>'_'\<close>, or the sequence wildcard \<open>'_' '*'\<close>\<close>

definition wildcardPattern :: "Node Pattern parsing" where
  "wildcardPattern =
     andThen advanceToken (\<lambda>t.
     ifS (\<lambda>s. atIdent ''*'' s \<and> (peekKind 1 s = RParen \<or> peekKind 1 s = Comma))
       (thenA advanceToken (ret (makePattern PK_SeqWildcard (tk_pos t))))
       (ret (makePattern PK_Wildcard (tk_pos t))))"

definition parenPattern :: "Rules \<Rightarrow> Node Pattern parsing" where
  "parenPattern r =
     andThen advanceToken (\<lambda>t.
     ifS (atKind RParen)
       (thenA advanceToken (ret (exprPattern PK_Literal (tk_pos t) [] (UnitLitN (tk_pos t)) [])))
     (andThen (r_pattern r) (\<lambda>first.
      ifS (atKind RParen) (thenA advanceToken (ret first))
        (andThen (moreItems (r_pattern r) [first]) (\<lambda>args.
         thenA (expect RParen (quote '')'')) (ret (namedPattern PK_Tuple (tk_pos t) [] args)))))))"

definition seqWildcardAhead :: "Parser \<Rightarrow> bool" where
  "seqWildcardAhead s \<longleftrightarrow>
     isVarId (here s) \<and> peekKind 1 s = Identifier \<and> \<not> tk_backquoted (peek 1 s) \<and>
     tk_text (peek 1 s) = ''*'' \<and> peekKind 2 s = RParen"

definition seqBinderAhead :: "Parser \<Rightarrow> bool" where
  "seqBinderAhead s \<longleftrightarrow>
     isVarId (here s) \<and> peekKind 1 s = At \<and> peekKind 2 s = Underscore \<and> peekKind 3 s = Identifier \<and>
     \<not> tk_backquoted (peek 3 s) \<and> tk_text (peek 3 s) = ''*'' \<and> peekKind 4 s = RParen"

definition seqMsg :: byte_string where
  "seqMsg = ''a sequence wildcard must be the last pattern argument''"

definition patternArgList :: "Rules \<Rightarrow> Node Pattern list \<Rightarrow> Node Pattern list parsing" where
  "patternArgList r = loopA (\<lambda>args.
     ifS (atKind RParen) (leave args)
     (ifS seqWildcardAhead
       (andThen advanceToken (\<lambda>t. thenA advanceToken
         (leave (args @ [namedPattern PK_SeqWildcard (tk_pos t) (tk_text t) []]))))
     (ifS seqBinderAhead
       (andThen advanceToken (\<lambda>t. thenA advanceToken (thenA advanceToken (thenA advanceToken
         (leave (args @ [namedPattern PK_SeqWildcard (tk_pos t) (tk_text t) []]))))))
       (andThen (r_pattern r) (\<lambda>p.
        ifS (atKind Comma) (thenA advanceToken (continue (args @ [p]))) (leave (args @ [p])))))))"

definition parsePatternArgs :: "Rules \<Rightarrow> Node Pattern list parsing" where
  "parsePatternArgs r =
     andThen (patternArgList r []) (\<lambda>args.
     thenA (expect RParen (quote '')''))
     (if list_ex (\<lambda>p. pt_kind p = PK_SeqWildcard) (butlast args) then fail seqMsg else ret args))"

text \<open>\<open>{'.' id}\<close> of a stable path, as a tree and as text.\<close>

definition stablePath :: "Node \<times> byte_string \<Rightarrow> (Node \<times> byte_string) parsing" where
  "stablePath = loopA (\<lambda>(path, text).
     ifS (\<lambda>s. atKind Dot s \<and> peekKind 1 s = Identifier)
       (thenA advanceToken (andThen advanceToken (\<lambda>name.
        continue (SelectN (nodePos path) path (tk_text name), text @ ''.'' @ tk_text name))))
       (leave (path, text)))"

definition pathPattern :: "Rules \<Rightarrow> Node Pattern parsing" where
  "pathPattern r =
     andThen advanceToken (\<lambda>t.
     andThen (stablePath (IdentN (tk_pos t) (tk_text t), tk_text t)) (\<lambda>(path, text).
     thenA (whenS (atKind LBracket) (typeArguments r))
     (ifS opensArguments
       (thenA advanceToken (andThen (parsePatternArgs r) (\<lambda>args.
        ret (exprPattern PK_Extractor (tk_pos t) text path args))))
       (ret (exprPattern PK_Stable (tk_pos t) [] path [])))))"

definition bareVariable :: "Parser \<Rightarrow> bool" where
  "bareVariable s \<longleftrightarrow>
     isVarId (here s) \<and> peekKind 1 s \<noteq> Dot \<and> \<not> (peekKind 1 s = LParen \<and> \<not> tk_firstOnLine (peek 1 s))"

definition literalKinds :: "TokenKind list" where
  "literalKinds = [IntLit, FloatLit, StringLit, CharLit, KwTrue, KwFalse, KwNull]"

definition parseSimplePattern :: "Rules \<Rightarrow> Node Pattern parsing" where
  "parseSimplePattern r = ask here (\<lambda>t. ask (peekKind 1) (\<lambda>k1.
     if tk_kind t = Underscore then wildcardPattern
     else if tk_kind t \<in> set literalKinds then literalPattern isLiteralNode (parseSimple r)
     else if tk_kind t = LParen then parenPattern r
     else if tk_kind t = Identifier then
       (if tk_text t = ''-'' \<and> \<not> tk_backquoted t \<and> (k1 = IntLit \<or> k1 = FloatLit)
        then literalPattern isNumberNode (parsePrefix r)
        else ifS bareVariable
          (thenA advanceToken (ret (namedPattern PK_Var (tk_pos t) (tk_text t) [])))
          (if tk_isOperator t \<and> \<not> tk_backquoted t
           then fail (''pattern expected but '' @ quote (tk_text t) @ '' found'')
           else pathPattern r))
     else failFound ''pattern''))"

definition atInfixPatternOp :: "Parser \<Rightarrow> bool" where
  "atInfixPatternOp s \<longleftrightarrow>
     atKind Identifier s \<and> tk_isOperator (here s) \<and> \<not> tk_backquoted (here s) \<and>
     tk_text (here s) \<noteq> ''|'' \<and> \<not> isSplice s"

definition infixPatternRest :: "Rules \<Rightarrow> nat \<Rightarrow> nat option \<Rightarrow> Node Pattern \<Rightarrow> Node Pattern parsing" where
  "infixPatternRest r minPrec assocPrec = loopA (\<lambda>lhs.
     ifS (\<lambda>s. \<not> atInfixPatternOp s) (leave lhs)
     (ask here (\<lambda>opTok.
        let op = tk_text opTok; p = precedence op; right = isRightAssociative op in
        if p < minPrec then leave lhs
        else if assocPrec = Some p \<and> \<not> right then leave lhs
        else thenA advanceToken
          (andThen (if right then r_infixPattern r p (Some p) else r_infixPattern r (p + 1) None) (\<lambda>rhs.
           continue (exprPattern PK_Extractor (pt_pos lhs) op (IdentN (tk_pos opTok) op) [lhs, rhs]))))))"

definition parseInfixPattern :: "Rules \<Rightarrow> nat \<Rightarrow> nat option \<Rightarrow> Node Pattern parsing" where
  "parseInfixPattern r minPrec assocPrec =
     andThen (parseSimplePattern r) (infixPatternRest r minPrec assocPrec)"

definition parsePattern2 :: "Rules \<Rightarrow> Node Pattern parsing" where
  "parsePattern2 r =
     ifS (\<lambda>s. isVarId (here s) \<and> peekKind 1 s = At)
       (andThen advanceToken (\<lambda>t. thenA advanceToken
        (andThen (r_infixPattern r 0 None) (\<lambda>p. ret (namedPattern PK_Bind (tk_pos t) (tk_text t) [p])))))
       (r_infixPattern r 0 None)"

definition typedPattern :: "Token \<Rightarrow> TypeTree \<Rightarrow> Node Pattern" where
  "typedPattern t ty =
     Pattern PK_Typed (tk_pos t) [] None (Some ty)
       [if tk_kind t = Underscore then makePattern PK_Wildcard (tk_pos t)
        else namedPattern PK_Var (tk_pos t) (tk_text t) []]"

definition parsePattern1 :: "Rules \<Rightarrow> Node Pattern parsing" where
  "parsePattern1 r =
     ifS (\<lambda>s. (isVarId (here s) \<or> atKind Underscore s) \<and> peekKind 1 s = Colon)
       (andThen advanceToken (\<lambda>t. thenA advanceToken
        (andThen (parsePatternType r) (\<lambda>ty. ret (typedPattern t ty)))))
       (parsePattern2 r)"

definition patternAlternatives :: "Rules \<Rightarrow> Node Pattern list \<Rightarrow> Node Pattern list parsing" where
  "patternAlternatives r = loopA (\<lambda>alts.
     ifS (atIdent ''|'') (thenA advanceToken (andThen (parsePattern1 r) (\<lambda>p. continue (alts @ [p]))))
       (leave alts))"

definition parsePattern :: "Rules \<Rightarrow> Node Pattern parsing" where
  "parsePattern r =
     andThen (parsePattern1 r) (\<lambda>first.
     ifS (\<lambda>s. \<not> atIdent ''|'' s) (ret first)
       (andThen (patternAlternatives r [first]) (\<lambda>alts.
        ret (namedPattern PK_Alt (pt_pos first) [] alts))))"

end
