(* ===== verification/ParserExpr.thy ===== *)
theory ParserExpr
  imports ParserPatterns
begin

text \<open>
  The expression grammar of \<^verbatim>\<open>src/src/frontend/Parser.cpp\<close>: control forms, match and for, assignment and
  ascription, and the placeholder sections around an expression.
\<close>

subsection \<open>Conditions and control\<close>

definition unwrapParens :: "Node \<Rightarrow> Node" where
  "unwrapParens n = (case n of ParensN _ e \<Rightarrow> e | _ \<Rightarrow> n)"

text \<open>
  A parenthesised condition: followed by the keyword, the start of a longer condition on the same
  line, or the old style, after which \<open>skip\<close> says whether a newline is stepped over.
\<close>

definition parenCondition ::
  "Rules \<Rightarrow> TokenKind \<Rightarrow> byte_string \<Rightarrow> (Parser \<Rightarrow> bool) \<Rightarrow> Node parsing" where
  "parenCondition r kw what skip =
     andThen (parseParensExpr r) (\<lambda>cond.
     ifS (atKind kw) (thenA advanceToken (ret cond))
     (ifS (sameLineAhead kw)
       (andThen (parseSimpleRest r cond) (\<lambda>c1.
        andThen (parseInfixRest r 0 None c1) (\<lambda>c2. thenA (expect kw what) (ret c2))))
       (thenA (whenS skip advanceToken) (ret (unwrapParens cond)))))"

definition parseCondition ::
  "Rules \<Rightarrow> TokenKind \<Rightarrow> byte_string \<Rightarrow> (Parser \<Rightarrow> bool) \<Rightarrow> Node parsing" where
  "parseCondition r kw what skip =
     ifS (atKind LParen) (parenCondition r kw what skip)
       (andThen (parseExprOrIndented r) (\<lambda>c. thenA (expect kw what) (ret c)))"

definition elseAhead :: "Parser \<Rightarrow> bool" where
  "elseAhead s \<longleftrightarrow> atKind KwElse (if atSeparator s then stepToken s else s)"

definition parseElse :: "Rules \<Rightarrow> Node option parsing" where
  "parseElse r =
     ifS elseAhead
       (thenA (whenS atSeparator advanceToken)
       (thenA advanceToken (andThen (parseExprOrIndented r) (\<lambda>e. ret (Some e)))))
       (ret None)"

definition parseIf :: "Rules \<Rightarrow> Node parsing" where
  "parseIf r =
     andThen advanceToken (\<lambda>t.
     andThen (parseCondition r KwThen (quote ''then'') (\<lambda>s. atKind Newline s \<and> peekKind 1 s \<noteq> KwElse)) (\<lambda>c.
     andThen (parseExprOrIndented r) (\<lambda>thenp.
     andThen (parseElse r) (\<lambda>elsep. ret (IfN (tk_pos t) c thenp elsep)))))"

definition parseWhile :: "Rules \<Rightarrow> Node parsing" where
  "parseWhile r =
     andThen advanceToken (\<lambda>t.
     andThen (parseCondition r KwDo (quote ''do'') (atKind Newline)) (\<lambda>c.
     andThen (parseExprOrIndented r) (\<lambda>b. ret (WhileN (tk_pos t) c b))))"

definition endsReturn :: "TokenKind \<Rightarrow> bool" where
  "endsReturn k \<longleftrightarrow> k \<in> {Newline, Semicolon, Outdent, RBrace, RParen, KwElse, EndOfFile}"

definition parseReturn :: "Rules \<Rightarrow> Node parsing" where
  "parseReturn r =
     andThen advanceToken (\<lambda>t.
     ifS (\<lambda>s. endsReturn (tk_kind (here s))) (ret (ReturnN (tk_pos t) None))
       (andThen (parseExprOrIndented r) (\<lambda>v. ret (ReturnN (tk_pos t) (Some v)))))"

definition parseThrow :: "Rules \<Rightarrow> Node parsing" where
  "parseThrow r =
     andThen advanceToken (\<lambda>t. andThen (parseExprOrIndented r) (\<lambda>v. ret (ThrowN (tk_pos t) v)))"

subsection \<open>Exceptions\<close>

definition catchHandlerCase :: "Node \<Rightarrow> (Node Pattern, Node) CaseDef parsing" where
  "catchHandlerCase handler =
     andThen (bumpCaseLambda ''e$'') (\<lambda>binder.
     let pos = nodePos handler in
     ret (CaseDef (namedPattern PK_Var pos binder []) None
            (ApplyN pos handler [IdentN pos binder] False False) pos))"

text \<open>\<open>catch case p => e; case q => f\<close> without a bracket of its own.\<close>

definition inlineCatchCase :: "Rules \<Rightarrow> (Node Pattern, Node) CaseDef parsing" where
  "inlineCatchCase r =
     andThen (expect KwCase (quote ''case'')) (\<lambda>t.
     andThen (r_pattern r) (\<lambda>p.
     andThen (caseGuard r) (\<lambda>g.
     thenA (expect Arrow (quote ''=>''))
     (andThen (parseExprOrIndented r) (\<lambda>b.
      thenA (whenS (atKind Semicolon) advanceToken) (ret (CaseDef p g b (tk_pos t))))))))"

definition inlineCatchCases :: "Rules \<Rightarrow> (Node Pattern, Node) CaseDef list parsing" where
  "inlineCatchCases r = loopA (\<lambda>cases.
     ifS (atKind KwCase) (andThen (inlineCatchCase r) (\<lambda>c. continue (cases @ [c]))) (leave cases)) []"

definition catchExpression :: "Rules \<Rightarrow> (Node Pattern, Node) CaseDef list parsing" where
  "catchExpression r =
     ifS (atKind KwCase) (inlineCatchCases r)
       (andThen (parseExprOrIndented r) (\<lambda>h. andThen (catchHandlerCase h) (\<lambda>c. ret [c])))"

definition endOfCases :: "TokenKind \<Rightarrow> byte_string" where
  "endOfCases terminator = (if terminator = RBrace then quote ''}'' else ''end of the cases'')"

definition parseCatchCases :: "Rules \<Rightarrow> (Node Pattern, Node) CaseDef list parsing" where
  "parseCatchCases r =
     ifS (\<lambda>s. atKind LBrace s \<or> atKind Indent s)
       (ask ps_i (\<lambda>save. ask (\<lambda>s. if atKind LBrace s then RBrace else Outdent) (\<lambda>terminator.
        thenA advanceToken (thenA skipNewlines
        (ifS (atKind KwCase)
          (andThen (parseCases r terminator) (\<lambda>cases.
           thenA (expect terminator (endOfCases terminator)) (ret cases)))
          (thenA (update (\<lambda>s. s\<lparr>ps_i := save\<rparr>)) (catchExpression r)))))))
       (catchExpression r)"

definition tryCases :: "Rules \<Rightarrow> (Node Pattern, Node) CaseDef list parsing" where
  "tryCases r =
     ifS (atKind KwCatch)
       (thenA advanceToken (andThen (parseCatchCases r) (\<lambda>cases.
        thenA (skipWhile (\<lambda>s. atSeparator s \<and> peekKind 1 s = KwFinally)) (ret cases))))
       (ret [])"

definition tryFinally :: "Rules \<Rightarrow> Node option parsing" where
  "tryFinally r =
     ifS (atKind KwFinally)
       (thenA advanceToken (andThen (parseExprOrIndented r) (\<lambda>f. ret (Some f))))
       (ret None)"

definition parseTry :: "Rules \<Rightarrow> Node parsing" where
  "parseTry r = ask (peekIndex 0) (\<lambda>j.
     andThen advanceToken (\<lambda>t.
     andThen (parseExprOrIndented r) (\<lambda>b.
     thenA (skipWhile (\<lambda>s. atSeparator s \<and> peekKind 1 s \<in> {KwCatch, KwFinally}))
     (andThen (tryCases r) (\<lambda>cases.
     andThen (tryFinally r) (\<lambda>fin.
     if cases = [] \<and> fin = None then failAt j ''a try needs a catch or a finally''
     else ret (TryN (tk_pos t) b cases fin)))))))"

subsection \<open>Match and for\<close>

definition matchOpening :: "TokenKind parsing" where
  "matchOpening =
     ifS (atKind LBrace) (thenA advanceToken (ret RBrace))
     (ifS (atKind Indent) (thenA advanceToken (ret Outdent))
       (fail (quote ''{'' @ '' or an indented block of cases expected after '' @ quote ''match'')))"

definition parseMatch :: "Rules \<Rightarrow> Node \<Rightarrow> Node parsing" where
  "parseMatch r scrutinee =
     thenA advanceToken
     (andThen matchOpening (\<lambda>terminator.
     thenA skipNewlines
     (ifS (\<lambda>s. \<not> atKind KwCase s) (fail (quote ''case'' @ '' expected''))
       (andThen (parseCases r terminator) (\<lambda>cases.
        thenA (expect terminator (endOfCases terminator)) (ret (MatchN (nodePos scrutinee) scrutinee cases)))))))"

definition generatorArrow :: "EnumeratorKind parsing" where
  "generatorArrow =
     ifS (atKind LeftArrow) (thenA advanceToken (ret EK_Generator))
     (ifS (atKind Equals) (thenA advanceToken (ret EK_Value))
       (fail (quote ''<-'' @ '' or '' @ quote ''='' @ '' expected in a for-comprehension'')))"

definition parseGeneratorOrValue :: "Rules \<Rightarrow> (Node Pattern, Node) Enumerator parsing" where
  "parseGeneratorOrValue r = ask here (\<lambda>t.
     andThen (ifS (atKind KwCase) (thenA advanceToken (ret True)) (ret False)) (\<lambda>hasCase.
     andThen (parsePattern1 r) (\<lambda>p.
     andThen generatorArrow (\<lambda>kind.
     andThen (parseExprOrIndented r) (\<lambda>e. ret (Enumerator kind (Some p) e (tk_pos t) hasCase))))))"

definition parseGuard :: "Rules \<Rightarrow> (Node Pattern, Node) Enumerator parsing" where
  "parseGuard r =
     andThen advanceToken (\<lambda>t.
     andThen (r_infix r 0 None) (\<lambda>e. ret (Enumerator EK_Guard None e (tk_pos t) False)))"

definition enumeratorsFrom ::
  "Rules \<Rightarrow> TokenKind \<Rightarrow> (Node Pattern, Node) Enumerator list \<Rightarrow> (Node Pattern, Node) Enumerator list parsing" where
  "enumeratorsFrom r terminator = loopA (\<lambda>es.
     ifS (atKind KwIf) (andThen (parseGuard r) (\<lambda>g. continue (es @ [g])))
     (ifS (\<lambda>s. atKind Semicolon s \<or> (atKind Newline s \<and> terminator \<noteq> EndOfFile))
       (thenA advanceToken (thenA skipNewlines
         (ifS (atKind terminator) (leave es)
         (ifS (atKind KwIf) (continue es)
           (andThen (parseGeneratorOrValue r) (\<lambda>g. continue (es @ [g])))))))
       (leave es)))"

definition parseEnumerators :: "Rules \<Rightarrow> TokenKind \<Rightarrow> (Node Pattern, Node) Enumerator list parsing" where
  "parseEnumerators r terminator =
     thenA (skipWhile (atKind Newline))
     (andThen (parseGeneratorOrValue r) (\<lambda>e.
      if en_kind e \<noteq> EK_Generator
      then fail (''a for-comprehension must start with a generator '' @ [BACKQUOTE] @ ''p <- e'' @ [BACKQUOTE])
      else enumeratorsFrom r terminator [e]))"

text \<open>The four ways to write the enumerators; the flag says whether they are delimited.\<close>

definition delimitedEnumerators ::
  "Rules \<Rightarrow> TokenKind \<Rightarrow> byte_string \<Rightarrow> ((Node Pattern, Node) Enumerator list \<times> bool) parsing" where
  "delimitedEnumerators r closing what =
     thenA advanceToken (andThen (parseEnumerators r closing) (\<lambda>es.
     thenA (expect closing what) (ret (es, True))))"

definition forEnumerators :: "Rules \<Rightarrow> ((Node Pattern, Node) Enumerator list \<times> bool) parsing" where
  "forEnumerators r =
     ifS (atKind LParen) (delimitedEnumerators r RParen (quote '')''))
     (ifS (atKind LBrace) (delimitedEnumerators r RBrace (quote ''}''))
     (ifS (atKind Indent) (delimitedEnumerators r Outdent ''end of the enumerators'')
       (andThen (parseEnumerators r EndOfFile) (\<lambda>es. ret (es, False)))))"

definition forKeyword :: "bool \<Rightarrow> bool parsing" where
  "forKeyword delimited =
     ifS (atKind KwYield) (thenA advanceToken (ret True))
     (ifS (atKind KwDo) (thenA advanceToken (ret False))
       (if delimited then ret False
        else fail (quote ''do'' @ '' or '' @ quote ''yield'' @ '' expected'')))"

definition parseFor :: "Rules \<Rightarrow> Node parsing" where
  "parseFor r =
     andThen advanceToken (\<lambda>t.
     andThen (forEnumerators r) (\<lambda>(es, delimited).
     thenA (whenS (\<lambda>s. atKind Newline s \<and> peekKind 1 s \<in> {KwYield, KwDo}) advanceToken)
     (andThen (forKeyword delimited) (\<lambda>isYield.
     andThen (parseExprOrIndented r) (\<lambda>b. ret (ForN (tk_pos t) es b isYield)))))) "

subsection \<open>Expressions\<close>

definition isAssignTarget :: "Node \<Rightarrow> bool" where
  "isAssignTarget n =
     (case n of IdentN _ _ \<Rightarrow> True | SelectN _ _ _ \<Rightarrow> True | ApplyN _ _ _ _ _ \<Rightarrow> True | _ \<Rightarrow> False)"

definition expressionEnd :: "Rules \<Rightarrow> Node \<Rightarrow> Node parsing" where
  "expressionEnd r e =
     ifS (atKind Equals)
       (if \<not> isAssignTarget e then fail ''left-hand side of an assignment must be a name''
        else thenA advanceToken (andThen (parseExprOrIndented r) (\<lambda>v. ret (AssignN (nodePos e) e v))))
     (ifS (atKind Colon)
       (thenA advanceToken (andThen (r_type r) (\<lambda>ty. ret (TypedN (nodePos e) e ty))))
       (ret e))"

definition parseMatches :: "Rules \<Rightarrow> Node \<Rightarrow> Node parsing" where
  "parseMatches r = loopA (\<lambda>e. ifS (atKind KwMatch) (andThen (parseMatch r e) continue) (leave e))"

definition parseOperators :: "Rules \<Rightarrow> Node parsing" where
  "parseOperators r =
     andThen (r_infix r 0 None) (\<lambda>e0. andThen (parseMatches r e0) (\<lambda>e. expressionEnd r e))"

definition parseExprNoPlaceholders :: "Rules \<Rightarrow> Node parsing" where
  "parseExprNoPlaceholders r = ask here (\<lambda>t.
     let k = tk_kind t in
     if k = KwIf then parseIf r
     else if k = KwWhile then parseWhile r
     else if k = KwReturn then parseReturn r
     else if k = KwDo then fail ''do-while loops are not part of Scala 3; use while ... do''
     else if k = KwThrow then parseThrow r
     else if k = KwTry then parseTry r
     else if k = KwFor then parseFor r
     else ifS lambdaAhead (parseLambda r) (parseOperators r))"

fun bareOperand :: "Node \<Rightarrow> Node" where
  "bareOperand (TypedN p e t) = bareOperand e"
| "bareOperand (ParensN p e) = bareOperand e"
| "bareOperand n = n"

definition isBarePlaceholder :: "byte_string list \<Rightarrow> Node \<Rightarrow> bool" where
  "isBarePlaceholder names e =
     (case bareOperand e of IdentN _ n \<Rightarrow> names = [n] | _ \<Rightarrow> False)"

definition placeholderLambda :: "byte_string list \<Rightarrow> Node \<Rightarrow> Node" where
  "placeholderLambda names e =
     LambdaN (nodePos e) (map (\<lambda>n. Param (newParam n (nodePos e)) None) names) (Some e) False False"

definition unboundMsg :: byte_string where
  "unboundMsg = ''unbound placeholder '' @ quote ''_'' @ '': write an explicit function literal''"

text \<open>
  The frame of the expression is popped; a bare placeholder is handed to the enclosing frame, any
  other use makes the expression the body of a lambda.
\<close>

definition closePlaceholders :: "Node \<Rightarrow> Node parsing" where
  "closePlaceholders e = ask (\<lambda>s. hd (ps_placeholderFrames s)) (\<lambda>names.
     ask (\<lambda>s. tl (ps_placeholderFrames s)) (\<lambda>outer.
     if names = [] then thenA (update (\<lambda>s. s\<lparr>ps_placeholderFrames := outer\<rparr>)) (ret e)
     else if isBarePlaceholder names e then
       (case outer of
          [] \<Rightarrow> fail unboundMsg
        | f # fs \<Rightarrow> thenA (update (\<lambda>s. s\<lparr>ps_placeholderFrames := (f @ names) # fs\<rparr>)) (ret e))
     else thenA (update (\<lambda>s. s\<lparr>ps_placeholderFrames := outer\<rparr>)) (ret (placeholderLambda names e))))"

definition parseExpr :: "Rules \<Rightarrow> Node parsing" where
  "parseExpr r =
     thenA (update (\<lambda>s. s\<lparr>ps_placeholderFrames := [] # ps_placeholderFrames s\<rparr>))
     (andThen (parseExprNoPlaceholders r) closePlaceholders)"

end
