(* ===== verification/ParserDefs.thy ===== *)
theory ParserDefs
  imports ParserExpr
begin

text \<open>
  Definitions and templates (\<^verbatim>\<open>src/src/frontend/Parser.cpp\<close>): modifiers and annotations, values, methods,
  imports, type aliases, classes, traits and objects, enumerations, extensions and statement blocks.
\<close>

subsection \<open>Modifiers and annotations\<close>

definition implicitsMsg :: byte_string where
  "implicitsMsg = ''implicits and givens are not supported (D3)''"

definition addModifier :: "TokenKind \<Rightarrow> Modifiers \<Rightarrow> Modifiers" where
  "addModifier k m =
     (if k = KwPrivate then m\<lparr>isPrivate := True\<rparr>
      else if k = KwProtected then m\<lparr>isProtected := True\<rparr>
      else if k = KwOverride then m\<lparr>isOverride := True\<rparr>
      else if k = KwAbstract then m\<lparr>isAbstract := True\<rparr>
      else if k = KwFinal then m\<lparr>isFinal := True\<rparr>
      else if k = KwSealed then m\<lparr>isSealed := True\<rparr>
      else m)"

definition accessQualifier :: "unit parsing" where
  "accessQualifier =
     thenA advanceToken
     (thenA (ifS (atKind KwThis) advanceToken (expect Identifier ''access qualifier''))
     (thenA (expect RBracket (quote '']'')) (ret ())))"

definition parseModifiers :: "(Modifiers \<times> bool) parsing" where
  "parseModifiers = loopA (\<lambda>(mods, isLazy). ask here (\<lambda>t.
     if tk_kind t = KwImplicit \<or> tk_kind t = KwGiven then fail implicitsMsg
     else if tk_kind t = KwLazy then thenA advanceToken (continue (mods, True))
     else if \<not> isHardModifier (tk_kind t) \<and> \<not> isSoftModifier t then leave (mods, isLazy)
     else thenA advanceToken
       (thenA (whenS (\<lambda>s. (tk_kind t = KwPrivate \<or> tk_kind t = KwProtected) \<and> atKind LBracket s) accessQualifier)
         (continue (addModifier (tk_kind t) mods, isLazy))))) (noModifiers, False)"

definition annotationName :: "byte_string \<Rightarrow> byte_string parsing" where
  "annotationName what =
     thenA advanceToken (andThen (expect Identifier what) (\<lambda>t. qualifiedName (tk_text t)))"

definition parseAnnotations :: "byte_string list parsing" where
  "parseAnnotations = loopA (\<lambda>names.
     ifS (atKind At)
       (andThen (annotationName ''annotation name'') (\<lambda>name.
        thenA (whenS opensArguments (skipGroup LParen RParen (quote '')'' @ '' expected'')))
        (thenA (skipWhile (atKind Newline)) (continue (names @ [name])))))
       (leave names)) []"

subsection \<open>Values and methods\<close>

definition isSimpleName :: "Parser \<Rightarrow> bool" where
  "isSimpleName s \<longleftrightarrow>
     atKind Identifier s \<and> \<not> tk_isOperator (here s) \<and>
     peekKind 1 s \<in> {Colon, Equals, Newline, EndOfFile, Semicolon}"

definition valHead :: "SourcePos \<Rightarrow> bool \<Rightarrow> bool \<Rightarrow> Modifiers \<Rightarrow> byte_string \<Rightarrow> TypeTree option \<Rightarrow> ValHead" where
  "valHead pos isVar isLazy mods name type =
     (newValDef pos name)\<lparr>vd_isVar := isVar, vd_isLazy := isLazy, vd_mods := mods, vd_type := type\<rparr>"

definition patternVal :: "Rules \<Rightarrow> SourcePos \<Rightarrow> bool \<Rightarrow> bool \<Rightarrow> Modifiers \<Rightarrow> Node parsing" where
  "patternVal r pos isVar isLazy mods =
     ifS (\<lambda>s. atKind Identifier s \<and> peekKind 1 s = Comma)
       (ask here (notImplemented ''several names in one value definition''))
     (if isLazy then ask here (notImplemented ''lazy pattern definitions'')
      else andThen (parsePattern2 r) (\<lambda>p.
        thenA (whenS (atKind Colon) (thenA advanceToken (r_type r)))
        (thenA (expect Equals (quote ''=''))
        (andThen (parseExprOrIndented r) (\<lambda>e.
         ret (ValDefN (valHead pos isVar isLazy mods [] None) (Some e) (Some p)))))))"

definition optionalType :: "Rules \<Rightarrow> TypeTree option parsing" where
  "optionalType r =
     ifS (atKind Colon) (thenA advanceToken (andThen (r_type r) (\<lambda>ty. ret (Some ty)))) (ret None)"

definition namedVal :: "Rules \<Rightarrow> SourcePos \<Rightarrow> bool \<Rightarrow> bool \<Rightarrow> Modifiers \<Rightarrow> Node parsing" where
  "namedVal r pos isVar isLazy mods =
     andThen advanceToken (\<lambda>t.
     andThen (optionalType r) (\<lambda>ty.
     let h = valHead pos isVar isLazy mods (tk_text t) ty in
     ifS (\<lambda>s. \<not> atKind Equals s)
       (ifS (\<lambda>s. ps_inTemplateBody s \<and> ty \<noteq> None) (ret (ValDefN h None None))
         (fail (quote ''='' @ '' expected: a value definition needs an initialiser'')))
       (thenA advanceToken
       (ifS (\<lambda>s. isVar \<and> atKind Underscore s)
         (fail (''default initialisation '' @ quote ''var x: T = _'' @ '' is not supported''))
         (andThen (parseExprOrIndented r) (\<lambda>e. ret (ValDefN h (Some e) None)))))))"

definition parseValDef :: "Rules \<Rightarrow> SourcePos \<Rightarrow> bool \<Rightarrow> bool \<Rightarrow> Modifiers \<Rightarrow> Node parsing" where
  "parseValDef r pos isVar isLazy mods =
     ifS (atKind EndOfFile) (fail ''value name expected'')
     (ifS isSimpleName (namedVal r pos isVar isLazy mods) (patternVal r pos isVar isLazy mods))"

definition implicitClause :: "Parser \<Rightarrow> bool" where
  "implicitClause s \<longleftrightarrow> atKind KwImplicit s \<or> (atIdent ''using'' s \<and> peekKind 1 s \<noteq> Colon)"

text \<open>A parameter from its name on; \<open>h\<close> holds what stands before the name.\<close>

definition parameterRest :: "Rules \<Rightarrow> ParamHead \<Rightarrow> Node Param parsing" where
  "parameterRest r h =
     andThen (expect Identifier ''parameter name'') (\<lambda>t.
     thenA (expect Colon (quote '':'' @ '' and a parameter type''))
     (andThen (r_type r) (\<lambda>ty.
      andThen (ifS (atIdent ''*'') (thenA advanceToken (ret True)) (ret False)) (\<lambda>repeated.
      andThen (ifS (atKind Equals) (thenA advanceToken (andThen (r_expr r) (\<lambda>d. ret (Some d)))) (ret None)) (\<lambda>d.
      ret (Param (h\<lparr>pa_name := tk_text t, pa_type := Some ty, pa_byName := isByName ty,
                   pa_repeated := repeated\<rparr>) d))))))"

definition parameter :: "Rules \<Rightarrow> Node Param parsing" where
  "parameter r = ask here (\<lambda>t. parameterRest r (newParam [] (tk_pos t)))"

definition classParameter :: "Rules \<Rightarrow> Node Param parsing" where
  "classParameter r = ask here (\<lambda>t.
     andThen parseModifiers (\<lambda>(mods, isLazy).
     if isLazy then fail (quote ''lazy'' @ '' is not allowed on a class parameter'')
     else
       let h = (newParam [] (tk_pos t))\<lparr>pa_mods := mods\<rparr> in
       ifS (atKind KwVal) (thenA advanceToken (parameterRest r (h\<lparr>pa_isVal := True\<rparr>)))
       (ifS (atKind KwVar) (thenA advanceToken (parameterRest r (h\<lparr>pa_isVar := True\<rparr>)))
         (parameterRest r h))))"

definition parameterList :: "Node Param parsing \<Rightarrow> Node Param list \<Rightarrow> Node Param list parsing" where
  "parameterList param = loopA (\<lambda>ps.
     ifS (atKind RParen) (leave ps)
       (andThen param (\<lambda>p.
        ifS (atKind Comma) (thenA advanceToken (continue (ps @ [p]))) (leave (ps @ [p])))))"

definition parameterClause :: "Node Param parsing \<Rightarrow> Node Param list parsing" where
  "parameterClause param =
     thenA (expect LParen (quote ''(''))
     (ifS implicitClause (fail implicitsMsg)
       (andThen (parameterList param []) (\<lambda>ps.
        thenA (expect RParen (quote '')'')) (ret ps))))"

definition parseParamClause :: "Rules \<Rightarrow> Node Param list parsing" where
  "parseParamClause r = parameterClause (parameter r)"

definition parseClassParamClause :: "Rules \<Rightarrow> Node Param list parsing" where
  "parseClassParamClause r = parameterClause (classParameter r)"

definition paramClauses :: "Node Param list parsing \<Rightarrow> Node Param list list parsing" where
  "paramClauses clause = loopA (\<lambda>ls.
     ifS opensArguments (andThen clause (\<lambda>ps. continue (ls @ [ps]))) (leave ls)) []"

definition optionalTypeParams :: "Rules \<Rightarrow> byte_string list parsing" where
  "optionalTypeParams r = ifS (atKind LBracket) (parseTypeParams r) (ret [])"

definition procedureMsg :: "byte_string \<Rightarrow> byte_string" where
  "procedureMsg name =
     ''procedure syntax is not supported in Scala 3; write '' @ [BACKQUOTE] @ ''def '' @ name @
     ''(): Unit = ...'' @ [BACKQUOTE]"

definition abstractMsg :: byte_string where
  "abstractMsg =
     quote ''='' @ '' expected: abstract methods are only allowed in classes, traits and objects''"

definition methodName :: "byte_string parsing" where
  "methodName =
     ifS (\<lambda>s. atKind KwThis s \<and> ps_inTemplateBody s) (thenA advanceToken (ret ''this''))
       (andThen (expect Identifier ''method name'') (\<lambda>t. ret (tk_text t)))"

definition parseDefDef :: "Rules \<Rightarrow> SourcePos \<Rightarrow> byte_string list \<Rightarrow> Modifiers \<Rightarrow> Node parsing" where
  "parseDefDef r pos annotations mods =
     andThen methodName (\<lambda>name.
     andThen (optionalTypeParams r) (\<lambda>tps.
     andThen (paramClauses (parseParamClause r)) (\<lambda>ls.
     andThen (optionalType r) (\<lambda>ty.
     let h = (newDefDef pos name)\<lparr>dd_annotations := annotations, dd_typeParams := tps,
               dd_resultType := ty, dd_mods := mods\<rparr> in
     ifS (atKind LBrace) (fail (procedureMsg name))
     (ifS (\<lambda>s. \<not> atKind Equals s)
       (ifS (\<lambda>s. ps_inTemplateBody s \<and> name \<noteq> ''this'') (ret (DefDefN h ls None)) (fail abstractMsg))
       (thenA advanceToken (andThen (parseExprOrIndented r) (\<lambda>b. ret (DefDefN h ls (Some b))))))))))"

subsection \<open>Imports and type aliases\<close>

definition isImportWildcard :: "Token \<Rightarrow> bool" where
  "isImportWildcard t \<longleftrightarrow>
     tk_kind t = Underscore \<or>
     (tk_kind t = Identifier \<and> tk_isOperator t \<and> \<not> tk_backquoted t \<and> tk_text t = ''*'')"

definition isPathToken :: "Token \<Rightarrow> bool" where
  "isPathToken t \<longleftrightarrow> tk_kind t = Identifier \<or> tk_kind t = KwThis"

definition importSpelling :: "Token \<Rightarrow> byte_string" where
  "importSpelling t = (if tk_backquoted t then [BACKQUOTE] @ tk_text t @ [BACKQUOTE] else spelling t)"

definition noSelector :: "SourcePos \<Rightarrow> ImportSelector" where
  "noSelector pos = \<lparr>is_name = [], is_alias = [], is_wildcard = False, is_given = False, is_pos = pos\<rparr>"

text \<open>One selector in braces, with the text it adds.\<close>

definition givenSelector :: "(ImportSelector \<times> byte_string) parsing" where
  "givenSelector =
     andThen advanceToken (\<lambda>t.
     let sel = (noSelector (tk_pos t))\<lparr>is_given := True\<rparr> in
     ifS (\<lambda>s. atKind Identifier s \<and> tk_text (here s) \<noteq> ''as'')
       (andThen advanceToken (\<lambda>u. ret (sel, spelling t @ '' '' @ spelling u)))
       (ret (sel, spelling t)))"

definition renamedSelector :: "ImportSelector \<Rightarrow> byte_string \<Rightarrow> (ImportSelector \<times> byte_string) parsing" where
  "renamedSelector sel text =
     andThen advanceToken (\<lambda>op.
     let text1 = text @ '' '' @ spelling op @ '' '' in
     ask here (\<lambda>a.
     if isImportWildcard a then
       thenA advanceToken (ret (sel\<lparr>is_name := [], is_given := True\<rparr>, text1 @ spelling a))
     else if tk_kind a \<noteq> Identifier then fail ''an alias was expected''
     else thenA advanceToken (ret (sel\<lparr>is_alias := tk_text a\<rparr>, text1 @ importSpelling a))))"

definition namedSelector :: "(ImportSelector \<times> byte_string) parsing" where
  "namedSelector =
     andThen advanceToken (\<lambda>t.
     let sel = (noSelector (tk_pos t))\<lparr>is_name := tk_text t\<rparr> in
     ifS (\<lambda>s. atIdent ''as'' s \<or> atKind Arrow s) (renamedSelector sel (importSpelling t))
       (ret (sel, importSpelling t)))"

definition importSelector :: "(ImportSelector \<times> byte_string) parsing" where
  "importSelector = ask here (\<lambda>t.
     if tk_kind t = KwGiven then givenSelector
     else if isImportWildcard t then
       thenA advanceToken (ret ((noSelector (tk_pos t))\<lparr>is_wildcard := True, is_name := ''*''\<rparr>, spelling t))
     else if \<not> isPathToken t then fail ''import selector expected''
     else namedSelector)"

definition addSelector :: "ImportSelector \<times> byte_string \<Rightarrow> ImportData \<Rightarrow> ImportData" where
  "addSelector st d =
     d\<lparr>im_selectors := im_selectors d @ [fst st], im_text := im_text d @ snd st\<rparr>"

definition addImportText :: "byte_string \<Rightarrow> ImportData \<Rightarrow> ImportData" where
  "addImportText x d = d\<lparr>im_text := im_text d @ x\<rparr>"

definition selectorList :: "ImportData \<Rightarrow> ImportData parsing" where
  "selectorList = loopA (\<lambda>d.
     thenA (skipWhile (\<lambda>s. isLayoutToken (tk_kind (here s))))
     (ifS (atKind RBrace) (leave d)
       (andThen importSelector (\<lambda>st.
        thenA (skipWhile (\<lambda>s. isLayoutToken (tk_kind (here s))))
        (ifS (\<lambda>s. \<not> atKind Comma s) (leave (addSelector st d))
          (thenA advanceToken (continue (addImportText '', '' (addSelector st d)))))))))"

definition parseImportSelectors :: "ImportData \<Rightarrow> ImportData parsing" where
  "parseImportSelectors d0 =
     thenA (expect LBrace (quote ''{''))
     (andThen (selectorList (addImportText ''{'' d0)) (\<lambda>d.
      thenA (expect RBrace (quote ''}'' @ '' to close the import selectors''))
        (ret (addImportText ''}'' d))))"

definition addPath :: "Token \<Rightarrow> ImportData \<Rightarrow> ImportData" where
  "addPath t d = d\<lparr>im_path := im_path d @ [tk_text t], im_text := im_text d @ importSpelling t\<rparr>"

text \<open>
  The dotted path.  The result tells whether a selector ended it, in which case no alias may follow.
\<close>

definition importPath :: "ImportData \<Rightarrow> (ImportData \<times> bool) parsing" where
  "importPath = loopA (\<lambda>d. ask here (\<lambda>t.
     if \<not> isPathToken t then fail ''import selector expected''
     else thenA advanceToken
       (ifS (\<lambda>s. \<not> atKind Dot s) (leave (addPath t d, False))
         (thenA advanceToken (ask here (\<lambda>u.
           let d1 = addImportText ''.'' (addPath t d) in
           if tk_kind u = LBrace then andThen (parseImportSelectors d1) (\<lambda>d2. leave (d2, True))
           else if isImportWildcard u then
             thenA advanceToken (leave (addSelector
               ((noSelector (tk_pos u))\<lparr>is_wildcard := True, is_name := ''*''\<rparr>, spelling u) d1, True))
           else if tk_kind u = KwGiven then
             thenA advanceToken (leave (addSelector ((noSelector (tk_pos u))\<lparr>is_given := True\<rparr>, spelling u) d1, True))
           else continue d1))))))"

definition parseImport :: "Node parsing" where
  "parseImport =
     andThen (expect KwImport (quote ''import'')) (\<lambda>t.
     andThen (importPath \<lparr>im_pos = tk_pos t, im_text = [], im_path = [], im_selectors = [], im_moduleAlias = []\<rparr>)
       (\<lambda>(d, ended).
     if ended then ret (ImportN d)
     else ifS (atIdent ''as'')
       (thenA advanceToken (andThen (expect Identifier (''an alias after '' @ quote ''as'')) (\<lambda>a.
        ret (ImportN ((addImportText ('' as '' @ (if tk_backquoted a then [BACKQUOTE] @ tk_text a @ [BACKQUOTE] else tk_text a)) d)
          \<lparr>im_moduleAlias := tk_text a\<rparr>)))))
       (ret (ImportN d))))"

definition atBound :: "Parser \<Rightarrow> bool" where
  "atBound s \<longleftrightarrow> atKind Subtype s \<or> atKind Supertype s"

definition skipTypeBound :: "Rules \<Rightarrow> unit parsing \<Rightarrow> unit parsing" where
  "skipTypeBound r rest = ifS atBound (thenA advanceToken (thenA (r_type r) rest)) (ret ())"

definition parseTypeDef :: "Rules \<Rightarrow> Modifiers \<Rightarrow> Node parsing" where
  "parseTypeDef r mods =
     andThen (expect KwType (quote ''type'')) (\<lambda>kw.
     andThen (expect Identifier ''a type name'') (\<lambda>name.
     andThen (optionalTypeParams r) (\<lambda>tps.
     let d = \<lparr>ty_pos = tk_pos kw, ty_name = tk_text name, ty_typeParams = tps, ty_rhs = None, ty_mods = mods\<rparr> in
     ifS (atKind Equals)
       (thenA advanceToken (andThen (r_type r) (\<lambda>ty. ret (TypeDefN (d\<lparr>ty_rhs := Some ty\<rparr>)))))
       (thenA (skipTypeBound r (skipTypeBound r (ret ()))) (ret (TypeDefN d))))))"

end
