(* ===== verification/ParserTemplates.thy ===== *)
theory ParserTemplates
  imports ParserDefs
begin

text \<open>
  Templates (\<^verbatim>\<open>src/src/frontend/Parser.cpp\<close>): parents, bodies with their self alias, enumerations,
  extensions, the dispatch over definitions and the statements of a block.
\<close>

subsection \<open>Parents and bodies\<close>

definition parentRef :: "Rules \<Rightarrow> Node ParentRef parsing" where
  "parentRef r = ask here (\<lambda>t.
     andThen (parseSimpleType r) (\<lambda>ty.
     ifS opensArguments
       (thenA advanceToken (andThen (parseArgs r) (\<lambda>args.
        ifS opensArguments
          (ask here (\<lambda>u. unsupported ''multiple constructor argument lists'' u True))
          (ret (ParentRef ty args True (tk_pos t))))))
       (ret (ParentRef ty [] False (tk_pos t)))))"

definition parseParents :: "Rules \<Rightarrow> Node ParentRef list parsing" where
  "parseParents r = loopA (\<lambda>ps.
     andThen (parentRef r) (\<lambda>p.
     ifS (\<lambda>s. atKind KwWith s \<or> atKind Comma s)
       (thenA advanceToken (continue (ps @ [p]))) (leave (ps @ [p])))) []"

text \<open>
  \<open>self: T =>\<close> is read as a type first; when that fails or no arrow follows, the tokens are given back.
  Reading a type changes nothing but the position, so the state before the attempt is restored.
\<close>

definition typedAlias :: "Rules \<Rightarrow> bool parsing" where
  "typedAlias r s =
     (case thenA advanceToken (thenA advanceToken (parseInfixType r)) s of
        Inl (Raised (ParseError _ _ _)) \<Rightarrow> Inr (False, s)
      | Inl e \<Rightarrow> Inl e
      | Inr (_, s') \<Rightarrow> if atKind Arrow s' then Inr (True, stepToken s') else Inr (False, s))"

definition aliasName :: "Parser \<Rightarrow> byte_string" where
  "aliasName s = (if atKind Identifier s then tk_text (here s) else [])"

text \<open>The self alias, if there is one.\<close>

definition selfAlias :: "Rules \<Rightarrow> byte_string option parsing" where
  "selfAlias r = ask aliasName (\<lambda>name.
     ifS (\<lambda>s. isPathToken (here s) \<and> peekKind 1 s = Arrow)
       (thenA advanceToken (thenA advanceToken (ret (Some name))))
     (ifS (\<lambda>s. isPathToken (here s) \<and> peekKind 1 s = Colon)
       (andThen (typedAlias r) (\<lambda>found. ret (if found then Some name else None)))
       (ret None)))"

definition appendEnumCase :: "Node EnumCase \<Rightarrow> unit parsing" where
  "appendEnumCase c = update (\<lambda>s. s\<lparr>ps_enumTarget := map_option (\<lambda>cs. cs @ [c]) (ps_enumTarget s)\<rparr>)"

definition enumCaseParams :: "Rules \<Rightarrow> (Node Param list \<times> bool) parsing" where
  "enumCaseParams r =
     andThen (paramClauses (parseClassParamClause r)) (\<lambda>ls. ret (concat ls, ls \<noteq> []))"

definition enumCaseParent :: "Rules \<Rightarrow> nat \<Rightarrow> (Node list \<times> bool) parsing" where
  "enumCaseParent r kw =
     ifS (atKind KwExtends)
       (thenA advanceToken (andThen (parseParents r) (\<lambda>ps.
        case ps of
          [p] \<Rightarrow> ret (pr_args p, pr_hasArgs p)
        | _ \<Rightarrow> failAt kw ''an enum case extends its own enum and nothing else'')))
       (ret ([], False))"

definition parseEnumCase :: "Rules \<Rightarrow> nat \<Rightarrow> Node EnumCase parsing" where
  "parseEnumCase r kw = ask here (\<lambda>t.
     andThen (expect Identifier ''an enum case name'') (\<lambda>name.
     thenA (optionalTypeParams r)
     (andThen (enumCaseParams r) (\<lambda>(ps, hasParens).
     andThen (enumCaseParent r kw) (\<lambda>(args, hasArgs).
     ret (EnumCase (tk_text name) ps args hasArgs hasParens (tk_pos t)))))))"

definition commaCaseMsg :: byte_string where
  "commaCaseMsg = ''only enum cases without parameters may be listed after a comma''"

definition parseEnumCases :: "Rules \<Rightarrow> unit parsing" where
  "parseEnumCases r = ask (peekIndex 0) (\<lambda>kw.
     thenA (expect KwCase (quote ''case''))
     (loopA (\<lambda>_.
        andThen (parseEnumCase r kw) (\<lambda>c.
        thenA (appendEnumCase c)
        (ifS (\<lambda>s. \<not> atKind Comma s) (leave ())
          (if ec_hasParens c \<or> ec_hasParentArgs c then failAt kw commaCaseMsg
           else thenA advanceToken (continue ()))))) ()))"

definition enumCaseAhead :: "Parser \<Rightarrow> bool" where
  "enumCaseAhead s \<longleftrightarrow>
     ps_enumTarget s \<noteq> None \<and> atKind KwCase s \<and> peekKind 1 s \<noteq> KwClass \<and> peekKind 1 s \<noteq> KwObject"

definition parseTemplateStat :: "Rules \<Rightarrow> Node option parsing" where
  "parseTemplateStat r =
     ifS enumCaseAhead (thenA (parseEnumCases r) (ret None))
     (ifS atDefinitionStart (andThen (r_definition r) (\<lambda>d. ret (Some d)))
       (andThen (r_expr r) (\<lambda>e. ret (Some e))))"

definition optList :: "'a option \<Rightarrow> 'a list" where
  "optList x = (case x of None \<Rightarrow> [] | Some a \<Rightarrow> [a])"

definition templateStatsFrom :: "Rules \<Rightarrow> TokenKind \<Rightarrow> Node list \<Rightarrow> Node list parsing" where
  "templateStatsFrom r statsEnd = loopA (\<lambda>ss.
     thenA skipNewlines
     (ifS (atKind statsEnd) (leave ss)
     (ifS (atKind EndOfFile) (fail [])
     (ifS (atKind EndMarker) (thenA (checkEndMarker ss) (continue ss))
       (andThen (parseTemplateStat r) (\<lambda>st.
        thenA (endStatement statsEnd) (continue (ss @ optList st))))))))"

definition templateStats :: "Rules \<Rightarrow> TokenKind \<Rightarrow> Node list parsing" where
  "templateStats r statsEnd = templateStatsFrom r statsEnd []"

definition openTemplateBody :: "TokenKind parsing" where
  "openTemplateBody =
     ifS (atKind LBrace) (thenA advanceToken (ret RBrace))
     (ifS (\<lambda>s. \<not> atKind ColonEol s \<and> \<not> atKind Colon s) (fail ''template body expected'')
       (thenA advanceToken
       (ifS (\<lambda>s. \<not> atKind Indent s) (fail (''an indented template body is expected after '' @ quote '':''))
         (thenA advanceToken (ret Outdent)))))"

definition endOfBody :: "TokenKind \<Rightarrow> byte_string" where
  "endOfBody terminator = (if terminator = RBrace then quote ''}'' else ''end of template body'')"

definition parseTemplateBody :: "Rules \<Rightarrow> (byte_string \<times> Node list) parsing" where
  "parseTemplateBody r =
     andThen openTemplateBody (\<lambda>terminator.
     thenA skipNewlines
     (andThen (selfAlias r) (\<lambda>alias.
     andThen
       (ifS (\<lambda>s. alias \<noteq> None \<and> atKind Indent s)
         (thenA advanceToken
         (andThen (withTemplateBody True (templateStats r Outdent)) (\<lambda>ss.
          thenA (expect Outdent ''end of template body'') (thenA skipNewlines (ret ss)))))
         (withTemplateBody True (templateStats r terminator))) (\<lambda>ss.
     thenA (expect terminator (endOfBody terminator))
       (ret (case alias of None \<Rightarrow> [] | Some name \<Rightarrow> name, ss))))))"

subsection \<open>Classes, traits, objects and enumerations\<close>

definition skipDerives :: "Rules \<Rightarrow> unit parsing" where
  "skipDerives r =
     whenS (atIdent ''derives'') (thenA advanceToken (commaSeparated (r_type r)))"

definition extendsClause :: "Rules \<Rightarrow> Node ParentRef list parsing" where
  "extendsClause r = ifS (atKind KwExtends) (thenA advanceToken (parseParents r)) (ret [])"

definition bodyAhead :: "Parser \<Rightarrow> bool" where
  "bodyAhead s \<longleftrightarrow>
     atKind LBrace s \<or> atKind ColonEol s \<or> (atKind Colon s \<and> peekKind 1 s = EndOfFile)"

definition skipToBody :: "unit parsing" where
  "skipToBody = whenS (\<lambda>s. atKind Newline s \<and> peekKind 1 s = LBrace) advanceToken"

definition templateKindOf :: "TokenKind \<Rightarrow> TemplateKind option" where
  "templateKindOf k =
     (if k = KwClass then Some TM_Class else if k = KwTrait then Some TM_Trait
      else if k = KwObject then Some TM_Object else None)"

definition constructorParams :: "Rules \<Rightarrow> TemplateKind \<Rightarrow> (Node Param list \<times> bool) parsing" where
  "constructorParams r kind =
     (if kind = TM_Object then ret ([], False)
      else thenA (whenS (\<lambda>s. (atKind KwPrivate s \<or> atKind KwProtected s) \<and> peekKind 1 s = LParen) advanceToken)
        (enumCaseParams r))"

definition caseClassMsg :: "byte_string \<Rightarrow> byte_string" where
  "caseClassMsg name =
     ''A case class must have a parameter list; write '' @ [BACKQUOTE] @ ''case class '' @ name @ ''()'' @
     [BACKQUOTE] @ '' or a case object''"

definition templateHead ::
  "SourcePos \<Rightarrow> TemplateKind \<Rightarrow> byte_string \<Rightarrow> bool \<Rightarrow> Modifiers \<Rightarrow> byte_string list \<Rightarrow> bool \<Rightarrow> byte_string \<Rightarrow>
   TemplateHead" where
  "templateHead pos kind name isCase mods tps hasParamClause selfName =
     (newTemplate pos kind name)\<lparr>td_isCase := isCase, td_mods := mods, td_typeParams := tps,
        td_hasParamClause := hasParamClause, td_selfName := selfName\<rparr>"

definition parseTemplateDef :: "Rules \<Rightarrow> Modifiers \<Rightarrow> Node parsing" where
  "parseTemplateDef r mods = ask here (\<lambda>start. ask (peekIndex 0) (\<lambda>j.
     andThen (ifS (atKind KwCase) (thenA advanceToken (ret True)) (ret False)) (\<lambda>isCase.
     ask here (\<lambda>kw.
     case templateKindOf (tk_kind kw) of
       None \<Rightarrow> fail (quote ''class'' @ '', '' @ quote ''trait'' @ '' or '' @ quote ''object'' @ '' expected'')
     | Some kind \<Rightarrow>
         thenA advanceToken
         (andThen (expect Identifier ''class name'') (\<lambda>name.
         andThen (optionalTypeParams r) (\<lambda>tps.
         andThen (constructorParams r kind) (\<lambda>(ps, hasParams).
         if isCase \<and> kind = TM_Class \<and> \<not> hasParams then failAt j (caseClassMsg (tk_text name))
         else
           andThen (extendsClause r) (\<lambda>parents.
           thenA (skipDerives r) (thenA skipToBody
           (andThen (ifS bodyAhead (parseTemplateBody r) (ret ([], []))) (\<lambda>(selfName, body).
            ret (TemplateDefN
              (templateHead (tk_pos start) kind (tk_text name) isCase mods tps hasParams selfName)
              ps parents body [])))))))))))))"

definition withEnumTarget :: "'a parsing \<Rightarrow> ('a \<times> Node EnumCase list) parsing" where
  "withEnumTarget m = ask ps_enumTarget (\<lambda>saved.
     thenA (update (\<lambda>s. s\<lparr>ps_enumTarget := Some []\<rparr>))
     (andThen m (\<lambda>x. ask (\<lambda>s. case ps_enumTarget s of None \<Rightarrow> [] | Some cs \<Rightarrow> cs) (\<lambda>cs.
      thenA (update (\<lambda>s. s\<lparr>ps_enumTarget := saved\<rparr>)) (ret (x, cs))))))"

definition parseEnumDef :: "Rules \<Rightarrow> Modifiers \<Rightarrow> Node parsing" where
  "parseEnumDef r mods = ask (peekIndex 0) (\<lambda>j.
     andThen (expect KwEnum (quote ''enum'')) (\<lambda>start.
     andThen (expect Identifier ''enum name'') (\<lambda>name.
     andThen (optionalTypeParams r) (\<lambda>tps.
     andThen (enumCaseParams r) (\<lambda>(ps, hasParams).
     andThen (extendsClause r) (\<lambda>parents.
     thenA (skipDerives r) (thenA skipToBody
     (ifS (\<lambda>s. \<not> bodyAhead s) (failAt j ''an enum needs a body with at least one case'')
       (andThen (withEnumTarget (parseTemplateBody r)) (\<lambda>((selfName, body), cs).
        if cs = [] then failAt j ''an enum needs at least one case''
        else ret (TemplateDefN
          (templateHead (tk_pos start) TM_Enum (tk_text name) False mods tps hasParams selfName)
          ps parents body cs))))))))))) "

subsection \<open>Extensions\<close>

definition memberAnnotations :: "byte_string list parsing" where
  "memberAnnotations = loopA (\<lambda>names.
     ifS (atKind At)
       (andThen (annotationName ''an annotation name'') (\<lambda>name.
        thenA (skipWhile (atKind Newline)) (continue (names @ [name]))))
       (leave names)) []"

definition extensionMember :: "Rules \<Rightarrow> Node parsing" where
  "extensionMember r =
     andThen memberAnnotations (\<lambda>annotations.
     andThen parseModifiers (\<lambda>(mods, isLazy).
     if isLazy then fail (quote ''lazy'' @ '' is not allowed on an extension member'')
     else ifS (\<lambda>s. \<not> atKind KwDef s) (fail ''an extension member must be a def'')
       (andThen advanceToken (\<lambda>kw. parseDefDef r (tk_pos kw) annotations mods))))"

definition extensionMembers :: "Rules \<Rightarrow> TokenKind \<Rightarrow> Node list parsing" where
  "extensionMembers r terminator = loopA (\<lambda>ms.
     thenA skipNewlines
     (ifS (atKind terminator) (leave ms)
     (ifS (atKind EndOfFile) (fail [])
       (andThen (extensionMember r) (\<lambda>m.
        thenA (endStatement terminator) (continue (ms @ [m]))))))) []"

definition extensionColonMsg :: byte_string where
  "extensionColonMsg =
     ''an extension body takes no '' @ quote '':'' @
     '': write the defs in braces or on the following indented lines''"

definition extensionBody :: "Rules \<Rightarrow> Node list parsing" where
  "extensionBody r =
     ifS (\<lambda>s. atKind ColonEol s \<or> atKind Colon s) (fail extensionColonMsg)
     (ifS (atKind LBrace)
       (thenA advanceToken (andThen (extensionMembers r RBrace) (\<lambda>ms.
        thenA (expect RBrace (quote ''}'')) (ret ms))))
     (ifS (atKind Indent)
       (thenA advanceToken (andThen (extensionMembers r Outdent) (\<lambda>ms.
        thenA (expect Outdent ''end of the extension body'') (ret ms))))
       (andThen (extensionMember r) (\<lambda>m. ret [m]))))"

definition parseExtension :: "Rules \<Rightarrow> Node parsing" where
  "parseExtension r = ask (peekIndex 0) (\<lambda>j.
     andThen advanceToken (\<lambda>start.
     thenA (optionalTypeParams r)
     (thenA (expect LParen (quote ''('' @ '' and the extended receiver''))
     (andThen (expect Identifier (''the receiver'' @ [SQUOTE] @ ''s name'')) (\<lambda>name.
     thenA (expect Colon (quote '':'' @ '' and the extended type''))
     (andThen (r_type r) (\<lambda>ty.
     thenA (expect RParen (quote '')''))
     (thenA (optionalTypeParams r)
     (andThen (extensionBody r) (\<lambda>ms.
      if ms = [] then failAt j ''an extension needs at least one def''
      else ret (ExtensionDefN (tk_pos start) (tk_text name) ty ms)))))))))))"

subsection \<open>Definitions and blocks\<close>

definition notLazy :: "bool \<Rightarrow> byte_string \<Rightarrow> 'a parsing \<Rightarrow> 'a parsing" where
  "notLazy isLazy what m =
     (if isLazy then fail (quote ''lazy'' @ '' is not allowed on '' @ what) else m)"

definition caseMsg :: byte_string where
  "caseMsg =
     quote ''case'' @ '' is only allowed in a match or in a pattern-matching function literal '' @
     [BACKQUOTE] @ ''{ case ... }'' @ [BACKQUOTE]"

definition definitionBody :: "Rules \<Rightarrow> byte_string list \<Rightarrow> Modifiers \<Rightarrow> bool \<Rightarrow> Node parsing" where
  "definitionBody r annotations mods isLazy = ask here (\<lambda>t. ask (peek 1) (\<lambda>t1.
     let k = tk_kind t; k1 = tk_kind t1 in
     if k = KwVal then thenA advanceToken (parseValDef r (tk_pos t) False isLazy mods)
     else if k = KwVar then
       notLazy isLazy ''a var'' (thenA advanceToken (parseValDef r (tk_pos t) True False mods))
     else if k = KwDef then
       notLazy isLazy ''a def'' (thenA advanceToken (parseDefDef r (tk_pos t) annotations mods))
     else if k = KwImport then
       (if isLazy \<or> annotations \<noteq> [] then fail ''an import takes no modifiers'' else parseImport)
     else if k = KwCase then
       (if k1 = KwClass \<or> k1 = KwObject
        then notLazy isLazy ''a class or object'' (parseTemplateDef r mods)
        else fail caseMsg)
     else if k = KwClass \<or> k = KwObject \<or> k = KwTrait then
       notLazy isLazy ''a class, trait or object'' (parseTemplateDef r mods)
     else if k = KwEnum then notLazy isLazy ''an enum'' (parseEnumDef r mods)
     else if k = KwType then notLazy isLazy ''a type'' (parseTypeDef r mods)
     else if k = KwPackage \<or> k = KwExport then notImplemented (quote (tk_text t) @ '' definitions'') t
     else if isExtensionStart t t1 then
       (if isLazy \<or> annotations \<noteq> [] then fail ''an extension takes no modifiers'' else parseExtension r)
     else failFound ''definition''))"

definition parseDefinition :: "Rules \<Rightarrow> Node parsing" where
  "parseDefinition r =
     andThen parseAnnotations (\<lambda>annotations.
     andThen parseModifiers (\<lambda>(mods, isLazy). definitionBody r annotations mods isLazy))"

definition blockStats :: "Rules \<Rightarrow> TokenKind \<Rightarrow> Node list \<Rightarrow> Node list parsing" where
  "blockStats r terminator = loopA (\<lambda>ss.
     thenA skipNewlines
     (ifS (atKind terminator) (leave ss)
     (ifS (atKind EndOfFile) (fail [])
     (ifS (atKind EndMarker) (thenA (checkEndMarker ss) (continue ss))
       (andThen (parseBlockStat r terminator) (\<lambda>st.
        thenA (endStatement terminator) (continue (ss @ [st]))))))))"

definition parseBlockBody :: "Rules \<Rightarrow> TokenKind \<Rightarrow> Node list parsing" where
  "parseBlockBody r terminator = withTemplateBody False (blockStats r terminator [])"

end
