(* ===== verification/ParserGrammar.thy ===== *)
theory ParserGrammar
  imports ParserTemplates
begin

text \<open>
  The knot of the grammar and the entry points of \<^verbatim>\<open>src/src/frontend/Parser.cpp\<close>.  The recursion of the
  routines is bounded by a natural number, six levels for each token that is left; the nesting of
  interpolation holes by another, the length of the text.  Both are proved sufficient, so the
  bounds do not show.  The native-stack checks (\<^verbatim>\<open>checkNativeStack\<close>) are not modelled.
\<close>

type_synonym hole_parser = "byte_string \<Rightarrow> SourcePos \<Rightarrow> ParserStop + Node"

definition grammar :: "Rules \<Rightarrow> Rules" where
  "grammar r =
     \<lparr>r_expr = parseExpr r, r_infix = parseInfix r, r_type = parseType r, r_pattern = parsePattern r,
      r_infixPattern = parseInfixPattern r, r_blockBody = parseBlockBody r,
      r_definition = parseDefinition r, r_hole = r_hole r\<rparr>"

primrec rules :: "hole_parser \<Rightarrow> nat \<Rightarrow> Rules" where
  "rules hole 0 =
     \<lparr>r_expr = throw OutOfFuel, r_infix = (\<lambda>_ _. throw OutOfFuel), r_type = throw OutOfFuel,
      r_pattern = throw OutOfFuel, r_infixPattern = (\<lambda>_ _. throw OutOfFuel),
      r_blockBody = (\<lambda>_. throw OutOfFuel), r_definition = throw OutOfFuel, r_hole = hole\<rparr>"
| "rules hole (Suc n) = grammar (rules hole n)"

text \<open>
  For evaluation: each rule as a function of its own, which is unfolded only when it is applied.
\<close>

definition exprRule :: "hole_parser \<Rightarrow> nat \<Rightarrow> Node parsing" where
  "exprRule hole n s = r_expr (rules hole n) s"

definition infixRule :: "hole_parser \<Rightarrow> nat \<Rightarrow> nat \<Rightarrow> (nat \<times> bool) option \<Rightarrow> Node parsing" where
  "infixRule hole n m a s = r_infix (rules hole n) m a s"

definition typeRule :: "hole_parser \<Rightarrow> nat \<Rightarrow> TypeTree parsing" where
  "typeRule hole n s = r_type (rules hole n) s"

definition patternRule :: "hole_parser \<Rightarrow> nat \<Rightarrow> Node Pattern parsing" where
  "patternRule hole n s = r_pattern (rules hole n) s"

definition infixPatternRule :: "hole_parser \<Rightarrow> nat \<Rightarrow> nat \<Rightarrow> nat option \<Rightarrow> Node Pattern parsing" where
  "infixPatternRule hole n m a s = r_infixPattern (rules hole n) m a s"

definition blockBodyRule :: "hole_parser \<Rightarrow> nat \<Rightarrow> TokenKind \<Rightarrow> Node list parsing" where
  "blockBodyRule hole n k s = r_blockBody (rules hole n) k s"

definition definitionRule :: "hole_parser \<Rightarrow> nat \<Rightarrow> Node parsing" where
  "definitionRule hole n s = r_definition (rules hole n) s"

lemmas rule_defs =
  exprRule_def infixRule_def typeRule_def patternRule_def infixPatternRule_def blockBodyRule_def
  definitionRule_def

lemma rules_hole [simp]: "r_hole (rules hole n) = hole"
  by (induction n) (simp_all add: grammar_def)

lemma rules_code [code]:
  "rules hole n =
     \<lparr>r_expr = exprRule hole n, r_infix = infixRule hole n, r_type = typeRule hole n,
      r_pattern = patternRule hole n, r_infixPattern = infixPatternRule hole n,
      r_blockBody = blockBodyRule hole n, r_definition = definitionRule hole n, r_hole = hole\<rparr>"
  by (rule Rules.equality) (simp_all add: fun_eq_iff rule_defs)

lemma rule_code [code]:
  "exprRule hole n s = (case n of 0 \<Rightarrow> Inl OutOfFuel | Suc k \<Rightarrow> parseExpr (rules hole k) s)"
  "infixRule hole n m a s = (case n of 0 \<Rightarrow> Inl OutOfFuel | Suc k \<Rightarrow> parseInfix (rules hole k) m a s)"
  "typeRule hole n s = (case n of 0 \<Rightarrow> Inl OutOfFuel | Suc k \<Rightarrow> parseType (rules hole k) s)"
  "patternRule hole n s = (case n of 0 \<Rightarrow> Inl OutOfFuel | Suc k \<Rightarrow> parsePattern (rules hole k) s)"
  "infixPatternRule hole n m b s = (case n of 0 \<Rightarrow> Inl OutOfFuel | Suc k \<Rightarrow> parseInfixPattern (rules hole k) m b s)"
  "blockBodyRule hole n kind s = (case n of 0 \<Rightarrow> Inl OutOfFuel | Suc k \<Rightarrow> parseBlockBody (rules hole k) kind s)"
  "definitionRule hole n s = (case n of 0 \<Rightarrow> Inl OutOfFuel | Suc k \<Rightarrow> parseDefinition (rules hole k) s)"
  by (simp_all add: rule_defs grammar_def split: nat.split)

definition ruleBound :: "Token list \<Rightarrow> nat" where
  "ruleBound toks = 6 * length toks + 6"

subsection \<open>Entry points\<close>

definition parseSingleExpression :: "Rules \<Rightarrow> Node parsing" where
  "parseSingleExpression r =
     andThen (r_expr r) (\<lambda>e.
     thenA skipNewlines
     (ifS (\<lambda>s. \<not> atKind EndOfFile s) (failFound ''end of expression'') (ret e)))"

definition parseCompilationUnit :: "Rules \<Rightarrow> CompilationUnit parsing" where
  "parseCompilationUnit r = andThen (r_blockBody r EndOfFile) (\<lambda>ss. ret (CompilationUnit ss))"

definition holeMsg :: byte_string where
  "holeMsg = ''a string interpolation hole holds one expression''"

definition parseHoleExpression :: "Rules \<Rightarrow> SourcePos \<Rightarrow> Node parsing" where
  "parseHoleExpression r holePos =
     thenA (skipWhile (\<lambda>s. atKind Newline s \<or> atKind Indent s))
     (andThen (r_expr r) (\<lambda>e.
      thenA (skipWhile (\<lambda>s. atKind Newline s \<or> atKind Outdent s))
      (ifS (\<lambda>s. \<not> atKind EndOfFile s) (throw (Raised (ParseError holeMsg holePos False)))
        (ret (rebase holePos e)))))"

text \<open>\<open>Parser sub(tokenize(text))\<close> with one of the entry points.\<close>

definition parseText ::
  "hole_parser \<Rightarrow> (Rules \<Rightarrow> 'a parsing) \<Rightarrow> byte_string \<Rightarrow> ParserStop + 'a" where
  "parseText hole entry text =
     (case tokenize text of
        Inl e \<Rightarrow> Inl (LexRaised e)
      | Inr toks \<Rightarrow>
          let p = newParser toks in
          (case entry (rules hole (ruleBound (ps_toks p))) p of Inl e \<Rightarrow> Inl e | Inr (x, _) \<Rightarrow> Inr x))"

primrec parseHole :: "nat \<Rightarrow> hole_parser" where
  "parseHole 0 text pos = Inl OutOfFuel"
| "parseHole (Suc d) text pos = parseText (\<lambda>t p. parseHole d t p) (\<lambda>r. parseHoleExpression r pos) text"

text \<open>A lexical error becomes a parse error; only the model's own exhaustion has no counterpart.\<close>

definition asParseError :: "ParserStop \<Rightarrow> FrontendError" where
  "asParseError e =
     (case e of
        Raised f \<Rightarrow> f
      | LexRaised (LexFailure l) \<Rightarrow> ParseError (le_what l) (le_pos l) (le_atEof l)
      | LexRaised (InvalidArgument msg) \<Rightarrow> LogicError msg
      | OutOfFuel \<Rightarrow> Undefined ''recursion bound'')"

definition parseWith :: "(Rules \<Rightarrow> 'a parsing) \<Rightarrow> byte_string \<Rightarrow> FrontendError + 'a" where
  "parseWith entry src =
     (case parseText (parseHole (length src)) entry src of
        Inl e \<Rightarrow> Inl (asParseError e)
      | Inr x \<Rightarrow> Inr x)"

definition parseExpressionSource :: "byte_string \<Rightarrow> FrontendError + Node" where
  "parseExpressionSource src = parseWith parseSingleExpression src"

definition parseSource :: "byte_string \<Rightarrow> FrontendError + CompilationUnit" where
  "parseSource src = parseWith parseCompilationUnit src"

end
