(* ===== verification/ParserLogic.thy ===== *)
theory ParserLogic
  imports ParserGrammar
begin

text \<open>
  A weakest-precondition calculus for parsing actions.  \<open>wp m Q s\<close>: from state \<open>s\<close> the action \<open>m\<close> does
  not run out of its recursion bound, and if it returns, result and state satisfy \<open>Q\<close>.  The equations
  in \<open>wp_simps\<close> take an action apart; a loop needs an invariant and must consume a token whenever it
  goes on.
\<close>

named_theorems wp_simps "equations for the weakest precondition"

definition wp :: "'a parsing \<Rightarrow> ('a \<Rightarrow> Parser \<Rightarrow> bool) \<Rightarrow> Parser \<Rightarrow> bool" where
  "wp m Q s \<longleftrightarrow> (case m s of Inl e \<Rightarrow> e \<noteq> OutOfFuel | Inr (x, s') \<Rightarrow> Q x s')"

lemma wp_basic [wp_simps]:
  "wp (ret x1) Q1 = Q1 x1"
  "wp (throw e) Q2 = (\<lambda>s. e \<noteq> OutOfFuel)"
  "wp (andThen m3 f3) Q3 = wp m3 (\<lambda>x. wp (f3 x) Q3)"
  "wp (thenA m4 n4) Q4 = wp m4 (\<lambda>_. wp n4 Q4)"
  "wp (ask g5 k5) Q5 = (\<lambda>s. wp (k5 (g5 s)) Q5 s)"
  "wp (ifS c6 m6 n6) Q6 = (\<lambda>s. if c6 s then wp m6 Q6 s else wp n6 Q6 s)"
  "wp (lift r7) Q7 = (\<lambda>s. case r7 of Inl e \<Rightarrow> e \<noteq> OutOfFuel | Inr x \<Rightarrow> Q7 x s)"
  "wp (update u8) Q8 = (\<lambda>s. Q8 () (u8 s))"
  by (auto simp: fun_eq_iff wp_def thenA_def andThen_def ask_def ifS_def lift_def update_def split: sum.split)

lemma wp_whenS [wp_simps]: "wp (whenS c m) Q = (\<lambda>s. if c s then wp m (\<lambda>_. Q ()) s else Q () s)"
  by (simp add: whenS_def wp_simps)

lemma wp_fail [wp_simps]:
  "wp (failAt j msg) Q1 = (\<lambda>s. True)" "wp (failPeek k msg) Q2 = (\<lambda>s. True)"
  "wp (failFound what) Q3 = (\<lambda>s. True)" "wp (unsupported f t p) Q4 = (\<lambda>s. True)"
  "wp (notImplemented w t) Q5 = (\<lambda>s. True)" "wp separatorMissing Q6 = (\<lambda>s. True)"
  by (simp_all add: fun_eq_iff wp_def failAt_def failPeek_def failFound_def unsupported_def notImplemented_def
      separatorMissing_def ask_def Let_def)

lemma wp_advance [wp_simps]: "wp advanceToken Q = (\<lambda>s. Q (here s) (stepToken s))"
  by (simp add: fun_eq_iff wp_def advanceToken_def)

lemma wp_expect [wp_simps]: "wp (expect k what) Q = (\<lambda>s. atKind k s \<longrightarrow> Q (here s) (stepToken s))"
  by (simp add: fun_eq_iff expect_def wp_simps)

lemma wp_loop_control [wp_simps]: "wp (continue b) Q1 = Q1 (Inl b)" "wp (leave x) Q2 = Q2 (Inr x)"
  by (simp_all add: continue_def leave_def wp_simps)

lemma wp_if [wp_simps]: "wp (if b then m else n) Q s \<longleftrightarrow> (if b then wp m Q s else wp n Q s)"
  by simp

lemma wp_Let [wp_simps]: "wp (let x = e in f x) Q = wp (f e) Q"
  by simp

lemma wp_prod [wp_simps]: "wp (case p of (a, b) \<Rightarrow> f a b) Q = wp (f (fst p) (snd p)) Q"
  by (simp add: case_prod_beta)

lemma wp_mono: "wp m P s \<Longrightarrow> (\<And>x s'. P x s' \<Longrightarrow> Q x s') \<Longrightarrow> wp m Q s"
  by (auto simp: wp_def split: sum.splits)

lemma wp_loopN:
  assumes "I b s" "remainingTokens s < n"
    and step: "\<And>b s. I b s \<Longrightarrow> wp (body b) (\<lambda>r s'. case r of
           Inl b' \<Rightarrow> I b' s' \<and> remainingTokens s' < remainingTokens s
         | Inr x \<Rightarrow> Q x s') s"
  shows "wp (loopN n body b) Q s"
  using assms(1,2)
proof (induction n arbitrary: b s)
  case (Suc n)
  from step [OF Suc.prems(1)] Suc.IH Suc.prems(2) show ?case
    by (fastforce simp: wp_def split: sum.splits prod.splits)
qed simp

lemma wp_loopA:
  assumes "I b s"
    and "\<And>b s. I b s \<Longrightarrow> wp (body b) (\<lambda>r s'. case r of
           Inl b' \<Rightarrow> I b' s' \<and> remainingTokens s' < remainingTokens s
         | Inr x \<Rightarrow> Q x s') s"
  shows "wp (loopA body b) Q s"
proof -
  have "wp (loopN (Suc (remainingTokens s)) body b) Q s"
    by (rule wp_loopN [where I = I]) (use assms in auto)
  then show ?thesis by (simp add: wp_def loopA_def)
qed

subsection \<open>Positions in the token vector\<close>

text \<open>The parser stands on a token of a vector that ends with EndOfFile.\<close>

definition live :: "Parser \<Rightarrow> bool" where
  "live s \<longleftrightarrow> ps_i s < length (ps_toks s) \<and> tk_kind (last (ps_toks s)) = EndOfFile"

text \<open>What every routine leaves as it was; \<open>same s s'\<close> compares it before and after.\<close>

definition surroundings :: "Parser \<Rightarrow> Token list \<times> nat option list \<times> bool \<times> nat \<times> bool" where
  "surroundings s =
     (ps_toks s, ps_closingParen s, ps_inTemplateBody s, length (ps_placeholderFrames s),
      ps_enumTarget s = None)"

definition same :: "Parser \<Rightarrow> Parser \<Rightarrow> bool" where
  "same s s' \<longleftrightarrow> surroundings s' = surroundings s"

definition tokenCount :: "Parser \<Rightarrow> nat" where
  "tokenCount s = length (fst (surroundings s))"

lemma tokenCount_toks: "tokenCount s = length (ps_toks s)"
  by (simp add: tokenCount_def surroundings_def)

lemma same_refl [simp]: "same s s"
  by (simp add: same_def)

lemma same_toks: "same s s' \<Longrightarrow> ps_toks s' = ps_toks s"
  by (simp add: same_def surroundings_def)

lemma here_index: "live s \<Longrightarrow> here s = ps_toks s ! ps_i s"
  by (simp add: live_def peek_def peekIndex_def)

lemma stepToken_simps [simp]:
  "ps_toks (stepToken s) = ps_toks s" "ps_closingParen (stepToken s) = ps_closingParen s"
  "ps_inTemplateBody (stepToken s) = ps_inTemplateBody s" "ps_enumTarget (stepToken s) = ps_enumTarget s"
  "ps_placeholderFrames (stepToken s) = ps_placeholderFrames s"
  "ps_i s \<le> ps_i (stepToken s)"
  by (simp_all add: stepToken_def)

lemma stepToken_surroundings [simp]: "surroundings (stepToken s) = surroundings s"
  by (simp add: surroundings_def)

lemma stepToken_mono:
  "n \<le> ps_i s \<Longrightarrow> n \<le> ps_i (stepToken s)" "n < ps_i s \<Longrightarrow> n < ps_i (stepToken s)"
  "m \<le> n + 6 * ps_i s \<Longrightarrow> m \<le> n + 6 * ps_i (stepToken s)"
  by (simp_all add: stepToken_def)

lemma stepToken_live [simp]: "live s \<Longrightarrow> live (stepToken s)"
  by (auto simp: live_def stepToken_def)

lemma stepToken_consumes [simp]:
  assumes "live s" "tk_kind (here s) \<noteq> EndOfFile"
  shows "ps_i (stepToken s) = Suc (ps_i s)"
proof -
  have "ps_i s \<noteq> length (ps_toks s) - 1"
    using assms by (cases "ps_toks s = []") (auto simp: live_def here_index last_conv_nth)
  with assms(1) show ?thesis by (auto simp: live_def stepToken_def)
qed

lemma peek_stepToken [simp]:
  assumes "live s" "tk_kind (here s) \<noteq> EndOfFile"
  shows "peek k (stepToken s) = peek (Suc k) s"
  using stepToken_consumes [OF assms] by (simp add: peek_def peekIndex_def)

lemma remaining_less [simp]:
  assumes "live s" "ps_toks s' = ps_toks s" "ps_i s < ps_i s'"
  shows "remainingTokens s' < remainingTokens s"
  using assms by (auto simp: live_def remainingTokens_def)

end
