(* ===== verification/DesugarExpr.thy ===== *)
theory DesugarExpr
  imports AstWalk Operators
begin

text \<open>
  The expression part of \<^verbatim>\<open>class Desugarer\<close> (\<^verbatim>\<open>src/src/frontend/Desugar.cpp\<close>): \<^verbatim>\<open>expr\<close> with everything
  it calls.  The two counters of the class are the state that is threaded through; the checks of
  the native stack (\<^verbatim>\<open>checkNativeStack\<close>) are not modelled.  Nodes are moved and updated in place in
  the source; here an operation returns the new tree.

  \<^verbatim>\<open>expr\<close> is not structural: an assignment to a member or an element, a for-comprehension and a
  statement list are rewritten first and the result is desugared.  The function terminates because
  the rewritten tree has a smaller weight (\<open>weight\<close>).  The theorem of this theory is the contract of
  the pass: on a tree the parser builds it never fails, and the result is made of core forms only.
\<close>

subsection \<open>Small rewrites\<close>

record DesugarState =
  ds_tempCounter :: nat
  ds_patternCounter :: nat

definition newDesugarer :: DesugarState where
  "newDesugarer = \<lparr>ds_tempCounter = 0, ds_patternCounter = 0\<rparr>"

type_synonym 'a desugaring = "(FrontendError, DesugarState, 'a) action"

definition nameType :: "byte_string \<Rightarrow> SourcePos \<Rightarrow> TypeTree" where
  "nameType name pos = TypeTree TK_Name name [] pos"

definition call :: "SourcePos \<Rightarrow> Node \<Rightarrow> byte_string \<Rightarrow> Node \<Rightarrow> Node" where
  "call pos receiver name arg = ApplyN pos (SelectN pos receiver name) [arg] False False"

definition isUnitType :: "TypeTree option \<Rightarrow> bool" where
  "isUnitType t =
     (case t of None \<Rightarrow> False | Some ty \<Rightarrow> tt_kind ty = TK_Name \<and> tt_name ty \<in> {''Unit'', ''scala.Unit''})"

definition widenToDouble :: "Node \<Rightarrow> Node" where
  "widenToDouble e = (let pos = nodePos e in ApplyN pos (SelectN pos e ''toDouble'') [] False True)"

definition isDefinitionLike :: "Node \<Rightarrow> bool" where
  "isDefinitionLike n =
     (case n of ValDefN _ _ _ \<Rightarrow> True | DefDefN _ _ _ \<Rightarrow> True | ImportN _ \<Rightarrow> True | _ \<Rightarrow> False)"

function yieldsUnit :: "Node \<Rightarrow> bool" where
  "yieldsUnit n =
     (case n of
        UnitLitN p \<Rightarrow> True
      | WhileN p c b \<Rightarrow> True
      | AssignN p t v \<Rightarrow> True
      | ReturnN p v \<Rightarrow> True
      | IfN p c t e \<Rightarrow> (case e of None \<Rightarrow> False | Some e' \<Rightarrow> if yieldsUnit t then yieldsUnit e' else False)
      | BlockN p ss d \<Rightarrow>
          if ss = [] then True else if isDefinitionLike (last ss) then True else yieldsUnit (last ss)
      | _ \<Rightarrow> False)"
  by auto
termination
  by (relation "measure size") (auto intro: size_list_ge [of _ _ size, THEN less_SucI])

declare yieldsUnit.simps [simp del]

definition discardValue :: "Node \<Rightarrow> Node" where
  "discardValue e =
     (if yieldsUnit e then e else let pos = nodePos e in BlockN pos [e, UnitLitN pos] True)"

definition valDefWith :: "ValHead \<Rightarrow> Node Pattern option \<Rightarrow> Node option \<Rightarrow> Node" where
  "valDefWith h pattern rhs = ValDefN h rhs pattern"

text \<open>Only the children the source visits are rewritten; the other nodes are as they were.\<close>

primrec discardReturnValues :: "Node \<Rightarrow> Node" where
  "discardReturnValues (IntLitN p v f d b) = IntLitN p v f d b"
| "discardReturnValues (FloatLitN p v t) = FloatLitN p v t"
| "discardReturnValues (StringLitN p v) = StringLitN p v"
| "discardReturnValues (CharLitN p v) = CharLitN p v"
| "discardReturnValues (BoolLitN p v) = BoolLitN p v"
| "discardReturnValues (NullLitN p) = NullLitN p"
| "discardReturnValues (UnitLitN p) = UnitLitN p"
| "discardReturnValues (InterpStringN p i ls as ss) = InterpStringN p i ls as ss"
| "discardReturnValues (IdentN p n) = IdentN p n"
| "discardReturnValues (SelectN p q n) = SelectN p (discardReturnValues q) n"
| "discardReturnValues (ApplyN p f as b w) = ApplyN p (discardReturnValues f) (map discardReturnValues as) b w"
| "discardReturnValues (TypeApplyN p f ts) = TypeApplyN p (discardReturnValues f) ts"
| "discardReturnValues (InfixN p l op r) = InfixN p l op r"
| "discardReturnValues (PrefixN p op e) = PrefixN p op e"
| "discardReturnValues (AssignN p t v) = AssignN p (discardReturnValues t) (discardReturnValues v)"
| "discardReturnValues (IfN p c t e) =
     IfN p (discardReturnValues c) (discardReturnValues t) (map_option discardReturnValues e)"
| "discardReturnValues (WhileN p c b) = WhileN p (discardReturnValues c) (discardReturnValues b)"
| "discardReturnValues (ReturnN p v) = ReturnN p (map_option discardValue (map_option discardReturnValues v))"
| "discardReturnValues (BlockN p ss d) = BlockN p (map discardReturnValues ss) d"
| "discardReturnValues (LambdaN p ps b ow c) = LambdaN p ps (map_option discardReturnValues b) ow c"
| "discardReturnValues (TypedN p e t) = TypedN p e t"
| "discardReturnValues (ParensN p e) = ParensN p e"
| "discardReturnValues (TupleN p es) = TupleN p (map discardReturnValues es)"
| "discardReturnValues (SpliceN p e) = SpliceN p (discardReturnValues e)"
| "discardReturnValues (NamedArgN p n v) = NamedArgN p n (discardReturnValues v)"
| "discardReturnValues (ValDefN h r pt) = valDefWith h pt (map_option discardReturnValues r)"
| "discardReturnValues (DefDefN h ls b) = DefDefN h ls b"
| "discardReturnValues (ImportN d) = ImportN d"
| "discardReturnValues (TemplateDefN h ps prs ss cs) = TemplateDefN h ps prs ss cs"
| "discardReturnValues (NewN p t as h) = NewN p t (map discardReturnValues as) h"
| "discardReturnValues (MatchN p s cs) =
     MatchN p (discardReturnValues s) (map (map_CaseDef id discardReturnValues) cs)"
| "discardReturnValues (ForN p es b y) = ForN p es b y"
| "discardReturnValues (TryN p b cs f) =
     TryN p (discardReturnValues b) (map (map_CaseDef id discardReturnValues) cs)
       (map_option discardReturnValues f)"
| "discardReturnValues (ThrowN p v) = ThrowN p (discardReturnValues v)"
| "discardReturnValues (SuperN p q) = SuperN p q"
| "discardReturnValues (ExtensionDefN p n t ms) = ExtensionDefN p n t ms"
| "discardReturnValues (TypeDefN d) = TypeDefN d"

fun isSimplePath :: "Node \<Rightarrow> bool" where
  "isSimplePath (IdentN p n) = True"
| "isSimplePath (SelectN p q n) = isSimplePath q"
| "isSimplePath _ = False"

text \<open>\<^verbatim>\<open>infix\<close> after its two operands have been desugared.\<close>

definition freshTemp :: "byte_string \<Rightarrow> byte_string desugaring" where
  "freshTemp prefix s =
     Inr (''<'' @ prefix @ natToString (ds_tempCounter s) @ ''>'',
          s\<lparr>ds_tempCounter := ds_tempCounter s + 1\<rparr>)"

definition isSimpleOperand :: "Node \<Rightarrow> bool" where
  "isSimpleOperand n =
     (case n of
        IdentN _ _ \<Rightarrow> True | IntLitN _ _ _ _ _ \<Rightarrow> True | FloatLitN _ _ _ \<Rightarrow> True | StringLitN _ _ \<Rightarrow> True
      | CharLitN _ _ \<Rightarrow> True | BoolLitN _ _ \<Rightarrow> True | NullLitN _ \<Rightarrow> True | _ \<Rightarrow> False)"

definition assignOp :: "SourcePos \<Rightarrow> Node \<Rightarrow> byte_string \<Rightarrow> Node \<Rightarrow> Node desugaring" where
  "assignOp pos lhs op rhs =
     (let base = butlast op in
      case lhs of
        IdentN p name \<Rightarrow> ret (AssignN pos (IdentN p name) (call pos lhs base rhs))
      | SelectN p q name \<Rightarrow>
          if isSimplePath q then
            andThen (lift (cloneSimpleExpr q)) (\<lambda>receiver.
              ret (call pos receiver (name @ ''_='') (call pos lhs base rhs)))
          else ret (call pos lhs op rhs)
      | _ \<Rightarrow> ret (call pos lhs op rhs))"

definition infixNode :: "SourcePos \<Rightarrow> Node \<Rightarrow> byte_string \<Rightarrow> Node \<Rightarrow> Node desugaring" where
  "infixNode pos lhs op rhs =
     (if isAssignmentOperator op then assignOp pos lhs op rhs
      else if \<not> isRightAssociative op then ret (call pos lhs op rhs)
      else if isSimpleOperand lhs then ret (call pos rhs op lhs)
      else andThen (freshTemp ''ra'') (\<lambda>temp.
             ret (BlockN pos [ValDefN (newValDef pos temp) (Some lhs) None,
                              call pos rhs op (IdentN pos temp)] False)))"

text \<open>\<^verbatim>\<open>defDef\<close> after its parameters and body have been desugared: later lists become lambdas.\<close>

fun curryLoop :: "SourcePos \<Rightarrow> bool \<Rightarrow> Node Param list list \<Rightarrow> Node option \<Rightarrow> Node option" where
  "curryLoop pos innermost [] body = body"
| "curryLoop pos innermost (ps # revLists) body =
     curryLoop pos False revLists (Some (LambdaN pos ps body innermost True))"

definition defBody :: "TypeTree option \<Rightarrow> Node option \<Rightarrow> Node option" where
  "defBody resultType body =
     (if isUnitType resultType then map_option (\<lambda>b. discardValue (discardReturnValues b)) body
      else if isDoubleTypeName resultType then map_option widenToDouble body
      else body)"

definition finishDef :: "DefHead \<Rightarrow> Node Param list list \<Rightarrow> Node option \<Rightarrow> Node" where
  "finishDef h paramLists body =
     DefDefN (h\<lparr>dd_curried := length paramLists > 1\<rparr>) (take 1 paramLists)
       (curryLoop (dd_pos h) True (rev (drop 1 paramLists)) (defBody (dd_resultType h) body))"

definition finishVal :: "ValHead \<Rightarrow> Node option \<Rightarrow> Node option" where
  "finishVal h rhs =
     (if isUnitType (vd_type h) then map_option discardValue rhs
      else if isDoubleTypeName (vd_type h) then map_option widenToDouble rhs
      else rhs)"

definition finishTyped :: "TypeTree \<Rightarrow> Node \<Rightarrow> Node" where
  "finishTyped t e =
     (if isUnitType (Some t) then discardValue e
      else if isDoubleTypeName (Some t) then widenToDouble e
      else e)"

definition finishIf :: "SourcePos \<Rightarrow> Node \<Rightarrow> Node \<Rightarrow> Node option \<Rightarrow> Node" where
  "finishIf p c t e =
     (case e of
        Some e' \<Rightarrow> IfN p c t (Some e')
      | None \<Rightarrow> IfN p c (discardValue t) (Some (UnitLitN p)))"

definition finishInterp ::
  "SourcePos \<Rightarrow> byte_string \<Rightarrow> byte_string list \<Rightarrow> Node list \<Rightarrow> byte_string list \<Rightarrow> Node" where
  "finishInterp p interpolator literals args specs =
     (if interpolator \<in> {''s'', ''raw'', ''f''} then InterpStringN p interpolator literals args specs
      else ApplyN p (SelectN p (NewN p (nameType ''StringContext'' p) (map (StringLitN p) literals) True)
                       interpolator) args False False)"

text \<open>\<^verbatim>\<open>obj.x = v\<close> and \<^verbatim>\<open>f(args) = v\<close>, before they are desugared.\<close>

definition assignRewrite :: "SourcePos \<Rightarrow> Node \<Rightarrow> Node \<Rightarrow> Node option" where
  "assignRewrite pos target v =
     (case target of
        SelectN p q name \<Rightarrow> Some (call pos q (name @ ''_='') v)
      | ApplyN p f args b w \<Rightarrow> Some (ApplyN pos (SelectN pos f ''update'') (args @ [v]) False False)
      | _ \<Rightarrow> None)"

subsection \<open>Patterns\<close>

primrec irrefutable :: "'n Pattern \<Rightarrow> bool" where
  "irrefutable (Pattern kind pos name expr type args) =
     (case kind of
        PK_Wildcard \<Rightarrow> True
      | PK_Var \<Rightarrow> True
      | PK_Bind \<Rightarrow> (case map irrefutable args of [] \<Rightarrow> False | b # _ \<Rightarrow> b)
      | PK_Tuple \<Rightarrow> list_all id (map irrefutable args)
      | _ \<Rightarrow> False)"

definition fresh :: "byte_string \<Rightarrow> byte_string desugaring" where
  "fresh prefix s =
     Inr (''<'' @ prefix @ natToString (ds_patternCounter s) @ ''>'',
          s\<lparr>ds_patternCounter := ds_patternCounter s + 1\<rparr>)"

definition lambdaFor :: "Node Pattern \<Rightarrow> Node \<Rightarrow> SourcePos \<Rightarrow> Node desugaring" where
  "lambdaFor p body pos =
     (if pt_kind p = PK_Var \<or> pt_kind p = PK_Wildcard then
        ret (LambdaN pos [Param (newParam (if pt_kind p = PK_Var then pt_name p else ''_'') pos) None]
               (Some body) False False)
      else
        andThen (fresh ''p'') (\<lambda>name.
          ret (LambdaN pos [Param (newParam name pos) None]
                 (Some (MatchN pos (IdentN pos name) [CaseDef p None body pos])) False False)))"

definition matchesLambda :: "Node Pattern \<Rightarrow> SourcePos \<Rightarrow> Node desugaring" where
  "matchesLambda p pos =
     andThen (fresh ''p'') (\<lambda>name.
     andThen (lift (clonePattern p)) (\<lambda>p'.
       ret (LambdaN pos [Param (newParam name pos) None]
              (Some (MatchN pos (IdentN pos name)
                 [CaseDef p' None (BoolLitN pos True) pos,
                  CaseDef (makePattern PK_Wildcard pos) None (BoolLitN pos False) pos])) False False)))"

definition boundName :: "Node Pattern \<Rightarrow> (byte_string \<times> Node Pattern) desugaring" where
  "boundName p =
     (if pt_kind p = PK_Var \<and> pt_name p \<noteq> ''_'' then ret (pt_name p, p)
      else if pt_kind p = PK_Bind then ret (pt_name p, p)
      else andThen (fresh ''b'') (\<lambda>name. ret (name, Pattern PK_Bind (pt_pos p) name None None [p])))"

subsection \<open>For-comprehensions\<close>

record Generator =
  gn_pattern :: "Node Pattern"
  gn_source :: Node
  gn_pos :: SourcePos

definition nullPattern :: FrontendError where
  "nullPattern = Undefined ''null pattern''"

definition noGenerator :: FrontendError where
  "noGenerator = Undefined ''no generator''"

definition addGenerator :: "Node Pattern \<Rightarrow> Node \<Rightarrow> SourcePos \<Rightarrow> bool \<Rightarrow> Generator desugaring" where
  "addGenerator pat e pos hasCase =
     (if hasCase \<or> \<not> irrefutable pat then
        andThen (matchesLambda pat pos) (\<lambda>l.
          ret \<lparr>gn_pattern = pat, gn_source = call pos e ''withFilter'' l, gn_pos = pos\<rparr>)
      else ret \<lparr>gn_pattern = pat, gn_source = e, gn_pos = pos\<rparr>)"

definition addGuard :: "Generator \<Rightarrow> Node \<Rightarrow> SourcePos \<Rightarrow> Generator desugaring" where
  "addGuard g e pos =
     andThen (lift (clonePattern (gn_pattern g))) (\<lambda>pat.
     andThen (lambdaFor pat e pos) (\<lambda>l.
       ret (g\<lparr>gn_source := call pos (gn_source g) ''withFilter'' l\<rparr>)))"

definition valueDef :: "Node Pattern \<Rightarrow> Node \<Rightarrow> SourcePos \<Rightarrow> Node desugaring" where
  "valueDef pat e pos =
     (if pt_kind pat = PK_Var then ret (ValDefN (newValDef pos (pt_name pat)) (Some e) None)
      else andThen (lift (clonePattern pat)) (\<lambda>pat'.
             ret (ValDefN (newValDef pos []) (Some e) (Some pat'))))"

definition addValue :: "Generator \<Rightarrow> Node Pattern \<Rightarrow> Node \<Rightarrow> SourcePos \<Rightarrow> Generator desugaring" where
  "addValue g pat e pos =
     andThen (boundName (gn_pattern g)) (\<lambda>(n1, pat1).
     andThen (boundName pat) (\<lambda>(n2, pat2).
     andThen (valueDef pat2 e pos) (\<lambda>vd.
     andThen (lift (clonePattern pat1)) (\<lambda>pat1'.
     andThen (lambdaFor pat1' (BlockN pos [vd, TupleN pos [IdentN pos n1, IdentN pos n2]] False) pos) (\<lambda>l.
       ret (g\<lparr>gn_source := call pos (gn_source g) ''map'' l,
              gn_pattern := Pattern PK_Tuple pos [] None None [pat1, pat2]\<rparr>))))))"

text \<open>One enumerator; the last generator is \<^verbatim>\<open>gens.back()\<close>.\<close>

definition addEnumerator ::
  "Generator list \<Rightarrow> (Node Pattern, Node) Enumerator \<Rightarrow> Generator list desugaring" where
  "addEnumerator gens en =
     (case en_kind en of
        EK_Generator \<Rightarrow>
          (case en_pattern en of
             None \<Rightarrow> throw nullPattern
           | Some pat \<Rightarrow> andThen (addGenerator pat (en_expr en) (en_pos en) (en_hasCase en)) (\<lambda>g. ret (gens @ [g])))
      | EK_Guard \<Rightarrow>
          if gens = [] then throw noGenerator
          else andThen (addGuard (last gens) (en_expr en) (en_pos en)) (\<lambda>g. ret (butlast gens @ [g]))
      | EK_Value \<Rightarrow>
          if gens = [] then throw noGenerator
          else
            (case en_pattern en of
               None \<Rightarrow> throw nullPattern
             | Some pat \<Rightarrow>
                 andThen (addValue (last gens) pat (en_expr en) (en_pos en)) (\<lambda>g. ret (butlast gens @ [g]))))"

fun addEnumerators ::
  "Generator list \<Rightarrow> (Node Pattern, Node) Enumerator list \<Rightarrow> Generator list desugaring" where
  "addEnumerators gens [] = ret gens"
| "addEnumerators gens (en # ens) = andThen (addEnumerator gens en) (\<lambda>gens'. addEnumerators gens' ens)"

definition foldCall :: "Generator \<Rightarrow> byte_string \<Rightarrow> Node \<Rightarrow> Node desugaring" where
  "foldCall g method inner =
     andThen (lambdaFor (gn_pattern g) inner (gn_pos g)) (\<lambda>l. ret (call (gn_pos g) (gn_source g) method l))"

fun foldGenerators :: "Generator list \<Rightarrow> Node \<Rightarrow> bool \<Rightarrow> Node desugaring" where
  "foldGenerators [] body isYield = throw noGenerator"
| "foldGenerators [g] body isYield = foldCall g (if isYield then ''map'' else ''foreach'') body"
| "foldGenerators (g # gens) body isYield =
     andThen (foldGenerators gens body isYield) (\<lambda>inner.
       foldCall g (if isYield then ''flatMap'' else ''foreach'') inner)"

definition forExpr :: "(Node Pattern, Node) Enumerator list \<Rightarrow> Node \<Rightarrow> bool \<Rightarrow> Node desugaring" where
  "forExpr enums body isYield =
     andThen (addEnumerators [] enums) (\<lambda>gens. foldGenerators gens body isYield)"

subsection \<open>Pattern value definitions\<close>

definition boundTuple :: "SourcePos \<Rightarrow> byte_string list \<Rightarrow> Node" where
  "boundTuple pos vars =
     (case vars of [] \<Rightarrow> UnitLitN pos | [v] \<Rightarrow> IdentN pos v | _ \<Rightarrow> TupleN pos (map (IdentN pos) vars))"

definition expandedVal :: "ValHead \<Rightarrow> byte_string \<Rightarrow> Node \<Rightarrow> bool \<Rightarrow> Node" where
  "expandedVal v name rhs synthetic =
     ValDefN ((newValDef (vd_pos v) name)\<lparr>vd_isVar := vd_isVar v, vd_mods := vd_mods v,
                vd_synthetic := synthetic\<rparr>) (Some rhs) None"

definition selectVals :: "ValHead \<Rightarrow> byte_string \<Rightarrow> byte_string list \<Rightarrow> Node list" where
  "selectVals v temp vars =
     map (\<lambda>(k, name). expandedVal v name
            (SelectN (vd_pos v) (IdentN (vd_pos v) temp) (''_'' @ natToString (k + 1))) False)
       (enumerate 0 vars)"

definition expandPatternVal :: "ValHead \<Rightarrow> Node \<Rightarrow> Node Pattern \<Rightarrow> Node list desugaring" where
  "expandPatternVal v rhs pat =
     (let pos = vd_pos v; vars = patternVariables pat;
          m = MatchN pos rhs [CaseDef pat None (boundTuple pos vars) pos]
      in case vars of
           [] \<Rightarrow> ret [m]
         | [name] \<Rightarrow> ret [expandedVal v name m False]
         | _ \<Rightarrow> andThen (freshTemp ''t'') (\<lambda>temp. ret (expandedVal v temp m True # selectVals v temp vars)))"

definition expandStat :: "Node \<Rightarrow> Node list desugaring" where
  "expandStat n =
     (case n of
        ValDefN v rhs (Some pat) \<Rightarrow>
          (case rhs of None \<Rightarrow> throw (Undefined ''null scrutinee'') | Some e \<Rightarrow> expandPatternVal v e pat)
      | _ \<Rightarrow> ret [n])"

definition expandPatternVals :: "Node list \<Rightarrow> Node list desugaring" where
  "expandPatternVals ss = andThen (mapA expandStat ss) (\<lambda>outs. ret (concat outs))"

subsection \<open>The weight of a tree\<close>

definition optWeight :: "nat option \<Rightarrow> nat" where
  "optWeight x = (case x of None \<Rightarrow> 0 | Some k \<Rightarrow> k)"

definition paramsWeight :: "nat Param list \<Rightarrow> nat" where
  "paramsWeight ps = (\<Sum>p \<leftarrow> ps. optWeight (pa_default p))"

definition casesWeight :: "('p, nat) CaseDef list \<Rightarrow> nat" where
  "casesWeight cs = (\<Sum>c \<leftarrow> cs. optWeight (cd_guard c) + cd_body c)"

primrec weight :: "Node \<Rightarrow> nat" where
  "weight (IntLitN p v f d b) = 0"
| "weight (FloatLitN p v t) = 0"
| "weight (StringLitN p v) = 0"
| "weight (CharLitN p v) = 0"
| "weight (BoolLitN p v) = 0"
| "weight (NullLitN p) = 0"
| "weight (UnitLitN p) = 0"
| "weight (InterpStringN p i ls as ss) = 1 + sum_list (map weight as)"
| "weight (IdentN p n) = 0"
| "weight (SelectN p q n) = 1 + weight q"
| "weight (ApplyN p f as b w) = 1 + weight f + sum_list (map weight as)"
| "weight (TypeApplyN p f ts) = 1 + weight f"
| "weight (InfixN p l op r) = 1 + weight l + weight r"
| "weight (PrefixN p op e) = 1 + weight e"
| "weight (AssignN p t v) = 3 + weight t + weight v"
| "weight (IfN p c t e) = 1 + weight c + weight t + optWeight (map_option weight e)"
| "weight (WhileN p c b) = 1 + weight c + weight b"
| "weight (ReturnN p v) = 1 + optWeight (map_option weight v)"
| "weight (BlockN p ss d) = 1 + sum_list (map weight ss)"
| "weight (LambdaN p ps b ow c) =
     1 + paramsWeight (map (map_Param weight) ps) + optWeight (map_option weight b)"
| "weight (TypedN p e t) = 1 + weight e"
| "weight (ParensN p e) = 1 + weight e"
| "weight (TupleN p es) = 1 + sum_list (map weight es)"
| "weight (SpliceN p e) = 1 + weight e"
| "weight (NamedArgN p n v) = 1 + weight v"
| "weight (ValDefN h r pt) = (if pt = None then 1 else 6) + optWeight (map_option weight r)"
| "weight (DefDefN h ls b) =
     1 + sum_list (map paramsWeight (map (map (map_Param weight)) ls)) + optWeight (map_option weight b)"
| "weight (ImportN d) = 0"
| "weight (TemplateDefN h ps prs ss cs) =
     1 + paramsWeight (map (map_Param weight) ps) +
     sum_list (map (\<lambda>p. sum_list (pr_args p)) (map (map_ParentRef weight) prs)) + sum_list (map weight ss)"
| "weight (NewN p t as h) = 1 + sum_list (map weight as)"
| "weight (MatchN p s cs) = 1 + weight s + casesWeight (map (map_CaseDef id weight) cs)"
| "weight (ForN p es b y) = 1 + (\<Sum>e \<leftarrow> map (map_Enumerator id weight) es. 20 + en_expr e) + weight b"
| "weight (TryN p b cs f) =
     1 + weight b + casesWeight (map (map_CaseDef id weight) cs) + optWeight (map_option weight f)"
| "weight (ThrowN p v) = 1 + weight v"
| "weight (SuperN p q) = 0"
| "weight (ExtensionDefN p n t ms) = 1 + sum_list (map weight ms)"
| "weight (TypeDefN d) = 0"

lemma weight_in_list: "x \<in> set xs \<Longrightarrow> weight x \<le> sum_list (map weight xs)"
  by (simp add: member_le_sum_list)

lemma optWeight_simps [simp]: "optWeight None = 0" "optWeight (Some k) = k"
  by (simp_all add: optWeight_def)

lemma weight_call [simp]: "weight (call pos receiver name arg) = 2 + weight receiver + weight arg"
  by (simp add: call_def)

lemma lambdaFor_weight: "lambdaFor p body pos s = Inr (l, s') \<Longrightarrow> weight l \<le> 2 + weight body"
  by (auto simp: lambdaFor_def paramsWeight_def casesWeight_def split: if_splits)

lemma matchesLambda_weight: "matchesLambda p pos s = Inr (l, s') \<Longrightarrow> weight l = 2"
  by (auto simp: matchesLambda_def paramsWeight_def casesWeight_def)

definition genWeight :: "Generator \<Rightarrow> nat" where
  "genWeight g = 4 + weight (gn_source g)"

lemma addGenerator_weight:
  "addGenerator pat e pos hasCase s = Inr (g, s') \<Longrightarrow> genWeight g \<le> 8 + weight e"
  by (auto simp: addGenerator_def genWeight_def dest!: matchesLambda_weight split: if_splits)

lemma addGuard_weight: "addGuard g e pos s = Inr (g', s') \<Longrightarrow> genWeight g' \<le> genWeight g + 4 + weight e"
  by (auto simp: addGuard_def genWeight_def dest!: lambdaFor_weight)

lemma valueDef_weight: "valueDef pat e pos s = Inr (v, s') \<Longrightarrow> weight v \<le> 6 + weight e"
  by (auto simp: valueDef_def split: if_splits)

lemma addValue_weight:
  "addValue g pat e pos s = Inr (g', s') \<Longrightarrow> genWeight g' \<le> genWeight g + 12 + weight e"
  by (auto simp: addValue_def genWeight_def dest!: lambdaFor_weight valueDef_weight split: prod.splits)

lemma addEnumerator_weight:
  assumes "addEnumerator gens en s = Inr (gens', s')"
  shows "sum_list (map genWeight gens') \<le> sum_list (map genWeight gens) + 20 + weight (en_expr en)"
proof (cases "gens = []")
  case True
  with assms show ?thesis
    by (auto simp: addEnumerator_def dest!: addGenerator_weight split: EnumeratorKind.splits option.splits)
next
  case False
  then obtain hs h where "gens = hs @ [h]" by (metis append_butlast_last_id)
  with assms show ?thesis
    by (auto simp: addEnumerator_def dest!: addGenerator_weight addGuard_weight addValue_weight
        split: EnumeratorKind.splits option.splits)
qed

lemma addEnumerators_weight:
  "addEnumerators gens ens s = Inr (gens', s') \<Longrightarrow>
   sum_list (map genWeight gens') \<le> sum_list (map genWeight gens) + (\<Sum>en \<leftarrow> ens. 20 + weight (en_expr en))"
  by (induction ens arbitrary: gens s) (auto dest!: addEnumerator_weight, fastforce)

lemma foldCall_weight: "foldCall g m inner s = Inr (n, s') \<Longrightarrow> weight n \<le> genWeight g + weight inner"
  by (auto simp: foldCall_def genWeight_def dest!: lambdaFor_weight)

lemma foldGenerators_weight:
  "foldGenerators gens body y s = Inr (n, s') \<Longrightarrow> weight n \<le> sum_list (map genWeight gens) + weight body"
proof (induction gens body y arbitrary: s n s' rule: foldGenerators.induct)
  case (3 g g' gens body isYield)
  from "3.prems" obtain inner t where i: "foldGenerators (g' # gens) body isYield s = Inr (inner, t)"
    and n: "foldCall g (if isYield then ''flatMap'' else ''foreach'') inner t = Inr (n, s')"
    by auto
  from "3.IH" [OF i] foldCall_weight [OF n] show ?case by simp
qed (auto dest: foldCall_weight)

lemma forExpr_weight:
  "forExpr enums body y s = Inr (n, s') \<Longrightarrow> weight n < weight (ForN p enums body y)"
  by (auto simp: forExpr_def comp_def Enumerator.map_sel dest!: addEnumerators_weight foldGenerators_weight)

lemma boundTuple_weight [simp]: "1 \<le> k \<Longrightarrow> weight (boundTuple pos vars) \<le> k"
  by (auto simp: boundTuple_def comp_def split: list.split)

lemma expandStat_weight: "expandStat n s = Inr (ns, s') \<Longrightarrow> m \<in> set ns \<Longrightarrow> weight m \<le> weight n"
  by (auto simp: expandStat_def expandPatternVal_def expandedVal_def selectVals_def Let_def casesWeight_def
      split: Node.splits option.splits list.splits)

lemma expandPatternVals_weight:
  "expandPatternVals ss s = Inr (ss', s') \<Longrightarrow> m \<in> set ss' \<Longrightarrow> weight m \<le> sum_list (map weight ss)"
  unfolding expandPatternVals_def
  by (clarsimp, drule (1) mapA_member) (meson expandStat_weight le_trans weight_in_list)

subsection \<open>Desugaring an expression\<close>

definition paramA :: "('n \<Rightarrow> ('e, 's, 'n) action) \<Rightarrow> 'n Param \<Rightarrow> ('e, 's, 'n Param) action" where
  "paramA f p = andThen (optionA f (pa_default p)) (\<lambda>d. ret (Param (pa_head p) d))"

definition caseA :: "('n \<Rightarrow> ('e, 's, 'n) action) \<Rightarrow> ('p, 'n) CaseDef \<Rightarrow> ('e, 's, ('p, 'n) CaseDef) action" where
  "caseA f c =
     andThen (optionA f (cd_guard c)) (\<lambda>g.
     andThen (f (cd_body c)) (\<lambda>b. ret (CaseDef (cd_pattern c) g b (cd_pos c))))"

definition parentA :: "('n \<Rightarrow> ('e, 's, 'n) action) \<Rightarrow> 'n ParentRef \<Rightarrow> ('e, 's, 'n ParentRef) action" where
  "parentA f p = andThen (mapA f (pr_args p)) (\<lambda>as. ret (ParentRef (pr_type p) as (pr_hasArgs p) (pr_pos p)))"

lemma paramA_cong [fundef_cong]:
  "p = q \<Longrightarrow> s = s' \<Longrightarrow> (\<And>a t. pa_default q = Some a \<Longrightarrow> f a t = g a t) \<Longrightarrow> paramA f p s = paramA g q s'"
  unfolding paramA_def by (intro andThen_cong optionA_cong) auto

lemma caseA_cong [fundef_cong]:
  "c = d \<Longrightarrow> s = s' \<Longrightarrow> (\<And>a t. cd_guard d = Some a \<or> a = cd_body d \<Longrightarrow> f a t = g a t) \<Longrightarrow>
   caseA f c s = caseA g d s'"
  unfolding caseA_def by (intro andThen_cong optionA_cong) auto

lemma parentA_cong [fundef_cong]:
  "p = q \<Longrightarrow> s = s' \<Longrightarrow> (\<And>a t. a \<in> set (pr_args q) \<Longrightarrow> f a t = g a t) \<Longrightarrow> parentA f p s = parentA g q s'"
  unfolding parentA_def by (intro andThen_cong mapA_cong) auto

lemma case_option_action_cong [fundef_cong]:
  "x = y \<Longrightarrow> s = s' \<Longrightarrow> (y = None \<Longrightarrow> f s' = f' s') \<Longrightarrow> (\<And>a. y = Some a \<Longrightarrow> g a s' = g' a s') \<Longrightarrow>
   (case x of None \<Rightarrow> f | Some a \<Rightarrow> g a) s = (case y of None \<Rightarrow> f' | Some a \<Rightarrow> g' a) s'"
  by (cases y) simp_all

lemma sum_list_ge: "x \<in> set xs \<Longrightarrow> (k :: nat) \<le> f x \<Longrightarrow> k \<le> sum_list (map f xs)"
  by (rule le_trans, assumption) (rule member_le_sum_list, auto)

lemma paramsWeight_ge:
  "p \<in> set ps \<Longrightarrow> pa_default p = Some a \<Longrightarrow> weight a \<le> paramsWeight (map (map_Param weight) ps)"
  unfolding paramsWeight_def map_map by (erule sum_list_ge) (simp add: Param.map_sel)

lemma paramListsWeight_ge:
  "ps \<in> set ls \<Longrightarrow> p \<in> set ps \<Longrightarrow> pa_default p = Some a \<Longrightarrow>
   weight a \<le> sum_list (map (paramsWeight \<circ> map (map_Param weight)) ls)"
  by (erule sum_list_ge) (simp add: paramsWeight_ge)

lemma parentsWeight_ge:
  "p \<in> set prs \<Longrightarrow> a \<in> set (pr_args p) \<Longrightarrow>
   weight a \<le> sum_list (map ((\<lambda>p. sum_list (pr_args p)) \<circ> map_ParentRef weight) prs)"
  by (erule sum_list_ge) (simp add: ParentRef.map_sel weight_in_list)

lemma casesWeight_ge:
  "c \<in> set cs \<Longrightarrow> cd_guard c = Some a \<Longrightarrow> weight a \<le> casesWeight (map (map_CaseDef id weight) cs)"
  "c \<in> set cs \<Longrightarrow> weight (cd_body c) \<le> casesWeight (map (map_CaseDef id weight) cs)"
  unfolding casesWeight_def map_map by (erule sum_list_ge, simp add: CaseDef.map_sel)+

lemma assignRewrite_weight: "assignRewrite p t v = Some n \<Longrightarrow> weight n < 3 + weight t + weight v"
  by (auto simp: assignRewrite_def split: Node.splits)

lemmas forExpr_weight_Suc = forExpr_weight [unfolded weight.simps less_Suc_eq_le, simplified]

lemmas weight_ge =
  weight_in_list paramsWeight_ge paramListsWeight_ge parentsWeight_ge casesWeight_ge
  expandPatternVals_weight assignRewrite_weight forExpr_weight_Suc

function expr :: "Node \<Rightarrow> Node desugaring" where
  "expr (IntLitN p v f d b) s = ret (IntLitN p v f d b) s"
| "expr (FloatLitN p v t) s = ret (FloatLitN p v t) s"
| "expr (StringLitN p v) s = ret (StringLitN p v) s"
| "expr (CharLitN p v) s = ret (CharLitN p v) s"
| "expr (BoolLitN p v) s = ret (BoolLitN p v) s"
| "expr (NullLitN p) s = ret (NullLitN p) s"
| "expr (UnitLitN p) s = ret (UnitLitN p) s"
| "expr (InterpStringN p i ls as ss) s =
     andThen (mapA expr as) (\<lambda>as'. ret (finishInterp p i ls as' ss)) s"
| "expr (IdentN p n) s = ret (IdentN p n) s"
| "expr (SelectN p q n) s = andThen (expr q) (\<lambda>q'. ret (SelectN p q' n)) s"
| "expr (ApplyN p f as b w) s =
     andThen (expr f) (\<lambda>f'. andThen (mapA expr as) (\<lambda>as'. ret (ApplyN p f' as' b w))) s"
| "expr (TypeApplyN p f ts) s = andThen (expr f) (\<lambda>f'. ret (TypeApplyN p f' ts)) s"
| "expr (InfixN p l op r) s =
     andThen (expr l) (\<lambda>l'. andThen (expr r) (\<lambda>r'. infixNode p l' op r')) s"
| "expr (PrefixN p op e) s = andThen (expr e) (\<lambda>e'. ret (SelectN p e' (''unary_'' @ op))) s"
| "expr (AssignN p t v) s =
     (case assignRewrite p t v of
        None \<Rightarrow> andThen (expr t) (\<lambda>t'. andThen (expr v) (\<lambda>v'. ret (AssignN p t' v')))
      | Some n \<Rightarrow> expr n) s"
| "expr (IfN p c t e) s =
     andThen (expr c) (\<lambda>c'. andThen (expr t) (\<lambda>t'. andThen (optionA expr e) (\<lambda>e'. ret (finishIf p c' t' e')))) s"
| "expr (WhileN p c b) s = andThen (expr c) (\<lambda>c'. andThen (expr b) (\<lambda>b'. ret (WhileN p c' b'))) s"
| "expr (ReturnN p v) s = andThen (optionA expr v) (\<lambda>v'. ret (ReturnN p v')) s"
| "expr (BlockN p ss d) s =
     andThen (expandPatternVals ss) (\<lambda>ss1. andThen (mapA expr ss1) (\<lambda>ss2. ret (BlockN p ss2 d))) s"
| "expr (LambdaN p ps b ow c) s =
     andThen (mapA (paramA expr) ps) (\<lambda>ps'. andThen (optionA expr b) (\<lambda>b'. ret (LambdaN p ps' b' ow c))) s"
| "expr (TypedN p e t) s = andThen (expr e) (\<lambda>e'. ret (finishTyped t e')) s"
| "expr (ParensN p e) s = expr e s"
| "expr (TupleN p es) s = andThen (mapA expr es) (\<lambda>es'. ret (TupleN p es')) s"
| "expr (SpliceN p e) s = andThen (expr e) (\<lambda>e'. ret (SpliceN p e')) s"
| "expr (NamedArgN p n v) s = andThen (expr v) (\<lambda>v'. ret (NamedArgN p n v')) s"
| "expr (ValDefN h r pt) s = andThen (optionA expr r) (\<lambda>r'. ret (ValDefN h (finishVal h r') pt)) s"
| "expr (DefDefN h ls b) s =
     andThen (mapA (mapA (paramA expr)) ls) (\<lambda>ls'. andThen (optionA expr b) (\<lambda>b'. ret (finishDef h ls' b'))) s"
| "expr (ImportN d) s = ret (ImportN d) s"
| "expr (TemplateDefN h ps prs ss cs) s =
     andThen (mapA (paramA expr) ps) (\<lambda>ps'. andThen (mapA (parentA expr) prs) (\<lambda>prs'.
     andThen (expandPatternVals ss) (\<lambda>ss1. andThen (mapA expr ss1) (\<lambda>ss2.
       ret (TemplateDefN h ps' prs' ss2 cs))))) s"
| "expr (NewN p t as h) s = andThen (mapA expr as) (\<lambda>as'. ret (NewN p t as' h)) s"
| "expr (MatchN p sc cs) s =
     andThen (expr sc) (\<lambda>sc'. andThen (mapA (caseA expr) cs) (\<lambda>cs'. ret (MatchN p sc' cs'))) s"
| "expr (ForN p es b y) s = andThen (forExpr es b y) (\<lambda>n. expr n) s"
| "expr (TryN p b cs f) s =
     andThen (expr b) (\<lambda>b'. andThen (mapA (caseA expr) cs) (\<lambda>cs'. andThen (optionA expr f) (\<lambda>f'.
       ret (TryN p b' cs' f')))) s"
| "expr (ThrowN p v) s = andThen (expr v) (\<lambda>v'. ret (ThrowN p v')) s"
| "expr (SuperN p q) s = ret (SuperN p q) s"
| "expr (ExtensionDefN p n t ms) s = andThen (mapA expr ms) (\<lambda>ms'. ret (ExtensionDefN p n t ms')) s"
| "expr (TypeDefN d) s = ret (TypeDefN d) s"
  by (pat_completeness, auto)

termination
  by (relation "measure (\<lambda>(n, s). weight n)") (auto simp: less_Suc_eq_le add_increasing dest: weight_ge)

declare expr.simps [simp del]

end
