(* ===== verification/DesugarCore.thy ===== *)
theory DesugarCore
  imports DesugarExpr
begin

text \<open>
  The contract of the expression desugarer.  \<open>wellFormed\<close> says what the parser guarantees of a tree
  it hands over (a for-comprehension starts with a generator, its patterns hold only literals and
  paths, an assignment's target is a name, a selection or an application, a pattern definition is a
  statement and has a right-hand side, and enumerations have been expanded); \<open>core\<close> says what the
  compiler may assume of the tree it receives.
\<close>

subsection \<open>What goes in\<close>

definition enumeratorOK :: "(Node Pattern, Node) Enumerator \<Rightarrow> bool" where
  "enumeratorOK e =
     (case en_pattern e of None \<Rightarrow> en_kind e = EK_Guard | Some pat \<Rightarrow> simplePattern pat)"

definition assignable :: "Node \<Rightarrow> bool" where
  "assignable n = (case n of IdentN _ _ \<Rightarrow> True | SelectN _ _ _ \<Rightarrow> True | ApplyN _ _ _ _ _ \<Rightarrow> True | _ \<Rightarrow> False)"

definition wfLocal :: "Node \<Rightarrow> bool" where
  "wfLocal n =
     (case n of
        ForN p es b y \<Rightarrow> es \<noteq> [] \<and> en_kind (hd es) = EK_Generator \<and> list_all enumeratorOK es
      | AssignN p t v \<Rightarrow> assignable t
      | ValDefN h r pt \<Rightarrow> pt \<noteq> None \<longrightarrow> r \<noteq> None
      | TemplateDefN h ps prs ss cs \<Rightarrow> cs = []
      | _ \<Rightarrow> True)"

text \<open>The slots that do not hold statements.\<close>

definition exprSlots :: "Node \<Rightarrow> Node list" where
  "exprSlots n =
     (case n of
        BlockN p ss d \<Rightarrow> []
      | TemplateDefN h ps prs ss cs \<Rightarrow> takeParams ps @ concat (map pr_args prs)
      | _ \<Rightarrow> childSlots n)"

function wellFormed :: "Node \<Rightarrow> bool" where
  "wellFormed n =
     (wfLocal n \<and> list_all (\<lambda>c. \<not> isPatternVal c) (exprSlots n) \<and> list_all wellFormed (childSlots n))"
  by auto
termination
  by (relation "measure size") (auto dest: childSlots_size)

declare wellFormed.simps [simp del]

subsection \<open>What comes out\<close>

definition coreLocal :: "Node \<Rightarrow> bool" where
  "coreLocal n =
     (case n of
        InfixN _ _ _ _ \<Rightarrow> False
      | PrefixN _ _ _ \<Rightarrow> False
      | TypedN _ _ _ \<Rightarrow> False
      | ParensN _ _ \<Rightarrow> False
      | ForN _ _ _ _ \<Rightarrow> False
      | InterpStringN p i ls as ss \<Rightarrow> i \<in> {''s'', ''raw'', ''f''}
      | AssignN p t v \<Rightarrow> (case t of IdentN _ _ \<Rightarrow> True | _ \<Rightarrow> False)
      | IfN p c t e \<Rightarrow> e \<noteq> None
      | ValDefN h r pt \<Rightarrow> pt = None
      | DefDefN h ls b \<Rightarrow> length ls \<le> 1
      | TemplateDefN h ps prs ss cs \<Rightarrow> cs = []
      | _ \<Rightarrow> True)"

function core :: "Node \<Rightarrow> bool" where
  "core n = (coreLocal n \<and> list_all core (childSlots n))"
  by auto
termination
  by (relation "measure size") (auto dest: childSlots_size)

declare core.simps [simp del]

lemmas wellFormed_node [simp] =
  wellFormed.simps [of "IntLitN p v f d b" for p v f d b, simplified wfLocal_def exprSlots_def childSlots.simps Node.case, simplified]
  wellFormed.simps [of "FloatLitN p v t" for p v t, simplified wfLocal_def exprSlots_def childSlots.simps Node.case, simplified]
  wellFormed.simps [of "StringLitN p v" for p v, simplified wfLocal_def exprSlots_def childSlots.simps Node.case, simplified]
  wellFormed.simps [of "CharLitN p v" for p v, simplified wfLocal_def exprSlots_def childSlots.simps Node.case, simplified]
  wellFormed.simps [of "BoolLitN p v" for p v, simplified wfLocal_def exprSlots_def childSlots.simps Node.case, simplified]
  wellFormed.simps [of "NullLitN p" for p, simplified wfLocal_def exprSlots_def childSlots.simps Node.case, simplified]
  wellFormed.simps [of "UnitLitN p" for p, simplified wfLocal_def exprSlots_def childSlots.simps Node.case, simplified]
  wellFormed.simps [of "InterpStringN p i ls as ss" for p i ls as ss, simplified wfLocal_def exprSlots_def childSlots.simps Node.case, simplified]
  wellFormed.simps [of "IdentN p n" for p n, simplified wfLocal_def exprSlots_def childSlots.simps Node.case, simplified]
  wellFormed.simps [of "SelectN p q n" for p q n, simplified wfLocal_def exprSlots_def childSlots.simps Node.case, simplified]
  wellFormed.simps [of "ApplyN p f as b w" for p f as b w, simplified wfLocal_def exprSlots_def childSlots.simps Node.case, simplified]
  wellFormed.simps [of "TypeApplyN p f ts" for p f ts, simplified wfLocal_def exprSlots_def childSlots.simps Node.case, simplified]
  wellFormed.simps [of "InfixN p l op r" for p l op r, simplified wfLocal_def exprSlots_def childSlots.simps Node.case, simplified]
  wellFormed.simps [of "PrefixN p op e" for p op e, simplified wfLocal_def exprSlots_def childSlots.simps Node.case, simplified]
  wellFormed.simps [of "AssignN p t v" for p t v, simplified wfLocal_def exprSlots_def childSlots.simps Node.case, simplified]
  wellFormed.simps [of "IfN p c t e" for p c t e, simplified wfLocal_def exprSlots_def childSlots.simps Node.case, simplified]
  wellFormed.simps [of "WhileN p c b" for p c b, simplified wfLocal_def exprSlots_def childSlots.simps Node.case, simplified]
  wellFormed.simps [of "ReturnN p v" for p v, simplified wfLocal_def exprSlots_def childSlots.simps Node.case, simplified]
  wellFormed.simps [of "BlockN p ss d" for p ss d, simplified wfLocal_def exprSlots_def childSlots.simps Node.case, simplified]
  wellFormed.simps [of "LambdaN p ps b ow c" for p ps b ow c, simplified wfLocal_def exprSlots_def childSlots.simps Node.case, simplified]
  wellFormed.simps [of "TypedN p e t" for p e t, simplified wfLocal_def exprSlots_def childSlots.simps Node.case, simplified]
  wellFormed.simps [of "ParensN p e" for p e, simplified wfLocal_def exprSlots_def childSlots.simps Node.case, simplified]
  wellFormed.simps [of "TupleN p es" for p es, simplified wfLocal_def exprSlots_def childSlots.simps Node.case, simplified]
  wellFormed.simps [of "SpliceN p e" for p e, simplified wfLocal_def exprSlots_def childSlots.simps Node.case, simplified]
  wellFormed.simps [of "NamedArgN p n v" for p n v, simplified wfLocal_def exprSlots_def childSlots.simps Node.case, simplified]
  wellFormed.simps [of "ValDefN h r pt" for h r pt, simplified wfLocal_def exprSlots_def childSlots.simps Node.case, simplified]
  wellFormed.simps [of "DefDefN h ls b" for h ls b, simplified wfLocal_def exprSlots_def childSlots.simps Node.case, simplified]
  wellFormed.simps [of "ImportN d" for d, simplified wfLocal_def exprSlots_def childSlots.simps Node.case, simplified]
  wellFormed.simps [of "TemplateDefN h ps prs ss cs" for h ps prs ss cs, simplified wfLocal_def exprSlots_def childSlots.simps Node.case, simplified]
  wellFormed.simps [of "NewN p t as h" for p t as h, simplified wfLocal_def exprSlots_def childSlots.simps Node.case, simplified]
  wellFormed.simps [of "MatchN p s cs" for p s cs, simplified wfLocal_def exprSlots_def childSlots.simps Node.case, simplified]
  wellFormed.simps [of "ForN p es b y" for p es b y, simplified wfLocal_def exprSlots_def childSlots.simps Node.case, simplified]
  wellFormed.simps [of "TryN p b cs f" for p b cs f, simplified wfLocal_def exprSlots_def childSlots.simps Node.case, simplified]
  wellFormed.simps [of "ThrowN p v" for p v, simplified wfLocal_def exprSlots_def childSlots.simps Node.case, simplified]
  wellFormed.simps [of "SuperN p q" for p q, simplified wfLocal_def exprSlots_def childSlots.simps Node.case, simplified]
  wellFormed.simps [of "ExtensionDefN p n t ms" for p n t ms, simplified wfLocal_def exprSlots_def childSlots.simps Node.case, simplified]
  wellFormed.simps [of "TypeDefN d" for d, simplified wfLocal_def exprSlots_def childSlots.simps Node.case, simplified]

lemmas core_node [simp] =
  core.simps [of "IntLitN p v f d b" for p v f d b, simplified coreLocal_def childSlots.simps Node.case, simplified]
  core.simps [of "FloatLitN p v t" for p v t, simplified coreLocal_def childSlots.simps Node.case, simplified]
  core.simps [of "StringLitN p v" for p v, simplified coreLocal_def childSlots.simps Node.case, simplified]
  core.simps [of "CharLitN p v" for p v, simplified coreLocal_def childSlots.simps Node.case, simplified]
  core.simps [of "BoolLitN p v" for p v, simplified coreLocal_def childSlots.simps Node.case, simplified]
  core.simps [of "NullLitN p" for p, simplified coreLocal_def childSlots.simps Node.case, simplified]
  core.simps [of "UnitLitN p" for p, simplified coreLocal_def childSlots.simps Node.case, simplified]
  core.simps [of "InterpStringN p i ls as ss" for p i ls as ss, simplified coreLocal_def childSlots.simps Node.case, simplified]
  core.simps [of "IdentN p n" for p n, simplified coreLocal_def childSlots.simps Node.case, simplified]
  core.simps [of "SelectN p q n" for p q n, simplified coreLocal_def childSlots.simps Node.case, simplified]
  core.simps [of "ApplyN p f as b w" for p f as b w, simplified coreLocal_def childSlots.simps Node.case, simplified]
  core.simps [of "TypeApplyN p f ts" for p f ts, simplified coreLocal_def childSlots.simps Node.case, simplified]
  core.simps [of "InfixN p l op r" for p l op r, simplified coreLocal_def childSlots.simps Node.case, simplified]
  core.simps [of "PrefixN p op e" for p op e, simplified coreLocal_def childSlots.simps Node.case, simplified]
  core.simps [of "AssignN p t v" for p t v, simplified coreLocal_def childSlots.simps Node.case, simplified]
  core.simps [of "IfN p c t e" for p c t e, simplified coreLocal_def childSlots.simps Node.case, simplified]
  core.simps [of "WhileN p c b" for p c b, simplified coreLocal_def childSlots.simps Node.case, simplified]
  core.simps [of "ReturnN p v" for p v, simplified coreLocal_def childSlots.simps Node.case, simplified]
  core.simps [of "BlockN p ss d" for p ss d, simplified coreLocal_def childSlots.simps Node.case, simplified]
  core.simps [of "LambdaN p ps b ow c" for p ps b ow c, simplified coreLocal_def childSlots.simps Node.case, simplified]
  core.simps [of "TypedN p e t" for p e t, simplified coreLocal_def childSlots.simps Node.case, simplified]
  core.simps [of "ParensN p e" for p e, simplified coreLocal_def childSlots.simps Node.case, simplified]
  core.simps [of "TupleN p es" for p es, simplified coreLocal_def childSlots.simps Node.case, simplified]
  core.simps [of "SpliceN p e" for p e, simplified coreLocal_def childSlots.simps Node.case, simplified]
  core.simps [of "NamedArgN p n v" for p n v, simplified coreLocal_def childSlots.simps Node.case, simplified]
  core.simps [of "ValDefN h r pt" for h r pt, simplified coreLocal_def childSlots.simps Node.case, simplified]
  core.simps [of "DefDefN h ls b" for h ls b, simplified coreLocal_def childSlots.simps Node.case, simplified]
  core.simps [of "ImportN d" for d, simplified coreLocal_def childSlots.simps Node.case, simplified]
  core.simps [of "TemplateDefN h ps prs ss cs" for h ps prs ss cs, simplified coreLocal_def childSlots.simps Node.case, simplified]
  core.simps [of "NewN p t as h" for p t as h, simplified coreLocal_def childSlots.simps Node.case, simplified]
  core.simps [of "MatchN p s cs" for p s cs, simplified coreLocal_def childSlots.simps Node.case, simplified]
  core.simps [of "ForN p es b y" for p es b y, simplified coreLocal_def childSlots.simps Node.case, simplified]
  core.simps [of "TryN p b cs f" for p b cs f, simplified coreLocal_def childSlots.simps Node.case, simplified]
  core.simps [of "ThrowN p v" for p v, simplified coreLocal_def childSlots.simps Node.case, simplified]
  core.simps [of "SuperN p q" for p q, simplified coreLocal_def childSlots.simps Node.case, simplified]
  core.simps [of "ExtensionDefN p n t ms" for p n t ms, simplified coreLocal_def childSlots.simps Node.case, simplified]
  core.simps [of "TypeDefN d" for d, simplified coreLocal_def childSlots.simps Node.case, simplified]

subsection \<open>The pieces of a comprehension are well formed\<close>

definition ready :: "Node \<Rightarrow> bool" where
  "ready n \<longleftrightarrow> wellFormed n \<and> \<not> isPatternVal n"

lemma list_all_ready: "list_all ready xs \<longleftrightarrow> list_all wellFormed xs \<and> list_all (\<lambda>c. \<not> isPatternVal c) xs"
  by (induction xs) (auto simp: ready_def)

lemma slot_simps [simp]: "slot None = []" "slot (Some x) = [x]"
  by (simp_all add: slot_def)

lemma takeParams_simps [simp]:
  "takeParams [] = []" "takeParams (p # ps) = slot (pa_default p) @ takeParams ps"
  by (simp_all add: takeParams_def)

lemma succeeds_fresh [simp]: "succeeds (fresh prefix) (\<lambda>_. True)" "succeeds (freshTemp prefix) (\<lambda>_. True)"
  by (simp_all add: succeeds_def fresh_def freshTemp_def)

lemma ready_call [simp]: "ready (call pos r name a) \<longleftrightarrow> ready r \<and> ready a"
  by (auto simp: ready_def call_def)

lemma succeeds_clonePattern: "simplePattern p \<Longrightarrow> succeeds (lift (clonePattern p)) (\<lambda>q. q = p)"
  by (rule succeeds_lift [where x = p]) (simp_all add: clonePattern_checked)

lemma succeeds_lambdaFor: "ready body \<Longrightarrow> succeeds (lambdaFor p body pos) ready"
  by (auto simp: lambdaFor_def ready_def intro!: succeeds_andThen [OF succeeds_fresh(1)])

lemma succeeds_matchesLambda: "simplePattern p \<Longrightarrow> succeeds (matchesLambda p pos) ready"
  unfolding matchesLambda_def
  by (intro succeeds_andThen [OF succeeds_fresh(1)] succeeds_andThen [OF succeeds_clonePattern])
    (simp_all add: ready_def)

lemma succeeds_boundName: "simplePattern p \<Longrightarrow> succeeds (boundName p) (\<lambda>(n, q). simplePattern q)"
  by (auto simp: boundName_def simplePattern_def intro!: succeeds_andThen [OF succeeds_fresh(1)])

definition genOK :: "Generator \<Rightarrow> bool" where
  "genOK g \<longleftrightarrow> simplePattern (gn_pattern g) \<and> ready (gn_source g)"

lemma succeeds_addGenerator:
  "simplePattern pat \<Longrightarrow> ready e \<Longrightarrow> succeeds (addGenerator pat e pos hasCase) genOK"
  by (auto simp: addGenerator_def genOK_def intro!: succeeds_andThen [OF succeeds_matchesLambda])

lemma succeeds_addGuard: "genOK g \<Longrightarrow> ready e \<Longrightarrow> succeeds (addGuard g e pos) genOK"
  unfolding addGuard_def
  by (intro succeeds_andThen [OF succeeds_clonePattern] succeeds_andThen [OF succeeds_lambdaFor])
    (auto simp: genOK_def)

lemma succeeds_valueDef: "simplePattern pat \<Longrightarrow> ready e \<Longrightarrow> succeeds (valueDef pat e pos) wellFormed"
  by (auto simp: valueDef_def ready_def intro!: succeeds_andThen [OF succeeds_clonePattern])

lemma succeeds_addValue:
  "genOK g \<Longrightarrow> simplePattern pat \<Longrightarrow> ready e \<Longrightarrow> succeeds (addValue g pat e pos) genOK"
  unfolding addValue_def genOK_def
  by (auto simp: simplePattern_def [of "Pattern _ _ _ _ _ _"] simplePattern_def [symmetric] ready_def call_def
      intro!: succeeds_andThen [OF succeeds_boundName] succeeds_andThen [OF succeeds_valueDef]
        succeeds_andThen [OF succeeds_clonePattern] succeeds_andThen [OF succeeds_lambdaFor])

lemma list_all_butlast: "list_all P xs \<Longrightarrow> list_all P (butlast xs)"
  by (auto simp: list_all_iff dest: in_set_butlastD)

lemma succeeds_addEnumerator:
  assumes "list_all genOK gens" "enumeratorOK en" "ready (en_expr en)" "gens \<noteq> [] \<or> en_kind en = EK_Generator"
  shows "succeeds (addEnumerator gens en) (\<lambda>gens'. gens' \<noteq> [] \<and> list_all genOK gens')"
proof -
  have "gens \<noteq> [] \<Longrightarrow> genOK (last gens)" using assms(1) by (simp add: list_all_iff)
  then show ?thesis
    using assms unfolding addEnumerator_def enumeratorOK_def
    by (auto split: EnumeratorKind.split option.split simp: list_all_butlast
        intro!: succeeds_andThen [OF succeeds_addGenerator] succeeds_andThen [OF succeeds_addGuard]
          succeeds_andThen [OF succeeds_addValue])
qed

lemma succeeds_addEnumerators:
  "list_all genOK gens \<Longrightarrow> gens \<noteq> [] \<Longrightarrow> list_all enumeratorOK ens \<Longrightarrow> list_all ready (map en_expr ens) \<Longrightarrow>
   succeeds (addEnumerators gens ens) (\<lambda>gens'. gens' \<noteq> [] \<and> list_all genOK gens')"
  by (induction ens arbitrary: gens) (auto intro!: succeeds_andThen [OF succeeds_addEnumerator])

lemma succeeds_foldCall: "genOK g \<Longrightarrow> ready inner \<Longrightarrow> succeeds (foldCall g m inner) ready"
  by (auto simp: foldCall_def genOK_def intro!: succeeds_andThen [OF succeeds_lambdaFor])

lemma succeeds_foldGenerators:
  "gens \<noteq> [] \<Longrightarrow> list_all genOK gens \<Longrightarrow> ready body \<Longrightarrow> succeeds (foldGenerators gens body y) ready"
  by (induction gens body y rule: foldGenerators.induct)
    (auto intro: succeeds_foldCall intro!: succeeds_andThen)

lemma succeeds_forExpr:
  assumes "wellFormed (ForN p es b y)"
  shows "succeeds (forExpr es b y) ready"
proof -
  obtain e rest where es: "es = e # rest" using assms by (cases es) auto
  have "succeeds (addEnumerators [] es) (\<lambda>gens. gens \<noteq> [] \<and> list_all genOK gens)"
    using assms unfolding es addEnumerators.simps
    by (intro succeeds_andThen [OF succeeds_addEnumerator] succeeds_addEnumerators)
      (auto simp: list_all_ready ready_def)
  then show ?thesis
    unfolding forExpr_def
    by (rule succeeds_andThen) (use assms in \<open>auto simp: ready_def intro: succeeds_foldGenerators\<close>)
qed

subsection \<open>The rewritten tree is core\<close>

lemma core_call [simp]: "core (call pos r name a) \<longleftrightarrow> core r \<and> core a"
  by (simp add: call_def)

lemma core_discardValue [simp]: "core (discardValue e) = core e"
  by (simp add: discardValue_def Let_def)

lemma core_widenToDouble [simp]: "core (widenToDouble e) = core e"
  by (simp add: widenToDouble_def Let_def)

lemma list_all_core_slot: "list_all core (slot (map_option f x)) = pred_option (\<lambda>a. core (f a)) x"
  by (cases x) simp_all

lemma core_discardReturnValues: "core n \<Longrightarrow> core (discardReturnValues n)"
proof (induction n rule: core.induct)
  case (1 n)
  then have "\<forall>c \<in> set (childSlots n). core (discardReturnValues c)"
    by (simp add: core.simps [of n] list_all_iff)
  with 1(2) show ?case
    by (cases n)
      (auto simp: list_all_iff valDefWith_def CaseDef.map_sel slot_map_option split: option.splits Node.splits)
qed

lemma core_curryLoop:
  "list_all core (slot body) \<Longrightarrow> list_all core (concat (map takeParams ls)) \<Longrightarrow>
   list_all core (slot (curryLoop pos b ls body))"
  by (induction pos b ls body rule: curryLoop.induct) auto

lemma core_finishDef:
  assumes "list_all core (concat (map takeParams ls))" "list_all core (slot body)"
  shows "core (finishDef h ls body)"
proof -
  have "list_all core (slot (defBody (dd_resultType h) body))"
    using assms(2) by (cases body) (auto simp: defBody_def core_discardReturnValues)
  with assms(1) show ?thesis
    unfolding finishDef_def core_node
    by (intro conjI core_curryLoop) (auto simp: list_all_iff dest: in_set_takeD in_set_dropD)
qed

lemma core_finish:
  "core e \<Longrightarrow> core (finishTyped t e)"
  "list_all core (slot r) \<Longrightarrow> list_all core (slot (finishVal h r))"
  "core c \<Longrightarrow> core e \<Longrightarrow> list_all core (slot x) \<Longrightarrow> core (finishIf p c e x)"
  "list_all core as \<Longrightarrow> core (finishInterp p i ls as ss)"
  by (cases r; cases x; auto simp: finishTyped_def finishVal_def finishIf_def finishInterp_def list_all_iff)+

lemma simplePath_simpleExpr: "isSimplePath q \<Longrightarrow> simpleExpr q"
  by (induction q rule: isSimplePath.induct) simp_all

lemma succeeds_infixNode:
  assumes "core l" "core r"
  shows "succeeds (infixNode p l op r) core"
proof -
  have "succeeds (assignOp p l op r) core"
    using assms
    by (auto simp: assignOp_def Let_def cloneSimpleExpr_exact simplePath_simpleExpr split: Node.split
        intro!: succeeds_andThen [OF succeeds_lift [where P = "\<lambda>x. core x"]])
  with assms show ?thesis
    by (auto simp: infixNode_def intro!: succeeds_andThen [OF succeeds_fresh(2)])
qed

subsection \<open>Sequencing\<close>

text \<open>\<open>good k\<close>: the contract holds for the trees below weight \<open>k\<close>.\<close>

definition good :: "nat \<Rightarrow> bool" where
  "good k \<longleftrightarrow> (\<forall>m. ready m \<and> weight m < k \<longrightarrow> succeeds (expr m) core)"

lemma good_expr: "good k \<Longrightarrow> ready m \<Longrightarrow> weight m < k \<Longrightarrow> succeeds (expr m) core"
  by (simp add: good_def)

lemma good_list:
  assumes "good k" "list_all wellFormed ms" "list_all (\<lambda>c. \<not> isPatternVal c) ms"
    "sum_list (map weight ms) < k"
  shows "succeeds (mapA expr ms) (list_all core)"
  by (rule succeeds_mono [OF succeeds_mapA [where P = core]])
    (use assms in \<open>auto simp: list_all_iff ready_def intro!: good_expr [of k] dest: weight_in_list\<close>)

lemma good_option:
  assumes "good k" "list_all wellFormed (slot x)" "list_all (\<lambda>c. \<not> isPatternVal c) (slot x)"
    "optWeight (map_option weight x) < k"
  shows "succeeds (optionA expr x) (\<lambda>y. (y = None) = (x = None) \<and> list_all core (slot y))"
  by (rule succeeds_mono [OF succeeds_optionA [where P = core]])
    (use assms in \<open>auto simp: list_all_iff ready_def intro: good_expr\<close>)

lemma optWeight_ge:
  "p \<in> set ps \<Longrightarrow> optWeight (map_option weight (pa_default p)) \<le> paramsWeight (map (map_Param weight) ps)"
  "c \<in> set cs \<Longrightarrow> optWeight (map_option weight (cd_guard c)) \<le> casesWeight (map (map_CaseDef id weight) cs)"
  by (auto simp: optWeight_def split: option.split dest: paramsWeight_ge casesWeight_ge(1))

lemma good_params:
  assumes "good k" "list_all wellFormed (takeParams ps)" "list_all (\<lambda>c. \<not> isPatternVal c) (takeParams ps)"
    "paramsWeight (map (map_Param weight) ps) < k"
  shows "succeeds (mapA (paramA expr) ps) (\<lambda>ps'. list_all core (takeParams ps'))"
proof -
  have "succeeds (paramA expr p) (\<lambda>p. list_all core (slot (pa_default p)))" if "p \<in> set ps" for p
    unfolding paramA_def using assms that optWeight_ge(1) [OF that]
    by (intro succeeds_andThen [OF good_option]) (auto simp: takeParams_def list_all_iff)
  then show ?thesis
    by (rule succeeds_mono [OF succeeds_mapA]) (auto simp: takeParams_def list_all_iff)
qed

lemma good_paramLists:
  assumes "good k" "list_all wellFormed (concat (map takeParams ls))"
    "list_all (\<lambda>c. \<not> isPatternVal c) (concat (map takeParams ls))"
    "sum_list (map (paramsWeight \<circ> map (map_Param weight)) ls) < k"
  shows "succeeds (mapA (mapA (paramA expr)) ls) (\<lambda>ls'. list_all core (concat (map takeParams ls')))"
proof -
  have "succeeds (mapA (paramA expr) ps) (\<lambda>ps. list_all core (takeParams ps))" if "ps \<in> set ls" for ps
    using assms that sum_list_ge [OF that, of _ "paramsWeight \<circ> map (map_Param weight)", OF order.refl]
    by (intro good_params [of k]) (auto simp: list_all_iff)
  then show ?thesis
    by (rule succeeds_mono [OF succeeds_mapA]) (auto simp: list_all_iff)
qed

lemma good_cases:
  assumes "good k" "list_all wellFormed (concat (map (\<lambda>c. slot (cd_guard c) @ [cd_body c]) cs))"
    "list_all (\<lambda>c. \<not> isPatternVal c) (concat (map (\<lambda>c. slot (cd_guard c) @ [cd_body c]) cs))"
    "casesWeight (map (map_CaseDef id weight) cs) < k"
  shows "succeeds (mapA (caseA expr) cs)
     (\<lambda>cs'. list_all core (concat (map (\<lambda>c. slot (cd_guard c) @ [cd_body c]) cs')))"
proof -
  have "succeeds (caseA expr c) (\<lambda>c. list_all core (slot (cd_guard c) @ [cd_body c]))" if "c \<in> set cs" for c
    unfolding caseA_def using assms that casesWeight_ge(2) [OF that] optWeight_ge(2) [OF that]
    by (intro succeeds_andThen [OF good_option] succeeds_andThen [OF good_expr])
      (auto simp: list_all_iff ready_def)
  then show ?thesis
    by (rule succeeds_mono [OF succeeds_mapA]) (auto simp: list_all_iff)
qed

lemma good_parents:
  assumes "good k" "list_all wellFormed (concat (map pr_args prs))"
    "list_all (\<lambda>c. \<not> isPatternVal c) (concat (map pr_args prs))"
    "sum_list (map ((\<lambda>p. sum_list (pr_args p)) \<circ> map_ParentRef weight) prs) < k"
  shows "succeeds (mapA (parentA expr) prs) (\<lambda>prs'. list_all core (concat (map pr_args prs')))"
proof -
  have "succeeds (parentA expr p) (\<lambda>p. list_all core (pr_args p))" if "p \<in> set prs" for p
    unfolding parentA_def
    using assms that sum_list_ge [OF that, of _ "(\<lambda>p. sum_list (pr_args p)) \<circ> map_ParentRef weight", OF order.refl]
    by (intro succeeds_andThen [OF good_list]) (auto simp: list_all_iff ParentRef.map_sel)
  then show ?thesis
    by (rule succeeds_mono [OF succeeds_mapA]) (auto simp: list_all_iff)
qed

lemma succeeds_expandStat: "wellFormed n \<Longrightarrow> succeeds (expandStat n) (list_all ready)"
  by (auto simp: expandStat_def expandPatternVal_def expandedVal_def selectVals_def Let_def ready_def
      boundTuple_def list_all_iff split: Node.split option.split list.split
      intro!: succeeds_andThen [OF succeeds_fresh(2)])

lemma succeeds_expandPatternVals:
  "list_all wellFormed ss \<Longrightarrow> succeeds (expandPatternVals ss) (list_all ready)"
  unfolding expandPatternVals_def
  by (rule succeeds_andThen [OF succeeds_mapA [where P = "list_all ready"]], rule succeeds_expandStat)
    (auto simp: list_all_iff)

lemma good_stats:
  assumes "good k" "list_all wellFormed ss" "sum_list (map weight ss) < k"
    "\<And>ss2. list_all core ss2 \<Longrightarrow> succeeds (g ss2) P"
  shows "succeeds (andThen (expandPatternVals ss) (\<lambda>ss1. andThen (mapA expr ss1) g)) P"
proof (rule succeeds_andThen)
  show "succeeds (expandPatternVals ss)
      (\<lambda>ss'. list_all ready ss' \<and> (\<forall>m \<in> set ss'. weight m \<le> sum_list (map weight ss)))"
    using assms(2) by (intro succeeds_conj succeeds_expandPatternVals) (auto dest: expandPatternVals_weight)
next
  fix ss' assume "list_all ready ss' \<and> (\<forall>m \<in> set ss'. weight m \<le> sum_list (map weight ss))"
  then have "succeeds (mapA expr ss') (\<lambda>ys. length ys = length ss' \<and> list_all core ys)"
    using assms(1,3) by (intro succeeds_mapA good_expr [of k]) (auto simp: list_all_iff)
  then show "succeeds (andThen (mapA expr ss') g) P"
    by (rule succeeds_andThen) (simp add: assms(4))
qed

lemma good_for:
  assumes "good (weight (ForN p es b y))" "wellFormed (ForN p es b y)"
  shows "succeeds (andThen (forExpr es b y) expr) core"
proof (rule succeeds_andThen)
  show "succeeds (forExpr es b y) (\<lambda>n. ready n \<and> weight n < weight (ForN p es b y))"
    using assms(2) by (intro succeeds_conj succeeds_forExpr forExpr_weight)
next
  fix n assume "ready n \<and> weight n < weight (ForN p es b y)"
  then show "succeeds (expr n) core" using good_expr [OF assms(1)] by blast
qed

lemma good_assign:
  assumes "good (weight (AssignN p t v))" "wellFormed (AssignN p t v)"
  shows "succeeds (expr (AssignN p t v)) core"
proof (cases "assignRewrite p t v")
  case (Some n)
  moreover from this assms(2) have "ready n"
    by (auto simp: assignRewrite_def ready_def call_def split: Node.splits)
  moreover from Some have "weight n < weight (AssignN p t v)" using assignRewrite_weight [of p t v] by simp
  ultimately show ?thesis using good_expr [OF assms(1)] by (simp add: succeeds_def expr.simps)
next
  case None
  with assms(2) obtain q name where t: "t = IdentN q name"
    by (auto simp: assignRewrite_def assignable_def split: Node.splits)
  have "succeeds (andThen (expr v) (\<lambda>v'. ret (AssignN p t v'))) core"
    using assms by (intro succeeds_andThen [OF good_expr [OF assms(1)]]) (auto simp: t ready_def)
  with None t show ?thesis by (simp add: succeeds_def expr.simps)
qed

subsection \<open>The contract\<close>

lemmas expr_fun =
  ext [OF expr.simps(1)] ext [OF expr.simps(2)] ext [OF expr.simps(3)] ext [OF expr.simps(4)]
  ext [OF expr.simps(5)] ext [OF expr.simps(6)] ext [OF expr.simps(7)] ext [OF expr.simps(8)]
  ext [OF expr.simps(9)] ext [OF expr.simps(10)] ext [OF expr.simps(11)] ext [OF expr.simps(12)]
  ext [OF expr.simps(13)] ext [OF expr.simps(14)] ext [OF expr.simps(15)] ext [OF expr.simps(16)]
  ext [OF expr.simps(17)] ext [OF expr.simps(18)] ext [OF expr.simps(19)] ext [OF expr.simps(20)]
  ext [OF expr.simps(21)] ext [OF expr.simps(22)] ext [OF expr.simps(23)] ext [OF expr.simps(24)]
  ext [OF expr.simps(25)] ext [OF expr.simps(26)] ext [OF expr.simps(27)] ext [OF expr.simps(28)]
  ext [OF expr.simps(29)] ext [OF expr.simps(30)] ext [OF expr.simps(31)] ext [OF expr.simps(32)]
  ext [OF expr.simps(33)] ext [OF expr.simps(34)] ext [OF expr.simps(35)] ext [OF expr.simps(36)]
  ext [OF expr.simps(37)]

lemmas good_bind =
  succeeds_andThen [OF good_expr] succeeds_andThen [OF good_list] succeeds_andThen [OF good_option]
  succeeds_andThen [OF good_params] succeeds_andThen [OF good_paramLists]
  succeeds_andThen [OF good_cases] succeeds_andThen [OF good_parents]

lemma good_step:
  assumes "good (weight n)" "ready n"
  shows "succeeds (expr n) core"
proof (cases n)
  case (AssignN p t v)
  with assms show ?thesis by (simp add: good_assign ready_def)
next
  case (ForN p es b y)
  with assms show ?thesis by (simp only: expr_fun) (simp add: good_for ready_def)
qed (use assms in \<open>simp only: expr_fun; (auto simp: ready_def intro!: good_bind good_stats
    succeeds_infixNode core_finish core_finishDef intro: good_expr)?\<close>)+

lemma expr_succeeds: "ready n \<Longrightarrow> succeeds (expr n) core"
proof (induction "weight n" arbitrary: n rule: less_induct)
  case less
  then have "good (weight n)" by (simp add: good_def)
  with less.prems show ?case by (simp add: good_step)
qed

definition stats :: "Node list \<Rightarrow> Node list desugaring" where
  "stats ss = andThen (expandPatternVals ss) (mapA expr)"

lemma stats_succeeds: "list_all wellFormed ss \<Longrightarrow> succeeds (stats ss) (list_all core)"
  unfolding stats_def
  by (rule succeeds_andThen [OF succeeds_expandPatternVals], assumption,
      rule succeeds_mono [OF succeeds_mapA [where P = core]])
    (auto simp: list_all_iff intro: expr_succeeds)

definition desugarExpr :: "Node \<Rightarrow> FrontendError + Node" where
  "desugarExpr e = (case expr e newDesugarer of Inl err \<Rightarrow> Inl err | Inr (n, s) \<Rightarrow> Inr n)"

text \<open>
  C23: on a well-formed tree, one of the form the parser produces in which every enumeration has been
  expanded, and which is not itself a pattern definition, the desugarer terminates, fails with no internal
  error and reads no null pointer, and its result consists of the core forms the compiler
  understands: no infix or prefix operator, parenthesis, ascription, comprehension, pattern
  definition or foreign interpolator is left, every conditional has both branches, every method at
  most one parameter list, and an assignment goes to a plain name.
\<close>

theorem desugarExpr_core:
  assumes "wellFormed n" "\<not> isPatternVal n"
  shows "\<exists>n'. desugarExpr n = Inr n' \<and> core n'"
proof -
  from assms have "succeeds (expr n) core" by (simp add: expr_succeeds ready_def)
  then obtain n' s where "expr n newDesugarer = Inr (n', s)" "core n'" by (meson succeedsD)
  then show ?thesis by (simp add: desugarExpr_def)
qed

theorem desugarExpr_core_witness:
  "let x = Pattern PK_Tuple startPos [] None None
             [Pattern PK_Var startPos ''a'' None None [], Pattern PK_Literal startPos [] (Some (NullLitN startPos)) None []];
       n = ForN startPos
             [Enumerator EK_Generator (Some x) (IdentN startPos ''xs'') startPos False,
              Enumerator EK_Guard None (InfixN startPos (IdentN startPos ''a'') ''<'' (IdentN startPos ''b'')) startPos False]
             (ParensN startPos (IdentN startPos ''a'')) True
   in wellFormed n \<and> \<not> isPatternVal n \<and> (\<exists>n'. desugarExpr n = Inr n' \<and> core n')"
  unfolding Let_def
  by (intro conjI desugarExpr_core) (simp_all add: enumeratorOK_def simplePattern_def)

text \<open>
  A member declared without a body but with two parameter lists is given one: the lists become a
  lambda whose own body is missing, so that the member is no longer abstract, although the tree
  documents an absent body as the mark of an abstract member.
\<close>

theorem curried_abstract_gets_body:
  "desugarExpr (DefDefN (newDefDef pos name) [[], []] None) =
     Inr (DefDefN ((newDefDef pos name)\<lparr>dd_curried := True\<rparr>) [[]] (Some (LambdaN pos [] None True True)))"
  by (simp add: desugarExpr_def expr.simps optionA_def finishDef_def defBody_def newDefDef_def isUnitType_def
      isDoubleTypeName_def)

text \<open>
  In a method declared \<^verbatim>\<open>: Unit\<close> the value of a \<^verbatim>\<open>return\<close> is discarded when the \<^verbatim>\<open>return\<close> stands in a
  tuple, but not when it stands in a hole of an interpolated string.
\<close>

theorem hole_return_keeps_value:
  "let h = (newDefDef p name)\<lparr>dd_resultType := Some (nameType ''Unit'' p)\<rparr>;
       ret1 = ReturnN p (Some (IntLitN p 1 True [] 10));
       unit1 = ReturnN p (Some (BlockN p [IntLitN p 1 True [] 10, UnitLitN p] True))
   in desugarExpr (DefDefN h [] (Some (TupleN p [ret1]))) =
        Inr (DefDefN h [] (Some (BlockN p [TupleN p [unit1], UnitLitN p] True))) \<and>
      desugarExpr (DefDefN h [] (Some (InterpStringN p ''s'' ls [ret1] ss))) =
        Inr (DefDefN h [] (Some (BlockN p [InterpStringN p ''s'' ls [ret1] ss, UnitLitN p] True)))"
  by (simp add: desugarExpr_def expr.simps optionA_def finishDef_def defBody_def newDefDef_def isUnitType_def
      nameType_def finishInterp_def discardValue_def yieldsUnit.simps Let_def)

end
