(* ===== verification/ParsedTree.thy ===== *)
theory ParsedTree
  imports DesugarCore Operators
begin

text \<open>
  The trees the parser hands to the desugarer, as the comments of \<^verbatim>\<open>src/src/frontend/AST.h\<close> and the
  code of \<^verbatim>\<open>src/src/frontend/Desugar.cpp\<close> rely on them.  \<open>parsedTree\<close> is established by the parser
  (\<open>ParserTotal\<close>) and used by the desugarer (\<open>DesugarPipeline\<close>).
\<close>

subsection \<open>Operands and their operators\<close>

definition infixOp :: "Node \<Rightarrow> byte_string option" where
  "infixOp n = (case n of InfixN _ _ op _ \<Rightarrow> Some op | _ \<Rightarrow> None)"

text \<open>
  \<open>leftFits op l\<close>: an infix expression that stands, without parentheses, to the left of \<open>op\<close> binds
  tighter, or equally tight with both operators left-associative; \<open>rightFits\<close> dually.
\<close>

definition leftFits :: "byte_string \<Rightarrow> Node \<Rightarrow> bool" where
  "leftFits op l =
     (case infixOp l of
        None \<Rightarrow> True
      | Some op1 \<Rightarrow> precedence op < precedence op1 \<or>
          (precedence op = precedence op1 \<and> \<not> isRightAssociative op \<and> \<not> isRightAssociative op1))"

definition rightFits :: "byte_string \<Rightarrow> Node \<Rightarrow> bool" where
  "rightFits op r =
     (case infixOp r of
        None \<Rightarrow> True
      | Some op1 \<Rightarrow> precedence op < precedence op1 \<or>
          (precedence op = precedence op1 \<and> isRightAssociative op \<and> isRightAssociative op1))"

subsection \<open>Trees from the parser\<close>

text \<open>
  Operands fit their operators; a for-comprehension starts with a generator; the target of an
  assignment can be assigned; a pattern holds literals and paths only; a pattern definition has a
  right-hand side; a template has cases exactly when it is an enumeration.
\<close>

definition parsedLocal :: "Node \<Rightarrow> bool" where
  "parsedLocal n =
     (case n of
        InfixN p l op r \<Rightarrow> leftFits op l \<and> rightFits op r
      | MatchN p s cs \<Rightarrow> list_all (\<lambda>c. simplePattern (cd_pattern c)) cs
      | TryN p b cs f \<Rightarrow> list_all (\<lambda>c. simplePattern (cd_pattern c)) cs
      | ValDefN h r pt \<Rightarrow> pred_option simplePattern pt \<and> (pt \<noteq> None \<longrightarrow> r \<noteq> None)
      | TemplateDefN h ps prs ss cs \<Rightarrow> (td_kind h = TM_Enum) = (cs \<noteq> [])
      | _ \<Rightarrow> wfLocal n)"

definition caseSlots :: "Node \<Rightarrow> Node list" where
  "caseSlots n =
     (case n of
        TemplateDefN h ps prs ss cs \<Rightarrow> concat (map (\<lambda>c. takeParams (ec_params c) @ ec_parentArgs c) cs)
      | _ \<Rightarrow> [])"

function parsedTree :: "Node \<Rightarrow> bool" where
  "parsedTree n =
     (parsedLocal n \<and> list_all (\<lambda>c. \<not> isPatternVal c) (exprSlots n @ caseSlots n) \<and>
      list_all parsedTree (childSlots n))"
  by auto
termination
  by (relation "measure size") (auto dest: childSlots_size)

declare parsedTree.simps [simp del]

lemmas parsedTree_node [simp] =
  parsedTree.simps [of "IntLitN p v f d b" for p v f d b, simplified parsedLocal_def wfLocal_def exprSlots_def caseSlots_def childSlots.simps Node.case, simplified]
  parsedTree.simps [of "FloatLitN p v t" for p v t, simplified parsedLocal_def wfLocal_def exprSlots_def caseSlots_def childSlots.simps Node.case, simplified]
  parsedTree.simps [of "StringLitN p v" for p v, simplified parsedLocal_def wfLocal_def exprSlots_def caseSlots_def childSlots.simps Node.case, simplified]
  parsedTree.simps [of "CharLitN p v" for p v, simplified parsedLocal_def wfLocal_def exprSlots_def caseSlots_def childSlots.simps Node.case, simplified]
  parsedTree.simps [of "BoolLitN p v" for p v, simplified parsedLocal_def wfLocal_def exprSlots_def caseSlots_def childSlots.simps Node.case, simplified]
  parsedTree.simps [of "NullLitN p" for p, simplified parsedLocal_def wfLocal_def exprSlots_def caseSlots_def childSlots.simps Node.case, simplified]
  parsedTree.simps [of "UnitLitN p" for p, simplified parsedLocal_def wfLocal_def exprSlots_def caseSlots_def childSlots.simps Node.case, simplified]
  parsedTree.simps [of "InterpStringN p i ls as ss" for p i ls as ss, simplified parsedLocal_def wfLocal_def exprSlots_def caseSlots_def childSlots.simps Node.case, simplified]
  parsedTree.simps [of "IdentN p n" for p n, simplified parsedLocal_def wfLocal_def exprSlots_def caseSlots_def childSlots.simps Node.case, simplified]
  parsedTree.simps [of "SelectN p q n" for p q n, simplified parsedLocal_def wfLocal_def exprSlots_def caseSlots_def childSlots.simps Node.case, simplified]
  parsedTree.simps [of "ApplyN p f as b w" for p f as b w, simplified parsedLocal_def wfLocal_def exprSlots_def caseSlots_def childSlots.simps Node.case, simplified]
  parsedTree.simps [of "TypeApplyN p f ts" for p f ts, simplified parsedLocal_def wfLocal_def exprSlots_def caseSlots_def childSlots.simps Node.case, simplified]
  parsedTree.simps [of "InfixN p l op r" for p l op r, simplified parsedLocal_def wfLocal_def exprSlots_def caseSlots_def childSlots.simps Node.case, simplified]
  parsedTree.simps [of "PrefixN p op e" for p op e, simplified parsedLocal_def wfLocal_def exprSlots_def caseSlots_def childSlots.simps Node.case, simplified]
  parsedTree.simps [of "AssignN p t v" for p t v, simplified parsedLocal_def wfLocal_def exprSlots_def caseSlots_def childSlots.simps Node.case, simplified]
  parsedTree.simps [of "IfN p c t e" for p c t e, simplified parsedLocal_def wfLocal_def exprSlots_def caseSlots_def childSlots.simps Node.case, simplified]
  parsedTree.simps [of "WhileN p c b" for p c b, simplified parsedLocal_def wfLocal_def exprSlots_def caseSlots_def childSlots.simps Node.case, simplified]
  parsedTree.simps [of "ReturnN p v" for p v, simplified parsedLocal_def wfLocal_def exprSlots_def caseSlots_def childSlots.simps Node.case, simplified]
  parsedTree.simps [of "BlockN p ss d" for p ss d, simplified parsedLocal_def wfLocal_def exprSlots_def caseSlots_def childSlots.simps Node.case, simplified]
  parsedTree.simps [of "LambdaN p ps b ow c" for p ps b ow c, simplified parsedLocal_def wfLocal_def exprSlots_def caseSlots_def childSlots.simps Node.case, simplified]
  parsedTree.simps [of "TypedN p e t" for p e t, simplified parsedLocal_def wfLocal_def exprSlots_def caseSlots_def childSlots.simps Node.case, simplified]
  parsedTree.simps [of "ParensN p e" for p e, simplified parsedLocal_def wfLocal_def exprSlots_def caseSlots_def childSlots.simps Node.case, simplified]
  parsedTree.simps [of "TupleN p es" for p es, simplified parsedLocal_def wfLocal_def exprSlots_def caseSlots_def childSlots.simps Node.case, simplified]
  parsedTree.simps [of "SpliceN p e" for p e, simplified parsedLocal_def wfLocal_def exprSlots_def caseSlots_def childSlots.simps Node.case, simplified]
  parsedTree.simps [of "NamedArgN p n v" for p n v, simplified parsedLocal_def wfLocal_def exprSlots_def caseSlots_def childSlots.simps Node.case, simplified]
  parsedTree.simps [of "ValDefN h r pt" for h r pt, simplified parsedLocal_def wfLocal_def exprSlots_def caseSlots_def childSlots.simps Node.case, simplified]
  parsedTree.simps [of "DefDefN h ls b" for h ls b, simplified parsedLocal_def wfLocal_def exprSlots_def caseSlots_def childSlots.simps Node.case, simplified]
  parsedTree.simps [of "ImportN d" for d, simplified parsedLocal_def wfLocal_def exprSlots_def caseSlots_def childSlots.simps Node.case, simplified]
  parsedTree.simps [of "TemplateDefN h ps prs ss cs" for h ps prs ss cs, simplified parsedLocal_def wfLocal_def exprSlots_def caseSlots_def childSlots.simps Node.case, simplified]
  parsedTree.simps [of "NewN p t as h" for p t as h, simplified parsedLocal_def wfLocal_def exprSlots_def caseSlots_def childSlots.simps Node.case, simplified]
  parsedTree.simps [of "MatchN p s cs" for p s cs, simplified parsedLocal_def wfLocal_def exprSlots_def caseSlots_def childSlots.simps Node.case, simplified]
  parsedTree.simps [of "ForN p es b y" for p es b y, simplified parsedLocal_def wfLocal_def exprSlots_def caseSlots_def childSlots.simps Node.case, simplified]
  parsedTree.simps [of "TryN p b cs f" for p b cs f, simplified parsedLocal_def wfLocal_def exprSlots_def caseSlots_def childSlots.simps Node.case, simplified]
  parsedTree.simps [of "ThrowN p v" for p v, simplified parsedLocal_def wfLocal_def exprSlots_def caseSlots_def childSlots.simps Node.case, simplified]
  parsedTree.simps [of "SuperN p q" for p q, simplified parsedLocal_def wfLocal_def exprSlots_def caseSlots_def childSlots.simps Node.case, simplified]
  parsedTree.simps [of "ExtensionDefN p n t ms" for p n t ms, simplified parsedLocal_def wfLocal_def exprSlots_def caseSlots_def childSlots.simps Node.case, simplified]
  parsedTree.simps [of "TypeDefN d" for d, simplified parsedLocal_def wfLocal_def exprSlots_def caseSlots_def childSlots.simps Node.case, simplified]

text \<open>No enumeration is left anywhere.\<close>

function enumFree :: "Node \<Rightarrow> bool" where
  "enumFree n =
     ((case n of TemplateDefN h ps prs ss cs \<Rightarrow> td_kind h \<noteq> TM_Enum | _ \<Rightarrow> True) \<and>
      list_all enumFree (childSlots n))"
  by auto
termination
  by (relation "measure size") (auto dest: childSlots_size)

declare enumFree.simps [simp del]

lemma parsedTree_wellFormed: "parsedTree n \<Longrightarrow> enumFree n \<Longrightarrow> wellFormed n"
proof (induction n rule: wellFormed.induct)
  case (1 n)
  from 1(2,3) have "parsedLocal n" "case n of TemplateDefN h ps prs ss cs \<Rightarrow> td_kind h \<noteq> TM_Enum | _ \<Rightarrow> True"
    by (simp_all add: parsedTree.simps [of n] enumFree.simps [of n])
  then have "wfLocal n"
    by (cases n) (auto simp: parsedLocal_def wfLocal_def)
  with 1 show ?case
    by (simp add: wellFormed.simps [of n] parsedTree.simps [of n] enumFree.simps [of n] list_all_iff)
qed

subsection \<open>Rebasing\<close>

lemma isPatternVal_mapSlots [simp]: "isPatternVal (mapSlots f n) = isPatternVal n"
  by (cases n) simp_all

lemma isPatternVal_setPos [simp]: "isPatternVal (setPos at n) = isPatternVal n"
  by (cases n) simp_all

lemma isPatternVal_rebase [simp]: "isPatternVal (rebase at n) = isPatternVal n"
  by (simp add: rebase.simps)

lemma assignable_rebase [simp]: "assignable (rebase at n) = assignable n"
  by (cases n) (simp_all add: rebase.simps [of at "_ :: Node"] assignable_def)

lemma exprSlots_mapSlots: "exprSlots (mapSlots f n) = map f (exprSlots n)"
  by (cases n)
    (simp_all add: exprSlots_def takeParams_map slot_map_option map_concat comp_def mapCase_def
      mapEnumerator_def CaseDef.map_sel Enumerator.map_sel ParentRef.map_sel)

lemma exprSlots_setPos [simp]: "exprSlots (setPos at n) = exprSlots n"
  by (cases n) (simp_all add: exprSlots_def)

lemma enumeratorOK_map [simp]: "enumeratorOK (mapEnumerator f e) = enumeratorOK e"
  by (cases e) (simp add: enumeratorOK_def mapEnumerator_def option.map_id split: option.split)

lemma infixOp_rebase [simp]: "infixOp (rebase at n) = infixOp n"
  by (cases n) (simp_all add: rebase.simps [of at "_ :: Node"] infixOp_def)

lemma fits_rebase [simp]: "leftFits op (rebase at n) = leftFits op n" "rightFits op (rebase at n) = rightFits op n"
  by (simp_all add: leftFits_def rightFits_def)

lemma wfLocal_slots: "wfLocal (mapSlots (rebase at) (setPos at n)) = wfLocal n"
proof (cases n)
  case (ForN p es b y)
  then show ?thesis
    by (cases es) (simp_all add: wfLocal_def mapEnumerator_def Enumerator.map_sel list_all_iff
        enumeratorOK_map [unfolded mapEnumerator_def])
qed (simp_all add: wfLocal_def)

lemma wfLocal_rebase: "wfLocal (rebase at n) = wfLocal n"
  using wfLocal_slots [of at n] by (simp add: rebase.simps [of at n])

lemma parsedLocal_slots: "parsedLocal (mapSlots (rebase at) (setPos at n)) = parsedLocal n"
  using wfLocal_slots [of at n]
  by (cases n) (simp_all add: parsedLocal_def wfLocal_def list_all_iff mapCase_def CaseDef.map_sel)

lemma caseSlots_mapSlots: "caseSlots (mapSlots f (setPos at n)) = map f (caseSlots n)"
  by (cases n) (simp_all add: caseSlots_def takeParams_map map_concat comp_def EnumCase.map_sel)

lemma parsedTree_rebase [simp]: "parsedTree (rebase at n) = parsedTree n"
proof (induction n rule: parsedTree.induct)
  case (1 n)
  have "exprSlots (rebase at n) = map (rebase at) (exprSlots n)"
    "caseSlots (rebase at n) = map (rebase at) (caseSlots n)"
    "childSlots (rebase at n) = map (rebase at) (childSlots n)"
    "parsedLocal (rebase at n) = parsedLocal n"
    using parsedLocal_slots [of at n]
    by (simp_all add: rebase.simps [of at n] exprSlots_mapSlots childSlots_mapSlots caseSlots_mapSlots)
  with 1 show ?case
    by (simp add: parsedTree.simps [of n] parsedTree.simps [of "rebase at n"] list_all_iff ball_Un)
qed

end
