(* ===== verification/ParserShape.thy ===== *)
theory ParserShape
  imports ParserLogic ParsedTree
begin

text \<open>
  What the parser builds.  A predicate on trees that is closed under the ways the grammar puts trees
  together (the locale \<open>parsed_trees\<close>) holds of every tree the parser returns; the same walk over the
  grammar shows that the recursion bound is never exhausted, that the parser only moves forward,
  and that infix expressions come out with their operands in the order of the precedences.
\<close>

subsection \<open>The parts of a tree\<close>

definition plain :: "(Node \<Rightarrow> bool) \<Rightarrow> Node \<Rightarrow> bool" where
  "plain ok n \<longleftrightarrow> ok n \<and> \<not> isPatternVal n"

definition paramOK :: "(Node \<Rightarrow> bool) \<Rightarrow> Node Param \<Rightarrow> bool" where
  "paramOK ok p \<longleftrightarrow> pred_option (plain ok) (pa_default p)"

definition caseOK :: "(Node \<Rightarrow> bool) \<Rightarrow> (Node Pattern, Node) CaseDef \<Rightarrow> bool" where
  "caseOK ok c \<longleftrightarrow> simplePattern (cd_pattern c) \<and> pred_option (plain ok) (cd_guard c) \<and> plain ok (cd_body c)"

definition enumOK :: "(Node \<Rightarrow> bool) \<Rightarrow> (Node Pattern, Node) Enumerator \<Rightarrow> bool" where
  "enumOK ok e \<longleftrightarrow>
     pred_option simplePattern (en_pattern e) \<and> (en_pattern e = None) = (en_kind e = EK_Guard) \<and> plain ok (en_expr e)"

definition enumsOK :: "(Node \<Rightarrow> bool) \<Rightarrow> (Node Pattern, Node) Enumerator list \<Rightarrow> bool" where
  "enumsOK ok es \<longleftrightarrow> es \<noteq> [] \<and> en_kind (hd es) = EK_Generator \<and> list_all (enumOK ok) es"

definition parentOK :: "(Node \<Rightarrow> bool) \<Rightarrow> Node ParentRef \<Rightarrow> bool" where
  "parentOK ok p \<longleftrightarrow> list_all (plain ok) (pr_args p)"

definition enumCaseFits :: "(Node \<Rightarrow> bool) \<Rightarrow> Node EnumCase \<Rightarrow> bool" where
  "enumCaseFits ok c \<longleftrightarrow> list_all (paramOK ok) (ec_params c) \<and> list_all (plain ok) (ec_parentArgs c)"

locale parsed_trees =
  fixes ok :: "Node \<Rightarrow> bool"
  assumes ok_int [simp]: "ok (IntLitN p v f d b)"
    and ok_float [simp]: "ok (FloatLitN p w t)"
    and ok_string [simp]: "ok (StringLitN p t)"
    and ok_char [simp]: "ok (CharLitN p c)"
    and ok_bool [simp]: "ok (BoolLitN p f)"
    and ok_null [simp]: "ok (NullLitN p)"
    and ok_unit [simp]: "ok (UnitLitN p)"
    and ok_ident [simp]: "ok (IdentN p t)"
    and ok_super [simp]: "ok (SuperN p t)"
    and ok_import [simp]: "ok (ImportN im)"
    and ok_typeDef [simp]: "ok (TypeDefN ty)"
    and ok_interp: "list_all (plain ok) as \<Longrightarrow> ok (InterpStringN p i ls as ss)"
    and ok_select: "plain ok q \<Longrightarrow> ok (SelectN p q n)"
    and ok_apply: "plain ok fn \<Longrightarrow> list_all (plain ok) as \<Longrightarrow> ok (ApplyN p fn as f g)"
    and ok_typeApply: "plain ok fn \<Longrightarrow> ok (TypeApplyN p fn ts)"
    and ok_infix: "plain ok l \<Longrightarrow> plain ok r \<Longrightarrow> leftFits op l \<Longrightarrow> rightFits op r \<Longrightarrow> ok (InfixN p l op r)"
    and ok_prefix: "plain ok e \<Longrightarrow> ok (PrefixN p op e)"
    and ok_assign: "isAssignTarget l \<Longrightarrow> plain ok l \<Longrightarrow> plain ok r \<Longrightarrow> ok (AssignN p l r)"
    and ok_if: "plain ok q \<Longrightarrow> plain ok e \<Longrightarrow> pred_option (plain ok) x \<Longrightarrow> ok (IfN p q e x)"
    and ok_while: "plain ok q \<Longrightarrow> plain ok e \<Longrightarrow> ok (WhileN p q e)"
    and ok_return: "pred_option (plain ok) x \<Longrightarrow> ok (ReturnN p x)"
    and ok_block: "list_all ok ns \<Longrightarrow> ok (BlockN p ns f)"
    and ok_lambda: "list_all (paramOK ok) ps \<Longrightarrow> plain ok e \<Longrightarrow> ok (LambdaN p ps (Some e) f g)"
    and ok_typed: "plain ok e \<Longrightarrow> ok (TypedN p e tt)"
    and ok_parens: "plain ok e \<Longrightarrow> ok (ParensN p e)"
    and ok_tuple: "list_all (plain ok) as \<Longrightarrow> ok (TupleN p as)"
    and ok_splice: "plain ok e \<Longrightarrow> ok (SpliceN p e)"
    and ok_namedArg: "plain ok e \<Longrightarrow> ok (NamedArgN p t e)"
    and ok_val: "pred_option (plain ok) x \<Longrightarrow> pred_option simplePattern pt \<Longrightarrow> (pt \<noteq> None \<Longrightarrow> x \<noteq> None) \<Longrightarrow>
        ok (ValDefN vh x pt)"
    and ok_def: "list_all (list_all (paramOK ok)) pss \<Longrightarrow> pred_option (plain ok) x \<Longrightarrow> ok (DefDefN dh pss x)"
    and ok_template: "list_all (paramOK ok) ps \<Longrightarrow> list_all (parentOK ok) prs \<Longrightarrow> list_all ok ns \<Longrightarrow>
        list_all (enumCaseFits ok) ecs \<Longrightarrow> (td_kind th = TM_Enum) = (ecs \<noteq> []) \<Longrightarrow>
        ok (TemplateDefN th ps prs ns ecs)"
    and ok_new: "list_all (plain ok) as \<Longrightarrow> ok (NewN p tt as f)"
    and ok_match: "plain ok e \<Longrightarrow> list_all (caseOK ok) cs \<Longrightarrow> ok (MatchN p e cs)"
    and ok_for: "es \<noteq> [] \<Longrightarrow> en_kind (hd es) = EK_Generator \<Longrightarrow> list_all (enumOK ok) es \<Longrightarrow> plain ok e \<Longrightarrow>
        ok (ForN p es e f)"
    and ok_try: "plain ok e \<Longrightarrow> list_all (caseOK ok) cs \<Longrightarrow> pred_option (plain ok) x \<Longrightarrow> ok (TryN p e cs x)"
    and ok_throw: "plain ok e \<Longrightarrow> ok (ThrowN p e)"
    and ok_extension: "list_all (plain ok) ns \<Longrightarrow> ok (ExtensionDefN p t tt ns)"
    and ok_unparens: "ok (ParensN p e) \<Longrightarrow> plain ok e"
    and ok_untyped: "ok (TypedN p e tt) \<Longrightarrow> plain ok e"
    and ok_negate: "plain ok e \<Longrightarrow> ok (setPos p (negateLiteral p e))"
    and ok_rebase: "ok e \<Longrightarrow> ok (rebase p e)"

subsection \<open>Contracts\<close>

text \<open>
  The states the parser goes through: the nested parsers of the holes still to come return, and the
  cases collected for an open enumeration satisfy the predicate.
\<close>

definition holesOK :: "(Node \<Rightarrow> bool) \<Rightarrow> hole_parser \<Rightarrow> Token list \<Rightarrow> bool" where
  "holesOK ok hole toks \<longleftrightarrow>
     (\<forall>t \<in> set toks. \<forall>q \<in> set (tk_parts t). ip_isHole q \<longrightarrow>
        (case hole (ip_text q) (ip_pos q) of Inl e \<Rightarrow> e \<noteq> OutOfFuel | Inr n \<Rightarrow> plain ok n))"

definition good :: "(Node \<Rightarrow> bool) \<Rightarrow> Rules \<Rightarrow> Parser \<Rightarrow> bool" where
  "good ok r s \<longleftrightarrow>
     live s \<and> holesOK ok (r_hole r) (ps_toks s) \<and> pred_option (list_all (enumCaseFits ok)) (ps_enumTarget s)"

text \<open>
  \<open>consumes k m P\<close>: with the bound \<open>N\<close> at least six levels for each token left and \<open>k\<close> more, the action
  \<open>m\<close> consumes a token and returns something that satisfies \<open>P\<close>; \<open>keeps\<close>: it may consume nothing.
\<close>

definition room :: "nat \<Rightarrow> nat \<Rightarrow> Parser \<Rightarrow> bool" where
  "room N k s \<longleftrightarrow> 6 * tokenCount s + k \<le> N + 6 * ps_i s"

definition consumes ::
  "(Node \<Rightarrow> bool) \<Rightarrow> Rules \<Rightarrow> nat \<Rightarrow> nat \<Rightarrow> 'a parsing \<Rightarrow> ('a \<Rightarrow> Parser \<Rightarrow> bool) \<Rightarrow> bool" where
  "consumes ok r N k m P \<longleftrightarrow>
     (\<forall>s. good ok r s \<and> room N k s \<longrightarrow>
        wp m (\<lambda>x s'. good ok r s' \<and> same s s' \<and> ps_i s < ps_i s' \<and> P x s') s)"

text \<open>A routine that is only called when the next tokens satisfy \<open>c\<close>.\<close>

definition consumesIf ::
  "(Node \<Rightarrow> bool) \<Rightarrow> Rules \<Rightarrow> nat \<Rightarrow> nat \<Rightarrow> (Parser \<Rightarrow> bool) \<Rightarrow> 'a parsing \<Rightarrow> ('a \<Rightarrow> bool) \<Rightarrow> bool" where
  "consumesIf ok r N k c m P \<longleftrightarrow>
     (\<forall>s. good ok r s \<and> room N k s \<and> c s \<longrightarrow>
        wp m (\<lambda>x s'. good ok r s' \<and> same s s' \<and> ps_i s < ps_i s' \<and> P x) s)"

definition keeps ::
  "(Node \<Rightarrow> bool) \<Rightarrow> Rules \<Rightarrow> nat \<Rightarrow> nat \<Rightarrow> 'a parsing \<Rightarrow> ('a \<Rightarrow> bool) \<Rightarrow> bool" where
  "keeps ok r N k m P \<longleftrightarrow>
     (\<forall>s. good ok r s \<and> room N k s \<longrightarrow>
        wp m (\<lambda>x s'. good ok r s' \<and> same s s' \<and> ps_i s \<le> ps_i s' \<and> P x) s)"

lemma wp_consumes:
  "consumes ok r N k m P \<Longrightarrow> good ok r s \<Longrightarrow> room N k s \<Longrightarrow>
   (\<And>x s'. good ok r s' \<Longrightarrow> same s s' \<Longrightarrow> ps_i s < ps_i s' \<Longrightarrow> P x s' \<Longrightarrow> Q x s') \<Longrightarrow> wp m Q s"
  unfolding consumes_def by (rule wp_mono [where P = "\<lambda>x s'. good ok r s' \<and> same s s' \<and> ps_i s < ps_i s' \<and> P x s'"]) auto

lemma wp_keeps:
  "keeps ok r N k m P \<Longrightarrow> good ok r s \<Longrightarrow> room N k s \<Longrightarrow>
   (\<And>x s'. good ok r s' \<Longrightarrow> same s s' \<Longrightarrow> ps_i s \<le> ps_i s' \<Longrightarrow> P x \<Longrightarrow> Q x s') \<Longrightarrow> wp m Q s"
  unfolding keeps_def by (rule wp_mono [where P = "\<lambda>x s'. good ok r s' \<and> same s s' \<and> ps_i s \<le> ps_i s' \<and> P x"]) auto

lemma wp_consumesIf:
  "consumesIf ok r N k c m P \<Longrightarrow> good ok r s \<Longrightarrow> room N k s \<Longrightarrow> c s \<Longrightarrow>
   (\<And>x s'. good ok r s' \<Longrightarrow> same s s' \<Longrightarrow> ps_i s < ps_i s' \<Longrightarrow> P x \<Longrightarrow> Q x s') \<Longrightarrow> wp m Q s"
  unfolding consumesIf_def by (rule wp_mono [where P = "\<lambda>x s'. good ok r s' \<and> same s s' \<and> ps_i s < ps_i s' \<and> P x"]) auto

lemma consumesIfI:
  "(\<And>s. good ok r s \<Longrightarrow> room N k s \<Longrightarrow> c s \<Longrightarrow>
      wp m (\<lambda>x s'. good ok r s' \<and> same s s' \<and> ps_i s < ps_i s' \<and> P x) s) \<Longrightarrow>
   consumesIf ok r N k c m P"
  by (simp add: consumesIf_def)

lemma consumesI:
  "(\<And>s. good ok r s \<Longrightarrow> room N k s \<Longrightarrow> wp m (\<lambda>x s'. good ok r s' \<and> same s s' \<and> ps_i s < ps_i s' \<and> P x s') s) \<Longrightarrow>
   consumes ok r N k m P"
  by (simp add: consumes_def)

lemma keepsI:
  "(\<And>s. good ok r s \<Longrightarrow> room N k s \<Longrightarrow> wp m (\<lambda>x s'. good ok r s' \<and> same s s' \<and> ps_i s \<le> ps_i s' \<and> P x) s) \<Longrightarrow>
   keeps ok r N k m P"
  by (simp add: keeps_def)

lemma good_live [simp]: "good ok r s \<Longrightarrow> live s"
  by (simp add: good_def)

lemma good_stepToken [simp]: "good ok r s \<Longrightarrow> good ok r (stepToken s)"
  by (simp add: good_def)

lemma good_update [simp]:
  "good ok r (s\<lparr>ps_placeholderFrames := fs\<rparr>) = good ok r s"
  "good ok r (s\<lparr>ps_placeholderCounter := c\<rparr>) = good ok r s"
  "good ok r (s\<lparr>ps_caseLambdaCounter := c\<rparr>) = good ok r s"
  "good ok r (s\<lparr>ps_inTemplateBody := f\<rparr>) = good ok r s"
  by (simp_all add: good_def live_def)

text \<open>A loop that starts in \<open>s\<close>: its accumulator satisfies \<open>J\<close>.\<close>

lemma wp_loop:
  assumes "good ok r s" "J b s"
    and "\<And>b s1. good ok r s1 \<Longrightarrow> same s s1 \<Longrightarrow> ps_i s \<le> ps_i s1 \<Longrightarrow> J b s1 \<Longrightarrow>
           wp (body b) (\<lambda>x s2. case x of
               Inl b' \<Rightarrow> good ok r s2 \<and> same s s2 \<and> ps_i s1 < ps_i s2 \<and> J b' s2
             | Inr y \<Rightarrow> Q y s2) s1"
  shows "wp (loopA body b) Q s"
proof (rule wp_loopA [where I = "\<lambda>b s1. good ok r s1 \<and> same s s1 \<and> ps_i s \<le> ps_i s1 \<and> J b s1"], goal_cases)
  case (2 b s1)
  then show ?case
    by (intro wp_mono [OF assms(3)]) (auto simp: same_def surroundings_def split: sum.splits)
qed (use assms(1,2) in simp)

end
