(* ===== verification/ParserWalk.thy ===== *)
theory ParserWalk
  imports ParserShape
begin

text \<open>
  The walk over the grammar: one lemma for each parsing routine, from the contract of the routines it
  calls.  A rule of \<open>wp_rules\<close> says what a call gives; the side conditions are arithmetic on token
  positions.
\<close>

named_theorems wp_rules "what a call of a parsing routine gives"
named_theorems cond_simps "definitions of the conditions on the next tokens"

lemmas [cond_simps] =
  atKind_def atIdent_def opensArguments_def atSeparator_def room_def same_def tokenCount_def
  stepToken_mono

definition stopsAt :: "nat \<Rightarrow> Parser \<Rightarrow> bool" where
  "stopsAt m s \<longleftrightarrow> (atKind Identifier s \<and> \<not> isSplice s \<longrightarrow> precedence (tk_text (here s)) < m)"

text \<open>What \<^verbatim>\<open>parseInfix\<close> called for level \<open>m\<close> and an operator of associativity \<open>a\<close> returns.\<close>

definition infixResult :: "nat \<Rightarrow> (nat \<times> bool) option \<Rightarrow> Node \<Rightarrow> bool" where
  "infixResult m a e \<longleftrightarrow>
     (case infixOp e of
        None \<Rightarrow> True
      | Some op \<Rightarrow> m \<le> precedence op \<and>
          (\<forall>p right. a = Some (p, right) \<and> p \<le> m \<and> precedence op = p \<longrightarrow> isRightAssociative op = right))"

definition contract :: "(Node \<Rightarrow> bool) \<Rightarrow> Rules \<Rightarrow> nat \<Rightarrow> bool" where
  "contract ok r N \<longleftrightarrow>
     consumes ok r N 2 (r_expr r) (\<lambda>e _. plain ok e) \<and>
     (\<forall>m a. consumes ok r N 1 (r_infix r m a) (\<lambda>e s. plain ok e \<and> infixResult m a e \<and> stopsAt m s)) \<and>
     consumes ok r N 1 (r_type r) (\<lambda>_ _. True) \<and>
     consumes ok r N 2 (r_pattern r) (\<lambda>p _. simplePattern p) \<and>
     (\<forall>m a. consumes ok r N 1 (r_infixPattern r m a) (\<lambda>p _. simplePattern p)) \<and>
     (\<forall>k. keeps ok r N 3 (r_blockBody r k) (list_all ok)) \<and>
     consumes ok r N 1 (r_definition r) (\<lambda>n _. ok n)"

locale grammar_step = parsed_trees +
  fixes r :: Rules and N :: nat
  assumes contract: "contract ok r N"
begin

lemmas rule_contracts =
  contract [unfolded contract_def, THEN conjunct1]
  contract [unfolded contract_def, THEN conjunct2, THEN conjunct1, THEN spec, THEN spec]
  contract [unfolded contract_def, THEN conjunct2, THEN conjunct2, THEN conjunct1]
  contract [unfolded contract_def, THEN conjunct2, THEN conjunct2, THEN conjunct2, THEN conjunct1]
  contract [unfolded contract_def, THEN conjunct2, THEN conjunct2, THEN conjunct2, THEN conjunct2, THEN conjunct1, THEN spec, THEN spec]
  contract [unfolded contract_def, THEN conjunct2, THEN conjunct2, THEN conjunct2, THEN conjunct2, THEN conjunct2, THEN conjunct1, THEN spec]
  contract [unfolded contract_def, THEN conjunct2, THEN conjunct2, THEN conjunct2, THEN conjunct2, THEN conjunct2, THEN conjunct2]

lemmas [wp_rules] =
  rule_contracts(1,2,3,4,5,7) [THEN wp_consumes] rule_contracts(6) [THEN wp_keeps]

subsection \<open>Loops and types\<close>

lemma moreItems_ok:
  assumes item: "consumes ok r N k item (\<lambda>x _. P x)" "k \<le> 6" and xs: "list_all P xs"
  shows "keeps ok r N 0 (moreItems item xs) (\<lambda>ys. list_all P ys \<and> length xs \<le> length ys)"
  unfolding moreItems_def
  by (rule keepsI, rule wp_loop [where J = "\<lambda>ys _. list_all P ys \<and> length xs \<le> length ys"])
    (use item(2) xs in \<open>auto simp: wp_simps cond_simps intro!: wp_consumes [OF item(1)]\<close>)

lemma commaSeparated_ok:
  assumes item: "consumes ok r N k item (\<lambda>x _. P x)" "k \<le> 6"
  shows "consumes ok r N k (commaSeparated item) (\<lambda>xs _. list_all P xs \<and> xs \<noteq> [])"
  unfolding commaSeparated_def
  by (rule consumesI)
    (auto simp: wp_simps cond_simps intro!: wp_consumes [OF item(1)] wp_keeps [OF moreItems_ok [OF item]])

lemma skipWhile_ok [THEN wp_keeps, wp_rules]:
  assumes "\<And>s. c s \<Longrightarrow> tk_kind (here s) \<noteq> EndOfFile"
  shows "keeps ok r N 0 (skipWhile c) (\<lambda>_. True)"
  unfolding skipWhile_def
  by (rule keepsI, rule wp_loop [where J = "\<lambda>_ _. True"])
    (auto simp: wp_simps cond_simps assms)

lemma qualifiedName_ok [THEN wp_keeps, wp_rules]: "keeps ok r N 0 (qualifiedName name) (\<lambda>_. True)"
  unfolding qualifiedName_def
  by (rule keepsI, rule wp_loop [where J = "\<lambda>_ _. True"]) (auto simp: wp_simps cond_simps intro!: wp_rules)

lemma typeList_ok [THEN wp_consumes, wp_rules]:
  "consumes ok r N 1 (commaSeparated (r_type r)) (\<lambda>ts _. ts \<noteq> [])"
  using commaSeparated_ok [OF rule_contracts(3)] by (auto simp: consumes_def elim!: wp_mono)

lemma typeArguments_ok [THEN wp_consumesIf, wp_rules]:
  "consumesIf ok r N 0 (atKind LBracket) (typeArguments r) (\<lambda>_. True)"
  unfolding typeArguments_def
  by (rule consumesIfI) (auto simp: wp_simps cond_simps intro!: wp_rules)

lemma parseSimpleType_ok [THEN wp_consumes, wp_rules]: "consumes ok r N 0 (parseSimpleType r) (\<lambda>_ _. True)"
  unfolding parseSimpleType_def
  by (rule consumesI) (auto simp: wp_simps cond_simps intro!: wp_rules)

lemma infixTypes_ok [THEN wp_keeps, wp_rules]:
  assumes "\<And>s. isOp s \<Longrightarrow> tk_kind (here s) = Identifier"
  shows "keeps ok r N 0 (infixTypes r isOp ty) (\<lambda>_. True)"
  unfolding infixTypes_def
  by (rule keepsI, rule wp_loop [where J = "\<lambda>_ _. True"])
    (auto simp: wp_simps cond_simps assms intro!: wp_rules)

lemma parseInfixType_ok [THEN wp_consumes, wp_rules]: "consumes ok r N 0 (parseInfixType r) (\<lambda>_ _. True)"
  unfolding parseInfixType_def
  by (rule consumesI) (auto simp: wp_simps cond_simps intro!: wp_rules)

lemma parenType_ok [THEN wp_consumesIf, wp_rules]:
  "consumesIf ok r N 0 (atKind LParen) (parenType r pos) (\<lambda>_. True)"
  unfolding parenType_def
  by (rule consumesIfI) (auto simp: wp_simps cond_simps intro!: wp_rules split: list.split)

lemma parseType_ok: "consumes ok r N 0 (parseType r) (\<lambda>_ _. True)"
  unfolding parseType_def
  by (rule consumesI) (auto simp: wp_simps cond_simps intro!: wp_rules)

lemma parsePatternType_ok [THEN wp_consumes, wp_rules]: "consumes ok r N 0 (parsePatternType r) (\<lambda>_ _. True)"
  unfolding parsePatternType_def
  by (rule consumesI) (auto simp: wp_simps cond_simps intro!: wp_rules split: list.split)

lemma skipGroup_ok [THEN wp_keeps, wp_rules]: "keeps ok r N 0 (skipGroup opening closing msg) (\<lambda>_. True)"
  unfolding skipGroup_def
  by (rule keepsI, rule wp_loop [where J = "\<lambda>_ _. True"])
    (auto simp: wp_simps cond_simps Let_def intro!: wp_rules)

lemma typeParamName_ok [THEN wp_consumes, wp_rules]: "consumes ok r N 0 typeParamName (\<lambda>_ _. True)"
  unfolding typeParamName_def
  by (rule consumesI) (auto simp: wp_simps cond_simps intro!: wp_rules)

lemma skipBounds_ok [THEN wp_keeps, wp_rules]: "keeps ok r N 0 (skipBounds r) (\<lambda>_. True)"
  unfolding skipBounds_def
  by (rule keepsI, rule wp_loop [where J = "\<lambda>_ _. True"])
    (auto simp: wp_simps cond_simps intro!: wp_rules)

lemma typeParamNames_ok [THEN wp_keeps, wp_rules]: "keeps ok r N 0 (typeParamNames r names) (\<lambda>_. True)"
  unfolding typeParamNames_def
  by (rule keepsI, rule wp_loop [where J = "\<lambda>_ _. True"])
    (auto simp: wp_simps cond_simps intro!: wp_rules)

lemma parseTypeParams_ok [THEN wp_consumes, wp_rules]: "consumes ok r N 0 (parseTypeParams r) (\<lambda>_ _. True)"
  unfolding parseTypeParams_def
  by (rule consumesI) (auto simp: wp_simps cond_simps intro!: wp_rules)

end

end
