(* ===== verification/ParserWalkTerms.thy ===== *)
theory ParserWalkTerms
  imports ParserWalk
begin

text \<open>
  The walk over the routines of \<open>ParserTerms\<close>: blocks, cases, simple expressions and the precedence
  climbing of infix expressions.
\<close>

lemma wp_endStatement [wp_simps]:
  "wp (endStatement k) Q = (\<lambda>s. atSeparator s \<or> atKind k s \<longrightarrow> Q () s)"
  by (auto simp: endStatement_def wp_simps fun_eq_iff)

lemma surroundings_update [simp]:
  "surroundings (s\<lparr>ps_placeholderCounter := c\<rparr>) = surroundings s"
  "surroundings (s\<lparr>ps_caseLambdaCounter := c\<rparr>) = surroundings s"
  by (simp_all add: surroundings_def)

lemma infixOp_simps [simp]:
  "infixOp (setPos p n) = infixOp n" "infixOp (negateLiteral p n) = infixOp n"
  "isPatternVal (setPos p n) = isPatternVal n" "isPatternVal (negateLiteral p n) = isPatternVal n"
  by (cases n; simp add: infixOp_def)+

lemma infixOp_node [simp]:
  "infixOp (IntLitN p v f d b) = None" "infixOp (FloatLitN p w t) = None" "infixOp (StringLitN p t) = None"
  "infixOp (CharLitN p c) = None" "infixOp (BoolLitN p f) = None" "infixOp (NullLitN p) = None"
  "infixOp (UnitLitN p) = None" "infixOp (IdentN p t) = None" "infixOp (SuperN p t) = None"
  "infixOp (InterpStringN p t ls as ss) = None" "infixOp (SelectN p n t) = None"
  "infixOp (ApplyN p n as f g) = None" "infixOp (TypeApplyN p n ts) = None" "infixOp (PrefixN p t n) = None"
  "infixOp (BlockN p as f) = None" "infixOp (LambdaN p ps x f g) = None" "infixOp (ParensN p n) = None"
  "infixOp (TupleN p as) = None" "infixOp (NewN p ty as f) = None" "infixOp (InfixN p n t m) = Some t"
  by (simp_all add: infixOp_def)

definition operand :: "(Node \<Rightarrow> bool) \<Rightarrow> Node \<Rightarrow> bool" where
  "operand ok n \<longleftrightarrow> plain ok n \<and> infixOp n = None"

lemma stepToken_here: "good ok r s \<Longrightarrow> here s \<in> set (ps_toks s)"
  by (simp add: here_index) (simp add: good_def live_def)

text \<open>The level from which on the operand to the right of \<open>op\<close> has taken every operator.\<close>

definition closedLevel :: "byte_string \<Rightarrow> nat" where
  "closedLevel op = (if isRightAssociative op then precedence op else Suc (precedence op))"

definition infixState ::
  "(Node \<Rightarrow> bool) \<Rightarrow> nat \<Rightarrow> (nat \<times> bool) option \<Rightarrow> Node \<times> bool option list \<Rightarrow> Parser \<Rightarrow> bool" where
  "infixState ok m a x s \<longleftrightarrow>
     plain ok (fst x) \<and> length (snd x) = kLevels \<and>
     (\<forall>p right. a = Some (p, right) \<and> p \<le> m \<and> p < kLevels \<longrightarrow> snd x ! p = Some right) \<and>
     (case infixOp (fst x) of
        None \<Rightarrow> True
      | Some op \<Rightarrow> m \<le> precedence op \<and> snd x ! precedence op = Some (isRightAssociative op) \<and>
          stopsAt (closedLevel op) s)"

lemma length_noteLevel: "length seen = kLevels \<Longrightarrow> p < kLevels \<Longrightarrow> length (noteLevel p right seen) = kLevels"
  by (simp add: noteLevel_def kLevels_def)

lemma nth_noteLevel:
  "length seen = kLevels \<Longrightarrow> p < kLevels \<Longrightarrow> q \<le> p \<Longrightarrow>
   noteLevel p right seen ! q = (if q = p then Some right else seen ! q)"
  by (auto simp: noteLevel_def nth_append kLevels_def)

context grammar_step
begin

lemmas ok_rules =
  ok_interp ok_select ok_apply ok_typeApply ok_prefix ok_assign ok_if ok_while ok_return ok_block
  ok_lambda ok_typed ok_parens ok_tuple ok_splice ok_namedArg ok_val ok_def ok_template ok_new ok_match
  ok_for ok_try ok_throw ok_extension

lemmas ok_simps = plain_def operand_def paramOK_def

subsection \<open>Lambdas and placeholders\<close>

lemma lambdaParam_ok: "consumes ok r N 0 (lambdaParam r) (\<lambda>p _. paramOK ok p)"
  unfolding lambdaParam_def
  by (rule consumesI) (auto simp: wp_simps cond_simps ok_simps intro!: wp_rules)

lemmas lambdaParam_rules [THEN wp_consumes, wp_rules] =
  lambdaParam_ok commaSeparated_ok [OF lambdaParam_ok, simplified]

lemma parseLambdaParams_ok [THEN wp_consumes, wp_rules]:
  "consumes ok r N 0 (parseLambdaParams r) (\<lambda>ps _. list_all (paramOK ok) ps)"
  unfolding parseLambdaParams_def
  by (rule consumesI) (auto simp: wp_simps cond_simps intro!: wp_rules)

lemma placeholder_ok [wp_rules]:
  assumes "good ok r s"
    and "\<And>n s'. good ok r s' \<Longrightarrow> same s s' \<Longrightarrow> ps_i s' = ps_i s \<Longrightarrow> here s' = here s \<Longrightarrow> operand ok n \<Longrightarrow> Q n s'"
  shows "wp (placeholder pos) Q s"
  unfolding placeholder_def
  by (auto simp: wp_simps cond_simps ok_simps surroundings_def peek_def peekIndex_def
      intro!: assms(2) assms(1))

subsection \<open>Blocks\<close>

lemma parseIndentedBlock_ok [THEN wp_consumes, wp_rules]:
  "consumes ok r N 0 (parseIndentedBlock r) (\<lambda>n _. plain ok n)"
  unfolding parseIndentedBlock_def
  by (rule consumesI) (auto simp: wp_simps cond_simps ok_simps intro!: wp_rules ok_rules)

lemma parseExprOrIndented_ok [THEN wp_consumes, wp_rules]:
  "consumes ok r N 2 (parseExprOrIndented r) (\<lambda>n _. plain ok n)"
  unfolding parseExprOrIndented_def
  by (rule consumesI) (auto simp: wp_simps cond_simps intro!: wp_rules)

lemma parseLambda_ok [THEN wp_consumes, wp_rules]:
  "consumes ok r N 0 (parseLambda r) (\<lambda>n _. plain ok n)"
  unfolding parseLambda_def
  by (rule consumesI) (auto simp: wp_simps cond_simps ok_simps intro!: wp_rules ok_rules)

lemma parseBlockStat_ok [THEN wp_consumes, wp_rules]:
  "consumes ok r N 2 (parseBlockStat r terminator) (\<lambda>n _. ok n)"
  unfolding parseBlockStat_def
  by (rule consumesI) (auto simp: wp_simps cond_simps ok_simps intro!: wp_rules ok_rules)

lemma checkEndMarker_ok [THEN wp_consumesIf, wp_rules]:
  "consumesIf ok r N 0 (atKind EndMarker) (checkEndMarker ss) (\<lambda>_. True)"
  unfolding checkEndMarker_def
  by (rule consumesIfI) (auto simp: wp_simps cond_simps Let_def)

subsection \<open>Cases\<close>

lemma withTemplateBody_ok:
  assumes m: "keeps ok r N k m P"
  shows "keeps ok r N k (withTemplateBody f m) P"
  unfolding withTemplateBody_def
  by (rule keepsI) (auto simp: wp_simps cond_simps surroundings_def intro!: wp_keeps [OF m])

lemma indentedStats_ok [THEN wp_keeps, wp_rules]:
  assumes "list_all ok ss"
  shows "keeps ok r N 2 (indentedStats r n ss) (\<lambda>x. list_all ok (fst x))"
  unfolding indentedStats_def
  by (rule keepsI, rule wp_loop [where J = "\<lambda>ss _. list_all ok ss"])
    (use assms in \<open>auto simp: wp_simps cond_simps intro!: wp_rules\<close>)

lemma indentedCaseBody_ok [THEN wp_consumesIf, wp_rules]:
  "consumesIf ok r N 0 (atKind Indent) (indentedCaseBody r n) (\<lambda>x. plain ok (fst x))"
  unfolding indentedCaseBody_def
  by (rule consumesIfI) (auto simp: wp_simps cond_simps ok_simps intro!: wp_rules ok_rules)

lemma inlineStats_ok [THEN wp_keeps, wp_rules]:
  assumes "list_all ok ss"
  shows "keeps ok r N 2 (inlineStats r terminator n ss) (list_all ok)"
  unfolding inlineStats_def
  by (rule keepsI, rule wp_loop [where J = "\<lambda>ss _. list_all ok ss"])
    (use assms in \<open>auto simp: wp_simps cond_simps intro!: wp_rules\<close>)

lemma caseResult_ok:
  assumes "list_all ok ss"
  shows "plain ok (caseResult pos ss)"
proof -
  have "\<not> isPatternVal n" if "\<not> isValOrDef n" for n
    using that by (cases n) (simp_all add: isValOrDef_def)
  with assms show ?thesis
    by (auto simp: caseResult_def plain_def split: list.split intro: ok_block)
qed

lemma caseBody_ok:
  "keeps ok r N 2 (ifS (atKind Indent) (indentedCaseBody r n)
       (andThen (inlineCaseBody r terminator n) (\<lambda>b. ret (b, n)))) (\<lambda>x. plain ok (fst x))"
  unfolding inlineCaseBody_def
  by (rule keepsI) (auto simp: wp_simps cond_simps intro!: wp_rules caseResult_ok)

lemma parseCaseBody_ok [THEN wp_keeps, wp_rules]:
  "keeps ok r N 2 (parseCaseBody r terminator n) (\<lambda>x. plain ok (fst x))"
  unfolding parseCaseBody_def by (rule withTemplateBody_ok [OF caseBody_ok])

lemma caseGuard_ok [THEN wp_keeps, wp_rules]: "keeps ok r N 0 (caseGuard r) (pred_option (plain ok))"
  unfolding caseGuard_def
  by (rule keepsI) (auto simp: wp_simps cond_simps intro!: wp_rules)

lemma parseCaseClause_ok [THEN wp_consumes, wp_rules]:
  "consumes ok r N 0 (parseCaseClause r terminator n) (\<lambda>x _. caseOK ok (fst x))"
  unfolding parseCaseClause_def
  by (rule consumesI) (auto simp: wp_simps cond_simps caseOK_def intro!: wp_rules)

lemma casesFrom_ok [THEN wp_keeps, wp_rules]:
  assumes "list_all (caseOK ok) cs"
  shows "keeps ok r N 0 (casesFrom r terminator (cs, n)) (list_all (caseOK ok))"
  unfolding casesFrom_def
  by (rule keepsI, rule wp_loop [where J = "\<lambda>x _. list_all (caseOK ok) (fst x)"])
    (use assms in \<open>auto simp: wp_simps cond_simps intro!: wp_rules\<close>)

lemma parseCases_ok [THEN wp_keeps, wp_rules]: "keeps ok r N 0 (parseCases r terminator) (list_all (caseOK ok))"
  unfolding parseCases_def
  by (rule keepsI) (auto simp: wp_simps cond_simps intro!: wp_rules)

lemma bumpCaseLambda_ok [THEN wp_keeps, wp_rules]: "keeps ok r N 0 (bumpCaseLambda prefix) (\<lambda>_. True)"
  unfolding bumpCaseLambda_def
  by (rule keepsI) (auto simp: wp_simps cond_simps)

lemma parseCaseLambda_ok [THEN wp_keeps, wp_rules]:
  "keeps ok r N 0 (parseCaseLambda r pos terminator) (operand ok)"
  unfolding parseCaseLambda_def
  by (rule keepsI) (auto simp: wp_simps cond_simps ok_simps intro!: wp_rules ok_rules)

lemma parseBlockExpr_ok [THEN wp_consumes, wp_rules]:
  "consumes ok r N 0 (parseBlockExpr r) (\<lambda>n _. operand ok n)"
  unfolding parseBlockExpr_def
  by (rule consumesI) (auto simp: wp_simps cond_simps ok_simps intro!: wp_rules ok_rules)

subsection \<open>Simple expressions\<close>

lemmas exprList_rules [THEN wp_keeps, wp_rules] = moreItems_ok [OF rule_contracts(1), simplified]

lemma parseParensExpr_ok [THEN wp_consumes, wp_rules]:
  "consumes ok r N 0 (parseParensExpr r) (\<lambda>n _. operand ok n)"
  unfolding parseParensExpr_def
  by (rule consumesI) (auto simp: wp_simps cond_simps ok_simps intro!: wp_rules ok_rules)

lemma typedSplice_ok:
  assumes "plain ok e"
  shows "plain ok (typedSplice e)"
proof (cases e)
  case (TypedN p e' ty)
  with assms have "plain ok e'" using ok_untyped by (simp add: plain_def)
  with TypedN assms show ?thesis
    by (auto simp: typedSplice_def plain_def split: list.split intro: ok_splice [unfolded plain_def])
qed (use assms in \<open>simp_all add: typedSplice_def\<close>)

lemma parseArg_ok: "consumes ok r N 2 (parseArg r) (\<lambda>n _. plain ok n)"
  unfolding parseArg_def
  by (rule consumesI) (auto simp: wp_simps cond_simps ok_simps intro!: wp_rules ok_rules typedSplice_ok [unfolded plain_def])

lemmas parseArg_rules [THEN wp_consumes, wp_rules] = commaSeparated_ok [OF parseArg_ok, simplified]

lemma parseArgs_ok [THEN wp_consumes, wp_rules]:
  "consumes ok r N 2 (parseArgs r) (\<lambda>as _. list_all (plain ok) as)"
  unfolding parseArgs_def
  by (rule consumesI) (auto simp: wp_simps cond_simps intro!: wp_rules)

lemma constructorArgs_ok [THEN wp_keeps, wp_rules]:
  assumes "list_all (plain ok) as"
  shows "keeps ok r N 0 (constructorArgs r (as, f)) (\<lambda>x. list_all (plain ok) (fst x))"
  unfolding constructorArgs_def
  by (rule keepsI, rule wp_loop [where J = "\<lambda>x _. list_all (plain ok) (fst x)"])
    (use assms in \<open>auto simp: wp_simps cond_simps intro!: wp_rules\<close>)

lemma parseNew_ok [THEN wp_consumes, wp_rules]: "consumes ok r N 0 (parseNew r) (\<lambda>n _. operand ok n)"
  unfolding parseNew_def
  by (rule consumesI) (auto simp: wp_simps cond_simps ok_simps intro!: wp_rules ok_rules)

lemma interpolationParts_ok:
  assumes "\<And>q. q \<in> set parts \<Longrightarrow> ip_isHole q \<Longrightarrow>
      (case hole (ip_text q) (ip_pos q) of Inl e \<Rightarrow> e \<noteq> OutOfFuel | Inr n \<Rightarrow> plain ok n)"
    and "list_all (plain ok) (it_args st)"
  shows "case interpolationParts hole isF parts st of
      Inl e \<Rightarrow> e \<noteq> OutOfFuel | Inr st' \<Rightarrow> list_all (plain ok) (it_args st')"
  using assms
proof (induction hole isF parts st rule: interpolationParts.induct)
  case (2 hole isF part parts st)
  show ?case
  proof (cases "ip_isHole part")
    case True
    with 2(3) [of part] show ?thesis
      using 2(2) [OF _ ] 2(3,4)
      by (cases "hole (ip_text part) (ip_pos part)") (simp_all add: holeNode_def)
  next
    case False
    with 2(1,3,4) show ?thesis by (simp add: literalPart_def Let_def)
  qed
qed simp

lemma parseInterpolation_ok [wp_rules]:
  assumes "good ok r s" "t = here s" "\<And>n. operand ok n \<Longrightarrow> Q n s"
  shows "wp (parseInterpolation r t) Q s"
proof -
  have "case interpolationParts (r_hole r) (tk_text t = ''f'') (tk_parts t)
       \<lparr>it_literals = [], it_args = [], it_specs = [], it_pending = [], it_afterHole = False\<rparr> of
      Inl e \<Rightarrow> e \<noteq> OutOfFuel | Inr st' \<Rightarrow> list_all (plain ok) (it_args st')"
    using stepToken_here [OF assms(1)] assms(1)
    by (intro interpolationParts_ok) (auto simp: good_def holesOK_def assms(2))
  then show ?thesis
    unfolding parseInterpolation_def
    by (auto simp: wp_simps ok_simps split: sum.splits intro!: assms(3) ok_interp)
qed

lemma parseSuper_ok [THEN wp_consumesIf, wp_rules]:
  "consumesIf ok r N 0 (atKind KwSuper) (parseSuper r) (operand ok)"
  unfolding parseSuper_def
  by (rule consumesIfI) (auto simp: wp_simps cond_simps ok_simps)

lemma simpleBase_ok [THEN wp_consumes, wp_rules]: "consumes ok r N 0 (simpleBase r) (\<lambda>n _. operand ok n)"
  unfolding simpleBase_def
  by (rule consumesI)
    (auto simp: wp_simps cond_simps ok_simps simpleToken_def Let_def intro!: wp_rules ok_rules)

lemma parseSimpleRest_ok [THEN wp_keeps, wp_rules]:
  assumes "operand ok b"
  shows "keeps ok r N 0 (parseSimpleRest r b) (operand ok)"
  unfolding parseSimpleRest_def
  by (rule keepsI, rule wp_loop [where J = "\<lambda>b _. operand ok b", OF _ assms])
    (auto simp: wp_simps cond_simps ok_simps intro!: wp_rules ok_rules)

lemma parseSimple_ok [THEN wp_consumes, wp_rules]: "consumes ok r N 0 (parseSimple r) (\<lambda>n _. operand ok n)"
  unfolding parseSimple_def
  by (rule consumesI) (auto simp: wp_simps cond_simps intro!: wp_rules)

lemma parsePrefix_ok [THEN wp_consumes, wp_rules]: "consumes ok r N 0 (parsePrefix r) (\<lambda>n _. operand ok n)"
  unfolding parsePrefix_def
  by (rule consumesI)
    (auto simp: wp_simps cond_simps ok_simps isPrefixOperator_def intro!: wp_rules ok_rules ok_negate)

subsection \<open>Infix expressions\<close>

lemma infixOperand_ok:
  assumes "good ok r s" "room N 0 s" "atKind Identifier s"
    and "\<And>n s'. good ok r s' \<Longrightarrow> same s s' \<Longrightarrow> ps_i s < ps_i s' \<Longrightarrow> plain ok n \<Longrightarrow> rightFits op n \<Longrightarrow>
        stopsAt (closedLevel op) s' \<Longrightarrow> Q n s'"
  shows "wp (infixOperand r op) Q s"
proof -
  have fits: "rightFits op n"
    if "infixResult (precedence op) (Some (precedence op, True)) n \<and> isRightAssociative op \<or>
        infixResult (Suc (precedence op)) None n" for n
    using that by (auto simp: infixResult_def rightFits_def split: option.splits)
  show ?thesis
    unfolding infixOperand_def Let_def wp_simps
    using assms(1-3)
    by (auto simp: wp_simps cond_simps closedLevel_def intro!: wp_rules assms(4) fits)
qed

lemma infixState_step:
  assumes x: "infixState ok m a (lhs, seen) s" and here: "atKind Identifier s" "\<not> isSplice s"
    and op: "op = tk_text (here s)" "m \<le> precedence op"
      "seen ! precedence op = None \<or> seen ! precedence op = Some (isRightAssociative op)"
    and rhs: "plain ok rhs" "rightFits op rhs" "stopsAt (closedLevel op) s'"
  shows "infixState ok m a (InfixN pos lhs op rhs, noteLevel (precedence op) (isRightAssociative op) seen) s'"
proof -
  have "leftFits op lhs"
    using x here op by (auto simp: infixState_def leftFits_def stopsAt_def closedLevel_def less_Suc_eq split: option.splits if_splits)
  then have "plain ok (InfixN pos lhs op rhs)"
    using x rhs by (auto simp: infixState_def plain_def intro!: ok_infix)
  then show ?thesis
    using x op rhs(3) by (auto simp: infixState_def length_noteLevel nth_noteLevel)
qed

lemma parseInfixLoop_ok:
  assumes "good ok r s" "room N 0 s" "infixState ok m a x s"
    and "\<And>n s'. good ok r s' \<Longrightarrow> same s s' \<Longrightarrow> ps_i s \<le> ps_i s' \<Longrightarrow> plain ok n \<Longrightarrow> infixResult m a n \<Longrightarrow>
        stopsAt m s' \<Longrightarrow> Q n s'"
  shows "wp (parseInfixLoop r m x) Q s"
  unfolding parseInfixLoop_def
proof (rule wp_loop [where J = "infixState ok m a", OF assms(1,3)], goal_cases)
  case (1 x1 s1)
  have result: "infixResult m a (fst x1)" and plain: "plain ok (fst x1)"
    using 1(4) by (auto simp: infixState_def infixResult_def split: option.splits)
  have room: "room N 0 s1" using assms(2) 1(2,3) by (simp add: cond_simps)
  show ?case
    using 1 result plain room
    by (cases x1)
      (auto simp: wp_simps Let_def stopsAt_def same_def intro!: assms(4) infixOperand_ok infixState_step)
qed

lemma infixState_initial: "operand ok n \<Longrightarrow> infixState ok m a (n, initialLevels a) s"
  by (auto simp: infixState_def operand_def initialLevels_def Let_def split: option.split)

lemma parseInfixRest_ok [wp_rules]:
  assumes "good ok r s" "room N 0 s" "operand ok n"
    and "\<And>n s'. good ok r s' \<Longrightarrow> same s s' \<Longrightarrow> ps_i s \<le> ps_i s' \<Longrightarrow> plain ok n \<Longrightarrow> infixResult m a n \<Longrightarrow>
        stopsAt m s' \<Longrightarrow> Q n s'"
  shows "wp (parseInfixRest r m a n) Q s"
  unfolding parseInfixRest_def
  by (rule parseInfixLoop_ok [OF assms(1,2) infixState_initial [OF assms(3)]]) (fact assms(4))

lemma parseInfix_ok:
  "consumes ok r N 0 (parseInfix r m a) (\<lambda>e s. plain ok e \<and> infixResult m a e \<and> stopsAt m s)"
  unfolding parseInfix_def
  by (rule consumesI) (auto simp: wp_simps cond_simps intro!: wp_rules)

end

end
