(* ===== verification/ParserWalkExpr.thy ===== *)
theory ParserWalkExpr
  imports ParserWalkTerms
begin

text \<open>The walk over the routines of \<open>ParserPatterns\<close> and \<open>ParserExpr\<close>.\<close>

lemma simplePattern_node [simp]:
  "simplePattern (Pattern k pos name e ty args) \<longleftrightarrow> pred_option simpleExpr e \<and> list_all simplePattern args"
  by (auto simp: simplePattern_def list_all_iff split: option.split)

lemmas pattern_defs = makePattern_def namedPattern_def exprPattern_def typedPattern_def

context grammar_step
begin

subsection \<open>Patterns\<close>

lemma literal_simple: "isLiteralNode n \<Longrightarrow> simpleExpr n" "isNumberNode n \<Longrightarrow> simpleExpr n"
  by (cases n; simp add: isLiteralNode_def isNumberNode_def)+

lemma literalPattern_ok:
  assumes m: "consumes ok r N 0 m (\<lambda>n _. operand ok n)" and "\<And>n. isLit n \<Longrightarrow> simpleExpr n"
  shows "consumes ok r N 0 (literalPattern isLit m) (\<lambda>p _. simplePattern p)"
  unfolding literalPattern_def
  by (rule consumesI) (auto simp: wp_simps cond_simps pattern_defs assms(2) intro!: wp_consumes [OF m])

lemma operand_consumes:
  "consumes ok r N 0 (parseSimple r) (\<lambda>n _. operand ok n)" "consumes ok r N 0 (parsePrefix r) (\<lambda>n _. operand ok n)"
  by (rule consumesI, auto intro!: wp_rules)+

lemmas literalPattern_rules [THEN wp_consumes, wp_rules] =
  literalPattern_ok [OF operand_consumes(1) literal_simple(1)]
  literalPattern_ok [OF operand_consumes(2) literal_simple(2)]

lemma wildcardPattern_ok [THEN wp_consumesIf, wp_rules]:
  "consumesIf ok r N 0 (atKind Underscore) wildcardPattern simplePattern"
  unfolding wildcardPattern_def
  by (rule consumesIfI) (auto simp: wp_simps cond_simps pattern_defs)

lemmas patternList_rules [THEN wp_keeps, wp_rules] = moreItems_ok [OF rule_contracts(4), simplified]

lemma parenPattern_ok [THEN wp_consumesIf, wp_rules]:
  "consumesIf ok r N 0 (atKind LParen) (parenPattern r) simplePattern"
  unfolding parenPattern_def
  by (rule consumesIfI) (auto simp: wp_simps cond_simps pattern_defs intro!: wp_rules)

lemma patternArgList_ok [THEN wp_keeps, wp_rules]:
  assumes "list_all simplePattern ps"
  shows "keeps ok r N 2 (patternArgList r ps) (list_all simplePattern)"
  unfolding patternArgList_def
  by (rule keepsI, rule wp_loop [where J = "\<lambda>ps _. list_all simplePattern ps", OF _ assms])
    (auto simp: wp_simps cond_simps pattern_defs seqWildcardAhead_def seqBinderAhead_def isVarId_def intro!: wp_rules)

lemma parsePatternArgs_ok [THEN wp_consumes, wp_rules]:
  "consumes ok r N 2 (parsePatternArgs r) (\<lambda>ps _. list_all simplePattern ps)"
  unfolding parsePatternArgs_def
  by (rule consumesI) (auto simp: wp_simps cond_simps intro!: wp_rules)

lemma stablePath_ok [THEN wp_keeps, wp_rules]:
  assumes "simpleExpr n"
  shows "keeps ok r N 0 (stablePath (n, text)) (\<lambda>x. simpleExpr (fst x))"
  unfolding stablePath_def
  by (rule keepsI, rule wp_loop [where J = "\<lambda>x _. simpleExpr (fst x)"])
    (use assms in \<open>auto simp: wp_simps cond_simps intro!: wp_rules\<close>)

lemma pathPattern_ok [THEN wp_consumesIf, wp_rules]:
  "consumesIf ok r N 0 (atKind Identifier) (pathPattern r) simplePattern"
  unfolding pathPattern_def
  by (rule consumesIfI) (auto simp: wp_simps cond_simps pattern_defs intro!: wp_rules)

lemma parseSimplePattern_ok [THEN wp_consumes, wp_rules]:
  "consumes ok r N 0 (parseSimplePattern r) (\<lambda>p _. simplePattern p)"
  unfolding parseSimplePattern_def
  by (rule consumesI)
    (auto simp: wp_simps cond_simps pattern_defs intro!: wp_rules)

lemma infixPatternRest_ok [THEN wp_keeps, wp_rules]:
  assumes "simplePattern p"
  shows "keeps ok r N 0 (infixPatternRest r m a p) simplePattern"
  unfolding infixPatternRest_def
  by (rule keepsI, rule wp_loop [where J = "\<lambda>p _. simplePattern p", OF _ assms])
    (auto simp: wp_simps cond_simps pattern_defs atInfixPatternOp_def Let_def intro!: wp_rules)

lemma parseInfixPattern_ok: "consumes ok r N 0 (parseInfixPattern r m a) (\<lambda>p _. simplePattern p)"
  unfolding parseInfixPattern_def
  by (rule consumesI) (auto simp: wp_simps cond_simps intro!: wp_rules)

lemma parsePattern2_ok [THEN wp_consumes, wp_rules]:
  "consumes ok r N 1 (parsePattern2 r) (\<lambda>p _. simplePattern p)"
  unfolding parsePattern2_def
  by (rule consumesI) (auto simp: wp_simps cond_simps pattern_defs isVarId_def intro!: wp_rules)

lemma parsePattern1_ok [THEN wp_consumes, wp_rules]:
  "consumes ok r N 1 (parsePattern1 r) (\<lambda>p _. simplePattern p)"
  unfolding parsePattern1_def
  by (rule consumesI) (auto simp: wp_simps cond_simps pattern_defs isVarId_def intro!: wp_rules)

lemma patternAlternatives_ok [THEN wp_keeps, wp_rules]:
  assumes "list_all simplePattern ps"
  shows "keeps ok r N 0 (patternAlternatives r ps) (list_all simplePattern)"
  unfolding patternAlternatives_def
  by (rule keepsI, rule wp_loop [where J = "\<lambda>ps _. list_all simplePattern ps", OF _ assms])
    (auto simp: wp_simps cond_simps intro!: wp_rules)

lemma parsePattern_ok: "consumes ok r N 1 (parsePattern r) (\<lambda>p _. simplePattern p)"
  unfolding parsePattern_def
  by (rule consumesI) (auto simp: wp_simps cond_simps pattern_defs intro!: wp_rules)

subsection \<open>Conditions and control\<close>

lemma unwrapParens_ok: "plain ok n \<Longrightarrow> plain ok (unwrapParens n)"
  using ok_unparens by (cases n) (simp_all add: unwrapParens_def plain_def)

lemma parenCondition_ok [THEN wp_consumes, wp_rules]:
  assumes "\<And>s. skip s \<Longrightarrow> tk_kind (here s) \<noteq> EndOfFile"
  shows "consumes ok r N 0 (parenCondition r kw what skip) (\<lambda>n _. plain ok n)"
  unfolding parenCondition_def
  by (rule consumesI)
    (auto simp: wp_simps cond_simps operand_def intro!: wp_rules unwrapParens_ok)

lemma parseCondition_ok [THEN wp_consumes, wp_rules]:
  assumes "\<And>s. skip s \<Longrightarrow> tk_kind (here s) \<noteq> EndOfFile"
  shows "consumes ok r N 2 (parseCondition r kw what skip) (\<lambda>n _. plain ok n)"
  unfolding parseCondition_def
  by (rule consumesI) (auto simp: wp_simps cond_simps assms intro!: wp_rules)

lemma parseElse_ok [THEN wp_keeps, wp_rules]: "keeps ok r N 0 (parseElse r) (pred_option (plain ok))"
  unfolding parseElse_def
  by (rule keepsI) (auto simp: wp_simps cond_simps elseAhead_def intro!: wp_rules split: if_splits)

lemma parseIf_ok [THEN wp_consumesIf, wp_rules]: "consumesIf ok r N 0 (atKind KwIf) (parseIf r) (plain ok)"
  unfolding parseIf_def
  by (rule consumesIfI) (auto simp: wp_simps cond_simps ok_simps intro!: wp_rules ok_rules)

lemma parseWhile_ok [THEN wp_consumesIf, wp_rules]: "consumesIf ok r N 0 (atKind KwWhile) (parseWhile r) (plain ok)"
  unfolding parseWhile_def
  by (rule consumesIfI) (auto simp: wp_simps cond_simps ok_simps intro!: wp_rules ok_rules)

lemma parseReturn_ok [THEN wp_consumesIf, wp_rules]: "consumesIf ok r N 0 (atKind KwReturn) (parseReturn r) (plain ok)"
  unfolding parseReturn_def
  by (rule consumesIfI) (auto simp: wp_simps cond_simps ok_simps intro!: wp_rules ok_rules)

lemma parseThrow_ok [THEN wp_consumesIf, wp_rules]: "consumesIf ok r N 0 (atKind KwThrow) (parseThrow r) (plain ok)"
  unfolding parseThrow_def
  by (rule consumesIfI) (auto simp: wp_simps cond_simps ok_simps intro!: wp_rules ok_rules)

subsection \<open>Exceptions\<close>

lemma catchHandlerCase_ok [THEN wp_keeps, wp_rules]:
  assumes "plain ok h"
  shows "keeps ok r N 0 (catchHandlerCase h) (caseOK ok)"
  unfolding catchHandlerCase_def Let_def
  by (rule keepsI)
    (use assms in \<open>auto simp: wp_simps cond_simps caseOK_def plain_def pattern_defs intro!: wp_rules ok_apply\<close>)

lemma inlineCatchCase_ok [THEN wp_consumes, wp_rules]:
  "consumes ok r N 0 (inlineCatchCase r) (\<lambda>c _. caseOK ok c)"
  unfolding inlineCatchCase_def
  by (rule consumesI) (auto simp: wp_simps cond_simps caseOK_def intro!: wp_rules)

lemma inlineCatchCases_ok [THEN wp_keeps, wp_rules]: "keeps ok r N 0 (inlineCatchCases r) (list_all (caseOK ok))"
  unfolding inlineCatchCases_def
  by (rule keepsI, rule wp_loop [where J = "\<lambda>cs _. list_all (caseOK ok) cs"])
    (auto simp: wp_simps cond_simps intro!: wp_rules)

lemma catchExpression_ok [THEN wp_keeps, wp_rules]: "keeps ok r N 2 (catchExpression r) (list_all (caseOK ok))"
  unfolding catchExpression_def
  by (rule keepsI) (auto simp: wp_simps cond_simps intro!: wp_rules)

lemma good_restore [simp]:
  "good ok r s \<Longrightarrow> surroundings s' = surroundings s \<Longrightarrow> good ok r s' \<Longrightarrow> good ok r (s'\<lparr>ps_i := ps_i s\<rparr>)"
  by (simp add: good_def live_def surroundings_def)

lemma surroundings_index [simp]: "surroundings (s\<lparr>ps_i := i\<rparr>) = surroundings s"
  by (simp add: surroundings_def)

lemma parseCatchCases_ok [THEN wp_keeps, wp_rules]: "keeps ok r N 2 (parseCatchCases r) (list_all (caseOK ok))"
  unfolding parseCatchCases_def
  by (rule keepsI) (auto simp: wp_simps cond_simps intro!: wp_rules)

lemma tryCases_ok [THEN wp_keeps, wp_rules]: "keeps ok r N 2 (tryCases r) (list_all (caseOK ok))"
  unfolding tryCases_def
  by (rule keepsI) (auto simp: wp_simps cond_simps intro!: wp_rules)

lemma tryFinally_ok [THEN wp_keeps, wp_rules]: "keeps ok r N 2 (tryFinally r) (pred_option (plain ok))"
  unfolding tryFinally_def
  by (rule keepsI) (auto simp: wp_simps cond_simps intro!: wp_rules)

lemma parseTry_ok [THEN wp_consumesIf, wp_rules]: "consumesIf ok r N 0 (atKind KwTry) (parseTry r) (plain ok)"
  unfolding parseTry_def
  by (rule consumesIfI) (auto simp: wp_simps cond_simps ok_simps intro!: wp_rules ok_rules)

subsection \<open>Match and for\<close>

lemma matchOpening_ok [THEN wp_keeps, wp_rules]: "keeps ok r N 0 matchOpening (\<lambda>_. True)"
  unfolding matchOpening_def
  by (rule keepsI) (auto simp: wp_simps cond_simps)

lemma parseMatch_ok [THEN wp_consumesIf, wp_rules]:
  assumes "plain ok n"
  shows "consumesIf ok r N 0 (atKind KwMatch) (parseMatch r n) (plain ok)"
  unfolding parseMatch_def
  by (rule consumesIfI) (use assms in \<open>auto simp: wp_simps cond_simps ok_simps intro!: wp_rules ok_match\<close>)

lemma generatorArrow_ok [THEN wp_keeps, wp_rules]: "keeps ok r N 0 generatorArrow (\<lambda>k. k \<noteq> EK_Guard)"
  unfolding generatorArrow_def
  by (rule keepsI) (auto simp: wp_simps cond_simps)

lemma parseGeneratorOrValue_ok [THEN wp_consumes, wp_rules]:
  "consumes ok r N 1 (parseGeneratorOrValue r) (\<lambda>e _. enumOK ok e)"
  unfolding parseGeneratorOrValue_def
  by (rule consumesI) (auto simp: wp_simps cond_simps enumOK_def intro!: wp_rules)

lemma parseGuard_ok [THEN wp_consumesIf, wp_rules]: "consumesIf ok r N 0 (atKind KwIf) (parseGuard r) (enumOK ok)"
  unfolding parseGuard_def
  by (rule consumesIfI) (auto simp: wp_simps cond_simps enumOK_def intro!: wp_rules)

lemma enumeratorsFrom_ok [THEN wp_keeps, wp_rules]:
  assumes "enumsOK ok es"
  shows "keeps ok r N 0 (enumeratorsFrom r terminator es) (enumsOK ok)"
  unfolding enumeratorsFrom_def
  by (rule keepsI, rule wp_loop [where J = "\<lambda>es _. enumsOK ok es", OF _ assms])
    (auto simp: wp_simps cond_simps enumsOK_def intro!: wp_rules)

lemma parseEnumerators_ok [THEN wp_consumes, wp_rules]:
  "consumes ok r N 1 (parseEnumerators r terminator) (\<lambda>es _. enumsOK ok es)"
  unfolding parseEnumerators_def
  by (rule consumesI) (auto simp: wp_simps cond_simps enumsOK_def [of _ "[_]"] intro!: wp_rules)

lemma delimitedEnumerators_ok [THEN wp_consumes, wp_rules]:
  "consumes ok r N 1 (delimitedEnumerators r closing what) (\<lambda>x _. enumsOK ok (fst x))"
  unfolding delimitedEnumerators_def
  by (rule consumesI)
    (auto simp: wp_simps cond_simps intro!: wp_rules dest: le_less_trans [OF stepToken_simps(6)])

lemma forEnumerators_ok [THEN wp_consumes, wp_rules]:
  "consumes ok r N 1 (forEnumerators r) (\<lambda>x _. enumsOK ok (fst x))"
  unfolding forEnumerators_def
  by (rule consumesI) (auto simp: wp_simps cond_simps intro!: wp_rules)

lemma forKeyword_ok [THEN wp_keeps, wp_rules]: "keeps ok r N 0 (forKeyword delimited) (\<lambda>_. True)"
  unfolding forKeyword_def
  by (rule keepsI) (auto simp: wp_simps cond_simps)

lemma parseFor_ok [THEN wp_consumesIf, wp_rules]: "consumesIf ok r N 0 (atKind KwFor) (parseFor r) (plain ok)"
  unfolding parseFor_def
  by (rule consumesIfI) (auto simp: wp_simps cond_simps ok_simps enumsOK_def intro!: wp_rules ok_for)

subsection \<open>Expressions\<close>

lemma parseMatches_ok [THEN wp_keeps, wp_rules]:
  assumes "plain ok n"
  shows "keeps ok r N 0 (parseMatches r n) (plain ok)"
  unfolding parseMatches_def
  by (rule keepsI, rule wp_loop [where J = "\<lambda>n _. plain ok n", OF _ assms])
    (auto simp: wp_simps cond_simps intro!: wp_rules)

lemma expressionEnd_ok [THEN wp_keeps, wp_rules]:
  assumes "plain ok n"
  shows "keeps ok r N 0 (expressionEnd r n) (plain ok)"
  unfolding expressionEnd_def
  by (rule keepsI) (use assms in \<open>auto simp: wp_simps cond_simps ok_simps intro!: wp_rules ok_assign ok_typed\<close>)

lemma parseOperators_ok [THEN wp_consumes, wp_rules]: "consumes ok r N 1 (parseOperators r) (\<lambda>n _. plain ok n)"
  unfolding parseOperators_def
  by (rule consumesI) (auto simp: wp_simps cond_simps intro!: wp_rules)

lemma parseExprNoPlaceholders_ok [THEN wp_consumes, wp_rules]:
  "consumes ok r N 1 (parseExprNoPlaceholders r) (\<lambda>n _. plain ok n)"
  unfolding parseExprNoPlaceholders_def Let_def
  by (rule consumesI) (auto simp: wp_simps cond_simps intro!: wp_rules)

lemma placeholderLambda_ok: "plain ok e \<Longrightarrow> plain ok (placeholderLambda names e)"
  by (auto simp: placeholderLambda_def plain_def [of _ "LambdaN _ _ _ _ _"] paramOK_def list_all_iff intro!: ok_lambda)

lemma closePlaceholders_ok:
  assumes "good ok r s'" "plain ok e" "surroundings s' = surroundings (s\<lparr>ps_placeholderFrames := [] # ps_placeholderFrames s\<rparr>)"
  shows "wp (closePlaceholders e) (\<lambda>n s2. good ok r s2 \<and> surroundings s2 = surroundings s \<and> ps_i s2 = ps_i s' \<and> plain ok n) s'"
  unfolding closePlaceholders_def
  using assms
  by (cases "ps_placeholderFrames s'")
    (auto simp: wp_simps surroundings_def placeholderLambda_ok split: list.split)

lemma parseExpr_ok: "consumes ok r N 1 (parseExpr r) (\<lambda>n _. plain ok n)"
proof (rule consumesI)
  fix s assume s: "good ok r s" "room N 1 s"
  let ?s = "s\<lparr>ps_placeholderFrames := [] # ps_placeholderFrames s\<rparr>"
  have "room N 1 ?s" using s(2) by (simp add: room_def tokenCount_toks)
  then have "wp (parseExprNoPlaceholders r)
      (\<lambda>e. wp (closePlaceholders e) (\<lambda>n s'. good ok r s' \<and> same s s' \<and> ps_i s < ps_i s' \<and> plain ok n)) ?s"
    using s(1) by (auto simp: same_def intro!: parseExprNoPlaceholders_ok wp_mono [OF closePlaceholders_ok [where s = s]])
  then show "wp (parseExpr r) (\<lambda>n s'. good ok r s' \<and> same s s' \<and> ps_i s < ps_i s' \<and> plain ok n) s"
    by (simp add: parseExpr_def wp_simps)
qed

end

end
