(* ===== verification/ParserWalkDefs.thy ===== *)
theory ParserWalkDefs
  imports ParserWalkExpr
begin

text \<open>The walk over the routines of \<open>ParserDefs\<close>.\<close>

context grammar_step
begin

subsection \<open>Modifiers and annotations\<close>

lemma accessQualifier_ok [THEN wp_consumesIf, wp_rules]:
  "consumesIf ok r N 0 (atKind LBracket) accessQualifier (\<lambda>_. True)"
  unfolding accessQualifier_def
  by (rule consumesIfI) (auto simp: wp_simps cond_simps)

lemma modifier_kind: "isHardModifier k \<Longrightarrow> k \<noteq> EndOfFile" "isSoftModifier t \<Longrightarrow> tk_kind t \<noteq> EndOfFile"
  by (auto simp: isHardModifier_def isSoftModifier_def)

lemma parseModifiers_ok [THEN wp_keeps, wp_rules]: "keeps ok r N 0 parseModifiers (\<lambda>_. True)"
  unfolding parseModifiers_def
  by (rule keepsI, rule wp_loop [where J = "\<lambda>_ _. True"])
    (auto simp: wp_simps cond_simps modifier_kind intro!: wp_rules)

lemma annotationName_ok [THEN wp_consumesIf, wp_rules]:
  "consumesIf ok r N 0 (atKind At) (annotationName what) (\<lambda>_. True)"
  unfolding annotationName_def
  by (rule consumesIfI) (auto simp: wp_simps cond_simps intro!: wp_rules)

lemma parseAnnotations_ok [THEN wp_keeps, wp_rules]: "keeps ok r N 0 parseAnnotations (\<lambda>_. True)"
  unfolding parseAnnotations_def
  by (rule keepsI, rule wp_loop [where J = "\<lambda>_ _. True"])
    (auto simp: wp_simps cond_simps intro!: wp_rules)

subsection \<open>Values and methods\<close>

lemma patternVal_ok [THEN wp_consumes, wp_rules]: "consumes ok r N 1 (patternVal r pos f g mods) (\<lambda>n _. ok n)"
  unfolding patternVal_def
  by (rule consumesI) (auto simp: wp_simps cond_simps intro!: wp_rules ok_val)

lemma optionalType_ok [THEN wp_keeps, wp_rules]: "keeps ok r N 0 (optionalType r) (\<lambda>_. True)"
  unfolding optionalType_def
  by (rule keepsI) (auto simp: wp_simps cond_simps intro!: wp_rules)

lemma namedVal_ok [THEN wp_consumesIf, wp_rules]:
  "consumesIf ok r N 0 (atKind Identifier) (namedVal r pos f g mods) ok"
  unfolding namedVal_def
  by (rule consumesIfI) (auto simp: wp_simps cond_simps Let_def intro!: wp_rules ok_val)

lemma parseValDef_ok [THEN wp_consumes, wp_rules]: "consumes ok r N 1 (parseValDef r pos f g mods) (\<lambda>n _. ok n)"
  unfolding parseValDef_def
  by (rule consumesI) (auto simp: wp_simps cond_simps isSimpleName_def intro!: wp_rules)

lemma parameterRest_ok [THEN wp_consumes, wp_rules]: "consumes ok r N 0 (parameterRest r h) (\<lambda>p _. paramOK ok p)"
  unfolding parameterRest_def
  by (rule consumesI) (auto simp: wp_simps cond_simps paramOK_def intro!: wp_rules)

lemma parameters_ok:
  "consumes ok r N 0 (parameter r) (\<lambda>p _. paramOK ok p)" "consumes ok r N 0 (classParameter r) (\<lambda>p _. paramOK ok p)"
  unfolding parameter_def classParameter_def Let_def
  by (rule consumesI, auto simp: wp_simps cond_simps intro!: wp_rules)+

lemma parameterList_ok:
  assumes param: "consumes ok r N 0 param (\<lambda>p _. paramOK ok p)" and "list_all (paramOK ok) ps"
  shows "keeps ok r N 0 (parameterList param ps) (list_all (paramOK ok))"
  unfolding parameterList_def
  by (rule keepsI, rule wp_loop [where J = "\<lambda>ps _. list_all (paramOK ok) ps", OF _ assms(2)])
    (auto simp: wp_simps cond_simps intro!: wp_consumes [OF param])

lemma parameterClause_ok:
  assumes param: "consumes ok r N 0 param (\<lambda>p _. paramOK ok p)"
  shows "consumes ok r N 0 (parameterClause param) (\<lambda>ps _. list_all (paramOK ok) ps)"
  unfolding parameterClause_def
  by (rule consumesI) (auto simp: wp_simps cond_simps intro!: wp_keeps [OF parameterList_ok [OF param]])

lemma paramClauses_ok:
  assumes clause: "consumes ok r N 0 clause (\<lambda>ps _. list_all (paramOK ok) ps)"
  shows "keeps ok r N 0 (paramClauses clause) (list_all (list_all (paramOK ok)))"
  unfolding paramClauses_def
  by (rule keepsI, rule wp_loop [where J = "\<lambda>pss _. list_all (list_all (paramOK ok)) pss"])
    (auto simp: wp_simps cond_simps intro!: wp_consumes [OF clause])

lemmas paramClauses_rules [THEN wp_keeps, wp_rules] =
  paramClauses_ok [OF parameterClause_ok [OF parameters_ok(1), folded parseParamClause_def]]
  paramClauses_ok [OF parameterClause_ok [OF parameters_ok(2), folded parseClassParamClause_def]]

lemma optionalTypeParams_ok [THEN wp_keeps, wp_rules]: "keeps ok r N 0 (optionalTypeParams r) (\<lambda>_. True)"
  unfolding optionalTypeParams_def
  by (rule keepsI) (auto simp: wp_simps cond_simps intro!: wp_rules)

lemma methodName_ok [THEN wp_consumes, wp_rules]: "consumes ok r N 0 methodName (\<lambda>_ _. True)"
  unfolding methodName_def
  by (rule consumesI) (auto simp: wp_simps cond_simps)

lemma parseDefDef_ok [THEN wp_consumes, wp_rules]:
  "consumes ok r N 0 (parseDefDef r pos as mods) (\<lambda>n _. plain ok n)"
  unfolding parseDefDef_def Let_def
  by (rule consumesI) (auto simp: wp_simps cond_simps plain_def [of _ "DefDefN _ _ _"] intro!: wp_rules ok_def)

subsection \<open>Imports and type aliases\<close>

lemma importToken_kind:
  "isImportWildcard t \<Longrightarrow> tk_kind t \<noteq> EndOfFile" "isPathToken t \<Longrightarrow> tk_kind t \<noteq> EndOfFile"
  by (auto simp: isImportWildcard_def isPathToken_def)

lemma givenSelector_ok [THEN wp_consumesIf, wp_rules]:
  "consumesIf ok r N 0 (atKind KwGiven) givenSelector (\<lambda>_. True)"
  unfolding givenSelector_def Let_def
  by (rule consumesIfI) (auto simp: wp_simps cond_simps)

lemma renamedSelector_ok [THEN wp_keeps, wp_rules]: "keeps ok r N 0 (renamedSelector sel text) (\<lambda>_. True)"
  unfolding renamedSelector_def Let_def
  by (rule keepsI) (auto simp: wp_simps cond_simps importToken_kind intro!: le_SucI)

lemma namedSelector_ok [THEN wp_consumesIf, wp_rules]:
  "consumesIf ok r N 0 (\<lambda>s. isPathToken (here s)) namedSelector (\<lambda>_. True)"
  unfolding namedSelector_def Let_def
  by (rule consumesIfI) (auto simp: wp_simps cond_simps importToken_kind intro!: wp_rules)

lemma importSelector_ok [THEN wp_consumes, wp_rules]: "consumes ok r N 0 importSelector (\<lambda>_ _. True)"
  unfolding importSelector_def
  by (rule consumesI) (auto simp: wp_simps cond_simps importToken_kind intro!: wp_rules)

lemma selectorList_ok [THEN wp_keeps, wp_rules]: "keeps ok r N 0 (selectorList d) (\<lambda>_. True)"
  unfolding selectorList_def
  by (rule keepsI, rule wp_loop [where J = "\<lambda>_ _. True"])
    (auto simp: wp_simps cond_simps isLayoutToken_def intro!: wp_rules)

lemma parseImportSelectors_ok [THEN wp_consumes, wp_rules]: "consumes ok r N 0 (parseImportSelectors d) (\<lambda>_ _. True)"
  unfolding parseImportSelectors_def
  by (rule consumesI) (auto simp: wp_simps cond_simps intro!: wp_rules)

lemma importPath_ok [THEN wp_keeps, wp_rules]: "keeps ok r N 0 (importPath d) (\<lambda>_. True)"
  unfolding importPath_def
  by (rule keepsI, rule wp_loop [where J = "\<lambda>_ _. True"])
    (auto simp: wp_simps cond_simps importToken_kind Let_def intro!: wp_rules)

lemma parseImport_ok [THEN wp_consumes, wp_rules]: "consumes ok r N 0 parseImport (\<lambda>n _. ok n)"
  unfolding parseImport_def
  by (rule consumesI) (auto simp: wp_simps cond_simps intro!: wp_rules)

lemma skipTypeBound_ok:
  assumes rest: "keeps ok r N 0 rest (\<lambda>_. True)"
  shows "keeps ok r N 0 (skipTypeBound r rest) (\<lambda>_. True)"
  unfolding skipTypeBound_def
  by (rule keepsI) (auto simp: wp_simps cond_simps atBound_def intro!: wp_rules wp_keeps [OF rest])

lemma skipTypeBounds_ok [THEN wp_keeps, wp_rules]: "keeps ok r N 0 (skipTypeBound r (skipTypeBound r (ret ()))) (\<lambda>_. True)"
  by (intro skipTypeBound_ok keepsI) (simp add: wp_simps)

lemma parseTypeDef_ok [THEN wp_consumes, wp_rules]: "consumes ok r N 0 (parseTypeDef r mods) (\<lambda>n _. ok n)"
  unfolding parseTypeDef_def Let_def
  by (rule consumesI) (auto simp: wp_simps cond_simps intro!: wp_rules)

end

end
