(* ===== verification/ParserWalkTemplates.thy ===== *)
theory ParserWalkTemplates
  imports ParserWalkDefs
begin

text \<open>The walk over the routines of \<open>ParserTemplates\<close>, which closes the induction over the recursion bound.\<close>

context grammar_step
begin

subsection \<open>Parents and self aliases\<close>

lemma parentRef_ok [THEN wp_consumes, wp_rules]: "consumes ok r N 0 (parentRef r) (\<lambda>p _. parentOK ok p)"
  unfolding parentRef_def
  by (rule consumesI) (auto simp: wp_simps cond_simps parentOK_def intro!: wp_rules)

lemma parseParents_ok [THEN wp_consumes, wp_rules]:
  "consumes ok r N 0 (parseParents r) (\<lambda>ps _. list_all (parentOK ok) ps)"
  unfolding parseParents_def
  by (rule consumesI, rule wp_loop [where J = "\<lambda>ps _. list_all (parentOK ok) ps"])
    (auto simp: wp_simps cond_simps intro!: wp_rules)

lemma aliasType_ok:
  "consumesIf ok r N 0 (\<lambda>s. isPathToken (here s)) (thenA advanceToken (thenA advanceToken (parseInfixType r))) (\<lambda>_. True)"
  by (rule consumesIfI)
    (auto simp: wp_simps cond_simps importToken_kind intro!: wp_rules dest!: le_less_trans [OF stepToken_simps(6)])

lemma typedAlias_ok [wp_rules]:
  assumes s: "good ok r s" "room N 0 s" "isPathToken (here s)"
    and Q: "\<And>x s'. good ok r s' \<Longrightarrow> same s s' \<Longrightarrow> ps_i s \<le> ps_i s' \<Longrightarrow> Q x s'"
  shows "wp (typedAlias r) Q s"
proof -
  have "wp (thenA advanceToken (thenA advanceToken (parseInfixType r)))
      (\<lambda>_ s'. good ok r s' \<and> same s s' \<and> ps_i s < ps_i s') s"
    using aliasType_ok s by (auto simp: consumesIf_def)
  moreover have "Q False s" using Q [OF s(1)] by simp
  ultimately show ?thesis
    unfolding wp_def typedAlias_def
    by (auto intro!: Q simp: same_def le_trans [OF less_imp_le] split: sum.splits ParserStop.splits FrontendError.splits)
qed

lemma selfAlias_ok [THEN wp_keeps, wp_rules]: "keeps ok r N 0 (selfAlias r) (\<lambda>_. True)"
  unfolding selfAlias_def
  by (rule keepsI) (auto simp: wp_simps cond_simps importToken_kind intro!: wp_rules)

subsection \<open>Enumeration cases\<close>

lemma good_enumTarget:
  "good ok r s \<Longrightarrow> pred_option (list_all (enumCaseFits ok)) t \<Longrightarrow> good ok r (s\<lparr>ps_enumTarget := t\<rparr>)"
  by (simp add: good_def live_def)

lemma appendEnumCase_ok [THEN wp_keeps, wp_rules]:
  assumes "enumCaseFits ok c"
  shows "keeps ok r N 0 (appendEnumCase c) (\<lambda>_. True)"
  unfolding appendEnumCase_def
  by (rule keepsI)
    (use assms in \<open>auto simp: wp_simps same_def surroundings_def good_def live_def option.pred_map pred_option_def\<close>)

lemma enumCaseParams_ok [THEN wp_keeps, wp_rules]:
  "keeps ok r N 0 (enumCaseParams r) (\<lambda>x. list_all (paramOK ok) (fst x))"
  unfolding enumCaseParams_def
  by (rule keepsI) (auto simp: wp_simps cond_simps list_all_iff intro!: wp_rules)

lemma enumCaseParent_ok [THEN wp_keeps, wp_rules]:
  "keeps ok r N 0 (enumCaseParent r j) (\<lambda>x. list_all (plain ok) (fst x))"
  unfolding enumCaseParent_def
  by (rule keepsI) (auto simp: wp_simps cond_simps parentOK_def intro!: wp_rules split: list.split)

lemma parseEnumCase_ok [THEN wp_consumes, wp_rules]:
  "consumes ok r N 0 (parseEnumCase r j) (\<lambda>c _. enumCaseFits ok c)"
  unfolding parseEnumCase_def
  by (rule consumesI) (auto simp: wp_simps cond_simps enumCaseFits_def intro!: wp_rules)

lemma parseEnumCases_ok [THEN wp_consumes, wp_rules]: "consumes ok r N 0 (parseEnumCases r) (\<lambda>_ _. True)"
  unfolding parseEnumCases_def
  by (rule consumesI) (auto simp: wp_simps cond_simps intro!: wp_loop [where J = "\<lambda>_ _. True"] wp_rules)

subsection \<open>Template bodies\<close>

lemma parseTemplateStat_ok [THEN wp_consumes, wp_rules]:
  "consumes ok r N 2 (parseTemplateStat r) (\<lambda>x _. pred_option ok x)"
  unfolding parseTemplateStat_def
  by (rule consumesI) (auto simp: wp_simps cond_simps ok_simps intro!: wp_rules)

lemma templateStats_ok: "keeps ok r N 2 (templateStats r statsEnd) (list_all ok)"
  unfolding templateStats_def templateStatsFrom_def
  by (rule keepsI, rule wp_loop [where J = "\<lambda>ss _. list_all ok ss"])
    (auto simp: wp_simps cond_simps optList_def intro!: wp_rules split: option.split)

lemmas [wp_rules] = withTemplateBody_ok [OF templateStats_ok, THEN wp_keeps]

lemma openTemplateBody_ok [THEN wp_consumes, wp_rules]: "consumes ok r N 0 openTemplateBody (\<lambda>_ _. True)"
  unfolding openTemplateBody_def
  by (rule consumesI) (auto simp: wp_simps cond_simps)

lemma parseTemplateBody_ok:
  "consumes ok r N 0 (parseTemplateBody r) (\<lambda>x _. list_all ok (snd x))"
  unfolding parseTemplateBody_def
  by (rule consumesI) (auto simp: wp_simps cond_simps intro!: wp_rules)

lemmas [wp_rules] = parseTemplateBody_ok [THEN wp_consumes]

subsection \<open>Classes, enumerations and extensions\<close>

lemma skipDerives_ok [THEN wp_keeps, wp_rules]: "keeps ok r N 0 (skipDerives r) (\<lambda>_. True)"
  unfolding skipDerives_def
  by (rule keepsI) (auto simp: wp_simps cond_simps intro!: wp_rules)

lemma extendsClause_ok [THEN wp_keeps, wp_rules]: "keeps ok r N 0 (extendsClause r) (list_all (parentOK ok))"
  unfolding extendsClause_def
  by (rule keepsI) (auto simp: wp_simps cond_simps intro!: wp_rules)

lemma skipToBody_ok [THEN wp_keeps, wp_rules]: "keeps ok r N 0 skipToBody (\<lambda>_. True)"
  unfolding skipToBody_def
  by (rule keepsI) (auto simp: wp_simps cond_simps)

lemma constructorParams_ok [THEN wp_keeps, wp_rules]:
  "keeps ok r N 0 (constructorParams r kind) (\<lambda>x. list_all (paramOK ok) (fst x))"
  unfolding constructorParams_def
  by (rule keepsI) (auto simp: wp_simps cond_simps intro!: wp_rules)

lemma templateHead_kind: "td_kind (templateHead pos kind name c mods tps h sn) = kind"
  by (simp add: templateHead_def newTemplate_def)

lemma templateKindOf_enum: "templateKindOf k = Some kind \<Longrightarrow> kind \<noteq> TM_Enum \<and> k \<noteq> EndOfFile"
  by (auto simp: templateKindOf_def split: if_splits)

lemma parseTemplateDef_ok [THEN wp_consumes, wp_rules]:
  "consumes ok r N 0 (parseTemplateDef r mods) (\<lambda>n _. ok n)"
  unfolding parseTemplateDef_def
  by (rule consumesI)
    (auto simp: wp_simps cond_simps templateHead_kind dest!: templateKindOf_enum intro!: wp_rules ok_template
      split: option.split)

lemma withEnumTarget_ok:
  assumes m: "consumes ok r N k m (\<lambda>x _. P x)"
  shows "consumes ok r N k (withEnumTarget m) (\<lambda>x _. P (fst x) \<and> list_all (enumCaseFits ok) (snd x))"
proof (rule consumesI)
  fix s assume s: "good ok r s" "room N k s"
  let ?s = "s\<lparr>ps_enumTarget := Some []\<rparr>"
  have "good ok r ?s" "room N k ?s" using s by (simp_all add: good_enumTarget room_def tokenCount_toks)
  then have "wp m (\<lambda>x s'. good ok r s' \<and> same ?s s' \<and> ps_i ?s < ps_i s' \<and> P x) ?s"
    using m by (auto simp: consumes_def)
  then show "wp (withEnumTarget m)
     (\<lambda>x s'. good ok r s' \<and> same s s' \<and> ps_i s < ps_i s' \<and> P (fst x) \<and> list_all (enumCaseFits ok) (snd x)) s"
    using s(1)
    by (auto simp: withEnumTarget_def wp_simps same_def surroundings_def good_def live_def
        split: option.split elim!: wp_mono)
qed

lemmas [wp_rules] = withEnumTarget_ok [OF parseTemplateBody_ok, THEN wp_consumes]

lemma parseEnumDef_ok [THEN wp_consumes, wp_rules]: "consumes ok r N 0 (parseEnumDef r mods) (\<lambda>n _. ok n)"
  unfolding parseEnumDef_def
  by (rule consumesI) (auto simp: wp_simps cond_simps templateHead_kind intro!: wp_rules ok_template)

lemma memberAnnotations_ok [THEN wp_keeps, wp_rules]: "keeps ok r N 0 memberAnnotations (\<lambda>_. True)"
  unfolding memberAnnotations_def
  by (rule keepsI, rule wp_loop [where J = "\<lambda>_ _. True"]) (auto simp: wp_simps cond_simps intro!: wp_rules)

lemma extensionMember_ok [THEN wp_consumes, wp_rules]: "consumes ok r N 0 (extensionMember r) (\<lambda>n _. plain ok n)"
  unfolding extensionMember_def
  by (rule consumesI) (auto simp: wp_simps cond_simps intro!: wp_rules)

lemma extensionMembers_ok [THEN wp_keeps, wp_rules]:
  "keeps ok r N 0 (extensionMembers r terminator) (list_all (plain ok))"
  unfolding extensionMembers_def
  by (rule keepsI, rule wp_loop [where J = "\<lambda>ms _. list_all (plain ok) ms"])
    (auto simp: wp_simps cond_simps intro!: wp_rules)

lemma extensionBody_ok [THEN wp_keeps, wp_rules]: "keeps ok r N 0 (extensionBody r) (list_all (plain ok))"
  unfolding extensionBody_def
  by (rule keepsI) (auto simp: wp_simps cond_simps intro!: wp_rules)

lemma parseExtension_ok [THEN wp_consumesIf, wp_rules]:
  "consumesIf ok r N 0 (\<lambda>s. tk_kind (here s) \<noteq> EndOfFile) (parseExtension r) ok"
  unfolding parseExtension_def
  by (rule consumesIfI) (auto simp: wp_simps cond_simps intro!: wp_rules ok_extension)

subsection \<open>Definitions and blocks\<close>

lemma wp_notLazy [wp_simps]: "wp (notLazy isLazy what m) Q s \<longleftrightarrow> (isLazy \<or> wp m Q s)"
  by (simp add: notLazy_def wp_simps)

lemma extensionStart_kind: "isExtensionStart t t1 \<Longrightarrow> tk_kind t \<noteq> EndOfFile"
  by (auto simp: isExtensionStart_def)

lemma definitionBody_ok [THEN wp_consumes, wp_rules]:
  "consumes ok r N 0 (definitionBody r as mods isLazy) (\<lambda>n _. ok n)"
  unfolding definitionBody_def Let_def
  by (rule consumesI)
    (auto simp: wp_simps cond_simps ok_simps extensionStart_kind intro!: wp_rules)

lemma parseDefinition_ok: "consumes ok r N 0 (parseDefinition r) (\<lambda>n _. ok n)"
  unfolding parseDefinition_def
  by (rule consumesI) (auto simp: wp_simps cond_simps intro!: wp_rules)

lemma blockStats_ok: "keeps ok r N 2 (blockStats r terminator []) (list_all ok)"
  unfolding blockStats_def
  by (rule keepsI, rule wp_loop [where J = "\<lambda>ss _. list_all ok ss"])
    (auto simp: wp_simps cond_simps intro!: wp_rules)

lemma parseBlockBody_ok: "keeps ok r N 2 (parseBlockBody r terminator) (list_all ok)"
  unfolding parseBlockBody_def by (rule withTemplateBody_ok [OF blockStats_ok])

end

end
