(* ===== verification/HoleTexts.thy ===== *)
theory HoleTexts
  imports Layout
begin

text \<open>
  The text of an interpolation hole is shorter than the text it was found in, which is what bounds
  the nesting of the parsers that \<^verbatim>\<open>parseInterpolation\<close> starts on hole texts.
\<close>

subsection \<open>A scanned text takes no more than it consumes\<close>

lemma remaining_advance [simp]: "remaining (advance s) = remaining s - 1"
  using remaining_funpow [of 1 s] moves_remaining [OF moves_advance, of s] by (cases "remaining s") simp_all

lemma remaining_pos: "\<not> eof s \<longleftrightarrow> 0 < remaining s"
  by (auto simp: eof_def remaining_def)

lemma quoteRun_length: "quoteRun n s = (r, s') \<Longrightarrow> r + remaining s' \<le> n + remaining s"
proof (induction n s rule: quoteRun.induct)
  case (1 n s)
  then show ?case by (subst (asm) quoteRun.simps) (auto simp: remaining_pos split: if_splits)
qed

lemma nestedTripleLoop_length:
  "nestedTripleLoop start e s = (Inr e', s') \<Longrightarrow> length e' + remaining s' \<le> length e + remaining s"
proof (induction start e s rule: nestedTripleLoop.induct)
  case (1 start e s)
  then show ?case
    by (subst (asm) (3) nestedTripleLoop.simps)
      (fastforce simp: remaining_pos dest: quoteRun_length split: if_splits prod.splits)
qed

lemma nestedStringLoop_length:
  "nestedStringLoop start e s = (Inr e', s') \<Longrightarrow> length e' + remaining s' \<le> length e + remaining s"
proof (induction start e s rule: nestedStringLoop.induct)
  case (1 start e s)
  then show ?case
    by (subst (asm) (4) nestedStringLoop.simps) (auto simp: remaining_pos split: if_splits)
qed

lemma peekChar_remaining: "peekChar s k \<noteq> NUL \<Longrightarrow> k < remaining s"
  by (auto simp: peekChar_def remaining_def split: if_splits)

lemma nestedLiteral_length:
  assumes "nestedLiteral start e s = (Inr e', s')" "\<not> eof s"
  shows "length e' + remaining s' \<le> length e + remaining s"
proof (cases "peekChar s 1 = DQUOTE \<and> peekChar s 2 = DQUOTE")
  case True
  then have "2 < remaining s" using peekChar_remaining [of s 2] by simp
  with True assms nestedTripleLoop_length [of start _ "advance (advance (advance s))" e' s'] show ?thesis
    by (fastforce simp: nestedLiteral_def)
next
  case False
  with assms nestedStringLoop_length [of start "e @ [cur s]" "advance s" e' s'] show ?thesis
    by (auto simp: nestedLiteral_def remaining_pos split: if_splits)
qed

lemma holeLoop_length:
  "holeLoop triple start depth e s = (Inr e', s') \<Longrightarrow> length e' + remaining s' \<le> length e + remaining s"
proof (induction triple start depth e s rule: holeLoop.induct)
  case (1 triple start depth e s)
  show ?case
  proof (cases "\<not> eof s \<and> cur s = DQUOTE")
    case True
    with 1(5) obtain e1 s1 where n: "nestedLiteral start e s = (Inr e1, s1)"
      and h: "holeLoop triple start depth e1 s1 = (Inr e', s')"
      by (subst (asm) holeLoop.simps) (auto split: prod.splits sum.splits)
    from 1(3) [OF _ _ _ _ n [symmetric] _ h] True nestedLiteral_length [OF n] show ?thesis by simp
  next
    case False
    with 1 show ?thesis
      by (subst (asm) (5) holeLoop.simps) (auto simp: remaining_pos split: if_splits)
  qed
qed

lemma holeNameLoop_length:
  "holeNameLoop name s = (name', s') \<Longrightarrow> length name' + remaining s' \<le> length name + remaining s"
proof (induction name s rule: holeNameLoop.induct)
  case (1 name s)
  let ?k = "holeIdentCharLength s (lx_pos s)"
  show ?case
  proof (cases "?k = 0")
    case True
    with 1(2) show ?thesis by (simp add: holeNameLoop.simps [of name s])
  next
    case False
    have "?k \<le> remaining s" using holeIdentCharLength_bound [of s "lx_pos s"] by (simp add: remaining_def)
    with 1 False remaining_funpow [of ?k s] show ?thesis
      by (simp add: holeNameLoop.simps [of name s] remaining_def)
  qed
qed

subsection \<open>The holes of a token\<close>

definition shortHoles :: "nat \<Rightarrow> InterpolationPart list \<Rightarrow> bool" where
  "shortHoles n parts \<longleftrightarrow> (\<forall>q \<in> set parts. ip_isHole q \<longrightarrow> length (ip_text q) < n)"

lemma shortHoles_simps [simp]:
  "shortHoles n []" "shortHoles n (ps @ qs) \<longleftrightarrow> shortHoles n ps \<and> shortHoles n qs"
  "shortHoles n (flushLiteral ps l at) = shortHoles n ps"
  by (auto simp: shortHoles_def flushLiteral_def)

lemma readHole_short:
  assumes "readHole triple start at s = (Inr q, s')" "remaining s < n"
  shows "shortHoles n [q]"
  using assms holeLoop_length [of triple start 1 "[]" "advance s" _ s'] holeNameLoop_length [of "[]" s _ s']
  by (fastforce simp: readHole_def shortHoles_def holePart_def split: if_splits prod.splits sum.splits)

lemma interpolationLoop_short:
  "interpolationLoop triple raw start parts literal at s = (Inr parts', s') \<Longrightarrow> shortHoles n parts \<Longrightarrow>
   remaining s \<le> n \<Longrightarrow> shortHoles n parts'"
proof (induction triple raw start parts literal at s rule: interpolationLoop.induct)
  case (1 triple raw start parts literal at s)
  obtain run q where q: "quoteRun 0 s = (run, q)" by fastforce
  obtain r h where h: "readHole triple start (curPos s) (advance s) = (r, h)" by fastforce
  obtain msg lit e where e: "readEscape literal (advance s) = ((msg, lit), e)" by (metis prod.exhaust)
  have m: "remaining q \<le> n" "remaining h \<le> n" "remaining e \<le> n"
    using moves_remaining [OF quotes.scan_movesD [OF q]] moves_remaining [OF read_hole.scan_movesD [OF h]]
      moves_remaining [OF escapes.scan_movesD [OF e]] 1(8) by auto
  show ?case
  proof (cases "\<not> eof s \<and> cur s = CHR ''$'' \<and> cur (advance s) \<noteq> CHR ''$''")
    case True
    with 1(6) h obtain hole where hole: "r = Inr hole"
      and i: "interpolationLoop triple raw start (flushLiteral parts literal at @ [hole]) [] (curPos h) h = (Inr parts', s')"
      by (subst (asm) interpolationLoop.simps) (auto split: sum.splits)
    have "shortHoles n [hole]" using readHole_short h hole 1(8) True by (auto simp: remaining_pos)
    with True 1(3) [OF _ _ _ _ _ _ h [symmetric] hole i] 1(7) m(2) show ?thesis by simp
  next
    case False
    with 1 m show ?thesis
      by (subst (asm) (6) interpolationLoop.simps) (auto simp: q e split: if_splits)
  qed
qed

lemma parts_makeToken [simp]: "tk_parts (makeToken k p acc s) = []" "tk_parts (lexError msg p e s) = []"
  by (simp_all add: makeToken_def lexError_def defaultToken_def)

lemma lexInterpolated_short:
  assumes "remaining s \<le> n" "tk_kind (fst (lexInterpolated i start s)) \<noteq> Error"
  shows "shortHoles n (tk_parts (fst (lexInterpolated i start s)))"
proof -
  let ?triple = "cur (advance s) = DQUOTE \<and> peekChar (advance s) 1 = DQUOTE"
  let ?s2 = "if ?triple then advance (advance (advance s)) else advance s"
  have "remaining ?s2 \<le> n" using assms(1) by auto
  then show ?thesis
    using assms(2) interpolationLoop_short [of ?triple "i = ''raw''" start "[]" "[]" "curPos ?s2" ?s2 _ _ n]
      interpolationLoop_result [of ?triple "i = ''raw''" start "[]" "[]" "curPos ?s2" ?s2]
    by (auto simp: lexInterpolated_def Let_def split: prod.splits sum.splits)
qed

lemma lexString_parts: "tk_kind (fst (lexString s)) \<noteq> Error \<Longrightarrow> tk_parts (fst (lexString s)) = []"
  by (auto simp: lexString_def Let_def dest: stringLoop_result split: prod.splits sum.splits option.splits if_splits)

lemma lexChar_parts: "tk_kind (fst (lexChar s)) \<noteq> Error \<Longrightarrow> tk_parts (fst (lexChar s)) = []"
  by (auto simp: lexChar_def Let_def dest: charBody_result split: prod.splits sum.splits if_splits)

lemma lexNumber_parts: "tk_parts (fst (lexNumber s)) = []"
proof -
  have "tk_parts (fst (finishNumber st b f d s')) = []" for st b f d s'
    by (simp add: finishNumber_def Let_def split: prod.split)
  then show ?thesis by (simp add: lexNumber_def Let_def split: prod.split option.split)
qed

lemma lexIdentifier_short:
  assumes "remaining s \<le> n" "tk_kind (fst (lexIdentifierOrKeyword s)) \<noteq> Error"
  shows "shortHoles n (tk_parts (fst (lexIdentifierOrKeyword s)))"
proof -
  obtain w s1 where i: "identLoop False [] s = (w, s1)" by fastforce
  with assms(1) have "remaining s1 \<le> n" using moves_remaining [OF ident_loop.scan_movesD [OF i]] by simp
  with i assms(2) show ?thesis
    by (auto simp: lexIdentifierOrKeyword_def Let_def intro: lexInterpolated_short split: option.splits if_splits)
qed

lemma lexToken_short:
  assumes "remaining s \<le> n" "tk_kind (fst (lexToken s)) \<noteq> Error"
  shows "shortHoles n (tk_parts (fst (lexToken s)))"
  using assms(2) lexIdentifier_short [OF assms(1)] lexString_parts [of s] lexChar_parts [of s] lexNumber_parts [of s]
  by (cases "punctuation (cur s)")
    (auto simp: lexToken_def Let_def lexBackquoted_def lexOperator_def split: prod.splits if_splits)

lemma remaining_source: "remaining s \<le> length (lx_source s)"
  by (simp add: remaining_def)

lemma lexNext_short:
  assumes "tk_kind (fst (lexNext s)) \<noteq> Error"
  shows "shortHoles (length (lx_source s)) (tk_parts (fst (lexNext s)))"
proof (cases s rule: lexNext_cases)
  case (token tr s1 s2 t s3)
  have "lx_source (noteIndentation s2) = lx_source s"
    using skipTrivia_source [OF token(2)] token(3) by (simp add: noteIndentation_def)
  with token assms lexToken_short [of "noteIndentation s2" "length (lx_source s)"]
    remaining_source [of "noteIndentation s2"] show ?thesis by simp
qed (use assms in \<open>auto simp: defaultToken_def\<close>)

lemma length_stripBom: "length (stripBom src) \<le> length src"
  by (simp add: stripBom_def)

lemma shortHoles_mono: "shortHoles m ps \<Longrightarrow> m \<le> n \<Longrightarrow> shortHoles n ps"
  by (auto simp: shortHoles_def)

lemma tokenizeAll_short:
  "list_all (\<lambda>t. tk_kind t \<noteq> Error \<longrightarrow> shortHoles (length src) (tk_parts t)) (tokenizeAll src)"
  unfolding tokenizeAll_def
proof (rule tokenizeFrom_all [where good = "\<lambda>s. lx_source s = stripBom src"])
  show "lx_source (newLexer src) = stripBom src" by (simp add: newLexer_def Let_def)
qed (metis lexNext_short shortHoles_mono length_stripBom, simp add: lexNext_source)

subsection \<open>Through the layout pass\<close>

definition shortOut :: "nat \<Rightarrow> LayoutPass \<Rightarrow> bool" where
  "shortOut n L \<longleftrightarrow> list_all (\<lambda>t. shortHoles n (tk_parts t)) (lp_out L)"

lemma shortOut_update [simp]:
  "shortOut n (L\<lparr>lp_regions := rs\<rparr>) = shortOut n L" "shortOut n (L\<lparr>lp_prevKind := k\<rparr>) = shortOut n L"
  "shortOut n (L\<lparr>lp_prevClosesCondition := b\<rparr>) = shortOut n L"
  "shortOut n (L\<lparr>lp_extensionHeaderLine := i\<rparr>) = shortOut n L"
  "shortOut n (L\<lparr>lp_out := lp_out L @ [t]\<rparr>) \<longleftrightarrow> shortOut n L \<and> shortHoles n (tk_parts t)"
  "shortOut n (pushRegion r L) = shortOut n L" "shortOut n (setBack r L) = shortOut n L"
  "shortOut n (setPending ks L) = shortOut n L" "shortOut n (settleWidth w c L) = shortOut n L"
  "shortOut n (conditionClosed L) = shortOut n L"
  by (simp_all add: shortOut_def pushRegion_def setBack_def settleWidth_back conditionClosed_out)

lemma parts_synthToken [simp]: "tk_parts (synthToken k t) = []"
  by (simp add: synthToken_def defaultToken_def)

lemma shortOut_synth [simp]: "shortOut n (synth k t L) = shortOut n L"
  by (simp add: synth_def Let_def shortOut_def)

lemma shortOut_popIndented [simp]: "shortOut n (popIndented go t L) = shortOut n L"
  by (rule popIndented_out [of go t L]) (simp add: shortOut_def list_all_length nth_append)

lemma shortOut_unindent: "shortOut n L \<Longrightarrow> unindent t rest L = Inr L1 \<Longrightarrow> shortOut n L1"
  unfolding unindent_def Let_def by (auto split: if_splits)

lemma shortOut_lineBreak: "shortOut n L \<Longrightarrow> lineBreak t rest L = Inr L1 \<Longrightarrow> shortOut n L1"
  unfolding lineBreak_def Let_def by (auto dest: shortOut_unindent [rotated] split: if_splits)

lemma shortOut_breakLine: "shortOut n L \<Longrightarrow> breakLine t rest L = Inr L1 \<Longrightarrow> shortOut n L1"
  by (auto simp: breakLine_def dest: shortOut_lineBreak split: if_splits)

lemma shortOut_closeByKeyword [simp]: "shortOut n (closeByKeyword t L) = shortOut n L"
  by (auto simp: closeByKeyword_def satisfyPending_def Let_def split: option.splits list.splits)

lemma shortOut_enterToken: "enterToken t rest L = Inr (c, L1) \<Longrightarrow> shortOut n L1 = shortOut n L"
proof (cases "isCloser (tk_kind t)")
  case True
  moreover assume e: "enterToken t rest L = Inr (c, L1)"
  ultimately obtain b L2 where b: "closeBracket t L = Inr (b, L2)"
    by (auto simp: enterToken_def Let_def isCloser_def split: sum.splits)
  then have "shortOut n L2 = shortOut n L" by (auto simp: closeBracket_def Let_def split: if_splits)
  then show ?thesis using enterToken_closer [OF True b e] by auto
next
  case False
  moreover assume "enterToken t rest L = Inr (c, L1)"
  ultimately show ?thesis by (auto simp: enterToken_def Let_def split: if_splits)
qed

lemma shortOut_emitToken:
  assumes "emitToken t rest L = Inr L'"
  shows "shortOut n L' \<longleftrightarrow> shortOut n L \<and> shortHoles n (tk_parts t)"
proof -
  obtain c L1 where e: "enterToken t rest (closeByKeyword t L) = Inr (c, L1)"
    using assms by (auto simp: emitToken_def split: sum.splits)
  moreover have "lp_out L' = lp_out L1 @ [relabel t rest]"
    using assms e by (auto simp: emitToken_def Let_def)
  then have "shortOut n L' \<longleftrightarrow> shortOut n L1 \<and> shortHoles n (tk_parts t)"
    by (simp add: shortOut_def relabel_def)
  ultimately show ?thesis using shortOut_enterToken [OF e, of n] by simp
qed

interpretation short_holes: layout_invariant
  "\<lambda>raw L. list_all (\<lambda>t. tk_kind t \<noteq> Error \<longrightarrow> shortHoles n (tk_parts t)) raw \<and> shortOut n L"
  "list_all (\<lambda>t. shortHoles n (tk_parts t))" for n
proof unfold_locales
  fix t rest L L1 L2
  assume "\<not> terminalKind (tk_kind t)" "breakLine t rest L = Inr L1" "tryEndMarker t rest L1 = Some L2"
    and "list_all (\<lambda>t. tk_kind t \<noteq> Error \<longrightarrow> shortHoles n (tk_parts t)) (t # rest) \<and> shortOut n L"
  then show "list_all (\<lambda>t. tk_kind t \<noteq> Error \<longrightarrow> shortHoles n (tk_parts t)) (tl rest) \<and> shortOut n L2"
    by (cases rest) (auto simp: tryEndMarker_def endMarker_def terminalKind_def dest: shortOut_breakLine split: if_splits)
next
  fix t rest L L1 L2
  assume "\<not> terminalKind (tk_kind t)" "breakLine t rest L = Inr L1" "emitToken t rest L1 = Inr L2"
    and "list_all (\<lambda>t. tk_kind t \<noteq> Error \<longrightarrow> shortHoles n (tk_parts t)) (t # rest) \<and> shortOut n L"
  then show "list_all (\<lambda>t. tk_kind t \<noteq> Error \<longrightarrow> shortHoles n (tk_parts t)) rest \<and> shortOut n L2"
    by (auto simp: shortOut_emitToken terminalKind_def dest: shortOut_breakLine)
next
  fix t rest L out
  assume "tk_kind t = EndOfFile" "finishLayout t L = Inr out"
    and "list_all (\<lambda>t. tk_kind t \<noteq> Error \<longrightarrow> shortHoles n (tk_parts t)) (t # rest) \<and> shortOut n L"
  then show "list_all (\<lambda>t. shortHoles n (tk_parts t)) out"
    using shortOut_popIndented [of n "\<lambda>_. True" t L]
    by (auto simp: finishLayout_def Let_def shortOut_def simp del: shortOut_popIndented split: if_splits)
qed

lemma tokenize_short:
  assumes "tokenize src = Inr toks" "t \<in> set toks" "q \<in> set (tk_parts t)" "ip_isHole q"
  shows "length (ip_text q) < length src"
proof -
  have "shortOut (length src) (newLayoutPass (tokenizeAll src))"
    by (simp add: shortOut_def newLayoutPass_def)
  then have "list_all (\<lambda>t. shortHoles (length src) (tk_parts t)) toks"
    using short_holes.applyLayout_sound [OF tokenizeAll_suffix, of "length src" src toks] tokenizeAll_short [of src]
      assms(1) by (simp add: tokenize_def)
  with assms show ?thesis by (auto simp: list_all_iff shortHoles_def)
qed

end
