(* ===== verification/ParserTotal.thy ===== *)
theory ParserTotal
  imports ParserWalkTemplates HoleTexts
begin

text \<open>
  The parser as a whole.  The contract of the grammar rules holds for every recursion bound, so the
  bound that \<open>parseText\<close> takes is never exhausted, and every tree the parser returns satisfies
  \<open>parsedTree\<close>.
\<close>

subsection \<open>The contract for every bound\<close>

lemma consumes_Suc:
  "consumes ok r N k m P \<Longrightarrow> r_hole r' = r_hole r \<Longrightarrow> consumes ok r' (Suc N) (Suc k) m P"
  by (simp add: consumes_def room_def good_def)

lemma keeps_Suc:
  "keeps ok r N k m P \<Longrightarrow> r_hole r' = r_hole r \<Longrightarrow> keeps ok r' (Suc N) (Suc k) m P"
  by (simp add: keeps_def room_def good_def)

lemma no_room: "good ok r s \<Longrightarrow> \<not> room 0 (Suc k) s"
  by (simp add: good_def live_def room_def tokenCount_toks)

context grammar_step
begin

lemmas rules_ok =
  parseExpr_ok parseInfix_ok parseType_ok parsePattern_ok parseInfixPattern_ok parseDefinition_ok

lemma contract_Suc: "contract ok (grammar r) (Suc N)"
  unfolding contract_def grammar_def
  using rules_ok [THEN consumes_Suc, of "grammar r"] parseBlockBody_ok [THEN keeps_Suc, of "grammar r"]
  by (simp add: grammar_def eval_nat_numeral)

end

text \<open>The entry points.\<close>

context grammar_step
begin

lemma parseSingleExpression_ok: "consumes ok r N 2 (parseSingleExpression r) (\<lambda>e _. plain ok e)"
  unfolding parseSingleExpression_def
  by (rule consumesI) (auto simp: wp_simps cond_simps intro!: wp_rules)

lemma parseCompilationUnit_ok: "keeps ok r N 3 (parseCompilationUnit r) (\<lambda>u. list_all ok (unitStats u))"
  unfolding parseCompilationUnit_def
  by (rule keepsI) (auto simp: wp_simps cond_simps intro!: wp_rules)

lemma parseHoleExpression_ok: "consumes ok r N 2 (parseHoleExpression r pos) (\<lambda>e _. plain ok e)"
  unfolding parseHoleExpression_def
  by (rule consumesI)
    (auto simp: wp_simps cond_simps plain_def [of _ "rebase _ _"] plain_def intro!: wp_rules ok_rebase)

end

subsection \<open>The nested parsers of the holes\<close>

lemma newParser_live: "live (newParser toks)"
  by (auto simp: live_def newParser_def withEof_def Let_def)

lemma newParser_good: "holesOK ok (r_hole r) (withEof toks) \<Longrightarrow> good ok r (newParser toks)"
  using newParser_live [of toks] by (simp add: good_def newParser_def Let_def)

lemma withEof_holes:
  "(\<And>t q. t \<in> set toks \<Longrightarrow> q \<in> set (tk_parts t) \<Longrightarrow> ip_isHole q \<Longrightarrow>
      case hole (ip_text q) (ip_pos q) of Inl e \<Rightarrow> e \<noteq> OutOfFuel | Inr n \<Rightarrow> plain ok n) \<Longrightarrow>
   holesOK ok hole (withEof toks)"
  by (auto simp: holesOK_def withEof_def defaultToken_def)

lemma newParser_room: "room (ruleBound (ps_toks (newParser toks))) 3 (newParser toks)"
  by (simp add: room_def ruleBound_def newParser_def tokenCount_toks Let_def)

lemma consumes_keeps: "consumes ok r N k m (\<lambda>x _. P x) \<Longrightarrow> k \<le> j \<Longrightarrow> keeps ok r N j m P"
  by (auto simp: consumes_def keeps_def room_def elim!: wp_mono)

context parsed_trees
begin

lemma contract_rules: "contract ok (rules hole n) n"
proof (induction n)
  case 0
  show ?case
    by (auto simp: contract_def consumes_def keeps_def eval_nat_numeral no_room)
next
  case (Suc n)
  then have "grammar_step ok (rules hole n) n"
    by (simp add: grammar_step_def grammar_step_axioms_def parsed_trees_axioms)
  then show ?case by (simp add: grammar_step.contract_Suc)
qed

lemma grammar_rules: "grammar_step ok (rules hole n) n"
  by (simp add: grammar_step_def grammar_step_axioms_def parsed_trees_axioms contract_rules)

lemma parseText_ok:
  assumes entry: "\<And>n. keeps ok (rules hole n) n 3 (entry (rules hole n)) P"
    and holes: "\<And>t pos. length t < length text \<Longrightarrow>
        case hole t pos of Inl e \<Rightarrow> e \<noteq> OutOfFuel | Inr n \<Rightarrow> plain ok n"
  shows "case parseText hole entry text of Inl e \<Rightarrow> e \<noteq> OutOfFuel | Inr x \<Rightarrow> P x"
proof (cases "tokenize text")
  case (Inr toks)
  have "holesOK ok hole (withEof toks)"
    by (rule withEof_holes) (rule holes, erule (2) tokenize_short [OF Inr])
  then have "good ok (rules hole (ruleBound (ps_toks (newParser toks)))) (newParser toks)"
    by (simp add: newParser_good)
  with entry newParser_room [of toks]
  have "wp (entry (rules hole (ruleBound (ps_toks (newParser toks))))) (\<lambda>x _. P x) (newParser toks)"
    unfolding keeps_def by (blast intro: wp_mono)
  with Inr show ?thesis by (auto simp: parseText_def wp_def Let_def split: sum.splits)
qed (simp add: parseText_def)

lemma parseHole_ok:
  "length src < d \<Longrightarrow> case parseHole d src pos of Inl e \<Rightarrow> e \<noteq> OutOfFuel | Inr n \<Rightarrow> plain ok n"
proof (induction d arbitrary: src pos)
  case (Suc d)
  have "keeps ok (rules hole n) n 3 (parseHoleExpression (rules hole n) pos) (plain ok)" for hole n
    by (rule consumes_keeps [OF grammar_step.parseHoleExpression_ok [OF grammar_rules]]) simp
  moreover have "case parseHole d t p of Inl e \<Rightarrow> e \<noteq> OutOfFuel | Inr n \<Rightarrow> plain ok n" if "length t < length src" for t p
    using Suc that by simp
  ultimately show ?case
    using parseText_ok [of "parseHole d" "\<lambda>r. parseHoleExpression r pos" "plain ok" src] by simp
qed simp

lemma parseWith_ok:
  assumes "\<And>hole n. keeps ok (rules hole n) n 3 (entry (rules hole n)) P"
  shows "case parseText (parseHole (length src)) entry src of Inl e \<Rightarrow> e \<noteq> OutOfFuel | Inr x \<Rightarrow> P x"
  by (rule parseText_ok [OF assms]) (rule parseHole_ok)

lemmas entries_ok =
  parseWith_ok [OF consumes_keeps [OF grammar_step.parseSingleExpression_ok [OF grammar_rules]]]
  parseWith_ok [OF grammar_step.parseCompilationUnit_ok [OF grammar_rules]]

end

subsection \<open>The parser's trees\<close>

lemma isAssignTarget_assignable: "isAssignTarget n = assignable n"
  by (cases n) (simp_all add: isAssignTarget_def assignable_def)

lemma parsed_negateLiteral:
  "parsedTree e \<Longrightarrow> parsedTree (negateLiteral p e)" "isPatternVal (negateLiteral p e) = isPatternVal e"
  by (induction p e rule: negateLiteral.induct) auto

lemma parsed_setPos [simp]: "parsedTree (setPos p n) = parsedTree n"
  by (cases n) simp_all

lemma set_Param_default: "set_Param p = set_option (pa_default p)"
  by (cases p) simp

lemma enumOK_enumeratorOK: "enumOK ok e \<Longrightarrow> enumeratorOK e"
  by (cases "en_pattern e") (auto simp: enumOK_def enumeratorOK_def)

lemmas part_defs =
  paramOK_def caseOK_def parentOK_def enumCaseFits_def plain_def list_all_iff pred_option_def set_Param_default

interpretation parsed: parsed_trees parsedTree
proof (unfold_locales, goal_cases)
  case (34 es e p f)
  then show ?case by (auto simp: list_all_iff enumOK_enumeratorOK enumOK_def plain_def)
qed (auto simp: part_defs isAssignTarget_assignable parsed_negateLiteral)

end
