(* ===== verification/DesugarUnit.thy ===== *)
theory DesugarUnit
  imports DesugarCore
begin

text \<open>
  The unit-level passes of \<^verbatim>\<open>src/src/frontend/Desugar.cpp\<close>: expansion of enumerations, lifting of
  templates nested in objects, synthesis of case-class companions, and the two entry points
  \<^verbatim>\<open>desugar\<close> and \<^verbatim>\<open>desugarModule\<close>.  \<^verbatim>\<open>expandEnum\<close> parses the source text it generates; the parser is
  the argument \<open>parse\<close> of the definitions that use it.
\<close>

subsection \<open>Templates\<close>

text \<open>The kind test and downcast: \<^verbatim>\<open>s->kind == NodeKind::TemplateDef\<close> and \<^verbatim>\<open>as<TemplateDef>(*s)\<close>.\<close>

type_synonym template =
  "TemplateHead \<times> Node Param list \<times> Node ParentRef list \<times> Node list \<times> Node EnumCase list"

fun asTemplate :: "Node \<Rightarrow> template option" where
  "asTemplate (TemplateDefN h ps prs b cs) = Some (h, ps, prs, b, cs)"
| "asTemplate _ = None"

lemma asTemplate_Some [simp]: "asTemplate n = Some (h, ps, prs, b, cs) \<longleftrightarrow> n = TemplateDefN h ps prs b cs"
  by (cases n) auto

lemma asTemplate_cases:
  obtains (template) h ps prs b cs where "n = TemplateDefN h ps prs b cs" | (other) "asTemplate n = None"
  by (cases n) auto

subsection \<open>Enumerations\<close>

definition singleton :: "Node EnumCase \<Rightarrow> bool" where
  "singleton c \<longleftrightarrow> ec_params c = [] \<and> \<not> ec_hasParens c"

definition enumClass ::
  "TemplateHead \<Rightarrow> Node Param list \<Rightarrow> Node ParentRef list \<Rightarrow> Node list \<Rightarrow> Node" where
  "enumClass e ctorParams parents body =
     TemplateDefN
       ((newTemplate (td_pos e) TM_Class (td_name e))
          \<lparr>td_mods := (td_mods e)\<lparr>isAbstract := True, isSealed := True\<rparr>, td_typeParams := td_typeParams e,
           td_hasParamClause := td_hasParamClause e, td_selfName := td_selfName e\<rparr>)
       ctorParams
       (parents @ [ParentRef (TypeTree TK_Builtin kEnumMarkerKey [] (td_pos e)) [] False (td_pos e)])
       body []"

definition caseTemplate :: "byte_string \<Rightarrow> nat \<Rightarrow> Node EnumCase \<Rightarrow> Node" where
  "caseTemplate enumName i c =
     (let pos = ec_pos c in
      TemplateDefN
        ((newTemplate pos (if singleton c then TM_Object else TM_Class) (ec_name c))
           \<lparr>td_isCase := True, td_hasParamClause := ec_hasParens c\<rparr>)
        (ec_params c)
        [ParentRef (nameType enumName pos) (ec_parentArgs c) (ec_hasParentArgs c) pos]
        [ValDefN ((newValDef pos ''ordinal'')\<lparr>vd_type := Some (nameType ''Int'' pos)\<rparr>)
           (Some (IntLitN pos (int i) True [] 10)) None]
        [])"

definition DQ :: byte_string where
  "DQ = [CHR 0x22]"

definition NL :: byte_string where
  "NL = [CHR 0x0A]"

definition enumSource :: "byte_string \<Rightarrow> bool \<Rightarrow> byte_string list \<Rightarrow> byte_string" where
  "enumSource name allSingletons singletons =
     (if allSingletons then
        ''def values: List['' @ name @ ''] = '' @ concat (map (\<lambda>c. c @ '' :: '') singletons) @ ''Nil'' @ NL @
        ''def valueOf(name: String): '' @ name @ '' ='' @ NL @
        concat (map (\<lambda>c. ''  if name == '' @ DQ @ c @ DQ @ '' then '' @ c @ '' else'' @ NL) singletons) @
        ''  throw new IllegalArgumentException('' @ DQ @ ''enum '' @ name @
        '' has no case with name: '' @ DQ @ '' + name)'' @ NL
      else []) @
     ''def fromOrdinal(n: Int): '' @ name @ '' ='' @ NL @
     concat (map (\<lambda>c. ''  if n == '' @ c @ ''.ordinal then '' @ c @ '' else'' @ NL) singletons) @
     ''  throw new NoSuchElementException('' @ DQ @ ''enum '' @ name @
     '' has no case with ordinal: '' @ DQ @ '' + n)'' @ NL"

definition expandEnum ::
  "(byte_string \<Rightarrow> FrontendError + Node list) \<Rightarrow> TemplateHead \<Rightarrow> Node Param list \<Rightarrow> Node ParentRef list \<Rightarrow>
   Node list \<Rightarrow> Node EnumCase list \<Rightarrow> FrontendError + Node list" where
  "expandEnum parse e ctorParams parents body enumCases =
     bindE (parse (enumSource (td_name e) (list_all singleton enumCases)
                     (map ec_name (filter singleton enumCases)))) (\<lambda>generated.
       Inr [enumClass e ctorParams parents body,
            TemplateDefN ((newTemplate (td_pos e) TM_Object (td_name e))\<lparr>td_enumCompanion := True\<rparr>) [] []
              (map (\<lambda>(i, c). caseTemplate (td_name e) i c) (enumerate 0 enumCases) @
               map (rebase (td_pos e)) generated) []])"

text \<open>
  \<^verbatim>\<open>mergeEnumCompanions\<close>: each generated companion absorbs the first hand-written object of its
  name, whose slot is emptied.
\<close>

definition isUserCompanion :: "byte_string \<Rightarrow> Node option \<Rightarrow> bool" where
  "isUserCompanion name u =
     (case Option.bind u asTemplate of
        Some (h, ps, prs, ss, cs) \<Rightarrow> \<not> td_enumCompanion h \<and> td_kind h = TM_Object \<and> td_name h = name
      | None \<Rightarrow> False)"

definition findUser :: "Node option list \<Rightarrow> nat \<Rightarrow> byte_string \<Rightarrow> nat option" where
  "findUser ss i name = find (\<lambda>j. j \<noteq> i \<and> isUserCompanion name (ss ! j)) [0..<length ss]"

definition absorb :: "Node \<Rightarrow> Node \<Rightarrow> Node" where
  "absorb gen user =
     (case (asTemplate gen, asTemplate user) of
        (Some (g, gps, gprs, gss, gcs), Some (u, ups, uprs, uss, ucs)) \<Rightarrow>
          TemplateDefN (g\<lparr>td_mods := td_mods u, td_isCase := td_isCase u, td_selfName := td_selfName u\<rparr>)
            gps uprs (gss @ uss) gcs
      | _ \<Rightarrow> gen)"

definition generatedName :: "Node option \<Rightarrow> byte_string option" where
  "generatedName g =
     (case Option.bind g asTemplate of
        Some (h, ps, prs, ss, cs) \<Rightarrow>
          if td_enumCompanion h \<and> td_kind h = TM_Object then Some (td_name h) else None
      | None \<Rightarrow> None)"

definition mergeAt :: "Node option list \<Rightarrow> nat \<Rightarrow> Node option list" where
  "mergeAt ss i =
     (case generatedName (ss ! i) of
        None \<Rightarrow> ss
      | Some name \<Rightarrow>
          (case findUser ss i name of
             None \<Rightarrow> ss
           | Some j \<Rightarrow> ss[i := Some (absorb (the (ss ! i)) (the (ss ! j))), j := None]))"

definition mergeEnumCompanions :: "Node list \<Rightarrow> Node list" where
  "mergeEnumCompanions ss = concat (map slot (foldl mergeAt (map Some ss) [0..<length ss]))"

function expandEnums ::
  "(byte_string \<Rightarrow> FrontendError + Node list) \<Rightarrow> Node list \<Rightarrow> FrontendError + Node list" where
  "expandEnums parse ss =
     bindE (traverseE (\<lambda>s.
        case asTemplate s of
          Some (h, ps, prs, body, cs) \<Rightarrow>
            if td_kind h = TM_Enum then expandEnum parse h ps prs body cs
            else bindE (expandEnums parse body) (\<lambda>body'. Inr [TemplateDefN h ps prs body' cs])
        | None \<Rightarrow> Inr [s]) ss)
      (\<lambda>out. Inr (mergeEnumCompanions (concat out)))"
  by auto
termination
  by (relation "measure (\<lambda>(parse, ss). size_list size ss)") (auto dest!: size_list_ge [of _ _ size])

declare expandEnums.simps [simp del]

subsection \<open>Nested templates\<close>

record LiftScope =
  ls_prefix :: byte_string
  ls_names :: "byte_string list"

text \<open>The scopes are listed innermost first, the order in which they are searched.\<close>

definition scopeEntries :: "LiftScope list \<Rightarrow> (byte_string \<times> byte_string) list" where
  "scopeEntries scopes = concat (map (\<lambda>sc. map (\<lambda>n. (ls_prefix sc, n)) (ls_names sc)) scopes)"

definition qualifySibling :: "LiftScope list \<Rightarrow> TypeTree \<Rightarrow> TypeTree" where
  "qualifySibling scopes ty =
     (case ty of
        TypeTree kind name args pos \<Rightarrow>
          if kind \<noteq> TK_Name \<and> kind \<noteq> TK_Applied then ty
          else
            (case find (\<lambda>(prefix, n). name = n) (scopeEntries scopes) of
               None \<Rightarrow> ty
             | Some (prefix, n) \<Rightarrow>
                 if prefix \<noteq> [] then TypeTree kind (prefix @ ''.'' @ n) args pos else ty))"

definition templateNames :: "Node list \<Rightarrow> byte_string list" where
  "templateNames ss =
     concat (map (\<lambda>s. case asTemplate s of Some (h, ps, prs, b, cs) \<Rightarrow> [td_name h] | None \<Rightarrow> []) ss)"

definition nestingError :: "SourcePos \<Rightarrow> FrontendError" where
  "nestingError pos =
     ParseError ''classes, traits and objects must be defined at the top level of a file or in an object''
       pos False"

definition qualifyParents :: "LiftScope list \<Rightarrow> Node ParentRef list \<Rightarrow> Node ParentRef list" where
  "qualifyParents scopes prs =
     map (\<lambda>p. ParentRef (qualifySibling scopes (pr_type p)) (pr_args p) (pr_hasArgs p) (pr_pos p)) prs"

text \<open>
  \<^verbatim>\<open>liftFrom\<close> returns the members a template keeps and the lifted templates, deeper ones first.
\<close>

function (sequential) liftFrom ::
    "LiftScope list \<Rightarrow> TemplateHead \<Rightarrow> Node list \<Rightarrow> Node list \<Rightarrow> FrontendError + Node list \<times> Node list"
  and liftBody ::
    "bool \<Rightarrow> byte_string \<Rightarrow> LiftScope list \<Rightarrow> Node list \<Rightarrow> Node list \<Rightarrow> Node list \<Rightarrow>
     FrontendError + Node list \<times> Node list" where
  "liftFrom scopes t body out =
     liftBody (td_kind t = TM_Object) (td_name t)
       (\<lparr>ls_prefix = td_name t, ls_names = templateNames body\<rparr> # scopes) body [] out"
| "liftBody isObject name scopes [] keep out = Inr (keep, out)"
| "liftBody isObject name scopes (m # ms) keep out =
     (case asTemplate m of
        Some (n, ps, prs, b, cs) \<Rightarrow>
          if \<not> isObject then Inl (nestingError (td_pos n))
          else
            let n' = n\<lparr>td_name := name @ ''.'' @ td_name n\<rparr> in
            bindE (liftFrom scopes n' b out) (\<lambda>(b', out').
              liftBody isObject name scopes ms keep
                (out' @ [TemplateDefN n' ps (qualifyParents scopes prs) b' cs]))
      | None \<Rightarrow> liftBody isObject name scopes ms (keep @ [m]) out)"
  by pat_completeness auto
termination
  by (relation "measure (\<lambda>x. case x of Inl (scopes, t, body, out) \<Rightarrow> Suc (size_list size body)
                          | Inr (isObject, name, scopes, ms, keep, out) \<Rightarrow> size_list size ms)") auto

declare liftFrom.simps [simp del] liftBody.simps [simp del]

text \<open>One top-level statement, and the whole unit.\<close>

fun liftStats :: "LiftScope list \<Rightarrow> Node list \<Rightarrow> Node list \<Rightarrow> FrontendError + Node list \<times> Node list" where
  "liftStats scopes [] out = Inr ([], out)"
| "liftStats scopes (s # ss) out =
     (case asTemplate s of
        Some (h, ps, prs, body, cs) \<Rightarrow>
          bindE (liftFrom scopes h body out) (\<lambda>(body', out').
          bindE (liftStats scopes ss out') (\<lambda>(ss', out'').
            Inr (TemplateDefN h ps prs body' cs # ss', out'')))
      | None \<Rightarrow> bindE (liftStats scopes ss out) (\<lambda>(ss', out'). Inr (s # ss', out')))"

definition liftNestedTemplates :: "Node list \<Rightarrow> FrontendError + Node list" where
  "liftNestedTemplates ss =
     bindE (liftStats [\<lparr>ls_prefix = [], ls_names = templateNames ss\<rparr>] ss []) (\<lambda>(ss', lifted).
       Inr (lifted @ ss'))"

subsection \<open>Case-class companions\<close>

definition syntheticApply :: "TemplateHead \<Rightarrow> Node Param list \<Rightarrow> Node" where
  "syntheticApply c ctorParams =
     DefDefN ((newDefDef (td_pos c) ''apply'')\<lparr>dd_synthetic := True\<rparr>)
       [map (\<lambda>p. Param ((newParam (pa_name (pa_head p)) (pa_pos (pa_head p)))
                          \<lparr>pa_repeated := pa_repeated (pa_head p),
                           pa_type := map_option cloneType (pa_type (pa_head p))\<rparr>) None) ctorParams]
       (Some (NewN (td_pos c) (nameType (td_name c) (td_pos c))
          (map (\<lambda>p. let pos = pa_pos (pa_head p); arg = IdentN pos (pa_name (pa_head p))
                    in if pa_repeated (pa_head p) then SpliceN pos arg else arg) ctorParams) True))"

definition syntheticUnapply :: "SourcePos \<Rightarrow> Node" where
  "syntheticUnapply pos =
     DefDefN ((newDefDef pos ''unapply'')\<lparr>dd_synthetic := True\<rparr>)
       [[Param (newParam ''<u>'' pos) None]] (Some (IdentN pos ''<u>''))"

definition isCompanionOf :: "byte_string \<Rightarrow> Node \<Rightarrow> bool" where
  "isCompanionOf name s =
     (case asTemplate s of
        Some (h, ps, prs, b, cs) \<Rightarrow> td_kind h = TM_Object \<and> td_name h = name
      | None \<Rightarrow> False)"

definition definesIn :: "byte_string \<Rightarrow> Node list \<Rightarrow> bool" where
  "definesIn name body =
     list_ex (\<lambda>m. case m of DefDefN d ls b \<Rightarrow> dd_name d = name | _ \<Rightarrow> False) body"

definition withSynthetics :: "TemplateHead \<Rightarrow> Node Param list \<Rightarrow> Node \<Rightarrow> Node" where
  "withSynthetics c ctorParams companion =
     (case asTemplate companion of
        Some (h, ps, prs, b, cs) \<Rightarrow>
          let b1 = (if definesIn ''apply'' b then b else b @ [syntheticApply c ctorParams]);
              b2 = (if definesIn ''unapply'' b1 then b1 else b1 @ [syntheticUnapply (td_pos c)])
          in TemplateDefN h ps prs b2 cs
      | None \<Rightarrow> companion)"

definition emptyCompanion :: "TemplateHead \<Rightarrow> Node" where
  "emptyCompanion c =
     TemplateDefN ((newTemplate (td_pos c) TM_Object (td_name c))\<lparr>td_synthetic := True\<rparr>) [] [] [] []"

text \<open>The last object of the name is taken; without one, an empty object is inserted after the class.\<close>

definition addCompanion :: "nat \<Rightarrow> TemplateHead \<Rightarrow> Node Param list \<Rightarrow> Node list \<Rightarrow> Node list" where
  "addCompanion k c ctorParams ss =
     (case find (\<lambda>j. isCompanionOf (td_name c) (ss ! j)) (rev [0..<length ss]) of
        Some j \<Rightarrow> ss[j := withSynthetics c ctorParams (ss ! j)]
      | None \<Rightarrow> take (k + 1) ss @ [withSynthetics c ctorParams (emptyCompanion c)] @ drop (k + 1) ss)"

definition isCaseClass :: "Node \<Rightarrow> bool" where
  "isCaseClass s =
     (case asTemplate s of Some (h, ps, prs, b, cs) \<Rightarrow> td_isCase h \<and> td_kind h = TM_Class | None \<Rightarrow> False)"

definition companionStep :: "nat \<Rightarrow> Node list \<Rightarrow> Node list" where
  "companionStep k ss =
     (case asTemplate (ss ! k) of
        Some (c, ps, prs, b, cs) \<Rightarrow>
          if td_isCase c \<and> td_kind c = TM_Class then addCompanion k c ps ss else ss
      | None \<Rightarrow> ss)"

lemma isCaseClass_withSynthetics [simp]: "isCaseClass (withSynthetics c ps n) = isCaseClass n"
  by (cases n rule: asTemplate_cases) (simp_all add: withSynthetics_def isCaseClass_def Let_def)

lemma not_isCaseClass_emptyCompanion [simp]: "\<not> isCaseClass (emptyCompanion c)"
  by (simp add: isCaseClass_def emptyCompanion_def newTemplate_def)

text \<open>
  A step either keeps the length or makes it one longer; it inserts only after a case class, and
  what it inserts is no case class.  So the case classes still ahead bound the insertions.
\<close>

definition pending :: "nat \<Rightarrow> Node list \<Rightarrow> nat" where
  "pending k ss = 2 * length (filter isCaseClass (drop k ss)) + (length ss - k)"

lemma map_isCaseClass_update:
  "map isCaseClass (ss[j := withSynthetics c ps (ss ! j)]) = map isCaseClass ss"
  by (cases "j < length ss") (simp_all add: map_update list_update_same_conv nth_map list_update_beyond)

lemma filter_count_map: "length (filter P xs) = length (filter id (map P xs))"
  by (induction xs) simp_all

lemma pending_cong:
  "map isCaseClass ss = map isCaseClass ss' \<Longrightarrow> pending k ss = pending k ss'"
  by (simp add: pending_def filter_count_map [of isCaseClass] drop_map [symmetric])
    (metis length_map)

lemma pending_Suc: "k < length ss \<Longrightarrow> pending (k + 1) ss < pending k ss"
  by (auto simp: pending_def Cons_nth_drop_Suc [symmetric])

lemma pending_insert:
  assumes "k < length ss" "isCaseClass (ss ! k)" "\<not> isCaseClass x"
  shows "pending (k + 1) (take (k + 1) ss @ [x] @ drop (k + 1) ss) < pending k ss"
proof -
  have "drop (k + 1) (take (k + 1) ss @ [x] @ drop (k + 1) ss) = x # drop (k + 1) ss"
    using assms(1) by (simp add: min_def)
  with assms show ?thesis
    by (simp add: pending_def Cons_nth_drop_Suc [symmetric, of k ss])
qed

lemma pending_companionStep:
  assumes "k < length ss"
  shows "pending (k + 1) (companionStep k ss) < pending k ss"
proof (cases "\<exists>c ps prs b cs. ss ! k = TemplateDefN c ps prs b cs \<and> td_isCase c \<and> td_kind c = TM_Class")
  case True
  then obtain c ps prs b cs where k: "ss ! k = TemplateDefN c ps prs b cs" "td_isCase c" "td_kind c = TM_Class"
    by blast
  then have "isCaseClass (ss ! k)" by (simp add: isCaseClass_def)
  moreover have "pending (k + 1) (ss[j := withSynthetics c ps (ss ! j)]) < pending k ss" for j
    using pending_Suc [OF assms] pending_cong [OF map_isCaseClass_update] by metis
  ultimately show ?thesis
    using assms k pending_insert [of k ss "withSynthetics c ps (emptyCompanion c)"]
    by (simp add: companionStep_def addCompanion_def split: option.split)
next
  case False
  then have "companionStep k ss = ss" by (auto simp: companionStep_def split: option.split)
  then show ?thesis using pending_Suc [OF assms] by simp
qed

function companionLoop :: "nat \<Rightarrow> Node list \<Rightarrow> Node list" where
  "companionLoop k ss = (if k < length ss then companionLoop (k + 1) (companionStep k ss) else ss)"
  by auto
termination
  by (relation "measure (\<lambda>(k, ss). pending k ss)") (use pending_companionStep in auto)

declare companionLoop.simps [simp del]

definition synthesizeCompanions :: "Node list \<Rightarrow> Node list" where
  "synthesizeCompanions ss = companionLoop 0 ss"

subsection \<open>Units and modules\<close>

definition desugar ::
  "(byte_string \<Rightarrow> FrontendError + Node list) \<Rightarrow> CompilationUnit \<Rightarrow> FrontendError + CompilationUnit" where
  "desugar parse u =
     bindE (expandEnums parse (unitStats u)) (\<lambda>ss1.
     bindE (liftNestedTemplates ss1) (\<lambda>ss2.
     bindE (stats (synthesizeCompanions ss2) newDesugarer) (\<lambda>(ss3, s). Inr (CompilationUnit ss3))))"

definition moduleFault :: "byte_string \<Rightarrow> Node \<Rightarrow> FrontendError option" where
  "moduleFault objectName s =
     (case s of
        DefDefN d ls b \<Rightarrow>
          if isMain d then
            Some (ParseError (''a module may not define an @main method: '' @ objectName @ '' is imported, not run'')
                    (dd_pos d) False)
          else None
      | TemplateDefN h ps prs b cs \<Rightarrow>
          if td_kind h = TM_Object \<and>
             list_ex (\<lambda>p. tt_kind (pr_type p) = TK_Name \<and> tt_name (pr_type p) = ''App'') prs then
            Some (ParseError (''a module may not define an App object: '' @ objectName @ '' is imported, not run'')
                    (td_pos h) False)
          else None
      | _ \<Rightarrow> None)"

definition isHoisted :: "Node \<Rightarrow> bool" where
  "isHoisted s = (case s of ImportN _ \<Rightarrow> True | ExtensionDefN _ _ _ _ \<Rightarrow> True | _ \<Rightarrow> False)"

definition moduleObject :: "byte_string \<Rightarrow> Node list \<Rightarrow> Node" where
  "moduleObject objectName ss =
     TemplateDefN
       ((newTemplate (case ss of [] \<Rightarrow> startPos | s # _ \<Rightarrow> nodePos s) TM_Object objectName)\<lparr>td_synthetic := True\<rparr>)
       [] [] (filter (\<lambda>s. \<not> isHoisted s) ss) []"

definition desugarModule ::
  "(byte_string \<Rightarrow> FrontendError + Node list) \<Rightarrow> CompilationUnit \<Rightarrow> byte_string \<Rightarrow> FrontendError + CompilationUnit" where
  "desugarModule parse u objectName =
     (case List.map_filter (moduleFault objectName) (unitStats u) of
        e # _ \<Rightarrow> Inl e
      | [] \<Rightarrow> desugar parse
                (CompilationUnit (filter isHoisted (unitStats u) @ [moduleObject objectName (unitStats u)])))"

end
