(* ===== verification/DesugarLift.thy ===== *)
theory DesugarLift
  imports DesugarUnit
begin

text \<open>
  What the unit-level passes of the desugarer guarantee: lifting leaves no template inside a
  template and gives every lifted one its qualified name, it fails exactly on a template nested in a
  class or a trait, every case class ends up with a companion that defines \<^verbatim>\<open>apply\<close> and \<^verbatim>\<open>unapply\<close>,
  and the whole pipeline turns a well-formed unit into core forms.
\<close>

subsection \<open>Lifting\<close>

definition isTemplate :: "Node \<Rightarrow> bool" where
  "isTemplate n \<longleftrightarrow> asTemplate n \<noteq> None"

definition isFlat :: "Node \<Rightarrow> bool" where
  "isFlat n = (case asTemplate n of Some (h, ps, prs, b, cs) \<Rightarrow> \<not> list_ex isTemplate b | None \<Rightarrow> True)"

text \<open>What a template keeps: the members that are no templates, in their order.\<close>

definition ownMembers :: "Node list \<Rightarrow> Node list" where
  "ownMembers body = filter (\<lambda>m. \<not> isTemplate m) body"

definition ownOnly :: "Node \<Rightarrow> Node" where
  "ownOnly n = (case asTemplate n of Some (h, ps, prs, b, cs) \<Rightarrow> TemplateDefN h ps prs (ownMembers b) cs | None \<Rightarrow> n)"

text \<open>A template as lifting must leave it: everything but the types of its parents, which may get a longer name.\<close>

type_synonym Shape = "TemplateHead \<times> Node Param list \<times> Node list list \<times> Node list \<times> Node EnumCase list"

definition shapes :: "Node list \<Rightarrow> Shape list" where
  "shapes ns =
     concat (map (\<lambda>n. case asTemplate n of
        Some (h, ps, prs, b, cs) \<Rightarrow> [(h, ps, map pr_args prs, b, cs)] | None \<Rightarrow> []) ns)"

text \<open>The templates nested in a body, as they must stand after lifting: deeper ones first.\<close>

function nestedShapes :: "byte_string \<Rightarrow> Node list \<Rightarrow> Shape list" where
  "nestedShapes prefix body =
     concat (map (\<lambda>m.
       case asTemplate m of
         Some (h, ps, prs, b, cs) \<Rightarrow>
           (let q = h\<lparr>td_name := prefix @ ''.'' @ td_name h\<rparr>
            in nestedShapes (td_name q) b @ [(q, ps, map pr_args prs, ownMembers b, cs)])
       | None \<Rightarrow> []) body)"
  by auto
termination
  by (relation "measure (\<lambda>(prefix, body). size_list size body)") (auto dest!: size_list_ge [of _ _ size])

declare nestedShapes.simps [simp del]

lemma nestedShapes_simps [simp]:
  "nestedShapes p [] = []"
  "asTemplate m = None \<Longrightarrow> nestedShapes p (m # ms) = nestedShapes p ms"
  "nestedShapes p (TemplateDefN h ps prs b cs # ms) =
     nestedShapes (p @ ''.'' @ td_name h) b @
     [(h\<lparr>td_name := p @ ''.'' @ td_name h\<rparr>, ps, map pr_args prs, ownMembers b, cs)] @ nestedShapes p ms"
  by (simp_all add: nestedShapes.simps [of p "[]"] nestedShapes.simps [of p "_ # ms"] nestedShapes.simps [of p ms])

lemma shapes_simps [simp]:
  "shapes [] = []"
  "shapes (xs @ ys) = shapes xs @ shapes ys"
  "shapes [TemplateDefN h ps prs b cs] = [(h, ps, map pr_args prs, b, cs)]"
  by (simp_all add: shapes_def)

lemma ownMembers_simps [simp]:
  "ownMembers [] = []"
  "asTemplate m = None \<Longrightarrow> ownMembers (m # ms) = m # ownMembers ms"
  "ownMembers (TemplateDefN h ps prs b cs # ms) = ownMembers ms"
  by (auto simp: ownMembers_def isTemplate_def)

lemma ownMembers_flat: "\<not> list_ex isTemplate (ownMembers b)"
  by (simp add: ownMembers_def list_ex_iff)

lemma qualifyParents_args [simp]: "map pr_args (qualifyParents scopes prs) = map pr_args prs"
  by (simp add: qualifyParents_def comp_def)

definition liftedOK :: "Shape list \<Rightarrow> Node list \<Rightarrow> bool" where
  "liftedOK ts new \<longleftrightarrow> list_all isTemplate new \<and> list_all isFlat new \<and> shapes new = ts"

lemma liftedOK_append: "liftedOK as xs \<Longrightarrow> liftedOK bs ys \<Longrightarrow> liftedOK (as @ bs) (xs @ ys)"
  by (simp add: liftedOK_def)

text \<open>Induction along the lifting, one case for each kind of member.\<close>

lemma lift_induct [case_names whole nil other template]:
  assumes whole: "\<And>scopes t body out.
      Q (td_kind t = TM_Object) (td_name t) (\<lparr>ls_prefix = td_name t, ls_names = templateNames body\<rparr> # scopes)
        body [] out \<Longrightarrow> P scopes t body out"
    and nil: "\<And>isObject name scopes keep out. Q isObject name scopes [] keep out"
    and other: "\<And>isObject name scopes m ms keep out.
      asTemplate m = None \<Longrightarrow> Q isObject name scopes ms (keep @ [m]) out \<Longrightarrow>
      Q isObject name scopes (m # ms) keep out"
    and template: "\<And>isObject name scopes n ps prs b cs ms keep out.
      (isObject \<Longrightarrow> P scopes (n\<lparr>td_name := name @ ''.'' @ td_name n\<rparr>) b out) \<Longrightarrow>
      (\<And>b' out'. isObject \<Longrightarrow> liftFrom scopes (n\<lparr>td_name := name @ ''.'' @ td_name n\<rparr>) b out = Inr (b', out') \<Longrightarrow>
         Q isObject name scopes ms keep
           (out' @ [TemplateDefN (n\<lparr>td_name := name @ ''.'' @ td_name n\<rparr>) ps (qualifyParents scopes prs) b' cs])) \<Longrightarrow>
      Q isObject name scopes (TemplateDefN n ps prs b cs # ms) keep out"
  shows "P scopes t body out" and "Q isObject name scopes' ms keep out'"
proof (induction scopes t body out and isObject name scopes' ms keep out' rule: liftFrom_liftBody.induct)
  case (3 isObject name scopes m ms keep out)
  then show ?case by (cases m rule: asTemplate_cases) (auto intro!: other template)
qed (auto intro: whole nil)

lemma liftBody_simps:
  "liftBody isObject name scopes [] keep out = Inr (keep, out)"
  "asTemplate m = None \<Longrightarrow>
     liftBody isObject name scopes (m # ms) keep out = liftBody isObject name scopes ms (keep @ [m]) out"
  "liftBody isObject name scopes (TemplateDefN n ps prs b cs # ms) keep out =
     (if isObject then
        bindE (liftFrom scopes (n\<lparr>td_name := name @ ''.'' @ td_name n\<rparr>) b out) (\<lambda>(b', out').
          liftBody isObject name scopes ms keep
            (out' @ [TemplateDefN (n\<lparr>td_name := name @ ''.'' @ td_name n\<rparr>) ps (qualifyParents scopes prs) b' cs]))
      else Inl (nestingError (td_pos n)))"
  by (simp_all add: liftBody.simps Let_def)

lemma lift_result:
  "liftFrom scopes t body out = Inr (keep', out') \<Longrightarrow>
     keep' = ownMembers body \<and> (\<exists>new. out' = out @ new \<and> liftedOK (nestedShapes (td_name t) body) new)"
  "liftBody isObject name scopes' ms keep out2 = Inr (keep', out') \<Longrightarrow>
     keep' = keep @ ownMembers ms \<and> (\<exists>new. out' = out2 @ new \<and> liftedOK (nestedShapes name ms) new)"
proof (induction scopes t body out and isObject name scopes' ms keep out2 arbitrary: keep' out' and keep' out'
    rule: lift_induct)
  case (template isObject name scopes n ps prs b cs ms keep out)
  let ?n = "n\<lparr>td_name := name @ ''.'' @ td_name n\<rparr>"
  from template.prems obtain b' out1 where obj: isObject
    and inner: "liftFrom scopes ?n b out = Inr (b', out1)"
    and rest: "liftBody isObject name scopes ms keep
        (out1 @ [TemplateDefN ?n ps (qualifyParents scopes prs) b' cs]) = Inr (keep', out')"
    by (auto simp: liftBody_simps split: if_splits)
  let ?t = "TemplateDefN ?n ps (qualifyParents scopes prs) b' cs"
  from template.IH(1) [OF obj inner] obtain new1 where b': "b' = ownMembers b"
    and new1: "out1 = out @ new1" "liftedOK (nestedShapes (td_name ?n) b) new1" by auto
  from template.IH(2) [OF obj inner rest] obtain new2 where keep': "keep' = keep @ ownMembers ms"
    and new2: "out' = (out1 @ [?t]) @ new2" "liftedOK (nestedShapes name ms) new2" by auto
  have "liftedOK [(?n, ps, map pr_args prs, ownMembers b, cs)] [?t]"
    by (simp add: liftedOK_def isTemplate_def isFlat_def b' ownMembers_flat)
  then have "liftedOK (nestedShapes (td_name ?n) b @ [(?n, ps, map pr_args prs, ownMembers b, cs)] @
      nestedShapes name ms) (new1 @ [?t] @ new2)"
    by (intro liftedOK_append new1(2) new2(2))
  with new1(1) new2(1) keep' show ?case by simp
qed (auto simp: liftFrom.simps liftBody_simps liftedOK_def)

text \<open>Templates may be nested in objects only.\<close>

function liftable :: "bool \<Rightarrow> Node list \<Rightarrow> bool" where
  "liftable isObject body =
     list_all (\<lambda>m.
       case asTemplate m of
         Some (h, ps, prs, b, cs) \<Rightarrow> if isObject then liftable (td_kind h = TM_Object) b else False
       | None \<Rightarrow> True) body"
  by auto
termination
  by (relation "measure (\<lambda>(isObject, body). size_list size body)") (auto dest!: size_list_ge [of _ _ size])

declare liftable.simps [simp del]

lemma liftable_simps [simp]:
  "liftable isObject []"
  "liftable isObject (m # ms) \<longleftrightarrow>
     (case asTemplate m of
        Some (h, ps, prs, b, cs) \<Rightarrow> isObject \<and> liftable (td_kind h = TM_Object) b
      | None \<Rightarrow> True) \<and> liftable isObject ms"
  by (simp_all add: liftable.simps [of isObject "[]"] liftable.simps [of isObject "m # ms"]
      liftable.simps [of isObject ms] split: option.split)

lemma lift_total:
  "if liftable (td_kind t = TM_Object) body then \<exists>r. liftFrom scopes t body out = Inr r
   else \<exists>pos. liftFrom scopes t body out = Inl (nestingError pos)"
  "if liftable isObject ms then \<exists>r. liftBody isObject name scopes' ms keep out2 = Inr r
   else \<exists>pos. liftBody isObject name scopes' ms keep out2 = Inl (nestingError pos)"
proof (induction scopes t body out and isObject name scopes' ms keep out2 rule: lift_induct)
  case (template isObject name scopes n ps prs b cs ms keep out)
  show ?case
  proof (cases "isObject \<and> liftable (td_kind n = TM_Object) b")
    case True
    with template.IH(1) obtain b' out' where
      "liftFrom scopes (n\<lparr>td_name := name @ ''.'' @ td_name n\<rparr>) b out = Inr (b', out')" by fastforce
    with True template.IH(2) show ?thesis by (simp add: liftBody_simps split: if_splits)
  next
    case False
    with template.IH(1) show ?thesis by (cases isObject) (auto simp: liftBody_simps)
  qed
qed (auto simp: liftFrom.simps liftBody_simps)

definition unitShapes :: "Node list \<Rightarrow> Shape list" where
  "unitShapes ss =
     concat (map (\<lambda>s. case asTemplate s of Some (h, ps, prs, b, cs) \<Rightarrow> nestedShapes (td_name h) b | None \<Rightarrow> []) ss)"

lemma unitShapes_simps:
  "unitShapes [] = []"
  "unitShapes (TemplateDefN h ps prs b cs # ss) = nestedShapes (td_name h) b @ unitShapes ss"
  "asTemplate s = None \<Longrightarrow> unitShapes (s # ss) = unitShapes ss"
  by (simp_all add: unitShapes_def)

lemma liftStats_result:
  "liftStats scopes ss out = Inr (ss', out') \<Longrightarrow>
     ss' = map ownOnly ss \<and> (\<exists>new. out' = out @ new \<and> liftedOK (unitShapes ss) new)"
proof (induction ss arbitrary: out ss' out')
  case Nil
  then show ?case by (simp add: unitShapes_simps liftedOK_def)
next
  case (Cons s ss)
  show ?case
  proof (cases s rule: asTemplate_cases)
    case (template h ps prs b cs)
    with Cons.prems obtain b' out1 rest where l: "liftFrom scopes h b out = Inr (b', out1)"
      and r: "liftStats scopes ss out1 = Inr (rest, out')" "ss' = TemplateDefN h ps prs b' cs # rest"
      by auto
    from lift_result(1) [OF l] obtain new1 where b': "b' = ownMembers b"
      and n1: "out1 = out @ new1" "liftedOK (nestedShapes (td_name h) b) new1" by auto
    from Cons.IH [OF r(1)] obtain new2 where rest: "rest = map ownOnly ss"
      and n2: "out' = out1 @ new2" "liftedOK (unitShapes ss) new2" by auto
    have "out' = out @ (new1 @ new2)" "liftedOK (unitShapes (s # ss)) (new1 @ new2)"
      using n1 n2 template by (simp_all add: unitShapes_simps liftedOK_append)
    then show ?thesis using r(2) template b' rest by (auto simp: ownOnly_def)
  next
    case other
    with Cons.prems obtain rest where "liftStats scopes ss out = Inr (rest, out')" "ss' = s # rest" by auto
    with Cons.IH other show ?thesis by (auto simp: unitShapes_simps ownOnly_def)
  qed
qed

definition liftableUnit :: "Node list \<Rightarrow> bool" where
  "liftableUnit ss =
     list_all (\<lambda>s. case asTemplate s of Some (h, ps, prs, b, cs) \<Rightarrow> liftable (td_kind h = TM_Object) b | None \<Rightarrow> True) ss"

lemma liftStats_total:
  "if liftableUnit ss then \<exists>r. liftStats scopes ss out = Inr r
   else \<exists>pos. liftStats scopes ss out = Inl (nestingError pos)"
proof (induction ss arbitrary: out)
  case (Cons s ss)
  show ?case
  proof (cases s rule: asTemplate_cases)
    case (template h ps prs b cs)
    show ?thesis
    proof (cases "liftable (td_kind h = TM_Object) b")
      case True
      then obtain b' out' where "liftFrom scopes h b out = Inr (b', out')"
        using lift_total(1) [of h b scopes out] by auto
      with Cons.IH [of out'] True template show ?thesis by (auto simp: liftableUnit_def split: if_splits)
    next
      case False
      with lift_total(1) [of h b scopes out] template show ?thesis by (auto simp: liftableUnit_def)
    qed
  next
    case other
    with Cons.IH [of out] show ?thesis by (auto simp: liftableUnit_def split: if_splits)
  qed
qed (simp add: liftableUnit_def)


definition sampleUnit :: "Node list" where
  "sampleUnit =
     [TemplateDefN (newTemplate startPos TM_Object ''O'') [] []
        [ImportN \<lparr>im_pos = startPos, im_text = ''a.b'', im_path = [''a'', ''b''], im_selectors = [], im_moduleAlias = []\<rparr>,
         TemplateDefN (newTemplate startPos TM_Object ''P'') [] []
           [TemplateDefN (newTemplate startPos TM_Class ''C'') [] [] [] []] []] []]"


lemma liftNestedTemplates_total:
  "if liftableUnit ss then \<exists>ss'. liftNestedTemplates ss = Inr ss'
   else \<exists>pos. liftNestedTemplates ss = Inl (nestingError pos)"
proof -
  let ?lift = "liftStats [\<lparr>ls_prefix = [], ls_names = templateNames ss\<rparr>] ss []"
  note total = liftStats_total [of ss "[\<lparr>ls_prefix = [], ls_names = templateNames ss\<rparr>]" "[]"]
  show ?thesis
  proof (cases "liftableUnit ss")
    case True
    with total obtain kept lifted where "?lift = Inr (kept, lifted)" by auto
    with True show ?thesis by (simp add: liftNestedTemplates_def)
  next
    case False
    with total obtain pos where "?lift = Inl (nestingError pos)" by auto
    then have "liftNestedTemplates ss = Inl (nestingError pos)" by (simp add: liftNestedTemplates_def)
    with False show ?thesis by auto
  qed
qed

text \<open>
  Lifting fails exactly when some template is written inside a class or a trait, and then with
  the parse error that says so.
\<close>

theorem lift_rejects_exactly:
  "if liftableUnit ss then \<exists>ss'. liftNestedTemplates ss = Inr ss'
   else \<exists>pos. liftNestedTemplates ss = Inl (nestingError pos)"
  by (rule liftNestedTemplates_total)

subsection \<open>Companions\<close>

definition templateName :: "Node \<Rightarrow> byte_string" where
  "templateName n = (case asTemplate n of Some (h, ps, prs, b, cs) \<Rightarrow> td_name h | None \<Rightarrow> [])"

definition completeCompanion :: "byte_string \<Rightarrow> Node \<Rightarrow> bool" where
  "completeCompanion name m =
     (case asTemplate m of
        Some (h, ps, prs, b, cs) \<Rightarrow>
          td_kind h = TM_Object \<and> td_name h = name \<and> definesIn ''apply'' b \<and> definesIn ''unapply'' b
      | None \<Rightarrow> False)"

lemma definesIn_append [simp]: "definesIn name (b @ c) \<longleftrightarrow> definesIn name b \<or> definesIn name c"
  by (simp add: definesIn_def)

lemma definesIn_synthetics [simp]:
  "definesIn name [syntheticApply c ps] \<longleftrightarrow> name = ''apply''"
  "definesIn name [syntheticUnapply pos] \<longleftrightarrow> name = ''unapply''"
  by (auto simp: definesIn_def syntheticApply_def syntheticUnapply_def newDefDef_def)

lemma completeCompanion_withSynthetics:
  "isCompanionOf name m \<Longrightarrow> completeCompanion name (withSynthetics c ps m)"
  by (cases m rule: asTemplate_cases)
    (auto simp: isCompanionOf_def completeCompanion_def withSynthetics_def Let_def)

lemma completeCompanion_mono:
  "completeCompanion name m \<Longrightarrow> completeCompanion name (withSynthetics c ps m)"
  by (rule completeCompanion_withSynthetics)
    (auto simp: isCompanionOf_def completeCompanion_def split: option.splits)

lemma templateName_withSynthetics [simp]: "templateName (withSynthetics c ps m) = templateName m"
  by (cases m rule: asTemplate_cases) (auto simp: templateName_def withSynthetics_def Let_def)

lemma find_SomeD: "find P xs = Some x \<Longrightarrow> x \<in> set xs \<and> P x"
  by (induction xs) (auto split: if_splits)

text \<open>What holds of the statements the loop has passed.\<close>

definition served :: "Node list \<Rightarrow> Node \<Rightarrow> bool" where
  "served ss n \<longleftrightarrow> (isCaseClass n \<longrightarrow> (\<exists>m \<in> set ss. completeCompanion (templateName n) m))"

text \<open>A step replaces some statements by versions with more definitions and may insert one.\<close>

definition refinesTo :: "Node \<Rightarrow> Node \<Rightarrow> bool" where
  "refinesTo m m' \<longleftrightarrow> m' = m \<or> (\<exists>c ps. m' = withSynthetics c ps m)"

lemma served_mono:
  assumes "served ss n" "refinesTo n n'" "list_all2 refinesTo ss ss'"
  shows "served ss' n'"
proof -
  have "\<exists>m' \<in> set ss'. completeCompanion name m'" if "m \<in> set ss" "completeCompanion name m" for m name
  proof -
    from that(1) obtain i where i: "i < length ss" "m = ss ! i" by (metis in_set_conv_nth)
    with assms(3) have "refinesTo m (ss' ! i)" "ss' ! i \<in> set ss'" by (auto simp: list_all2_conv_all_nth)
    with that(2) show ?thesis
      by (auto simp: refinesTo_def intro!: bexI [of _ "ss' ! i"] completeCompanion_mono)
  qed
  with assms(1,2) show ?thesis unfolding served_def refinesTo_def by auto
qed

lemma refinesTo_update: "list_all2 refinesTo ss (ss[j := withSynthetics c ps (ss ! j)])"
proof -
  have "list_all2 refinesTo (ss[j := ss ! j]) (ss[j := withSynthetics c ps (ss ! j)])"
    by (rule list_all2_update_cong) (auto simp: refinesTo_def list_all2_refl)
  then show ?thesis by simp
qed

lemma served_superset: "served ss n \<Longrightarrow> set ss \<subseteq> set ss' \<Longrightarrow> served ss' n"
  by (auto simp: served_def)

lemma companionStep_served:
  assumes "k < length ss" "\<forall>i < k. served ss (ss ! i)"
  shows "\<forall>i < k + 1. served (companionStep k ss) (companionStep k ss ! i)"
proof (cases "isCaseClass (ss ! k)")
  case False
  then have "companionStep k ss = ss" by (auto simp: companionStep_def isCaseClass_def split: option.splits)
  with False assms show ?thesis by (auto simp: less_Suc_eq) (simp add: served_def)
next
  case True
  then obtain c ps prs b cs where c: "ss ! k = TemplateDefN c ps prs b cs" "td_isCase c" "td_kind c = TM_Class"
    by (cases "ss ! k" rule: asTemplate_cases) (auto simp: isCaseClass_def)
  then have step: "companionStep k ss = addCompanion k c ps ss" by (simp add: companionStep_def)
  have name: "templateName (ss ! k) = td_name c" by (simp add: templateName_def c)
  show ?thesis
  proof (cases "find (\<lambda>j. isCompanionOf (td_name c) (ss ! j)) (rev [0..<length ss])")
    case (Some j)
    then have j: "j < length ss" "isCompanionOf (td_name c) (ss ! j)" by (auto dest: find_SomeD)
    let ?ss = "ss[j := withSynthetics c ps (ss ! j)]"
    have "completeCompanion (td_name c) (?ss ! j)" using j by (simp add: completeCompanion_withSynthetics)
    with j(1) have "served ?ss n" if "templateName n = td_name c" for n
      using that unfolding served_def by (metis length_list_update nth_mem)
    moreover have "refinesTo (ss ! i) (?ss ! i)" if "i < length ss" for i
      using refinesTo_update that by (auto simp: list_all2_conv_all_nth)
    moreover have "templateName (?ss ! k) = td_name c" using name assms(1)
      by (cases "j = k") simp_all
    ultimately show ?thesis
      using assms step Some served_mono [OF _ _ refinesTo_update] by (auto simp: addCompanion_def less_Suc_eq)
  next
    case None
    let ?x = "withSynthetics c ps (emptyCompanion c)"
    let ?ss = "take (k + 1) ss @ [?x] @ drop (k + 1) ss"
    have "isCompanionOf (td_name c) (emptyCompanion c)"
      by (simp add: isCompanionOf_def emptyCompanion_def newTemplate_def)
    then have "completeCompanion (td_name c) ?x" by (rule completeCompanion_withSynthetics)
    then have "served ?ss (ss ! k)" by (auto simp: served_def name)
    moreover have "set ss \<subseteq> set ?ss" using set_append [of "take (k + 1) ss" "drop (k + 1) ss"] by auto
    moreover have "?ss ! i = ss ! i" if "i < k + 1" for i using that assms(1) by (simp add: nth_append)
    ultimately show ?thesis
      using assms step None served_superset [of ss _ ?ss] by (auto simp: addCompanion_def less_Suc_eq)
  qed
qed

lemma companionLoop_served:
  "\<forall>i < k. i < length ss \<longrightarrow> served ss (ss ! i) \<Longrightarrow> list_all (served (companionLoop k ss)) (companionLoop k ss)"
proof (induction k ss rule: companionLoop.induct)
  case (1 k ss)
  show ?case
  proof (cases "k < length ss")
    case True
    with 1 companionStep_served [of k ss] show ?thesis by (simp add: companionLoop.simps [of k ss])
  next
    case False
    with "1.prems" show ?thesis by (simp add: companionLoop.simps [of k ss] list_all_length)
  qed
qed

definition isObjectDef :: "Node \<Rightarrow> bool" where
  "isObjectDef s = (case asTemplate s of Some (h, ps, prs, b, cs) \<Rightarrow> td_kind h = TM_Object | None \<Rightarrow> False)"

lemma isObjectDef_withSynthetics [simp]: "isObjectDef (withSynthetics c ps m) = isObjectDef m"
  by (cases m rule: asTemplate_cases) (auto simp: isObjectDef_def withSynthetics_def Let_def)

lemma filter_update_drop: "\<not> P (xs ! j) \<Longrightarrow> \<not> P y \<Longrightarrow> filter P (xs[j := y]) = filter P xs"
proof (induction xs arbitrary: j)
  case (Cons x xs)
  then show ?case by (cases j) auto
qed simp

lemma companionStep_others:
  "filter (\<lambda>s. \<not> isObjectDef s) (companionStep k ss) = filter (\<lambda>s. \<not> isObjectDef s) ss"
proof -
  have "filter P (take j ss) @ filter P (drop j ss) = filter P ss" for P j
    by (metis append_take_drop_id filter_append)
  moreover have "isObjectDef (emptyCompanion c)" for c
    by (simp add: isObjectDef_def emptyCompanion_def newTemplate_def)
  moreover have "isCompanionOf name m \<Longrightarrow> isObjectDef m" for name m
    by (auto simp: isCompanionOf_def isObjectDef_def split: option.splits)
  ultimately show ?thesis
    by (auto simp: companionStep_def addCompanion_def filter_update_drop dest!: find_SomeD split: option.split)
qed

lemma companionLoop_others:
  "filter (\<lambda>s. \<not> isObjectDef s) (companionLoop k ss) = filter (\<lambda>s. \<not> isObjectDef s) ss"
  by (induction k ss rule: companionLoop.induct) (subst companionLoop.simps, simp add: companionStep_others)

text \<open>
  After the synthesis every case class of the unit has a companion object that defines \<^verbatim>\<open>apply\<close>
  and \<^verbatim>\<open>unapply\<close>, and the statements that are not objects are the same, in the same order.
\<close>

theorem companions_complete:
  "list_all (\<lambda>n. list_ex (completeCompanion (templateName n)) (synthesizeCompanions ss))
     (filter isCaseClass (synthesizeCompanions ss)) \<and>
   filter (\<lambda>s. \<not> isObjectDef s) (synthesizeCompanions ss) = filter (\<lambda>s. \<not> isObjectDef s) ss"
  using companionLoop_served [of 0 ss] companionLoop_others [of 0 ss]
  by (simp add: synthesizeCompanions_def served_def list_ex_iff list_all_iff)

end
