(* ===== verification/DesugarPipeline.thy ===== *)
theory DesugarPipeline
  imports DesugarLift ParsedTree
begin

text \<open>
  The desugarer as a whole: each of its passes keeps what the next one relies on, so \<^verbatim>\<open>desugar\<close> on
  a unit the parser built gives a unit of core forms.  The parser, which \<^verbatim>\<open>expandEnum\<close> calls on
  the text it generates, is an argument here; \<open>FrontEnd\<close> puts the parser's model in its place.
\<close>

subsection \<open>Enumerations\<close>

definition headOK :: "Node Param list \<Rightarrow> Node ParentRef list \<Rightarrow> bool" where
  "headOK ps prs \<longleftrightarrow> list_all ready (takeParams ps @ concat (map pr_args prs))"

lemma wellFormed_template:
  "wellFormed (TemplateDefN h ps prs b cs) \<longleftrightarrow> cs = [] \<and> headOK ps prs \<and> list_all wellFormed b"
  by (auto simp: headOK_def list_all_ready)

definition parsedExpr :: "Node \<Rightarrow> bool" where
  "parsedExpr n \<longleftrightarrow> parsedTree n \<and> \<not> isPatternVal n"

definition parsedHead :: "Node Param list \<Rightarrow> Node ParentRef list \<Rightarrow> bool" where
  "parsedHead ps prs \<longleftrightarrow> list_all parsedExpr (takeParams ps @ concat (map pr_args prs))"

definition parsedCase :: "Node EnumCase \<Rightarrow> bool" where
  "parsedCase c \<longleftrightarrow> list_all parsedExpr (takeParams (ec_params c) @ ec_parentArgs c)"

lemma parsedTree_template:
  "parsedTree (TemplateDefN h ps prs b cs) \<longleftrightarrow>
     (td_kind h = TM_Enum) = (cs \<noteq> []) \<and> parsedHead ps prs \<and> list_all parsedTree b \<and> list_all parsedCase cs"
  by (auto simp: parsedHead_def parsedCase_def parsedExpr_def list_all_iff ball_Un)

declare parsedTree_node(29) [simp del]

lemma parsed_caseTemplate: "parsedCase c \<Longrightarrow> parsedTree (caseTemplate name i c)"
  by (simp add: caseTemplate_def Let_def parsedTree_template parsedHead_def parsedCase_def newTemplate_def)

lemma parsed_enumClass: "parsedHead ps prs \<Longrightarrow> list_all parsedTree b \<Longrightarrow> parsedTree (enumClass h ps prs b)"
  by (simp add: enumClass_def parsedTree_template parsedHead_def newTemplate_def)

text \<open>The contract of the parser that \<^verbatim>\<open>expandEnum\<close> calls on the text it generates.\<close>

definition parsesTrees :: "(byte_string \<Rightarrow> FrontendError + Node list) \<Rightarrow> bool" where
  "parsesTrees parse \<longleftrightarrow> (\<forall>src ms. parse src = Inr ms \<longrightarrow> list_all parsedTree ms)"

lemma expandEnum_parsed:
  assumes "parsesTrees parse" "parsedHead ps prs" "list_all parsedTree b" "list_all parsedCase cs"
    and "expandEnum parse h ps prs b cs = Inr ns"
  shows "list_all parsedTree ns"
proof -
  from assms(5) obtain ms
    where "parse (enumSource (td_name h) (list_all singleton cs) (map ec_name (filter singleton cs))) = Inr ms"
      and ns: "ns = [enumClass h ps prs b,
            TemplateDefN ((newTemplate (td_pos h) TM_Object (td_name h))\<lparr>td_enumCompanion := True\<rparr>) [] []
              (map (\<lambda>(i, c). caseTemplate (td_name h) i c) (enumerate 0 cs) @ map (rebase (td_pos h)) ms) []]"
    by (auto simp: expandEnum_def bindE_def split: sum.splits)
  with assms(1) have "list_all parsedTree ms" by (auto simp: parsesTrees_def)
  with assms(2-4) show ?thesis
    by (auto simp: ns parsed_enumClass parsedTree_template parsedHead_def list_all_iff parsed_caseTemplate
        in_set_enumerate_eq newTemplate_def)
qed

lemma absorb_parsed: "parsedTree g \<Longrightarrow> parsedTree u \<Longrightarrow> parsedTree (absorb g u)"
  by (cases g rule: asTemplate_cases; cases u rule: asTemplate_cases)
    (auto simp: absorb_def parsedTree_template parsedHead_def)

lemma generatedName_Some: "generatedName x = Some name \<Longrightarrow> \<exists>n. x = Some n"
  by (cases x) (simp_all add: generatedName_def)

lemma isUserCompanion_Some: "isUserCompanion name x \<Longrightarrow> \<exists>n. x = Some n"
  by (cases x) (simp_all add: isUserCompanion_def)

lemma list_all_update: "list_all P xs \<Longrightarrow> P y \<Longrightarrow> list_all P (xs[i := y])"
  by (auto simp: list_all_iff dest: subsetD [OF set_update_subset_insert])

lemma mergeAt_parsed:
  assumes "list_all (pred_option parsedTree) ss" "i < length ss"
  shows "list_all (pred_option parsedTree) (mergeAt ss i)" and "length (mergeAt ss i) = length ss"
proof -
  have wf: "parsedTree n" if "k < length ss" "ss ! k = Some n" for k n
    using assms(1) that by (auto simp: list_all_length dest!: spec [of _ k])
  show "list_all (pred_option parsedTree) (mergeAt ss i)"
    using assms wf
    by (fastforce simp: mergeAt_def findUser_def split: option.split
        intro!: list_all_update absorb_parsed dest!: find_SomeD generatedName_Some isUserCompanion_Some)
  show "length (mergeAt ss i) = length ss" by (simp add: mergeAt_def split: option.split)
qed

lemma foldl_mergeAt_parsed:
  "list_all (pred_option parsedTree) ss \<Longrightarrow> \<forall>i \<in> set is. i < length ss \<Longrightarrow>
   list_all (pred_option parsedTree) (foldl mergeAt ss is)"
  by (induction "is" arbitrary: ss) (auto simp: mergeAt_parsed)

lemma mergeEnumCompanions_parsed:
  assumes "list_all parsedTree ss"
  shows "list_all parsedTree (mergeEnumCompanions ss)"
proof -
  have "list_all (pred_option parsedTree) (map Some ss)" using assms by (simp add: list_all_iff)
  then have "list_all (pred_option parsedTree) (foldl mergeAt (map Some ss) [0..<length ss])"
    by (rule foldl_mergeAt_parsed) simp
  then show ?thesis
    by (auto simp: mergeEnumCompanions_def list_all_iff)
qed

lemma traverseE_all:
  assumes "traverseE f xs = Inr ys" "\<And>x y. x \<in> set xs \<Longrightarrow> f x = Inr y \<Longrightarrow> P y"
  shows "list_all P ys"
  using assms by (induction xs arbitrary: ys) (force simp: bindE_def split: sum.splits)+

lemma expandEnums_parsed:
  "parsesTrees parse \<Longrightarrow> list_all parsedTree ss \<Longrightarrow> expandEnums parse ss = Inr ss' \<Longrightarrow> list_all parsedTree ss'"
proof (induction parse ss arbitrary: ss' rule: expandEnums.induct)
  case (1 parse ss)
  let ?f = "\<lambda>s. case asTemplate s of
      Some (h, ps, prs, body, cs) \<Rightarrow>
        if td_kind h = TM_Enum then expandEnum parse h ps prs body cs
        else bindE (expandEnums parse body) (\<lambda>body'. Inr [TemplateDefN h ps prs body' cs])
    | None \<Rightarrow> Inr [s]"
  have "list_all parsedTree ns" if "s \<in> set ss" "?f s = Inr ns" for s ns
  proof (cases s rule: asTemplate_cases)
    case (template h ps prs b cs)
    with 1(3) that have s: "parsedTree (TemplateDefN h ps prs b cs)" by (auto simp: list_all_iff)
    show ?thesis
    proof (cases "td_kind h = TM_Enum")
      case True
      with s 1(2) that(2) template show ?thesis by (auto simp: parsedTree_template intro: expandEnum_parsed)
    next
      case False
      with that(2) template obtain b' where b': "expandEnums parse b = Inr b'" "ns = [TemplateDefN h ps prs b' cs]"
        by (auto simp: bindE_def split: sum.splits)
      from s have b: "list_all parsedTree b" by (simp add: parsedTree_template)
      from 1(1) [OF that(1), of "(h, ps, prs, b, cs)"] False 1(2) template b b'(1) have "list_all parsedTree b'"
        by simp
      with s b'(2) show ?thesis by (simp add: parsedTree_template)
    qed
  next
    case other
    with 1(3) that show ?thesis by (auto simp: list_all_iff)
  qed
  note each = this
  from 1(4) obtain out where out: "traverseE ?f ss = Inr out" "ss' = mergeEnumCompanions (concat out)"
    by (auto simp: expandEnums.simps [of parse ss] bindE_def split: sum.splits)
  have "list_all (list_all parsedTree) out" by (rule traverseE_all [OF out(1)]) (rule each)
  then have "list_all parsedTree (concat out)" by (auto simp: list_all_iff)
  with mergeEnumCompanions_parsed show ?case by (simp add: out(2))
qed

subsection \<open>Lifting and companions keep trees well formed\<close>

lemma headOK_qualifyParents [simp]: "headOK ps (qualifyParents scopes prs) = headOK ps prs"
  by (simp add: headOK_def qualifyParents_def comp_def)

lemma lift_wellFormed:
  "liftFrom scopes t body out = Inr (keep', out') \<Longrightarrow> list_all wellFormed body \<Longrightarrow> list_all wellFormed out \<Longrightarrow>
     list_all wellFormed keep' \<and> list_all wellFormed out'"
  "liftBody isObject name scopes' ms keep out2 = Inr (keep', out') \<Longrightarrow> list_all wellFormed ms \<Longrightarrow>
     list_all wellFormed keep \<Longrightarrow> list_all wellFormed out2 \<Longrightarrow> list_all wellFormed keep' \<and> list_all wellFormed out'"
proof (induction scopes t body out and isObject name scopes' ms keep out2 arbitrary: keep' out' and keep' out'
    rule: lift_induct)
  case (template isObject name scopes n ps prs b cs ms keep out)
  let ?n = "n\<lparr>td_name := name @ ''.'' @ td_name n\<rparr>"
  from template.prems(1) obtain b' out1 where obj: isObject
    and inner: "liftFrom scopes ?n b out = Inr (b', out1)"
    and rest: "liftBody isObject name scopes ms keep
        (out1 @ [TemplateDefN ?n ps (qualifyParents scopes prs) b' cs]) = Inr (keep', out')"
    by (auto simp: liftBody_simps split: if_splits)
  from template.prems(2) have wf: "cs = []" "headOK ps prs" "list_all wellFormed b" "list_all wellFormed ms"
    by (simp_all add: wellFormed_template del: wellFormed_node(29))
  from template.IH(1) [OF obj inner] wf template.prems
  have "list_all wellFormed b'" "list_all wellFormed out1" by blast+
  with template.IH(2) [OF obj inner rest] wf template.prems show ?case
    by (simp add: wellFormed_template del: wellFormed_node(29))
qed (auto simp: liftFrom.simps liftBody_simps)

lemma liftStats_wellFormed:
  "liftStats scopes ss out = Inr (ss', out') \<Longrightarrow> list_all wellFormed ss \<Longrightarrow> list_all wellFormed out \<Longrightarrow>
   list_all wellFormed ss' \<and> list_all wellFormed out'"
proof (induction ss arbitrary: out ss' out')
  case (Cons s ss)
  show ?case
  proof (cases s rule: asTemplate_cases)
    case (template h ps prs b cs)
    with Cons.prems(1) obtain b' out1 rest where l: "liftFrom scopes h b out = Inr (b', out1)"
      and r: "liftStats scopes ss out1 = Inr (rest, out')" "ss' = TemplateDefN h ps prs b' cs # rest"
      by auto
    from Cons.prems(2) template have wf: "cs = []" "headOK ps prs" "list_all wellFormed b" "list_all wellFormed ss"
      by (simp_all add: wellFormed_template del: wellFormed_node(29))
    from lift_wellFormed(1) [OF l wf(3) Cons.prems(3)] Cons.IH [OF r(1) wf(4)] wf r(2) show ?thesis
      by (simp add: wellFormed_template del: wellFormed_node(29))
  next
    case other
    with Cons.prems(1) obtain rest where "liftStats scopes ss out = Inr (rest, out')" "ss' = s # rest" by auto
    with Cons.IH Cons.prems show ?thesis by auto
  qed
qed auto

lemma withSynthetics_wellFormed: "wellFormed m \<Longrightarrow> wellFormed (withSynthetics c ps m)"
proof -
  have "takeParams (map (\<lambda>p. Param (f p) None) xs) = []" for f and xs :: "Node Param list"
    by (induction xs) simp_all
  then have "wellFormed (syntheticApply c ps)" "wellFormed (syntheticUnapply pos)" for pos
    by (auto simp: syntheticApply_def syntheticUnapply_def list_all_iff Let_def)
  then show "wellFormed m \<Longrightarrow> wellFormed (withSynthetics c ps m)"
    by (cases m rule: asTemplate_cases)
      (auto simp: withSynthetics_def Let_def wellFormed_template simp del: wellFormed_node(29))
qed

lemma companionStep_wellFormed:
  assumes "k < length ss" "list_all wellFormed ss"
  shows "list_all wellFormed (companionStep k ss)"
proof -
  have "wellFormed (withSynthetics c ps (emptyCompanion c))" for c ps
    by (rule withSynthetics_wellFormed) (simp add: emptyCompanion_def)
  moreover have "list_all wellFormed (ss[j := withSynthetics c ps (ss ! j)])" for j c ps
    using assms(2) by (cases "j < length ss")
      (simp_all add: list_all_update withSynthetics_wellFormed list_all_length [of wellFormed ss] list_update_beyond)
  moreover have "list_all wellFormed (take j ss)" "list_all wellFormed (drop j ss)" for j
    using assms(2) by (auto simp: list_all_iff dest: in_set_takeD in_set_dropD)
  ultimately show ?thesis
    using assms(2) by (simp add: companionStep_def addCompanion_def split: option.split)
qed

lemma companionLoop_wellFormed: "list_all wellFormed ss \<Longrightarrow> list_all wellFormed (companionLoop k ss)"
  by (induction k ss rule: companionLoop.induct) (subst companionLoop.simps, simp add: companionStep_wellFormed)

subsection \<open>The unit\<close>

lemma desugar_parsed:
  assumes "parsesTrees parse" "list_all parsedTree ss" "expandEnums parse ss = Inr ss1"
    and "list_all enumFree ss1" "liftableUnit ss1"
  shows "\<exists>ss'. desugar parse (CompilationUnit ss) = Inr (CompilationUnit ss') \<and> list_all core ss'"
proof -
  from expandEnums_parsed [OF assms(1-3)] assms(4) have "list_all wellFormed ss1"
    by (auto simp: list_all_iff parsedTree_wellFormed)
  moreover from liftNestedTemplates_total [of ss1] assms(5) obtain ss2 where l: "liftNestedTemplates ss1 = Inr ss2" by auto
  ultimately have "list_all wellFormed ss2"
    by (auto simp: liftNestedTemplates_def dest: liftStats_wellFormed)
  then have "list_all wellFormed (synthesizeCompanions ss2)"
    by (simp add: synthesizeCompanions_def companionLoop_wellFormed)
  then obtain ss3 s where "stats (synthesizeCompanions ss2) newDesugarer = Inr (ss3, s)" "list_all core ss3"
    using succeedsD [OF stats_succeeds] by blast
  with assms(3) l show ?thesis by (simp add: desugar_def)
qed

end
