(* ===== verification/FrontEnd.thy ===== *)
theory FrontEnd
  imports ParserTotal DesugarPipeline
begin

text \<open>
  From source text to core forms: \<^verbatim>\<open>parseSource\<close> followed by \<^verbatim>\<open>desugar\<close>, where the parser also
  reads the text that the desugarer generates for an enumeration.
\<close>

definition parseStats :: "byte_string \<Rightarrow> FrontendError + Node list" where
  "parseStats src = (case parseSource src of Inl e \<Rightarrow> Inl e | Inr u \<Rightarrow> Inr (unitStats u))"

lemma parseSource_stats: "parseSource src = Inr u \<Longrightarrow> list_all parsedTree (unitStats u)"
  using parsed.entries_ok(2) [of src] by (auto simp: parseSource_def parseWith_def split: sum.splits)

lemma parseStats_parses: "parsesTrees parseStats"
  by (auto simp: parsesTrees_def parseStats_def dest: parseSource_stats split: sum.splits)

lemma subnodes_parsed: "parsedTree n \<Longrightarrow> m \<in> set (subnodes n) \<Longrightarrow> parsedTree m"
proof (induction n rule: subnodes.induct)
  case (1 n)
  then show ?case
    by (auto simp: subnodes.simps [of n] parsedTree.simps [of n] list_all_iff)
qed

subsection \<open>A sample\<close>

definition sampleSource :: byte_string where
  "sampleSource = ''val x = a + b * c''"

definition sampleProduct :: Node where
  "sampleProduct =
     InfixN \<lparr>sp_line = 1, sp_column = 13\<rparr> (IdentN \<lparr>sp_line = 1, sp_column = 13\<rparr> ''b'') ''*''
       (IdentN \<lparr>sp_line = 1, sp_column = 17\<rparr> ''c'')"

definition sampleSum :: Node where
  "sampleSum =
     InfixN \<lparr>sp_line = 1, sp_column = 9\<rparr> (IdentN \<lparr>sp_line = 1, sp_column = 9\<rparr> ''a'') ''+'' sampleProduct"

definition sampleStat :: Node where
  "sampleStat = ValDefN (newValDef \<lparr>sp_line = 1, sp_column = 1\<rparr> ''x'') (Some sampleSum) None"

lemma sample_parses: "parseSource sampleSource = Inr (CompilationUnit [sampleStat])"
  by code_simp

lemmas sample_defs = sampleStat_def sampleSum_def sampleProduct_def

subsection \<open>Properties\<close>

text \<open>
  C1: the parser returns on every text, whatever its bytes are: neither the bound on the recursion of
  the grammar rules, nor the number of tokens that bounds each loop, nor the length of the text that
  bounds the nesting of interpolation holes is ever exhausted, from either entry point.
\<close>

theorem parser_terminates:
  "parseText (parseHole (length src)) parseCompilationUnit src \<noteq> Inl OutOfFuel \<and>
   parseText (parseHole (length src)) parseSingleExpression src \<noteq> Inl OutOfFuel"
  using parsed.entries_ok [of src] by auto

text \<open>
  C2: in a tree the parser returns, an infix expression that is an unparenthesised operand of another
  one binds tighter than it, or equally tight with the associativity that puts it on that side.
\<close>

theorem parse_precedence:
  assumes "parseSource src = Inr (CompilationUnit ss)" "s \<in> set ss" "InfixN p l op r \<in> set (subnodes s)"
  shows "leftFits op l \<and> rightFits op r"
proof -
  have "parsedTree s" using parseSource_stats [OF assms(1)] assms(2) by (simp add: list_all_iff)
  from subnodes_parsed [OF this assms(3)] show ?thesis by simp
qed

theorem parse_precedence_witness: "leftFits ''+'' (IdentN \<lparr>sp_line = 1, sp_column = 9\<rparr> ''a'') \<and> rightFits ''+'' sampleProduct"
proof -
  have "sampleSum \<in> set (subnodes sampleStat)"
    by (simp add: sampleStat_def subnodes.simps [of "ValDefN _ _ _"] subnodes.simps [of sampleSum] slot_def)
  then show ?thesis
    using parse_precedence [OF sample_parses, of sampleStat] by (auto simp: sampleSum_def)
qed

text \<open>
  C4: what \<^verbatim>\<open>parseSource\<close> returns is what the desugarer relies on, in every tree of the unit.
\<close>

theorem parseSource_parsed:
  "parseSource src = Inr (CompilationUnit ss) \<Longrightarrow> list_all parsedTree ss"
  using parseSource_stats by fastforce

theorem parseSource_parsed_witness: "list_all parsedTree [sampleStat]"
  using parseSource_parsed [OF sample_parses] .

text \<open>
  C3: the front end as a whole.  When the parser accepts a text, the enumerations are expanded and
  leave no enumeration inside a block, and no template is written inside a class or a trait, the
  desugarer succeeds and hands the compiler a unit of core forms only.
\<close>

theorem frontend_core:
  assumes "parseSource src = Inr (CompilationUnit ss)" "expandEnums parseStats ss = Inr ss1"
    and "list_all enumFree ss1" "liftableUnit ss1"
  shows "\<exists>ss'. desugar parseStats (CompilationUnit ss) = Inr (CompilationUnit ss') \<and> list_all core ss'"
  using desugar_parsed [OF parseStats_parses _ assms(2-4)] parseSource_stats [OF assms(1)] by simp

theorem frontend_core_witness:
  "\<exists>ss'. desugar parseStats (CompilationUnit [sampleStat]) = Inr (CompilationUnit ss') \<and> list_all core ss'"
proof (rule frontend_core [OF sample_parses])
  show "expandEnums parseStats [sampleStat] = Inr [sampleStat]"
    by (simp add: expandEnums.simps [of parseStats "[_]"] sampleStat_def mergeEnumCompanions_def mergeAt_def
        generatedName_def bindE_def)
  show "list_all enumFree [sampleStat]"
    by (simp add: sample_defs enumFree.simps [of "_ :: Node"] slot_def)
  show "liftableUnit [sampleStat]" by (simp add: liftableUnit_def sampleStat_def)
qed

end
