(* ===== verification/ReadyStack.thy ===== *)
theory ReadyStack
  imports Prelude
begin

text \<open>
  The scheduler's lock-free stack of ready actors (\<^verbatim>\<open>src/src/runtime/ReadyStack.h\<close>): a Treiber stack
  over a pool of nodes that are never freed, with a generation counter in the upper half of each head
  word.  A state holds the shared words and, for every thread, the point of \<^verbatim>\<open>push\<close> or \<^verbatim>\<open>pop\<close> it has
  reached; a step is one atomic access by one thread.  Shown: with fewer than \<open>2 ^ 32\<close> updates of a head
  between a thread's read of it and its compare-and-swap, the stack behaves as an atomic one, no
  thread touches a chunk that is not there, and a node has one owner at a time.
\<close>

subsection \<open>Head words and node addresses\<close>

definition kNil :: u32 where
  "kNil = - 1"

definition kFirstChunkBits :: nat where
  "kFirstChunkBits = 8"

definition kMaxChunks :: nat where
  "kMaxChunks = 32 - kFirstChunkBits"

definition kCapacity :: nat where
  "kCapacity = 2 ^ 32 - 2 ^ kFirstChunkBits"

definition pack :: "u64 \<Rightarrow> u32 \<Rightarrow> u64" where
  "pack generation idx = push_bit 32 generation OR ucast idx"

definition indexOf :: "u64 \<Rightarrow> u32" where
  "indexOf w = ucast w"

definition generationOf :: "u64 \<Rightarrow> u64" where
  "generationOf w = drop_bit 32 w"

text \<open>\<^verbatim>\<open>std::bit_width\<close>.\<close>

fun bitWidth :: "nat \<Rightarrow> nat" where
  "bitWidth n = (if n = 0 then 0 else Suc (bitWidth (n div 2)))"

declare bitWidth.simps [simp del]

text \<open>The chunk of an index and its place there, as \<^verbatim>\<open>node\<close> and \<^verbatim>\<open>acquireNode\<close> compute them.\<close>

definition chunkOf :: "nat \<Rightarrow> nat" where
  "chunkOf idx = bitWidth (idx + 2 ^ kFirstChunkBits) - 1 - kFirstChunkBits"

definition offsetOf :: "nat \<Rightarrow> nat" where
  "offsetOf idx = idx + 2 ^ kFirstChunkBits - 2 ^ (kFirstChunkBits + chunkOf idx)"

definition chunkSize :: "nat \<Rightarrow> nat" where
  "chunkSize k = 2 ^ (kFirstChunkBits + k)"

subsection \<open>The shared state and the threads\<close>

text \<open>A value is a pointer; \<^const>\<open>None\<close> is \<^verbatim>\<open>V{}\<close>, the null pointer.\<close>

record 'a PoolNode =
  nodeValue :: "'a option"
  nodeNext :: u32

datatype HeadId = Ready | Free

text \<open>
  A head word as a thread read it.  The number beside it counts the updates of that head up to the
  read; it is an auxiliary variable that no step tests.
\<close>

type_synonym Seen = "u64 \<times> nat"

text \<open>What a thread wants a node for, and what remains once it has one.\<close>

datatype 'a Goal = ForPush "'a option" | ForPop
datatype 'a Final = Pushed | Popped "'a option"

datatype 'a PC =
    Idle
  | UnlinkLoad "'a Goal"
  | UnlinkLoop "'a Goal" Seen
  | UnlinkSwap "'a Goal" Seen u32
  | TakeFresh "'a option"
  | FindChunk "'a option" u64
  | MakeChunk "'a option" u32
  | SetValue "'a option" u32
  | GetValue u32
  | LinkLoad "'a Final" u32
  | LinkStore "'a Final" u32 Seen
  | LinkSwap "'a Final" u32 Seen
  | CountOne "'a Final"
  | Returned "'a Final"
  | BadAlloc
  | Crashed

text \<open>
  \<^verbatim>\<open>head_\<close> is \<open>heads Ready\<close> and \<^verbatim>\<open>free_\<close> is \<open>heads Free\<close>; \<open>updates\<close> counts the successful
  compare-and-swaps of each (auxiliary, as above).
\<close>

record 'a Stack =
  heads :: "HeadId \<Rightarrow> u64"
  nextFresh :: u64
  entryCount :: u64
  chunks :: "nat \<Rightarrow> 'a PoolNode list option"
  pcs :: "nat \<Rightarrow> 'a PC"
  updates :: "HeadId \<Rightarrow> nat"

definition emptyStack :: "'a Stack" where
  "emptyStack = \<lparr>heads = (\<lambda>_. ucast kNil), nextFresh = 0, entryCount = 0, chunks = (\<lambda>_. None),
     pcs = (\<lambda>_. Idle), updates = (\<lambda>_. 0)\<rparr>"

text \<open>\<^verbatim>\<open>node(idx)\<close>: \<^const>\<open>None\<close> when the chunk is a null pointer or too short.\<close>

definition poolNode :: "'a Stack \<Rightarrow> u32 \<Rightarrow> 'a PoolNode option" where
  "poolNode s idx =
     (case chunks s (chunkOf (unat idx)) of
        None \<Rightarrow> None
      | Some ns \<Rightarrow> if offsetOf (unat idx) < length ns then Some (ns ! offsetOf (unat idx)) else None)"

definition setNode :: "u32 \<Rightarrow> 'a PoolNode \<Rightarrow> 'a Stack \<Rightarrow> 'a Stack" where
  "setNode idx n s =
     s\<lparr>chunks := (chunks s)(chunkOf (unat idx) :=
        map_option (\<lambda>ns. ns[offsetOf (unat idx) := n]) (chunks s (chunkOf (unat idx))))\<rparr>"

definition goto :: "nat \<Rightarrow> 'a PC \<Rightarrow> 'a Stack \<Rightarrow> 'a Stack" where
  "goto t pc s = s\<lparr>pcs := (pcs s)(t := pc)\<rparr>"

fun unlinkHead :: "'a Goal \<Rightarrow> HeadId" where
  "unlinkHead (ForPush v) = Free"
| "unlinkHead ForPop = Ready"

fun linkHead :: "'a Final \<Rightarrow> HeadId" where
  "linkHead Pushed = Ready"
| "linkHead (Popped v) = Free"

text \<open>The word in a head and the number of its updates, and a successful compare-and-swap of it.\<close>

definition readHead :: "HeadId \<Rightarrow> 'a Stack \<Rightarrow> Seen" where
  "readHead h s = (heads s h, updates s h)"

definition swapHead :: "HeadId \<Rightarrow> u64 \<Rightarrow> 'a Stack \<Rightarrow> 'a Stack" where
  "swapHead h w s = s\<lparr>heads := (heads s)(h := w), updates := (updates s)(h := Suc (updates s h))\<rparr>"

text \<open>
  One step of thread \<open>t\<close>.  \<open>weak\<close> is the choice of \<^verbatim>\<open>compare_exchange_weak\<close> to fail although the words
  agree; a failed one reloads the word.  After \<^verbatim>\<open>unlinkFront\<close> a push writes its value (\<^verbatim>\<open>push\<close>) and a pop
  reads the node's (\<^verbatim>\<open>pop\<close>); an empty free list sends a push to \<^verbatim>\<open>nextFresh_\<close>, an empty stack ends a pop.
\<close>

definition unlinkLoad :: "nat \<Rightarrow> 'a Goal \<Rightarrow> 'a Stack \<Rightarrow> 'a Stack" where
  "unlinkLoad t g s = goto t (UnlinkLoop g (readHead (unlinkHead g) s)) s"

definition unlinkLoop :: "nat \<Rightarrow> 'a Goal \<Rightarrow> Seen \<Rightarrow> 'a Stack \<Rightarrow> 'a Stack" where
  "unlinkLoop t g old s =
     (if indexOf (fst old) = kNil
      then goto t (case g of ForPush v \<Rightarrow> TakeFresh v | ForPop \<Rightarrow> Returned (Popped None)) s
      else case poolNode s (indexOf (fst old)) of
             None \<Rightarrow> goto t Crashed s
           | Some n \<Rightarrow> goto t (UnlinkSwap g old (nodeNext n)) s)"

definition unlinkSwap :: "nat \<Rightarrow> bool \<Rightarrow> 'a Goal \<Rightarrow> Seen \<Rightarrow> u32 \<Rightarrow> 'a Stack \<Rightarrow> 'a Stack" where
  "unlinkSwap t weak g old nx s =
     (let h = unlinkHead g; idx = indexOf (fst old) in
      if heads s h = fst old \<and> \<not> weak
      then goto t (case g of ForPush v \<Rightarrow> SetValue v idx | ForPop \<Rightarrow> GetValue idx)
             (swapHead h (pack (generationOf (fst old) + 1) nx) s)
      else goto t (UnlinkLoop g (readHead h s)) s)"

definition takeFresh :: "nat \<Rightarrow> 'a option \<Rightarrow> 'a Stack \<Rightarrow> 'a Stack" where
  "takeFresh t v s = goto t (FindChunk v (nextFresh s)) (s\<lparr>nextFresh := nextFresh s + 1\<rparr>)"

definition findChunk :: "nat \<Rightarrow> 'a option \<Rightarrow> u64 \<Rightarrow> 'a Stack \<Rightarrow> 'a Stack" where
  "findChunk t v fresh s =
     (if unat fresh \<ge> kCapacity then goto t BadAlloc s
      else case chunks s (chunkOf (unat fresh)) of
             None \<Rightarrow> goto t (MakeChunk v (ucast fresh)) s
           | Some _ \<Rightarrow> goto t (SetValue v (ucast fresh)) s)"

definition newChunk :: "nat \<Rightarrow> 'a PoolNode list" where
  "newChunk k = replicate (chunkSize k) \<lparr>nodeValue = None, nodeNext = kNil\<rparr>"

definition makeChunk :: "nat \<Rightarrow> 'a option \<Rightarrow> u32 \<Rightarrow> 'a Stack \<Rightarrow> 'a Stack" where
  "makeChunk t v idx s =
     (let k = chunkOf (unat idx) in
      goto t (SetValue v idx)
        (case chunks s k of
           None \<Rightarrow> s\<lparr>chunks := (chunks s)(k := Some (newChunk k))\<rparr>
         | Some _ \<Rightarrow> s))"

definition setValue :: "nat \<Rightarrow> 'a option \<Rightarrow> u32 \<Rightarrow> 'a Stack \<Rightarrow> 'a Stack" where
  "setValue t v idx s =
     (case poolNode s idx of
        None \<Rightarrow> goto t Crashed s
      | Some n \<Rightarrow> goto t (LinkLoad Pushed idx) (setNode idx (n\<lparr>nodeValue := v\<rparr>) s))"

definition getValue :: "nat \<Rightarrow> u32 \<Rightarrow> 'a Stack \<Rightarrow> 'a Stack" where
  "getValue t idx s =
     (case poolNode s idx of
        None \<Rightarrow> goto t Crashed s
      | Some n \<Rightarrow> goto t (LinkLoad (Popped (nodeValue n)) idx) s)"

definition linkLoad :: "nat \<Rightarrow> 'a Final \<Rightarrow> u32 \<Rightarrow> 'a Stack \<Rightarrow> 'a Stack" where
  "linkLoad t f idx s = goto t (LinkStore f idx (readHead (linkHead f) s)) s"

definition linkStore :: "nat \<Rightarrow> 'a Final \<Rightarrow> u32 \<Rightarrow> Seen \<Rightarrow> 'a Stack \<Rightarrow> 'a Stack" where
  "linkStore t f idx old s =
     (case poolNode s idx of
        None \<Rightarrow> goto t Crashed s
      | Some n \<Rightarrow> goto t (LinkSwap f idx old) (setNode idx (n\<lparr>nodeNext := indexOf (fst old)\<rparr>) s))"

definition linkSwap :: "nat \<Rightarrow> bool \<Rightarrow> 'a Final \<Rightarrow> u32 \<Rightarrow> Seen \<Rightarrow> 'a Stack \<Rightarrow> 'a Stack" where
  "linkSwap t weak f idx old s =
     (let h = linkHead f in
      if heads s h = fst old \<and> \<not> weak
      then goto t (CountOne f) (swapHead h (pack (generationOf (fst old) + 1) idx) s)
      else goto t (LinkStore f idx (readHead h s)) s)"

definition countOne :: "nat \<Rightarrow> 'a Final \<Rightarrow> 'a Stack \<Rightarrow> 'a Stack" where
  "countOne t f s =
     goto t (Returned f) (s\<lparr>entryCount := (case f of Pushed \<Rightarrow> entryCount s + 1 | Popped _ \<Rightarrow> entryCount s - 1)\<rparr>)"

fun stepThread :: "bool \<Rightarrow> nat \<Rightarrow> 'a Stack \<Rightarrow> 'a Stack" where
  "stepThread weak t s =
     (case pcs s t of
        UnlinkLoad g \<Rightarrow> unlinkLoad t g s
      | UnlinkLoop g old \<Rightarrow> unlinkLoop t g old s
      | UnlinkSwap g old nx \<Rightarrow> unlinkSwap t weak g old nx s
      | TakeFresh v \<Rightarrow> takeFresh t v s
      | FindChunk v fresh \<Rightarrow> findChunk t v fresh s
      | MakeChunk v idx \<Rightarrow> makeChunk t v idx s
      | SetValue v idx \<Rightarrow> setValue t v idx s
      | GetValue idx \<Rightarrow> getValue t idx s
      | LinkLoad f idx \<Rightarrow> linkLoad t f idx s
      | LinkStore f idx old \<Rightarrow> linkStore t f idx old s
      | LinkSwap f idx old \<Rightarrow> linkSwap t weak f idx old s
      | CountOne f \<Rightarrow> countOne t f s
      | _ \<Rightarrow> s)"

definition approxSize :: "'a Stack \<Rightarrow> nat" where
  "approxSize s = (if 0 < sint (entryCount s) then nat (sint (entryCount s)) else 0)"

text \<open>
  A free thread calls \<^verbatim>\<open>push\<close> or \<^verbatim>\<open>pop\<close>; a running one takes a step; one that has returned, or whose
  push ended in \<^verbatim>\<open>std::bad_alloc\<close>, is free again.
\<close>

fun running :: "'a PC \<Rightarrow> bool" where
  "running Idle = False"
| "running (Returned f) = False"
| "running BadAlloc = False"
| "running Crashed = False"
| "running _ = True"

inductive stackStep :: "'a Stack \<Rightarrow> 'a Stack \<Rightarrow> bool" where
  callPush: "pcs s t = Idle \<Longrightarrow> stackStep s (goto t (UnlinkLoad (ForPush v)) s)"
| callPop: "pcs s t = Idle \<Longrightarrow> stackStep s (goto t (UnlinkLoad ForPop) s)"
| run: "running (pcs s t) \<Longrightarrow> stackStep s (stepThread weak t s)"
| return: "pcs s t = Returned f \<or> pcs s t = BadAlloc \<Longrightarrow> stackStep s (goto t Idle s)"

text \<open>
  The states of a run in which no thread is overtaken by \<open>2 ^ 32\<close> updates of the head it has read, and
  \<^verbatim>\<open>nextFresh_\<close> does not reach its last value.
\<close>

fun seenOf :: "'a PC \<Rightarrow> (HeadId \<times> Seen) option" where
  "seenOf (UnlinkLoop g old) = Some (unlinkHead g, old)"
| "seenOf (UnlinkSwap g old nx) = Some (unlinkHead g, old)"
| "seenOf (LinkStore f idx old) = Some (linkHead f, old)"
| "seenOf (LinkSwap f idx old) = Some (linkHead f, old)"
| "seenOf _ = None"

definition timely :: "'a Stack \<Rightarrow> bool" where
  "timely s \<longleftrightarrow>
     (\<forall>t h w n. seenOf (pcs s t) = Some (h, w, n) \<longrightarrow> updates s h < n + 2 ^ 32) \<and> nextFresh s \<noteq> - 1"

inductive reachable :: "'a Stack \<Rightarrow> bool" where
  start: "reachable emptyStack"
| step: "reachable s \<Longrightarrow> timely s \<Longrightarrow> stackStep s s' \<Longrightarrow> reachable s'"

subsection \<open>Words and addresses\<close>

lemma unat_kNil: "unat kNil = 2 ^ 32 - 1"
  by (simp add: kNil_def unsigned_minus_1_eq_mask mask_eq_exp_minus_1)

lemma indexOf_pack [simp]: "indexOf (pack g i) = i"
  by (rule bit_word_eqI) (auto simp: indexOf_def pack_def bit_simps)

lemma generationOf_pack [simp]: "generationOf (pack g i) = take_bit 32 g"
  by (rule bit_word_eqI) (auto simp: generationOf_def pack_def bit_simps dest: bit_imp_le_length)

lemma unat_generation_step:
  assumes "unat g = n mod 2 ^ 32"
  shows "unat (take_bit 32 (g + 1) :: u64) = Suc n mod 2 ^ 32"
proof -
  have "unat (g + 1) = Suc (n mod 2 ^ 32)"
    using assms by (subst unat_plus_simple[THEN iffD1]) (auto simp: no_olen_add_nat)
  moreover have "unat (take_bit 32 (g + 1)) = take_bit 32 (unat (g + 1))"
    by (rule unsigned_take_bit_eq)
  ultimately show ?thesis
    by (simp only: take_bit_eq_mod mod_Suc_eq)
qed

lemma bitWidth_bounds: "0 < v \<Longrightarrow> 2 ^ (bitWidth v - 1) \<le> v \<and> v < 2 ^ bitWidth v"
proof (induction v rule: bitWidth.induct)
  case (1 n)
  show ?case
  proof (cases "n div 2 = 0")
    case True
    then have "n = 1" using 1 by (simp add: div_eq_0_iff)
    then show ?thesis by (simp add: bitWidth.simps)
  next
    case False
    with 1 have IH: "2 ^ (bitWidth (n div 2) - 1) \<le> n div 2" "n div 2 < 2 ^ bitWidth (n div 2)" by auto
    have eq: "bitWidth n = Suc (bitWidth (n div 2))" using 1 by (subst bitWidth.simps) simp
    have "bitWidth (n div 2) \<noteq> 0" using False by (subst bitWidth.simps) simp
    then obtain m where "bitWidth (n div 2) = Suc m" by (cases "bitWidth (n div 2)") auto
    with IH eq show ?thesis by (auto simp: div_less_iff_less_mult)
  qed
qed

lemma chunk_bounds:
  "chunkSize (chunkOf i) \<le> i + 256 \<and> i + 256 < 2 * chunkSize (chunkOf i)"
proof -
  let ?w = "bitWidth (i + 256)"
  have b: "2 ^ (?w - 1) \<le> i + 256" "i + 256 < 2 ^ ?w"
    using bitWidth_bounds[of "i + 256"] by auto
  have "9 \<le> ?w"
  proof (rule ccontr)
    assume "\<not> 9 \<le> ?w"
    then have "(2::nat) ^ ?w \<le> 2 ^ 8" by (intro power_increasing) auto
    with b show False by simp
  qed
  then have "8 + chunkOf i = ?w - 1" "?w = Suc (?w - 1)"
    by (auto simp: chunkOf_def kFirstChunkBits_def)
  with b show ?thesis
    by (metis chunkSize_def kFirstChunkBits_def power_Suc)
qed

lemma offset_less: "offsetOf i < chunkSize (chunkOf i)"
  using chunk_bounds[of i] by (auto simp: offsetOf_def chunkSize_def kFirstChunkBits_def)

lemma address_inj: "chunkOf i = chunkOf j \<Longrightarrow> offsetOf i = offsetOf j \<Longrightarrow> i = j"
  using chunk_bounds[of i] chunk_bounds[of j]
  by (auto simp: offsetOf_def chunkSize_def kFirstChunkBits_def dest: eq_diff_iff[THEN iffD1, rotated 2])

lemma chunk_in_table: "i < kCapacity \<Longrightarrow> chunkOf i < kMaxChunks"
proof (rule ccontr)
  assume "i < kCapacity" and "\<not> chunkOf i < kMaxChunks"
  then have "(2::nat) ^ 32 \<le> 2 ^ (8 + chunkOf i)"
    by (intro power_increasing) (auto simp: kMaxChunks_def kFirstChunkBits_def)
  then have "(2::nat) ^ 32 \<le> chunkSize (chunkOf i)"
    by (simp add: chunkSize_def kFirstChunkBits_def)
  with chunk_bounds[of i] \<open>i < kCapacity\<close> show False
    by (simp add: kCapacity_def kFirstChunkBits_def)
qed

subsection \<open>The atomic stack\<close>

text \<open>
  The specification: a list of values, and threads that push or pop it in one step.  A push may be
  refused for want of nodes.
\<close>

datatype 'a Phase = Resting | Pushing "'a option" | Popping | Done "'a Final" | Refused

inductive atomicStep ::
  "'a option list \<times> (nat \<Rightarrow> 'a Phase) \<Rightarrow> 'a option list \<times> (nat \<Rightarrow> 'a Phase) \<Rightarrow> bool" where
  startPush: "p t = Resting \<Longrightarrow> atomicStep (xs, p) (xs, p(t := Pushing v))"
| startPop: "p t = Resting \<Longrightarrow> atomicStep (xs, p) (xs, p(t := Popping))"
| doPush: "p t = Pushing v \<Longrightarrow> atomicStep (xs, p) (v # xs, p(t := Done Pushed))"
| refuse: "p t = Pushing v \<Longrightarrow> atomicStep (xs, p) (xs, p(t := Refused))"
| doPop: "p t = Popping \<Longrightarrow> atomicStep (x # xs, p) (xs, p(t := Done (Popped x)))"
| popEmpty: "p t = Popping \<Longrightarrow> atomicStep ([], p) ([], p(t := Done (Popped None)))"
| finish: "p t = Done f \<or> p t = Refused \<Longrightarrow> atomicStep (xs, p) (xs, p(t := Resting))"

text \<open>The values reachable from \<^verbatim>\<open>head_\<close>, and the phase a program point belongs to.\<close>

fun follow :: "nat \<Rightarrow> 'a Stack \<Rightarrow> u32 \<Rightarrow> 'a option list" where
  "follow 0 s i = []"
| "follow (Suc n) s i =
     (if i = kNil then []
      else case poolNode s i of None \<Rightarrow> [] | Some nd \<Rightarrow> nodeValue nd # follow n s (nodeNext nd))"

definition contents :: "'a Stack \<Rightarrow> 'a option list" where
  "contents s = follow (unat (nextFresh s)) s (indexOf (heads s Ready))"

definition valueAt :: "'a Stack \<Rightarrow> u32 \<Rightarrow> 'a option" where
  "valueAt s i = (case poolNode s i of None \<Rightarrow> None | Some nd \<Rightarrow> nodeValue nd)"

fun goalPhase :: "'a Goal \<Rightarrow> 'a Phase" where
  "goalPhase (ForPush v) = Pushing v"
| "goalPhase ForPop = Popping"

fun linkPhase :: "'a Stack \<Rightarrow> 'a Final \<Rightarrow> u32 \<Rightarrow> 'a Phase" where
  "linkPhase s Pushed i = Pushing (valueAt s i)"
| "linkPhase s (Popped v) i = Done (Popped v)"

fun phaseOf :: "'a Stack \<Rightarrow> 'a PC \<Rightarrow> 'a Phase" where
  "phaseOf s Idle = Resting"
| "phaseOf s (UnlinkLoad g) = goalPhase g"
| "phaseOf s (UnlinkLoop g old) =
     (if g = ForPop \<and> indexOf (fst old) = kNil then Done (Popped None) else goalPhase g)"
| "phaseOf s (UnlinkSwap g old nx) = goalPhase g"
| "phaseOf s (TakeFresh v) = Pushing v"
| "phaseOf s (FindChunk v fresh) = Pushing v"
| "phaseOf s (MakeChunk v i) = Pushing v"
| "phaseOf s (SetValue v i) = Pushing v"
| "phaseOf s (GetValue i) = Done (Popped (valueAt s i))"
| "phaseOf s (LinkLoad f i) = linkPhase s f i"
| "phaseOf s (LinkStore f i old) = linkPhase s f i"
| "phaseOf s (LinkSwap f i old) = linkPhase s f i"
| "phaseOf s (CountOne f) = Done f"
| "phaseOf s (Returned f) = Done f"
| "phaseOf s BadAlloc = Refused"
| "phaseOf s Crashed = Refused"

definition atomicState :: "'a Stack \<Rightarrow> 'a option list \<times> (nat \<Rightarrow> 'a Phase)" where
  "atomicState s = (contents s, \<lambda>t. phaseOf s (pcs s t))"

subsection \<open>The invariant\<close>

text \<open>The indices on a list, following \<^verbatim>\<open>next\<close> from \<open>i\<close> to \<^const>\<open>kNil\<close>.\<close>

fun chain :: "'a Stack \<Rightarrow> u32 \<Rightarrow> u32 list \<Rightarrow> bool" where
  "chain s i [] \<longleftrightarrow> i = kNil"
| "chain s i (x # xs) \<longleftrightarrow> i = x \<and> x \<noteq> kNil \<and> (\<exists>nd. poolNode s x = Some nd \<and> chain s (nodeNext nd) xs)"

text \<open>The node a thread holds while it is on neither list.\<close>

fun owned :: "'a PC \<Rightarrow> u32 option" where
  "owned (FindChunk v fresh) = (if unat fresh < kCapacity then Some (ucast fresh) else None)"
| "owned (MakeChunk v i) = Some i"
| "owned (SetValue v i) = Some i"
| "owned (GetValue i) = Some i"
| "owned (LinkLoad f i) = Some i"
| "owned (LinkStore f i old) = Some i"
| "owned (LinkSwap f i old) = Some i"
| "owned _ = None"

text \<open>What a thread's reading of a head is worth, and what it knows about the nodes it names.\<close>

definition seenOk :: "'a Stack \<Rightarrow> HeadId \<Rightarrow> Seen \<Rightarrow> bool" where
  "seenOk s h old \<longleftrightarrow>
     snd old \<le> updates s h \<and> unat (generationOf (fst old)) = snd old mod 2 ^ 32 \<and>
     (snd old = updates s h \<longrightarrow> fst old = heads s h) \<and>
     (indexOf (fst old) = kNil \<or> poolNode s (indexOf (fst old)) \<noteq> None)"

fun threadOk :: "'a Stack \<Rightarrow> 'a PC \<Rightarrow> bool" where
  "threadOk s (UnlinkLoop g old) = seenOk s (unlinkHead g) old"
| "threadOk s (UnlinkSwap g old nx) =
     (seenOk s (unlinkHead g) old \<and> indexOf (fst old) \<noteq> kNil \<and>
      (snd old = updates s (unlinkHead g) \<longrightarrow>
         (\<exists>nd. poolNode s (indexOf (fst old)) = Some nd \<and> nodeNext nd = nx)))"
| "threadOk s (SetValue v i) = (poolNode s i \<noteq> None)"
| "threadOk s (GetValue i) = (poolNode s i \<noteq> None)"
| "threadOk s (LinkLoad f i) = (poolNode s i \<noteq> None)"
| "threadOk s (LinkStore f i old) = (poolNode s i \<noteq> None \<and> seenOk s (linkHead f) old)"
| "threadOk s (LinkSwap f i old) =
     (seenOk s (linkHead f) old \<and> (\<exists>nd. poolNode s i = Some nd \<and> nodeNext nd = indexOf (fst old)))"
| "threadOk s Crashed = False"
| "threadOk s _ = True"

definition used :: "'a Stack \<Rightarrow> u32 \<Rightarrow> bool" where
  "used s i \<longleftrightarrow> unat i < unat (nextFresh s) \<and> unat i < kCapacity"

definition listsOk :: "(HeadId \<Rightarrow> u32 list) \<Rightarrow> 'a Stack \<Rightarrow> bool" where
  "listsOk ls s \<longleftrightarrow>
     (\<forall>h. chain s (indexOf (heads s h)) (ls h) \<and> distinct (ls h) \<and> (\<forall>i\<in>set (ls h). used s i) \<and>
          unat (generationOf (heads s h)) = updates s h mod 2 ^ 32) \<and>
     set (ls Ready) \<inter> set (ls Free) = {}"

definition ownersOk :: "(HeadId \<Rightarrow> u32 list) \<Rightarrow> 'a Stack \<Rightarrow> bool" where
  "ownersOk ls s \<longleftrightarrow>
     (\<forall>t i. owned (pcs s t) = Some i \<longrightarrow> used s i \<and> (\<forall>h. i \<notin> set (ls h))) \<and>
     (\<forall>t t' i. owned (pcs s t) = Some i \<longrightarrow> owned (pcs s t') = Some i \<longrightarrow> t = t')"

definition chunksOk :: "'a Stack \<Rightarrow> bool" where
  "chunksOk s \<longleftrightarrow> (\<forall>k ns. chunks s k = Some ns \<longrightarrow> length ns = chunkSize k)"

definition stackInv :: "(HeadId \<Rightarrow> u32 list) \<Rightarrow> 'a Stack \<Rightarrow> bool" where
  "stackInv ls s \<longleftrightarrow>
     listsOk ls s \<and> ownersOk ls s \<and> chunksOk s \<and> (\<forall>t. threadOk s (pcs s t))"

lemma listsOkD:
  assumes "listsOk ls s"
  shows "chain s (indexOf (heads s h)) (ls h)" "distinct (ls h)" "i \<in> set (ls h) \<Longrightarrow> used s i"
    "unat (generationOf (heads s h)) = updates s h mod 2 ^ 32"
    "i \<in> set (ls h) \<Longrightarrow> h' \<noteq> h \<Longrightarrow> i \<notin> set (ls h')"
proof -
  show "i \<in> set (ls h) \<Longrightarrow> h' \<noteq> h \<Longrightarrow> i \<notin> set (ls h')"
    using assms by (cases h; cases h') (auto simp: listsOk_def)
qed (use assms in \<open>auto simp: listsOk_def\<close>)

lemma ownersOkD:
  assumes "ownersOk ls s" "owned (pcs s t) = Some i"
  shows "used s i" "i \<notin> set (ls h)" "owned (pcs s t') = Some i \<Longrightarrow> t' = t"
  using assms unfolding ownersOk_def by blast+

lemma stackInvD:
  assumes "stackInv ls s"
  shows "listsOk ls s" "ownersOk ls s" "chunksOk s" "threadOk s (pcs s t)"
  using assms by (auto simp: stackInv_def)

subsection \<open>Frame facts\<close>

lemma goto_simps [simp]:
  "pcs (goto t pc s) = (pcs s)(t := pc)" "heads (goto t pc s) = heads s"
  "nextFresh (goto t pc s) = nextFresh s" "chunks (goto t pc s) = chunks s"
  "updates (goto t pc s) = updates s" "poolNode (goto t pc s) = poolNode s"
  by (auto simp: goto_def poolNode_def fun_eq_iff)

lemma swapHead_simps [simp]:
  "pcs (swapHead h w s) = pcs s" "heads (swapHead h w s) = (heads s)(h := w)"
  "nextFresh (swapHead h w s) = nextFresh s" "chunks (swapHead h w s) = chunks s"
  "updates (swapHead h w s) = (updates s)(h := Suc (updates s h))" "poolNode (swapHead h w s) = poolNode s"
  by (auto simp: swapHead_def poolNode_def fun_eq_iff)

lemma setNode_simps [simp]:
  "pcs (setNode i n s) = pcs s" "heads (setNode i n s) = heads s"
  "nextFresh (setNode i n s) = nextFresh s" "updates (setNode i n s) = updates s"
  by (simp_all add: setNode_def)

lemma unat_address_inj:
  "chunkOf (unat i) = chunkOf (unat j) \<Longrightarrow> offsetOf (unat i) = offsetOf (unat j) \<Longrightarrow> i = (j::u32)"
  using address_inj by (metis word_unat_eq_iff)

lemma node_setNode:
  "poolNode (setNode i n s) j = (if j = i \<and> poolNode s i \<noteq> None then Some n else poolNode s j)"
  by (auto simp: poolNode_def setNode_def nth_list_update split: option.splits dest: unat_address_inj)

lemma chain_cong:
  "(\<And>x. x \<in> set xs \<Longrightarrow> poolNode s' x = poolNode s x) \<Longrightarrow> chain s' i xs = chain s i xs"
  by (induction xs arbitrary: i) auto

lemma chain_frame [simp]:
  "chain (goto t pc s) i xs = chain s i xs" "chain (swapHead h w s) i xs = chain s i xs"
  by (rule chain_cong, simp)+

lemma used_frame [simp]:
  "used (goto t pc s) = used s" "used (swapHead h w s) = used s" "used (setNode i n s) = used s"
  by (auto simp: used_def fun_eq_iff)

lemma valueAt_frame [simp]:
  "valueAt (goto t pc s) = valueAt s" "valueAt (swapHead h w s) = valueAt s"
  by (auto simp: valueAt_def fun_eq_iff)

lemma chunksOk_frame [simp]:
  "chunksOk (goto t pc s) = chunksOk s" "chunksOk (swapHead h w s) = chunksOk s"
  "chunksOk s \<Longrightarrow> chunksOk (setNode i n s)"
  by (auto simp: chunksOk_def setNode_def)

lemma follow_chain:
  "chain s i xs \<Longrightarrow> length xs \<le> n \<Longrightarrow> follow n s i = map (valueAt s) xs"
proof (induction xs arbitrary: i n)
  case Nil
  then show ?case by (cases n) auto
next
  case (Cons x xs)
  then show ?case by (cases n) (auto simp: valueAt_def)
qed

lemma distinct_used_length:
  assumes "distinct xs" "\<forall>i\<in>set xs. used s i"
  shows "length xs \<le> unat (nextFresh s)"
proof -
  have "unat ` set xs \<subseteq> {..<unat (nextFresh s)}" using assms(2) by (auto simp: used_def)
  then have "card (unat ` set xs) \<le> unat (nextFresh s)"
    by (metis card_lessThan card_mono finite_lessThan)
  moreover have "card (unat ` set xs) = length xs"
    using assms(1) by (simp add: card_image inj_on_def distinct_card word_unat_eq_iff)
  ultimately show ?thesis by simp
qed

lemma contents_map:
  "listsOk ls s \<Longrightarrow> contents s = map (valueAt s) (ls Ready)"
  unfolding contents_def listsOk_def by (metis distinct_used_length follow_chain)

subsection \<open>Steps keep the invariant\<close>

lemma chain_head: "chain s i xs \<Longrightarrow> i \<noteq> kNil \<Longrightarrow> i \<in> set xs"
  by (cases xs) auto

text \<open>
  What one thread's step leaves to the others: heads are replaced only with a new update number,
  nodes stay, and only the node the thread owns is written.
\<close>

definition othersSafe :: "u32 option \<Rightarrow> 'a Stack \<Rightarrow> 'a Stack \<Rightarrow> bool" where
  "othersSafe mine s s' \<longleftrightarrow>
     (\<forall>h. updates s h \<le> updates s' h \<and> (updates s' h = updates s h \<longrightarrow> heads s' h = heads s h)) \<and>
     (\<forall>j. poolNode s j \<noteq> None \<longrightarrow> poolNode s' j \<noteq> None \<and> (mine \<noteq> Some j \<longrightarrow> poolNode s' j = poolNode s j)) \<and>
     (\<forall>i. used s i \<longrightarrow> used s' i)"

lemma seenOk_frame: "seenOk s h old \<Longrightarrow> othersSafe mine s s' \<Longrightarrow> seenOk s' h old"
  unfolding seenOk_def othersSafe_def by (metis le_antisym le_trans)

lemma threadOk_frame:
  assumes inv: "listsOk ls s" and safe: "othersSafe mine s s'" and ok: "threadOk s pc"
    and mine: "\<And>i. mine = Some i \<Longrightarrow> owned pc \<noteq> Some i \<and> (\<forall>h. i \<notin> set (ls h))"
  shows "threadOk s' pc"
proof (cases pc)
  case (UnlinkSwap g old nx)
  let ?h = "unlinkHead g" and ?i = "indexOf (fst old)"
  from ok UnlinkSwap have seen: "seenOk s ?h old" and nil: "?i \<noteq> kNil" by auto
  have "\<exists>nd. poolNode s' ?i = Some nd \<and> nodeNext nd = nx" if new: "snd old = updates s' ?h"
  proof -
    from seen safe new have "snd old = updates s ?h"
      unfolding seenOk_def othersSafe_def by (metis le_antisym)
    with seen ok UnlinkSwap obtain nd where nd: "fst old = heads s ?h" "poolNode s ?i = Some nd" "nodeNext nd = nx"
      by (auto simp: seenOk_def)
    then have "?i \<in> set (ls ?h)" using inv nil chain_head by (metis listsOk_def)
    then have "mine \<noteq> Some ?i" using mine by auto
    with safe nd show ?thesis unfolding othersSafe_def by (metis option.distinct(1))
  qed
  with seen nil safe show ?thesis by (auto simp: UnlinkSwap intro: seenOk_frame)
next
  case (LinkSwap f i old)
  then have "mine \<noteq> Some i" using mine by auto
  then show ?thesis using ok safe LinkSwap seenOk_frame[OF _ safe]
    unfolding othersSafe_def by (metis option.distinct(1) threadOk.simps(7))
qed (use ok safe seenOk_frame[OF _ safe] in \<open>auto simp: othersSafe_def\<close>)

lemma inv_step:
  assumes inv: "stackInv ls s" and lists: "listsOk ls' s'" and chunks: "chunksOk s'"
    and pc: "pcs s' = (pcs s)(t := pc)" and safe: "othersSafe (owned (pcs s t)) s s'"
    and ok: "threadOk s' pc"
    and new: "\<And>i. owned pc = Some i \<Longrightarrow>
                used s' i \<and> (\<forall>h. i \<notin> set (ls' h)) \<and> (\<forall>t'. t' \<noteq> t \<longrightarrow> owned (pcs s t') \<noteq> Some i)"
    and others: "\<And>t' i h. t' \<noteq> t \<Longrightarrow> owned (pcs s t') = Some i \<Longrightarrow> i \<notin> set (ls' h)"
  shows "stackInv ls' s'"
proof -
  from inv have owners: "ownersOk ls s" and L: "listsOk ls s" and T: "\<And>t. threadOk s (pcs s t)"
    by (auto simp: stackInv_def)
  have "threadOk s' (pcs s' t')" for t'
  proof (cases "t' = t")
    case True
    then show ?thesis using pc ok by simp
  next
    case False
    have "owned (pcs s t') \<noteq> Some i \<and> (\<forall>h. i \<notin> set (ls h))" if "owned (pcs s t) = Some i" for i
      using owners that False by (auto simp: ownersOk_def)
    then show ?thesis using threadOk_frame[OF L safe T] pc False by auto
  qed
  moreover have "ownersOk ls' s'"
    using owners pc new others safe by (auto simp: ownersOk_def othersSafe_def split: if_splits)
  ultimately show ?thesis using lists chunks by (auto simp: stackInv_def)
qed

text \<open>A step that moves the thread only, or that writes the node the thread owns.\<close>

lemma inv_move:
  assumes "stackInv ls s" "threadOk s pc" "owned pc = None \<or> owned pc = owned (pcs s t)"
  shows "stackInv ls (goto t pc s)"
proof (rule inv_step[OF assms(1), where t = t and pc = pc])
  show "listsOk ls (goto t pc s)" "chunksOk (goto t pc s)"
    using assms(1) by (auto simp: stackInv_def listsOk_def)
  show "threadOk (goto t pc s) pc"
    using assms(2) by (cases pc) (auto simp: seenOk_def)
  fix i assume "owned pc = Some i"
  then have "owned (pcs s t) = Some i" using assms(3) by auto
  then show "used (goto t pc s) i \<and> (\<forall>h. i \<notin> set (ls h)) \<and>
      (\<forall>t'. t' \<noteq> t \<longrightarrow> owned (pcs s t') \<noteq> Some i)"
    using ownersOkD[OF stackInvD(2)[OF assms(1)]] by auto
qed (use ownersOkD[OF stackInvD(2)[OF assms(1)]] in \<open>auto simp: othersSafe_def\<close>)

lemma inv_write:
  assumes inv: "stackInv ls s" and mine: "owned (pcs s t) = Some i" "owned pc = Some i"
    and nd: "poolNode s i = Some nd" and ok: "threadOk (setNode i nd' s) pc"
  shows "stackInv ls (goto t pc (setNode i nd' s))"
proof (rule inv_step[OF inv, where t = t and pc = pc])
  note own = ownersOkD[OF stackInvD(2)[OF inv]]
  have out: "i \<notin> set (ls h)" for h
    by (rule own[OF mine(1)])
  have "chain (setNode i nd' s) j (ls h) = chain s j (ls h)" for j h
    using out by (intro chain_cong) (auto simp: node_setNode)
  then show "listsOk ls (goto t pc (setNode i nd' s))"
    using inv by (auto simp: stackInv_def listsOk_def)
  show "chunksOk (goto t pc (setNode i nd' s))"
    using inv by (auto simp: stackInv_def)
  show "threadOk (goto t pc (setNode i nd' s)) pc"
    using ok by (cases pc) (auto simp: seenOk_def)
  show "othersSafe (owned (pcs s t)) s (goto t pc (setNode i nd' s))"
    using mine nd by (auto simp: othersSafe_def node_setNode)
  show "used (goto t pc (setNode i nd' s)) j \<and> (\<forall>h. j \<notin> set (ls h)) \<and>
      (\<forall>t'. t' \<noteq> t \<longrightarrow> owned (pcs s t') \<noteq> Some j)" if "owned pc = Some j" for j
    using that mine(2) own(1,2)[OF mine(1)] own(3)[OF mine(1)] by auto
  show "j \<notin> set (ls h)" if "owned (pcs s t') = Some j" for t' j h
    by (rule own[OF that])
qed simp

text \<open>A compare-and-swap that succeeds in time found the head its thread had read.\<close>

lemma swap_in_time:
  assumes "seenOk s h old" "updates s h < snd old + 2 ^ 32" "heads s h = fst old"
    "unat (generationOf (heads s h)) = updates s h mod 2 ^ 32"
  shows "snd old = updates s h"
proof -
  have "(updates s h - snd old) mod 2 ^ 32 = 0"
    using assms by (metis mod_eq_dvd_iff_nat mod_0_imp_dvd dvd_imp_mod_0 seenOk_def)
  moreover have "updates s h - snd old < 2 ^ 32" using assms(2) by simp
  ultimately show ?thesis using assms(1) by (simp add: seenOk_def)
qed

lemma unlink_success:
  assumes inv: "stackInv ls s" and pc: "pcs s t = UnlinkSwap g old nx" and timely: "timely s"
    and eq: "heads s (unlinkHead g) = fst old"
  obtains xs where "ls (unlinkHead g) = indexOf (fst old) # xs" "chain s nx xs"
proof -
  let ?h = "unlinkHead g"
  have ok: "threadOk s (pcs s t)" "listsOk ls s" using inv by (auto simp: stackInv_def)
  have "updates s ?h < snd old + 2 ^ 32"
    using timely pc unfolding timely_def by (metis prod.collapse seenOf.simps(2))
  then have "snd old = updates s ?h"
    using ok(1) pc eq listsOkD(4)[OF ok(2), of ?h] by (intro swap_in_time) simp_all
  then obtain nd where nd: "poolNode s (indexOf (fst old)) = Some nd" "nodeNext nd = nx" "indexOf (fst old) \<noteq> kNil"
    using ok pc by auto
  have "chain s (indexOf (fst old)) (ls ?h)" using listsOkD(1)[OF ok(2), of ?h] eq by simp
  with nd show thesis by (cases "ls ?h") (auto intro: that)
qed

lemma inv_unlink:
  assumes inv: "stackInv ls s" and pc: "pcs s t = UnlinkSwap g old nx"
    and ls: "ls (unlinkHead g) = indexOf (fst old) # xs" "chain s nx xs"
    and eq: "heads s (unlinkHead g) = fst old"
    and new: "owned pc' = Some (indexOf (fst old))" "threadOk s pc'" "seenOf pc' = None"
  shows "stackInv (ls(unlinkHead g := xs))
           (goto t pc' (swapHead (unlinkHead g) (pack (generationOf (fst old) + 1) nx) s))"
    (is "stackInv ?ls ?s")
proof (rule inv_step[OF inv, where t = t and pc = pc'])
  let ?h = "unlinkHead g" and ?i = "indexOf (fst old)"
  from inv have L: "listsOk ls s" and O: "ownersOk ls s" and C: "chunksOk s" by (auto simp: stackInv_def)
  have gen: "unat (take_bit 32 (generationOf (fst old) + 1) :: u64) = Suc (updates s ?h) mod 2 ^ 32"
    using listsOkD(4)[OF L, of ?h] eq by (intro unat_generation_step) simp
  have sub: "set (?ls h) \<subseteq> set (ls h)" for h using ls by auto
  have i_in: "?i \<in> set (ls ?h)" using ls by simp
  have disj: "?i \<notin> set (?ls h)" for h
    using listsOkD(2)[OF L, of ?h] listsOkD(5)[OF L i_in, where h' = h] ls(1) by auto
  show "listsOk ?ls ?s"
    unfolding listsOk_def
  proof (intro conjI allI)
    fix h
    show "chain ?s (indexOf (heads ?s h)) (?ls h)" "distinct (?ls h)" "\<forall>i\<in>set (?ls h). used ?s i"
      "unat (generationOf (heads ?s h)) = updates ?s h mod 2 ^ 32"
      using listsOkD(1,2,4)[OF L, of h] listsOkD(3)[OF L, of _ h] ls gen by auto
  next
    have "set (ls Ready) \<inter> set (ls Free) = {}" using L by (simp add: listsOk_def)
    then show "set (?ls Ready) \<inter> set (?ls Free) = {}" using sub[of Ready] sub[of Free] by blast
  qed
  show "chunksOk ?s" using C by simp
  show "othersSafe (owned (pcs s t)) s ?s" by (auto simp: othersSafe_def)
  show "threadOk ?s pc'" using new by (cases pc') auto
  show "used ?s i \<and> (\<forall>h. i \<notin> set (?ls h)) \<and> (\<forall>t'. t' \<noteq> t \<longrightarrow> owned (pcs s t') \<noteq> Some i)"
    if "owned pc' = Some i" for i
  proof -
    have "i = ?i" using that new by simp
    with disj listsOkD(3)[OF L i_in] show ?thesis using i_in ownersOkD(2)[OF O] by auto
  qed
  show "i \<notin> set (?ls h)" if "owned (pcs s t') = Some i" for t' i h
    using O that sub unfolding ownersOk_def by blast
qed simp

lemma inv_link:
  assumes inv: "stackInv ls s" and pc: "pcs s t = LinkSwap f i old"
    and eq: "heads s (linkHead f) = fst old"
  shows "stackInv (ls(linkHead f := i # ls (linkHead f)))
           (goto t (CountOne f) (swapHead (linkHead f) (pack (generationOf (fst old) + 1) i) s))"
    (is "stackInv ?ls ?s")
proof (rule inv_step[OF inv, where t = t and pc = "CountOne f"])
  let ?h = "linkHead f"
  from inv have L: "listsOk ls s" and O: "ownersOk ls s" and C: "chunksOk s"
    and "threadOk s (pcs s t)" by (auto simp: stackInv_def)
  with pc obtain nd where nd: "poolNode s i = Some nd" "nodeNext nd = indexOf (fst old)" by auto
  have own: "owned (pcs s t) = Some i" using pc by simp
  note mine = ownersOkD(1,2)[OF O own]
  then have nil: "i \<noteq> kNil" by (auto simp: used_def unat_kNil kCapacity_def kFirstChunkBits_def)
  have gen: "unat (take_bit 32 (generationOf (fst old) + 1) :: u64) = Suc (updates s ?h) mod 2 ^ 32"
    using listsOkD(4)[OF L, of ?h] eq by (intro unat_generation_step) simp
  show "listsOk ?ls ?s"
    unfolding listsOk_def
  proof (intro conjI allI)
    fix h
    show "chain ?s (indexOf (heads ?s h)) (?ls h)" "distinct (?ls h)" "\<forall>i\<in>set (?ls h). used ?s i"
      "unat (generationOf (heads ?s h)) = updates ?s h mod 2 ^ 32"
      using listsOkD(1,2,4)[OF L, of h] listsOkD(3)[OF L, of _ h] nd nil eq mine gen by auto
  next
    show "set (?ls Ready) \<inter> set (?ls Free) = {}" using L mine by (cases ?h) (auto simp: listsOk_def)
  qed
  show "chunksOk ?s" using C by simp
  show "othersSafe (owned (pcs s t)) s ?s" by (auto simp: othersSafe_def)
  show "j \<notin> set (?ls h)" if "t' \<noteq> t" "owned (pcs s t') = Some j" for t' j h
    using ownersOkD(2)[OF O that(2)] ownersOkD(3)[OF O own, of t'] that by auto
qed simp_all

lemma node_newChunk:
  "chunks s k = None \<Longrightarrow> poolNode s j \<noteq> None \<Longrightarrow>
     poolNode (s\<lparr>chunks := (chunks s)(k := Some ns)\<rparr>) j = poolNode s j"
  by (auto simp: poolNode_def split: option.splits)

lemma node_present:
  "chunksOk s \<Longrightarrow> chunks s (chunkOf (unat i)) \<noteq> None \<Longrightarrow> poolNode s i \<noteq> None"
  using offset_less[of "unat i"] by (auto simp: poolNode_def chunksOk_def)

lemma inv_chunk:
  assumes inv: "stackInv ls s" and pc: "pcs s t = MakeChunk v i"
    and none: "chunks s (chunkOf (unat i)) = None"
  shows "stackInv ls (goto t (SetValue v i)
           (s\<lparr>chunks := (chunks s)(chunkOf (unat i) := Some (newChunk (chunkOf (unat i))))\<rparr>))"
    (is "stackInv ls (goto t ?pc ?s)")
proof (rule inv_step[OF inv, where t = t and pc = ?pc])
  note own = ownersOkD[OF stackInvD(2)[OF inv]]
  have L: "listsOk ls s" using inv by (rule stackInvD)
  have same: "poolNode s j \<noteq> None \<Longrightarrow> poolNode ?s j = poolNode s j" for j
    by (rule node_newChunk[OF none])
  have chain: "chain s j xs \<Longrightarrow> chain ?s j xs" for j xs
    by (induction xs arbitrary: j) (auto simp: same)
  have used: "used ?s = used s" by (simp add: used_def fun_eq_iff)
  show "listsOk ls (goto t ?pc ?s)"
    using L chain by (auto simp: listsOk_def used)
  show C: "chunksOk (goto t ?pc ?s)"
    using stackInvD(3)[OF inv] by (auto simp: chunksOk_def newChunk_def)
  show "threadOk (goto t ?pc ?s) ?pc"
    using node_present[OF C, of i] by simp
  show "othersSafe (owned (pcs s t)) s (goto t ?pc ?s)"
    using same by (auto simp: othersSafe_def used)
  show "used (goto t ?pc ?s) j \<and> (\<forall>h. j \<notin> set (ls h)) \<and>
      (\<forall>t'. t' \<noteq> t \<longrightarrow> owned (pcs s t') \<noteq> Some j)" if "owned ?pc = Some j" for j
    using that pc own(1,2)[of t j] own(3)[of t j] by (auto simp: used_def)
  show "j \<notin> set (ls h)" if "owned (pcs s t') = Some j" for t' j h
    by (rule own[OF that])
qed simp

lemma unat_succ: "w \<noteq> - 1 \<Longrightarrow> unat (w + 1 :: u64) = Suc (unat w)"
  by (metis add.commute add_eq_0_iff2 unatSuc)

lemma used_fresh:
  "nextFresh s \<noteq> - 1 \<Longrightarrow> used s i \<Longrightarrow> used (s\<lparr>nextFresh := nextFresh s + 1\<rparr>) i"
  by (simp add: used_def unat_succ)

lemma inv_fresh:
  assumes inv: "stackInv ls s" and pc: "pcs s t = TakeFresh v" and room: "nextFresh s \<noteq> - 1"
  shows "stackInv ls (takeFresh t v s)"
  unfolding takeFresh_def
proof (rule inv_step[OF inv, where t = t and pc = "FindChunk v (nextFresh s)"])
  let ?s = "s\<lparr>nextFresh := nextFresh s + 1\<rparr>" and ?pc = "FindChunk v (nextFresh s)"
  note own = ownersOkD[OF stackInvD(2)[OF inv]]
  have L: "listsOk ls s" using inv by (rule stackInvD)
  have node: "poolNode ?s = poolNode s" by (auto simp: poolNode_def fun_eq_iff)
  have chain: "chain ?s i xs = chain s i xs" for i xs by (rule chain_cong) (simp add: node)
  note used = used_fresh[OF room]
  show "listsOk ls (goto t ?pc ?s)"
    using L chain used by (auto simp: listsOk_def)
  show "chunksOk (goto t ?pc ?s)"
    using stackInvD(3)[OF inv] by (auto simp: chunksOk_def)
  show "othersSafe (owned (pcs s t)) s (goto t ?pc ?s)"
    using used by (auto simp: othersSafe_def node)
  show "used (goto t ?pc ?s) j \<and> (\<forall>h. j \<notin> set (ls h)) \<and>
      (\<forall>t'. t' \<noteq> t \<longrightarrow> owned (pcs s t') \<noteq> Some j)" if "owned ?pc = Some j" for j
  proof -
    have j: "unat j = unat (nextFresh s)" "unat j < kCapacity"
      using that by (auto split: if_splits
          simp: unsigned_ucast_eq take_bit_nat_eq_self kCapacity_def kFirstChunkBits_def)
    then have "\<not> used s j" by (simp add: used_def)
    moreover have "used ?s j"
      using j room by (simp add: used_def unat_succ)
    ultimately show ?thesis using listsOkD(3)[OF L, of j] own(1)[of _ j] by auto
  qed
  show "j \<notin> set (ls h)" if "owned (pcs s t') = Some j" for t' j h
    by (rule own[OF that])
qed simp_all

subsection \<open>Steps refine the atomic stack\<close>

text \<open>A step that is an atomic step, or none; and a step that is so and keeps the invariant.\<close>

definition refines :: "'a Stack \<Rightarrow> 'a Stack \<Rightarrow> bool" where
  "refines s s' \<longleftrightarrow> atomicState s' = atomicState s \<or> atomicStep (atomicState s) (atomicState s')"

definition sound :: "'a Stack \<Rightarrow> 'a Stack \<Rightarrow> bool" where
  "sound s s' \<longleftrightarrow> (\<exists>ls. stackInv ls s') \<and> refines s s'"

lemma atomicState_inv:
  "stackInv ls s \<Longrightarrow> atomicState s = (map (valueAt s) (ls Ready), \<lambda>t. phaseOf s (pcs s t))"
  by (simp add: atomicState_def contents_map[OF stackInvD(1)])

lemma phaseOf_frame:
  assumes "\<And>i. owned pc = Some i \<Longrightarrow> valueAt s' i = valueAt s i"
  shows "phaseOf s' pc = phaseOf s pc"
proof -
  have "linkPhase s' f i = linkPhase s f i" if "owned pc = Some i" for f i
    using assms[OF that] by (cases f) auto
  with assms show ?thesis by (cases pc) auto
qed

lemma atomic_after:
  assumes "stackInv ls' s'" "pcs s' = (pcs s)(t := pc)"
    and "\<And>t' i. t' \<noteq> t \<Longrightarrow> owned (pcs s t') = Some i \<Longrightarrow> valueAt s' i = valueAt s i"
  shows "atomicState s' = (map (valueAt s') (ls' Ready), (\<lambda>t. phaseOf s (pcs s t))(t := phaseOf s' pc))"
proof -
  have "phaseOf s' (pcs s t') = phaseOf s (pcs s t')" if "t' \<noteq> t" for t'
    by (rule phaseOf_frame) (rule assms(3)[OF that])
  then show ?thesis using assms(2) by (auto simp: atomicState_inv[OF assms(1)] fun_eq_iff)
qed

text \<open>The three shapes of a step: the thread moves, it writes its own node, it installs a chunk.\<close>

lemma sound_move:
  assumes inv: "stackInv ls s" and "threadOk s pc" "owned pc = None \<or> owned pc = owned (pcs s t)"
    and phase: "\<And>p xs. p = (\<lambda>t. phaseOf s (pcs s t)) \<Longrightarrow> xs = map (valueAt s) (ls Ready) \<Longrightarrow>
      phaseOf s pc = p t \<or> atomicStep (xs, p) (xs, p(t := phaseOf s pc))"
  shows "sound s (goto t pc s)"
proof -
  have inv': "stackInv ls (goto t pc s)" using assms(1-3) by (rule inv_move)
  have ph: "phaseOf (goto t pc s) pc = phaseOf s pc" by (rule phaseOf_frame) simp
  have "atomicState (goto t pc s) =
      (map (valueAt s) (ls Ready), (\<lambda>t. phaseOf s (pcs s t))(t := phaseOf s pc))"
    using atomic_after[OF inv', of s t pc] ph by simp
  with inv' show ?thesis
    using phase[OF refl refl] atomicState_inv[OF inv] by (auto simp: sound_def refines_def fun_eq_iff)
qed

lemma sound_stay:
  "stackInv ls s \<Longrightarrow> threadOk s pc \<Longrightarrow> owned pc = None \<or> owned pc = owned (pcs s t) \<Longrightarrow>
     phaseOf s pc = phaseOf s (pcs s t) \<Longrightarrow> sound s (goto t pc s)"
  by (rule sound_move) auto

lemma sound_write:
  assumes inv: "stackInv ls s" and mine: "owned (pcs s t) = Some i" "owned pc = Some i"
    and nd: "poolNode s i = Some nd" and ok: "threadOk (setNode i nd' s) pc"
    and phase: "phaseOf (setNode i nd' s) pc = phaseOf s (pcs s t)"
  shows "sound s (goto t pc (setNode i nd' s))"
proof -
  let ?s = "setNode i nd' s"
  have inv': "stackInv ls (goto t pc ?s)" using inv mine nd ok by (rule inv_write)
  note own = ownersOkD[OF stackInvD(2)[OF inv]]
  have val: "j \<noteq> i \<Longrightarrow> valueAt ?s j = valueAt s j" for j by (simp add: valueAt_def node_setNode)
  have ph: "phaseOf (goto t pc ?s) pc = phaseOf ?s pc" by (rule phaseOf_frame) simp
  have "valueAt (goto t pc ?s) j = valueAt s j" if "t' \<noteq> t" "owned (pcs s t') = Some j" for t' j
    using val own(3)[OF mine(1), of t'] that by auto
  then have "atomicState (goto t pc ?s) =
      (map (valueAt ?s) (ls Ready), (\<lambda>t. phaseOf s (pcs s t))(t := phaseOf ?s pc))"
    using atomic_after[OF inv', of s t pc] ph by auto
  moreover have "map (valueAt ?s) (ls Ready) = map (valueAt s) (ls Ready)"
    by (rule map_cong[OF refl]) (use own(2)[OF mine(1), of Ready] in \<open>metis val\<close>)
  ultimately show ?thesis
    using inv' phase atomicState_inv[OF inv] by (auto simp: sound_def refines_def fun_eq_iff)
qed

lemma seenOk_read:
  assumes "stackInv ls s"
  shows "seenOk s h (readHead h s)"
proof -
  have L: "listsOk ls s" using assms by (rule stackInvD)
  have "indexOf (heads s h) = kNil \<or> poolNode s (indexOf (heads s h)) \<noteq> None"
    using listsOkD(1)[OF L, of h] by (cases "ls h") auto
  then show ?thesis using listsOkD(4)[OF L, of h] by (simp add: seenOk_def readHead_def)
qed

lemma empty_iff:
  assumes "stackInv ls s"
  shows "indexOf (heads s h) = kNil \<longleftrightarrow> ls h = []"
  using listsOkD(1)[OF stackInvD(1)[OF assms], of h] by (cases "ls h") auto

text \<open>Loading a head is where a pop of an empty stack takes effect.\<close>

lemma sound_load:
  assumes inv: "stackInv ls s" and pc: "phaseOf s (pcs s t) = goalPhase g"
  shows "sound s (goto t (UnlinkLoop g (readHead (unlinkHead g) s)) s)"
proof (rule sound_move[OF inv])
  show "threadOk s (UnlinkLoop g (readHead (unlinkHead g) s))"
    using seenOk_read[OF inv] by simp
  fix p xs
  assume p: "p = (\<lambda>t. phaseOf s (pcs s t))" and xs: "xs = map (valueAt s) (ls Ready)"
  show "phaseOf s (UnlinkLoop g (readHead (unlinkHead g) s)) = p t \<or>
      atomicStep (xs, p) (xs, p(t := phaseOf s (UnlinkLoop g (readHead (unlinkHead g) s))))"
  proof (cases "g = ForPop \<and> indexOf (heads s Ready) = kNil")
    case True
    then have "xs = []" "p t = Popping" using empty_iff[OF inv] xs p pc by auto
    with True show ?thesis by (auto simp: readHead_def intro: popEmpty)
  next
    case False
    then show ?thesis using p pc by (auto simp: readHead_def)
  qed
qed simp

lemma sound_unlinkLoop:
  assumes inv: "stackInv ls s" and pc: "pcs s t = UnlinkLoop g old"
  shows "sound s (unlinkLoop t g old s)"
proof -
  have ok: "seenOk s (unlinkHead g) old" using stackInvD(4)[OF inv, of t] pc by simp
  show ?thesis
  proof (cases "indexOf (fst old) = kNil")
    case True
    then show ?thesis
      using inv pc by (cases g) (auto simp: unlinkLoop_def intro!: sound_stay)
  next
    case False
    with ok obtain nd where nd: "poolNode s (indexOf (fst old)) = Some nd" by (auto simp: seenOk_def)
    with False ok show ?thesis
      using inv pc by (auto simp: unlinkLoop_def intro!: sound_stay)
  qed
qed

lemma sound_unlinkSwap:
  assumes inv: "stackInv ls s" and pc: "pcs s t = UnlinkSwap g old nx" and timely: "timely s"
  shows "sound s (unlinkSwap t weak g old nx s)"
proof (cases "heads s (unlinkHead g) = fst old \<and> \<not> weak")
  case False
  then show ?thesis
    using sound_load[OF inv, of t g] pc by (auto simp: unlinkSwap_def Let_def)
next
  case True
  let ?h = "unlinkHead g" and ?i = "indexOf (fst old)"
  let ?s = "swapHead ?h (pack (generationOf (fst old) + 1) nx) s"
  define pc' where "pc' = (case g of ForPush v \<Rightarrow> SetValue v ?i | ForPop \<Rightarrow> GetValue ?i)"
  obtain xs where ls: "ls ?h = ?i # xs" "chain s nx xs"
    using unlink_success[OF inv pc timely] True by blast
  have "poolNode s ?i \<noteq> None"
    using listsOkD(1)[OF stackInvD(1)[OF inv], of ?h] ls True by auto
  then have new: "owned pc' = Some ?i" "threadOk s pc'" "seenOf pc' = None"
    by (auto simp: pc'_def split: Goal.split)
  have inv': "stackInv (ls(?h := xs)) (goto t pc' ?s)"
    using inv pc ls True new by (intro inv_unlink) auto
  have at: "atomicState (goto t pc' ?s) =
      (map (valueAt s) ((ls(?h := xs)) Ready), (\<lambda>t. phaseOf s (pcs s t))(t := phaseOf (goto t pc' ?s) pc'))"
    using atomic_after[OF inv', of s t pc'] by simp
  have ph: "phaseOf (goto t pc' ?s) pc' = phaseOf s pc'" by (rule phaseOf_frame) simp
  have "refines s (goto t pc' ?s)"
  proof (cases g)
    case (ForPush v)
    then have "(\<lambda>t. phaseOf s (pcs s t))(t := phaseOf s pc') = (\<lambda>t. phaseOf s (pcs s t))"
      using pc by (auto simp: pc'_def fun_eq_iff)
    then show ?thesis using at ph ForPush atomicState_inv[OF inv] by (simp add: refines_def)
  next
    case ForPop
    have "atomicStep (valueAt s ?i # map (valueAt s) xs, \<lambda>t. phaseOf s (pcs s t))
        (map (valueAt s) xs, (\<lambda>t. phaseOf s (pcs s t))(t := Done (Popped (valueAt s ?i))))"
      using pc ForPop by (intro doPop) simp
    then show ?thesis
      using at ph ForPop ls atomicState_inv[OF inv] by (simp add: refines_def pc'_def)
  qed
  with inv' True show ?thesis by (auto simp: sound_def unlinkSwap_def Let_def pc'_def)
qed

lemma sound_linkSwap:
  assumes inv: "stackInv ls s" and pc: "pcs s t = LinkSwap f i old"
  shows "sound s (linkSwap t weak f i old s)"
proof (cases "heads s (linkHead f) = fst old \<and> \<not> weak")
  case False
  have "poolNode s i \<noteq> None" using stackInvD(4)[OF inv, of t] pc by auto
  then have "sound s (goto t (LinkStore f i (readHead (linkHead f) s)) s)"
    using inv pc seenOk_read[OF inv] by (intro sound_stay) auto
  with False show ?thesis by (auto simp: linkSwap_def Let_def)
next
  case True
  let ?h = "linkHead f"
  let ?s = "swapHead ?h (pack (generationOf (fst old) + 1) i) s"
  let ?ls = "ls(?h := i # ls ?h)"
  have inv': "stackInv ?ls (goto t (CountOne f) ?s)" using inv pc True by (intro inv_link) auto
  have at: "atomicState (goto t (CountOne f) ?s) =
      (map (valueAt s) (?ls Ready), (\<lambda>t. phaseOf s (pcs s t))(t := Done f))"
    using atomic_after[OF inv', of s t "CountOne f"] by simp
  have "refines s (goto t (CountOne f) ?s)"
  proof (cases f)
    case Pushed
    have "atomicStep (map (valueAt s) (ls Ready), \<lambda>t. phaseOf s (pcs s t))
        (valueAt s i # map (valueAt s) (ls Ready), (\<lambda>t. phaseOf s (pcs s t))(t := Done Pushed))"
      using pc Pushed by (intro doPush) simp
    then show ?thesis using at Pushed atomicState_inv[OF inv] by (simp add: refines_def)
  next
    case (Popped v)
    then have "(\<lambda>t. phaseOf s (pcs s t))(t := Done f) = (\<lambda>t. phaseOf s (pcs s t))"
      using pc by (auto simp: fun_eq_iff)
    then show ?thesis using at Popped atomicState_inv[OF inv] by (simp add: refines_def)
  qed
  with inv' True show ?thesis by (auto simp: sound_def linkSwap_def Let_def)
qed

lemma sound_linkStore:
  assumes inv: "stackInv ls s" and pc: "pcs s t = LinkStore f i old"
  shows "sound s (linkStore t f i old s)"
proof -
  from stackInvD(4)[OF inv, of t] pc obtain nd where nd: "poolNode s i = Some nd"
    and seen: "seenOk s (linkHead f) old" by auto
  let ?nd = "nd\<lparr>nodeNext := indexOf (fst old)\<rparr>"
  have "seenOk (setNode i ?nd s) (linkHead f) old"
    using seen by (auto simp: seenOk_def node_setNode)
  moreover have "linkPhase (setNode i ?nd s) f i = linkPhase s f i"
    using nd by (cases f) (auto simp: valueAt_def node_setNode)
  ultimately have "sound s (goto t (LinkSwap f i old) (setNode i ?nd s))"
    using inv pc nd by (intro sound_write) (auto simp: node_setNode)
  with nd show ?thesis by (simp add: linkStore_def)
qed

lemma sound_setValue:
  assumes inv: "stackInv ls s" and pc: "pcs s t = SetValue v i"
  shows "sound s (setValue t v i s)"
proof -
  from stackInvD(4)[OF inv, of t] pc obtain nd where nd: "poolNode s i = Some nd" by auto
  have "sound s (goto t (LinkLoad Pushed i) (setNode i (nd\<lparr>nodeValue := v\<rparr>) s))"
    using inv pc nd by (intro sound_write) (auto simp: node_setNode valueAt_def)
  with nd show ?thesis by (simp add: setValue_def)
qed

lemma sound_getValue:
  assumes inv: "stackInv ls s" and pc: "pcs s t = GetValue i"
  shows "sound s (getValue t i s)"
proof -
  from stackInvD(4)[OF inv, of t] pc obtain nd where nd: "poolNode s i = Some nd" by auto
  have "sound s (goto t (LinkLoad (Popped (nodeValue nd)) i) s)"
    using inv pc nd by (intro sound_stay) (auto simp: valueAt_def)
  with nd show ?thesis by (simp add: getValue_def)
qed

lemma sound_linkLoad:
  assumes inv: "stackInv ls s" and pc: "pcs s t = LinkLoad f i"
  shows "sound s (linkLoad t f i s)"
  unfolding linkLoad_def using inv pc seenOk_read[OF inv] stackInvD(4)[OF inv, of t]
  by (intro sound_stay) auto

lemma sound_findChunk:
  assumes inv: "stackInv ls s" and pc: "pcs s t = FindChunk v fresh"
  shows "sound s (findChunk t v fresh s)"
proof (cases "unat fresh < kCapacity")
  case False
  have "sound s (goto t BadAlloc s)"
    using inv pc by (intro sound_move) (auto intro: refuse)
  with False show ?thesis by (simp add: findChunk_def)
next
  case True
  then have i: "unat (ucast fresh :: u32) = unat fresh"
    by (simp add: unsigned_ucast_eq take_bit_nat_eq_self kCapacity_def kFirstChunkBits_def)
  show ?thesis
  proof (cases "chunks s (chunkOf (unat fresh))")
    case None
    then have "sound s (goto t (MakeChunk v (ucast fresh)) s)"
      using inv pc True by (intro sound_stay) auto
    with None True show ?thesis by (simp add: findChunk_def)
  next
    case (Some ns)
    then have "poolNode s (ucast fresh) \<noteq> None"
      using node_present[OF stackInvD(3)[OF inv], of "ucast fresh"] i by simp
    then have "sound s (goto t (SetValue v (ucast fresh)) s)"
      using inv pc True by (intro sound_stay) auto
    with Some True show ?thesis by (simp add: findChunk_def)
  qed
qed

lemma sound_makeChunk:
  assumes inv: "stackInv ls s" and pc: "pcs s t = MakeChunk v i"
  shows "sound s (makeChunk t v i s)"
proof (cases "chunks s (chunkOf (unat i))")
  case (Some ns)
  then have "poolNode s i \<noteq> None" using node_present[OF stackInvD(3)[OF inv], of i] by simp
  then have "sound s (goto t (SetValue v i) s)" using inv pc by (intro sound_stay) auto
  with Some show ?thesis by (simp add: makeChunk_def Let_def)
next
  case None
  let ?k = "chunkOf (unat i)"
  let ?s = "s\<lparr>chunks := (chunks s)(?k := Some (newChunk ?k))\<rparr>"
  have inv': "stackInv ls (goto t (SetValue v i) ?s)" using inv pc None by (rule inv_chunk)
  have fresh: "valueAt ?s j = valueAt s j" for j
    using None by (auto simp: valueAt_def poolNode_def newChunk_def chunkSize_def split: option.splits)
  then have "map (valueAt ?s) xs = map (valueAt s) xs" for xs by simp
  then have "atomicState (goto t (SetValue v i) ?s) = atomicState s"
    using atomic_after[OF inv', of s t "SetValue v i"] fresh pc atomicState_inv[OF inv]
    by (auto simp: fun_eq_iff)
  with inv' None show ?thesis by (auto simp: sound_def refines_def makeChunk_def Let_def)
qed

text \<open>Steps that touch no node and no head.\<close>

lemma inv_counter: "stackInv ls s \<Longrightarrow> stackInv ls (s\<lparr>entryCount := n\<rparr>)"
  and atomic_counter: "atomicState (s\<lparr>entryCount := n\<rparr>) = atomicState s"
proof -
  let ?s = "s\<lparr>entryCount := n\<rparr>"
  have node: "poolNode ?s = poolNode s" by (simp add: poolNode_def fun_eq_iff)
  have chain: "chain ?s i xs = chain s i xs" for i xs by (rule chain_cong) (simp add: node)
  have seen: "seenOk ?s = seenOk s" by (simp add: seenOk_def fun_eq_iff node)
  have "threadOk ?s pc = threadOk s pc" for pc by (cases pc) (simp_all add: node seen)
  then show "stackInv ls s \<Longrightarrow> stackInv ls ?s"
    by (simp add: stackInv_def listsOk_def ownersOk_def chunksOk_def used_def chain)
  have val: "valueAt ?s = valueAt s" by (simp add: valueAt_def fun_eq_iff node)
  have follow: "follow m ?s i = follow m s i" for m i by (induction m arbitrary: i) (simp_all add: node split: option.split)
  have "phaseOf ?s pc = phaseOf s pc" for pc by (rule phaseOf_frame) (simp add: val)
  then show "atomicState ?s = atomicState s"
    by (simp add: atomicState_def contents_def follow)
qed

lemma sound_countOne:
  assumes inv: "stackInv ls s" and pc: "pcs s t = CountOne f"
  shows "sound s (countOne t f s)"
proof -
  let ?s = "s\<lparr>entryCount := (case f of Pushed \<Rightarrow> entryCount s + 1 | Popped _ \<Rightarrow> entryCount s - 1)\<rparr>"
  have "sound ?s (goto t (Returned f) ?s)"
    using inv_counter[OF inv] pc by (intro sound_stay) auto
  then show ?thesis by (simp add: countOne_def sound_def refines_def atomic_counter)
qed

lemma sound_takeFresh:
  assumes inv: "stackInv ls s" and pc: "pcs s t = TakeFresh v" and "timely s"
  shows "sound s (takeFresh t v s)"
proof -
  have inv': "stackInv ls (takeFresh t v s)"
    using inv pc assms(3) by (intro inv_fresh) (auto simp: timely_def)
  have val: "valueAt (takeFresh t v s) = valueAt s"
    by (auto simp: takeFresh_def valueAt_def poolNode_def fun_eq_iff)
  have "pcs (takeFresh t v s) = (pcs s)(t := FindChunk v (nextFresh s))" by (simp add: takeFresh_def)
  then have "atomicState (takeFresh t v s) = atomicState s"
    using atomic_after[OF inv', of s t] val pc atomicState_inv[OF inv] by (auto simp: fun_eq_iff)
  with inv' show ?thesis by (auto simp: sound_def refines_def)
qed

lemma sound_step:
  assumes step: "stackStep s s'" and inv: "stackInv ls s" and timely: "timely s"
  shows "sound s s'"
  using step
proof cases
  case (callPush t v)
  show ?thesis unfolding callPush using inv callPush
    by (intro sound_move) (auto intro: startPush)
next
  case (callPop t)
  show ?thesis unfolding callPop using inv callPop
    by (intro sound_move) (auto intro: startPop)
next
  case (run t weak)
  note rules = sound_unlinkLoop sound_unlinkSwap sound_takeFresh sound_findChunk sound_makeChunk
    sound_setValue sound_getValue sound_linkLoad sound_linkStore sound_linkSwap sound_countOne
  show ?thesis
    using run inv timely sound_load[OF inv, of t]
    by (cases "pcs s t") (auto simp: unlinkLoad_def intro: rules)
next
  case (return t f)
  show ?thesis unfolding return using inv return
    by (intro sound_move) (auto intro: finish)
qed

lemma emptyHead [simp]: "indexOf (ucast kNil) = kNil" "generationOf (ucast kNil) = 0"
proof -
  have "\<not> bit kNil (32 + n)" for n
    using bit_imp_le_length[of kNil "32 + n"] by auto
  then show "indexOf (ucast kNil) = kNil" "generationOf (ucast kNil) = 0"
    by (auto intro!: bit_word_eqI simp: indexOf_def generationOf_def bit_simps)
qed

lemma inv_start: "stackInv (\<lambda>_. []) emptyStack"
  by (auto simp: stackInv_def listsOk_def ownersOk_def chunksOk_def emptyStack_def)

lemma reachable_inv: "reachable s \<Longrightarrow> \<exists>ls. stackInv ls s"
  by (induction rule: reachable.induct) (use inv_start sound_step in \<open>auto simp: sound_def\<close>)

lemma emptyStack_timely: "timely emptyStack"
  by (simp add: timely_def emptyStack_def)

subsection \<open>Properties\<close>

text \<open>
  C5: as long as no thread is overtaken by \<open>2 ^ 32\<close> updates of a head it has read, every step of the
  lock-free stack, by any thread and at any point of \<^verbatim>\<open>push\<close> or \<^verbatim>\<open>pop\<close>, is one step of the atomic stack
  or no step of it at all; both start empty.
\<close>

theorem readyStack_linearizable:
  assumes "reachable s" and "timely s" and "stackStep s s'"
  shows "atomicState (emptyStack :: 'a Stack) = ([], \<lambda>_. Resting) \<and>
    (atomicState s' = atomicState (s :: 'a Stack) \<or> atomicStep (atomicState s) (atomicState s'))"
proof -
  have "atomicState (emptyStack :: 'a Stack) = ([], \<lambda>_. Resting)"
    using atomicState_inv[OF inv_start] by (simp add: emptyStack_def)
  moreover from assms(1) obtain ls where "stackInv ls s" using reachable_inv by blast
  ultimately show ?thesis using assms(2,3) sound_step by (auto simp: sound_def refines_def)
qed

theorem readyStack_linearizable_witness:
  "atomicState (goto 3 (UnlinkLoad (ForPush (Some True))) emptyStack) = atomicState emptyStack \<or>
   atomicStep (atomicState emptyStack)
     (atomicState (goto 3 (UnlinkLoad (ForPush (Some True))) emptyStack))"
proof -
  have "stackStep emptyStack (goto 3 (UnlinkLoad (ForPush (Some True))) emptyStack)"
    by (rule callPush) (simp add: emptyStack_def)
  then show ?thesis
    using readyStack_linearizable[OF reachable.start emptyStack_timely] by blast
qed

text \<open>
  C6: no thread ever follows an index into a chunk that has not been installed, and a node outside the
  two lists belongs to one thread.
\<close>

theorem readyStack_safe:
  assumes "reachable s"
  shows "pcs s t \<noteq> Crashed \<and> (owned (pcs s t) = Some i \<and> owned (pcs s t') = Some i \<longrightarrow> t = t')"
proof -
  from assms obtain ls where inv: "stackInv ls s" using reachable_inv by blast
  show ?thesis using stackInvD(4)[OF inv, of t] ownersOkD(3)[OF stackInvD(2)[OF inv], of t' i t] by auto
qed

theorem readyStack_safe_witness:
  "pcs (emptyStack :: nat Stack) 0 \<noteq> Crashed"
  using readyStack_safe[OF reachable.start, of 0] by blast

text \<open>
  C7: a compare-and-swap is never fooled by a head that was changed and changed back.  The upper half of
  a head counts the updates of that head modulo \<open>2 ^ 32\<close>; and as long as no thread is overtaken by
  \<open>2 ^ 32\<close> of them, a head holds the word a thread has read exactly when it has not been updated since the
  read, so a strong compare-and-swap fails exactly when another thread's has succeeded in between.
\<close>

theorem readyStack_no_aba:
  assumes "reachable s" and "timely s" and "seenOf (pcs s t) = Some (h, w, n)"
  shows "unat (generationOf (heads s h)) = updates s h mod 2 ^ 32 \<and>
    n \<le> updates s h \<and> (heads s h = w \<longleftrightarrow> updates s h = n)"
proof -
  from assms(1) obtain ls where inv: "stackInv ls s" using reachable_inv by blast
  then have "threadOk s (pcs s t)" by (rule stackInvD)
  then have seen: "seenOk s h (w, n)" using assms(3) by (cases "pcs s t") auto
  have gen: "unat (generationOf (heads s h)) = updates s h mod 2 ^ 32"
    using listsOkD(4)[OF stackInvD(1)[OF inv]] .
  have "updates s h < n + 2 ^ 32" using assms(2,3) by (auto simp: timely_def)
  then have "heads s h = w \<Longrightarrow> updates s h = n" using swap_in_time[of s h "(w, n)"] seen gen by simp
  with seen gen show ?thesis by (auto simp: seenOk_def)
qed

theorem readyStack_no_aba_witness:
  "let s = stepThread False 0 (goto 0 (UnlinkLoad ForPop) emptyStack) :: nat Stack
   in seenOf (pcs s 0) = Some (Ready, ucast kNil, 0) \<and> (heads s Ready = ucast kNil \<longleftrightarrow> updates s Ready = 0)"
proof -
  let ?s = "goto 0 (UnlinkLoad ForPop) emptyStack :: nat Stack"
  have "reachable ?s"
    by (rule reachable.step[OF reachable.start emptyStack_timely callPop]) (simp add: emptyStack_def)
  moreover have "timely ?s" by (simp add: timely_def emptyStack_def)
  moreover have "stackStep ?s (stepThread False 0 ?s)" by (rule run) simp
  ultimately have r: "reachable (stepThread False 0 ?s)" by (rule reachable.step)
  have seen: "seenOf (pcs (stepThread False 0 ?s) 0) = Some (Ready, ucast kNil, 0)"
    by (simp add: unlinkLoad_def readHead_def emptyStack_def)
  have "timely (stepThread False 0 ?s)"
    by (auto simp: timely_def unlinkLoad_def readHead_def emptyStack_def split: if_splits)
  from readyStack_no_aba[OF r this seen] seen show ?thesis by (simp add: Let_def)
qed

text \<open>
  Every index below the capacity lies in one of the chunks of the table and inside it, and two
  indices never share a place.
\<close>

theorem node_addresses:
  assumes "i < kCapacity" and "j < kCapacity"
  shows "chunkOf i < kMaxChunks \<and> offsetOf i < chunkSize (chunkOf i) \<and>
    ((chunkOf i, offsetOf i) = (chunkOf j, offsetOf j) \<longrightarrow> i = j)"
  using assms chunk_in_table offset_less address_inj by auto

theorem node_addresses_witness:
  "chunkOf 256 < kMaxChunks \<and> offsetOf 256 < chunkSize (chunkOf 256)"
  using node_addresses[of 256 0] by (simp add: kCapacity_def kFirstChunkBits_def)

end
