(* ===== verification/Semaphore.thy ===== *)
theory Semaphore
  imports Prelude
begin

text \<open>
  The counting semaphore of the actor scheduler (\<^verbatim>\<open>src/src/runtime/Semaphore.h\<close>).  A state is the 32-bit
  count, the point of \<^verbatim>\<open>acquire\<close> or \<^verbatim>\<open>release\<close> every thread has reached, and two auxiliary totals.
  \<^verbatim>\<open>std::atomic::wait(0)\<close> puts a thread to sleep only while the count is 0 and looks again when it is woken,
  also without a notification.  Shown: permits are neither lost nor invented, and no wakeup is lost: as
  long as a permit is there, either nobody sleeps or enough threads are awake or about to be woken.
\<close>

datatype Point =
    Outside
  | AcquireLoad
  | AcquireTest u32
  | AcquireSwap u32
  | AcquireWait
  | Asleep
  | ReleaseAdd nat
  | ReleaseNotify nat

record Semaphore =
  count :: u32
  points :: "nat \<Rightarrow> Point"
  released :: nat
  acquired :: nat

definition newSemaphore :: Semaphore where
  "newSemaphore = \<lparr>count = 0, points = (\<lambda>_. Outside), released = 0, acquired = 0\<rparr>"

definition at :: "nat \<Rightarrow> Point \<Rightarrow> Semaphore \<Rightarrow> Semaphore" where
  "at t p s = s\<lparr>points := (points s)(t := p)\<rparr>"

text \<open>\<^verbatim>\<open>acquire\<close>, one atomic access at a time; \<open>weak\<close> lets \<^verbatim>\<open>compare_exchange_weak\<close> fail.\<close>

definition acquireLoad :: "nat \<Rightarrow> Semaphore \<Rightarrow> Semaphore" where
  "acquireLoad t s = at t (AcquireTest (count s)) s"

definition acquireTest :: "nat \<Rightarrow> u32 \<Rightarrow> Semaphore \<Rightarrow> Semaphore" where
  "acquireTest t c s = at t (if 0 < sint c then AcquireSwap c else AcquireWait) s"

definition acquireSwap :: "bool \<Rightarrow> nat \<Rightarrow> u32 \<Rightarrow> Semaphore \<Rightarrow> Semaphore" where
  "acquireSwap weak t c s =
     (if count s = c \<and> \<not> weak
      then at t Outside (s\<lparr>count := c - 1, acquired := acquired s + 1\<rparr>)
      else at t (AcquireTest (count s)) s)"

definition acquireWait :: "nat \<Rightarrow> Semaphore \<Rightarrow> Semaphore" where
  "acquireWait t s = at t (if count s = 0 then Asleep else AcquireLoad) s"

text \<open>\<^verbatim>\<open>release\<close>: the addition, then the notification of one sleeper or of all.\<close>

definition releaseAdd :: "nat \<Rightarrow> nat \<Rightarrow> Semaphore \<Rightarrow> Semaphore" where
  "releaseAdd t n s =
     at t (ReleaseNotify n) (s\<lparr>count := count s + of_nat n, released := released s + n\<rparr>)"

definition notifyOne :: "nat \<Rightarrow> nat option \<Rightarrow> Semaphore \<Rightarrow> Semaphore" where
  "notifyOne t woken s =
     at t Outside (case woken of None \<Rightarrow> s | Some w \<Rightarrow> at w AcquireWait s)"

definition notifyAll :: "nat \<Rightarrow> Semaphore \<Rightarrow> Semaphore" where
  "notifyAll t s =
     at t Outside (s\<lparr>points := (\<lambda>w. if points s w = Asleep then AcquireWait else points s w)\<rparr>)"

definition someAsleep :: "Semaphore \<Rightarrow> bool" where
  "someAsleep s \<longleftrightarrow> (\<exists>w. points s w = Asleep)"

inductive semStep :: "Semaphore \<Rightarrow> Semaphore \<Rightarrow> bool" where
  callAcquire: "points s t = Outside \<Longrightarrow> semStep s (at t AcquireLoad s)"
| load: "points s t = AcquireLoad \<Longrightarrow> semStep s (acquireLoad t s)"
| test: "points s t = AcquireTest c \<Longrightarrow> semStep s (acquireTest t c s)"
| swap: "points s t = AcquireSwap c \<Longrightarrow> semStep s (acquireSwap weak t c s)"
| wait: "points s t = AcquireWait \<Longrightarrow> semStep s (acquireWait t s)"
| spuriousWake: "points s t = Asleep \<Longrightarrow> semStep s (at t AcquireWait s)"
| callRelease: "points s t = Outside \<Longrightarrow> 0 < n \<Longrightarrow> semStep s (at t (ReleaseAdd n) s)"
| add: "points s t = ReleaseAdd n \<Longrightarrow> semStep s (releaseAdd t n s)"
| notify_one: "points s t = ReleaseNotify 1 \<Longrightarrow> points s w = Asleep \<Longrightarrow> semStep s (notifyOne t (Some w) s)"
| notify_none: "points s t = ReleaseNotify 1 \<Longrightarrow> \<not> someAsleep s \<Longrightarrow> semStep s (notifyOne t None s)"
| notify_all: "points s t = ReleaseNotify n \<Longrightarrow> n \<noteq> 1 \<Longrightarrow> semStep s (notifyAll t s)"

text \<open>The states of a run in which fewer than \<open>2 ^ 31\<close> permits are ever released.\<close>

inductive reaches :: "Semaphore \<Rightarrow> bool" where
  fresh: "reaches newSemaphore"
| onward: "reaches s \<Longrightarrow> semStep s s' \<Longrightarrow> released s' < 2 ^ 31 \<Longrightarrow> reaches s'"

subsection \<open>The invariant\<close>

text \<open>Threads that are about to look at the count, and threads about to wake one or all sleepers.\<close>

fun looking :: "Point \<Rightarrow> bool" where
  "looking AcquireLoad = True"
| "looking (AcquireTest c) = True"
| "looking (AcquireSwap c) = True"
| "looking AcquireWait = True"
| "looking p = False"

definition helping :: "Point \<Rightarrow> bool" where
  "helping p \<longleftrightarrow> looking p \<or> p = ReleaseNotify 1"

definition helpers :: "Semaphore \<Rightarrow> nat set" where
  "helpers s = {t. helping (points s t)}"

definition active :: "Semaphore \<Rightarrow> nat set" where
  "active s = {t. points s t \<noteq> Outside}"

definition wakingAll :: "Semaphore \<Rightarrow> bool" where
  "wakingAll s \<longleftrightarrow> (\<exists>t n. points s t = ReleaseNotify n \<and> n \<noteq> 1)"

definition semInv :: "Semaphore \<Rightarrow> bool" where
  "semInv s \<longleftrightarrow>
     released s < 2 ^ 31 \<and> unat (count s) + acquired s = released s \<and>
     finite (active s) \<and> (\<forall>t c. points s t = AcquireSwap c \<longrightarrow> 0 < sint c) \<and>
     (someAsleep s \<longrightarrow> wakingAll s \<or> unat (count s) \<le> card (helpers s))"

lemma at_simps [simp]:
  "count (at t p s) = count s" "released (at t p s) = released s" "acquired (at t p s) = acquired s"
  "points (at t p s) = (points s)(t := p)"
  by (simp_all add: at_def)

lemma helpers_at:
  "helpers (at t p s) = (if helping p then insert t (helpers s) else helpers s - {t})"
  by (auto simp: helpers_def)

lemma active_at: "active (at t p s) \<subseteq> insert t (active s)"
  by (auto simp: active_def split: if_splits)

lemma helpers_active: "helpers s \<subseteq> active s"
  by (auto simp: helpers_def active_def helping_def)

lemma semInv_finite: "semInv s \<Longrightarrow> finite (helpers s)" "semInv s \<Longrightarrow> finite (active s)"
  using finite_subset[OF helpers_active] by (auto simp: semInv_def)

lemma finite_active_at: "finite (active s) \<Longrightarrow> finite (active (at t p s))"
  using finite_subset[OF active_at] by blast

lemma active_update [simp]:
  "active (s\<lparr>count := c, acquired := a\<rparr>) = active s" "active (s\<lparr>count := c, released := a\<rparr>) = active s"
  by (simp_all add: active_def)

lemma wakingAll_keep:
  "wakingAll s \<Longrightarrow> \<not> (\<exists>n. points s t = ReleaseNotify n \<and> n \<noteq> 1) \<Longrightarrow>
     points s' = (points s)(t := p) \<Longrightarrow> wakingAll s'"
  unfolding wakingAll_def by (metis fun_upd_other)

lemma unat_take: "0 < sint c \<Longrightarrow> unat (c :: u32) = Suc (unat (c - 1))"
  by (metis Suc_pred' less_irrefl sint_0 unat_gt_0 unat_minus_one)

lemma unat_add:
  assumes "unat c + n < 2 ^ 31"
  shows "unat (c + of_nat n :: u32) = unat c + n"
proof -
  have "unat (of_nat n :: u32) = n"
    using assms by (simp add: unsigned_of_nat take_bit_nat_eq_self)
  then show ?thesis using assms by (subst unat_plus_simple[THEN iffD1]) (auto simp: no_olen_add_nat)
qed

lemma semInv_swap: "semInv s \<Longrightarrow> points s t = AcquireSwap c \<Longrightarrow> 0 < sint c"
  by (simp add: semInv_def)

text \<open>A thread that moves without touching the count, and without ceasing to help.\<close>

lemma semInv_at:
  assumes inv: "semInv s"
    and keeps: "helping (points s t) \<longrightarrow> helping p" "\<not> (\<exists>n. points s t = ReleaseNotify n \<and> n \<noteq> 1)"
    and p: "p \<noteq> Asleep" "\<And>c. p = AcquireSwap c \<Longrightarrow> 0 < sint c"
  shows "semInv (at t p s)"
proof -
  note fin = semInv_finite[OF inv]
  have "helpers s \<subseteq> helpers (at t p s)" using keeps(1) by (auto simp: helpers_at helpers_def)
  then have "card (helpers s) \<le> card (helpers (at t p s))"
    using fin by (intro card_mono) (auto simp: helpers_at)
  moreover have "wakingAll s \<Longrightarrow> wakingAll (at t p s)"
    using keeps(2) by - (rule wakingAll_keep[of s t], auto)
  moreover have "someAsleep (at t p s) \<Longrightarrow> someAsleep s"
    using p(1) by (auto simp: someAsleep_def split: if_splits)
  ultimately show ?thesis using inv p finite_active_at[OF fin(2)] by (auto simp: semInv_def)
qed

lemma semInv_sleep:
  assumes inv: "semInv s" and "count s = 0"
  shows "semInv (at t Asleep s)"
  using inv assms(2) finite_active_at[of s t] by (auto simp: semInv_def)

lemma semInv_take:
  assumes inv: "semInv s" and pt: "points s t = AcquireSwap c" and c: "count s = c"
  shows "semInv (at t Outside (s\<lparr>count := c - 1, acquired := acquired s + 1\<rparr>))"
    (is "semInv ?s")
proof -
  note n = unat_take[OF semInv_swap[OF inv pt]]
  note fin = semInv_finite[OF inv]
  have t: "t \<in> helpers s" using pt by (simp add: helpers_def helping_def)
  have h: "helpers ?s = helpers s - {t}" by (auto simp: helpers_def helping_def)
  have card: "card (helpers s) = Suc (card (helpers ?s))" unfolding h using card_Suc_Diff1[OF fin(1) t] by simp
  have sleep: "someAsleep ?s \<Longrightarrow> someAsleep s" by (auto simp: someAsleep_def split: if_splits)
  have wake: "wakingAll s \<Longrightarrow> wakingAll ?s"
    using pt by - (rule wakingAll_keep[of s t], auto)
  have act: "finite (active ?s)" using fin(2) by (intro finite_active_at) simp
  have "unat (count ?s) + acquired ?s = released ?s" using inv n c by (simp add: semInv_def)
  moreover have "someAsleep ?s \<longrightarrow> wakingAll ?s \<or> unat (count ?s) \<le> card (helpers ?s)"
    using inv sleep wake card n c by (auto simp: semInv_def)
  ultimately show ?thesis using inv act unfolding semInv_def by auto
qed

lemma semInv_add:
  assumes inv: "semInv s" and pt: "points s t = ReleaseAdd n" and room: "released s + n < 2 ^ 31"
  shows "semInv (releaseAdd t n s)"
    (is "semInv ?s")
proof -
  note fin = semInv_finite[OF inv]
  have t: "t \<notin> helpers s" using pt by (simp add: helpers_def helping_def)
  have h: "helpers ?s = (if n = 1 then insert t (helpers s) else helpers s)"
    using t by (auto simp: releaseAdd_def helpers_def helping_def)
  have count: "unat (count ?s) = unat (count s) + n"
    using inv room unat_add[of "count s" n] by (simp add: semInv_def releaseAdd_def)
  have sleep: "someAsleep ?s \<Longrightarrow> someAsleep s"
    by (auto simp: someAsleep_def releaseAdd_def split: if_splits)
  have wake: "wakingAll s \<Longrightarrow> wakingAll ?s"
    using pt by - (rule wakingAll_keep[of s t], auto simp: releaseAdd_def)
  have all: "n \<noteq> 1 \<Longrightarrow> wakingAll ?s"
    by (auto simp: wakingAll_def releaseAdd_def)
  have act: "finite (active ?s)"
    unfolding releaseAdd_def using fin(2) by (intro finite_active_at) simp
  have "someAsleep ?s \<longrightarrow> wakingAll ?s \<or> unat (count ?s) \<le> card (helpers ?s)"
  proof (cases "n = 1")
    case True
    then have "card (helpers ?s) = Suc (card (helpers s))" using h fin(1) t by simp
    with True inv sleep wake count show ?thesis by (auto simp: semInv_def)
  qed (use all in blast)
  moreover have "unat (count ?s) + acquired ?s = released ?s \<and> released ?s < 2 ^ 31"
    using inv count room by (simp add: semInv_def releaseAdd_def)
  moreover have "points ?s u = AcquireSwap c \<Longrightarrow> 0 < sint c" for u c
    using semInv_swap[OF inv, of u c] by (simp add: releaseAdd_def split: if_splits)
  ultimately show ?thesis using act unfolding semInv_def by blast
qed

lemma semInv_notifyOne:
  assumes inv: "semInv s" and pt: "points s t = ReleaseNotify 1" and w: "points s w = Asleep"
  shows "semInv (notifyOne t (Some w) s)"
    (is "semInv ?s")
proof -
  note fin = semInv_finite[OF inv]
  have t: "t \<in> helpers s" "w \<notin> helpers s" "w \<noteq> t" using pt w by (auto simp: helpers_def helping_def)
  have h: "helpers ?s = insert w (helpers s - {t})"
    using t by (auto simp: notifyOne_def helpers_def helping_def)
  have card: "card (helpers ?s) = card (helpers s)"
    unfolding h using fin(1) t(2) card_Suc_Diff1[OF fin(1) t(1)] by simp
  have sleep: "someAsleep s" using w by (auto simp: someAsleep_def)
  have "wakingAll s \<Longrightarrow> wakingAll (at w AcquireWait s)"
    using w by - (rule wakingAll_keep[of s w], auto)
  then have wake: "wakingAll s \<Longrightarrow> wakingAll ?s"
    using pt t(3) by - (rule wakingAll_keep[of "at w AcquireWait s" t], auto simp: notifyOne_def)
  have act: "finite (active ?s)"
    using fin(2) by (simp add: notifyOne_def finite_active_at)
  have same: "count ?s = count s" "released ?s = released s" "acquired ?s = acquired s"
    by (simp_all add: notifyOne_def)
  have "points ?s u = AcquireSwap c \<Longrightarrow> 0 < sint c" for u c
    using semInv_swap[OF inv, of u c] by (simp add: notifyOne_def split: if_splits)
  then show ?thesis using inv sleep wake card act unfolding semInv_def same by auto
qed

text \<open>When nobody sleeps afterwards there is no wakeup to lose.\<close>

lemma semInv_quiet:
  assumes inv: "semInv s" and same: "count s' = count s" "released s' = released s" "acquired s' = acquired s"
    and quiet: "\<not> someAsleep s'" "active s' \<subseteq> active s"
      "\<And>u. points s' u = points s u \<or> points s' u = Outside \<or> points s' u = AcquireWait"
  shows "semInv s'"
proof -
  have "points s' u = AcquireSwap c \<Longrightarrow> points s u = AcquireSwap c" for u c using quiet(3)[of u] by auto
  moreover have "finite (active s')" using finite_subset[OF quiet(2)] semInv_finite[OF inv] by blast
  ultimately show ?thesis using inv same quiet(1) by (auto simp: semInv_def)
qed

lemma semStep_inv:
  assumes "semStep s s'" and inv: "semInv s" and room: "released s' < 2 ^ 31"
  shows "semInv s'"
  using assms(1)
proof cases
  case (swap t c weak)
  then show ?thesis using inv semInv_take[OF inv] semInv_at[OF inv, of t "AcquireTest (count s)"]
    by (auto simp: acquireSwap_def helping_def)
next
  case (wait t)
  then show ?thesis using semInv_sleep[OF inv, of t] semInv_at[OF inv, of t AcquireLoad]
    by (auto simp: acquireWait_def helping_def)
next
  case (add t n)
  then show ?thesis using semInv_add[OF inv] room by (auto simp: releaseAdd_def)
next
  case (notify_one t w)
  then show ?thesis using semInv_notifyOne[OF inv] by simp
next
  case (notify_none t)
  then show ?thesis
    using inv by (auto intro!: semInv_quiet[OF inv] simp: notifyOne_def someAsleep_def active_def split: if_splits)
next
  case (notify_all t n)
  then show ?thesis
    using inv by (auto intro!: semInv_quiet[OF inv] simp: notifyAll_def someAsleep_def active_def split: if_splits)
qed (use inv in \<open>auto intro!: semInv_at simp: helping_def acquireLoad_def acquireTest_def\<close>)

lemma reaches_inv: "reaches s \<Longrightarrow> semInv s"
proof (induction rule: reaches.induct)
  case fresh
  show ?case by (simp add: semInv_def newSemaphore_def active_def someAsleep_def)
next
  case (onward s s')
  then show ?case by (blast intro: semStep_inv)
qed

subsection \<open>Properties\<close>

text \<open>
  C8: no wakeup is lost.  While a thread sleeps, every permit that is there has a thread of its own that
  is about to look at the count or to wake a sleeper, unless all sleepers are about to be woken; and the
  count is exactly what was released less what was acquired.
\<close>

theorem semaphore_no_lost_wakeup:
  assumes "reaches s"
  shows "unat (count s) + acquired s = released s \<and>
    (points s t = Asleep \<longrightarrow> wakingAll s \<or> unat (count s) \<le> card (helpers s))"
  using reaches_inv[OF assms] by (auto simp: semInv_def someAsleep_def)

theorem semaphore_no_lost_wakeup_witness:
  "let s = releaseAdd 1 2 (at 1 (ReleaseAdd 2) newSemaphore) in reaches s \<and> unat (count s) = 2"
proof -
  let ?a = "at 1 (ReleaseAdd 2) newSemaphore"
  have "semStep newSemaphore ?a" by (rule callRelease) (auto simp: newSemaphore_def)
  then have "reaches ?a" by (rule onward[OF fresh]) (simp add: newSemaphore_def)
  moreover have "semStep ?a (releaseAdd 1 2 ?a)" by (rule add) simp
  ultimately have r: "reaches (releaseAdd 1 2 ?a)"
    by (rule onward) (simp add: releaseAdd_def newSemaphore_def)
  have "released (releaseAdd 1 2 ?a) = 2" "acquired (releaseAdd 1 2 ?a) = 0"
    by (simp_all add: releaseAdd_def newSemaphore_def)
  then show ?thesis using r semaphore_no_lost_wakeup[OF r] by (simp add: Let_def)
qed

end
