(* ===== verification/ModuleTable.thy ===== *)
theory ModuleTable
  imports Prelude Monads
begin

text \<open>
  The table of loaded modules (\<^verbatim>\<open>src/src/repl/ModuleTable.h\<close> and \<^verbatim>\<open>.cpp\<close>) and the protocol its only client
  follows, \<^verbatim>\<open>Session::loadModuleFile\<close> (\<^verbatim>\<open>src/src/repl/Session.cpp\<close>): look up, claim, then load and publish,
  or wait for the thread that holds the claim.  Every operation of the table runs under its mutex and
  is one step.  Loading a file runs its imports, so a thread has a stack of loads.  Shown: one
  thread at a time loads a path, and no thread waits for itself; but two threads that load two files
  which import each other wait for ever, and a path can be loaded twice.
\<close>

subsection \<open>The table\<close>

record 'm ModuleTable =
  loaded :: "byte_string \<Rightarrow> 'm option"
  loading :: "byte_string \<Rightarrow> nat option"

definition emptyTable :: "'m ModuleTable" where
  "emptyTable = \<lparr>loaded = (\<lambda>_. None), loading = (\<lambda>_. None)\<rparr>"

definition findModule :: "'m ModuleTable \<Rightarrow> byte_string \<Rightarrow> 'm option" where
  "findModule m absPath = loaded m absPath"

text \<open>The thread and the table after the claim; \<^const>\<open>Inl\<close> is the exception.\<close>

definition claim ::
  "nat \<Rightarrow> byte_string \<Rightarrow> byte_string \<Rightarrow> 'm ModuleTable \<Rightarrow> byte_string + bool \<times> 'm ModuleTable" where
  "claim self absPath logicalPath m =
     (case loading m absPath of
        None \<Rightarrow> Inr (True, m\<lparr>loading := (loading m)(absPath := Some self)\<rparr>)
      | Some holder \<Rightarrow>
          if holder = self then Inl (''cyclic module import: '' @ logicalPath) else Inr (False, m))"

definition publish :: "byte_string \<Rightarrow> 'm \<Rightarrow> 'm ModuleTable \<Rightarrow> 'm ModuleTable" where
  "publish absPath x m =
     m\<lparr>loaded := (loaded m)(absPath := Some x), loading := (loading m)(absPath := None)\<rparr>"

definition abandon :: "byte_string \<Rightarrow> 'm ModuleTable \<Rightarrow> 'm ModuleTable" where
  "abandon absPath m = m\<lparr>loading := (loading m)(absPath := None)\<rparr>"

text \<open>\<^verbatim>\<open>awaitLoaded\<close> returns once nobody is loading the path, with the module if there is one.\<close>

definition awaitReady :: "'m ModuleTable \<Rightarrow> byte_string \<Rightarrow> bool" where
  "awaitReady m absPath \<longleftrightarrow> loading m absPath = None"

subsection \<open>Threads that load modules\<close>

datatype Stage = Looking | Claiming | Waiting | Loading

type_synonym Frame = "byte_string \<times> Stage"

text \<open>\<open>loads\<close> counts how often a path was published (auxiliary).\<close>

record 'm Loads =
  table :: "'m ModuleTable"
  stacks :: "nat \<Rightarrow> Frame list"
  loads :: "byte_string \<Rightarrow> nat"

definition noLoads :: "'m Loads" where
  "noLoads = \<lparr>table = emptyTable, stacks = (\<lambda>_. []), loads = (\<lambda>_. 0)\<rparr>"

definition setStack :: "nat \<Rightarrow> Frame list \<Rightarrow> 'm Loads \<Rightarrow> 'm Loads" where
  "setStack t fs s = s\<lparr>stacks := (stacks s)(t := fs)\<rparr>"

definition lookStep :: "nat \<Rightarrow> byte_string \<Rightarrow> Frame list \<Rightarrow> 'm Loads \<Rightarrow> 'm Loads" where
  "lookStep t p fs s =
     setStack t (case findModule (table s) p of None \<Rightarrow> (p, Claiming) # fs | Some x \<Rightarrow> fs) s"

definition claimStep :: "nat \<Rightarrow> byte_string \<Rightarrow> Frame list \<Rightarrow> 'm Loads \<Rightarrow> 'm Loads" where
  "claimStep t p fs s =
     (case claim t p p (table s) of
        Inl msg \<Rightarrow> setStack t fs s
      | Inr (mine, m) \<Rightarrow> setStack t ((p, if mine then Loading else Waiting) # fs) (s\<lparr>table := m\<rparr>))"

definition publishStep :: "nat \<Rightarrow> byte_string \<Rightarrow> 'm \<Rightarrow> Frame list \<Rightarrow> 'm Loads \<Rightarrow> 'm Loads" where
  "publishStep t p x fs s =
     setStack t fs (s\<lparr>table := publish p x (table s), loads := (loads s)(p := Suc (loads s p))\<rparr>)"

definition abandonStep :: "nat \<Rightarrow> byte_string \<Rightarrow> Frame list \<Rightarrow> 'm Loads \<Rightarrow> 'm Loads" where
  "abandonStep t p fs s = setStack t fs (s\<lparr>table := abandon p (table s)\<rparr>)"

text \<open>
  A thread starts a load from outside or while it loads another file, and a load under way may fail at
  any time (the file cannot be read, does not compile, or throws), which abandons the claim.
\<close>

inductive loadStep :: "'m Loads \<Rightarrow> 'm Loads \<Rightarrow> bool" where
  import: "stacks s t = [] \<or> snd (hd (stacks s t)) = Loading \<Longrightarrow>
     loadStep s (setStack t ((p, Looking) # stacks s t) s)"
| look: "stacks s t = (p, Looking) # fs \<Longrightarrow> loadStep s (lookStep t p fs s)"
| claims: "stacks s t = (p, Claiming) # fs \<Longrightarrow> loadStep s (claimStep t p fs s)"
| awakes: "stacks s t = (p, Waiting) # fs \<Longrightarrow> awaitReady (table s) p \<Longrightarrow> loadStep s (setStack t fs s)"
| finishes: "stacks s t = (p, Loading) # fs \<Longrightarrow> loadStep s (publishStep t p x fs s)"
| fails: "stacks s t = (p, Loading) # fs \<Longrightarrow> loadStep s (abandonStep t p fs s)"

inductive loadsReach :: "'m Loads \<Rightarrow> bool" where
  none: "loadsReach noLoads"
| oneMore: "loadsReach s \<Longrightarrow> loadStep s s' \<Longrightarrow> loadsReach s'"

subsection \<open>Claims and their owners\<close>

definition held :: "Frame list \<Rightarrow> byte_string list" where
  "held fs = map fst (filter (\<lambda>f. snd f = Loading) fs)"

fun waitsFor :: "Frame list \<Rightarrow> byte_string option" where
  "waitsFor ((p, Waiting) # fs) = Some p"
| "waitsFor fs = None"

text \<open>Below the top of a stack there are loads under way only.\<close>

definition nested :: "Frame list \<Rightarrow> bool" where
  "nested fs \<longleftrightarrow> (\<forall>f\<in>set (tl fs). snd f = Loading)"

definition loadsInv :: "'m Loads \<Rightarrow> bool" where
  "loadsInv s \<longleftrightarrow>
     (\<forall>t. distinct (held (stacks s t)) \<and> nested (stacks s t)) \<and>
     (\<forall>t p. p \<in> set (held (stacks s t)) \<longleftrightarrow> loading (table s) p = Some t) \<and>
     (\<forall>t p. waitsFor (stacks s t) = Some p \<longrightarrow> loading (table s) p \<noteq> Some t)"

lemma held_simps [simp]:
  "held [] = []" "held ((p, Loading) # fs) = p # held fs" "held ((p, Looking) # fs) = held fs"
  "held ((p, Claiming) # fs) = held fs" "held ((p, Waiting) # fs) = held fs"
  by (simp_all add: held_def)

lemma setStack_simps [simp]:
  "table (setStack t fs s) = table s" "stacks (setStack t fs s) = (stacks s)(t := fs)"
  "loads (setStack t fs s) = loads s"
  by (simp_all add: setStack_def)

lemma nested_tail: "nested (f # fs) \<Longrightarrow> nested fs \<and> waitsFor fs = None"
proof -
  assume "nested (f # fs)"
  then have "\<forall>g\<in>set fs. snd g = Loading" by (simp add: nested_def)
  then show ?thesis by (cases fs rule: waitsFor.cases) (auto simp: nested_def)
qed

lemma waitsFor_top [simp]:
  "waitsFor ((p, Loading) # fs) = None" "waitsFor ((p, Looking) # fs) = None"
  "waitsFor ((p, Claiming) # fs) = None"
  by simp_all

lemma loadsInvD:
  assumes "loadsInv s"
  shows "distinct (held (stacks s t))" "nested (stacks s t)"
    "p \<in> set (held (stacks s t)) \<longleftrightarrow> loading (table s) p = Some t"
    "waitsFor (stacks s t) = Some p \<Longrightarrow> loading (table s) p \<noteq> Some t"
  using assms by (auto simp: loadsInv_def)

text \<open>A step of one thread keeps the invariant if it does so for its own stack and claims.\<close>

lemma loadsInv_step:
  assumes inv: "loadsInv s" and others: "stacks s' = (stacks s)(t := fs)"
    and mine: "distinct (held fs)" "nested fs"
      "\<And>q. q \<in> set (held fs) \<longleftrightarrow> loading (table s') q = Some t"
      "\<And>q. waitsFor fs = Some q \<Longrightarrow> loading (table s') q \<noteq> Some t"
    and theirs: "\<And>u q. u \<noteq> t \<Longrightarrow> loading (table s') q = Some u \<longleftrightarrow> loading (table s) q = Some u"
  shows "loadsInv s'"
proof -
  have "distinct (held (stacks s' u)) \<and> nested (stacks s' u)" for u
    using mine loadsInvD(1,2)[OF inv, of u] by (simp add: others)
  moreover have "p \<in> set (held (stacks s' u)) \<longleftrightarrow> loading (table s') p = Some u" for u p
    using mine(3) loadsInvD(3)[OF inv, of p u] theirs[of u p] by (simp add: others)
  moreover have "waitsFor (stacks s' u) = Some p \<longrightarrow> loading (table s') p \<noteq> Some u" for u p
    using mine(4) loadsInvD(4)[OF inv, of u p] theirs[of u p] by (simp add: others)
  ultimately show ?thesis by (simp add: loadsInv_def)
qed

lemma loadsInv_move:
  assumes inv: "loadsInv s" and "held fs = held (stacks s t)" "nested fs" "waitsFor fs = None"
  shows "loadsInv (setStack t fs s)"
  by (rule loadsInv_step[OF inv, where t = t and fs = fs])
     (use assms loadsInvD[OF inv] in auto)

lemma loadStep_inv:
  assumes "loadStep s s'" and inv: "loadsInv s"
  shows "loadsInv s'"
  using assms(1)
proof cases
  case (import t p)
  have "nested ((p, Looking) # stacks s t)"
    using import loadsInvD(2)[OF inv, of t] by (cases "stacks s t") (auto simp: nested_def)
  then show ?thesis unfolding import by (intro loadsInv_move[OF inv]) auto
next
  case (look t p fs)
  then show ?thesis
    using loadsInv_move[OF inv, of _ t] nested_tail[of "(p, Looking)" fs] loadsInvD(2)[OF inv, of t]
    by (auto simp: lookStep_def nested_def split: option.split)
next
  case (claims t p fs)
  have nest: "nested fs" "waitsFor fs = None" "nested ((p, st) # fs)" for st
    using nested_tail[of "(p, Claiming)" fs] loadsInvD(2)[OF inv, of t] claims by (auto simp: nested_def)
  note own = loadsInvD(1)[OF inv, of t] loadsInvD(3)[OF inv, of _ t]
  show ?thesis
  proof (cases "loading (table s) p")
    case None
    show ?thesis
      by (rule loadsInv_step[OF inv, where t = t and fs = "(p, Loading) # fs"])
         (use None claims own nest in \<open>auto simp: claimStep_def claim_def\<close>)
  next
    case (Some h)
    show ?thesis
    proof (cases "h = t")
      case True
      then show ?thesis
        using Some claims nest loadsInv_move[OF inv, of fs t] by (auto simp: claimStep_def claim_def)
    next
      case False
      show ?thesis
        by (rule loadsInv_step[OF inv, where t = t and fs = "(p, Waiting) # fs"])
           (use Some False claims own nest in \<open>auto simp: claimStep_def claim_def\<close>)
    qed
  qed
next
  case (awakes t p fs)
  then show ?thesis
    using loadsInv_move[OF inv, of fs t] nested_tail[of "(p, Waiting)" fs] loadsInvD(2)[OF inv, of t] by auto
next
  case (finishes t p fs x)
  note own = loadsInvD(1)[OF inv, of t] loadsInvD(3)[OF inv, of _ t]
  have mine: "loading (table s) p = Some t" using own(2)[of p] finishes by simp
  show ?thesis
    by (rule loadsInv_step[OF inv, where t = t and fs = fs])
       (use finishes mine own nested_tail[of "(p, Loading)" fs] loadsInvD(2)[OF inv, of t]
         in \<open>auto simp: publishStep_def publish_def\<close>)
next
  case (fails t p fs)
  note own = loadsInvD(1)[OF inv, of t] loadsInvD(3)[OF inv, of _ t]
  have mine: "loading (table s) p = Some t" using own(2)[of p] fails by simp
  show ?thesis
    by (rule loadsInv_step[OF inv, where t = t and fs = fs])
       (use fails mine own nested_tail[of "(p, Loading)" fs] loadsInvD(2)[OF inv, of t]
         in \<open>auto simp: abandonStep_def abandon_def\<close>)
qed

lemma loadsReach_inv: "loadsReach s \<Longrightarrow> loadsInv s"
proof (induction rule: loadsReach.induct)
  case none
  show ?case by (simp add: loadsInv_def noLoads_def emptyTable_def nested_def)
qed (rule loadStep_inv)

subsection \<open>Scheduled runs and deadlocks\<close>

text \<open>A schedule: which thread moves next, and what it imports.\<close>

datatype Move = Import nat byte_string | Go nat | Finish nat

fun move :: "Move \<Rightarrow> bool Loads \<Rightarrow> bool Loads" where
  "move (Import t p) s =
     (if stacks s t = [] \<or> snd (hd (stacks s t)) = Loading
      then setStack t ((p, Looking) # stacks s t) s else s)"
| "move (Go t) s =
     (case stacks s t of
        (p, Looking) # fs \<Rightarrow> lookStep t p fs s
      | (p, Claiming) # fs \<Rightarrow> claimStep t p fs s
      | _ \<Rightarrow> s)"
| "move (Finish t) s =
     (case stacks s t of (p, Loading) # fs \<Rightarrow> publishStep t p True fs s | _ \<Rightarrow> s)"

fun moves :: "Move list \<Rightarrow> bool Loads \<Rightarrow> bool Loads" where
  "moves [] s = s"
| "moves (m # ms) s = moves ms (move m s)"

lemma move_reach:
  assumes "loadsReach s"
  shows "loadsReach (move m s)"
proof (cases m)
  case (Import t p)
  then show ?thesis using assms oneMore[OF assms import[of s t p]] by auto
qed (use assms in \<open>auto intro: loadsReach.oneMore loadStep.intros split: list.split prod.split Stage.split\<close>)

lemma moves_reach: "loadsReach s \<Longrightarrow> loadsReach (moves ms s)"
  by (induction ms arbitrary: s) (auto intro: move_reach)

text \<open>Every thread of a group waits for a path that a thread of the group is loading.\<close>

definition deadlocked :: "nat set \<Rightarrow> 'm Loads \<Rightarrow> bool" where
  "deadlocked ts s \<longleftrightarrow>
     (\<forall>t\<in>ts. \<exists>p u. waitsFor (stacks s t) = Some p \<and> u \<in> ts \<and> loading (table s) p = Some u)"

lemma waitsFor_stack: "waitsFor fs = Some p \<Longrightarrow> \<exists>gs. fs = (p, Waiting) # gs"
  by (cases fs rule: waitsFor.cases) auto

lemma waits_stuck:
  assumes "loadStep s s'" "loadsInv s" "deadlocked ts s" "t \<in> ts"
  shows "stacks s' t = stacks s t" "loading (table s) p = Some t \<Longrightarrow> loading (table s') p = Some t"
proof -
  from assms(3,4) obtain q u where w: "waitsFor (stacks s t) = Some q" "loading (table s) q = Some u"
    by (auto simp: deadlocked_def)
  then obtain gs where top: "stacks s t = (q, Waiting) # gs" using waitsFor_stack by blast
  show "stacks s' t = stacks s t"
    using assms(1) top w(2)
    by cases (auto simp: lookStep_def claimStep_def publishStep_def abandonStep_def awaitReady_def
        split: sum.split)
  assume p: "loading (table s) p = Some t"
  have "\<not> (stacks s v = (p, Loading) # fs)" for v fs
    using p loadsInvD(3)[OF assms(2), of p v] top by auto
  with assms(1) show "loading (table s') p = Some t"
    by cases (use p in \<open>auto simp: lookStep_def claimStep_def claim_def publishStep_def publish_def abandonStep_def
        abandon_def split: sum.split option.split\<close>)
qed

lemma deadlock_stays:
  assumes "loadStep s s'" "loadsInv s" "deadlocked ts s"
  shows "deadlocked ts s'"
  unfolding deadlocked_def
proof
  fix t assume "t \<in> ts"
  with assms(3) obtain p u where "waitsFor (stacks s t) = Some p" "u \<in> ts" "loading (table s) p = Some u"
    by (auto simp: deadlocked_def)
  then show "\<exists>p u. waitsFor (stacks s' t) = Some p \<and> u \<in> ts \<and> loading (table s') p = Some u"
    using waits_stuck[OF assms] \<open>t \<in> ts\<close> by auto
qed

lemma deadlock_forever:
  assumes "loadStep\<^sup>*\<^sup>* s s'" "loadsReach s" "deadlocked ts s"
  shows "deadlocked ts s'"
proof -
  from assms have "loadsReach s' \<and> deadlocked ts s'"
  proof (induction rule: rtranclp_induct)
    case base
    then show ?case by simp
  next
    case (step x y)
    then show ?case using deadlock_stays[of x y ts] loadsReach_inv by (blast intro: oneMore)
  qed
  then show ?thesis by simp
qed

subsection \<open>Properties\<close>

text \<open>
  C9: a path is being loaded by one thread at a time, once, and it is the thread the table names; and no
  thread waits for a path it is loading itself.
\<close>

theorem module_claims_exclusive:
  assumes "loadsReach s" and "(p, Loading) \<in> set (stacks s t)"
  shows "loading (table s) p = Some t \<and> distinct (held (stacks s t)) \<and>
    ((p, Loading) \<in> set (stacks s t') \<longrightarrow> t' = t) \<and> waitsFor (stacks s t) \<noteq> Some p"
proof -
  note inv = loadsReach_inv[OF assms(1)]
  have "p \<in> set (held (stacks s u))" if "(p, Loading) \<in> set (stacks s u)" for u
    using that by (force simp: held_def)
  then show ?thesis using assms(2) loadsInvD[OF inv] by (metis option.inject)
qed

text \<open>The state after one thread has begun to load a path.\<close>

definition firstClaim :: "bool Loads" where
  "firstClaim = claimStep 0 ''a'' [] (lookStep 0 ''a'' [] (setStack 0 [(''a'', Looking)] noLoads))"

lemma firstClaim_reach: "loadsReach firstClaim"
proof -
  let ?s0 = "setStack 0 [(''a'', Looking)] noLoads :: bool Loads"
  have "loadStep noLoads ?s0" using import[of noLoads 0 "''a''"] by (simp add: noLoads_def)
  moreover have "loadStep ?s0 (lookStep 0 ''a'' [] ?s0)" by (rule look) simp
  moreover have "loadStep (lookStep 0 ''a'' [] ?s0) firstClaim"
    unfolding firstClaim_def
    by (rule claims) (simp add: lookStep_def findModule_def noLoads_def emptyTable_def)
  ultimately show ?thesis by (blast intro: loadsReach.intros)
qed

theorem module_claims_exclusive_witness:
  "loading (table firstClaim) ''a'' = Some 0 \<and> stacks firstClaim 0 = [(''a'', Loading)]"
proof -
  have stack: "stacks firstClaim 0 = [(''a'', Loading)]"
    by (simp add: firstClaim_def claimStep_def claim_def lookStep_def findModule_def noLoads_def emptyTable_def)
  then show ?thesis using module_claims_exclusive[OF firstClaim_reach, of "''a''" 0] by simp
qed

text \<open>
  C10: two threads that load two files which import each other block each other, and from there no
  continuation of the run frees them: a cycle is detected within one thread only.
\<close>

theorem crossed_imports_deadlock:
  "\<exists>s :: bool Loads. loadsReach s \<and> {s'. loadStep\<^sup>*\<^sup>* s s'} \<subseteq> {s'. deadlocked {0, 1} s'}"
proof -
  define s where "s = moves [Import 0 ''a'', Go 0, Go 0, Import 1 ''b'', Go 1, Go 1,
      Import 0 ''b'', Go 0, Go 0, Import 1 ''a'', Go 1, Go 1] noLoads"
  have reach: "loadsReach s" unfolding s_def by (intro moves_reach loadsReach.none)
  have "deadlocked {0, 1} s"
    by (simp add: s_def deadlocked_def lookStep_def claimStep_def claim_def findModule_def noLoads_def
        emptyTable_def)
  with reach show ?thesis using deadlock_forever by blast
qed

text \<open>
  C11: a thread that missed a module just before another one published it claims it again, since
  \<^verbatim>\<open>claim\<close> does not look at the loaded modules: the path is loaded twice.
\<close>

theorem module_loaded_twice:
  "\<exists>s :: bool Loads. loadsReach s \<and> loads s ''a'' = 2"
proof -
  define s where "s = moves [Import 1 ''a'', Go 1, Import 0 ''a'', Go 0, Go 0, Finish 0, Go 1, Finish 1] noLoads"
  have "loadsReach s" unfolding s_def by (intro moves_reach loadsReach.none)
  moreover have "loads s ''a'' = 2"
    by (simp add: s_def lookStep_def claimStep_def claim_def findModule_def publishStep_def publish_def
        noLoads_def emptyTable_def)
  ultimately show ?thesis by blast
qed

end
