(* ===== verification/ClassInfo.thy ===== *)
theory ClassInfo
  imports Prelude "HOL-Library.AList"
begin

text \<open>
  The compile-time description of classes, \<^verbatim>\<open>src/src/compiler/ClassInfo.h\<close> and \<^verbatim>\<open>ClassInfo.cpp\<close>: the
  records, the spelling of keys, and the table of the types the runtime provides.  A
  \<^verbatim>\<open>std::unordered_map\<close> is an association list with one entry per key (\<open>AList.update\<close> is
  \<^verbatim>\<open>m[k] = v\<close>, \<open>map_of\<close> is \<^verbatim>\<open>find\<close>); its order stands for the unspecified iteration order.
\<close>

subsection \<open>Records\<close>

datatype ClassKind = CK_Class | CK_Trait | CK_Object

datatype MemberKind = MK_Val | MK_Var | MK_LazyVal | MK_Def | MK_ParamlessDef

record MemberInfo =
  mi_kind :: MemberKind
  mi_key :: byte_string
  mi_concrete :: bool
  mi_byNameMasks :: "u32 list"
  mi_byNameValue :: bool

record ClassInfo =
  ci_name :: byte_string
  ci_key :: byte_string
  ci_kind :: ClassKind
  ci_isCase :: bool
  ci_isAbstract :: bool
  ci_isFinal :: bool
  ci_isSealed :: bool
  ci_builtin :: bool
  ci_mutableInstances :: bool
  ci_hasInit :: bool
  ci_linearization :: "byte_string list"
  ci_fields :: "byte_string list"
  ci_ctorParams :: "byte_string list"
  ci_primaryArity :: nat
  ci_primaryMinArity :: nat
  ci_primaryVariadic :: bool
  ci_primaryByNameMasks :: "u32 list"
  ci_auxArities :: "nat list"
  ci_members :: "(byte_string \<times> MemberInfo) list"
  ci_companionTermKey :: byte_string
  ci_companionTypeKey :: byte_string
  ci_companionHasApply :: bool
  ci_companionHasUnapply :: bool

text \<open>The default member initialisers.\<close>

definition newClassInfo :: ClassInfo where
  "newClassInfo =
     \<lparr>ci_name = [], ci_key = [], ci_kind = CK_Class, ci_isCase = False, ci_isAbstract = False,
      ci_isFinal = False, ci_isSealed = False, ci_builtin = False, ci_mutableInstances = False,
      ci_hasInit = True, ci_linearization = [], ci_fields = [], ci_ctorParams = [], ci_primaryArity = 0,
      ci_primaryMinArity = 0, ci_primaryVariadic = False, ci_primaryByNameMasks = [],
      ci_auxArities = [], ci_members = [], ci_companionTermKey = [], ci_companionTypeKey = [],
      ci_companionHasApply = False, ci_companionHasUnapply = False\<rparr>"

subsection \<open>Keys\<close>

definition kAnyKey :: byte_string where "kAnyKey = ''@Any''"
definition kAnyRefKey :: byte_string where "kAnyRefKey = ''@AnyRef''"
definition kProductKey :: byte_string where "kProductKey = ''@Product''"
definition kSerializableKey :: byte_string where "kSerializableKey = ''@Serializable''"
definition kActorKey :: byte_string where "kActorKey = ''@Actor''"
definition kFutureKey :: byte_string where "kFutureKey = ''@Future''"
definition kRangeKey :: byte_string where "kRangeKey = ''@Range''"
definition kVectorKey :: byte_string where "kVectorKey = ''@Vector''"
definition kMapKey :: byte_string where "kMapKey = ''@Map''"
definition kSetKey :: byte_string where "kSetKey = ''@Set''"
definition kEnumKey :: byte_string where "kEnumKey = ''@Enum''"
definition kPrimaryCtorKey :: byte_string where "kPrimaryCtorKey = ''<init>''"
definition kMaxTupleArity :: nat where "kMaxTupleArity = 22"

lemmas typeKey_defs =
  kAnyKey_def kAnyRefKey_def kProductKey_def kSerializableKey_def kActorKey_def kFutureKey_def
  kRangeKey_def kVectorKey_def kMapKey_def kSetKey_def kEnumKey_def

definition tupleTypeKey :: "nat \<Rightarrow> byte_string" where
  "tupleTypeKey n = ''@Tuple'' @ natToString n"

definition auxCtorKey :: "nat \<Rightarrow> byte_string" where
  "auxCtorKey arity = ''<init>'' @ natToString arity"

definition setterName :: "byte_string \<Rightarrow> byte_string" where
  "setterName name = name @ ''_=''"

definition simpleName :: "byte_string \<Rightarrow> byte_string" where
  "simpleName name = rev (takeWhile (\<lambda>c. c \<noteq> CHR ''.'') (rev name))"

definition privateKey :: "byte_string \<Rightarrow> byte_string \<Rightarrow> byte_string" where
  "privateKey typeKey name = tl typeKey @ ''::'' @ name"

subsection \<open>The types the runtime provides\<close>

definition builtinMember :: "MemberKind \<Rightarrow> byte_string \<Rightarrow> ClassInfo \<Rightarrow> ClassInfo" where
  "builtinMember kind name c =
     c\<lparr>ci_members := AList.update name
         \<lparr>mi_kind = kind, mi_key = name, mi_concrete = True, mi_byNameMasks = [], mi_byNameValue = False\<rparr>
         (ci_members c)\<rparr>"

definition anyInfo :: ClassInfo where
  "anyInfo =
     fold (builtinMember MK_ParamlessDef) [''toString'', ''hashCode'', ''##'']
       (fold (builtinMember MK_Def) [''equals'', ''=='', ''!='', ''eq'', ''ne'']
         (newClassInfo\<lparr>ci_name := ''Any'', ci_key := kAnyKey, ci_isAbstract := True, ci_builtin := True,
            ci_linearization := [kAnyKey]\<rparr>))"

definition anyRefInfo :: ClassInfo where
  "anyRefInfo =
     anyInfo\<lparr>ci_name := ''AnyRef'', ci_key := kAnyRefKey, ci_linearization := [kAnyRefKey, kAnyKey]\<rparr>"

text \<open>A copy of \<^verbatim>\<open>anyRef\<close> with its own name and key, below \<^verbatim>\<open>AnyRef\<close>.\<close>

definition underAnyRef :: "byte_string \<Rightarrow> byte_string \<Rightarrow> ClassInfo" where
  "underAnyRef name key =
     anyRefInfo\<lparr>ci_name := name, ci_key := key, ci_linearization := [key, kAnyRefKey, kAnyKey]\<rparr>"

definition productInfo :: ClassInfo where
  "productInfo =
     builtinMember MK_Def ''canEqual'' (builtinMember MK_Def ''productElement''
       (builtinMember MK_ParamlessDef ''productPrefix'' (builtinMember MK_ParamlessDef ''productArity''
         ((underAnyRef ''Product'' kProductKey)\<lparr>ci_kind := CK_Trait, ci_hasInit := False\<rparr>))))"

definition serializableInfo :: ClassInfo where
  "serializableInfo =
     (underAnyRef ''Serializable'' kSerializableKey)\<lparr>ci_kind := CK_Trait, ci_hasInit := False\<rparr>"

definition tupleField :: "nat \<Rightarrow> byte_string" where
  "tupleField k = ''_'' @ natToString k"

definition tupleInfo :: "nat \<Rightarrow> ClassInfo" where
  "tupleInfo n =
     builtinMember MK_Def ''copy''
       (fold (\<lambda>k t. builtinMember MK_Val (tupleField k)
                      (t\<lparr>ci_fields := ci_fields t @ [tupleField k],
                         ci_ctorParams := ci_ctorParams t @ [tupleField k]\<rparr>))
          [1..<Suc n]
          (productInfo\<lparr>ci_name := ''Tuple'' @ natToString n, ci_key := tupleTypeKey n, ci_kind := CK_Class,
             ci_isAbstract := False, ci_isCase := True, ci_isFinal := True, ci_hasInit := True,
             ci_linearization := [tupleTypeKey n, kProductKey, kAnyRefKey, kAnyKey],
             ci_primaryArity := n\<rparr>))"

definition actorInfo :: ClassInfo where
  "actorInfo =
     builtinMember MK_ParamlessDef ''value''
       (fold (builtinMember MK_Def) [''!'', ''?'', ''send'', ''ask'']
         ((underAnyRef ''Actor'' kActorKey)\<lparr>ci_isFinal := True\<rparr>))"

definition futureInfo :: ClassInfo where
  "futureInfo =
     fold (builtinMember MK_Def) [''map'', ''flatMap'', ''recover'', ''onComplete'']
       (fold (builtinMember MK_ParamlessDef) [''await'', ''isCompleted'', ''value'']
         ((underAnyRef ''Future'' kFutureKey)\<lparr>ci_isFinal := True\<rparr>))"

definition rangeInfo :: ClassInfo where
  "rangeInfo =
     fold (builtinMember MK_ParamlessDef)
       [''length'', ''size'', ''isEmpty'', ''nonEmpty'', ''head'', ''last'', ''sum'', ''reverse'',
        ''toList'', ''toSeq'', ''toVector'', ''toSet'']
       (fold (builtinMember MK_Def)
         [''apply'', ''by'', ''contains'', ''map'', ''flatMap'', ''filter'', ''withFilter'', ''foreach'',
          ''exists'', ''forall'', ''count'', ''find'', ''mkString'']
         ((underAnyRef ''Range'' kRangeKey)\<lparr>ci_isFinal := True\<rparr>))"

definition enumTraitInfo :: ClassInfo where
  "enumTraitInfo =
     (let e = (underAnyRef ''Enum'' kEnumKey)\<lparr>ci_kind := CK_Trait, ci_isAbstract := True,
                 ci_hasInit := False\<rparr>
      in e\<lparr>ci_members := AList.update ''ordinal''
              \<lparr>mi_kind = MK_ParamlessDef, mi_key = ''ordinal'', mi_concrete = False, mi_byNameMasks = [],
               mi_byNameValue = False\<rparr> (ci_members e)\<rparr>)"

definition builtinTypes :: "ClassInfo list" where
  "builtinTypes =
     map tupleInfo [2..<Suc kMaxTupleArity] @
     [enumTraitInfo, rangeInfo, (underAnyRef ''Vector'' kVectorKey)\<lparr>ci_isFinal := True\<rparr>,
      (underAnyRef ''Map'' kMapKey)\<lparr>ci_isFinal := True\<rparr>, (underAnyRef ''Set'' kSetKey)\<lparr>ci_isFinal := True\<rparr>,
      actorInfo, futureInfo, anyInfo, anyRefInfo, productInfo, serializableInfo]"

text \<open>
  A type is linearized in a table when its own key comes first, \<open>Any\<close> last, and every tail of the
  linearization is the linearization of the type the tail starts with.
\<close>

definition tableLookup :: "ClassInfo list \<Rightarrow> byte_string \<Rightarrow> ClassInfo option" where
  "tableLookup ts k = find (\<lambda>c. ci_key c = k) ts"

fun tailsOf :: "'a list \<Rightarrow> 'a list list" where
  "tailsOf [] = []"
| "tailsOf (x # xs) = (x # xs) # tailsOf xs"

definition linearizedIn :: "ClassInfo list \<Rightarrow> ClassInfo \<Rightarrow> bool" where
  "linearizedIn ts c \<longleftrightarrow>
     ci_linearization c \<noteq> [] \<and> hd (ci_linearization c) = ci_key c \<and> last (ci_linearization c) = kAnyKey \<and>
     list_all (\<lambda>l. map_option ci_linearization (tableLookup ts (hd l)) = Some l) (tailsOf (ci_linearization c))"

subsection \<open>Lemmas\<close>

lemma builtinMember_simps [simp]:
  "ci_name (builtinMember k m c) = ci_name c"
  "ci_key (builtinMember k m c) = ci_key c"
  "ci_linearization (builtinMember k m c) = ci_linearization c"
  "ci_fields (builtinMember k m c) = ci_fields c"
  "ci_ctorParams (builtinMember k m c) = ci_ctorParams c"
  "ci_primaryArity (builtinMember k m c) = ci_primaryArity c"
  by (simp_all add: builtinMember_def)

lemma fold_builtinMember [simp]:
  "ci_name (fold (builtinMember k) ms c) = ci_name c"
  "ci_key (fold (builtinMember k) ms c) = ci_key c"
  "ci_linearization (fold (builtinMember k) ms c) = ci_linearization c"
  by (induction ms arbitrary: c) simp_all

lemma builtinMember_members:
  "map_of (ci_members (builtinMember k m c)) x =
     (if x = m then Some \<lparr>mi_kind = k, mi_key = m, mi_concrete = True, mi_byNameMasks = [], mi_byNameValue = False\<rparr>
      else map_of (ci_members c) x)"
  by (simp add: builtinMember_def update_conv')

lemma tupleField_inject [simp]: "tupleField i = tupleField j \<longleftrightarrow> i = j"
  by (simp add: tupleField_def)

lemma tuple_fold:
  fixes c :: ClassInfo
  defines "step \<equiv> \<lambda>k t. builtinMember MK_Val (tupleField k)
                      (t\<lparr>ci_fields := ci_fields t @ [tupleField k],
                         ci_ctorParams := ci_ctorParams t @ [tupleField k]\<rparr>)"
  shows "ci_name (fold step ks c) = ci_name c" "ci_key (fold step ks c) = ci_key c"
    "ci_linearization (fold step ks c) = ci_linearization c"
    "ci_fields (fold step ks c) = ci_fields c @ map tupleField ks"
    "ci_ctorParams (fold step ks c) = ci_ctorParams c @ map tupleField ks"
    "ci_primaryArity (fold step ks c) = ci_primaryArity c"
  unfolding step_def by (induction ks arbitrary: c) simp_all

lemma tupleInfo_simps [simp]:
  "ci_name (tupleInfo n) = ''Tuple'' @ natToString n"
  "ci_key (tupleInfo n) = tupleTypeKey n"
  "ci_linearization (tupleInfo n) = [tupleTypeKey n, kProductKey, kAnyRefKey, kAnyKey]"
  "ci_fields (tupleInfo n) = map tupleField [1..<Suc n]"
  "ci_ctorParams (tupleInfo n) = map tupleField [1..<Suc n]"
  "ci_primaryArity (tupleInfo n) = n"
  unfolding tupleInfo_def
  by (simp_all add: tuple_fold productInfo_def underAnyRef_def anyRefInfo_def anyInfo_def newClassInfo_def
      del: upt_Suc)

lemma underAnyRef_simps [simp]:
  "ci_name (underAnyRef n k) = n" "ci_key (underAnyRef n k) = k"
  "ci_linearization (underAnyRef n k) = [k, kAnyRefKey, kAnyKey]"
  by (simp_all add: underAnyRef_def)

lemmas builtinInfo_defs =
  anyInfo_def anyRefInfo_def productInfo_def serializableInfo_def actorInfo_def futureInfo_def rangeInfo_def
  enumTraitInfo_def Let_def

lemma builtinTypes_keys:
  "map ci_key builtinTypes = map tupleTypeKey [2..<23] @
     [kEnumKey, kRangeKey, kVectorKey, kMapKey, kSetKey, kActorKey, kFutureKey, kAnyKey, kAnyRefKey,
      kProductKey, kSerializableKey]"
  by (simp add: builtinTypes_def builtinInfo_defs kMaxTupleArity_def comp_def del: upt_Suc upt_conv_Cons)

lemma tupleTypeKey_inject [simp]: "tupleTypeKey m = tupleTypeKey n \<longleftrightarrow> m = n"
  by (simp add: tupleTypeKey_def)

lemma tupleTypeKey_other: "tupleTypeKey n \<notin> {kEnumKey, kRangeKey, kVectorKey, kMapKey, kSetKey, kActorKey,
    kFutureKey, kAnyKey, kAnyRefKey, kProductKey, kSerializableKey}"
  by (simp add: tupleTypeKey_def typeKey_defs)

text \<open>The key of a type is \<open>@\<close> and its name, so each type is found again under its own name.\<close>

lemma builtinTypes_named: "c \<in> set builtinTypes \<Longrightarrow> ci_key c = ''@'' @ ci_name c"
  by (auto simp: builtinTypes_def builtinInfo_defs typeKey_defs tupleTypeKey_def newClassInfo_def
      simp del: upt_Suc)

lemma builtinTypes_distinct: "distinct (map ci_key builtinTypes)"
proof -
  have "distinct (map tupleTypeKey [2..<23])"
    by (simp add: distinct_map inj_on_def del: upt_Suc upt_conv_Cons)
  moreover have "set (map tupleTypeKey [2..<23]) \<inter> set [kEnumKey, kRangeKey, kVectorKey, kMapKey, kSetKey,
      kActorKey, kFutureKey, kAnyKey, kAnyRefKey, kProductKey, kSerializableKey] = {}"
    using tupleTypeKey_other by auto
  moreover have "distinct [kEnumKey, kRangeKey, kVectorKey, kMapKey, kSetKey, kActorKey, kFutureKey, kAnyKey,
      kAnyRefKey, kProductKey, kSerializableKey]"
    by (simp add: typeKey_defs)
  ultimately show ?thesis unfolding builtinTypes_keys by (simp only: distinct_append)
qed

lemma tableLookup_in: "distinct (map ci_key ts) \<Longrightarrow> c \<in> set ts \<Longrightarrow> tableLookup ts (ci_key c) = Some c"
  unfolding tableLookup_def by (induction ts) (auto simp: image_iff)

lemma builtin_found:
  "tableLookup builtinTypes kAnyKey = Some anyInfo" "tableLookup builtinTypes kAnyRefKey = Some anyRefInfo"
  "tableLookup builtinTypes kProductKey = Some productInfo"
  using tableLookup_in[OF builtinTypes_distinct, of anyInfo] tableLookup_in[OF builtinTypes_distinct, of anyRefInfo]
    tableLookup_in[OF builtinTypes_distinct, of productInfo]
  by (simp_all add: builtinTypes_def builtinInfo_defs del: upt_Suc)

text \<open>No two runtime types share a key, and every runtime type is linearized in the table.\<close>

theorem builtinTypes_linearized:
  "distinct (map ci_key builtinTypes) \<and> list_all (linearizedIn builtinTypes) builtinTypes"
proof -
  have lin: "ci_linearization anyInfo = [kAnyKey]" "ci_linearization anyRefInfo = [kAnyRefKey, kAnyKey]"
    "ci_linearization productInfo = [kProductKey, kAnyRefKey, kAnyKey]"
    by (simp_all add: builtinInfo_defs)
  have "linearizedIn builtinTypes c" if c: "c \<in> set builtinTypes" for c
  proof -
    have "ci_linearization c = ci_key c # tl (ci_linearization c) \<and>
        tl (ci_linearization c) \<in> {[kProductKey, kAnyRefKey, kAnyKey], [kAnyRefKey, kAnyKey], [kAnyKey], []} \<and>
        (tl (ci_linearization c) = [] \<longrightarrow> ci_key c = kAnyKey)"
      using c by (auto simp: builtinTypes_def builtinInfo_defs simp del: upt_Suc)
    then show ?thesis
      using tableLookup_in[OF builtinTypes_distinct c] by (cases "ci_linearization c")
        (auto simp: linearizedIn_def builtin_found lin)
  qed
  then show ?thesis using builtinTypes_distinct by (simp add: list_all_iff)
qed

end
