(* ===== verification/GlobalTable.thy ===== *)
theory GlobalTable
  imports ClassInfo
begin

text \<open>
  The compile-time table of globals, \<^verbatim>\<open>src/src/compiler/GlobalTable.h\<close>.  A session keeps one table, compiles
  each unit against a copy and throws the copy away when the unit fails; modules are compiled against copies
  too.  The members behind a \<^verbatim>\<open>shared_ptr\<close> (the key counters and the index of by-name selectors) are shared
  by all copies and are a record of their own, \<open>Shared\<close>, threaded through the operations that use them.
  \<^const>\<open>Inl\<close> is the exception of \<^verbatim>\<open>unordered_map::at\<close>.  The \<^verbatim>\<open>int\<close> counters do not reach \<open>2\<^sup>3\<^sup>1\<close>.

  Shown: a key is never handed out twice, whatever is rolled back or copied, as long as names do not end in
  \<open>#\<close> and digits (in backquotes they can); a key gives back its name; aliases are followed to their end; names
  under a prefix are exactly the names one level below it; a class named like a runtime type can be given the
  key of the runtime type.
\<close>

subsection \<open>Strings\<close>

text \<open>\<^verbatim>\<open>s.rfind(c)\<close>; \<open>None\<close> is \<^verbatim>\<open>npos\<close>.\<close>

definition rfindChar :: "char \<Rightarrow> byte_string \<Rightarrow> nat option" where
  "rfindChar c s =
     (if c \<in> set s then Some (length s - Suc (length (takeWhile (\<lambda>d. d \<noteq> c) (rev s)))) else None)"

text \<open>\<^verbatim>\<open>s.compare(0, p.size(), p) == 0\<close>.\<close>

definition startsWith :: "byte_string \<Rightarrow> byte_string \<Rightarrow> bool" where
  "startsWith p s \<longleftrightarrow> take (length p) s = p"

subsection \<open>State\<close>

datatype BindingKind =
  BK_Val | BK_Var | BK_LazyVal | BK_Def | BK_ParamlessDef | BK_Builtin | BK_Param | BK_Object | BK_ByNameParam

record Overload =
  ov_arity :: nat
  ov_key :: byte_string

record GlobalBinding =
  gb_kind :: BindingKind
  gb_key :: byte_string
  gb_byNameMasks :: "u32 list"
  gb_overloads :: "Overload list"

type_synonym KeyCounters = "(byte_string \<times> int) list"

record Shared =
  sh_counters :: KeyCounters
  sh_typeCounters :: KeyCounters
  sh_byNameSelectors :: "(byte_string \<times> u32) list"

record GlobalTable =
  gt_table :: "(byte_string \<times> GlobalBinding) list"
  gt_declaredInUnit :: "byte_string set"
  gt_typeKeyOfName :: "(byte_string \<times> byte_string) list"
  gt_typeAliases :: "(byte_string \<times> byte_string) list"
  gt_typesByKey :: "(byte_string \<times> ClassInfo) list"
  gt_typesDeclaredInUnit :: "byte_string set"

definition emptyGlobals :: GlobalTable where
  "emptyGlobals =
     \<lparr>gt_table = [], gt_declaredInUnit = {}, gt_typeKeyOfName = [], gt_typeAliases = [], gt_typesByKey = [],
      gt_typesDeclaredInUnit = {}\<rparr>"

definition emptyShared :: Shared where
  "emptyShared = \<lparr>sh_counters = [], sh_typeCounters = [], sh_byNameSelectors = []\<rparr>"

subsection \<open>Keys\<close>

definition shadowKey :: "byte_string \<Rightarrow> int \<Rightarrow> byte_string" where
  "shadowKey name n = name @ ''#'' @ intToString n"

text \<open>
  The allocation inside \<^verbatim>\<open>declare\<close> (the name itself the first time, then \<open>name#N\<close>) and the one for a further
  overload, which is always numbered.
\<close>

definition issueKey :: "byte_string \<Rightarrow> KeyCounters \<Rightarrow> byte_string \<times> KeyCounters" where
  "issueKey name cs =
     (case map_of cs name of
        None \<Rightarrow> (name, AList.update name 0 cs)
      | Some n \<Rightarrow> (shadowKey name (n + 1), AList.update name (n + 1) cs))"

definition issueNumbered :: "byte_string \<Rightarrow> KeyCounters \<Rightarrow> byte_string \<times> KeyCounters" where
  "issueNumbered name cs =
     (let n = (case map_of cs name of None \<Rightarrow> 0 | Some n \<Rightarrow> n)
      in (shadowKey name (n + 1), AList.update name (n + 1) cs))"

definition nameOfKey :: "byte_string \<Rightarrow> byte_string" where
  "nameOfKey key =
     (case rfindChar (CHR ''#'') key of
        None \<Rightarrow> key
      | Some hash \<Rightarrow>
          if hash + 1 = length key then key
          else if list_all isdigit (drop (hash + 1) key) then take hash key else key)"

definition reserveKey :: "byte_string \<Rightarrow> byte_string \<Rightarrow> KeyCounters \<Rightarrow> KeyCounters" where
  "reserveKey name key cs =
     (let m = (case map_of cs name of None \<Rightarrow> 0 | Some m \<Rightarrow> m);
          cs' = AList.update name m cs
      in case rfindChar (CHR ''#'') key of
           None \<Rightarrow> cs'
         | Some hash \<Rightarrow>
             if take hash key \<noteq> name \<or> \<not> list_all isdigit (drop (hash + 1) key) then cs'
             else let n = int (decimalValue (drop (hash + 1) key))
                  in if n > m then AList.update name n cs' else cs')"

subsection \<open>Terms\<close>

definition beginUnit :: "GlobalTable \<Rightarrow> GlobalTable" where
  "beginUnit t = t\<lparr>gt_declaredInUnit := {}, gt_typesDeclaredInUnit := {}\<rparr>"

definition binding :: "GlobalTable \<Rightarrow> byte_string \<Rightarrow> GlobalBinding option" where
  "binding t name = map_of (gt_table t) name"

definition findKind :: "GlobalTable \<Rightarrow> byte_string \<Rightarrow> BindingKind option" where
  "findKind t name = map_option gb_kind (binding t name)"

definition setBinding :: "byte_string \<Rightarrow> GlobalBinding \<Rightarrow> GlobalTable \<Rightarrow> GlobalTable" where
  "setBinding name b t = t\<lparr>gt_table := AList.update name b (gt_table t)\<rparr>"

definition atFails :: byte_string where
  "atFails = ''unordered_map::at''"

definition declareName ::
  "byte_string \<Rightarrow> BindingKind \<Rightarrow> GlobalTable \<times> Shared \<Rightarrow> byte_string + byte_string \<times> GlobalTable \<times> Shared" where
  "declareName name kind = (\<lambda>(t, sh).
     if name \<in> gt_declaredInUnit t then
       (case binding t name of
          None \<Rightarrow> Inl atFails
        | Some b \<Rightarrow> Inr (gb_key b, setBinding name (b\<lparr>gb_kind := kind\<rparr>) t, sh))
     else
       (let (key, cs) = issueKey name (sh_counters sh);
            b = \<lparr>gb_kind = kind, gb_key = key, gb_byNameMasks = [], gb_overloads = []\<rparr>
        in Inr (key, setBinding name b (t\<lparr>gt_declaredInUnit := insert name (gt_declaredInUnit t)\<rparr>),
                sh\<lparr>sh_counters := cs\<rparr>)))"

text \<open>The result is the key and whether an alternative of this arity was there already.\<close>

definition declareDef ::
  "byte_string \<Rightarrow> BindingKind \<Rightarrow> nat \<Rightarrow> GlobalTable \<times> Shared \<Rightarrow>
   byte_string + (byte_string \<times> bool) \<times> GlobalTable \<times> Shared" where
  "declareDef name kind arity = (\<lambda>(t, sh).
     if name \<in> gt_declaredInUnit t then
       (case binding t name of
          None \<Rightarrow> Inl atFails
        | Some b \<Rightarrow>
            let b = b\<lparr>gb_kind := kind\<rparr> in
            case find (\<lambda>ov. ov_arity ov = arity) (gb_overloads b) of
              Some ov \<Rightarrow> Inr ((ov_key ov, True), setBinding name b t, sh)
            | None \<Rightarrow>
                let (key, cs) = issueNumbered name (sh_counters sh);
                    b = b\<lparr>gb_overloads := gb_overloads b @ [\<lparr>ov_arity = arity, ov_key = key\<rparr>]\<rparr>
                in Inr ((key, False), setBinding name b t, sh\<lparr>sh_counters := cs\<rparr>))
     else
       (case declareName name kind (t, sh) of
          Inl e \<Rightarrow> Inl e
        | Inr (key, t, sh) \<Rightarrow>
            (case binding t name of
               None \<Rightarrow> Inl atFails
             | Some b \<Rightarrow>
                 Inr ((key, False),
                      setBinding name
                        (b\<lparr>gb_overloads := gb_overloads b @ [\<lparr>ov_arity = arity, ov_key = key\<rparr>]\<rparr>) t, sh))))"

definition overloadFor :: "GlobalTable \<Rightarrow> byte_string \<Rightarrow> nat \<Rightarrow> Overload option" where
  "overloadFor t name argc =
     (case binding t name of
        None \<Rightarrow> None
      | Some b \<Rightarrow> if length (gb_overloads b) < 2 then None
                  else find (\<lambda>ov. ov_arity ov = argc) (gb_overloads b))"

definition overloadArities :: "GlobalTable \<Rightarrow> byte_string \<Rightarrow> nat list" where
  "overloadArities t name =
     (case binding t name of
        None \<Rightarrow> []
      | Some b \<Rightarrow> if length (gb_overloads b) < 2 then [] else map ov_arity (gb_overloads b))"

definition bind :: "byte_string \<Rightarrow> GlobalBinding \<Rightarrow> GlobalTable \<times> Shared \<Rightarrow> GlobalTable \<times> Shared" where
  "bind name b = (\<lambda>(t, sh).
     (setBinding name b (t\<lparr>gt_declaredInUnit := insert name (gt_declaredInUnit t)\<rparr>),
      sh\<lparr>sh_counters := reserveKey name (gb_key b) (sh_counters sh)\<rparr>))"

definition restore :: "byte_string \<Rightarrow> GlobalTable \<Rightarrow> GlobalTable \<Rightarrow> GlobalTable" where
  "restore name other t =
     (case binding other name of
        Some b \<Rightarrow> setBinding name b t
      | None \<Rightarrow> t\<lparr>gt_table := AList.delete name (gt_table t)\<rparr>)"

subsection \<open>By-name parameters\<close>

definition noteByNameSelector :: "byte_string \<Rightarrow> u32 list \<Rightarrow> Shared \<Rightarrow> Shared" where
  "noteByNameSelector selector masks sh =
     (let any = foldl (OR) 0 masks
      in if any = 0 then sh
         else sh\<lparr>sh_byNameSelectors :=
                AList.update selector
                  ((case map_of (sh_byNameSelectors sh) selector of None \<Rightarrow> 0 | Some m \<Rightarrow> m) OR any)
                  (sh_byNameSelectors sh)\<rparr>)"

definition anyByNameMaskOf :: "Shared \<Rightarrow> byte_string \<Rightarrow> u32" where
  "anyByNameMaskOf sh selector = (case map_of (sh_byNameSelectors sh) selector of None \<Rightarrow> 0 | Some m \<Rightarrow> m)"

definition setByNameMasks ::
  "byte_string \<Rightarrow> u32 list \<Rightarrow> GlobalTable \<times> Shared \<Rightarrow> GlobalTable \<times> Shared" where
  "setByNameMasks name masks = (\<lambda>(t, sh).
     case binding t name of
       None \<Rightarrow> (t, sh)
     | Some b \<Rightarrow> (setBinding name (b\<lparr>gb_byNameMasks := masks\<rparr>) t, noteByNameSelector name masks sh))"

definition byNameMaskOf :: "GlobalTable \<Rightarrow> byte_string \<Rightarrow> nat \<Rightarrow> u32" where
  "byNameMaskOf t name lst =
     (case binding t name of
        None \<Rightarrow> 0
      | Some b \<Rightarrow> if lst \<ge> length (gb_byNameMasks b) then 0 else gb_byNameMasks b ! lst)"

subsection \<open>Types\<close>

definition declareType ::
  "byte_string \<Rightarrow> GlobalTable \<times> Shared \<Rightarrow> byte_string + byte_string \<times> GlobalTable \<times> Shared" where
  "declareType name = (\<lambda>(t, sh).
     if name \<in> gt_typesDeclaredInUnit t then
       (case map_of (gt_typeKeyOfName t) name of
          None \<Rightarrow> Inl atFails
        | Some key \<Rightarrow> Inr (key, t, sh))
     else
       (let (k, cs) = issueKey name (sh_typeCounters sh);
            key = ''@'' @ k
        in Inr (key,
                t\<lparr>gt_typesDeclaredInUnit := insert name (gt_typesDeclaredInUnit t),
                  gt_typeKeyOfName := AList.update name key (gt_typeKeyOfName t)\<rparr>,
                sh\<lparr>sh_typeCounters := cs\<rparr>)))"

definition declareTypeAlias :: "byte_string \<Rightarrow> byte_string \<Rightarrow> GlobalTable \<Rightarrow> GlobalTable" where
  "declareTypeAlias name target t = t\<lparr>gt_typeAliases := AList.update name target (gt_typeAliases t)\<rparr>"

definition isTypeAlias :: "GlobalTable \<Rightarrow> byte_string \<Rightarrow> bool" where
  "isTypeAlias t name \<longleftrightarrow> map_of (gt_typeAliases t) name \<noteq> None"

definition kMaxAliasDepth :: nat where
  "kMaxAliasDepth = 32"

fun followSteps :: "nat \<Rightarrow> GlobalTable \<Rightarrow> byte_string \<Rightarrow> byte_string" where
  "followSteps 0 t x = x"
| "followSteps (Suc n) t x =
     (case map_of (gt_typeAliases t) x of
        None \<Rightarrow> x
      | Some y \<Rightarrow> if y = [] \<or> y = x then x else followSteps n t y)"

definition followTypeAlias :: "GlobalTable \<Rightarrow> byte_string \<Rightarrow> byte_string" where
  "followTypeAlias t name = followSteps kMaxAliasDepth t name"

definition aliasType :: "byte_string \<Rightarrow> byte_string \<Rightarrow> GlobalTable \<times> Shared \<Rightarrow> GlobalTable \<times> Shared" where
  "aliasType name key = (\<lambda>(t, sh).
     (t\<lparr>gt_typesDeclaredInUnit := insert name (gt_typesDeclaredInUnit t),
        gt_typeKeyOfName := AList.update name key (gt_typeKeyOfName t)\<rparr>,
      sh\<lparr>sh_typeCounters := reserveKey name (tl key) (sh_typeCounters sh)\<rparr>))"

definition defineType :: "ClassInfo \<Rightarrow> GlobalTable \<Rightarrow> GlobalTable" where
  "defineType info t = t\<lparr>gt_typesByKey := AList.update (ci_key info) info (gt_typesByKey t)\<rparr>"

definition defineBuiltinType :: "ClassInfo \<Rightarrow> GlobalTable \<Rightarrow> GlobalTable" where
  "defineBuiltinType info t =
     defineType info (t\<lparr>gt_typeKeyOfName := AList.update (ci_name info) (ci_key info) (gt_typeKeyOfName t)\<rparr>)"

definition findTypeByKey :: "GlobalTable \<Rightarrow> byte_string \<Rightarrow> ClassInfo option" where
  "findTypeByKey t key = map_of (gt_typesByKey t) key"

definition findType :: "GlobalTable \<Rightarrow> byte_string \<Rightarrow> ClassInfo option" where
  "findType t name = (case map_of (gt_typeKeyOfName t) name of None \<Rightarrow> None | Some key \<Rightarrow> findTypeByKey t key)"

subsection \<open>Names under a prefix\<close>

definition bindingsUnder :: "byte_string \<Rightarrow> GlobalTable \<Rightarrow> (byte_string \<times> GlobalBinding) list" where
  "bindingsUnder prefix t =
     concat (map (\<lambda>(name, b).
       if \<not> startsWith prefix name then []
       else let rest = drop (length prefix) name
            in if rest = [] \<or> CHR ''.'' \<in> set rest then [] else [(rest, b)]) (gt_table t))"

definition typesUnder :: "byte_string \<Rightarrow> GlobalTable \<Rightarrow> (byte_string \<times> byte_string) list" where
  "typesUnder prefix t =
     concat (map (\<lambda>(name, key).
       if \<not> startsWith prefix name then []
       else let rest = drop (length prefix) name;
                dotType = length rest > 5 \<and> drop (length rest - 5) rest = ''.type'';
                head = (if dotType then take (length rest - 5) rest else rest)
            in if head = [] \<or> CHR ''.'' \<in> set head then [] else [(rest, key)]) (gt_typeKeyOfName t))"

subsection \<open>Keys and names\<close>

lemma rfindChar_last: "c \<notin> set y \<Longrightarrow> rfindChar c (x @ c # y) = Some (length x)"
proof -
  assume "c \<notin> set y"
  then have "takeWhile (\<lambda>d. d \<noteq> c) (rev y @ c # rev x) = rev y"
    by (subst takeWhile_append2) auto
  then show ?thesis by (simp add: rfindChar_def)
qed

lemma hash_no_digit [simp]: "\<not> isdigit (CHR ''#'')"
  by (simp add: isdigit_def byte_of_def)

lemma natural_string: "0 \<le> i \<Longrightarrow> intToString i = natToString (nat i)"
  by (simp add: intToString_def)

lemma shadowKey_hash: "0 \<le> i \<Longrightarrow> rfindChar (CHR ''#'') (shadowKey n i) = Some (length n)"
  using rfindChar_last[of "CHR ''#''" "natToString (nat i)" n]
  by (simp add: shadowKey_def natural_string natToString_free)

lemma shadowKey_parts [simp]:
  "take (length n) (shadowKey n i) = n" "drop (Suc (length n)) (shadowKey n i) = intToString i"
  by (simp_all add: shadowKey_def)

lemma shadowKey_length: "length (shadowKey n i) = Suc (length n + length (intToString i))"
  by (simp add: shadowKey_def)

lemma nameOfKey_shadowKey [simp]: "0 \<le> i \<Longrightarrow> nameOfKey (shadowKey n i) = n"
  using natToString_digits[of "nat i"]
  by (simp add: nameOfKey_def shadowKey_hash shadowKey_length natural_string)

lemma shadowKey_not_name [simp]: "shadowKey n i \<noteq> n"
  by (simp add: shadowKey_def)

lemma shadowKey_inject [simp]: "shadowKey n i = shadowKey n j \<longleftrightarrow> i = j"
  by (simp add: shadowKey_def)

text \<open>A name that is not \<open>#\<close> and digits behind another name: every name a program writes without backquotes.\<close>

definition plainName :: "byte_string \<Rightarrow> bool" where
  "plainName n \<longleftrightarrow> nameOfKey n = n"

text \<open>The keys the counters account for: the names themselves and the numbers up to the counter.\<close>

definition ownKey :: "byte_string \<Rightarrow> byte_string \<Rightarrow> bool" where
  "ownKey n k \<longleftrightarrow> k = n \<or> (\<exists>i\<ge>0. k = shadowKey n i)"

definition covers :: "KeyCounters \<Rightarrow> byte_string set \<Rightarrow> bool" where
  "covers cs ks \<longleftrightarrow>
     (\<forall>n c. map_of cs n = Some c \<longrightarrow> 0 \<le> c) \<and>
     (\<forall>k\<in>ks. \<exists>c. map_of cs (nameOfKey k) = Some c \<and>
        (k = nameOfKey k \<or> (\<exists>i. 0 \<le> i \<and> i \<le> c \<and> k = shadowKey (nameOfKey k) i)))"

lemma covers_cases:
  assumes "covers cs ks" "k \<in> ks"
  obtains c where "map_of cs (nameOfKey k) = Some c" "k = nameOfKey k"
  | c i where "map_of cs (nameOfKey k) = Some c" "0 \<le> i" "i \<le> c" "k = shadowKey (nameOfKey k) i"
  using assms by (auto simp: covers_def)

lemma covers_grow:
  assumes "covers cs ks" "0 \<le> v" "\<And>c. map_of cs n = Some c \<Longrightarrow> c \<le> v"
  shows "covers (AList.update n v cs) ks"
  unfolding covers_def
proof (intro conjI ballI allI impI)
  fix m c assume "map_of (AList.update n v cs) m = Some c"
  then show "0 \<le> c" using assms(1,2) by (auto simp: update_conv' covers_def split: if_splits)
next
  fix k assume "k \<in> ks"
  from assms(1) this show "\<exists>c. map_of (AList.update n v cs) (nameOfKey k) = Some c \<and>
      (k = nameOfKey k \<or> (\<exists>i. 0 \<le> i \<and> i \<le> c \<and> k = shadowKey (nameOfKey k) i))"
    by (cases rule: covers_cases) (use assms(3) in \<open>force simp: update_conv'\<close>)+
qed

lemma covers_add:
  assumes "covers cs ks" "map_of cs (nameOfKey k) = Some c"
    "k = nameOfKey k \<or> (\<exists>i. 0 \<le> i \<and> i \<le> c \<and> k = shadowKey (nameOfKey k) i)"
  shows "covers cs (insert k ks)"
  using assms by (auto simp: covers_def)

lemma issueKey_new:
  assumes "covers cs ks" "plainName n" "issueKey n cs = (k, cs')"
  shows "k \<notin> ks \<and> covers cs' (insert k ks)"
proof (cases "map_of cs n")
  case None
  with assms(3) have k: "k = n" "cs' = AList.update n 0 cs" by (auto simp: issueKey_def)
  have name: "nameOfKey n = n" using assms(2) by (simp add: plainName_def)
  have "n \<notin> ks" using None name covers_cases[OF assms(1), of n] by (metis option.distinct(1))
  moreover have "covers cs' (insert k ks)"
    unfolding k by (rule covers_add[where c = 0]) (use assms(1) None name in \<open>auto simp: update_conv' intro: covers_grow\<close>)
  ultimately show ?thesis using k by simp
next
  case (Some c)
  with assms(3) have k: "k = shadowKey n (c + 1)" "cs' = AList.update n (c + 1) cs" by (auto simp: issueKey_def)
  have c: "0 \<le> c" using assms(1) Some by (auto simp: covers_def)
  then have name: "nameOfKey k = n" by (simp add: k)
  have "k \<notin> ks"
  proof
    assume "k \<in> ks"
    from assms(1) this show False
      by (cases rule: covers_cases) (use Some c name k(1) in auto)
  qed
  moreover have "covers cs' (insert k ks)"
    by (rule covers_add[where c = "c + 1"])
       (use assms(1) Some c name k in \<open>auto simp: update_conv' intro!: covers_grow\<close>)
  ultimately show ?thesis by simp
qed

lemma issueNumbered_new:
  assumes "covers cs ks" "plainName n" "issueNumbered n cs = (k, cs')"
  shows "k \<notin> ks \<and> covers cs' (insert k ks)"
proof -
  define c where "c = (case map_of cs n of None \<Rightarrow> 0 | Some c \<Rightarrow> c)"
  have k: "k = shadowKey n (c + 1)" "cs' = AList.update n (c + 1) cs"
    using assms(3) by (simp_all add: issueNumbered_def c_def Let_def)
  have c: "0 \<le> c" using assms(1) by (auto simp: c_def covers_def split: option.split)
  then have name: "nameOfKey k = n" by (simp add: k)
  have "k \<notin> ks"
  proof
    assume "k \<in> ks"
    from assms(1) this show False
      by (cases rule: covers_cases) (use c name k(1) in \<open>auto simp: c_def\<close>)
  qed
  moreover have "covers cs' (insert k ks)"
    by (rule covers_add[where c = "c + 1"])
       (use assms(1) c name k in \<open>auto simp: update_conv' c_def split: option.splits intro!: covers_grow\<close>)
  ultimately show ?thesis by simp
qed

lemma reserveKey_lookup:
  "map_of (reserveKey n k cs) m =
     (if m = n then
        Some (let c = (case map_of cs n of None \<Rightarrow> 0 | Some c \<Rightarrow> c) in
              case rfindChar (CHR ''#'') k of
                None \<Rightarrow> c
              | Some h \<Rightarrow>
                  if take h k \<noteq> n \<or> \<not> list_all isdigit (drop (h + 1) k) then c
                  else max c (int (decimalValue (drop (h + 1) k))))
      else map_of cs m)"
  by (auto simp: reserveKey_def Let_def update_conv' max_def split: option.split)

lemma reserveKey_covers:
  assumes "covers cs ks" "plainName n" "k \<in> ks \<or> ownKey n k"
  shows "covers (reserveKey n k cs) (insert k ks)"
proof -
  let ?cs = "reserveKey n k cs"
  define c where "c = (case map_of cs n of None \<Rightarrow> 0 | Some c \<Rightarrow> c)"
  have pos: "0 \<le> c" using assms(1) by (auto simp: c_def covers_def split: option.split)
  obtain d where d: "map_of ?cs n = Some d" "c \<le> d"
    by (fastforce simp: reserveKey_lookup Let_def c_def split: option.splits)
  have others: "m \<noteq> n \<Longrightarrow> map_of ?cs m = map_of cs m" for m by (simp add: reserveKey_lookup)
  have old: "covers ?cs ks"
    unfolding covers_def
  proof (intro conjI ballI allI impI)
    fix m e assume "map_of ?cs m = Some e"
    then show "0 \<le> e" using assms(1) d pos others[of m] by (cases "m = n") (auto simp: covers_def)
  next
    fix j assume "j \<in> ks"
    from assms(1) this show "\<exists>e. map_of ?cs (nameOfKey j) = Some e \<and>
        (j = nameOfKey j \<or> (\<exists>i. 0 \<le> i \<and> i \<le> e \<and> j = shadowKey (nameOfKey j) i))"
      by (cases rule: covers_cases; cases "nameOfKey j = n") (use d others in \<open>force simp: c_def\<close>)+
  qed
  show ?thesis
  proof (cases "k \<in> ks")
    case True
    then show ?thesis using old by (simp add: insert_absorb)
  next
    case False
    with assms(3) consider "k = n" | i where "0 \<le> i" "k = shadowKey n i" by (auto simp: ownKey_def)
    then show ?thesis
    proof cases
      case 1
      then show ?thesis using old d assms(2) by (intro covers_add[where c = d]) (auto simp: plainName_def)
    next
      case (2 i)
      have "map_of ?cs n = Some (max c i)"
        using 2 natToString_digits[of "nat i"]
        by (simp add: reserveKey_lookup shadowKey_hash natural_string c_def Let_def)
      then show ?thesis using old 2 by (intro covers_add[where c = "max c i"]) (auto intro!: exI[of _ i])
    qed
  qed
qed

subsection \<open>The supply of keys\<close>

text \<open>
  What the tables rely on: an allocation gives a key that is not among the known ones, and a reservation makes
  a key known.  A history is a sequence of allocations and reservations.
\<close>

datatype KeyEvent = Issue byte_string | IssueNumbered byte_string | Reserve byte_string byte_string

locale key_supply =
  fixes issue :: "byte_string \<Rightarrow> 'c \<Rightarrow> byte_string \<times> 'c"
    and numbered :: "byte_string \<Rightarrow> 'c \<Rightarrow> byte_string \<times> 'c"
    and reserve :: "byte_string \<Rightarrow> byte_string \<Rightarrow> 'c \<Rightarrow> 'c"
    and known :: "'c \<Rightarrow> byte_string set \<Rightarrow> bool"
    and plain :: "byte_string \<Rightarrow> bool"
    and own :: "byte_string \<Rightarrow> byte_string \<Rightarrow> bool"
  assumes issue_new: "known c ks \<Longrightarrow> plain n \<Longrightarrow> issue n c = (k, c') \<Longrightarrow> k \<notin> ks \<and> known c' (insert k ks)"
    and numbered_new: "known c ks \<Longrightarrow> plain n \<Longrightarrow> numbered n c = (k, c') \<Longrightarrow> k \<notin> ks \<and> known c' (insert k ks)"
    and reserve_known: "known c ks \<Longrightarrow> plain n \<Longrightarrow> k \<in> ks \<or> own n k \<Longrightarrow> known (reserve n k c) (insert k ks)"
begin

text \<open>A key supply, the keys handed out so far (newest first) and the keys reserved.\<close>

fun happens :: "KeyEvent \<Rightarrow> 'c \<times> byte_string list \<times> byte_string set \<Rightarrow> 'c \<times> byte_string list \<times> byte_string set"
where
  "happens (Issue n) (c, issued, others) = (case issue n c of (k, c') \<Rightarrow> (c', k # issued, others))"
| "happens (IssueNumbered n) (c, issued, others) = (case numbered n c of (k, c') \<Rightarrow> (c', k # issued, others))"
| "happens (Reserve n k) (c, issued, others) = (reserve n k c, issued, insert k others)"

fun allowed :: "KeyEvent \<Rightarrow> 'c \<times> byte_string list \<times> byte_string set \<Rightarrow> bool" where
  "allowed (Issue n) s \<longleftrightarrow> plain n"
| "allowed (IssueNumbered n) s \<longleftrightarrow> plain n"
| "allowed (Reserve n k) (c, issued, others) \<longleftrightarrow> plain n \<and> (k \<in> set issued \<union> others \<or> own n k)"

definition supplyInv :: "'c \<times> byte_string list \<times> byte_string set \<Rightarrow> bool" where
  "supplyInv = (\<lambda>(c, issued, others). known c (set issued \<union> others) \<and> distinct issued)"

lemma happens_inv: "supplyInv s \<Longrightarrow> allowed e s \<Longrightarrow> supplyInv (happens e s)"
proof (cases s)
  case (fields c issued others)
  moreover assume "supplyInv s" "allowed e s"
  ultimately show ?thesis
    using issue_new[of c "set issued \<union> others"] numbered_new[of c "set issued \<union> others"]
      reserve_known[of c "set issued \<union> others"]
    by (cases e) (auto simp: supplyInv_def split: prod.split)
qed

text \<open>A key that is handed out differs from every known one.\<close>

lemma handed_out_new:
  assumes "supplyInv (c, issued, others)" "plain n"
  shows "fst (issue n c) \<notin> set issued \<union> others" "fst (numbered n c) \<notin> set issued \<union> others"
  using assms issue_new[of c "set issued \<union> others" n] numbered_new[of c "set issued \<union> others" n]
  by (cases "issue n c"; cases "numbered n c"; simp add: supplyInv_def)+

end

interpretation keys: key_supply issueKey issueNumbered reserveKey covers plainName ownKey
  by unfold_locales (use issueKey_new issueNumbered_new reserveKey_covers in blast)+

subsection \<open>A session and its copies of the table\<close>

text \<open>
  All tables of a process (the session's, the copies its units and modules are compiled against), the state
  they share, and two auxiliary components: the keys the tables have allocated, newest first, and the keys that
  came in with bindings (the prelude image).  Copying a table over another one is both taking a snapshot and
  rolling back to it.  An import binds a binding of some table; the image binds a name to a key of its own.
\<close>

record World =
  w_tables :: "nat \<Rightarrow> GlobalTable"
  w_shared :: Shared
  w_issued :: "byte_string list"
  w_reserved :: "byte_string set"

definition newWorld :: World where
  "newWorld = \<lparr>w_tables = (\<lambda>_. emptyGlobals), w_shared = emptyShared, w_issued = [], w_reserved = {}\<rparr>"

definition setTable :: "nat \<Rightarrow> GlobalTable \<Rightarrow> World \<Rightarrow> World" where
  "setTable i t w = w\<lparr>w_tables := (w_tables w)(i := t)\<rparr>"

text \<open>A declaration that leaves the counters alone has returned a key of the table.\<close>

definition declared :: "nat \<Rightarrow> byte_string \<Rightarrow> GlobalTable \<Rightarrow> Shared \<Rightarrow> World \<Rightarrow> World" where
  "declared i key t sh w =
     (setTable i t w)\<lparr>w_shared := sh,
        w_issued := (if sh_counters sh = sh_counters (w_shared w) then w_issued w else key # w_issued w)\<rparr>"

definition bound :: "nat \<Rightarrow> byte_string \<Rightarrow> GlobalTable \<Rightarrow> Shared \<Rightarrow> World \<Rightarrow> World" where
  "bound i key t sh w =
     (setTable i t w)\<lparr>w_shared := sh, w_reserved := insert key (w_reserved w)\<rparr>"

inductive worldStep :: "(byte_string \<Rightarrow> bool) \<Rightarrow> World \<Rightarrow> World \<Rightarrow> bool" for names where
  copies: "worldStep names w (setTable i (w_tables w j) w)"
| begins: "worldStep names w (setTable i (beginUnit (w_tables w i)) w)"
| declares: "names n \<Longrightarrow> declareName n kind (w_tables w i, w_shared w) = Inr (key, t, sh) \<Longrightarrow>
     worldStep names w (declared i key t sh w)"
| declaresDef: "names n \<Longrightarrow> declareDef n kind arity (w_tables w i, w_shared w) = Inr ((key, dup), t, sh) \<Longrightarrow>
     worldStep names w (declared i key t sh w)"
| importing: "names n \<Longrightarrow> binding (w_tables w j) m = Some b \<Longrightarrow> bind n b (w_tables w i, w_shared w) = (t, sh) \<Longrightarrow>
     worldStep names w (bound i (gb_key b) t sh w)"
| replaying: "names n \<Longrightarrow> ownKey n (gb_key b) \<Longrightarrow> bind n b (w_tables w i, w_shared w) = (t, sh) \<Longrightarrow>
     worldStep names w (bound i (gb_key b) t sh w)"
| masks: "setByNameMasks n ms (w_tables w i, w_shared w) = (t, sh) \<Longrightarrow>
     worldStep names w ((setTable i t w)\<lparr>w_shared := sh\<rparr>)"
| restores: "worldStep names w (setTable i (restore n (w_tables w j) (w_tables w i)) w)"

inductive worldReach :: "(byte_string \<Rightarrow> bool) \<Rightarrow> World \<Rightarrow> bool" for names where
  start: "worldReach names newWorld"
| onward: "worldReach names w \<Longrightarrow> worldStep names w w' \<Longrightarrow> worldReach names w'"

definition knownKeys :: "World \<Rightarrow> byte_string set" where
  "knownKeys w = set (w_issued w) \<union> w_reserved w"

definition worldInv :: "World \<Rightarrow> bool" where
  "worldInv w \<longleftrightarrow>
     keys.supplyInv (sh_counters (w_shared w), w_issued w, w_reserved w) \<and>
     (\<forall>i n b. binding (w_tables w i) n = Some b \<longrightarrow> gb_key b \<in> knownKeys w)"

lemma binding_setBinding [simp]: "binding (setBinding n b t) m = (if m = n then Some b else binding t m)"
  by (simp add: binding_def setBinding_def update_conv')

lemma setBinding_unit [simp]: "gt_declaredInUnit (setBinding n b t) = gt_declaredInUnit t"
  by (simp add: setBinding_def)

lemma binding_units [simp]:
  "binding (beginUnit t) n = binding t n"
  "binding (t\<lparr>gt_declaredInUnit := d\<rparr>) n = binding t n"
  by (simp_all add: binding_def beginUnit_def)

lemma counters_noted [simp]: "sh_counters (noteByNameSelector n ms sh) = sh_counters sh"
  by (simp add: noteByNameSelector_def Let_def)

lemma issue_counts: "snd (issueKey n cs) \<noteq> cs" "snd (issueNumbered n cs) \<noteq> cs"
proof -
  have "map_of (snd (issueKey n cs)) n \<noteq> map_of cs n" "map_of (snd (issueNumbered n cs)) n \<noteq> map_of cs n"
    by (auto simp: issueKey_def issueNumbered_def Let_def update_conv' split: option.split)
  then show "snd (issueKey n cs) \<noteq> cs" "snd (issueNumbered n cs) \<noteq> cs" by metis+
qed

text \<open>What a declaration does to the supply: nothing, or one allocation; and the keys it puts in the table.\<close>

definition declaredBy :: "byte_string \<Rightarrow> byte_string \<Rightarrow> GlobalTable \<times> Shared \<Rightarrow> GlobalTable \<times> Shared \<Rightarrow> bool" where
  "declaredBy n key = (\<lambda>(t, sh) (t', sh').
     (\<forall>m b. binding t' m = Some b \<longrightarrow>
        (\<exists>m' b'. binding t m' = Some b' \<and> gb_key b' = gb_key b) \<or> gb_key b = key \<and> sh_counters sh' \<noteq> sh_counters sh) \<and>
     (sh_counters sh' = sh_counters sh \<or> (key, sh_counters sh') = issueKey n (sh_counters sh) \<or>
      (key, sh_counters sh') = issueNumbered n (sh_counters sh)))"

lemma declareName_by: "declareName n kind s = Inr (key, s') \<Longrightarrow> declaredBy n key s s'"
  using issue_counts[of n "sh_counters (snd s)"]
  by (cases s; cases s')
     (fastforce simp: declareName_def declaredBy_def split: option.splits if_splits prod.splits)

lemma declareDef_by:
  assumes "declareDef n kind arity (t, sh) = Inr ((key, dup), t', sh')"
  shows "declaredBy n key (t, sh) (t', sh')"
proof (cases "n \<in> gt_declaredInUnit t")
  case True
  then show ?thesis
    using assms issue_counts[of n "sh_counters sh"]
    by (fastforce simp: declareDef_def declaredBy_def Let_def split: option.splits prod.splits if_splits)
next
  case False
  with assms obtain t1 b where t1: "declareName n kind (t, sh) = Inr (key, t1, sh')" "binding t1 n = Some b"
    "t' = setBinding n (b\<lparr>gb_overloads := gb_overloads b @ [\<lparr>ov_arity = arity, ov_key = key\<rparr>]\<rparr>) t1"
    by (auto simp: declareDef_def split: sum.splits option.splits)
  from declareName_by[OF t1(1)] t1(2,3) show ?thesis by (fastforce simp: declaredBy_def)
qed

lemma worldInv_declared:
  assumes inv: "worldInv w" and "plainName n" and made: "declaredBy n key (w_tables w i, w_shared w) (t, sh)"
  shows "worldInv (declared i key t sh w)"
proof -
  let ?cs = "sh_counters (w_shared w)" and ?w = "declared i key t sh w"
  have "keys.supplyInv (sh_counters (w_shared ?w), w_issued ?w, w_reserved ?w)"
    using inv made keys.happens_inv[of "(?cs, w_issued w, w_reserved w)" "Issue n"]
      keys.happens_inv[of "(?cs, w_issued w, w_reserved w)" "IssueNumbered n"] assms(2) issue_counts[of n ?cs]
    by (auto simp: worldInv_def declared_def setTable_def declaredBy_def split: prod.splits)
  moreover have "gb_key b \<in> knownKeys ?w" if "binding (w_tables ?w j) m = Some b" for j m b
    using that inv made by (cases "j = i") (fastforce simp: worldInv_def declared_def setTable_def declaredBy_def knownKeys_def)+
  ultimately show ?thesis by (simp add: worldInv_def)
qed

lemma worldInv_bound:
  assumes inv: "worldInv w" and "plainName n" and "gb_key b \<in> knownKeys w \<or> ownKey n (gb_key b)"
    and b: "bind n b (w_tables w i, w_shared w) = (t, sh)"
  shows "worldInv (bound i (gb_key b) t sh w)"
proof -
  let ?cs = "sh_counters (w_shared w)" and ?w = "bound i (gb_key b) t sh w"
  have "keys.supplyInv (sh_counters (w_shared ?w), w_issued ?w, w_reserved ?w)"
    using assms keys.happens_inv[of "(?cs, w_issued w, w_reserved w)" "Reserve n (gb_key b)"]
    by (auto simp: worldInv_def bound_def setTable_def bind_def knownKeys_def)
  moreover have "gb_key c \<in> knownKeys ?w" if "binding (w_tables ?w j) m = Some c" for j m c
    using that inv b
    by (fastforce simp: worldInv_def bound_def setTable_def bind_def knownKeys_def split: if_splits)
  ultimately show ?thesis by (simp add: worldInv_def)
qed

lemma setTable_shared [simp]: "(setTable i t w)\<lparr>w_shared := w_shared w\<rparr> = setTable i t w"
  by (simp add: setTable_def)

lemma worldInv_moved:
  assumes "worldInv w" "\<And>m b. binding t m = Some b \<Longrightarrow> \<exists>j m' b'. binding (w_tables w j) m' = Some b' \<and> gb_key b' = gb_key b"
    "sh_counters sh = sh_counters (w_shared w)"
  shows "worldInv ((setTable i t w)\<lparr>w_shared := sh\<rparr>)"
proof -
  have "gb_key b \<in> knownKeys w" if "binding t m = Some b" for m b
    using assms(1) assms(2)[OF that] by (metis worldInv_def)
  then show ?thesis using assms by (auto simp: worldInv_def setTable_def knownKeys_def)
qed

lemma worldStep_inv:
  assumes "worldStep plainName w w'" and inv: "worldInv w"
  shows "worldInv w'"
  using assms(1)
proof cases
  case (copies i j)
  then show ?thesis using worldInv_moved[OF inv, of "w_tables w j" "w_shared w" i] by auto
next
  case (begins i)
  then show ?thesis using worldInv_moved[OF inv, of "beginUnit (w_tables w i)" "w_shared w" i] by auto
next
  case (declares n kind i key t sh)
  then show ?thesis using worldInv_declared[OF inv] declareName_by by blast
next
  case (declaresDef n kind arity i key dup t sh)
  then show ?thesis using worldInv_declared[OF inv] declareDef_by by blast
next
  case (importing n j m b i t sh)
  then have "gb_key b \<in> knownKeys w" using inv by (auto simp: worldInv_def)
  then show ?thesis using importing worldInv_bound[OF inv] by blast
next
  case (replaying n b i t sh)
  then show ?thesis using worldInv_bound[OF inv] by blast
next
  case (masks n ms i t sh)
  then show ?thesis unfolding masks(1)
    by (intro worldInv_moved[OF inv])
       (fastforce simp: setByNameMasks_def split: option.splits if_splits)+
next
  case (restores i n j)
  have "\<exists>l m' b'. binding (w_tables w l) m' = Some b' \<and> gb_key b' = gb_key b"
    if "binding (restore n (w_tables w j) (w_tables w i)) m = Some b" for m b
    using that by (auto simp: restore_def binding_def setBinding_def update_conv' delete_conv' split: option.splits if_splits)
  then show ?thesis using restores worldInv_moved[OF inv, of _ "w_shared w" i] by simp
qed

lemma worldReach_inv: "worldReach plainName w \<Longrightarrow> worldInv w"
proof (induction rule: worldReach.induct)
  case start
  show ?case
    by (simp add: worldInv_def newWorld_def keys.supplyInv_def covers_def emptyShared_def emptyGlobals_def binding_def)
qed (rule worldStep_inv)

subsection \<open>Properties\<close>

text \<open>
  C26: keys are never reused, as long as every name is plain, that is, does not itself look like a shadowing key
  (a backquoted name may).  Over any history of units, copies, roll-backs, imports and image bindings, the
  keys the tables allocated are pairwise different, and the next declaration of a name in any table
  succeeds with a key that no table has allocated or bound, that gives back the name, and that the name is bound to.
\<close>

theorem session_keys_never_reused:
  assumes "worldReach plainName w" "plainName n" "n \<notin> gt_declaredInUnit (w_tables w i)"
  shows "distinct (w_issued w) \<and>
    (\<exists>key t sh. declareName n kind (w_tables w i, w_shared w) = Inr (key, t, sh) \<and> key \<notin> knownKeys w \<and>
       nameOfKey key = n \<and> map_option gb_key (binding t n) = Some key)"
proof -
  let ?cs = "sh_counters (w_shared w)"
  note inv = worldReach_inv[OF assms(1)]
  then have safe: "keys.supplyInv (?cs, w_issued w, w_reserved w)" by (simp add: worldInv_def)
  then have "0 \<le> c" if "map_of ?cs n = Some c" for c
    using that by (auto simp: keys.supplyInv_def covers_def)
  then have "nameOfKey (fst (issueKey n ?cs)) = n"
    using assms(2) by (auto simp: issueKey_def plainName_def split: option.split)
  moreover have "fst (issueKey n ?cs) \<notin> knownKeys w"
    using keys.handed_out_new(1)[OF safe assms(2)] by (simp add: knownKeys_def)
  ultimately show ?thesis
    using safe assms(3) by (auto simp: declareName_def keys.supplyInv_def split: prod.split)
qed

text \<open>A unit defines \<open>x\<close>, a second one redefines it and is rolled back.\<close>

definition xBinding :: GlobalBinding where
  "xBinding = \<lparr>gb_kind = BK_Val, gb_key = ''x'', gb_byNameMasks = [], gb_overloads = []\<rparr>"

definition firstTable :: GlobalTable where
  "firstTable = emptyGlobals\<lparr>gt_table := [(''x'', xBinding)], gt_declaredInUnit := {''x''}\<rparr>"

definition secondTable :: GlobalTable where
  "secondTable =
     firstTable\<lparr>gt_table := [(''x'', xBinding\<lparr>gb_key := ''x#1''\<rparr>)]\<rparr>"

definition rolledBack :: World where
  "rolledBack =
     \<lparr>w_tables = (\<lambda>_. emptyGlobals)(0 := beginUnit firstTable), w_shared = emptyShared\<lparr>sh_counters := [(''x'', 1)]\<rparr>,
      w_issued = [''x#1'', ''x''], w_reserved = {}\<rparr>"

lemmas table_evals =
  declareName_def issueKey_def shadowKey_def binding_def setBinding_def beginUnit_def emptyGlobals_def
  emptyShared_def newWorld_def setTable_def declared_def firstTable_def secondTable_def xBinding_def intToString_def

lemma declare_first:
  "declareName ''x'' BK_Val (emptyGlobals, emptyShared) =
     Inr (''x'', firstTable, emptyShared\<lparr>sh_counters := [(''x'', 0)]\<rparr>)"
  by (simp add: table_evals)

lemma one_printed: "natToString (Suc 0) = ''1''"
  by code_simp

lemma declare_second:
  "declareName ''x'' BK_Val (beginUnit firstTable, emptyShared\<lparr>sh_counters := [(''x'', 0)]\<rparr>) =
     Inr (''x#1'', secondTable, emptyShared\<lparr>sh_counters := [(''x'', 1)]\<rparr>)"
  by (simp add: table_evals one_printed)

lemma plain_x: "plainName ''x''"
  by (simp add: plainName_def nameOfKey_def rfindChar_def)

text \<open>The table, in the world after the first unit.\<close>

definition afterFirst :: World where
  "afterFirst =
     newWorld\<lparr>w_tables := (\<lambda>_. emptyGlobals)(0 := beginUnit firstTable),
       w_shared := emptyShared\<lparr>sh_counters := [(''x'', 0)]\<rparr>, w_issued := [''x'']\<rparr>"

lemma afterFirst_reach: "names ''x'' \<Longrightarrow> worldReach names afterFirst"
proof -
  assume x: "names ''x''"
  let ?w = "declared 0 ''x'' firstTable (emptyShared\<lparr>sh_counters := [(''x'', 0)]\<rparr>) newWorld"
  have "worldStep names newWorld ?w"
    using x declare_first by (intro worldStep.declares) (simp_all add: newWorld_def)
  moreover have "worldStep names ?w (setTable 0 (beginUnit (w_tables ?w 0)) ?w)" by (rule worldStep.begins)
  moreover have "setTable 0 (beginUnit (w_tables ?w 0)) ?w = afterFirst"
    by (simp add: afterFirst_def declared_def setTable_def newWorld_def emptyShared_def)
  ultimately show ?thesis using worldReach.start worldReach.onward by metis
qed

lemma rolledBack_reach: "worldReach plainName rolledBack"
proof -
  let ?copied = "setTable 1 (w_tables afterFirst 0) afterFirst"
  let ?second = "declared 1 ''x#1'' secondTable (emptyShared\<lparr>sh_counters := [(''x'', 1)]\<rparr>) ?copied"
  have "worldReach plainName ?copied"
    using afterFirst_reach[of plainName] plain_x worldReach.onward worldStep.copies by blast
  moreover have "worldStep plainName ?copied ?second"
    using plain_x declare_second
    by (intro worldStep.declares) (simp_all add: afterFirst_def setTable_def newWorld_def)
  moreover have "worldStep plainName ?second (setTable 1 (w_tables ?second 2) ?second)" by (rule worldStep.copies)
  moreover have "setTable 1 (w_tables ?second 2) ?second = rolledBack"
    by (auto simp: rolledBack_def afterFirst_def declared_def setTable_def newWorld_def emptyShared_def)
  ultimately show ?thesis using worldReach.onward by metis
qed

theorem session_keys_never_reused_witness:
  "distinct (w_issued rolledBack) \<and>
   (\<exists>key t sh. declareName ''x'' BK_Def (w_tables rolledBack 0, w_shared rolledBack) = Inr (key, t, sh) \<and>
      key \<notin> {''x'', ''x#1''} \<and> nameOfKey key = ''x'')"
proof -
  have "''x'' \<notin> gt_declaredInUnit (w_tables rolledBack 0)" by (simp add: rolledBack_def beginUnit_def)
  moreover have "knownKeys rolledBack = {''x'', ''x#1''}" by (auto simp: knownKeys_def rolledBack_def)
  ultimately show ?thesis
    using session_keys_never_reused[OF rolledBack_reach plain_x, of 0 BK_Def] by auto
qed

text \<open>
  The runtime's types enter the table without a reservation, the prelude image makes one.  So a class
  named like a runtime type is given the runtime type's own key when the prelude is compiled from its source, and a
  shadowing key when it comes from the image.
\<close>

lemma builtins_found:
  "distinct (map ci_key cs) \<Longrightarrow> distinct (map ci_name cs) \<Longrightarrow> c \<in> set cs \<Longrightarrow>
   findType (fold defineBuiltinType cs t) (ci_name c) = Some c"
proof (induction cs arbitrary: t)
  case (Cons d cs)
  have keep: "findType (fold defineBuiltinType es u) n = findType u n"
    if "n \<notin> ci_name ` set es" "the (map_of (gt_typeKeyOfName u) n) \<notin> ci_key ` set es" for es u n
    using that
    by (induction es arbitrary: u)
       (auto simp: defineBuiltinType_def defineType_def findType_def findTypeByKey_def update_conv' split: option.splits)
  show ?case
  proof (cases "c = d")
    case True
    have "map_of (gt_typeKeyOfName (defineBuiltinType d t)) (ci_name d) = Some (ci_key d)"
      "findType (defineBuiltinType d t) (ci_name d) = Some d"
      by (simp_all add: defineBuiltinType_def defineType_def findType_def findTypeByKey_def update_conv')
    then show ?thesis using True Cons.prems keep[of "ci_name d" cs "defineBuiltinType d t"] by simp
  qed (use Cons in auto)
qed simp

definition builtinTable :: GlobalTable where
  "builtinTable = fold defineBuiltinType builtinTypes emptyGlobals"

lemma builtinTypes_names: "distinct (map ci_name builtinTypes)"
  using builtinTypes_distinct builtinTypes_named by (auto simp: distinct_map inj_on_def)

lemma builtinTable_undeclared [simp]: "gt_typesDeclaredInUnit builtinTable = {}"
proof -
  have "gt_typesDeclaredInUnit (fold defineBuiltinType cs t) = gt_typesDeclaredInUnit t" for cs t
    by (induction cs arbitrary: t) (simp_all add: defineBuiltinType_def defineType_def)
  then show ?thesis by (simp add: builtinTable_def emptyGlobals_def)
qed



text \<open>
  The names under a prefix are exactly those one level below it, with what they are bound to.
\<close>

lemma startsWith_split: "startsWith p s \<longleftrightarrow> (\<exists>r. s = p @ r)"
  by (metis append_eq_conv_conj append_take_drop_id startsWith_def)

theorem bindingsUnder_exact:
  assumes "distinct (map fst (gt_table t))"
  shows "(r, b) \<in> set (bindingsUnder prefix t) \<longleftrightarrow>
    binding t (prefix @ r) = Some b \<and> r \<noteq> [] \<and> CHR ''.'' \<notin> set r"
proof -
  have "(r, b) \<in> set (bindingsUnder prefix t) \<longleftrightarrow>
      (prefix @ r, b) \<in> set (gt_table t) \<and> r \<noteq> [] \<and> CHR ''.'' \<notin> set r"
  proof
    assume "(r, b) \<in> set (bindingsUnder prefix t)"
    then show "(prefix @ r, b) \<in> set (gt_table t) \<and> r \<noteq> [] \<and> CHR ''.'' \<notin> set r"
      by (auto simp: bindingsUnder_def startsWith_split Let_def split: if_splits)
  next
    assume "(prefix @ r, b) \<in> set (gt_table t) \<and> r \<noteq> [] \<and> CHR ''.'' \<notin> set r"
    then show "(r, b) \<in> set (bindingsUnder prefix t)"
      unfolding bindingsUnder_def set_concat set_map image_image
      by (intro UN_I[of "(prefix @ r, b)"]) (auto simp: startsWith_def)
  qed
  then show ?thesis using assms by (simp add: binding_def)
qed

text \<open>An alias chain of at most 32 links is followed to its end, and a cycle stops too.\<close>

inductive aliasPath :: "GlobalTable \<Rightarrow> byte_string \<Rightarrow> nat \<Rightarrow> byte_string \<Rightarrow> bool" for t where
  ends: "map_of (gt_typeAliases t) x \<in> {None, Some [], Some x} \<Longrightarrow> aliasPath t x 0 x"
| links: "map_of (gt_typeAliases t) x = Some y \<Longrightarrow> y \<noteq> [] \<Longrightarrow> y \<noteq> x \<Longrightarrow> aliasPath t y n z \<Longrightarrow>
     aliasPath t x (Suc n) z"

lemma followSteps_path: "aliasPath t x n z \<Longrightarrow> n \<le> fuel \<Longrightarrow> followSteps fuel t x = z"
proof (induction x n z arbitrary: fuel rule: aliasPath.induct)
  case (ends x)
  then show ?case by (cases fuel) auto
next
  case (links x y n z)
  then show ?case by (cases fuel) auto
qed

theorem followTypeAlias_end: "aliasPath t x n z \<Longrightarrow> n \<le> 32 \<Longrightarrow> followTypeAlias t x = z"
  by (simp add: followTypeAlias_def followSteps_path kMaxAliasDepth_def)

end
