(* ===== verification/Format.thy ===== *)
theory Format
  imports Monads Utf8
begin

text \<open>
  Format specifiers: the parser of \<^verbatim>\<open>src/src/support/FormatSpec.cpp\<close>, the renderer of
  \<^verbatim>\<open>src/src/runtime/Format.cpp\<close>, the two primitives that use them (\<^verbatim>\<open>__fmt\<close>, to which the compiler
  translates the \<open>f\<close> interpolator, and \<^verbatim>\<open>String.format\<close>) and the compile-time checks of
  \<^verbatim>\<open>Compiler::compileFormat\<close>.

  Values belong to protoCore: what the renderer asks of them is the record \<open>ValueOps\<close> of functions,
  a parameter.  \<open>vo_printf\<close> is the C library's rendering of a double under a precision and a conversion.

  Shown: a specifier that is printed from its parts parses back; a printed number has at least the
  width asked for and keeps its digits; \<^verbatim>\<open>String.format\<close> and the interpolator agree; a width above \<open>2\<^sup>3\<^sup>1 - 1\<close> is
  no compile error but an exception nobody catches, and \<open>%.1s\<close> can cut a character in two.
\<close>

subsection \<open>Specifiers\<close>

record FormatSpec =
  fs_conversion :: char
  fs_leftAlign :: bool
  fs_plusSign :: bool
  fs_spaceSign :: bool
  fs_zeroPad :: bool
  fs_grouping :: bool
  fs_alternate :: bool
  fs_width :: int
  fs_precision :: int

definition newFormatSpec :: FormatSpec where
  "newFormatSpec =
     \<lparr>fs_conversion = CHR ''s'', fs_leftAlign = False, fs_plusSign = False, fs_spaceSign = False,
      fs_zeroPad = False, fs_grouping = False, fs_alternate = False, fs_width = -1, fs_precision = -1\<rparr>"

text \<open>
  The exceptions: \<^verbatim>\<open>std::invalid_argument\<close>, \<^verbatim>\<open>std::out_of_range\<close>, a \<^verbatim>\<open>CompileError\<close> and a \<^verbatim>\<open>ScalaError\<close> of class
  \<^verbatim>\<open>IllegalArgumentException\<close>.
\<close>

datatype FormatError =
  InvalidArgument byte_string | OutOfRange | CompileError byte_string | IllegalArgument byte_string

definition isFlag :: "char \<Rightarrow> bool" where
  "isFlag c \<longleftrightarrow> c \<in> set ''-+ 0,#''"

definition setFlag :: "char \<Rightarrow> FormatSpec \<Rightarrow> FormatSpec" where
  "setFlag c out =
     (if c = CHR ''-'' then out\<lparr>fs_leftAlign := True\<rparr>
      else if c = CHR ''+'' then out\<lparr>fs_plusSign := True\<rparr>
      else if c = CHR '' '' then out\<lparr>fs_spaceSign := True\<rparr>
      else if c = CHR ''0'' then out\<lparr>fs_zeroPad := True\<rparr>
      else if c = CHR '','' then out\<lparr>fs_grouping := True\<rparr>
      else out\<lparr>fs_alternate := True\<rparr>)"

fun parseFlags :: "byte_string \<Rightarrow> FormatSpec \<Rightarrow> FormatSpec \<times> byte_string" where
  "parseFlags [] out = (out, [])"
| "parseFlags (c # cs) out = (if isFlag c then parseFlags cs (setFlag c out) else (out, c # cs))"

text \<open>\<^verbatim>\<open>std::stoi\<close> on a non-empty run of digits.\<close>

definition stoi :: "byte_string \<Rightarrow> FormatError + int" where
  "stoi ds = (if int (decimalValue ds) \<le> 2147483647 then Inr (int (decimalValue ds)) else Inl OutOfRange)"

definition conversions :: byte_string where
  "conversions = ''sbcdoxXeEfgG''"

definition inQuotes :: "byte_string \<Rightarrow> byte_string" where
  "inQuotes s = CHR 0x27 # s @ [CHR 0x27]"

definition unsupportedSpec :: "byte_string \<Rightarrow> FormatError" where
  "unsupportedSpec spec = InvalidArgument (''unsupported format specifier '' @ inQuotes spec)"

definition parsePrecision :: "FormatSpec \<Rightarrow> byte_string \<Rightarrow> FormatError + FormatSpec \<times> byte_string" where
  "parsePrecision out r =
     (if r \<noteq> [] \<and> hd r = CHR ''.'' then
        let ds = takeWhile isdigit (tl r)
        in bindE (if ds = [] then Inr 0 else stoi ds)
             (\<lambda>p. Inr (out\<lparr>fs_precision := p\<rparr>, dropWhile isdigit (tl r)))
      else Inr (out, r))"

definition parseFormatSpec :: "byte_string \<Rightarrow> FormatError + FormatSpec" where
  "parseFormatSpec spec =
     (case spec of
        [] \<Rightarrow> Inr newFormatSpec
      | c # cs \<Rightarrow>
          if c \<noteq> CHR ''%'' then Inl (InvalidArgument (''a format specifier starts with '' @ inQuotes ''%''))
          else
            let (out, r) = parseFlags cs newFormatSpec;
                ds = takeWhile isdigit r
            in bindE (if ds = [] then Inr out else bindE (stoi ds) (\<lambda>w. Inr (out\<lparr>fs_width := w\<rparr>))) (\<lambda>out.
               bindE (parsePrecision out (dropWhile isdigit r)) (\<lambda>(out, r).
               case r of
                 [k] \<Rightarrow> if k \<in> set conversions then Inr (out\<lparr>fs_conversion := k\<rparr>) else Inl (unsupportedSpec spec)
               | _ \<Rightarrow> Inl (unsupportedSpec spec))))"

subsection \<open>Rendering\<close>

definition pad :: "byte_string \<Rightarrow> FormatSpec \<Rightarrow> byte_string" where
  "pad body spec =
     (if fs_width spec < 0 \<or> int (length body) \<ge> fs_width spec then body
      else let fill = replicate (nat (fs_width spec) - length body) (CHR '' '')
           in if fs_leftAlign spec then body @ fill else fill @ body)"

definition groupDigits :: "byte_string \<Rightarrow> byte_string" where
  "groupDigits digits =
     (let n = length digits
      in concat (map (\<lambda>k. (if k > 0 \<and> (n - k) mod 3 = 0 then '','' else []) @ [digits ! k]) [0..<n]))"

definition padNumeric :: "byte_string \<Rightarrow> byte_string \<Rightarrow> FormatSpec \<Rightarrow> byte_string" where
  "padNumeric sign body spec =
     (let room = fs_width spec - int (length sign + length body);
          body = (if fs_width spec \<ge> 0 \<and> fs_zeroPad spec \<and> \<not> fs_leftAlign spec \<and> room > 0
                  then replicate (nat room) (CHR ''0'') @ body else body)
      in pad (sign @ body) spec)"

text \<open>The sign and the body without it.\<close>

definition signOf :: "byte_string \<Rightarrow> FormatSpec \<Rightarrow> byte_string \<times> byte_string" where
  "signOf body spec =
     (if body \<noteq> [] \<and> hd body = CHR ''-'' then (''-'', tl body)
      else if fs_plusSign spec then (''+'', body)
      else if fs_spaceSign spec then ('' '', body)
      else ([], body))"

record 'v ValueOps =
  vo_show :: "'v \<Rightarrow> byte_string"
  vo_typeName :: "'v \<Rightarrow> byte_string"
  vo_falsy :: "'v \<Rightarrow> bool"
  vo_charValue :: "'v \<Rightarrow> nat option"
  vo_isInteger :: "'v \<Rightarrow> bool"
  vo_isNumber :: "'v \<Rightarrow> bool"
  vo_integerString :: "nat \<Rightarrow> 'v \<Rightarrow> byte_string"
  vo_printf :: "int \<Rightarrow> char \<Rightarrow> 'v \<Rightarrow> byte_string"

definition toUpper :: "char \<Rightarrow> char" where
  "toUpper c = (if 97 \<le> byte_of c \<and> byte_of c \<le> 122 then char_of (byte_of c - 32) else c)"

definition formatInteger :: "FormatSpec \<Rightarrow> byte_string \<Rightarrow> byte_string" where
  "formatInteger spec text =
     (let conv = fs_conversion spec;
          (sign, digits) = signOf text spec;
          digits = (if conv = CHR ''X'' then map toUpper digits else digits);
          digits = (if fs_grouping spec \<and> conv = CHR ''d'' then groupDigits digits else digits);
          digits =
            (if \<not> fs_alternate spec then digits
             else if conv = CHR ''x'' then ''0x'' @ digits
             else if conv = CHR ''X'' then ''0X'' @ digits
             else if conv = CHR ''o'' \<and> (digits = [] \<or> hd digits \<noteq> CHR ''0'') then ''0'' @ digits
             else digits)
      in padNumeric sign digits spec)"

definition formatOne :: "'v ValueOps \<Rightarrow> FormatSpec \<Rightarrow> 'v \<Rightarrow> FormatError + byte_string" where
  "formatOne ops spec v =
     (let conv = fs_conversion spec in
      if conv = CHR ''s'' then
        (let body = vo_show ops v
         in Inr (pad (if fs_precision spec \<ge> 0 \<and> int (length body) > fs_precision spec
                      then take (nat (fs_precision spec)) body else body) spec))
      else if conv = CHR ''b'' then Inr (pad (if vo_falsy ops v then ''false'' else ''true'') spec)
      else if conv = CHR ''c'' then
        (case vo_charValue ops v of
           None \<Rightarrow> Inl (IllegalArgument (''%c expects a Char, got '' @ vo_typeName ops v))
         | Some c \<Rightarrow> Inr (pad (appendUtf8 [] c) spec))
      else if conv \<in> set ''doxX'' then
        (if \<not> vo_isInteger ops v \<and> vo_charValue ops v = None
         then Inl (IllegalArgument (''%'' @ [conv] @ '' expects an integer, got '' @ vo_typeName ops v))
         else Inr (formatInteger spec
                (vo_integerString ops (if conv = CHR ''d'' then 10 else if conv = CHR ''o'' then 8 else 16) v)))
      else if conv \<in> set ''eEfgG'' then
        (if \<not> vo_isNumber ops v
         then Inl (IllegalArgument (''%'' @ [conv] @ '' expects a number, got '' @ vo_typeName ops v))
         else let text = take 511 (vo_printf ops (if fs_precision spec \<ge> 0 then fs_precision spec else 6) conv v);
                  (sign, body) = signOf text spec
              in Inr (padNumeric sign body spec))
      else Inl (IllegalArgument (''unsupported format conversion '' @ inQuotes [conv])))"

subsection \<open>The primitives\<close>

text \<open>
  \<^verbatim>\<open>__fmt\<close> takes pieces (literal, value, specifier) and a last literal; here its literals and specifiers are
  the strings they always are in compiled code.
\<close>

fun primFmt :: "'v ValueOps \<Rightarrow> (byte_string \<times> 'v \<times> byte_string) list \<Rightarrow> byte_string \<Rightarrow> FormatError + byte_string" where
  "primFmt ops [] final = Inr final"
| "primFmt ops ((lit, v, spec) # ps) final =
     bindE (parseFormatSpec spec) (\<lambda>fs. bindE (formatOne ops fs v) (\<lambda>s.
     bindE (primFmt ops ps final) (\<lambda>r. Inr (lit @ s @ r))))"

text \<open>
  The loop of \<^verbatim>\<open>string_format\<close>.  The scan of a specifier starts behind its percent sign and stops before the
  conversion character; \<open>scanSpecifier\<close> is the rest of the text from there.
\<close>

definition scanSpecifier :: "byte_string \<Rightarrow> byte_string" where
  "scanSpecifier r =
     (let r = dropWhile isdigit (dropWhile isFlag r)
      in if r \<noteq> [] \<and> hd r = CHR ''.'' then dropWhile isdigit (tl r) else r)"

lemma scanSpecifier_length: "length (scanSpecifier r) \<le> length r"
proof -
  have "length (tl (dropWhile isdigit (dropWhile isFlag r))) \<le> length r"
    using length_dropWhile_le[of isFlag r] length_dropWhile_le[of isdigit "dropWhile isFlag r"] by simp
  then show ?thesis
    unfolding scanSpecifier_def Let_def
    using length_dropWhile_le[of isFlag r] length_dropWhile_le[of isdigit "dropWhile isFlag r"]
      length_dropWhile_le[of isdigit "tl (dropWhile isdigit (dropWhile isFlag r))"]
    by (auto intro: order_trans)
qed

definition invalidToScala :: "FormatError + 'a \<Rightarrow> FormatError + 'a" where
  "invalidToScala m = (case m of Inl (InvalidArgument msg) \<Rightarrow> Inl (IllegalArgument msg) | _ \<Rightarrow> m)"

function stringFormatLoop :: "'v ValueOps \<Rightarrow> byte_string \<Rightarrow> byte_string \<Rightarrow> 'v list \<Rightarrow> FormatError + byte_string" where
  "stringFormatLoop ops fmt [] vs = Inr []"
| "stringFormatLoop ops fmt (c # r) vs =
     (if c \<noteq> CHR ''%'' then bindE (stringFormatLoop ops fmt r vs) (\<lambda>s. Inr (c # s))
      else if r \<noteq> [] \<and> hd r = CHR ''%'' then bindE (stringFormatLoop ops fmt (tl r) vs) (\<lambda>s. Inr (CHR ''%'' # s))
      else
        let r' = scanSpecifier r
        in if r' = [] then Inl (IllegalArgument ''format: a specifier needs a conversion'')
           else bindE (invalidToScala (parseFormatSpec (c # take (length r - length r' + 1) r))) (\<lambda>fs.
                case vs of
                  [] \<Rightarrow> Inl (IllegalArgument (''format: not enough arguments for '' @ inQuotes fmt))
                | v # vs' \<Rightarrow>
                    bindE (formatOne ops fs v) (\<lambda>s.
                    bindE (stringFormatLoop ops fmt (tl r') vs') (\<lambda>t. Inr (s @ t)))))"
  by pat_completeness auto
termination
proof (relation "measure (\<lambda>(_, _, r, _). length r)")
  fix r :: byte_string and r' assume "r' = scanSpecifier r"
  then show "((ops, fmt, tl r', vs'), ops, fmt, c # r, vs) \<in> measure (\<lambda>(_, _, r, _). length r)"
    for ops :: "'v ValueOps" and fmt vs' vs and c :: char
    using scanSpecifier_length[of r] by auto
qed auto

definition stringFormat :: "'v ValueOps \<Rightarrow> byte_string \<Rightarrow> 'v list \<Rightarrow> FormatError + byte_string" where
  "stringFormat ops fmt vs = stringFormatLoop ops fmt fmt vs"

subsection \<open>The compile-time checks\<close>

definition strayPercent :: FormatError where
  "strayPercent =
     CompileError (''conversions must follow a splice in an f-interpolator; '' @
       ''use %% for a literal % (%n is not supported: write '' @ [CHR 0x5C] @ ''n)'')"

fun unescapePercent :: "byte_string \<Rightarrow> FormatError + byte_string" where
  "unescapePercent [] = Inr []"
| "unescapePercent (c # cs) =
     (if c \<noteq> CHR ''%'' then bindE (unescapePercent cs) (\<lambda>s. Inr (c # s))
      else case cs of
             d # ds \<Rightarrow>
               if d = CHR ''%'' then bindE (unescapePercent ds) (\<lambda>s. Inr (CHR ''%'' # s))
               else Inl strayPercent
           | [] \<Rightarrow> Inl strayPercent)"

definition invalidToCompile :: "FormatError + 'a \<Rightarrow> FormatError + 'a" where
  "invalidToCompile m = (case m of Inl (InvalidArgument msg) \<Rightarrow> Inl (CompileError msg) | _ \<Rightarrow> m)"

fun checkSpecs :: "byte_string list \<Rightarrow> FormatError + unit" where
  "checkSpecs [] = Inr ()"
| "checkSpecs (spec # specs) =
     (if spec = [] then checkSpecs specs
      else bindE (invalidToCompile (parseFormatSpec spec)) (\<lambda>_. checkSpecs specs))"

text \<open>
  What \<^verbatim>\<open>compileFormat\<close> makes of an interpolation: the pieces of the \<^verbatim>\<open>__fmt\<close> call and its last literal, in
  the order it compiles them.
\<close>

fun formatPieces :: "byte_string list \<Rightarrow> 'v list \<Rightarrow> byte_string list \<Rightarrow>
    FormatError + (byte_string \<times> 'v \<times> byte_string) list \<times> byte_string" where
  "formatPieces (lit # lits) (v # vs) (spec # specs) =
     bindE (unescapePercent lit) (\<lambda>l. bindE (formatPieces lits vs specs) (\<lambda>(ps, final). Inr ((l, v, spec) # ps, final)))"
| "formatPieces (lit # lits) vs specs = bindE (unescapePercent (last (lit # lits))) (\<lambda>l. Inr ([], l))"
| "formatPieces [] vs specs = Inr ([], [])"

definition compileFormat :: "byte_string list \<Rightarrow> 'v list \<Rightarrow> byte_string list \<Rightarrow>
    FormatError + (byte_string \<times> 'v \<times> byte_string) list \<times> byte_string" where
  "compileFormat literals args specs = bindE (checkSpecs specs) (\<lambda>_. formatPieces literals args specs)"

subsection \<open>Scanning and parsing agree\<close>

lemma parseFlags_rest: "snd (parseFlags cs out) = dropWhile isFlag cs"
  by (induction cs arbitrary: out) auto

lemma conversion_plain:
  "k \<in> set conversions \<Longrightarrow> k \<noteq> CHR ''%'' \<and> \<not> isFlag k \<and> \<not> isdigit k \<and> k \<noteq> CHR ''.''"
  by (auto simp: conversions_def isFlag_def isdigit_def byte_of_def)

lemma percent_plain: "\<not> isFlag (CHR ''%'')" "\<not> isdigit (CHR ''%'')"
  by (simp_all add: isFlag_def isdigit_def byte_of_def)

lemma parsed_scan:
  assumes "parseFormatSpec (CHR ''%'' # r) = Inr fs"
  shows "\<exists>k. scanSpecifier r = [k] \<and> k \<in> set conversions"
proof -
  obtain out r1 where fl: "parseFlags r newFormatSpec = (out, r1)" by fastforce
  then have r1: "r1 = dropWhile isFlag r" using parseFlags_rest[of r newFormatSpec] by simp
  from assms fl obtain out1 out2 r2 where
      p: "parsePrecision out1 (dropWhile isdigit r1) = Inr (out2, r2)"
      and k: "(case r2 of
                 [k] \<Rightarrow> if k \<in> set conversions then Inr (out2\<lparr>fs_conversion := k\<rparr>) else Inl (unsupportedSpec (CHR ''%'' # r))
               | _ \<Rightarrow> Inl (unsupportedSpec (CHR ''%'' # r))) = Inr fs"
    by (auto simp: parseFormatSpec_def Let_def split: if_splits)
  then have "scanSpecifier r = r2"
    by (auto simp: parsePrecision_def scanSpecifier_def r1 Let_def split: if_splits)
  moreover from k have "\<exists>k. r2 = [k] \<and> k \<in> set conversions" by (auto split: list.splits if_splits)
  ultimately show ?thesis by simp
qed

lemma dropWhile_extend: "dropWhile P xs \<noteq> [] \<Longrightarrow> dropWhile P (xs @ ys) = dropWhile P xs @ ys"
  by (metis dropWhile_append1 dropWhile_eq_Nil_conv)

lemma scan_extend:
  assumes "scanSpecifier r \<noteq> []"
  shows "scanSpecifier (r @ rest) = scanSpecifier r @ rest"
proof -
  let ?a = "dropWhile isFlag r" and ?b = "dropWhile isdigit (dropWhile isFlag r)"
  have b: "?b \<noteq> []"
  proof
    assume "?b = []"
    then show False using assms by (simp add: scanSpecifier_def Let_def del: dropWhile_eq_Nil_conv)
  qed
  then have "?a \<noteq> []" by (metis dropWhile.simps(1))
  then have "dropWhile isdigit (dropWhile isFlag (r @ rest)) = ?b @ rest"
    using b by (simp add: dropWhile_extend)
  then show ?thesis
    using assms b by (simp add: scanSpecifier_def Let_def dropWhile_extend del: dropWhile_eq_Nil_conv split: if_splits)
qed

lemma loop_literal:
  "unescapePercent lit = Inr l \<Longrightarrow>
   stringFormatLoop ops fmt (lit @ rest) vs = bindE (stringFormatLoop ops fmt rest vs) (\<lambda>s. Inr (l @ s))"
proof (induction lit arbitrary: l rule: unescapePercent.induct)
  case 1
  then show ?case by (cases "stringFormatLoop ops fmt rest vs") simp_all
next
  case (2 c cs)
  show ?case
  proof (cases "c = CHR ''%''")
    case False
    then show ?thesis using 2(1,3) by (cases "stringFormatLoop ops fmt rest vs") auto
  next
    case True
    then obtain ds l' where "cs = CHR ''%'' # ds" "unescapePercent ds = Inr l'" "l = CHR ''%'' # l'"
      using 2(3) by (auto split: list.splits if_splits)
    then show ?thesis using 2(2)[of "CHR ''%''" ds l'] True by (cases "stringFormatLoop ops fmt rest vs") auto
  qed
qed

lemma loop_spec:
  assumes spec: "parseFormatSpec (CHR ''%'' # r) = Inr fs"
  shows "stringFormatLoop ops fmt (CHR ''%'' # r @ rest) (v # vs) =
    bindE (formatOne ops fs v) (\<lambda>s. bindE (stringFormatLoop ops fmt rest vs) (\<lambda>t. Inr (s @ t)))"
proof -
  from parsed_scan[OF spec] obtain k where k: "scanSpecifier r = [k]" "k \<in> set conversions" by blast
  then have r: "r \<noteq> []" by (auto simp: scanSpecifier_def)
  have "hd r \<noteq> CHR ''%''"
  proof
    assume "hd r = CHR ''%''"
    with r have "scanSpecifier r = r" using percent_plain by (cases r) (simp_all add: scanSpecifier_def)
    with k \<open>hd r = CHR ''%''\<close> show False using conversion_plain by fastforce
  qed
  moreover have "scanSpecifier (r @ rest) = k # rest" using scan_extend[of r rest] k by simp
  moreover have "take (Suc (length r + length rest - Suc (length rest))) (r @ rest) = r"
    using r by (cases r) simp_all
  ultimately show ?thesis using r spec by (simp add: invalidToScala_def Let_def)
qed

fun interleave :: "byte_string list \<Rightarrow> byte_string list \<Rightarrow> byte_string" where
  "interleave (l # ls) (s # ss) = l @ s @ interleave ls ss"
| "interleave ls ss = concat ls"

lemma checkSpecs_parsed:
  "checkSpecs specs = Inr () \<Longrightarrow> spec \<in> set specs \<Longrightarrow> spec \<noteq> [] \<Longrightarrow> \<exists>fs. parseFormatSpec spec = Inr fs"
  by (induction specs)
     (auto simp: invalidToCompile_def split: if_splits sum.splits FormatError.splits)

lemma pieces_agree:
  assumes "length literals = Suc (length specs)" "length vs = length specs" "[] \<notin> set specs"
    "\<And>spec. spec \<in> set specs \<Longrightarrow> \<exists>fs. parseFormatSpec spec = Inr fs"
    "formatPieces literals vs specs = Inr (ps, final)"
  shows "stringFormatLoop ops fmt (interleave literals specs) vs = primFmt ops ps final"
  using assms
proof (induction literals vs specs arbitrary: ps final rule: formatPieces.induct)
  case (1 lit lits v vs spec specs)
  from 1(6) obtain l ps' where l: "unescapePercent lit = Inr l" "formatPieces lits vs specs = Inr (ps', final)"
      "ps = (l, v, spec) # ps'"
    by (auto split: prod.splits)
  obtain fs where fs: "parseFormatSpec spec = Inr fs" using 1(5) by force
  have "spec \<noteq> []" using 1(4) by auto
  then obtain r where r: "spec = CHR ''%'' # r"
    using fs by (cases spec) (auto simp: parseFormatSpec_def split: if_splits)
  have "stringFormatLoop ops fmt (interleave lits specs) vs = primFmt ops ps' final"
    using 1 l by auto
  then show ?case
    using loop_literal[OF l(1), of ops fmt "spec @ interleave lits specs" "v # vs"] fs
      loop_spec[of r fs ops fmt "interleave lits specs" v vs]
    by (cases "formatOne ops fs v"; cases "primFmt ops ps' final") (simp_all add: l(3) r)
qed (use loop_literal[of _ _ ops fmt "[]" "[]"] in auto)

subsection \<open>Printing a specifier\<close>

definition flagText :: "FormatSpec \<Rightarrow> byte_string" where
  "flagText fs =
     (if fs_leftAlign fs then ''-'' else []) @ (if fs_plusSign fs then ''+'' else []) @
     (if fs_spaceSign fs then '' '' else []) @ (if fs_zeroPad fs then ''0'' else []) @
     (if fs_grouping fs then '','' else []) @ (if fs_alternate fs then ''#'' else [])"

definition specText :: "FormatSpec \<Rightarrow> byte_string" where
  "specText fs =
     ''%'' @ flagText fs @ (if fs_width fs < 0 then [] else natToString (nat (fs_width fs))) @
     (if fs_precision fs < 0 then [] else ''.'' @ natToString (nat (fs_precision fs))) @ [fs_conversion fs]"

definition validSpec :: "FormatSpec \<Rightarrow> bool" where
  "validSpec fs \<longleftrightarrow>
     fs_conversion fs \<in> set conversions \<and>
     (fs_width fs = -1 \<or> 1 \<le> fs_width fs \<and> fs_width fs \<le> 2147483647) \<and>
     (fs_precision fs = -1 \<or> 0 \<le> fs_precision fs \<and> fs_precision fs \<le> 2147483647)"

lemma leading_digit: "0 < n \<Longrightarrow> hd (natToString n) \<noteq> CHR ''0''"
proof (induction n rule: natToString.induct)
  case (1 n)
  show ?case
  proof (cases "n < 10")
    case True
    have "CHR ''0'' = digitChar 0" by code_simp
    then have "digitChar n \<noteq> CHR ''0''"
      using 1(2) True by (metis byte_of_digitChar add_left_cancel less_numeral_extra(3) zero_less_numeral)
    then show ?thesis using True by (subst natToString.simps) simp
  next
    case False
    then show ?thesis using 1 by (subst natToString.simps) (simp add: div_greater_zero_iff)
  qed
qed

lemma digit_flag: "isdigit c \<Longrightarrow> c \<noteq> CHR ''0'' \<Longrightarrow> \<not> isFlag c"
  by (auto simp: isFlag_def isdigit_def byte_of_def)

lemma width_no_flag: "0 < n \<Longrightarrow> \<not> isFlag (hd (natToString n))"
  using leading_digit[of n] natToString_digits[of n] digit_flag[of "hd (natToString n)"]
  by (cases "natToString n") auto

lemma parseFlags_text:
  "rest \<noteq> [] \<Longrightarrow> \<not> isFlag (hd rest) \<Longrightarrow>
   parseFlags (flagText fs @ rest) newFormatSpec =
     (newFormatSpec\<lparr>fs_leftAlign := fs_leftAlign fs, fs_plusSign := fs_plusSign fs, fs_spaceSign := fs_spaceSign fs,
        fs_zeroPad := fs_zeroPad fs, fs_grouping := fs_grouping fs, fs_alternate := fs_alternate fs\<rparr>, rest)"
  by (cases rest) (auto simp: flagText_def isFlag_def setFlag_def newFormatSpec_def)

lemma number_split:
  "t \<noteq> [] \<Longrightarrow> \<not> isdigit (hd t) \<Longrightarrow> takeWhile isdigit (natToString n @ t) = natToString n"
  "t \<noteq> [] \<Longrightarrow> \<not> isdigit (hd t) \<Longrightarrow> dropWhile isdigit (natToString n @ t) = t"
  using natToString_digits[of n] by (cases t; simp add: takeWhile_append2 dropWhile_append2 list_all_iff)+

lemma stoi_number: "0 \<le> w \<Longrightarrow> w \<le> 2147483647 \<Longrightarrow> stoi (natToString (nat w)) = Inr w"
  by (simp add: stoi_def)

lemma precision_text:
  assumes "k \<in> set conversions" "p = -1 \<or> 0 \<le> p \<and> p \<le> 2147483647" "fs_precision out = -1"
  shows "parsePrecision out ((if p < 0 then [] else ''.'' @ natToString (nat p)) @ [k]) =
    Inr (out\<lparr>fs_precision := p\<rparr>, [k])"
proof (cases "p = -1")
  case True
  then show ?thesis using assms(3) conversion_plain[OF assms(1)] by (simp add: parsePrecision_def)
next
  case False
  have k: "[k] \<noteq> []" "\<not> isdigit (hd [k])" using conversion_plain[OF assms(1)] by simp_all
  show ?thesis
    using False assms(2) stoi_number[of p] number_split[OF k, of "nat p"] by (simp add: parsePrecision_def Let_def)
qed

lemma specText_parsed:
  assumes "validSpec fs"
  shows "parseFormatSpec (specText fs) = Inr fs"
proof -
  let ?k = "fs_conversion fs" and ?w = "fs_width fs" and ?p = "fs_precision fs"
  define prec where "prec = (if ?p < 0 then [] else ''.'' @ natToString (nat ?p)) @ [?k]"
  have k: "?k \<in> set conversions" using assms by (simp add: validSpec_def)
  have p: "?p = -1 \<or> 0 \<le> ?p \<and> ?p \<le> 2147483647" using assms by (simp add: validSpec_def)
  have prec: "prec \<noteq> []" "\<not> isdigit (hd prec)" "\<not> isFlag (hd prec)"
    using conversion_plain[OF k] by (auto simp: prec_def isdigit_def isFlag_def byte_of_def)
  have w0: "\<not> ?w < 0 \<Longrightarrow> 0 < nat ?w" using assms by (auto simp: validSpec_def)
  define rest where "rest = (if ?w < 0 then [] else natToString (nat ?w)) @ prec"
  have rest: "rest \<noteq> []" "\<not> isFlag (hd rest)"
    using prec width_no_flag[of "nat ?w"] w0 by (simp_all add: hd_append rest_def)
  have digits: "takeWhile isdigit rest = (if ?w < 0 then [] else natToString (nat ?w))"
    "dropWhile isdigit rest = prec"
    unfolding rest_def using prec number_split[of prec "nat ?w"] by (cases prec; simp)+
  have spelled: "specText fs = CHR ''%'' # flagText fs @ rest" by (simp add: specText_def prec_def rest_def)
  have w: "?w = -1 \<or> 0 \<le> ?w \<and> ?w \<le> 2147483647" using assms by (auto simp: validSpec_def)
  define out where "out = newFormatSpec\<lparr>fs_leftAlign := fs_leftAlign fs, fs_plusSign := fs_plusSign fs,
    fs_spaceSign := fs_spaceSign fs, fs_zeroPad := fs_zeroPad fs, fs_grouping := fs_grouping fs,
    fs_alternate := fs_alternate fs\<rparr>"
  have out: "fs_precision out = -1" "fs_width out = -1" by (simp_all add: out_def newFormatSpec_def)
  have width: "(if takeWhile isdigit rest = [] then Inr out
      else bindE (stoi (takeWhile isdigit rest)) (\<lambda>w. Inr (out\<lparr>fs_width := w\<rparr>))) = Inr (out\<lparr>fs_width := ?w\<rparr>)"
    using w out stoi_number[of ?w] by (cases "?w = -1") (simp_all add: digits)
  have "parsePrecision (out\<lparr>fs_width := ?w\<rparr>) (dropWhile isdigit rest) =
      Inr (out\<lparr>fs_width := ?w, fs_precision := ?p\<rparr>, [?k])"
    unfolding digits prec_def by (rule precision_text[OF k p]) (simp add: out)
  moreover have "out\<lparr>fs_width := ?w, fs_precision := ?p, fs_conversion := ?k\<rparr> = fs"
    by (cases fs) (simp add: out_def newFormatSpec_def)
  ultimately show ?thesis
    using k width parseFlags_text[OF rest, of fs] unfolding spelled parseFormatSpec_def out_def[symmetric]
    by (simp add: Let_def)
qed

lemma parseFlags_left:
  "parseFlags cs out = (out', r) \<Longrightarrow>
   fs_width out' = fs_width out \<and> fs_precision out' = fs_precision out \<and> (r = [] \<or> \<not> isFlag (hd r))"
  by (induction cs arbitrary: out) (auto simp: setFlag_def split: if_splits)

lemma decimalValue_pos:
  assumes "isdigit c" "c \<noteq> CHR ''0''"
  shows "0 < decimalValue (c # cs)"
proof -
  have grows: "v \<le> foldl (\<lambda>v c. v * 10 + (byte_of c - 48)) v cs" for v :: nat
  proof (induction cs arbitrary: v)
    case (Cons c cs)
    have "v \<le> v * 10 + (byte_of c - 48)" by simp
    also have "\<dots> \<le> foldl (\<lambda>v c. v * 10 + (byte_of c - 48)) (v * 10 + (byte_of c - 48)) cs" by (rule Cons)
    finally show ?case by simp
  qed simp
  have "CHR ''0'' = char_of (48 :: nat)" by code_simp
  then have "byte_of c \<noteq> 48" using assms(2) char_of_byte[of c] by metis
  then have "0 < byte_of c - 48" using assms(1) by (auto simp: isdigit_def)
  then show ?thesis using grows[of "byte_of c - 48"] by (simp add: decimalValue_def)
qed

lemma parsePrecision_range:
  assumes "parsePrecision out r = Inr (out', r')" "fs_precision out = -1"
  shows "fs_width out' = fs_width out \<and> (fs_precision out' = -1 \<or> 0 \<le> fs_precision out' \<and> fs_precision out' \<le> 2147483647)"
  using assms by (auto simp: parsePrecision_def stoi_def Let_def split: if_splits)

lemma one_conversion:
  "(case r of [k] \<Rightarrow> if P k then Inr (f k) else Inl e | _ \<Rightarrow> Inl e) = Inr x \<longleftrightarrow> (\<exists>k. r = [k] \<and> P k \<and> x = f k)"
  by (auto split: list.split)

lemma parsed_valid:
  assumes "parseFormatSpec spec = Inr fs"
  shows "validSpec fs"
proof (cases spec)
  case Nil
  then show ?thesis using assms by (auto simp: parseFormatSpec_def validSpec_def conversions_def newFormatSpec_def)
next
  case (Cons c cs)
  obtain out r where flags: "parseFlags cs newFormatSpec = (out, r)" by fastforce
  note kept = parseFlags_left[OF flags]
  let ?ds = "takeWhile isdigit r"
  have lead: "1 \<le> int (decimalValue ?ds)" if some: "?ds \<noteq> []"
  proof -
    obtain d ds where r: "r = d # ds" using some by (cases r) auto
    with some have d: "isdigit d" by (auto split: if_splits)
    from r have "d \<noteq> CHR ''0''" using kept by (auto simp: isFlag_def)
    then show ?thesis using r d decimalValue_pos[of d "takeWhile isdigit ds"] by simp
  qed
  from assms Cons flags obtain out1 out2 k
    where width: "(if ?ds = [] then Inr out else bindE (stoi ?ds) (\<lambda>w. Inr (out\<lparr>fs_width := w\<rparr>))) = Inr out1"
      and prec: "parsePrecision out1 (dropWhile isdigit r) = Inr (out2, [k])"
      and k: "k \<in> set conversions" "fs = out2\<lparr>fs_conversion := k\<rparr>"
    by (auto simp: parseFormatSpec_def Let_def one_conversion split: if_splits)
  have "fs_precision out1 = -1 \<and> (fs_width out1 = -1 \<or> 1 \<le> fs_width out1 \<and> fs_width out1 \<le> 2147483647)"
    using width kept lead by (auto simp: stoi_def newFormatSpec_def split: if_splits)
  then show ?thesis using parsePrecision_range[OF prec] k by (auto simp: validSpec_def)
qed

text \<open>
  C28: the specifiers the parser returns are exactly those with a supported conversion, no width or one from 1 to
  \<open>2\<^sup>3\<^sup>1 - 1\<close>, and no precision or one from 0 to \<open>2\<^sup>3\<^sup>1 - 1\<close>, with any flags; and each of them is read back
  from its text.  A width of 0, which the record could hold, is not among them: the digit is a flag.
\<close>

theorem formatSpec_roundtrip:
  "((\<exists>spec. parseFormatSpec spec = Inr fs) \<longleftrightarrow> validSpec fs) \<and>
   (validSpec fs \<longrightarrow> parseFormatSpec (specText fs) = Inr fs)"
  using parsed_valid specText_parsed by blast

theorem formatSpec_roundtrip_witness:
  "parseFormatSpec ''%+07.2f'' =
     Inr (newFormatSpec\<lparr>fs_conversion := CHR ''f'', fs_plusSign := True, fs_zeroPad := True, fs_width := 7,
          fs_precision := 2\<rparr>)"
proof -
  let ?fs = "newFormatSpec\<lparr>fs_conversion := CHR ''f'', fs_plusSign := True, fs_zeroPad := True, fs_width := 7,
      fs_precision := 2\<rparr>"
  have "natToString 7 = ''7''" "natToString 2 = ''2''" by code_simp+
  then have "specText ?fs = ''%+07.2f''" by (simp add: specText_def flagText_def newFormatSpec_def)
  moreover have "validSpec ?fs" by (simp add: validSpec_def conversions_def newFormatSpec_def)
  ultimately show ?thesis using formatSpec_roundtrip[of ?fs] by metis
qed

text \<open>
  C27: \<^verbatim>\<open>String.format\<close> and the interpolator agree.  When the compiler accepts an interpolation in which every
  hole has a specifier, formatting the text of its literals and specifiers with \<^verbatim>\<open>String.format\<close> gives what
  the compiled \<^verbatim>\<open>__fmt\<close> call gives, the error of a value that does not fit included.
\<close>

theorem format_agrees_with_interpolator:
  assumes "length literals = Suc (length specs)" "length vs = length specs" "[] \<notin> set specs"
    and "compileFormat literals vs specs = Inr (ps, final)"
  shows "stringFormat ops (interleave literals specs) vs = primFmt ops ps final"
proof -
  from assms(4) have "checkSpecs specs = Inr ()" "formatPieces literals vs specs = Inr (ps, final)"
    by (auto simp: compileFormat_def)
  then show ?thesis
    unfolding stringFormat_def using assms(1-3) by (intro pieces_agree) (auto dest: checkSpecs_parsed)
qed

definition natOps :: "int ValueOps" where
  "natOps =
     \<lparr>vo_show = intToString, vo_typeName = (\<lambda>_. ''Int''), vo_falsy = (\<lambda>_. False), vo_charValue = (\<lambda>_. None),
      vo_isInteger = (\<lambda>_. True), vo_isNumber = (\<lambda>_. True), vo_integerString = (\<lambda>_. intToString),
      vo_printf = (\<lambda>_ _. intToString)\<rparr>"

theorem format_agrees_with_interpolator_witness:
  "stringFormat natOps ''n=%03d%%'' [7] = primFmt natOps [(''n='', 7, ''%03d'')] ''%'' \<and>
   primFmt natOps [(''n='', 7, ''%03d'')] ''%'' = Inr ''n=007%''"
proof -
  have "compileFormat [''n='', ''%%''] [7 :: int] [''%03d''] = Inr ([(''n='', 7, ''%03d'')], ''%'')" by code_simp
  moreover have "interleave [''n='', ''%%''] [''%03d''] = ''n=%03d%%''" by simp
  moreover have "primFmt natOps [(''n='', 7, ''%03d'')] ''%'' = Inr ''n=007%''" by code_simp
  ultimately show ?thesis
    using format_agrees_with_interpolator[of "[''n='', ''%%'']" "[''%03d'']" "[7]" "[(''n='', 7, ''%03d'')]" "''%''" natOps]
    by simp
qed

subsection \<open>Numbers\<close>

lemma pad_length: "length (pad body spec) = max (nat (fs_width spec)) (length body)"
  by (auto simp: pad_def Let_def)

lemma padNumeric_length:
  "length (padNumeric sign body spec) = max (nat (fs_width spec)) (length sign + length body)"
  by (auto simp: padNumeric_def pad_length Let_def)

text \<open>The groups of three, from the right.\<close>

fun groupedRight :: "byte_string \<Rightarrow> byte_string" where
  "groupedRight ds =
     (if length ds \<le> 3 then ds
      else groupedRight (take (length ds - 3) ds) @ '','' @ drop (length ds - 3) ds)"

declare groupedRight.simps [simp del]

lemma groupDigits_short: "length ds \<le> 3 \<Longrightarrow> groupDigits ds = ds"
proof -
  assume "length ds \<le> 3"
  then consider "ds = []" | a where "ds = [a]" | a b where "ds = [a, b]" | a b c where "ds = [a, b, c]"
    by (cases ds rule: remdups_adj.cases; cases "tl (tl ds)") auto
  then show ?thesis by cases (simp_all add: groupDigits_def)
qed

lemma groupDigits_step:
  assumes "3 < length ds"
  shows "groupDigits ds = groupDigits (take (length ds - 3) ds) @ '','' @ drop (length ds - 3) ds"
proof -
  let ?m = "length ds - 3"
  define piece where "piece n xs k = (if k > 0 \<and> (n - k) mod 3 = 0 then '','' else []) @ [xs ! k]"
    for n k :: nat and xs :: byte_string
  have split: "[0..<length ds] = [0..<?m] @ [?m, Suc ?m, Suc (Suc ?m)]"
  proof -
    have "[0..<length ds] = [0..<?m] @ [?m..<?m + 3]" using assms upt_add_eq_append[of 0 ?m 3] by simp
    also have "[?m..<?m + 3] = [?m, Suc ?m, Suc (Suc ?m)]" by (simp add: upt_conv_Cons numeral_3_eq_3)
    finally show ?thesis .
  qed
  have "map (piece (length ds) ds) [0..<?m] = map (piece ?m (take ?m ds)) [0..<?m]"
  proof (rule map_cong[OF refl])
    fix k assume "k \<in> set [0..<?m]"
    then have k: "k < ?m" by simp
    then have "length ds - k = (?m - k) + 3" using assms by linarith
    then have "(length ds - k) mod 3 = (?m - k) mod 3" by (metis mod_add_self2)
    then show "piece (length ds) ds k = piece ?m (take ?m ds) k" using k by (simp add: piece_def)
  qed
  moreover have "concat (map (piece (length ds) ds) [?m, Suc ?m, Suc (Suc ?m)]) = '','' @ drop ?m ds"
  proof -
    have "drop ?m ds = [ds ! ?m, ds ! Suc ?m, ds ! Suc (Suc ?m)]"
      using assms by (simp add: Cons_nth_drop_Suc[symmetric])
    moreover have "length ds - ?m = 3" "length ds - Suc ?m = 2" "length ds - Suc (Suc ?m) = 1" using assms by linarith+
    ultimately show ?thesis using assms by (simp add: piece_def)
  qed
  moreover have whole: "groupDigits xs = concat (map (piece (length xs) xs) [0..<length xs])" for xs
    by (simp add: groupDigits_def piece_def[abs_def] Let_def)
  moreover have "length (take ?m ds) = ?m" by simp
  ultimately show ?thesis unfolding whole split by (simp only: map_append concat_append)
qed

lemma groupDigits_right: "groupDigits ds = groupedRight ds"
proof (induction ds rule: groupedRight.induct)
  case (1 ds)
  then show ?case
    using groupDigits_short[of ds] groupDigits_step[of ds] by (subst groupedRight.simps) simp
qed

lemma groupedRight_digits: "CHR '','' \<notin> set ds \<Longrightarrow> filter (\<lambda>c. c \<noteq> CHR '','') (groupedRight ds) = ds"
proof (induction ds rule: groupedRight.induct)
  case (1 ds)
  show ?case
  proof (cases "length ds \<le> 3")
    case True
    then show ?thesis using 1(2) by (subst groupedRight.simps) (auto intro!: filter_True)
  next
    case False
    have "filter (\<lambda>c. c \<noteq> CHR '','') (drop k ds) = drop k ds" for k
      using 1(2) by (auto intro!: filter_True dest: in_set_dropD)
    moreover have "CHR '','' \<notin> set (take k ds)" for k using 1(2) by (auto dest: in_set_takeD)
    ultimately show ?thesis using False 1(1)[OF False] by (subst groupedRight.simps) simp
  qed
qed

lemma decimalValue_zeros: "decimalValue (replicate n (CHR ''0'') @ ds) = decimalValue ds"
proof -
  have "foldl (\<lambda>v c. v * 10 + (byte_of c - 48)) 0 (replicate n (CHR ''0'')) = 0"
    by (induction n) (simp_all add: byte_of_def)
  then show ?thesis by (simp add: decimalValue_def)
qed

text \<open>Reading a printed decimal number: blanks and separators are skipped, a sign is optional.\<close>

definition readInteger :: "byte_string \<Rightarrow> int" where
  "readInteger s =
     (let t = filter (\<lambda>c. c \<noteq> CHR '','') (filter (\<lambda>c. c \<noteq> CHR '' '') s)
      in if t \<noteq> [] \<and> hd t = CHR ''-'' then - int (decimalValue (tl t))
         else if t \<noteq> [] \<and> hd t = CHR ''+'' then int (decimalValue (tl t))
         else int (decimalValue t))"

lemma read_padded: "readInteger (pad body spec) = readInteger body"
  by (auto simp: readInteger_def pad_def Let_def)

definition digitsOf :: "FormatSpec \<Rightarrow> nat \<Rightarrow> byte_string" where
  "digitsOf spec n = (if fs_grouping spec then groupDigits (natToString n) else natToString n)"

lemma digitsOf_plain:
  "filter (\<lambda>c. c \<noteq> CHR '','') (digitsOf spec n) = natToString n" "CHR '' '' \<notin> set (digitsOf spec n)"
proof -
  have free: "c \<notin> set (natToString n)" if "c \<in> {CHR '','', CHR '' ''}" for c
    using that by (intro natToString_free) (auto simp: isdigit_def byte_of_def)
  then show f: "filter (\<lambda>c. c \<noteq> CHR '','') (digitsOf spec n) = natToString n"
    by (auto simp: digitsOf_def groupDigits_right groupedRight_digits intro!: filter_True)
  have "CHR '' '' \<in> set (digitsOf spec n) \<longleftrightarrow> CHR '' '' \<in> set (filter (\<lambda>c. c \<noteq> CHR '','') (digitsOf spec n))" by simp
  then show "CHR '' '' \<notin> set (digitsOf spec n)" unfolding f using free by simp
qed

lemma read_number:
  assumes "sign \<in> {[], ''+'', '' '', ''-''}"
  shows "readInteger (sign @ replicate z (CHR ''0'') @ digitsOf spec n) =
    (if sign = ''-'' then - int n else int n)"
proof -
  have "filter (\<lambda>c. c \<noteq> CHR '' '') (digitsOf spec n) = digitsOf spec n"
    using digitsOf_plain(2) by (intro filter_True) auto
  then have t: "filter (\<lambda>c. c \<noteq> CHR '','') (filter (\<lambda>c. c \<noteq> CHR '' '') (replicate z (CHR ''0'') @ digitsOf spec n)) =
      replicate z (CHR ''0'') @ natToString n"
    by (simp add: digitsOf_plain(1))
  have hd: "hd (replicate z (CHR ''0'') @ natToString n) \<notin> {CHR ''-'', CHR ''+''}"
    using natToString_digits[of n] by (cases z; cases "natToString n") (auto simp: isdigit_def byte_of_def)
  show ?thesis
    using assms t hd by (auto simp: readInteger_def Let_def decimalValue_zeros)
qed

text \<open>
  C30: a value printed with \<open>%d\<close> has at least the width asked for and reads back as the value, whatever the flags:
  padding with blanks or zeros, grouping, and an explicit sign never change the number.
\<close>

theorem decimal_reads_back:
  assumes "vo_integerString ops 10 v = intToString i" "vo_isInteger ops v" "fs_conversion spec = CHR ''d''"
  shows "\<exists>s. formatOne ops spec v = Inr s \<and> readInteger s = i \<and> fs_width spec \<le> int (length s)"
proof -
  define sign where
    "sign = (if i < 0 then ''-'' else if fs_plusSign spec then ''+'' else if fs_spaceSign spec then '' '' else [])"
  have sign: "sign \<in> {[], ''+'', '' '', ''-''}" "sign = ''-'' \<longleftrightarrow> i < 0" by (auto simp: sign_def)
  have split: "signOf (intToString i) spec = (sign, natToString (nat \<bar>i\<bar>))"
    using natToString_not_minus[of "nat i"]
    by (cases "natToString (nat i)") (auto simp: signOf_def intToString_def sign_def)
  let ?n = "nat \<bar>i\<bar>"
  have form: "formatOne ops spec v = Inr (padNumeric sign (digitsOf spec ?n) spec)"
    using assms split by (simp add: formatOne_def formatInteger_def digitsOf_def Let_def)
  obtain z where "readInteger (padNumeric sign (digitsOf spec ?n) spec) =
      readInteger (sign @ replicate z (CHR ''0'') @ digitsOf spec ?n)"
  proof -
    have "padNumeric sign (digitsOf spec ?n) spec =
        pad (sign @ replicate (if fs_width spec \<ge> 0 \<and> fs_zeroPad spec \<and> \<not> fs_leftAlign spec
          then nat (fs_width spec - int (length sign + length (digitsOf spec ?n))) else 0) (CHR ''0'') @
          digitsOf spec ?n) spec"
      by (auto simp: padNumeric_def Let_def)
    then show ?thesis using that read_padded by metis
  qed
  then have "readInteger (padNumeric sign (digitsOf spec ?n) spec) = i"
    using read_number[OF sign(1), of z spec ?n] sign(2) by auto
  moreover have "fs_width spec \<le> int (length (padNumeric sign (digitsOf spec ?n) spec))"
    by (simp add: padNumeric_length)
  ultimately show ?thesis using form by blast
qed

theorem decimal_reads_back_witness:
  "\<exists>s. formatOne natOps (newFormatSpec\<lparr>fs_conversion := CHR ''d'', fs_grouping := True, fs_zeroPad := True,
      fs_width := 12\<rparr>) (-1234567) = Inr s \<and> readInteger s = -1234567 \<and> 12 \<le> int (length s)"
  using decimal_reads_back[of natOps "-1234567" "-1234567"
      "newFormatSpec\<lparr>fs_conversion := CHR ''d'', fs_grouping := True, fs_zeroPad := True, fs_width := 12\<rparr>"]
  by (simp add: natOps_def)

text \<open>
  C33: a width that does not fit an \<^verbatim>\<open>int\<close> is not reported as a bad specifier.  The parser lets the
  \<^verbatim>\<open>std::out_of_range\<close> of \<^verbatim>\<open>std::stoi\<close> out; neither the compiler's check nor \<^verbatim>\<open>String.format\<close> turns it into their own error.
\<close>

theorem wide_specifier_escapes:
  assumes "2147483648 \<le> n"
  shows "let spec = ''%'' @ natToString n @ ''d'' in
    parseFormatSpec spec = Inl OutOfRange \<and>
    compileFormat [[], []] [v] [spec] = Inl OutOfRange \<and> stringFormat ops spec [v] = Inl OutOfRange"
proof -
  let ?spec = "CHR ''%'' # natToString n @ ''d''"
  have d: "\<not> isdigit (hd ''d'')" "\<not> isFlag (CHR ''d'')" by (simp_all add: isdigit_def isFlag_def byte_of_def)
  note split = number_split[of "''d''" n, OF _ d(1)]
  obtain c cs where n: "natToString n = c # cs" by (cases "natToString n") simp_all
  have c: "\<not> isFlag c" "isdigit c" using width_no_flag[of n] natToString_digits[of n] assms n by auto
  have "parseFlags (natToString n @ ''d'') newFormatSpec = (newFormatSpec, natToString n @ ''d'')"
    by (simp add: n c)
  moreover have "stoi (natToString n) = Inl OutOfRange" using assms by (simp add: stoi_def)
  ultimately have parse: "parseFormatSpec ?spec = Inl OutOfRange"
    using split by (simp add: parseFormatSpec_def Let_def)
  have "scanSpecifier (natToString n @ ''d'') = ''d''"
    using split n c by (simp add: scanSpecifier_def Let_def)
  moreover have "c \<noteq> CHR ''%''" using c percent_plain by auto
  ultimately show ?thesis
    using n parse by (simp add: compileFormat_def invalidToCompile_def stringFormat_def invalidToScala_def Let_def)
qed

theorem wide_specifier_escapes_witness:
  "parseFormatSpec (''%'' @ natToString 9999999999 @ ''d'') = Inl OutOfRange"
  using wide_specifier_escapes[of 9999999999 "0 :: int" natOps] by (simp add: Let_def)

text \<open>The first bytes of an encoded character are no character.\<close>

lemma cut_encoding:
  assumes "cp \<le> 0x10FFFF" "0 < k" "k < length (appendUtf8 [] cp)"
  shows "decodeUtf8 (pre @ take k (appendUtf8 [] cp)) (length pre) = None"
proof -
  have cp: "cp < 1114112" using assms(1) by simp
  consider "cp < 0x80" | "0x80 \<le> cp" "cp < 0x800" | "0x800 \<le> cp" "cp < 0x10000" | "0x10000 \<le> cp" by linarith
  then show ?thesis
  proof cases
    case 1
    then show ?thesis using assms by (simp add: appendUtf8_def)
  next
    case 2
    then have "cp div 64 < 32" by (simp add: less_mult_imp_div_less)
    then show ?thesis using 2 cp assms(2,3)
      by (cases k) (auto simp: appendUtf8_arith decodeUtf8_def nth_append utf8Lead_arith)
  next
    case 3
    then have "cp div 4096 < 16" by (simp add: less_mult_imp_div_less)
    then show ?thesis using 3 cp assms(2,3)
      by (cases k) (auto simp: appendUtf8_arith decodeUtf8_def nth_append utf8Lead_arith)
  next
    case 4
    then have "cp div 262144 < 8" using cp by (simp add: less_mult_imp_div_less)
    then show ?thesis using 4 cp assms(2,3)
      by (cases k) (auto simp: appendUtf8_arith decodeUtf8_def nth_append utf8Lead_arith)
  qed
qed

text \<open>
  C34: a precision on \<open>%s\<close> counts bytes, not characters.  Whenever it falls inside the encoding of a character of
  the shown text, and no padding is asked for, the result is the text up to there, and the decoder refuses it at
  that character.
\<close>

theorem precision_cuts_a_character:
  assumes "vo_show ops v = before @ appendUtf8 [] cp @ after" "cp \<le> 0x10FFFF"
    and "fs_conversion spec = CHR ''s''" "fs_width spec \<le> fs_precision spec"
    and "int (length before) < fs_precision spec"
      "fs_precision spec < int (length before + length (appendUtf8 [] cp))"
  shows "\<exists>s. formatOne ops spec v = Inr s \<and> int (length s) = fs_precision spec \<and>
    decodeUtf8 s (length before) = None"
proof -
  define k where "k = nat (fs_precision spec) - length before"
  let ?cut = "before @ take k (appendUtf8 [] cp)"
  have k: "0 < k" "k < length (appendUtf8 [] cp)" "nat (fs_precision spec) = length before + k"
    using assms(5,6) by (auto simp: k_def)
  then have "take (nat (fs_precision spec)) (vo_show ops v) = ?cut" using assms(1) by simp
  moreover have "int (length (vo_show ops v)) > fs_precision spec" "0 \<le> fs_precision spec"
    using assms(1,5,6) by auto
  moreover have "pad ?cut spec = ?cut" using k assms(4,5) by (auto simp: pad_def)
  ultimately have "formatOne ops spec v = Inr ?cut" using assms(3) by (simp add: formatOne_def)
  moreover have "int (length ?cut) = fs_precision spec" using k assms(5) by auto
  ultimately show ?thesis using cut_encoding[OF assms(2) k(1,2), of before] by blast
qed

theorem precision_cuts_a_character_witness:
  "\<exists>s. formatOne (natOps\<lparr>vo_show := (\<lambda>_. ''caf'' @ appendUtf8 [] 233 @ ''s'')\<rparr>) (newFormatSpec\<lparr>fs_precision := 4\<rparr>) 0 =
     Inr s \<and> length s = 4 \<and> decodeUtf8 s 3 = None"
proof -
  have "length (appendUtf8 [] 233) = 2" by (simp add: appendUtf8_def)
  then show ?thesis
    using precision_cuts_a_character[of "natOps\<lparr>vo_show := (\<lambda>_. ''caf'' @ appendUtf8 [] 233 @ ''s'')\<rparr>" 0 "''caf''" 233
        "''s''" "newFormatSpec\<lparr>fs_precision := 4\<rparr>"]
    by (simp add: newFormatSpec_def numeral_3_eq_3)
qed

end
