(* ===== verification/DapTransport.thy ===== *)
theory DapTransport
  imports Prelude
begin

text \<open>
  The framing of debug-adapter messages, \<^verbatim>\<open>src/src/dap/DapTransport.cpp\<close>: a header block with a
  \<open>Content-Length\<close> line, an empty line, and that many bytes of JSON.  The input is the list of bytes still to be
  read.  JSON belongs to a library: its parser and its printer are parameters, and so is whether a string of a
  given length can be built, since the constructor of \<^verbatim>\<open>std::string\<close> throws when it cannot.

  Shown: whatever messages are written come back in order, byte for byte, and reading always ends; an announced
  length that cannot be allocated is an exception that leaves \<^verbatim>\<open>readMessage\<close>.
\<close>

subsection \<open>Header lines\<close>

definition newlineC :: char where "newlineC = CHR 0x0A"
definition returnC :: char where "returnC = CHR 0x0D"

text \<open>The line without its end, and the rest of the input; \<open>None\<close> when there was nothing to read.\<close>

definition stripReturn :: "byte_string \<Rightarrow> byte_string" where
  "stripReturn line = (if line \<noteq> [] \<and> last line = returnC then butlast line else line)"

definition readHeaderLine :: "byte_string \<Rightarrow> (byte_string \<times> byte_string) option" where
  "readHeaderLine s =
     (let line = takeWhile (\<lambda>c. c \<noteq> newlineC) s; rest = dropWhile (\<lambda>c. c \<noteq> newlineC) s
      in if rest \<noteq> [] then Some (stripReturn line, tl rest)
         else if s \<noteq> [] then Some (line, []) else None)"

definition lowerChar :: "char \<Rightarrow> char" where
  "lowerChar c = (if 65 \<le> byte_of c \<and> byte_of c \<le> 90 then char_of (byte_of c + 32) else c)"

fun iequals :: "byte_string \<Rightarrow> byte_string \<Rightarrow> bool" where
  "iequals [] [] \<longleftrightarrow> True"
| "iequals (a # as) (b # bs) \<longleftrightarrow> lowerChar a = lowerChar b \<and> iequals as bs"
| "iequals _ _ \<longleftrightarrow> False"

definition isspaceC :: "char \<Rightarrow> bool" where
  "isspaceC c \<longleftrightarrow> byte_of c = 32 \<or> 9 \<le> byte_of c \<and> byte_of c \<le> 13"

definition trim :: "byte_string \<Rightarrow> byte_string" where
  "trim s = rev (dropWhile isspaceC (rev (dropWhile isspaceC s)))"

text \<open>
  \<^verbatim>\<open>std::stoll\<close>: blanks, a sign, digits; what follows is ignored.  \<open>None\<close> is \<^verbatim>\<open>invalid_argument\<close> or \<^verbatim>\<open>out_of_range\<close>.
\<close>

definition stoll :: "byte_string \<Rightarrow> int option" where
  "stoll s =
     (let s = dropWhile isspaceC s;
          neg = (s \<noteq> [] \<and> hd s = CHR ''-'');
          s = (if s \<noteq> [] \<and> (hd s = CHR ''-'' \<or> hd s = CHR ''+'') then tl s else s);
          ds = takeWhile isdigit s;
          v = (if neg then - int (decimalValue ds) else int (decimalValue ds))
      in if ds = [] \<or> v < - 9223372036854775808 \<or> v > 9223372036854775807 then None else Some v)"

subsection \<open>Reading\<close>

text \<open>
  The header block: \<^const>\<open>Inl\<close> is \<^verbatim>\<open>return std::nullopt\<close> from inside it, with the input that is left; otherwise
  the announced length (\<open>-1\<close>: none was) and the input after the empty line.
\<close>

lemma readHeaderLine_shorter: "readHeaderLine s = Some (line, rest) \<Longrightarrow> length rest < length s"
proof -
  have "length (dropWhile (\<lambda>c. c \<noteq> newlineC) s) \<le> length s" by (rule length_dropWhile_le)
  then show "readHeaderLine s = Some (line, rest) \<Longrightarrow> length rest < length s"
    by (cases "dropWhile (\<lambda>c. c \<noteq> newlineC) s") (auto simp: readHeaderLine_def Let_def split: if_splits)
qed

definition headerValue :: "byte_string \<Rightarrow> (byte_string \<times> byte_string) option" where
  "headerValue line =
     (if CHR '':'' \<notin> set line then None
      else Some (trim (takeWhile (\<lambda>c. c \<noteq> CHR '':'') line), trim (tl (dropWhile (\<lambda>c. c \<noteq> CHR '':'') line))))"

function readHeaders :: "int \<Rightarrow> byte_string \<Rightarrow> byte_string + int \<times> byte_string" where
  "readHeaders contentLength s =
     (case readHeaderLine s of
        None \<Rightarrow> Inl []
      | Some (line, rest) \<Rightarrow>
          if line = [] then Inr (contentLength, rest)
          else case headerValue line of
                 None \<Rightarrow> readHeaders contentLength rest
               | Some (key, val) \<Rightarrow>
                   if iequals key ''Content-Length'' then
                     (case stoll val of None \<Rightarrow> Inl rest | Some n \<Rightarrow> readHeaders n rest)
                   else readHeaders contentLength rest)"
  by pat_completeness auto
termination
  by (relation "measure (\<lambda>(_, s). length s)") (auto dest: readHeaderLine_shorter)

declare readHeaders.simps [simp del]

datatype ReadFailure = CannotAllocate

text \<open>\<^const>\<open>Inl\<close> is an exception; \<open>None\<close> is \<^verbatim>\<open>std::nullopt\<close>.\<close>

definition readMessage ::
  "(nat \<Rightarrow> bool) \<Rightarrow> (byte_string \<Rightarrow> 'j option) \<Rightarrow> byte_string \<Rightarrow> ReadFailure + 'j option \<times> byte_string" where
  "readMessage canAllocate parse s =
     (case readHeaders (-1) s of
        Inl rest \<Rightarrow> Inr (None, rest)
      | Inr (n, rest) \<Rightarrow>
          if n < 0 then Inr (None, rest)
          else if \<not> canAllocate (nat n) then Inl CannotAllocate
          else if length rest < nat n then Inr (None, [])
          else Inr (parse (take (nat n) rest), drop (nat n) rest))"

text \<open>The adapter's loop: it stops at the first message that is none.\<close>

fun readMessages ::
  "nat \<Rightarrow> (nat \<Rightarrow> bool) \<Rightarrow> (byte_string \<Rightarrow> 'j option) \<Rightarrow> byte_string \<Rightarrow> ReadFailure + 'j list" where
  "readMessages 0 canAllocate parse s = Inr []"
| "readMessages (Suc n) canAllocate parse s =
     (case readMessage canAllocate parse s of
        Inl e \<Rightarrow> Inl e
      | Inr (None, rest) \<Rightarrow> Inr []
      | Inr (Some m, rest) \<Rightarrow> map_sum id (Cons m) (readMessages n canAllocate parse rest))"

subsection \<open>Writing\<close>

definition writeMessage :: "('j \<Rightarrow> byte_string) \<Rightarrow> 'j \<Rightarrow> byte_string" where
  "writeMessage dump msg =
     (let body = dump msg
      in ''Content-Length: '' @ natToString (length body) @ [returnC, newlineC, returnC, newlineC] @ body)"

subsection \<open>Lemmas\<close>

lemma digits_no_space: "c \<in> set (natToString n) \<Longrightarrow> \<not> isspaceC c \<and> c \<noteq> newlineC \<and> c \<noteq> returnC \<and> c \<noteq> CHR '':''"
  using natToString_digits[of n]
  by (auto simp: list_all_iff isdigit_def isspaceC_def newlineC_def returnC_def byte_of_def dest!: bspec)

lemma line_read:
  assumes "newlineC \<notin> set line" "line = [] \<or> last line \<noteq> returnC"
  shows "readHeaderLine (line @ returnC # newlineC # rest) = Some (line, rest)"
proof -
  have "takeWhile (\<lambda>c. c \<noteq> newlineC) (line @ returnC # newlineC # rest) = line @ [returnC]"
    "dropWhile (\<lambda>c. c \<noteq> newlineC) (line @ returnC # newlineC # rest) = newlineC # rest"
    using assms(1) by (subst takeWhile_append2 dropWhile_append2; auto simp: newlineC_def returnC_def)+
  then show ?thesis by (simp add: readHeaderLine_def stripReturn_def)
qed

lemma trim_blank_number: "trim (CHR '' '' # natToString n) = natToString n"
proof -
  have h: "\<not> isspaceC (hd (natToString n))" "\<not> isspaceC (hd (rev (natToString n)))"
    using digits_no_space[of "hd (natToString n)" n] digits_no_space[of "last (natToString n)" n]
    by (simp_all add: hd_rev)
  have "isspaceC (CHR '' '')" by (simp add: isspaceC_def byte_of_def)
  moreover have "dropWhile isspaceC (natToString n) = natToString n"
    using h(1) by (cases "natToString n") simp_all
  moreover have "dropWhile isspaceC (rev (natToString n)) = rev (natToString n)"
    using h(2) by (cases "rev (natToString n)") simp_all
  ultimately show ?thesis by (simp add: trim_def)
qed

lemma stoll_number: "int n \<le> 9223372036854775807 \<Longrightarrow> stoll (natToString n) = Some (int n)"
proof -
  assume n: "int n \<le> 9223372036854775807"
  obtain c cs where s: "natToString n = c # cs" by (cases "natToString n") simp_all
  have c: "isdigit c" using natToString_digits[of n] s by simp
  then have "c \<noteq> CHR ''-''" "c \<noteq> CHR ''+''" by (auto simp: isdigit_def byte_of_def)
  moreover have "\<not> isspaceC c" using digits_no_space[of c n] s by simp
  moreover have "takeWhile isdigit cs = cs"
    using natToString_digits[of n] s by (simp add: takeWhile_eq_all_conv list_all_iff)
  ultimately show ?thesis
    using n c decimalValue_natToString[of n] unfolding s by (simp add: stoll_def Let_def del: takeWhile_eq_all_conv)
qed

lemma length_header:
  "headerValue (''Content-Length: '' @ natToString n) = Some (''Content-Length'', natToString n)"
  using trim_blank_number[of n]
  by (simp add: headerValue_def) (simp add: trim_def isspaceC_def byte_of_def)

lemma frame_headers:
  assumes "int n \<le> 9223372036854775807"
  shows "readHeaders (-1) (''Content-Length: '' @ natToString n @ [returnC, newlineC, returnC, newlineC] @ rest) =
    Inr (int n, rest)"
proof -
  let ?line = "''Content-Length: '' @ natToString n"
  have "newlineC \<notin> set ?line"
    using digits_no_space[of newlineC n] by (auto simp: newlineC_def)
  moreover have "last ?line \<noteq> returnC" using digits_no_space[of "last (natToString n)" n] by (simp add: last_append)
  ultimately have "readHeaderLine (?line @ returnC # newlineC # returnC # newlineC # rest) =
      Some (?line, returnC # newlineC # rest)"
    using line_read[of ?line] by blast
  moreover have "readHeaderLine (returnC # newlineC # rest) = Some ([], rest)" using line_read[of "[]"] by simp
  moreover have "iequals ''Content-Length'' ''Content-Length''" by simp
  ultimately show ?thesis
    using length_header[of n] stoll_number[OF assms]
    by (subst readHeaders.simps) (simp, subst readHeaders.simps, simp)
qed

subsection \<open>Properties\<close>

lemma read_written:
  assumes "parse (dump m) = Some m" "int (length (dump m)) \<le> 9223372036854775807" "canAllocate (length (dump m))"
  shows "readMessage canAllocate parse (writeMessage dump m @ rest) = Inr (Some m, rest)"
  using frame_headers[OF assms(2), of "dump m @ rest"] assms
  by (simp add: readMessage_def writeMessage_def Let_def)

text \<open>
  C29: a stream of written messages is read back message by message, in order and to the last byte, when the JSON
  library reads what it prints.
\<close>

theorem messages_roundtrip:
  assumes "\<And>m. m \<in> set ms \<Longrightarrow> parse (dump m) = Some m"
    and "\<And>m. m \<in> set ms \<Longrightarrow> int (length (dump m)) \<le> 9223372036854775807 \<and> canAllocate (length (dump m))"
  shows "readMessages (Suc (length ms)) canAllocate parse (concat (map (writeMessage dump) ms)) = Inr ms"
  using assms
proof (induction ms)
  case Nil
  then show ?case by (simp add: readMessage_def readHeaders.simps readHeaderLine_def)
next
  case (Cons m ms)
  then show ?case
    using read_written[of parse dump m canAllocate "concat (map (writeMessage dump) ms)"] by simp
qed

theorem messages_roundtrip_witness:
  "readMessages 3 (\<lambda>_. True) Some (concat (map (writeMessage id) [''{}'', ''[1]''])) = Inr [''{}'', ''[1]'']"
proof -
  have "readMessages (Suc (length [''{}'', ''[1]''])) (\<lambda>_. True) Some
      (concat (map (writeMessage id) [''{}'', ''[1]''])) = Inr [''{}'', ''[1]'']"
    by (rule messages_roundtrip) auto
  then show ?thesis by (simp only: list.size numeral_3_eq_3 add_0_right add_Suc_right)
qed

text \<open>
  C35: a peer that announces a length no string can have makes \<^verbatim>\<open>readMessage\<close> throw: the length is checked for
  its sign only.
\<close>

theorem hostile_length_throws:
  assumes "\<not> canAllocate n" "int n \<le> 9223372036854775807"
  shows "readMessage canAllocate parse
    (''Content-Length: '' @ natToString n @ [returnC, newlineC, returnC, newlineC] @ rest) = Inl CannotAllocate"
  using frame_headers[OF assms(2), of rest] assms(1) by (simp add: readMessage_def)

theorem hostile_length_throws_witness:
  "readMessage (\<lambda>n. n < 2 ^ 47) Some
    (''Content-Length: '' @ natToString (2 ^ 62) @ [returnC, newlineC, returnC, newlineC] @ ''{}'') = Inl CannotAllocate"
  by (rule hostile_length_throws) simp_all

end
