(* ===== verification/Selectors.thy ===== *)
theory Selectors
  imports Prelude
begin

text \<open>
  Names across runtimes: the Smalltalk selector a call sends (\<^verbatim>\<open>src/src/umd/SmalltalkSelector.h\<close>) and the family
  prefixes of module names (\<^verbatim>\<open>src/src/umd/Prefixes.h\<close>).  \<^const>\<open>Inl\<close> is a refusal with its reason.

  Shown: for words that start with an ASCII letter or an underscore, for operators and for names with a colon the
  mapping is exactly the five documented rules, and the selector takes the arguments of the call; a name that starts
  with any other byte, a letter outside ASCII for one, is treated as an operator, which the rules do not say.
\<close>

subsection \<open>Selectors\<close>

fun splitParts :: "byte_string \<Rightarrow> byte_string \<Rightarrow> byte_string list" where
  "splitParts part [] = [part]"
| "splitParts part (c # cs) = (if c = CHR ''_'' then part # splitParts [] cs else splitParts (part @ [c]) cs)"

definition colons :: "byte_string \<Rightarrow> nat" where
  "colons n = length (filter (\<lambda>c. c = CHR '':'') n)"

definition keywordSelector :: "byte_string list \<Rightarrow> byte_string" where
  "keywordSelector parts = concat (map (\<lambda>p. p @ '':'') parts)"

definition smalltalkSelector :: "byte_string \<Rightarrow> nat \<Rightarrow> byte_string + byte_string" where
  "smalltalkSelector n argc =
     (if n = [] then Inl ''an empty name is not a Smalltalk selector''
      else if CHR '':'' \<in> set n then
        (if colons n \<noteq> argc
         then Inl (''the Smalltalk selector '' @ n @ '' takes '' @ natToString (colons n) @ '' argument(s), got '' @
                   natToString argc)
         else Inr n)
      else if \<not> isalpha (hd n) \<and> hd n \<noteq> CHR ''_'' then
        (if argc \<noteq> 1
         then Inl (''the binary Smalltalk selector '' @ n @ '' takes 1 argument, got '' @ natToString argc)
         else Inr n)
      else if argc = 0 then Inr n
      else
        let parts = splitParts [] n
        in if length parts = argc \<and> list_all (\<lambda>p. p \<noteq> []) parts then Inr (keywordSelector parts)
           else if argc = 1 then Inr (n @ '':'')
           else Inl (''cannot map '' @ [CHR 0x27] @ n @ [CHR 0x27] @ '' with '' @ natToString argc @
                  '' arguments to a Smalltalk selector: write one '' @ [CHR 0x27] @ ''_'' @ [CHR 0x27] @
                  ''-separated part per argument (at_put(k, v) sends at:put:) or the selector in backticks ('' @
                  [CHR 0x60] @ ''at:put:'' @ [CHR 0x60] @ '')''))"

subsection \<open>Prefixes\<close>

definition kFamilyPrefixes :: "byte_string list" where
  "kFamilyPrefixes = [''py'', ''js'', ''st'', ''clj'']"

definition isFamilyPrefix :: "byte_string \<Rightarrow> bool" where
  "isFamilyPrefix s = list_ex (\<lambda>p. s = p) kFamilyPrefixes"

definition providerSpecFor :: "byte_string \<Rightarrow> byte_string" where
  "providerSpecFor prefix = ''provider:'' @ prefix"

definition aliasOfSpec :: "byte_string \<Rightarrow> byte_string" where
  "aliasOfSpec spec =
     (let k = ''provider:'' in if take (length k) spec = k then drop (length k) spec else spec)"

lemma alias_of_provider: "aliasOfSpec (providerSpecFor a) = a"
  by (simp add: aliasOfSpec_def providerSpecFor_def)

subsection \<open>Properties\<close>

text \<open>The two kinds of names the documented rules tell apart, besides names with a colon.\<close>

definition letterChars :: byte_string where
  "letterChars = ''abcdefghijklmnopqrstuvwxyzABCDEFGHIJKLMNOPQRSTUVWXYZ_''"

definition operatorChars :: byte_string where
  "operatorChars = CHR 0x5C # ''!#%&*+-/<=>?@^|~''"

definition wordName :: "byte_string \<Rightarrow> bool" where
  "wordName n \<longleftrightarrow> n \<noteq> [] \<and> hd n \<in> set letterChars \<and> CHR '':'' \<notin> set n"

definition operatorName :: "byte_string \<Rightarrow> bool" where
  "operatorName n \<longleftrightarrow> n \<noteq> [] \<and> set n \<subseteq> set operatorChars"

fun joinParts :: "byte_string list \<Rightarrow> byte_string" where
  "joinParts [] = []"
| "joinParts [p] = p"
| "joinParts (p # ps) = p @ ''_'' @ joinParts ps"

text \<open>
  The rules of the header, in its order.  A one-part name with one argument falls under the fourth and the fifth, which
  then agree; a name with several parts and one argument falls under the fifth alone.
\<close>

inductive selectorRule :: "byte_string \<Rightarrow> nat \<Rightarrow> byte_string \<Rightarrow> bool" where
  verbatim: "CHR '':'' \<in> set n \<Longrightarrow> selectorRule n (colons n) n"
| binary: "operatorName n \<Longrightarrow> selectorRule n 1 n"
| unary: "wordName n \<Longrightarrow> selectorRule n 0 n"
| keyworded: "wordName (joinParts parts) \<Longrightarrow> list_all (\<lambda>p. p \<noteq> [] \<and> CHR ''_'' \<notin> set p) parts \<Longrightarrow>
     selectorRule (joinParts parts) (length parts) (keywordSelector parts)"
| oneArgument: "wordName n \<Longrightarrow> selectorRule n 1 (n @ '':'')"

text \<open>How many arguments a Smalltalk selector takes, by its form; \<open>None\<close> for what is no selector.\<close>

definition selectorArity :: "byte_string \<Rightarrow> nat option" where
  "selectorArity sel =
     (if CHR '':'' \<in> set sel then Some (colons sel)
      else if wordName sel then Some 0
      else if operatorName sel then Some 1 else None)"

lemma colons_append [simp]: "colons (a @ b) = colons a + colons b"
  by (simp add: colons_def)

lemma colons_none [simp]: "CHR '':'' \<notin> set n \<Longrightarrow> colons n = 0"
  by (auto simp: colons_def filter_empty_conv)

lemma colons_some: "CHR '':'' \<in> set n \<longleftrightarrow> 0 < colons n"
  by (auto simp: colons_def filter_empty_conv)

lemma splitParts_set: "p \<in> set (splitParts part n) \<Longrightarrow> set p \<subseteq> set part \<union> set n"
  by (induction part n rule: splitParts.induct) (auto split: if_splits)

lemma splitParts_nonempty [simp]: "splitParts part n \<noteq> []"
  by (induction part n rule: splitParts.induct) auto

lemma keyword_colons: "list_all (\<lambda>p. CHR '':'' \<notin> set p) ps \<Longrightarrow> colons (keywordSelector ps) = length ps"
  by (induction ps) (auto simp: keywordSelector_def colons_def filter_empty_conv)

lemma letters: "list_all (\<lambda>c. isalpha c \<or> c = CHR ''_'') letterChars"
  by code_simp

lemma operators:
  "list_all (\<lambda>c. \<not> isalpha c \<and> c \<noteq> CHR ''_'' \<and> c \<noteq> CHR '':'') operatorChars"
  by code_simp

lemma wordName_alpha: "wordName n \<Longrightarrow> isalpha (hd n) \<or> hd n = CHR ''_''"
  using letters by (auto simp: wordName_def list_all_iff)

lemma operatorName_plain:
  assumes "operatorName n"
  shows "CHR '':'' \<notin> set n" "\<not> isalpha (hd n)" "hd n \<noteq> CHR ''_''" "\<not> wordName n"
proof -
  have "hd n \<in> set operatorChars" using assms by (cases n) (auto simp: operatorName_def)
  then show "\<not> isalpha (hd n)" "hd n \<noteq> CHR ''_''" using operators by (auto simp: list_all_iff)
  then show "\<not> wordName n" using wordName_alpha by blast
  show "CHR '':'' \<notin> set n" using assms operators by (auto simp: operatorName_def list_all_iff)
qed

lemma join_split: "joinParts (splitParts part n) = part @ n"
proof (induction part n rule: splitParts.induct)
  case (2 part c cs)
  obtain q qs where "splitParts [] cs = q # qs" by (cases "splitParts [] cs") simp_all
  with 2 show ?case by auto
qed simp

lemma splitParts_plain: "CHR ''_'' \<notin> set part \<Longrightarrow> list_all (\<lambda>p. CHR ''_'' \<notin> set p) (splitParts part n)"
  by (induction part n rule: splitParts.induct) auto

lemma splitParts_append:
  "CHR ''_'' \<notin> set p \<Longrightarrow> splitParts part (p @ r) = splitParts (part @ p) r"
  by (induction p arbitrary: part) auto

text \<open>A name has one way of being read as parts.\<close>

lemma split_join:
  "list_all (\<lambda>p. CHR ''_'' \<notin> set p) (p # ps) \<Longrightarrow> splitParts part (joinParts (p # ps)) = (part @ p) # ps"
proof (induction ps arbitrary: part p)
  case Nil
  then show ?case using splitParts_append[of p part "[]"] by simp
next
  case (Cons q ps)
  then show ?case using splitParts_append[of p part "''_'' @ joinParts (q # ps)"] by simp
qed

lemma joinParts_colon: "CHR '':'' \<notin> set (joinParts ps) \<longleftrightarrow> list_all (\<lambda>p. CHR '':'' \<notin> set p) ps"
  by (induction ps rule: joinParts.induct) auto

lemma selectorRule_arity: "selectorRule n argc sel \<Longrightarrow> selectorArity sel = Some argc"
proof (induction rule: selectorRule.induct)
  case (binary n)
  then show ?case using operatorName_plain[of n] by (simp add: selectorArity_def)
next
  case (keyworded parts)
  then have "colons (keywordSelector parts) = length parts"
    using joinParts_colon[of parts] by (intro keyword_colons) (simp add: wordName_def)
  moreover have "parts \<noteq> []" using keyworded by (auto simp: wordName_def)
  ultimately show ?case by (simp add: selectorArity_def colons_some)
qed (auto simp: selectorArity_def wordName_def colons_def filter_empty_conv)

lemma selectorRule_sent:
  assumes "selectorRule n argc sel"
  shows "smalltalkSelector n argc = Inr sel"
  using assms
proof cases
  case verbatim
  then show ?thesis by (auto simp: smalltalkSelector_def)
next
  case binary
  then show ?thesis using operatorName_plain[of n] by (auto simp: smalltalkSelector_def operatorName_def)
next
  case unary
  then show ?thesis using wordName_alpha[of n] by (auto simp: smalltalkSelector_def wordName_def)
next
  case (keyworded parts)
  then obtain p ps where parts: "parts = p # ps" by (cases parts) (auto simp: wordName_def)
  then have "splitParts [] n = parts" using keyworded split_join[of p ps "[]"] by (simp add: list_all_iff)
  then show ?thesis using keyworded parts wordName_alpha[of n]
    by (auto simp: smalltalkSelector_def wordName_def list_all_iff)
next
  case oneArgument
  then have "length (splitParts [] n) = 1 \<Longrightarrow> keywordSelector (splitParts [] n) = n @ '':''"
    using join_split[of "[]" n] by (auto simp: length_Suc_conv keywordSelector_def)
  then show ?thesis using oneArgument wordName_alpha[of n]
    by (auto simp: smalltalkSelector_def wordName_def Let_def)
qed

lemma sent_selectorRule:
  assumes "smalltalkSelector n argc = Inr sel" "CHR '':'' \<in> set n \<or> operatorName n \<or> wordName n"
  shows "selectorRule n argc sel"
proof (cases "CHR '':'' \<in> set n")
  case True
  then show ?thesis using assms by (auto simp: smalltalkSelector_def intro: verbatim split: if_splits)
next
  case plain: False
  then consider "operatorName n" | "wordName n" using assms(2) by blast
  then show ?thesis
  proof cases
    case 1
    then have "sel = n" "argc = 1"
      using assms(1) operatorName_plain[of n] by (auto simp: smalltalkSelector_def operatorName_def split: if_splits)
    then show ?thesis using binary[OF 1] by simp
  next
    case 2
    have "list_all (\<lambda>p. p \<noteq> [] \<and> CHR ''_'' \<notin> set p) (splitParts [] n)"
      if "list_all (\<lambda>p. p \<noteq> []) (splitParts [] n)"
      using that splitParts_plain[of "[]" n] by (auto simp: list_all_iff)
    then show ?thesis
      using assms(1) 2 plain wordName_alpha[OF 2] keyworded[of "splitParts [] n"] unary[of n] oneArgument[of n]
        join_split[of "[]" n]
      by (auto simp: smalltalkSelector_def Let_def wordName_def split: if_splits)
  qed
qed

text \<open>
  C31: on a name with a colon, an operator or a word that starts with an ASCII letter or an underscore, the mapping is
  exactly the documented rules: a selector is sent if and only if a rule gives it, every other call is refused, and the
  selector takes as many arguments as the call passes.
\<close>

theorem smalltalk_selector_rules:
  assumes "CHR '':'' \<in> set n \<or> operatorName n \<or> wordName n"
  shows "(smalltalkSelector n argc = Inr sel \<longleftrightarrow> selectorRule n argc sel) \<and>
    (smalltalkSelector n argc = Inr sel \<longrightarrow> selectorArity sel = Some argc)"
  using assms selectorRule_sent sent_selectorRule selectorRule_arity by blast

theorem smalltalk_selector_rules_witness:
  "smalltalkSelector ''at_put'' 2 = Inr ''at:put:'' \<and> selectorRule ''at_put'' 2 ''at:put:'' \<and>
   selectorArity ''at:put:'' = Some 2 \<and> \<not> (\<exists>sel. selectorRule ''at_put'' 3 sel)"
proof -
  have "smalltalkSelector ''at_put'' 2 = Inr ''at:put:''" by code_simp
  moreover have "\<not> isl (smalltalkSelector ''at_put'' 3) \<Longrightarrow> False" by code_simp
  moreover have "wordName ''at_put''" by code_simp
  ultimately show ?thesis
    using smalltalk_selector_rules[of "''at_put''" 2 "''at:put:''"] smalltalk_selector_rules[of "''at_put''" 3]
    by (metis sum.disc(2))
qed

text \<open>
  What the code does with every other name, whatever its letters: a byte outside ASCII at its start makes it an
  operator, so that it is refused without an argument and sent as it is with one.
\<close>

lemma other_name_is_binary:
  assumes "n \<noteq> []" "CHR '':'' \<notin> set n" "\<not> isalpha (hd n)" "hd n \<noteq> CHR ''_''"
  shows "smalltalkSelector n 1 = Inr n \<and> (argc \<noteq> 1 \<longrightarrow> isl (smalltalkSelector n argc))"
  using assms by (simp add: smalltalkSelector_def)

end
