(* ===== verification/StackFlow.thy ===== *)
theory StackFlow
  imports Bytecode
begin

text \<open>
  What the interpreter loop of \<^verbatim>\<open>src/src/runtime/ExecutionEngine.cpp\<close> does with the operand stack.
  \<open>fetch\<close> reads the instruction at a position as \<^verbatim>\<open>runLoop\<close> does, \<open>stackUse\<close> gives the number of values
  each case of its switch takes from the stack and puts on it, and \<open>flow\<close> is the set of positions and
  stack depths a frame can reach, with every branch taken either way and an exception raised by any
  instruction that a handler covers.  The values themselves are protoCore objects and do not appear.

  \<open>certified\<close> is the certificate the compiler builds: a depth for every instruction, with the jumps that
  are not patched yet.  A complete certificate implies that no reachable instruction underflows the stack,
  overflows it, runs off the code or names a slot, constant or block that does not exist.
\<close>

subsection \<open>One instruction\<close>

definition fetch :: "u32 list \<Rightarrow> nat \<Rightarrow> (Op \<times> nat \<times> nat) option" where
  "fetch code ip =
     (if ip \<ge> length code then None
      else
        let word = code ! ip;
            operand = unat (drop_bit kOperandShift word)
        in case opOfByte (unat (word AND 0xFF)) of
             None \<Rightarrow> None
           | Some op \<Rightarrow>
               if op \<noteq> EXTEND then Some (op, operand, ip + 1)
               else if ip + 1 \<ge> length code then None
               else
                 let nextWord = code ! (ip + 1)
                 in case opOfByte (unat (nextWord AND 0xFF)) of
                      None \<Rightarrow> None
                    | Some op \<Rightarrow>
                        Some (op, push_bit 24 operand OR unat (drop_bit kOperandShift nextWord), ip + 2))"

definition constAt :: "BytecodeModule \<Rightarrow> nat \<Rightarrow> Const" where
  "constAt m k = bm_consts (moduleBody m) ! k"

definition siteArgc :: "BytecodeModule \<Rightarrow> nat \<Rightarrow> nat" where
  "siteArgc m k = unat (cn_argc (constAt m k))"

definition siteNames :: "BytecodeModule \<Rightarrow> nat \<Rightarrow> nat" where
  "siteNames m k = length (cn_names (constAt m k))"

text \<open>Values taken from the stack and values put on it.\<close>

fun stackUse :: "BytecodeModule \<Rightarrow> Op \<Rightarrow> nat \<Rightarrow> nat \<times> nat" where
  "stackUse m EXTEND n = (0, 0)"
| "stackUse m PUSH_CONST n = (0, 1)"
| "stackUse m PUSH_UNIT n = (0, 1)"
| "stackUse m PUSH_NULL n = (0, 1)"
| "stackUse m PUSH_TRUE n = (0, 1)"
| "stackUse m PUSH_FALSE n = (0, 1)"
| "stackUse m POP n = (1, 0)"
| "stackUse m DUP n = (1, 2)"
| "stackUse m PUSH_LOCAL n = (0, 1)"
| "stackUse m STORE_LOCAL n = (1, 0)"
| "stackUse m MAKE_CELL n = (0, 0)"
| "stackUse m PUSH_CELL n = (0, 1)"
| "stackUse m STORE_CELL n = (1, 0)"
| "stackUse m PUSH_GLOBAL n = (0, 1)"
| "stackUse m STORE_GLOBAL n = (1, 0)"
| "stackUse m MAKE_FN n = (length (bm_captures (moduleBody (moduleBlocks m ! n))), 1)"
| "stackUse m CALL n = (n + 1, 1)"
| "stackUse m CALL_SPREAD n = (n + 2, 1)"
| "stackUse m SEND n = (siteArgc m n + 1, 1)"
| "stackUse m SEND_APPLY n = (siteArgc m n + 1, 1)"
| "stackUse m RETURN n = (1, 0)"
| "stackUse m MAKE_LAZY n = (1, 1)"
| "stackUse m FORCE n = (1, 1)"
| "stackUse m FORCE_THUNK n = (1, 1)"
| "stackUse m JUMP n = (0, 0)"
| "stackUse m JUMP_IF_FALSE n = (1, 0)"
| "stackUse m JUMP_IF_TRUE n = (1, 0)"
| "stackUse m JUMP_BACK n = (0, 0)"
| "stackUse m ADD n = (2, 1)"
| "stackUse m SUB n = (2, 1)"
| "stackUse m MUL n = (2, 1)"
| "stackUse m LT n = (2, 1)"
| "stackUse m LE n = (2, 1)"
| "stackUse m GT n = (2, 1)"
| "stackUse m GE n = (2, 1)"
| "stackUse m EQ n = (2, 1)"
| "stackUse m NE n = (2, 1)"
| "stackUse m NEG n = (1, 1)"
| "stackUse m OP_NOT n = (1, 1)"
| "stackUse m CONCAT n = (n, 1)"
| "stackUse m MAKE_CLASS n = (siteArgc m n + siteNames m n, 1)"
| "stackUse m NEW n = (siteArgc m n + siteNames m n + 1, 1)"
| "stackUse m NEW_SPREAD n = (siteArgc m n + 2, 1)"
| "stackUse m INVOKE_INIT n = (siteArgc m n + 2, 1)"
| "stackUse m STORE_FIELD n = (1, 0)"
| "stackUse m STORE_FIELD_IF_NEW n = (1, 0)"
| "stackUse m STORE_FIELDS_IF_NEW n = (siteNames m n, 0)"
| "stackUse m SET_FIELD n = (2, 0)"
| "stackUse m SEND_SUPER n = (siteArgc m n + 1, 1)"
| "stackUse m TEST_TYPE n = (1, 1)"
| "stackUse m TEST_PROTO n = (1, 1)"
| "stackUse m UNAPPLY_FIELDS n = (1, siteNames m n)"
| "stackUse m UNCONS n = (1, 2)"
| "stackUse m MATCH_ERROR n = (1, 0)"
| "stackUse m CAST_FAIL n = (1, 0)"
| "stackUse m MAKE_TUPLE n = (n, 1)"
| "stackUse m SEND_KW n = (siteArgc m n + siteNames m n + 1, 1)"
| "stackUse m CALL_KW n = (siteArgc m n + siteNames m n + 1, 1)"
| "stackUse m THROW n = (1, 0)"
| "stackUse m RETHROW n = (0, 0)"

definition isJump :: "Op \<Rightarrow> bool" where
  "isJump op \<longleftrightarrow> op = JUMP \<or> op = JUMP_IF_FALSE \<or> op = JUMP_IF_TRUE"

definition fallsThrough :: "Op \<Rightarrow> bool" where
  "fallsThrough op \<longleftrightarrow>
     op \<noteq> JUMP \<and> op \<noteq> JUMP_BACK \<and> op \<noteq> RETURN \<and> op \<noteq> MATCH_ERROR \<and> op \<noteq> CAST_FAIL \<and> op \<noteq> THROW \<and> op \<noteq> RETHROW"

text \<open>The operand names something that exists: a slot of the frame, a constant of the right kind, a block.\<close>

definition constIs :: "BytecodeModule \<Rightarrow> nat \<Rightarrow> ConstKind list \<Rightarrow> bool" where
  "constIs m k kinds \<longleftrightarrow> k < length (bm_consts (moduleBody m)) \<and> cn_kind (constAt m k) \<in> set kinds"

fun operandOk :: "BytecodeModule \<Rightarrow> nat \<Rightarrow> Op \<Rightarrow> nat \<Rightarrow> bool" where
  "operandOk m slots EXTEND n = False"
| "operandOk m slots PUSH_CONST n = constIs m n [CK_Int, CK_BigInt, CK_Double, CK_String, CK_Char]"
| "operandOk m slots PUSH_LOCAL n = (n < slots)"
| "operandOk m slots STORE_LOCAL n = (n < slots)"
| "operandOk m slots MAKE_CELL n = (n < slots)"
| "operandOk m slots PUSH_CELL n = (n < slots)"
| "operandOk m slots STORE_CELL n = (n < slots)"
| "operandOk m slots RETHROW n = (n < slots)"
| "operandOk m slots PUSH_GLOBAL n = constIs m n [CK_Symbol]"
| "operandOk m slots STORE_GLOBAL n = constIs m n [CK_Symbol]"
| "operandOk m slots TEST_PROTO n = constIs m n [CK_Symbol]"
| "operandOk m slots SET_FIELD n = constIs m n [CK_Symbol]"
| "operandOk m slots STORE_FIELD n = (constIs m n [CK_Symbol] \<and> 0 < slots)"
| "operandOk m slots STORE_FIELD_IF_NEW n = (constIs m n [CK_Symbol] \<and> 0 < slots)"
| "operandOk m slots STORE_FIELDS_IF_NEW n = (constIs m n [CK_Names] \<and> 0 < slots)"
| "operandOk m slots UNAPPLY_FIELDS n = constIs m n [CK_Names]"
| "operandOk m slots SEND n = constIs m n [CK_SendSite]"
| "operandOk m slots SEND_APPLY n = constIs m n [CK_SendSite]"
| "operandOk m slots NEW_SPREAD n = constIs m n [CK_SendSite]"
| "operandOk m slots INVOKE_INIT n = constIs m n [CK_SendSite]"
| "operandOk m slots NEW n = constIs m n [CK_SendSite, CK_KwSendSite]"
| "operandOk m slots SEND_KW n = constIs m n [CK_KwSendSite]"
| "operandOk m slots CALL_KW n = constIs m n [CK_KwSendSite]"
| "operandOk m slots SEND_SUPER n = constIs m n [CK_SuperSite]"
| "operandOk m slots MAKE_CLASS n = constIs m n [CK_ClassSpec]"
| "operandOk m slots CAST_FAIL n = constIs m n [CK_String]"
| "operandOk m slots MAKE_FN n = (n < length (moduleBlocks m))"
| "operandOk m slots TEST_TYPE n = (n < length typeCodes)"
| "operandOk m slots _ n = True"

subsection \<open>A frame\<close>

definition frameSlots :: "BytecodeModule \<Rightarrow> nat" where
  "frameSlots m = nat (bm_arity (moduleBody m) + bm_localCount (moduleBody m))"

inductive flow :: "BytecodeModule \<Rightarrow> nat \<Rightarrow> int \<Rightarrow> bool" for m where
  start: "flow m 0 0"
| through: "flow m pc d \<Longrightarrow> fetch (bm_code (moduleBody m)) pc = Some (op, n, nx) \<Longrightarrow> fallsThrough op \<Longrightarrow>
    stackUse m op n = (a, b) \<Longrightarrow> flow m nx (d - int a + int b)"
| jump: "flow m pc d \<Longrightarrow> fetch (bm_code (moduleBody m)) pc = Some (op, n, nx) \<Longrightarrow> isJump op \<Longrightarrow>
    stackUse m op n = (a, b) \<Longrightarrow> flow m (nx + n) (d - int a)"
| loop: "flow m pc d \<Longrightarrow> fetch (bm_code (moduleBody m)) pc = Some (JUMP_BACK, n, nx) \<Longrightarrow> flow m (nx - n) d"
| raise: "flow m pc d \<Longrightarrow> fetch (bm_code (moduleBody m)) pc = Some (op, n, nx) \<Longrightarrow>
    handlerFor (moduleBody m) (nx - 1) = Some h \<Longrightarrow> flow m (hd_handlerPc h) (hd_stackDepth h)"

definition safePoint :: "BytecodeModule \<Rightarrow> nat \<Rightarrow> int \<Rightarrow> bool" where
  "safePoint m pc d \<longleftrightarrow>
     (\<exists>op n nx a b. fetch (bm_code (moduleBody m)) pc = Some (op, n, nx) \<and> operandOk m (frameSlots m) op n \<and>
        stackUse m op n = (a, b) \<and> int a \<le> d \<and> d \<le> bm_maxStack (moduleBody m) \<and>
        d - int a + int b \<le> bm_maxStack (moduleBody m) \<and> (op = JUMP_BACK \<longrightarrow> n \<le> nx) \<and>
        (\<forall>h. handlerFor (moduleBody m) (nx - 1) = Some h \<longrightarrow>
           hd_slot h \<in> {0..<int (frameSlots m)} \<and> 0 \<le> hd_stackDepth h \<and> hd_stackDepth h \<le> d))"

definition stackSafe :: "BytecodeModule \<Rightarrow> bool" where
  "stackSafe m \<longleftrightarrow> (\<forall>pc d. flow m pc d \<longrightarrow> safePoint m pc d)"

primrec safeModule :: "BytecodeModule \<Rightarrow> bool" where
  "safeModule (Module b subs) = (stackSafe (Module b subs) \<and> list_all id (map safeModule subs))"

subsection \<open>Certificates\<close>

text \<open>
  \<open>D\<close> gives the depth at the start of each instruction and, when control reaches the end of the code, at the
  end; \<open>P\<close> the depth at the targets of the jumps that are not patched yet, by the word of the jump.
\<close>

definition certInstr ::
  "BytecodeModule \<Rightarrow> nat \<Rightarrow> int \<Rightarrow> (nat \<Rightarrow> int option) \<Rightarrow> (nat \<Rightarrow> int option) \<Rightarrow> nat \<Rightarrow> int \<Rightarrow> bool" where
  "certInstr m slots peak D P i d \<longleftrightarrow>
     (\<exists>op n nx a b. fetch (bm_code (moduleBody m)) i = Some (op, n, nx) \<and> operandOk m slots op n \<and>
        stackUse m op n = (a, b) \<and> int a \<le> d \<and> d \<le> peak \<and> d - int a + int b \<le> peak \<and>
        (fallsThrough op \<longrightarrow> D nx = Some (d - int a + int b)) \<and>
        (isJump op \<longrightarrow> (case P (nx - 1) of None \<Rightarrow> D (nx + n) = Some (d - int a) | Some e \<Rightarrow> e = d - int a)) \<and>
        (op = JUMP_BACK \<longrightarrow> n \<le> nx \<and> D (nx - n) = Some d) \<and> (nx = i + 2 \<longrightarrow> D (i + 1) = None))"

definition certHandler :: "BytecodeModule \<Rightarrow> nat \<Rightarrow> (nat \<Rightarrow> int option) \<Rightarrow> Handler \<Rightarrow> bool" where
  "certHandler m slots D h \<longleftrightarrow>
     hd_slot h \<in> {0..<int slots} \<and> 0 \<le> hd_stackDepth h \<and> hd_endPc h \<le> length (bm_code (moduleBody m)) \<and>
     D (hd_handlerPc h) = Some (hd_stackDepth h) \<and>
     (\<forall>i d op n nx. D i = Some d \<longrightarrow> fetch (bm_code (moduleBody m)) i = Some (op, n, nx) \<longrightarrow>
        hd_startPc h \<le> nx - 1 \<longrightarrow> nx - 1 < hd_endPc h \<longrightarrow> hd_stackDepth h \<le> d)"

definition certPending :: "BytecodeModule \<Rightarrow> (nat \<Rightarrow> int option) \<Rightarrow> nat \<Rightarrow> bool" where
  "certPending m D w \<longleftrightarrow>
     (\<exists>d op. D w = Some d \<and> fetch (bm_code (moduleBody m)) w = Some (op, 0, w + 1) \<and> isJump op)"

definition certified ::
  "BytecodeModule \<Rightarrow> nat \<Rightarrow> int \<Rightarrow> (nat \<Rightarrow> int option) \<Rightarrow> (nat \<Rightarrow> int option) \<Rightarrow> bool" where
  "certified m slots peak D P \<longleftrightarrow>
     D 0 = Some 0 \<and>
     (\<forall>i d. D i = Some d \<longrightarrow> 0 \<le> d \<and> i \<le> length (bm_code (moduleBody m)) \<and>
        (i < length (bm_code (moduleBody m)) \<longrightarrow> certInstr m slots peak D P i d)) \<and>
     (\<forall>h \<in> set (bm_handlers (moduleBody m)). certHandler m slots D h) \<and>
     (\<forall>w e. P w = Some e \<longrightarrow> certPending m D w)"

lemma handlerFor_member: "handlerFor m pc = Some h \<Longrightarrow> h \<in> set (bm_handlers m) \<and> hd_startPc h \<le> pc \<and> pc < hd_endPc h"
  by (auto simp: handlerFor_def find_Some_iff)

theorem certificate_sound:
  assumes "certified m (frameSlots m) (bm_maxStack (moduleBody m)) D (\<lambda>_. None)"
    and "D (length (bm_code (moduleBody m))) = None"
  shows "stackSafe m"
proof -
  have at: "certInstr m (frameSlots m) (bm_maxStack (moduleBody m)) D (\<lambda>_. None) pc d" if "D pc = Some d" for pc d
    using assms that by (metis (no_types, lifting) certified_def le_neq_implies_less option.distinct(1))
  have handler: "certHandler m (frameSlots m) D h" if "handlerFor (moduleBody m) pc = Some h" for pc h
    using assms(1) handlerFor_member[OF that] by (auto simp: certified_def)
  have depth: "D pc = Some d" if "flow m pc d" for pc d
    using that
  proof (induction rule: flow.induct)
    case start
    show ?case using assms(1) by (simp add: certified_def)
  next
    case (raise pc d op n nx h)
    then show ?case using handler by (auto simp: certHandler_def)
  qed (drule at, force simp: certInstr_def)+
  show ?thesis
    unfolding stackSafe_def
  proof (intro allI impI)
    fix pc d assume "flow m pc d"
    note pc = depth[OF this]
    from at[OF this] obtain op n nx a b where i: "fetch (bm_code (moduleBody m)) pc = Some (op, n, nx)"
        "operandOk m (frameSlots m) op n" "stackUse m op n = (a, b)" "int a \<le> d" "d \<le> bm_maxStack (moduleBody m)"
        "d - int a + int b \<le> bm_maxStack (moduleBody m)" "op = JUMP_BACK \<longrightarrow> n \<le> nx"
      by (auto simp: certInstr_def)
    moreover have "hd_slot h \<in> {0..<int (frameSlots m)} \<and> 0 \<le> hd_stackDepth h \<and> hd_stackDepth h \<le> d"
      if "handlerFor (moduleBody m) (nx - 1) = Some h" for h
      using handler[OF that] handlerFor_member[OF that] pc i(1) unfolding certHandler_def by blast
    ultimately show "safePoint m pc d" unfolding safePoint_def by blast
  qed
qed

end
