(* ===== verification/CompilerState.thy ===== *)
theory CompilerState
  imports StackFlow GlobalTable AstWalk AstRender Monads
begin

text \<open>
  The state of the compiler (\<^verbatim>\<open>src/src/compiler/Compiler.h\<close>), its emission primitives and its name
  resolution (\<^verbatim>\<open>Compiler.cpp\<close>, \<^verbatim>\<open>CompileTemplates.cpp\<close>).

  The compiler is a record passed from call to call; a C++ exception is a value of \<open>CompilerError\<close>.  The
  functions being compiled are a list, the innermost (\<^verbatim>\<open>fn_\<close>) first: the \<^verbatim>\<open>parent\<close> pointer of a function is
  either null or its successor, which \<open>fn_hasParent\<close> tells.  The scopes of a function and its enclosing
  \<^verbatim>\<open>finally\<close> bodies are lists with the innermost first too.  A pointer to a node of the tree is the path to
  it (the numbering of the children is fixed where the paths are built), a pointer to a class description
  its key, a pointer to the state of a tail-recursive method its index.  Slots are natural numbers; a 32-bit
  overflow of a slot number or a depth is left out.  The checks of the native stack are a bound on the nesting
  of calls, with the error \<open>StackOverflow\<close>.

  Two members of \<open>FunctionState\<close> are auxiliary: \<open>fn_depths\<close> records the depth at which each instruction was
  emitted and \<open>fn_pending\<close> the depth at the target of each jump that is not patched.  No definition reads
  them; the proofs do (\<open>StackCert\<close>).
\<close>

subsection \<open>Data\<close>

type_synonym path = "nat list"

datatype CompilerError =
    CompileError byte_string SourcePos
  | LogicError byte_string
  | ModuleFault ModuleError
  | AtFault byte_string
  | StackOverflow
  | StdOutOfRange
  | NullPointer

record LocalInfo =
  li_slot :: nat
  li_kind :: BindingKind
  li_boxed :: bool
  li_captured :: bool
  li_byNameMasks :: "u32 list"

type_synonym LocalScope = "(byte_string \<times> LocalInfo) list"

record ActiveFinally =
  af_path :: path
  af_body :: Node
  af_slot :: nat
  af_holes :: "(nat \<times> nat) list"

datatype TailRecKind = TR_Global | TR_Member | TR_Local | TR_Extension

record TailRecTarget =
  tt_path :: path
  tt_head :: DefHead
  tt_lists :: "Node Param list list"
  tt_body :: "Node option"
  tt_tailKind :: TailRecKind
  tt_key :: byte_string
  tt_receiverAlias :: byte_string

record TailRecState =
  ts_target :: TailRecTarget
  ts_owner :: nat
  ts_lists :: "Node Param list list"
  ts_sites :: "path set"
  ts_calls :: nat
  ts_otherReceiver :: bool

record FunctionState =
  fn_mod :: BytecodeModule
  fn_hasParent :: bool
  fn_scopes :: "LocalScope list"
  fn_nextSlot :: nat
  fn_depth :: int
  fn_maxDepth :: int
  fn_allowsReturn :: bool
  fn_isTopLevel :: bool
  fn_finallys :: "ActiveFinally list"
  fn_tailrec :: "nat option"
  fn_depths :: "nat \<Rightarrow> int option"
  fn_pending :: "nat \<Rightarrow> int option"

record TemplateScope =
  tm_info :: byte_string
  tm_companion :: "byte_string option"
  tm_selfName :: byte_string

record ImportedTerm =
  it_moduleKey :: byte_string
  it_moduleName :: byte_string
  it_memberName :: byte_string
  it_forceModule :: bool

record Compiler =
  c_globals :: GlobalTable
  c_shared :: Shared
  c_importedTerms :: "(byte_string \<times> ImportedTerm) list"
  c_fns :: "FunctionState list"
  c_tmpl :: "TemplateScope option"
  c_boxed :: "path set"
  c_curriedTailRec :: "TailRecTarget option"
  c_tails :: "TailRecState list"
  c_catchSlot :: "nat option"

datatype Resolution = ResLocal LocalInfo | ResMember MemberInfo | ResGlobal GlobalBinding

type_synonym 'a compiling = "(CompilerError, Compiler, 'a) action"

definition newFunction :: FunctionState where
  "newFunction =
     \<lparr>fn_mod = Module newBody [], fn_hasParent = False, fn_scopes = [], fn_nextSlot = 0, fn_depth = 0,
      fn_maxDepth = 0, fn_allowsReturn = False, fn_isTopLevel = False, fn_finallys = [], fn_tailrec = None,
      fn_depths = [0 \<mapsto> 0], fn_pending = Map.empty\<rparr>"

subsection \<open>Actions\<close>

definition seqA :: "('e, 's, 'a) action \<Rightarrow> ('e, 's, 'b) action \<Rightarrow> ('e, 's, 'b) action" where
  "seqA m n = andThen m (\<lambda>_. n)"

definition forA :: "('a \<Rightarrow> ('e, 's, unit) action) \<Rightarrow> 'a list \<Rightarrow> ('e, 's, unit) action" where
  "forA f xs = foldr (\<lambda>x m. seqA (f x) m) xs (ret ())"

definition getA :: "('s \<Rightarrow> 'a) \<Rightarrow> ('e, 's, 'a) action" where
  "getA g s = Inr (g s, s)"

definition putA :: "('s \<Rightarrow> 's) \<Rightarrow> ('e, 's, unit) action" where
  "putA g s = Inr ((), g s)"

definition compileError :: "byte_string \<Rightarrow> SourcePos \<Rightarrow> 'a compiling" where
  "compileError msg pos = throw (CompileError msg pos)"

definition logicError :: "byte_string \<Rightarrow> 'a compiling" where
  "logicError msg = throw (LogicError msg)"

text \<open>Dereferencing a pointer that may be null.\<close>

definition deref :: "'a option \<Rightarrow> 'a compiling" where
  "deref x = (case x of None \<Rightarrow> throw NullPointer | Some a \<Rightarrow> ret a)"

text \<open>An operation on the current function, \<^verbatim>\<open>*fn_\<close>.\<close>

definition onFn :: "(FunctionState \<Rightarrow> CompilerError + 'a \<times> FunctionState) \<Rightarrow> 'a compiling" where
  "onFn g s =
     (case c_fns s of
        [] \<Rightarrow> Inl NullPointer
      | f # fs \<Rightarrow> (case g f of Inl e \<Rightarrow> Inl e | Inr (x, f') \<Rightarrow> Inr (x, s\<lparr>c_fns := f' # fs\<rparr>)))"

definition theFn :: "FunctionState compiling" where
  "theFn = onFn (\<lambda>f. Inr (f, f))"

definition updateFn :: "(FunctionState \<Rightarrow> FunctionState) \<Rightarrow> unit compiling" where
  "updateFn g = onFn (\<lambda>f. Inr ((), g f))"

definition fnBody :: "FunctionState \<Rightarrow> ModuleBody" where
  "fnBody f = moduleBody (fn_mod f)"

definition onBody :: "(ModuleBody \<Rightarrow> ModuleBody) \<Rightarrow> FunctionState \<Rightarrow> FunctionState" where
  "onBody g f = f\<lparr>fn_mod := Module (g (fnBody f)) (moduleBlocks (fn_mod f))\<rparr>"

subsection \<open>Emission\<close>

definition sourceLine :: "SourcePos \<Rightarrow> int" where
  "sourceLine p = int (sp_line p)"

definition underflow :: CompilerError where
  "underflow = LogicError ''compiler: operand stack underflow''"

definition adjust :: "int \<Rightarrow> unit compiling" where
  "adjust delta = onFn (\<lambda>f.
     let d = fn_depth f + delta
     in if d < 0 then Inl underflow
        else Inr ((), f\<lparr>fn_depth := d, fn_maxDepth := (if d > fn_maxDepth f then d else fn_maxDepth f)\<rparr>))"

text \<open>The auxiliary members after the words from \<open>from\<close> on were appended.\<close>

definition noteInstr :: "nat \<Rightarrow> Op \<Rightarrow> int \<Rightarrow> FunctionState \<Rightarrow> FunctionState" where
  "noteInstr start op effect f =
     (let after = length (bm_code (fnBody f)) in
      f\<lparr>fn_depths := (fn_depths f)(start \<mapsto> fn_depth f,
          after := (if fallsThrough op then Some (fn_depth f + effect) else None)),
        fn_pending := (if isJump op then (fn_pending f)(after - 1 \<mapsto> fn_depth f + effect) else fn_pending f)\<rparr>)"

definition emitRaw :: "Op \<Rightarrow> nat \<Rightarrow> int \<Rightarrow> int \<Rightarrow> nat compiling" where
  "emitRaw op operand line effect = onFn (\<lambda>f.
     case emit op operand line (fnBody f) of
       Inl e \<Rightarrow> Inl (ModuleFault e)
     | Inr (at, b) \<Rightarrow> Inr (at, noteInstr (length (bm_code (fnBody f))) op effect (onBody (\<lambda>_. b) f)))"

definition emitC :: "Op \<Rightarrow> nat \<Rightarrow> SourcePos \<Rightarrow> int \<Rightarrow> unit compiling" where
  "emitC op operand pos effect = seqA (emitRaw op operand (sourceLine pos) effect) (adjust effect)"

definition emitJumpC :: "Op \<Rightarrow> SourcePos \<Rightarrow> int \<Rightarrow> nat compiling" where
  "emitJumpC op pos effect =
     andThen (emitRaw op 0 (sourceLine pos) effect) (\<lambda>at. seqA (adjust effect) (ret at))"

text \<open>\<^verbatim>\<open>fn_->mod->pos()\<close>, \<^verbatim>\<open>patchJumpTo(at, pos())\<close> and \<^verbatim>\<open>emitJumpBack\<close>.\<close>

definition codePos :: "nat compiling" where
  "codePos = onFn (\<lambda>f. Inr (length (bm_code (fnBody f)), f))"

definition patchHere :: "nat \<Rightarrow> unit compiling" where
  "patchHere at = onFn (\<lambda>f.
     case patchJumpTo at (length (bm_code (fnBody f))) (fnBody f) of
       Inl e \<Rightarrow> Inl (ModuleFault e)
     | Inr b \<Rightarrow> Inr ((), (onBody (\<lambda>_. b) f)\<lparr>
         fn_depths := (fn_depths f)(length (bm_code (fnBody f)) := fn_pending f at),
         fn_pending := (fn_pending f)(at := None)\<rparr>))"

definition emitJumpBackC :: "nat \<Rightarrow> SourcePos \<Rightarrow> unit compiling" where
  "emitJumpBackC target pos = onFn (\<lambda>f.
     case emitJumpBack target (sourceLine pos) (fnBody f) of
       Inl e \<Rightarrow> Inl (ModuleFault e)
     | Inr (at, b) \<Rightarrow> Inr ((), noteInstr (length (bm_code (fnBody f))) JUMP_BACK 0 (onBody (\<lambda>_. b) f)))"

text \<open>The index of a constant, and of a nested block.\<close>

definition pool :: "PoolRequest \<Rightarrow> nat compiling" where
  "pool r = onFn (\<lambda>f. case addRequest r (fnBody f) of (k, b) \<Rightarrow> Inr (k, onBody (\<lambda>_. b) f))"

definition nestBlock :: "BytecodeModule \<Rightarrow> nat compiling" where
  "nestBlock sub = onFn (\<lambda>f. case addBlock sub (fn_mod f) of (k, m) \<Rightarrow> Inr (k, f\<lparr>fn_mod := m\<rparr>))"

definition emitConst :: "Op \<Rightarrow> PoolRequest \<Rightarrow> SourcePos \<Rightarrow> int \<Rightarrow> unit compiling" where
  "emitConst op r pos effect = andThen (pool r) (\<lambda>k. emitC op k pos effect)"

subsection \<open>Scopes\<close>

definition newSlot :: "nat compiling" where
  "newSlot = onFn (\<lambda>f. Inr (fn_nextSlot f, f\<lparr>fn_nextSlot := fn_nextSlot f + 1\<rparr>))"

definition setInnermost :: "byte_string \<Rightarrow> LocalInfo \<Rightarrow> LocalScope list \<Rightarrow> LocalScope list" where
  "setInnermost name info scs = (case scs of [] \<Rightarrow> [] | sc # r \<Rightarrow> AList.update name info sc # r)"

definition setOutermost :: "byte_string \<Rightarrow> LocalInfo \<Rightarrow> LocalScope list \<Rightarrow> LocalScope list" where
  "setOutermost name info scs = (if scs = [] then [] else butlast scs @ [AList.update name info (last scs)])"

definition declareLocal :: "byte_string \<Rightarrow> BindingKind \<Rightarrow> bool \<Rightarrow> u32 list \<Rightarrow> LocalInfo compiling" where
  "declareLocal name kind boxed masks =
     andThen newSlot (\<lambda>slot.
       let info = \<lparr>li_slot = slot, li_kind = kind, li_boxed = boxed, li_captured = False, li_byNameMasks = masks\<rparr>
       in seqA (updateFn (\<lambda>f. f\<lparr>fn_scopes := setInnermost name info (fn_scopes f)\<rparr>)) (ret info))"

definition pushScope :: "unit compiling" where
  "pushScope = updateFn (\<lambda>f. f\<lparr>fn_scopes := [] # fn_scopes f\<rparr>)"

text \<open>\<^verbatim>\<open>this\<close> is recorded first, since an alias of it shares its slot.\<close>

definition recordSlotNames :: "LocalScope \<Rightarrow> ModuleBody \<Rightarrow> ModuleBody" where
  "recordSlotNames sc b =
     foldl (\<lambda>b (name, info). setSlotName (int (li_slot info)) name (li_boxed info) b)
       (case map_of sc ''this'' of None \<Rightarrow> b | Some info \<Rightarrow> setSlotName (int (li_slot info)) ''this'' False b) sc"

definition popScope :: "unit compiling" where
  "popScope = updateFn (\<lambda>f.
     case fn_scopes f of [] \<Rightarrow> f | sc # r \<Rightarrow> (onBody (recordSlotNames sc) f)\<lparr>fn_scopes := r\<rparr>)"

fun findInScopes :: "LocalScope list \<Rightarrow> byte_string \<Rightarrow> LocalInfo option" where
  "findInScopes [] name = None"
| "findInScopes (sc # r) name = (case map_of sc name of Some info \<Rightarrow> Some info | None \<Rightarrow> findInScopes r name)"

definition findInFunction :: "FunctionState \<Rightarrow> byte_string \<Rightarrow> LocalInfo option" where
  "findInFunction f name = findInScopes (fn_scopes f) name"

definition captureSlot :: "byte_string \<Rightarrow> LocalInfo \<Rightarrow> FunctionState \<Rightarrow> LocalInfo \<times> FunctionState" where
  "captureSlot name outer f =
     (let mine = \<lparr>li_slot = fn_nextSlot f, li_kind = li_kind outer, li_boxed = li_boxed outer, li_captured = True,
                  li_byNameMasks = li_byNameMasks outer\<rparr>
      in (mine, (onBody (addCapture (int (li_slot outer)) (int (li_slot mine))) f)
                  \<lparr>fn_nextSlot := fn_nextSlot f + 1, fn_scopes := setOutermost name mine (fn_scopes f)\<rparr>))"

fun captureInto :: "byte_string \<Rightarrow> FunctionState list \<Rightarrow> LocalInfo option \<times> FunctionState list" where
  "captureInto name [] = (None, [])"
| "captureInto name (f # fs) =
     (case findInFunction f name of
        Some own \<Rightarrow> (Some own, f # fs)
      | None \<Rightarrow>
          if \<not> fn_hasParent f then (None, f # fs)
          else
            case captureInto name fs of
              (None, fs') \<Rightarrow> (None, f # fs')
            | (Some outer, fs') \<Rightarrow> (case captureSlot name outer f of (mine, f') \<Rightarrow> (Some mine, f' # fs')))"

definition capture :: "byte_string \<Rightarrow> LocalInfo option compiling" where
  "capture name s = (case captureInto name (c_fns s) of (r, fs) \<Rightarrow> Inr (r, s\<lparr>c_fns := fs\<rparr>))"

text \<open>The chain \<^verbatim>\<open>for (f = fn_; f; f = f->parent)\<close>.\<close>

fun boundInChain :: "FunctionState list \<Rightarrow> byte_string \<Rightarrow> bool" where
  "boundInChain [] name = False"
| "boundInChain (f # fs) name = (findInFunction f name \<noteq> None \<or> fn_hasParent f \<and> boundInChain fs name)"

subsection \<open>Templates and names\<close>

definition tmplInfo :: "Compiler \<Rightarrow> ClassInfo option" where
  "tmplInfo s = (case c_tmpl s of None \<Rightarrow> None | Some t \<Rightarrow> findTypeByKey (c_globals s) (tm_info t))"

definition memberOf :: "Compiler \<Rightarrow> byte_string \<Rightarrow> MemberInfo option" where
  "memberOf s name = (case tmplInfo s of None \<Rightarrow> None | Some c \<Rightarrow> map_of (ci_members c) name)"

definition privateKeyIn :: "ClassInfo option \<Rightarrow> byte_string \<Rightarrow> byte_string option" where
  "privateKeyIn c name =
     (case c of
        None \<Rightarrow> None
      | Some ci \<Rightarrow>
          (case map_of (ci_members ci) name of
             Some m \<Rightarrow> if mi_key m \<noteq> name then Some (mi_key m) else None
           | None \<Rightarrow> None))"

definition tmplCompanion :: "Compiler \<Rightarrow> ClassInfo option" where
  "tmplCompanion s =
     (case c_tmpl s of
        None \<Rightarrow> None
      | Some t \<Rightarrow> (case tm_companion t of None \<Rightarrow> None | Some k \<Rightarrow> findTypeByKey (c_globals s) k))"

definition selectKey :: "Compiler \<Rightarrow> byte_string \<Rightarrow> byte_string" where
  "selectKey s name =
     (case privateKeyIn (tmplInfo s) name of
        Some k \<Rightarrow> k
      | None \<Rightarrow> (case privateKeyIn (tmplCompanion s) name of Some k \<Rightarrow> k | None \<Rightarrow> name))"

definition sendSite :: "byte_string \<Rightarrow> nat \<Rightarrow> nat compiling" where
  "sendSite name argc s =
     (let key = selectKey s name in pool (RSendSite key (of_nat argc) (if key = name then [] else name)) s)"

definition kwSendSite :: "byte_string \<Rightarrow> nat \<Rightarrow> byte_string list \<Rightarrow> nat compiling" where
  "kwSendSite name positional keywords s =
     (let key = selectKey s name
      in pool (RKwSendSite key (of_nat positional) keywords (if key = name then [] else name)) s)"

lemma rfindChar_less: "rfindChar c s = Some k \<Longrightarrow> k < length s"
  by (auto simp: rfindChar_def split: if_splits intro!: diff_less)

text \<open>The enclosing prefixes of a dotted name, innermost first, each with the name behind it.\<close>

function dottedPrefixes :: "byte_string \<Rightarrow> byte_string list" where
  "dottedPrefixes prefix =
     prefix # (case rfindChar (CHR ''.'') prefix of None \<Rightarrow> [] | Some dot \<Rightarrow> dottedPrefixes (take dot prefix))"
  by auto
termination
  by (relation "measure length") (auto dest: rfindChar_less)

declare dottedPrefixes.simps [simp del]

definition scopedNames :: "Compiler \<Rightarrow> byte_string \<Rightarrow> byte_string list" where
  "scopedNames s name =
     (case tmplInfo s of
        None \<Rightarrow> []
      | Some c \<Rightarrow> map (\<lambda>prefix. prefix @ ''.'' @ name) (dottedPrefixes (ci_name c))) @ [name]"

fun firstBinding :: "GlobalTable \<Rightarrow> byte_string list \<Rightarrow> GlobalBinding option" where
  "firstBinding t [] = None"
| "firstBinding t (n # ns) = (case binding t n of Some b \<Rightarrow> Some b | None \<Rightarrow> firstBinding t ns)"

fun firstType :: "GlobalTable \<Rightarrow> byte_string list \<Rightarrow> ClassInfo option" where
  "firstType t [] = None"
| "firstType t (n # ns) = (case findType t n of Some c \<Rightarrow> Some c | None \<Rightarrow> firstType t ns)"

text \<open>The segments of a path of selections that starts at a name, outermost first.\<close>

fun selectionPath :: "Node \<Rightarrow> byte_string list option" where
  "selectionPath (SelectN p q n) = map_option (\<lambda>ns. ns @ [n]) (selectionPath q)"
| "selectionPath (IdentN p n) = Some [n]"
| "selectionPath _ = None"

fun dotted :: "byte_string list \<Rightarrow> byte_string" where
  "dotted [] = []"
| "dotted [n] = n"
| "dotted (n # ns) = n @ ''.'' @ dotted ns"

definition liftedGlobalPath :: "Compiler \<Rightarrow> Node \<Rightarrow> byte_string" where
  "liftedGlobalPath s n =
     (case n of
        SelectN _ _ _ \<Rightarrow>
          (case selectionPath n of
             None \<Rightarrow> []
           | Some ns \<Rightarrow>
               if boundInChain (c_fns s) (hd ns) \<or> memberOf s (hd ns) \<noteq> None then []
               else if binding (c_globals s) (dotted ns) \<noteq> None then dotted ns else [])
      | _ \<Rightarrow> [])"

definition notFound :: "byte_string \<Rightarrow> byte_string" where
  "notFound name =
     (if name = ''this'' then ''this can be used only inside a class, trait or object''
      else if name = ''super'' then [CHR 0x27] @ ''super'' @ [CHR 0x27] @ '' must be followed by a member selection''
      else ''Not found: '' @ name)"

definition resolve :: "byte_string \<Rightarrow> SourcePos \<Rightarrow> Resolution compiling" where
  "resolve name pos =
     andThen (capture name) (\<lambda>found.
       case found of
         Some info \<Rightarrow> ret (ResLocal info)
       | None \<Rightarrow>
           (\<lambda>s. case memberOf s name of
              Some m \<Rightarrow> Inr (ResMember m, s)
            | None \<Rightarrow>
                (case firstBinding (c_globals s) (scopedNames s name) of
                   Some g \<Rightarrow> Inr (ResGlobal g, s)
                 | None \<Rightarrow> Inl (CompileError (notFound name) pos))))"

definition globalKey :: "byte_string \<Rightarrow> byte_string compiling" where
  "globalKey name = andThen (getA c_globals) (\<lambda>t. andThen (deref (binding t name)) (\<lambda>b. ret (gb_key b)))"

definition loadLocal :: "LocalInfo \<Rightarrow> SourcePos \<Rightarrow> unit compiling" where
  "loadLocal info pos = emitC (if li_boxed info then PUSH_CELL else PUSH_LOCAL) (li_slot info) pos 1"

definition storeLocal :: "LocalInfo \<Rightarrow> SourcePos \<Rightarrow> unit compiling" where
  "storeLocal info pos = emitC (if li_boxed info then STORE_CELL else STORE_LOCAL) (li_slot info) pos (-1)"

definition loadThis :: "SourcePos \<Rightarrow> unit compiling" where
  "loadThis pos =
     andThen (capture ''this'') (\<lambda>found.
       case found of
         None \<Rightarrow> compileError ''this can be used only inside a class, trait or object'' pos
       | Some info \<Rightarrow> loadLocal info pos)"

definition importedTerm :: "Compiler \<Rightarrow> byte_string \<Rightarrow> ImportedTerm option" where
  "importedTerm s name = map_of (c_importedTerms s) name"

definition importedTermSelect :: "ImportedTerm \<Rightarrow> SourcePos \<Rightarrow> Node" where
  "importedTermSelect t pos = SelectN pos (IdentN pos (it_moduleKey t)) (it_memberName t)"

definition localOrMemberShadows :: "Compiler \<Rightarrow> byte_string \<Rightarrow> bool" where
  "localOrMemberShadows s name \<longleftrightarrow> boundInChain (c_fns s) name \<or> memberOf s name \<noteq> None"

text \<open>The import a name stands for, unless an inner scope shadows it.\<close>

definition visibleImport :: "Compiler \<Rightarrow> byte_string \<Rightarrow> ImportedTerm option" where
  "visibleImport s name =
     (case importedTerm s name of
        None \<Rightarrow> None
      | Some t \<Rightarrow> if localOrMemberShadows s name then None else Some t)"

end
