(* ===== verification/Captures.thy ===== *)
theory Captures
  imports CompilerState
begin

text \<open>
  By-name parameter masks and the capture analysis of \<^verbatim>\<open>src/src/compiler/Compiler.cpp\<close>: which local
  definitions of a function body live in a cell, and the forward-reference rule for blocks.

  A node is identified by the numbers of the children on the way from it to the root: child \<open>k\<close> of the node
  at \<open>p\<close> is at \<open>k # p\<close>.  The walk takes the walk of the children as an argument; \<open>walkAt\<close> ties the knot
  with a bound on the nesting, which stands for the check of the native stack.
\<close>

subsection \<open>By-name masks\<close>

definition kMaxByNameParams :: nat where
  "kMaxByNameParams = 32"

definition inMask :: "u32 \<Rightarrow> nat \<Rightarrow> bool" where
  "inMask bits k \<longleftrightarrow> k < kMaxByNameParams \<and> bit bits k"

fun byNameMaskFrom :: "nat \<Rightarrow> u32 \<Rightarrow> 'n Param list \<Rightarrow> CompilerError + u32" where
  "byNameMaskFrom k bits [] = Inr bits"
| "byNameMaskFrom k bits (p # ps) =
     (if \<not> pa_byName (pa_head p) then byNameMaskFrom (k + 1) bits ps
      else if k \<ge> kMaxByNameParams
      then Inl (CompileError ''a by-name parameter must be one of the first 32 parameters'' (pa_pos (pa_head p)))
      else if pa_repeated (pa_head p)
      then Inl (CompileError ''a repeated parameter cannot be by-name'' (pa_pos (pa_head p)))
      else byNameMaskFrom (k + 1) (bits OR push_bit k 1) ps)"

definition byNameMaskOfParams :: "'n Param list \<Rightarrow> CompilerError + u32" where
  "byNameMaskOfParams params = byNameMaskFrom 0 0 params"

definition paramsOf :: "'n Param list list \<Rightarrow> 'n Param list" where
  "paramsOf pls = (case pls of [] \<Rightarrow> [] | ps # _ \<Rightarrow> ps)"

text \<open>The later parameter lists of a curried definition, read back from its body.\<close>

fun curriedLists :: "Node option \<Rightarrow> Node Param list list" where
  "curriedLists (Some (LambdaN p ps b ow curried)) = (if curried then ps # curriedLists b else [])"
| "curriedLists _ = []"

definition trimMasks :: "u32 list \<Rightarrow> u32 list" where
  "trimMasks masks =
     (let trimmed = take 1 masks @ rev (dropWhile (\<lambda>m. m = 0) (rev (drop 1 masks)))
      in if trimmed = [0] then [] else trimmed)"

definition byNameMasksOfDef :: "Node Param list list \<Rightarrow> Node option \<Rightarrow> CompilerError + u32 list" where
  "byNameMasksOfDef pls body =
     bindE (traverseE byNameMaskOfParams (paramsOf pls # curriedLists body)) (\<lambda>masks. Inr (trimMasks masks))"

definition kindOfVal :: "ValHead \<Rightarrow> BindingKind" where
  "kindOfVal v = (if vd_isLazy v then BK_LazyVal else if vd_isVar v then BK_Var else BK_Val)"

definition kindOfDef :: "'n Param list list \<Rightarrow> BindingKind" where
  "kindOfDef pls = (if pls = [] then BK_ParamlessDef else BK_Def)"

subsection \<open>Scopes of the analysis\<close>

datatype DeclKind = DK_Param | DK_Val | DK_LazyVal | DK_Var | DK_Def

record Decl =
  dl_decl :: "(path \<times> Node) option"
  dl_depth :: nat
  dl_kind :: DeclKind
  dl_index :: int

record CaptureScope =
  sc_names :: "(byte_string \<times> Decl) list"
  sc_block :: "Node list option"
  sc_current :: int

record CaptureAnalysis =
  ca_boxed :: "path set"
  ca_scopes :: "CaptureScope list"
  ca_hoisted :: "bool list"

type_synonym 'a analysing = "(CompilerError, CaptureAnalysis, 'a) action"

definition paramDecl :: "nat \<Rightarrow> Decl" where
  "paramDecl depth = \<lparr>dl_decl = None, dl_depth = depth, dl_kind = DK_Param, dl_index = -1\<rparr>"

definition bindAll :: "nat \<Rightarrow> byte_string list \<Rightarrow> (byte_string \<times> Decl) list" where
  "bindAll depth names = foldl (\<lambda>m n. AList.update n (paramDecl depth) m) [] names"

fun lookupDecl :: "CaptureScope list \<Rightarrow> byte_string \<Rightarrow> (Decl \<times> CaptureScope) option" where
  "lookupDecl [] name = None"
| "lookupDecl (sc # scs) name =
     (case map_of (sc_names sc) name of Some d \<Rightarrow> Some (d, sc) | None \<Rightarrow> lookupDecl scs name)"

definition hoistedBetween :: "bool list \<Rightarrow> nat \<Rightarrow> nat \<Rightarrow> bool" where
  "hoistedBetween hoisted declDepth refDepth \<longleftrightarrow> (\<exists>d \<in> {declDepth + 1..refDepth}. hoisted ! d)"

definition describe :: "DeclKind \<Rightarrow> byte_string \<Rightarrow> byte_string" where
  "describe kind name =
     (case kind of
        DK_Var \<Rightarrow> ''variable '' @ name
      | DK_LazyVal \<Rightarrow> ''lazy value '' @ name
      | DK_Def \<Rightarrow> ''method '' @ name
      | _ \<Rightarrow> ''value '' @ name)"

text \<open>The first strict value definition among the statements from \<open>k\<close> up to \<open>last\<close>.\<close>

definition strictVal :: "Node \<Rightarrow> ValHead option" where
  "strictVal s = (case s of ValDefN v _ _ \<Rightarrow> if vd_isLazy v then None else Some v | _ \<Rightarrow> None)"

definition strictBetween :: "Node list \<Rightarrow> int \<Rightarrow> int \<Rightarrow> ValHead option" where
  "strictBetween stats first final =
     (case filter (\<lambda>v. v \<noteq> None) (map strictVal (take (nat (final + 1 - first)) (drop (nat first) stats))) of
        [] \<Rightarrow> None
      | v # _ \<Rightarrow> v)"

definition checkForwardReference ::
  "CaptureScope \<Rightarrow> Decl \<Rightarrow> byte_string \<Rightarrow> SourcePos \<Rightarrow> CompilerError option" where
  "checkForwardReference sc d name pos =
     (case sc_block sc of
        None \<Rightarrow> None
      | Some stats \<Rightarrow>
          if dl_index d < sc_current sc then None
          else
            (case strictBetween stats (sc_current sc) (dl_index d) of
               None \<Rightarrow> None
             | Some v \<Rightarrow>
                 Some (CompileError
                   (''forward reference to '' @ describe (dl_kind d) name @ '' extends over the definition of '' @
                    describe (if vd_isVar v then DK_Var else DK_Val) (vd_name v)) pos)))"

definition mustBox :: "Decl \<Rightarrow> bool list \<Rightarrow> nat \<Rightarrow> bool" where
  "mustBox d hoisted depth \<longleftrightarrow>
     dl_kind d = DK_Var \<or> dl_kind d = DK_Def \<or>
     (dl_kind d = DK_Val \<or> dl_kind d = DK_LazyVal) \<and> hoistedBetween hoisted (dl_depth d) depth"

definition reference :: "byte_string \<Rightarrow> nat \<Rightarrow> SourcePos \<Rightarrow> unit analysing" where
  "reference name depth pos s =
     (case lookupDecl (ca_scopes s) name of
        None \<Rightarrow> Inr ((), s)
      | Some (d, sc) \<Rightarrow>
          (case dl_decl d of
             None \<Rightarrow> Inr ((), s)
           | Some (p, _) \<Rightarrow>
               (case checkForwardReference sc d name pos of
                  Some e \<Rightarrow> Inl e
                | None \<Rightarrow>
                    if dl_depth d \<ge> depth \<or> \<not> mustBox d (ca_hoisted s) depth then Inr ((), s)
                    else Inr ((), s\<lparr>ca_boxed := insert p (ca_boxed s)\<rparr>))))"

text \<open>The callee under its applications, with their number.\<close>

fun calleeHead :: "Node \<Rightarrow> nat \<times> Node" where
  "calleeHead (TypeApplyN p f ts) = calleeHead f"
| "calleeHead (ApplyN p f as b w) = (case calleeHead f of (n, h) \<Rightarrow> (n + 1, h))"
| "calleeHead n = (0, n)"

definition selectorOf :: "Node \<Rightarrow> byte_string option" where
  "selectorOf n = (case n of IdentN _ name \<Rightarrow> Some name | SelectN _ _ name \<Rightarrow> Some name | _ \<Rightarrow> None)"

definition analysedMask :: "Shared \<Rightarrow> CaptureScope list \<Rightarrow> Node \<Rightarrow> CompilerError + u32" where
  "analysedMask sh scopes fn =
     (case calleeHead fn of (lst, head) \<Rightarrow>
      case selectorOf head of
        None \<Rightarrow> Inr 0
      | Some selector \<Rightarrow>
          (case lookupDecl scopes selector of
             Some (d, _) \<Rightarrow>
               (case dl_decl d of
                  Some (_, DefDefN h pls body) \<Rightarrow>
                    bindE (byNameMasksOfDef pls body) (\<lambda>masks. Inr (if lst < length masks then masks ! lst else 0))
                | _ \<Rightarrow> Inr (anyByNameMaskOf sh selector))
           | None \<Rightarrow> Inr (anyByNameMaskOf sh selector)))"

subsection \<open>The walk\<close>

type_synonym walker = "path \<Rightarrow> Node \<Rightarrow> nat \<Rightarrow> unit analysing"

definition numbered :: "'a list \<Rightarrow> (nat \<times> 'a) list" where
  "numbered xs = zip [0..<length xs] xs"

definition pushNames :: "(byte_string \<times> Decl) list \<Rightarrow> Node list option \<Rightarrow> unit analysing" where
  "pushNames names blk = putA (\<lambda>s. s\<lparr>ca_scopes := \<lparr>sc_names = names, sc_block = blk, sc_current = -1\<rparr> # ca_scopes s\<rparr>)"

definition popNames :: "unit analysing" where
  "popNames = putA (\<lambda>s. s\<lparr>ca_scopes := tl (ca_scopes s)\<rparr>)"

definition setHoisted :: "nat \<Rightarrow> bool \<Rightarrow> unit analysing" where
  "setHoisted depth h =
     putA (\<lambda>s. s\<lparr>ca_hoisted :=
       (if length (ca_hoisted s) \<le> depth then resize (depth + 1) False (ca_hoisted s) else ca_hoisted s)[depth := h]\<rparr>)"

definition optionally :: "('a \<Rightarrow> ('e, 's, unit) action) \<Rightarrow> 'a option \<Rightarrow> ('e, 's, unit) action" where
  "optionally f x = (case x of None \<Rightarrow> ret () | Some a \<Rightarrow> f a)"

text \<open>The body of a function at \<open>bodyPath\<close>, with the default of parameter \<open>k\<close> at \<open>(k + 1) # defPath\<close>.\<close>

definition analyseFunction ::
  "walker \<Rightarrow> Node Param list \<Rightarrow> path \<Rightarrow> path \<Rightarrow> Node \<Rightarrow> nat \<Rightarrow> bool \<Rightarrow> unit analysing" where
  "analyseFunction w params defPath bodyPath body depth hoisted =
     seqA (setHoisted depth hoisted)
     (seqA (pushNames (bindAll depth (map (\<lambda>p. pa_name (pa_head p)) params)) None)
     (seqA (forA (\<lambda>(k, p). optionally (\<lambda>d. w ((k + 1) # defPath) d depth) (pa_default p)) (numbered params))
     (seqA (w bodyPath body depth) popNames)))"

definition walkArgs :: "walker \<Rightarrow> u32 \<Rightarrow> (path \<times> Node) list \<Rightarrow> nat \<Rightarrow> unit analysing" where
  "walkArgs w bits args depth =
     forA (\<lambda>(k, p, a).
       if inMask bits k then analyseFunction w [] p p a (depth + 1) False else w p a depth) (numbered args)"

function patternPaths :: "path \<Rightarrow> Node Pattern \<Rightarrow> (path \<times> Node) list" where
  "patternPaths path (Pattern kind pos name expr type args) =
     (case expr of
        Some e \<Rightarrow> if kind = PK_Stable \<or> kind = PK_Extractor \<or> kind = PK_Literal then [(0 # path, e)] else []
      | None \<Rightarrow> []) @
     concat (map (\<lambda>(k, a). patternPaths ((k + 1) # path) a) (zip [0..<length args] args))"
  by pat_completeness auto
termination
proof (relation "measure (\<lambda>(_, p). size p)")
  fix path kind pos name expr type x k and a :: "Node Pattern" and args :: "Node Pattern list"
  assume "x \<in> set (zip [0..<length args] args)" "(k, a) = x"
  then have "a \<in> set args" by (auto dest: set_zip_rightD)
  then have "size a \<le> size_list size args" by (simp add: size_list_estimation')
  then show "(((k + 1) # path, a), path, Pattern kind pos name expr type args) \<in> measure (\<lambda>(_, p). size p)" by simp
qed simp

definition walkCases :: "walker \<Rightarrow> path \<Rightarrow> (Node Pattern, Node) CaseDef list \<Rightarrow> nat \<Rightarrow> unit analysing" where
  "walkCases w path cases depth =
     forA (\<lambda>(j, c).
       seqA (forA (\<lambda>(p, e). w p e depth) (patternPaths ((3 * j + 1) # path) (cd_pattern c)))
       (seqA (pushNames (bindAll depth (patternVariables (cd_pattern c))) None)
       (seqA (optionally (\<lambda>g. w ((3 * j + 2) # path) g depth) (cd_guard c))
       (seqA (w ((3 * j + 3) # path) (cd_body c) depth) popNames)))) (numbered cases)"

definition blockDecls :: "path \<Rightarrow> Node list \<Rightarrow> nat \<Rightarrow> (byte_string \<times> Decl) list" where
  "blockDecls path stats depth =
     foldl (\<lambda>m (k, s).
       case s of
         ValDefN v _ _ \<Rightarrow>
           AList.update (vd_name v) \<lparr>dl_decl = Some (k # path, s), dl_depth = depth,
             dl_kind = (if vd_isLazy v then DK_LazyVal else if vd_isVar v then DK_Var else DK_Val), dl_index = int k\<rparr> m
       | DefDefN d _ _ \<Rightarrow>
           AList.update (dd_name d) \<lparr>dl_decl = Some (k # path, s), dl_depth = depth, dl_kind = DK_Def, dl_index = int k\<rparr> m
       | _ \<Rightarrow> m) [] (numbered stats)"

definition setCurrent :: "int \<Rightarrow> unit analysing" where
  "setCurrent k =
     putA (\<lambda>s. case ca_scopes s of [] \<Rightarrow> s | sc # scs \<Rightarrow> s\<lparr>ca_scopes := sc\<lparr>sc_current := k\<rparr> # scs\<rparr>)"

definition walkBlock :: "walker \<Rightarrow> path \<Rightarrow> Node list \<Rightarrow> nat \<Rightarrow> unit analysing" where
  "walkBlock w path stats depth =
     seqA (pushNames (blockDecls path stats depth) (Some stats))
     (seqA (forA (\<lambda>(k, s). seqA (setCurrent (int k)) (w (k # path) s depth)) (numbered stats)) popNames)"

definition walkNode :: "Shared \<Rightarrow> walker \<Rightarrow> path \<Rightarrow> Node \<Rightarrow> nat \<Rightarrow> unit analysing" where
  "walkNode sh w path n depth =
     (case n of
        InterpStringN _ _ _ as _ \<Rightarrow> forA (\<lambda>(k, a). w (k # path) a depth) (numbered as)
      | IdentN pos name \<Rightarrow> reference name depth pos
      | SelectN _ q _ \<Rightarrow> w (0 # path) q depth
      | ApplyN _ f as _ _ \<Rightarrow>
          seqA (w (0 # path) f depth)
          (\<lambda>s. case analysedMask sh (ca_scopes s) f of
              Inl e \<Rightarrow> Inl e
            | Inr bits \<Rightarrow> walkArgs w bits (map (\<lambda>(k, a). ((k + 1) # path, a)) (numbered as)) depth s)
      | TypeApplyN _ f _ \<Rightarrow> w (0 # path) f depth
      | InfixN _ l _ r \<Rightarrow> seqA (w (0 # path) l depth) (w (1 # path) r depth)
      | PrefixN _ _ e \<Rightarrow> w (0 # path) e depth
      | AssignN _ t v \<Rightarrow> seqA (w (0 # path) t depth) (w (1 # path) v depth)
      | IfN _ c t e \<Rightarrow> seqA (w (0 # path) c depth) (seqA (w (1 # path) t depth) (optionally (\<lambda>e. w (2 # path) e depth) e))
      | WhileN _ c b \<Rightarrow> seqA (w (0 # path) c depth) (w (1 # path) b depth)
      | ReturnN _ v \<Rightarrow> optionally (\<lambda>v. w (0 # path) v depth) v
      | BlockN _ stats _ \<Rightarrow> walkBlock w path stats depth
      | LambdaN _ ps b _ _ \<Rightarrow> optionally (\<lambda>b. analyseFunction w ps path (0 # path) b (depth + 1) False) b
      | TypedN _ e _ \<Rightarrow> w (0 # path) e depth
      | ParensN _ e \<Rightarrow> w (0 # path) e depth
      | TupleN _ es \<Rightarrow> forA (\<lambda>(k, e). w (k # path) e depth) (numbered es)
      | SpliceN _ e \<Rightarrow> w (0 # path) e depth
      | NamedArgN _ _ v \<Rightarrow> w (0 # path) v depth
      | ValDefN v r _ \<Rightarrow>
          optionally (\<lambda>r. if vd_isLazy v then analyseFunction w [] path (0 # path) r (depth + 1) True
                          else w (0 # path) r depth) r
      | DefDefN _ pls b \<Rightarrow>
          optionally (\<lambda>b. analyseFunction w (paramsOf pls) path (0 # path) b (depth + 1) True) b
      | NewN _ t as _ \<Rightarrow>
          walkArgs w (if tt_kind t = TK_Name then anyByNameMaskOf sh (tt_name t) else 0)
            (map (\<lambda>(k, a). (k # path, a)) (numbered as)) depth
      | MatchN _ e cases \<Rightarrow> seqA (w (0 # path) e depth) (walkCases w path cases depth)
      | TryN _ b cases fin \<Rightarrow>
          seqA (w (0 # path) b depth)
          (seqA (walkCases w path cases depth)
            (optionally (\<lambda>f. w ((3 * length cases + 1) # path) f depth) fin))
      | ThrowN _ v \<Rightarrow> w (0 # path) v depth
      | _ \<Rightarrow> ret ())"

fun walkAt :: "nat \<Rightarrow> Shared \<Rightarrow> walker" where
  "walkAt 0 sh path n depth = throw StackOverflow"
| "walkAt (Suc fuel) sh path n depth = walkNode sh (walkAt fuel sh) path n depth"

definition captureAnalysis ::
  "nat \<Rightarrow> Shared \<Rightarrow> path set \<Rightarrow> Node Param list \<Rightarrow> path \<Rightarrow> path \<Rightarrow> Node \<Rightarrow> CompilerError + path set" where
  "captureAnalysis fuel sh boxed params defPath bodyPath body =
     (case analyseFunction (walkAt fuel sh) params defPath bodyPath body 0 False
             \<lparr>ca_boxed = boxed, ca_scopes = [], ca_hoisted = []\<rparr> of
        Inl e \<Rightarrow> Inl e
      | Inr ((), s) \<Rightarrow> Inr (ca_boxed s))"

end
