(* ===== verification/CompilerImports.thy ===== *)
theory CompilerImports
  imports CompilerState Selectors
begin

text \<open>
  Imports (\<^verbatim>\<open>src/src/compiler/Compiler.cpp\<close>, \<^verbatim>\<open>ModuleLoader.h\<close>): member imports of something in scope, and
  imports of modules.  The module loader is an abstract class whose methods compile and run other files; it
  is a record of functions that may change the tables all units share.  Where the source iterates over an
  unordered map, the model iterates over the association list: the effects of the iterations commute.
\<close>

subsection \<open>The loader\<close>

record ModuleExports =
  me_moduleName :: byte_string
  me_moduleKey :: byte_string
  me_moduleTypeKey :: byte_string
  me_moduleKind :: BindingKind
  me_foreign :: bool
  me_terms :: "(byte_string \<times> GlobalBinding) list"
  me_types :: "(byte_string \<times> ClassInfo) list"
  me_byNameSelectors :: "(byte_string \<times> u32) list"

record ModuleLoader =
  ml_load :: "byte_string \<Rightarrow> byte_string \<Rightarrow> byte_string \<Rightarrow> SourcePos \<Rightarrow> Shared \<Rightarrow> (CompilerError + ModuleExports) \<times> Shared"
  ml_bindForeignMember :: "ModuleExports \<Rightarrow> byte_string \<Rightarrow> SourcePos \<Rightarrow> Shared \<Rightarrow> (CompilerError + byte_string) \<times> Shared"

record Environment =
  ev_loader :: "ModuleLoader option"
  ev_sourceDir :: byte_string
  ev_fieldGroups :: bool

subsection \<open>The tables as actions\<close>

definition onTables :: "(GlobalTable \<times> Shared \<Rightarrow> GlobalTable \<times> Shared) \<Rightarrow> unit compiling" where
  "onTables g = putA (\<lambda>s. case g (c_globals s, c_shared s) of (t, sh) \<Rightarrow> s\<lparr>c_globals := t, c_shared := sh\<rparr>)"

definition bindTerm :: "byte_string \<Rightarrow> GlobalBinding \<Rightarrow> unit compiling" where
  "bindTerm name b = onTables (bind name b)"

definition bindType :: "byte_string \<Rightarrow> byte_string \<Rightarrow> unit compiling" where
  "bindType name key = onTables (aliasType name key)"

definition importTerm :: "byte_string \<Rightarrow> ImportedTerm \<Rightarrow> unit compiling" where
  "importTerm name t = putA (\<lambda>s. s\<lparr>c_importedTerms := AList.update name t (c_importedTerms s)\<rparr>)"

definition plainBinding :: "BindingKind \<Rightarrow> byte_string \<Rightarrow> GlobalBinding" where
  "plainBinding kind key = \<lparr>gb_kind = kind, gb_key = key, gb_byNameMasks = [], gb_overloads = []\<rparr>"

definition onShared :: "(Shared \<Rightarrow> (CompilerError + 'a) \<times> Shared) \<Rightarrow> (CompilerError + 'a) compiling" where
  "onShared g s = (case g (c_shared s) of (r, sh) \<Rightarrow> Inr (r, s\<lparr>c_shared := sh\<rparr>))"

subsection \<open>Names\<close>

definition hiddenModuleName :: "byte_string \<Rightarrow> byte_string" where
  "hiddenModuleName moduleName = ''__module$'' @ moduleName"

definition joinPath :: "byte_string list \<Rightarrow> byte_string" where
  "joinPath segments = foldl (\<lambda>out p. (if out = [] then [] else out @ ''.'') @ p) [] segments"

fun hasDoubleColon :: "byte_string \<Rightarrow> bool" where
  "hasDoubleColon (a # b # cs) \<longleftrightarrow> a = CHR '':'' \<and> b = CHR '':'' \<or> hasDoubleColon (b # cs)"
| "hasDoubleColon _ \<longleftrightarrow> False"

text \<open>Constructors, setters and private members are not names a program can import.\<close>

definition importableMember :: "byte_string \<Rightarrow> bool" where
  "importableMember name \<longleftrightarrow>
     \<not> startsWith ''<init>'' name \<and> \<not> (length name > 2 \<and> drop (length name - 2) name = ''_='') \<and>
     \<not> hasDoubleColon name"

definition moduleClassOf :: "Compiler \<Rightarrow> ModuleExports \<Rightarrow> ClassInfo option" where
  "moduleClassOf s m = (if me_moduleTypeKey m = [] then None else findTypeByKey (c_globals s) (me_moduleTypeKey m))"

definition noMember :: "byte_string \<Rightarrow> byte_string \<Rightarrow> SourcePos \<Rightarrow> 'a compiling" where
  "noMember owner name pos =
     compileError (''ImportError: '' @ owner @ '' has no member named '' @ [CHR 0x27] @ name @ [CHR 0x27]) pos"

subsection \<open>Modules\<close>

definition bindHiddenQualifier :: "ModuleExports \<Rightarrow> byte_string compiling" where
  "bindHiddenQualifier m =
     (let hidden = hiddenModuleName (me_moduleName m) in
      seqA (bindTerm hidden (plainBinding (me_moduleKind m) (me_moduleKey m)))
      (seqA (if me_moduleTypeKey m = [] then ret () else bindType (hidden @ ''.type'') (me_moduleTypeKey m))
        (ret hidden)))"

definition adoptExportedNames :: "ModuleExports \<Rightarrow> unit compiling" where
  "adoptExportedNames m =
     seqA (forA (\<lambda>(name, c). onTables (\<lambda>(t, sh). aliasType name (ci_key c) (defineType c t, sh))) (me_types m))
     (seqA (forA (\<lambda>(name, b). bindTerm name b) (me_terms m))
       (forA (\<lambda>(sel, bits). onTables (\<lambda>(t, sh). (t, noteByNameSelector sel [bits] sh))) (me_byNameSelectors m)))"

text \<open>The names one level under a prefix, without it.\<close>

definition directlyUnder :: "byte_string \<Rightarrow> byte_string \<Rightarrow> byte_string option" where
  "directlyUnder prefix name =
     (if startsWith prefix name \<and> CHR ''.'' \<notin> set (drop (length prefix) name) then Some (drop (length prefix) name) else None)"

definition importWildcard :: "ModuleExports \<Rightarrow> SourcePos \<Rightarrow> unit compiling" where
  "importWildcard m pos =
     (if me_foreign m
      then compileError (''a wildcard import of a foreign module is not supported: name the members you need, as in '' @
             [CHR 0x60] @ ''import '' @ me_moduleName m @ ''.{a, b}'' @ [CHR 0x60] @ '' (D92)'') pos
      else
        andThen (getA (\<lambda>s. moduleClassOf s m)) (\<lambda>c.
          case c of
            None \<Rightarrow> compileError (''ImportError: '' @ me_moduleName m @ '' exports nothing'') pos
          | Some cls \<Rightarrow>
              andThen (bindHiddenQualifier m) (\<lambda>hidden.
              let prefix = me_moduleName m @ ''.'' in
              seqA (forA (\<lambda>(name, _).
                     if importableMember name
                     then importTerm name \<lparr>it_moduleKey = hidden, it_moduleName = me_moduleName m, it_memberName = name,
                            it_forceModule = \<not> me_foreign m\<rparr>
                     else ret ()) (ci_members cls))
              (seqA (forA (\<lambda>(name, t). case directlyUnder prefix name of None \<Rightarrow> ret () | Some rest \<Rightarrow> bindType rest (ci_key t)) (me_types m))
                (forA (\<lambda>(name, b). case directlyUnder prefix name of None \<Rightarrow> ret () | Some rest \<Rightarrow> bindTerm rest b) (me_terms m))))))"

subsection \<open>Something in scope\<close>

record ScopePrefix =
  sp_name :: byte_string
  sp_hidden :: byte_string
  sp_cls :: ClassInfo

fun inScopePrefix :: "byte_string list \<Rightarrow> nat \<Rightarrow> (ScopePrefix \<times> nat) option compiling" where
  "inScopePrefix segments 0 = ret None"
| "inScopePrefix segments (Suc n) =
     (\<lambda>s. let name = joinPath (take (Suc n) segments) in
      case binding (c_globals s) name of
        None \<Rightarrow> inScopePrefix segments n s
      | Some term \<Rightarrow>
          (case findType (c_globals s) (name @ ''.type'') of
             None \<Rightarrow> inScopePrefix segments n s
           | Some cls \<Rightarrow>
               (let hidden = ''__scope$'' @ name in
                seqA (bindTerm hidden term)
                (seqA (bindType (hidden @ ''.type'') (ci_key cls))
                  (ret (Some (\<lparr>sp_name = name, sp_hidden = hidden, sp_cls = cls\<rparr>, Suc n)))) s)))"

definition importScopeWildcard :: "ScopePrefix \<Rightarrow> unit compiling" where
  "importScopeWildcard p =
     seqA (forA (\<lambda>(name, _).
            if importableMember name
            then importTerm name \<lparr>it_moduleKey = sp_hidden p, it_moduleName = sp_name p, it_memberName = name, it_forceModule = True\<rparr>
            else ret ()) (ci_members (sp_cls p)))
     (let prefix = sp_name p @ ''.'' in
      seqA (andThen (getA (\<lambda>s. typesUnder prefix (c_globals s))) (forA (\<lambda>(name, key). bindType name key)))
        (andThen (getA (\<lambda>s. bindingsUnder prefix (c_globals s))) (forA (\<lambda>(name, b). bindTerm name b))))"

text \<open>Actions that tell whether they bound a name.\<close>

definition whenSome :: "'a option \<Rightarrow> ('a \<Rightarrow> unit compiling) \<Rightarrow> bool compiling" where
  "whenSome x f = (case x of None \<Rightarrow> ret False | Some a \<Rightarrow> seqA (f a) (ret True))"

definition forAll :: "('a \<Rightarrow> unit compiling) \<Rightarrow> 'a list \<Rightarrow> bool compiling" where
  "forAll f xs = seqA (forA f xs) (ret (xs \<noteq> []))"

definition anyOf :: "bool compiling \<Rightarrow> bool compiling \<Rightarrow> bool compiling" where
  "anyOf m n = andThen m (\<lambda>a. andThen n (\<lambda>b. ret (a \<or> b)))"

definition bindScopeSelector :: "ScopePrefix \<Rightarrow> byte_string \<Rightarrow> byte_string \<Rightarrow> bool compiling" where
  "bindScopeSelector p name as =
     (let qualified = sp_name p @ ''.'' @ name; nestedPrefix = qualified @ ''.'' in
      anyOf (andThen (getA (\<lambda>s. findType (c_globals s) qualified)) (\<lambda>c. whenSome c (\<lambda>c. bindType as (ci_key c))))
      (anyOf (andThen (getA (\<lambda>s. findType (c_globals s) (qualified @ ''.type'')))
               (\<lambda>c. whenSome c (\<lambda>c. bindType (as @ ''.type'') (ci_key c))))
      (anyOf (andThen (getA (\<lambda>s. typesUnder nestedPrefix (c_globals s))) (forAll (\<lambda>(n, key). bindType (as @ ''.'' @ n) key)))
      (anyOf (andThen (getA (\<lambda>s. binding (c_globals s) qualified)) (\<lambda>b. whenSome b (\<lambda>b. bindTerm as b)))
             (andThen (getA (\<lambda>s. bindingsUnder nestedPrefix (c_globals s))) (forAll (\<lambda>(n, b). bindTerm (as @ ''.'' @ n) b)))))))"

definition selectorsOf :: "ImportData \<Rightarrow> byte_string list \<Rightarrow> ImportSelector list" where
  "selectorsOf imp trailing =
     (case trailing of
        [] \<Rightarrow> im_selectors imp
      | n # _ \<Rightarrow> \<lparr>is_name = n, is_alias = im_moduleAlias imp, is_wildcard = False, is_given = False, is_pos = im_pos imp\<rparr> # im_selectors imp)"

definition boundAs :: "ImportSelector \<Rightarrow> byte_string" where
  "boundAs sel = (if is_alias sel = [] then is_name sel else is_alias sel)"

definition importFromScope :: "ImportData \<Rightarrow> ScopePrefix \<Rightarrow> nat \<Rightarrow> unit compiling" where
  "importFromScope imp p consumed =
     (let trailing = drop consumed (im_path imp) in
      if length trailing > 1 then noMember (sp_name p) (trailing ! 0 @ ''.'' @ trailing ! 1) (im_pos imp)
      else if im_selectors imp = [] \<and> trailing = []
      then let bound = (if im_moduleAlias imp = [] then sp_name p else im_moduleAlias imp) in
           andThen (andThen (getA (\<lambda>s. binding (c_globals s) (sp_hidden p))) deref) (\<lambda>b.
             seqA (bindTerm bound b) (bindType (bound @ ''.type'') (ci_key (sp_cls p))))
      else
        forA (\<lambda>sel.
          if is_given sel then ret ()
          else if is_wildcard sel then importScopeWildcard p
          else
            andThen (bindScopeSelector p (is_name sel) (boundAs sel)) (\<lambda>bound.
              if bound then ret ()
              else if map_of (ci_members (sp_cls p)) (is_name sel) = None then noMember (sp_name p) (is_name sel) (is_pos sel)
              else importTerm (boundAs sel)
                     \<lparr>it_moduleKey = sp_hidden p, it_moduleName = sp_name p, it_memberName = is_name sel, it_forceModule = True\<rparr>))
          (selectorsOf imp trailing))"

subsection \<open>Loading\<close>

text \<open>The longest prefix that loads wins; the first message is kept.\<close>

fun loadLongest ::
  "ModuleLoader \<Rightarrow> byte_string \<Rightarrow> byte_string \<Rightarrow> byte_string list \<Rightarrow> SourcePos \<Rightarrow> byte_string \<Rightarrow> nat \<Rightarrow> (ModuleExports \<times> nat) compiling" where
  "loadLongest ld spec dir segments pos err 0 = compileError err pos"
| "loadLongest ld spec dir segments pos err (Suc n) =
     andThen (onShared (ml_load ld spec (joinPath (take (Suc n) segments)) dir pos)) (\<lambda>r.
       case r of
         Inr m \<Rightarrow> ret (m, Suc n)
       | Inl (CompileError msg p) \<Rightarrow> loadLongest ld spec dir segments pos (if err = [] then msg else err) n
       | Inl e \<Rightarrow> throw e)"

definition bindModuleSelector :: "ModuleExports \<Rightarrow> byte_string \<Rightarrow> byte_string \<Rightarrow> bool compiling" where
  "bindModuleSelector m name as =
     (let qualified = me_moduleName m @ ''.'' @ name;
          nestedPrefix = qualified @ ''.'';
          target = (\<lambda>n. if n = qualified then Some as
                        else if startsWith nestedPrefix n then Some (as @ ''.'' @ drop (length nestedPrefix) n) else None)
      in anyOf
           (forAll (\<lambda>(n, key). bindType n key)
             (concat (map (\<lambda>(n, c). case target n of None \<Rightarrow> [] | Some n' \<Rightarrow> [(n', ci_key c)]) (me_types m))))
           (forAll (\<lambda>(n, b). bindTerm n b)
             (concat (map (\<lambda>(n, b). case target n of None \<Rightarrow> [] | Some n' \<Rightarrow> [(n', b)]) (me_terms m)))))"

definition importOneSelector :: "ModuleLoader \<Rightarrow> ModuleExports \<Rightarrow> ImportSelector \<Rightarrow> unit compiling" where
  "importOneSelector ld m sel =
     (if is_given sel then ret ()
      else if is_wildcard sel then importWildcard m (is_pos sel)
      else if me_foreign m
      then andThen (onShared (ml_bindForeignMember ld m (is_name sel) (is_pos sel))) (\<lambda>r.
             case r of Inl e \<Rightarrow> throw e | Inr key \<Rightarrow> bindTerm (boundAs sel) (plainBinding BK_Val key))
      else
        andThen (bindModuleSelector m (is_name sel) (boundAs sel)) (\<lambda>bound.
          if bound then ret ()
          else
            andThen (getA (\<lambda>s. moduleClassOf s m)) (\<lambda>cls.
              if cls = None \<or> map_of (ci_members (the cls)) (is_name sel) = None
              then noMember (me_moduleName m) (is_name sel) (is_pos sel)
              else
                andThen (bindHiddenQualifier m) (\<lambda>hidden.
                  importTerm (boundAs sel)
                    \<lparr>it_moduleKey = hidden, it_moduleName = me_moduleName m, it_memberName = is_name sel, it_forceModule = True\<rparr>))))"

definition importModule :: "Environment \<Rightarrow> ImportData \<Rightarrow> unit compiling" where
  "importModule env imp =
     (case ev_loader env of
        None \<Rightarrow> compileError ''imports are not available here'' (im_pos imp)
      | Some ld \<Rightarrow>
          let family = length (im_path imp) \<ge> 2 \<and> isFamilyPrefix (hd (im_path imp));
              spec = (if family then providerSpecFor (hd (im_path imp)) else []);
              segments = (if family then tl (im_path imp) else im_path imp)
          in andThen (loadLongest ld spec (ev_sourceDir env) segments (im_pos imp) [] (length segments)) (\<lambda>(m, n).
               let trailing = drop n segments in
               if length trailing > 1
               then noMember (me_moduleName m) (trailing ! 0 @ ''.'' @ trailing ! 1) (im_pos imp)
               else
                 seqA (if me_foreign m then ret () else adoptExportedNames m)
                 (if im_selectors imp = [] \<and> trailing = []
                  then let bound = (if im_moduleAlias imp = [] then me_moduleName m else im_moduleAlias imp) in
                       seqA (bindTerm bound (plainBinding (me_moduleKind m) (me_moduleKey m)))
                         (if \<not> me_foreign m \<and> me_moduleTypeKey m \<noteq> []
                          then bindType (bound @ ''.type'') (me_moduleTypeKey m) else ret ())
                  else forA (importOneSelector ld m) (selectorsOf imp trailing))))"

definition compileImport :: "Environment \<Rightarrow> ImportData \<Rightarrow> unit compiling" where
  "compileImport env imp =
     (if im_path imp = [] then compileError ''import selector expected'' (im_pos imp)
      else if length (im_path imp) \<ge> 2 \<and> isFamilyPrefix (hd (im_path imp)) then importModule env imp
      else
        andThen (inScopePrefix (im_path imp)
            (if im_selectors imp = [] \<and> length (im_path imp) > 1 then length (im_path imp) - 1 else length (im_path imp)))
          (\<lambda>found. case found of Some (p, consumed) \<Rightarrow> importFromScope imp p consumed | None \<Rightarrow> importModule env imp))"

end
