(* ===== verification/CompilerTail.thy ===== *)
theory CompilerTail
  imports Captures CompilerImports
begin

text \<open>
  Tail positions and self-calls of \<^verbatim>\<open>@tailrec\<close> methods (\<^verbatim>\<open>src/src/compiler/CompileTailRec.cpp\<close>), and what the
  code generator shares with them.  The code generator is mutually recursive; each routine takes the
  routines it calls back (\<^verbatim>\<open>compileExpr\<close>, \<^verbatim>\<open>compilePattern\<close>) as the record \<open>CompileRules\<close>.
\<close>

record CompileRules =
  r_expr :: "path \<Rightarrow> Node \<Rightarrow> unit compiling"
  r_pattern :: "path \<Rightarrow> Node Pattern \<Rightarrow> nat \<Rightarrow> nat list \<Rightarrow> nat list compiling"
  r_fuel :: nat
  r_env :: Environment

subsection \<open>Tail positions\<close>

definition isStatementOnly :: "Node \<Rightarrow> bool" where
  "isStatementOnly n =
     (case n of
        ValDefN _ _ _ \<Rightarrow> True | DefDefN _ _ _ \<Rightarrow> True | ImportN _ \<Rightarrow> True | TypeDefN _ \<Rightarrow> True
      | TemplateDefN _ _ _ _ _ \<Rightarrow> True | ExtensionDefN _ _ _ _ \<Rightarrow> True | _ \<Rightarrow> False)"

definition caseBodies :: "path \<Rightarrow> ('p, 'n) CaseDef list \<Rightarrow> (path \<times> 'n) list" where
  "caseBodies path cases = map (\<lambda>(j, c). ((3 * j + 3) # path, cd_body c)) (numbered cases)"

text \<open>The nodes whose tail positions are those of \<open>n\<close>, or \<open>n\<close> itself when it is an application.\<close>

definition tailParts :: "path \<Rightarrow> Node \<Rightarrow> (path \<times> Node) list" where
  "tailParts path n =
     (case n of
        IfN _ _ t e \<Rightarrow> (1 # path, t) # map (\<lambda>e. (2 # path, e)) (slot e)
      | BlockN _ stats discard \<Rightarrow>
          (if stats = [] then []
           else if discard then [(0 # path, hd stats)]
           else if isStatementOnly (last stats) then [] else [((length stats - 1) # path, last stats)])
      | MatchN _ _ cases \<Rightarrow> caseBodies path cases
      | TryN _ _ cases fin \<Rightarrow> if fin \<noteq> None then [] else caseBodies path cases
      | ApplyN _ f as _ widening \<Rightarrow>
          (case f of
             SelectN _ q op \<Rightarrow>
               if widening then [(0 # 0 # path, q)]
               else if length as = 1 \<and> (op = ''&&'' \<or> op = ''||'') then [(1 # path, hd as)] else []
           | _ \<Rightarrow> [])
      | _ \<Rightarrow> [])"

definition isTailSite :: "Node \<Rightarrow> bool" where
  "isTailSite n =
     (case n of
        ApplyN _ f as _ widening \<Rightarrow>
          (case f of SelectN _ _ op \<Rightarrow> \<not> widening \<and> \<not> (length as = 1 \<and> (op = ''&&'' \<or> op = ''||'')) | _ \<Rightarrow> True)
      | _ \<Rightarrow> False)"

lemma caseBodies_member: "(p, b) \<in> set (caseBodies path cases) \<Longrightarrow> \<exists>c \<in> set cases. b = cd_body c"
  by (auto simp: caseBodies_def numbered_def dest: set_zip_rightD)

lemma tailParts_size: "(p, m) \<in> set (tailParts path n) \<Longrightarrow> size m < size n"
proof -
  assume "(p, m) \<in> set (tailParts path n)"
  then have "m \<in> set (childSlots n) \<or> (\<exists>q x o'. n = ApplyN q (SelectN x m o') (case n of ApplyN _ _ as _ _ \<Rightarrow> as) (case n of ApplyN _ _ _ b _ \<Rightarrow> b) True)"
    by (cases n) (auto simp: tailParts_def slot_def split: if_splits option.splits Node.splits
        dest!: caseBodies_member intro: hd_in_set last_in_set)
  then show ?thesis
  proof
    assume "m \<in> set (childSlots n)"
    then show ?thesis by (rule childSlots_size)
  next
    assume "\<exists>q x o'. n = ApplyN q (SelectN x m o') (case n of ApplyN _ _ as _ _ \<Rightarrow> as) (case n of ApplyN _ _ _ b _ \<Rightarrow> b) True"
    then obtain q x o' as b where n: "n = ApplyN q (SelectN x m o') as b True" by blast
    show ?thesis unfolding n by simp
  qed
qed

function collectTail :: "path \<Rightarrow> Node \<Rightarrow> path list" where
  "collectTail path n =
     (if isTailSite n then [path] else concat (map (\<lambda>(p, m). collectTail p m) (tailParts path n)))"
  by auto
termination
  by (relation "measure (\<lambda>(_, n). size n)") (auto dest: tailParts_size)

declare collectTail.simps [simp del]

text \<open>The parts of a node in which its \<^verbatim>\<open>return\<close>s stand, with whether they are guarded by a \<^verbatim>\<open>try\<close>.\<close>

definition returnParts :: "path \<Rightarrow> bool \<Rightarrow> Node \<Rightarrow> (path \<times> bool \<times> Node) list" where
  "returnParts path guarded n =
     (let each = (\<lambda>base xs. map (\<lambda>(k, x). ((k + base) # path, guarded, x)) (numbered xs)) in
      case n of
        ReturnN _ v \<Rightarrow> map (\<lambda>v. (0 # path, guarded, v)) (slot v)
      | TryN _ b cases fin \<Rightarrow>
          (0 # path, True, b) #
          concat (map (\<lambda>(j, c). map (\<lambda>g. ((3 * j + 2) # path, True, g)) (slot (cd_guard c)) @
             [((3 * j + 3) # path, guarded \<or> fin \<noteq> None, cd_body c)]) (numbered cases)) @
          map (\<lambda>f. ((3 * length cases + 1) # path, True, f)) (slot fin)
      | InterpStringN _ _ _ as _ \<Rightarrow> each 0 as
      | SelectN _ q _ \<Rightarrow> [(0 # path, guarded, q)]
      | ApplyN _ f as _ _ \<Rightarrow> (0 # path, guarded, f) # each 1 as
      | TypeApplyN _ f _ \<Rightarrow> [(0 # path, guarded, f)]
      | InfixN _ l _ r \<Rightarrow> [(0 # path, guarded, l), (1 # path, guarded, r)]
      | PrefixN _ _ e \<Rightarrow> [(0 # path, guarded, e)]
      | AssignN _ t v \<Rightarrow> [(0 # path, guarded, t), (1 # path, guarded, v)]
      | IfN _ c t e \<Rightarrow> [(0 # path, guarded, c), (1 # path, guarded, t)] @ map (\<lambda>e. (2 # path, guarded, e)) (slot e)
      | WhileN _ c b \<Rightarrow> [(0 # path, guarded, c), (1 # path, guarded, b)]
      | BlockN _ stats _ \<Rightarrow> each 0 stats
      | TypedN _ e _ \<Rightarrow> [(0 # path, guarded, e)]
      | ParensN _ e \<Rightarrow> [(0 # path, guarded, e)]
      | TupleN _ es \<Rightarrow> each 0 es
      | SpliceN _ e \<Rightarrow> [(0 # path, guarded, e)]
      | NamedArgN _ _ v \<Rightarrow> [(0 # path, guarded, v)]
      | ValDefN v r _ \<Rightarrow> if vd_isLazy v then [] else map (\<lambda>r. (0 # path, guarded, r)) (slot r)
      | NewN _ _ as _ \<Rightarrow> each 0 as
      | MatchN _ e cases \<Rightarrow>
          (0 # path, guarded, e) #
          concat (map (\<lambda>(j, c). map (\<lambda>g. ((3 * j + 2) # path, guarded, g)) (slot (cd_guard c)) @
             [((3 * j + 3) # path, guarded, cd_body c)]) (numbered cases))
      | ThrowN _ v \<Rightarrow> [(0 # path, guarded, v)]
      | _ \<Rightarrow> [])"

lemma numbered_member: "(k, x) \<in> set (numbered xs) \<Longrightarrow> x \<in> set xs"
  by (auto simp: numbered_def dest: set_zip_rightD)

lemma returnParts_size: "(p, g, m) \<in> set (returnParts path guarded n) \<Longrightarrow> size m < size n"
proof -
  assume "(p, g, m) \<in> set (returnParts path guarded n)"
  then have "m \<in> set (childSlots n)"
    by (cases n) (auto simp: returnParts_def slot_def split: if_splits option.splits dest: numbered_member)
  then show ?thesis by (rule childSlots_size)
qed

function collectReturns :: "path \<Rightarrow> bool \<Rightarrow> Node \<Rightarrow> path list" where
  "collectReturns path guarded n =
     (case n of
        ReturnN _ (Some v) \<Rightarrow> if guarded then [] else collectTail (0 # path) v
      | _ \<Rightarrow> []) @
     concat (map (\<lambda>(p, g, m). collectReturns p g m) (returnParts path guarded n))"
  by auto
termination
  by (relation "measure (\<lambda>(_, _, n). size n)") (auto dest: returnParts_size)

declare collectReturns.simps [simp del]

definition checkTailRecOverridable :: "DefHead \<Rightarrow> bool \<Rightarrow> unit compiling" where
  "checkTailRecOverridable d finalOwner =
     (if isPrivate (dd_mods d) \<or> Modifiers.isFinal (dd_mods d) \<or> finalOwner then ret ()
      else compileError (''TailRec optimisation not applicable, method '' @ dd_name d @
             '' is neither private nor final so can be overridden'') (dd_pos d))"

definition beginTailRec :: "TailRecTarget \<Rightarrow> path \<Rightarrow> Node \<Rightarrow> nat compiling" where
  "beginTailRec target bodyPath body s =
     (case tt_lists target of
        [] \<Rightarrow> Inl NullPointer
      | ps # _ \<Rightarrow>
          Inr (length (c_tails s),
               s\<lparr>c_tails := c_tails s @
                 [\<lparr>ts_target = target, ts_owner = length (c_fns s), ts_lists = ps # curriedLists (tt_body target),
                   ts_sites = set (collectTail bodyPath body) \<union> set (collectReturns bodyPath False body),
                   ts_calls = 0, ts_otherReceiver = False\<rparr>]\<rparr>))"

subsection \<open>Self-calls\<close>

text \<open>The argument lists of nested applications, outermost list of the method first, and the head.\<close>

fun peelCalls :: "path \<Rightarrow> Node \<Rightarrow> (path \<times> Node) list list \<times> Node" where
  "peelCalls path (ApplyN p f as b w) =
     (case peelCalls (0 # path) f of (ls, h) \<Rightarrow> (ls @ [map (\<lambda>(k, a). ((k + 1) # path, a)) (numbered as)], h))"
| "peelCalls path (TypeApplyN p f ts) = peelCalls (0 # path) f"
| "peelCalls path n = ([], n)"

text \<open>The method reaches its own body as a capture of every function up to the owner.\<close>

fun capturedToOwner :: "nat \<Rightarrow> FunctionState list \<Rightarrow> byte_string \<Rightarrow> bool" where
  "capturedToOwner owner [] name = False"
| "capturedToOwner owner (f # fs) name =
     (case findInFunction f name of
        None \<Rightarrow> False
      | Some li \<Rightarrow> li_captured li \<and> (length (f # fs) = owner \<or> fn_hasParent f \<and> capturedToOwner owner fs name))"

fun receiverIsSelf :: "nat \<Rightarrow> FunctionState list \<Rightarrow> byte_string \<Rightarrow> bool" where
  "receiverIsSelf owner [] q = True"
| "receiverIsSelf owner (f # fs) q =
     (case findInFunction f q of
        None \<Rightarrow> False
      | Some li \<Rightarrow>
          let receiverSlot = bm_method (fnBody f) \<and> li_slot li = 0 \<and> \<not> li_captured li in
          (li_captured li \<or> receiverSlot) \<and>
          (length (f # fs) = owner \<or> receiverSlot \<or> \<not> fn_hasParent f \<or> receiverIsSelf owner fs q))"

definition updateTail :: "nat \<Rightarrow> (TailRecState \<Rightarrow> TailRecState) \<Rightarrow> unit compiling" where
  "updateTail i g = putA (\<lambda>s. s\<lparr>c_tails := (c_tails s)[i := g (c_tails s ! i)]\<rparr>)"

definition isSelfName :: "TailRecState \<Rightarrow> (path \<times> Node) list list \<Rightarrow> SourcePos \<Rightarrow> bool compiling" where
  "isSelfName st argLists pos =
     (let t = ts_target st; name = dd_name (tt_head t) in
      andThen (getA (\<lambda>s. visibleImport s name)) (\<lambda>imported.
        if imported \<noteq> None then ret False
        else
          andThen (resolve name pos) (\<lambda>r.
            case tt_tailKind t of
              TR_Global \<Rightarrow>
                (case r of
                   ResGlobal g \<Rightarrow>
                     getA (\<lambda>s. if overloadArities (c_globals s) name = [] then gb_key g = tt_key t
                               else (case overloadFor (c_globals s) name (length (hd argLists)) of
                                       None \<Rightarrow> False
                                     | Some alt \<Rightarrow> ov_key alt = tt_key t))
                 | _ \<Rightarrow> ret False)
            | TR_Member \<Rightarrow> (case r of ResMember m \<Rightarrow> ret (mi_key m = tt_key t) | _ \<Rightarrow> ret False)
            | TR_Local \<Rightarrow> (case r of ResLocal _ \<Rightarrow> getA (\<lambda>s. capturedToOwner (ts_owner st) (c_fns s) name) | _ \<Rightarrow> ret False)
            | TR_Extension \<Rightarrow> ret False)))"

definition isSelfReceiver :: "TailRecState \<Rightarrow> Node \<Rightarrow> bool compiling" where
  "isSelfReceiver st q =
     (case q of
        IdentN _ name \<Rightarrow>
          andThen (getA (\<lambda>s.
            if tt_tailKind (ts_target st) = TR_Member
            then name = ''this'' \<or>
                 (case c_tmpl s of None \<Rightarrow> False | Some t \<Rightarrow> tm_selfName t \<noteq> [] \<and> name = tm_selfName t)
            else name = tt_receiverAlias (ts_target st))) (\<lambda>alias.
            if \<not> alias then ret False
            else
              andThen (capture name) (\<lambda>found.
                if found = None then ret False else getA (\<lambda>s. receiverIsSelf (ts_owner st) (c_fns s) name)))
      | _ \<Rightarrow> ret False)"

definition matchSelfCall :: "nat \<Rightarrow> path \<Rightarrow> Node \<Rightarrow> (path \<times> Node) list list option compiling" where
  "matchSelfCall i path a =
     andThen (getA (\<lambda>s. c_tails s ! i)) (\<lambda>st.
       case peelCalls path a of (argLists, head) \<Rightarrow>
       let t = ts_target st; name = dd_name (tt_head t);
           answer = (\<lambda>yes. ret (if yes then Some argLists else None))
       in if length argLists \<noteq> length (ts_lists st) then ret None
          else
            case head of
              IdentN pos n \<Rightarrow>
                if n \<noteq> name \<or> tt_tailKind t = TR_Extension then ret None
                else andThen (isSelfName st argLists pos) answer
            | SelectN _ q n \<Rightarrow>
                if n \<noteq> name \<or> tt_tailKind t \<noteq> TR_Member \<and> tt_tailKind t \<noteq> TR_Extension then ret None
                else
                  andThen (isSelfReceiver st q) (\<lambda>self.
                    if \<not> self then seqA (updateTail i (\<lambda>st. st\<lparr>ts_otherReceiver := True\<rparr>)) (ret None)
                    else if tt_tailKind t = TR_Member
                    then andThen (getA (\<lambda>s. memberOf s name)) (\<lambda>m.
                           answer (case m of None \<Rightarrow> False | Some m \<Rightarrow> mi_key m = tt_key t))
                    else answer True)
            | _ \<Rightarrow> ret None)"

end
