(* ===== verification/CompilerFunctions.thy ===== *)
theory CompilerFunctions
  imports CompilerTail
begin

text \<open>
  Function bodies (\<^verbatim>\<open>compileFunction\<close>, \<^verbatim>\<open>recordParamsAndDefaults\<close>, \<^verbatim>\<open>compileDefaultBlock\<close> and what they
  call in \<^verbatim>\<open>src/src/compiler/Compiler.cpp\<close>), named arguments, and the loop of a tail call
  (\<^verbatim>\<open>src/src/compiler/CompileTailRec.cpp\<close>).
\<close>

subsection \<open>Switching the current function\<close>

text \<open>\<^verbatim>\<open>saved = fn_; fn_ = &fs; ...; fn_ = saved\<close>, with the final state of the inner function.\<close>

definition inFunction :: "FunctionState \<Rightarrow> 'a compiling \<Rightarrow> ('a \<times> FunctionState) compiling" where
  "inFunction f m s =
     (case m (s\<lparr>c_fns := f # c_fns s\<rparr>) of
        Inl e \<Rightarrow> Inl e
      | Inr (x, s') \<Rightarrow>
          (case c_fns s' of
             [] \<Rightarrow> Inl NullPointer
           | f' # fs \<Rightarrow> Inr ((x, f'), s'\<lparr>c_fns := fs\<rparr>)))"

text \<open>The destructor of \<^verbatim>\<open>FunctionState\<close> records the names that are still in scope.\<close>

definition finishedModule :: "FunctionState \<Rightarrow> BytecodeModule" where
  "finishedModule f =
     Module (foldl (\<lambda>b sc. recordSlotNames sc b) (fnBody f) (rev (fn_scopes f))) (moduleBlocks (fn_mod f))"

definition bindBack :: "byte_string \<Rightarrow> LocalInfo \<Rightarrow> unit compiling" where
  "bindBack name info = updateFn (\<lambda>f. f\<lparr>fn_scopes := setInnermost name info (fn_scopes f)\<rparr>)"

definition analyseCaptures :: "CompileRules \<Rightarrow> Node Param list \<Rightarrow> path \<Rightarrow> path \<Rightarrow> Node \<Rightarrow> unit compiling" where
  "analyseCaptures r params defPath bodyPath body s =
     (case captureAnalysis (r_fuel r) (c_shared s) (c_boxed s) params defPath bodyPath body of
        Inl e \<Rightarrow> Inl e
      | Inr boxed \<Rightarrow> Inr ((), s\<lparr>c_boxed := boxed\<rparr>))"

subsection \<open>Defaults\<close>

definition setSizes :: "int \<Rightarrow> unit compiling" where
  "setSizes arity = updateFn (\<lambda>f.
     onBody (\<lambda>b. b\<lparr>bm_localCount := int (fn_nextSlot f) - arity, bm_maxStack := fn_maxDepth f\<rparr>) f)"

definition prepassFunction :: FunctionState where
  "prepassFunction =
     newFunction\<lparr>fn_mod := Module (newBody\<lparr>bm_name := ''<default-prepass>''\<rparr>) [], fn_hasParent := True, fn_scopes := [[]]\<rparr>"

text \<open>The names a default may read: everything but the parameter it belongs to and the later ones.\<close>

definition defaultScope :: "int \<Rightarrow> nat \<Rightarrow> nat \<Rightarrow> LocalScope \<Rightarrow> LocalScope" where
  "defaultScope paramBase arity index outer =
     filter (\<lambda>(n, info).
       \<not> (int (li_slot info) \<ge> paramBase \<and> int (li_slot info) < paramBase + int arity \<and>
          int (li_slot info) - paramBase \<ge> int index)) outer"

definition defaultFunction :: "Node Param list \<Rightarrow> nat \<Rightarrow> bool \<Rightarrow> byte_string \<Rightarrow> FunctionState \<Rightarrow> FunctionState" where
  "defaultFunction params index method name callee =
     newFunction\<lparr>fn_mod := Module (newBody\<lparr>bm_name := name @ ''$default$'' @ natToString index, bm_method := method,
                   bm_arity := int (fn_nextSlot callee)\<rparr>) [],
       fn_scopes := [defaultScope (if method then 1 else 0) (length params) index
                       (if fn_scopes callee = [] then [] else last (fn_scopes callee))],
       fn_nextSlot := fn_nextSlot callee\<rparr>"

definition compileDefaultBlock ::
  "CompileRules \<Rightarrow> Node Param list \<Rightarrow> path \<Rightarrow> nat \<Rightarrow> bool \<Rightarrow> byte_string \<Rightarrow> Node \<Rightarrow> SourcePos \<Rightarrow> unit compiling" where
  "compileDefaultBlock r params defPath index method name value pos =
     andThen theFn (\<lambda>callee.
     andThen (inFunction (defaultFunction params index method name callee)
        (seqA (r_expr r ((index + 1) # defPath) value)
        (seqA (emitC RETURN 0 pos (-1)) (setSizes (int (fn_nextSlot callee)))))) (\<lambda>(_, sub).
     andThen (nestBlock (finishedModule sub)) (\<lambda>k.
       updateFn (onBody (setDefaultBlock (index + (if method then 1 else 0)) k)))))"

definition forDefaults :: "Node Param list \<Rightarrow> (nat \<Rightarrow> Node \<Rightarrow> SourcePos \<Rightarrow> unit compiling) \<Rightarrow> unit compiling" where
  "forDefaults params f =
     forA (\<lambda>(k, p). optionally (\<lambda>v. f k v (pa_pos (pa_head p))) (pa_default p)) (numbered params)"

definition recordParamsAndDefaults :: "CompileRules \<Rightarrow> Node Param list \<Rightarrow> path \<Rightarrow> bool \<Rightarrow> byte_string \<Rightarrow> unit compiling" where
  "recordParamsAndDefaults r params defPath method name =
     seqA (updateFn (onBody (setParamNames
            ((if method then [''this''] else []) @ map (\<lambda>p. pa_name (pa_head p)) params))))
     (seqA (forDefaults params (\<lambda>k v pos.
             seqA (inFunction prepassFunction (r_expr r ((k + 1) # defPath) v)) (ret ())))
       (forDefaults params (\<lambda>k v pos. compileDefaultBlock r params defPath k method name v pos)))"

subsection \<open>Functions\<close>

datatype FnShape = FS_Lambda | FS_Def | FS_Method

definition refuseByNameParams :: "Node Param list \<Rightarrow> byte_string \<Rightarrow> unit compiling" where
  "refuseByNameParams params what =
     (case filter (\<lambda>p. pa_byName (pa_head p)) params of
        [] \<Rightarrow> ret ()
      | p # _ \<Rightarrow>
          compileError (''a by-name parameter is not supported on '' @ what @
            '': there is no name at the call site to resolve it against '' @ [CHR 0xE2, CHR 0x80, CHR 0x94] @
            '' take a function instead'') (pa_pos (pa_head p)))"

definition isVariadic :: "Node Param list \<Rightarrow> bool" where
  "isVariadic params \<longleftrightarrow> params \<noteq> [] \<and> pa_repeated (pa_head (last params))"

definition refuseDefaults :: "Node Param list \<Rightarrow> unit compiling" where
  "refuseDefaults params =
     (case filter (\<lambda>p. pa_default p \<noteq> None \<and> isVariadic params) params of
        [] \<Rightarrow> ret ()
      | p # _ \<Rightarrow>
          compileError (''a default parameter value is not supported on a method with a repeated parameter: the '' @
            ''callee cannot tell an omitted default from an empty repeated argument'') (pa_pos (pa_head p)))"

definition widenDoubleParams :: "Node Param list \<Rightarrow> bool \<Rightarrow> unit compiling" where
  "widenDoubleParams params method =
     forA (\<lambda>(k, p).
       let h = pa_head p; slot = k + (if method then 1 else 0) in
       if pa_byName h \<or> pa_repeated h \<or> \<not> isDoubleTypeName (pa_type h) then ret ()
       else
         seqA (emitC PUSH_LOCAL slot (pa_pos h) 1)
         (seqA (andThen (sendSite ''toDouble'' 0) (\<lambda>k. emitC SEND k (pa_pos h) 0))
           (emitC STORE_LOCAL slot (pa_pos h) (-1)))) (numbered params)"

definition bindSelf :: "byte_string \<Rightarrow> unit compiling" where
  "bindSelf selfAlias =
     andThen newSlot (\<lambda>slot.
       let self = \<lparr>li_slot = slot, li_kind = BK_Param, li_boxed = False, li_captured = False, li_byNameMasks = []\<rparr> in
       seqA (bindBack ''this'' self)
       (seqA (andThen (getA c_tmpl) (\<lambda>t. case t of
                None \<Rightarrow> ret ()
              | Some t \<Rightarrow> if tm_selfName t = [] then ret () else bindBack (tm_selfName t) self))
         (if selfAlias = [] then ret () else bindBack selfAlias self)))"

definition bindParams :: "u32 \<Rightarrow> Node Param list \<Rightarrow> unit compiling" where
  "bindParams byName params =
     forA (\<lambda>(k, p).
       andThen newSlot (\<lambda>slot.
         if pa_name (pa_head p) = ''_'' then ret ()
         else bindBack (pa_name (pa_head p))
                \<lparr>li_slot = slot, li_kind = (if inMask byName k then BK_ByNameParam else BK_Param), li_boxed = False,
                 li_captured = False, li_byNameMasks = []\<rparr>)) (numbered params)"

definition startFunction :: "byte_string \<Rightarrow> FnShape \<Rightarrow> bool \<Rightarrow> FunctionState" where
  "startFunction name shape paramless =
     newFunction\<lparr>fn_mod := Module (newBody\<lparr>bm_name := name, bm_method := (shape = FS_Method), bm_paramless := paramless\<rparr>) [],
       fn_hasParent := (shape \<noteq> FS_Method), fn_allowsReturn := (shape \<noteq> FS_Lambda), fn_scopes := [[]]\<rparr>"

definition isCurriedBody :: "Node \<Rightarrow> bool" where
  "isCurriedBody body = (case body of LambdaN _ _ _ _ curried \<Rightarrow> curried | _ \<Rightarrow> False)"

text \<open>This body is the loop, or the chain of lambdas of a curried method, or a function literal inside a loop.\<close>

definition enterTailRec ::
  "TailRecTarget option \<Rightarrow> FnShape \<Rightarrow> nat option \<Rightarrow> path \<Rightarrow> Node \<Rightarrow> nat option compiling" where
  "enterTailRec tailrec shape savedTail bodyPath body =
     (case tailrec of
        Some t \<Rightarrow>
          if isCurriedBody body then seqA (putA (\<lambda>s. s\<lparr>c_curriedTailRec := Some t\<rparr>)) (ret None)
          else andThen (beginTailRec t bodyPath body) (\<lambda>i.
                 seqA (updateFn (\<lambda>f. f\<lparr>fn_tailrec := Some i\<rparr>)) (ret (Some i)))
      | None \<Rightarrow>
          if shape = FS_Lambda then seqA (updateFn (\<lambda>f. f\<lparr>fn_tailrec := savedTail\<rparr>)) (ret None) else ret None)"

definition requireCalls :: "TailRecTarget option \<Rightarrow> nat option \<Rightarrow> unit compiling" where
  "requireCalls tailrec loop =
     (case (tailrec, loop) of
        (Some t, Some i) \<Rightarrow>
          andThen (getA (\<lambda>s. c_tails s ! i)) (\<lambda>st.
            if ts_calls st = 0 \<and> \<not> ts_otherReceiver st
            then compileError (''TailRec optimisation not applicable, method '' @ dd_name (tt_head t) @
                   '' contains no recursive calls'') (dd_pos (tt_head t))
            else ret ())
      | _ \<Rightarrow> ret ())"

definition functionBody ::
  "CompileRules \<Rightarrow> byte_string \<Rightarrow> Node Param list \<Rightarrow> path \<Rightarrow> path \<Rightarrow> Node \<Rightarrow> FnShape \<Rightarrow> SourcePos \<Rightarrow> u32 \<Rightarrow> byte_string \<Rightarrow>
   TailRecTarget option \<Rightarrow> nat option \<Rightarrow> unit compiling" where
  "functionBody r name params defPath bodyPath body shape pos byName selfAlias tailrec savedTail =
     (let method = (shape = FS_Method); arity = int (length params) + (if method then 1 else 0) in
      seqA (if method then bindSelf selfAlias else ret ())
      (seqA (bindParams byName params)
      (seqA (updateFn (onBody (\<lambda>b. b\<lparr>bm_arity := arity, bm_variadic := isVariadic params\<rparr>)))
      (seqA (analyseCaptures r params defPath bodyPath body)
      (andThen (getA c_curriedTailRec) (\<lambda>savedCurried.
       andThen (enterTailRec tailrec shape savedTail bodyPath body) (\<lambda>loop.
       seqA (widenDoubleParams params method)
       (seqA (r_expr r bodyPath body)
       (seqA (putA (\<lambda>s. s\<lparr>c_curriedTailRec := savedCurried\<rparr>))
       (seqA (requireCalls tailrec loop)
       (seqA (emitC RETURN 0 pos (-1))
       (seqA (recordParamsAndDefaults r params defPath method name)
         (setSizes arity))))))))))))) "

text \<open>In the enclosing function: the captured slots, then the function object.\<close>

definition makeFunction :: "BytecodeModule \<Rightarrow> SourcePos \<Rightarrow> unit compiling" where
  "makeFunction m pos =
     (let caps = bm_captures (moduleBody m) in
      seqA (forA (\<lambda>c. emitC PUSH_LOCAL (nat (cp_parentSlot c)) pos 1) caps)
        (andThen (nestBlock m) (\<lambda>index. emitC MAKE_FN index pos (1 - int (length caps)))))"

definition compileFunction ::
  "CompileRules \<Rightarrow> byte_string \<Rightarrow> Node Param list \<Rightarrow> path \<Rightarrow> path \<Rightarrow> Node \<Rightarrow> FnShape \<Rightarrow> SourcePos \<Rightarrow> bool \<Rightarrow> bool \<Rightarrow> byte_string \<Rightarrow>
   TailRecTarget option \<Rightarrow> unit compiling" where
  "compileFunction r name params defPath bodyPath body shape pos paramless allowByName selfAlias tailrec =
     seqA (refuseDefaults params)
     (seqA (if allowByName then ret () else refuseByNameParams params ''a function literal'')
     (andThen (if allowByName then lift (byNameMaskOfParams params) else ret 0) (\<lambda>byName.
      andThen theFn (\<lambda>saved.
      andThen (inFunction (startFunction name shape paramless)
         (functionBody r name params defPath bodyPath body shape pos byName selfAlias tailrec (fn_tailrec saved))) (\<lambda>(_, f).
      makeFunction (finishedModule f) pos)))))"

definition compileLazyThunk :: "CompileRules \<Rightarrow> path \<Rightarrow> Node \<Rightarrow> SourcePos \<Rightarrow> unit compiling" where
  "compileLazyThunk r path rhs pos =
     seqA (compileFunction r ''<lazy>'' [] path path rhs FS_Lambda pos False False [] None) (emitC MAKE_LAZY 0 pos 0)"

definition compileByNameArgument :: "CompileRules \<Rightarrow> path \<Rightarrow> Node \<Rightarrow> unit compiling" where
  "compileByNameArgument r path arg =
     compileFunction r ''<by-name>'' [] path path arg FS_Lambda (nodePos arg) False False [] None"

subsection \<open>Arguments\<close>

definition isSpliceArg :: "Node \<Rightarrow> bool" where
  "isSpliceArg n = (case n of SpliceN _ _ \<Rightarrow> True | _ \<Rightarrow> False)"

definition isNamedArg :: "Node \<Rightarrow> bool" where
  "isNamedArg n = (case n of NamedArgN _ _ _ \<Rightarrow> True | _ \<Rightarrow> False)"

text \<open>The keywords and the number of positional arguments; \<open>spliceMsg\<close> is the message for a splice.\<close>

fun splitArgs ::
  "byte_string \<Rightarrow> byte_string list \<Rightarrow> nat \<Rightarrow> Node list \<Rightarrow> CompilerError + byte_string list \<times> nat" where
  "splitArgs spliceMsg keywords positional [] = Inr (keywords, positional)"
| "splitArgs spliceMsg keywords positional (arg # args) =
     (case arg of
        NamedArgN pos name _ \<Rightarrow>
          if name \<in> set keywords
          then Inl (CompileError (''parameter '' @ name @ '' is specified twice'') pos)
          else splitArgs spliceMsg (keywords @ [name]) positional args
      | _ \<Rightarrow>
          if keywords \<noteq> [] then Inl (CompileError ''positional after named argument'' (nodePos arg))
          else if isSpliceArg arg then Inl (CompileError spliceMsg (nodePos arg))
          else splitArgs spliceMsg keywords (positional + 1) args)"

definition splitNamedArgs :: "Node list \<Rightarrow> CompilerError + byte_string list \<times> nat" where
  "splitNamedArgs args = splitArgs ''a splice cannot be mixed with named arguments'' [] 0 args"

text \<open>The value of an argument that may be named, with its path.\<close>

definition argValue :: "path \<times> Node \<Rightarrow> path \<times> Node" where
  "argValue pa = (case pa of (p, NamedArgN _ _ v) \<Rightarrow> (0 # p, v) | _ \<Rightarrow> pa)"

definition compileAll :: "CompileRules \<Rightarrow> (path \<times> Node) list \<Rightarrow> unit compiling" where
  "compileAll r args = forA (\<lambda>(p, a). r_expr r p a) args"

definition childArgs :: "nat \<Rightarrow> path \<Rightarrow> Node list \<Rightarrow> (path \<times> Node) list" where
  "childArgs base path args = map (\<lambda>(k, a). ((k + base) # path, a)) (numbered args)"

subsection \<open>Tail calls\<close>

record Dest =
  ds_slot :: "nat option"
  ds_widen :: bool

definition outerParamSlot :: "byte_string \<Rightarrow> nat compiling" where
  "outerParamSlot name s =
     (case c_fns s of
        [] \<Rightarrow> Inl NullPointer
      | f # fs \<Rightarrow>
          (case (if fn_scopes f = [] then None else map_of (last (fn_scopes f)) name) of
             Some info \<Rightarrow>
               if li_captured info then Inr (li_slot info, s)
               else
                 (case captureInto name fs of
                    (None, fs') \<Rightarrow> Inl (LogicError (''compiler: parameter '' @ name @ '' of a curried method not found''))
                  | (Some outer, fs') \<Rightarrow>
                      (case captureSlot name outer f of (mine, f') \<Rightarrow> Inr (li_slot mine, s\<lparr>c_fns := f' # fs'\<rparr>)))
           | None \<Rightarrow>
               (case captureInto name fs of
                  (None, fs') \<Rightarrow> Inl (LogicError (''compiler: parameter '' @ name @ '' of a curried method not found''))
                | (Some outer, fs') \<Rightarrow>
                    (case captureSlot name outer f of (mine, f') \<Rightarrow> Inr (li_slot mine, s\<lparr>c_fns := f' # fs'\<rparr>)))))"

definition destFor :: "TailRecState \<Rightarrow> nat \<Rightarrow> nat \<Rightarrow> Dest compiling" where
  "destFor st lst k =
     (let h = pa_head (ts_lists st ! lst ! k) in
      andThen theFn (\<lambda>f.
      if lst + 1 = length (ts_lists st)
      then ret \<lparr>ds_slot = Some ((if bm_method (fnBody f) then 1 else 0) + k), ds_widen = False\<rparr>
      else if pa_name h = ''_'' \<or>
        (\<exists>ps \<in> set (drop (lst + 1) (ts_lists st)). \<exists>q \<in> set ps. pa_name (pa_head q) = pa_name h)
      then ret \<lparr>ds_slot = None, ds_widen = False\<rparr>
      else andThen (outerParamSlot (pa_name h)) (\<lambda>slot.
             ret \<lparr>ds_slot = Some slot, ds_widen = \<not> pa_byName h \<and> \<not> pa_repeated h \<and> isDoubleTypeName (pa_type h)\<rparr>)))"

definition storeDest :: "SourcePos \<Rightarrow> Dest \<Rightarrow> unit compiling" where
  "storeDest pos d =
     (case ds_slot d of
        None \<Rightarrow> emitC POP 0 pos (-1)
      | Some k' \<Rightarrow>
          seqA (if ds_widen d then andThen (sendSite ''toDouble'' 0) (\<lambda>k. emitC SEND k pos 0) else ret ())
            (emitC STORE_LOCAL k' pos (-1)))"

definition pushArg :: "CompileRules \<Rightarrow> u32 \<Rightarrow> nat \<Rightarrow> path \<times> Node \<Rightarrow> unit compiling" where
  "pushArg r byName k pa = (if inMask byName k then compileByNameArgument r (fst pa) (snd pa) else r_expr r (fst pa) (snd pa))"

text \<open>The repeated parameter: the list the callee would have built.\<close>

fun varargs :: "CompileRules \<Rightarrow> (path \<times> Node) list \<Rightarrow> bool compiling" where
  "varargs r [] = ret False"
| "varargs r ((p, a) # rest) =
     (case a of
        SpliceN pos e \<Rightarrow>
          if rest \<noteq> [] then compileError ''a splice must be the last argument'' pos
          else seqA (r_expr r (0 # p) e) (ret True)
      | _ \<Rightarrow> seqA (r_expr r p a) (varargs r rest))"

definition tailKeyword ::
  "CompileRules \<Rightarrow> TailRecState \<Rightarrow> nat \<Rightarrow> u32 \<Rightarrow> byte_string \<times> path \<times> Node \<Rightarrow> nat list \<times> Dest list \<Rightarrow> (nat list \<times> Dest list) compiling" where
  "tailKeyword r st lst byName kw acc =
     (let (keyword, pa) = kw; (given, dests) = acc; params = ts_lists st ! lst; name = dd_name (tt_head (ts_target st));
          k = length (takeWhile (\<lambda>p. pa_name (pa_head p) \<noteq> keyword) params)
      in if k = length params
         then compileError (name @ '' has no parameter named '' @ [CHR 0x27] @ keyword @ [CHR 0x27]) (nodePos (snd pa))
         else if k \<in> set given
         then compileError (name @ '' received parameter '' @ [CHR 0x27] @ keyword @ [CHR 0x27] @ '' twice'') (nodePos (snd pa))
         else
           seqA (pushArg r byName k (argValue pa))
           (andThen (destFor st lst k) (\<lambda>d. ret (k # given, dests @ [d]))))"

fun tailKeywords ::
  "CompileRules \<Rightarrow> TailRecState \<Rightarrow> nat \<Rightarrow> u32 \<Rightarrow> (byte_string \<times> path \<times> Node) list \<Rightarrow> nat list \<times> Dest list \<Rightarrow> (nat list \<times> Dest list) compiling" where
  "tailKeywords r st lst byName [] acc = ret acc"
| "tailKeywords r st lst byName (kw # kws) acc =
     andThen (tailKeyword r st lst byName kw acc) (tailKeywords r st lst byName kws)"

fun tailPositional ::
  "CompileRules \<Rightarrow> TailRecState \<Rightarrow> nat \<Rightarrow> u32 \<Rightarrow> (nat \<times> path \<times> Node) list \<Rightarrow> nat list \<times> Dest list \<Rightarrow> (nat list \<times> Dest list) compiling" where
  "tailPositional r st lst byName [] acc = ret acc"
| "tailPositional r st lst byName ((k, pa) # args) acc =
     (if isSpliceArg (snd pa) then compileError ''a splice can only supply a repeated parameter'' (nodePos (snd pa))
      else
        seqA (pushArg r byName k pa)
        (andThen (destFor st lst k) (\<lambda>d. tailPositional r st lst byName args (k # fst acc, snd acc @ [d]))))"

definition tailList ::
  "CompileRules \<Rightarrow> TailRecState \<Rightarrow> SourcePos \<Rightarrow> nat \<Rightarrow> (path \<times> Node) list \<Rightarrow> Dest list \<Rightarrow> (nat list \<times> Dest list) compiling" where
  "tailList r st pos lst args dests =
     (let params = ts_lists st ! lst; name = dd_name (tt_head (ts_target st));
          variadic = isVariadic params; fixed = (if variadic then length params - 1 else length params);
          named = list_ex (\<lambda>(p, a). isNamedArg a) args
      in andThen (lift (byNameMaskOfParams params)) (\<lambda>byName.
         andThen (if named then lift (splitNamedArgs (map snd args)) else ret ([], length args)) (\<lambda>(keywords, positional).
         if variadic \<and> keywords \<noteq> []
         then compileError (name @ '' does not take named arguments: it has a repeated parameter'') (nodePos (snd (args ! positional)))
         else
           andThen (tailPositional r st lst byName (numbered (take (min positional fixed) args)) ([], dests)) (\<lambda>acc.
           if \<not> variadic \<and> positional > fixed
           then compileError (''too many arguments for method '' @ name) (nodePos (snd (args ! fixed)))
           else
             andThen
               (if variadic \<and> positional \<ge> fixed
                then
                  let n = positional - fixed in
                  seqA (andThen (globalKey ''__varargs'') (\<lambda>key. emitConst PUSH_GLOBAL (RSymbol key) pos 1))
                  (andThen (varargs r (take n (drop fixed args))) (\<lambda>spread.
                   seqA (if spread then emitC CALL_SPREAD (n - 1) pos (- int n) else emitC CALL n pos (- int n))
                     (andThen (destFor st lst fixed) (\<lambda>d. ret (fixed # fst acc, snd acc @ [d])))))
                else ret acc)
               (tailKeywords r st lst byName (zip keywords (drop positional args)))))))"

fun tailLists ::
  "CompileRules \<Rightarrow> TailRecState \<Rightarrow> SourcePos \<Rightarrow> (nat \<times> (path \<times> Node) list) list \<Rightarrow> nat list list \<Rightarrow> Dest list \<Rightarrow> (nat list list \<times> Dest list) compiling" where
  "tailLists r st pos [] given dests = ret (given, dests)"
| "tailLists r st pos ((lst, args) # rest) given dests =
     andThen (tailList r st pos lst args dests) (\<lambda>(g, dests'). tailLists r st pos rest (given @ [g]) dests')"

text \<open>A default sees the parameters and captures of the method only, and is not part of the loop.\<close>

definition tailDefault :: "CompileRules \<Rightarrow> nat \<Rightarrow> TailRecState \<Rightarrow> SourcePos \<Rightarrow> nat \<Rightarrow> nat \<Rightarrow> unit compiling" where
  "tailDefault r i st pos lst k =
     (let p = ts_lists st ! lst ! k; name = dd_name (tt_head (ts_target st)) in
      case pa_default p of
        None \<Rightarrow> compileError (name @ '' is missing argument '' @ [CHR 0x27] @ pa_name (pa_head p) @ [CHR 0x27]) pos
      | Some v \<Rightarrow>
          andThen (destFor st lst k) (\<lambda>d.
          andThen theFn (\<lambda>f.
          seqA (updateFn (\<lambda>f. f\<lparr>fn_scopes := drop (length (fn_scopes f) - 1) (fn_scopes f), fn_tailrec := None\<rparr>))
          (seqA (r_expr r ((k + 1) # replicate lst 0 @ tt_path (ts_target st)) v)
          (seqA (updateFn (\<lambda>g. g\<lparr>fn_scopes := take (length (fn_scopes f) - 1) (fn_scopes f) @ fn_scopes g,
                                 fn_tailrec := Some i\<rparr>))
            (storeDest (pa_pos (pa_head p)) d))))))"

fun popAll :: "SourcePos \<Rightarrow> nat \<Rightarrow> unit compiling" where
  "popAll pos 0 = ret ()"
| "popAll pos (Suc n) = seqA (emitC POP 0 pos (-1)) (popAll pos n)"

definition compileTailCall :: "CompileRules \<Rightarrow> nat \<Rightarrow> path \<Rightarrow> SourcePos \<Rightarrow> (path \<times> Node) list list \<Rightarrow> unit compiling" where
  "compileTailCall r i path pos argLists =
     andThen (getA (\<lambda>s. (c_tails s ! i, length (c_fns s)))) (\<lambda>(st, here).
     andThen theFn (\<lambda>f.
     if here \<noteq> ts_owner st \<or> path \<notin> ts_sites st
     then compileError ''Cannot rewrite recursive call: it is not in tail position'' pos
     else if fn_finallys f \<noteq> [] then logicError ''compiler: a tail call inside a try with a finally''
     else
       seqA (updateTail i (\<lambda>st. st\<lparr>ts_calls := ts_calls st + 1\<rparr>))
       (andThen (tailLists r st pos (numbered argLists) [] []) (\<lambda>(given, dests).
        seqA (forA (storeDest pos) (rev dests))
        (seqA (forA (\<lambda>(lst, g). forA (\<lambda>k. if k \<in> set g then ret () else tailDefault r i st pos lst k)
                 [0..<length (ts_lists st ! lst)]) (numbered given))
        (andThen theFn (\<lambda>f.
         seqA (popAll pos (nat (fn_depth f)))
         (seqA (emitJumpBackC 0 pos) (adjust 1))))))))) "

end
