(* ===== verification/CompilerCalls.thy ===== *)
theory CompilerCalls
  imports CompilerFunctions Format
begin

text \<open>
  Names, selections, applications and object creation (\<^verbatim>\<open>compileIdent\<close>, \<^verbatim>\<open>compileApply\<close>, \<^verbatim>\<open>compileSelect\<close>,
  \<^verbatim>\<open>compileAssign\<close> and the interpolations of \<^verbatim>\<open>src/src/compiler/Compiler.cpp\<close>; \<^verbatim>\<open>resolveType\<close>, \<^verbatim>\<open>compileNew\<close>,
  \<^verbatim>\<open>compileSuperSend\<close> and \<^verbatim>\<open>compileNamedSend\<close> of \<^verbatim>\<open>CompileTemplates.cpp\<close>).

  A node the compiler makes up (the selection an imported name stands for, the name of a lifted template) is
  compiled at the path of the node it replaces: it declares nothing, so no path into it is ever looked up.
\<close>

subsection \<open>By-name masks of a callee\<close>

definition byNameMasksOfMember :: "Compiler \<Rightarrow> byte_string \<Rightarrow> u32 list" where
  "byNameMasksOfMember s name = (case memberOf s name of None \<Rightarrow> [] | Some m \<Rightarrow> mi_byNameMasks m)"

definition byNameMasksOfObjectMember :: "Compiler \<Rightarrow> byte_string \<Rightarrow> byte_string \<Rightarrow> u32 list" where
  "byNameMasksOfObjectMember s objectName member =
     (case findType (c_globals s) (objectName @ ''.type'') of
        None \<Rightarrow> []
      | Some cls \<Rightarrow> (case map_of (ci_members cls) member of None \<Rightarrow> [] | Some m \<Rightarrow> mi_byNameMasks m))"

definition masksOfGlobal :: "Compiler \<Rightarrow> byte_string \<Rightarrow> u32 list" where
  "masksOfGlobal s name =
     (case binding (c_globals s) name of
        None \<Rightarrow> []
      | Some g \<Rightarrow>
          if gb_byNameMasks g \<noteq> [] then gb_byNameMasks g
          else if gb_kind g \<noteq> BK_Object then []
          else
            (case findType (c_globals s) name of
               Some cls \<Rightarrow>
                 if ci_primaryByNameMasks cls \<noteq> [] then ci_primaryByNameMasks cls
                 else byNameMasksOfObjectMember s name ''apply''
             | None \<Rightarrow> byNameMasksOfObjectMember s name ''apply''))"

definition masksOfSelection :: "Compiler \<Rightarrow> byte_string \<Rightarrow> byte_string \<Rightarrow> u32 list" where
  "masksOfSelection s qual name =
     (if memberOf s qual \<noteq> None then []
      else
        (case binding (c_globals s) qual of
           None \<Rightarrow> []
         | Some g \<Rightarrow>
             if gb_kind g = BK_Builtin then (if name = ''apply'' then gb_byNameMasks g else [])
             else if gb_kind g \<noteq> BK_Object then []
             else byNameMasksOfObjectMember s qual name))"

definition ownMasks :: "Compiler \<Rightarrow> byte_string \<Rightarrow> u32 list" where
  "ownMasks s name =
     (case c_fns s of
        [] \<Rightarrow> []
      | f # _ \<Rightarrow> (case findInFunction f name of None \<Rightarrow> [] | Some own \<Rightarrow> li_byNameMasks own))"

definition byNameMasksOfCalleeHead :: "Node \<Rightarrow> u32 list compiling" where
  "byNameMasksOfCalleeHead head =
     (case head of
        IdentN _ name \<Rightarrow>
          andThen (capture name) (\<lambda>found.
            case found of
              Some info \<Rightarrow> if li_byNameMasks info = [] then ret [] else getA (\<lambda>s. ownMasks s name)
            | None \<Rightarrow>
                getA (\<lambda>s. if byNameMasksOfMember s name \<noteq> [] then byNameMasksOfMember s name else masksOfGlobal s name))
      | SelectN _ q name \<Rightarrow>
          (case q of
             IdentN _ qual \<Rightarrow>
               if qual = ''this'' then getA (\<lambda>s. byNameMasksOfMember s name)
               else if qual = ''super'' then ret []
               else
                 andThen (capture qual) (\<lambda>found.
                   if found \<noteq> None then ret [] else getA (\<lambda>s. masksOfSelection s qual name))
           | _ \<Rightarrow> ret [])
      | _ \<Rightarrow> ret [])"

definition byNameMaskOfCallee :: "Node \<Rightarrow> u32 compiling" where
  "byNameMaskOfCallee fn =
     (case calleeHead fn of (lst, head) \<Rightarrow>
        andThen (byNameMasksOfCalleeHead head) (\<lambda>masks. ret (if lst < length masks then masks ! lst else 0)))"

subsection \<open>Names\<close>

definition emitRead :: "BindingKind \<Rightarrow> SourcePos \<Rightarrow> unit compiling" where
  "emitRead kind pos =
     (if kind = BK_ByNameParam then emitC FORCE_THUNK 0 pos 0
      else if kind = BK_ParamlessDef then emitC CALL 0 pos 0
      else if kind = BK_LazyVal \<or> kind = BK_Object then emitC FORCE 0 pos 0
      else ret ())"

definition compileResolved :: "Resolution \<Rightarrow> SourcePos \<Rightarrow> unit compiling" where
  "compileResolved r pos =
     (case r of
        ResMember m \<Rightarrow>
          seqA (loadThis pos)
          (seqA (emitConst SEND (RSendSite (mi_key m) 0 []) pos 0)
            (if mi_byNameValue m then emitC FORCE_THUNK 0 pos 0 else ret ()))
      | ResLocal info \<Rightarrow> seqA (loadLocal info pos) (emitRead (li_kind info) pos)
      | ResGlobal g \<Rightarrow> seqA (emitConst PUSH_GLOBAL (RSymbol (gb_key g)) pos 1) (emitRead (gb_kind g) pos))"

definition compileIdent :: "CompileRules \<Rightarrow> path \<Rightarrow> SourcePos \<Rightarrow> byte_string \<Rightarrow> unit compiling" where
  "compileIdent r path pos name =
     andThen (getA (\<lambda>s. visibleImport s name)) (\<lambda>imported.
       case imported of
         Some t \<Rightarrow> r_expr r path (importedTermSelect t pos)
       | None \<Rightarrow> andThen (resolve name pos) (\<lambda>res. compileResolved res pos))"

subsection \<open>Types\<close>

definition typeNameOf :: "TypeTree \<Rightarrow> byte_string" where
  "typeNameOf t =
     (if tt_kind t = TK_Name \<or> tt_kind t = TK_Applied then tt_name t
      else if tt_kind t = TK_Tuple then ''Tuple'' @ natToString (length (tt_args t))
      else [])"

fun stripPrefixes :: "byte_string list \<Rightarrow> byte_string \<Rightarrow> byte_string" where
  "stripPrefixes [] name = name"
| "stripPrefixes (p # ps) name = stripPrefixes ps (if startsWith p name then drop (length p) name else name)"

definition resolveType :: "TypeTree \<Rightarrow> SourcePos \<Rightarrow> ClassInfo compiling" where
  "resolveType t pos s =
     (if tt_kind t = TK_Builtin
      then
        (case findTypeByKey (c_globals s) (tt_name t) of
           Some c \<Rightarrow> Inr (c, s)
         | None \<Rightarrow> compileError (''Not found: builtin type '' @ tt_name t) pos s)
      else
        let written = typeNameOf t;
            name = followTypeAlias (c_globals s)
                     (stripPrefixes [''scala.'', ''java.lang.''] (followTypeAlias (c_globals s) written))
        in if written = [] then compileError ''a class or trait name is expected here'' pos s
           else
             (case firstType (c_globals s) (scopedNames s name) of
                Some c \<Rightarrow> Inr (c, s)
              | None \<Rightarrow>
                  compileError (''Not found: type '' @ written @
                    (if name = written then [] else '' (an alias for '' @ name @ '')'')) pos s))"

subsection \<open>Object creation\<close>

definition ctorKeyFor :: "ClassInfo \<Rightarrow> nat \<Rightarrow> SourcePos \<Rightarrow> byte_string compiling" where
  "ctorKeyFor info argc pos =
     (if argc = ci_primaryArity info \<or> ci_primaryVariadic info \<and> argc + 1 \<ge> ci_primaryArity info \<or>
         argc \<ge> ci_primaryMinArity info \<and> argc < ci_primaryArity info
      then ret kPrimaryCtorKey
      else if argc \<in> set (ci_auxArities info) then ret (auxCtorKey argc)
      else compileError (''wrong number of arguments for the constructor of '' @ ci_name info @ '': '' @ natToString argc) pos)"

definition firstMask :: "ClassInfo \<Rightarrow> u32" where
  "firstMask info = (case ci_primaryByNameMasks info of [] \<Rightarrow> 0 | m # _ \<Rightarrow> m)"

text \<open>An argument list whose last member may be a splice; \<open>refuse\<close> is the check of a splice.\<close>

fun pushSpread ::
  "CompileRules \<Rightarrow> (nat \<Rightarrow> SourcePos \<Rightarrow> unit compiling) \<Rightarrow> u32 \<Rightarrow> nat \<Rightarrow> (path \<times> Node) list \<Rightarrow> unit compiling" where
  "pushSpread r refuse byName k [] = ret ()"
| "pushSpread r refuse byName k ((p, a) # rest) =
     seqA
       (case a of
          SpliceN pos e \<Rightarrow>
            if rest \<noteq> [] then compileError ''a splice must be the last argument'' pos
            else seqA (refuse k pos) (r_expr r (0 # p) e)
        | _ \<Rightarrow> pushArg r byName k (p, a))
       (pushSpread r refuse byName (k + 1) rest)"

definition endsInSplice :: "Node list \<Rightarrow> bool" where
  "endsInSplice args \<longleftrightarrow> args \<noteq> [] \<and> isSpliceArg (last args)"

text \<open>The number before a splice that the constructor expects, an unsigned difference.\<close>

definition expectedBefore :: "ClassInfo \<Rightarrow> nat" where
  "expectedBefore info = (if ci_primaryArity info = 0 then 2 ^ 64 - 1 else ci_primaryArity info - 1)"

definition pushNamed :: "CompileRules \<Rightarrow> u32 \<Rightarrow> nat \<times> path \<times> Node \<Rightarrow> unit compiling" where
  "pushNamed r byName kpa =
     (case kpa of (k, pa) \<Rightarrow>
        if isNamedArg (snd pa) then r_expr r (fst (argValue pa)) (snd (argValue pa)) else pushArg r byName k pa)"

definition newNamed :: "CompileRules \<Rightarrow> ClassInfo \<Rightarrow> (path \<times> Node) list \<Rightarrow> SourcePos \<Rightarrow> unit compiling" where
  "newNamed r info args pos =
     andThen (lift (splitNamedArgs (map snd args))) (\<lambda>(keywords, positional).
     seqA (forA (pushNamed r (firstMask info)) (numbered args))
     (andThen (ctorKeyFor info (length args) pos) (\<lambda>key.
       emitConst NEW (RKwSendSite key (of_nat positional) keywords []) pos (- int (length args)))))"

definition refuseFixedSplice :: "ClassInfo \<Rightarrow> nat \<Rightarrow> SourcePos \<Rightarrow> unit compiling" where
  "refuseFixedSplice info k pos =
     (if ci_primaryVariadic info then ret ()
      else compileError (''the constructor of '' @ ci_name info @ '' takes no repeated parameter'') pos)"

definition newPositional :: "CompileRules \<Rightarrow> ClassInfo \<Rightarrow> (path \<times> Node) list \<Rightarrow> SourcePos \<Rightarrow> unit compiling" where
  "newPositional r info args pos =
     (let n = length args in
      seqA (pushSpread r (refuseFixedSplice info) (firstMask info) 0 args)
      (if endsInSplice (map snd args)
       then
         if n - 1 \<noteq> expectedBefore info
         then compileError (''wrong number of arguments for the constructor of '' @ ci_name info @ '': '' @
                natToString (n - 1) @ '' before the splice, expected '' @ natToString (expectedBefore info)) pos
         else andThen (ctorKeyFor info (ci_primaryArity info) pos) (\<lambda>key.
                emitConst NEW_SPREAD (RSendSite key (of_nat (n - 1)) []) pos (- int n))
       else andThen (ctorKeyFor info n pos) (\<lambda>key.
              emitConst NEW (RSendSite key (of_nat n) []) pos (- int n))))"

definition compileNewOf :: "CompileRules \<Rightarrow> ClassInfo \<Rightarrow> (path \<times> Node) list \<Rightarrow> SourcePos \<Rightarrow> unit compiling" where
  "compileNewOf r info args pos =
     (if ci_kind info = CK_Trait then compileError (ci_name info @ '' is a trait; it cannot be instantiated'') pos
      else if ci_kind info = CK_Object then compileError (''Not found: type '' @ ci_name info) pos
      else if ci_isAbstract info then compileError (ci_name info @ '' is abstract; it cannot be instantiated'') pos
      else if ci_builtin info \<and> startsWith ''@Tuple'' (ci_key info)
      then
        if length args \<noteq> ci_primaryArity info
        then compileError (''wrong number of arguments for the constructor of '' @ ci_name info) pos
        else seqA (compileAll r args) (emitC MAKE_TUPLE (length args) pos (1 - int (length args)))
      else
        seqA (emitConst PUSH_GLOBAL (RSymbol (ci_key info)) pos 1)
          (if list_ex (\<lambda>(p, a). isNamedArg a) args then newNamed r info args pos else newPositional r info args pos))"

definition compileNew :: "CompileRules \<Rightarrow> path \<Rightarrow> SourcePos \<Rightarrow> TypeTree \<Rightarrow> Node list \<Rightarrow> unit compiling" where
  "compileNew r path pos type args =
     andThen (resolveType type pos) (\<lambda>info. compileNewOf r info (childArgs 0 path args) pos)"

definition compileTuple :: "CompileRules \<Rightarrow> path \<Rightarrow> SourcePos \<Rightarrow> Node list \<Rightarrow> unit compiling" where
  "compileTuple r path pos elems =
     (if length elems > kMaxTupleArity
      then compileError ''tuples of more than 22 elements are not supported (D32)'' pos
      else seqA (compileAll r (childArgs 0 path elems)) (emitC MAKE_TUPLE (length elems) pos (1 - int (length elems))))"

subsection \<open>Sends\<close>

definition superOwner :: "byte_string \<Rightarrow> byte_string \<Rightarrow> SourcePos \<Rightarrow> (byte_string \<times> bool) compiling" where
  "superOwner name qualifier pos s =
     (case tmplInfo s of
        None \<Rightarrow> compileError ''super can be used only inside a class, trait or object'' pos s
      | Some info \<Rightarrow>
          if qualifier = [] then Inr ((ci_key info, False), s)
          else
            (case findType (c_globals s) qualifier of
               None \<Rightarrow> compileError (''super['' @ qualifier @ '']: '' @ qualifier @ '' is not a protoScala type'') pos s
             | Some t \<Rightarrow>
                 if ci_key t = ci_key info
                 then compileError (''super['' @ qualifier @ ''].'' @ name @ '' inside '' @ qualifier @
                        '' itself would call itself'') pos s
                 else Inr ((ci_key t, True), s)))"

definition plainArg :: "CompileRules \<Rightarrow> path \<times> Node \<Rightarrow> unit compiling" where
  "plainArg r pa =
     (if isSpliceArg (snd pa) \<or> isNamedArg (snd pa)
      then compileError ''super calls take plain arguments'' (nodePos (snd pa))
      else r_expr r (fst pa) (snd pa))"

definition compileSuperSend ::
  "CompileRules \<Rightarrow> byte_string \<Rightarrow> (path \<times> Node) list \<Rightarrow> byte_string \<Rightarrow> SourcePos \<Rightarrow> unit compiling" where
  "compileSuperSend r name args qualifier pos =
     andThen (superOwner name qualifier pos) (\<lambda>(owner, exact).
     seqA (loadThis pos)
     (seqA (forA (plainArg r) args)
       (emitConst SEND_SUPER (RSuperSite name (of_nat (length args)) owner exact) pos (- int (length args)))))"

definition compileNamedSend ::
  "CompileRules \<Rightarrow> path \<times> Node \<Rightarrow> byte_string \<Rightarrow> (path \<times> Node) list \<Rightarrow> SourcePos \<Rightarrow> unit compiling" where
  "compileNamedSend r qualifier name args pos =
     seqA (r_expr r (fst qualifier) (snd qualifier))
     (andThen (lift (splitArgs ''splices are only supported in function calls'' [] 0 (map snd args))) (\<lambda>(keywords, positional).
      seqA (compileAll r (map argValue args))
      (andThen (kwSendSite name positional keywords) (\<lambda>k. emitC SEND_KW k pos (- int (length args))))))"

text \<open>The arguments of a send: no splice.\<close>

definition sendArg :: "CompileRules \<Rightarrow> u32 \<Rightarrow> nat \<times> path \<times> Node \<Rightarrow> unit compiling" where
  "sendArg r byName kpa =
     (case kpa of (k, pa) \<Rightarrow>
        if isSpliceArg (snd pa)
        then compileError ''splices are only supported in function calls'' (nodePos (snd pa))
        else pushArg r byName k pa)"

definition sendArgs :: "CompileRules \<Rightarrow> u32 \<Rightarrow> (path \<times> Node) list \<Rightarrow> unit compiling" where
  "sendArgs r byName args = forA (sendArg r byName) (numbered args)"

definition compileShortCircuit ::
  "CompileRules \<Rightarrow> path \<times> Node \<Rightarrow> path \<times> Node \<Rightarrow> bool \<Rightarrow> SourcePos \<Rightarrow> unit compiling" where
  "compileShortCircuit r lhs rhs isAnd pos =
     seqA (r_expr r (fst lhs) (snd lhs))
     (andThen (emitJumpC (if isAnd then JUMP_IF_FALSE else JUMP_IF_TRUE) pos (-1)) (\<lambda>toShort.
      seqA (r_expr r (fst rhs) (snd rhs))
      (andThen (emitJumpC JUMP pos 0) (\<lambda>toEnd.
       seqA (patchHere toShort)
       (seqA (adjust (-1))
       (seqA (emitC (if isAnd then PUSH_FALSE else PUSH_TRUE) 0 pos 1)
         (patchHere toEnd)))))))"

definition isFastBinary :: "byte_string \<Rightarrow> Op option" where
  "isFastBinary op =
     map_of [(''+'', ADD), (''-'', SUB), (''*'', MUL), (''<'', LT), (''<='', LE), (''>'', GT), (''>='', GE),
       (''=='', EQ), (''!='', NE)] op"

subsection \<open>Applications\<close>

definition refuseByNameSplice :: "u32 \<Rightarrow> nat \<Rightarrow> SourcePos \<Rightarrow> unit compiling" where
  "refuseByNameSplice byName k pos =
     (if inMask byName k then compileError ''a splice cannot supply a by-name parameter'' pos else ret ())"

definition compileArgsAndCall ::
  "CompileRules \<Rightarrow> (path \<times> Node) list \<Rightarrow> SourcePos \<Rightarrow> u32 \<Rightarrow> unit compiling" where
  "compileArgsAndCall r args pos byName =
     (let n = length args in
      seqA (pushSpread r (refuseByNameSplice byName) byName 0 args)
        (if endsInSplice (map snd args) then emitC CALL_SPREAD (n - 1) pos (- int n) else emitC CALL n pos (- int n)))"

fun peelTypes :: "path \<Rightarrow> Node \<Rightarrow> path \<times> Node" where
  "peelTypes path (TypeApplyN p f ts) = peelTypes (0 # path) f"
| "peelTypes path n = (path, n)"

text \<open>The callee: type arguments are erased, a lifted template and an imported member are renamed.\<close>

definition calleeNode :: "Compiler \<Rightarrow> path \<Rightarrow> Node \<Rightarrow> path \<times> Node" where
  "calleeNode s path fn =
     (case peelTypes path fn of (p, f) \<Rightarrow>
        let f = (if liftedGlobalPath s f = [] then f else IdentN (nodePos f) (liftedGlobalPath s f)) in
        (p, case f of
              IdentN pos name \<Rightarrow> (case visibleImport s name of None \<Rightarrow> f | Some t \<Rightarrow> importedTermSelect t pos)
            | _ \<Rightarrow> f))"

text \<open>The case class whose synthesised \<^verbatim>\<open>apply\<close> the name stands for.\<close>

definition caseClassCall :: "Compiler \<Rightarrow> byte_string \<Rightarrow> Resolution \<Rightarrow> ClassInfo option" where
  "caseClassCall s name res =
     (case res of
        ResGlobal g \<Rightarrow>
          if gb_kind g \<noteq> BK_Object then None
          else
            (case findType (c_globals s) name of
               None \<Rightarrow> None
             | Some cls \<Rightarrow>
                 if ci_isCase cls \<and> ci_kind cls = CK_Class \<and> ci_companionTermKey cls = gb_key g \<and>
                    \<not> ci_companionHasApply cls
                 then Some cls else None)
      | _ \<Rightarrow> None)"

definition callNamedValue :: "CompileRules \<Rightarrow> path \<times> Node \<Rightarrow> (path \<times> Node) list \<Rightarrow> SourcePos \<Rightarrow> unit compiling" where
  "callNamedValue r fn args pos =
     seqA (r_expr r (fst fn) (snd fn))
     (andThen (lift (splitNamedArgs (map snd args))) (\<lambda>(keywords, positional).
      seqA (compileAll r (map argValue args))
        (emitConst CALL_KW (RKwSendSite ''apply'' (of_nat positional) keywords []) pos (- int (length args)))))"

definition applyNamed :: "CompileRules \<Rightarrow> path \<times> Node \<Rightarrow> (path \<times> Node) list \<Rightarrow> SourcePos \<Rightarrow> unit compiling" where
  "applyNamed r fn args pos =
     (case snd fn of
        SelectN _ q name \<Rightarrow> compileNamedSend r (0 # fst fn, q) name args pos
      | IdentN idPos name \<Rightarrow>
          andThen (resolve name idPos) (\<lambda>res.
            case res of
              ResMember m \<Rightarrow>
                seqA (loadThis pos)
                (andThen (lift (splitNamedArgs (map snd args))) (\<lambda>(keywords, positional).
                 seqA (compileAll r (map argValue args))
                   (emitConst SEND_KW (RKwSendSite (mi_key m) (of_nat positional) keywords []) pos (- int (length args)))))
            | _ \<Rightarrow>
                andThen (getA (\<lambda>s. caseClassCall s name res)) (\<lambda>cls.
                  case cls of Some c \<Rightarrow> compileNewOf r c args pos | None \<Rightarrow> callNamedValue r fn args pos))
      | _ \<Rightarrow> callNamedValue r fn args pos)"

definition applySelect ::
  "CompileRules \<Rightarrow> path \<Rightarrow> Node \<Rightarrow> byte_string \<Rightarrow> (path \<times> Node) list \<Rightarrow> u32 \<Rightarrow> SourcePos \<Rightarrow> unit compiling" where
  "applySelect r path q name args byName pos =
     (case (q, args, isFastBinary name) of
        (SuperN _ qualifier, _, _) \<Rightarrow> compileSuperSend r name args qualifier pos
      | (_, [a], fast) \<Rightarrow>
          if name = ''&&'' \<or> name = ''||'' then compileShortCircuit r (path, q) a (name = ''&&'') pos
          else
            (case (isSpliceArg (snd a), fast) of
               (False, Some op) \<Rightarrow>
                 seqA (r_expr r path q) (seqA (r_expr r (fst a) (snd a)) (emitC op 0 pos (-1)))
             | _ \<Rightarrow>
                 seqA (r_expr r path q)
                 (seqA (sendArgs r byName args)
                   (andThen (sendSite name (length args)) (\<lambda>k. emitC SEND_APPLY k pos (- int (length args))))))
      | _ \<Rightarrow>
          seqA (r_expr r path q)
          (seqA (sendArgs r byName args)
            (andThen (sendSite name (length args)) (\<lambda>k. emitC SEND_APPLY k pos (- int (length args))))))"

definition noOverload :: "byte_string \<Rightarrow> nat \<Rightarrow> nat list \<Rightarrow> SourcePos \<Rightarrow> 'a compiling" where
  "noOverload name n arities pos =
     compileError (''no overload of '' @ name @ '' takes '' @ natToString n @ '' arguments; the alternatives take '' @
       concat (map (\<lambda>(k, a). (if k > 0 then '', '' else []) @ natToString a) (numbered arities))) pos"

definition applyGlobal ::
  "CompileRules \<Rightarrow> path \<times> Node \<Rightarrow> byte_string \<Rightarrow> Resolution \<Rightarrow> (path \<times> Node) list \<Rightarrow> u32 \<Rightarrow> SourcePos \<Rightarrow> unit compiling" where
  "applyGlobal r fn name res args byName pos =
     andThen (getA (\<lambda>s. (caseClassCall s name res, overloadArities (c_globals s) name, overloadFor (c_globals s) name (length args))))
       (\<lambda>(cls, arities, alternative).
         case cls of
           Some c \<Rightarrow> compileNewOf r c args pos
         | None \<Rightarrow>
             (case res of
                ResGlobal _ \<Rightarrow>
                  if arities = []
                  then seqA (r_expr r (fst fn) (snd fn)) (compileArgsAndCall r args pos byName)
                  else
                    (case alternative of
                       None \<Rightarrow> noOverload name (length args) arities pos
                     | Some alt \<Rightarrow>
                         seqA (emitConst PUSH_GLOBAL (RSymbol (ov_key alt)) pos 1) (compileArgsAndCall r args pos byName))
              | _ \<Rightarrow> seqA (r_expr r (fst fn) (snd fn)) (compileArgsAndCall r args pos byName)))"

definition applyIdent ::
  "CompileRules \<Rightarrow> path \<times> Node \<Rightarrow> SourcePos \<Rightarrow> byte_string \<Rightarrow> (path \<times> Node) list \<Rightarrow> u32 \<Rightarrow> SourcePos \<Rightarrow> unit compiling" where
  "applyIdent r fn idPos name args byName pos =
     andThen (resolve name idPos) (\<lambda>res.
       case res of
         ResMember m \<Rightarrow>
           seqA (loadThis pos)
           (seqA (sendArgs r byName args)
             (emitConst SEND_APPLY (RSendSite (mi_key m) (of_nat (length args)) []) pos (- int (length args))))
       | _ \<Rightarrow> applyGlobal r fn name res args byName pos)"

definition applyCallee ::
  "CompileRules \<Rightarrow> path \<times> Node \<Rightarrow> Node \<Rightarrow> (path \<times> Node) list \<Rightarrow> SourcePos \<Rightarrow> unit compiling" where
  "applyCallee r fn written args pos =
     andThen (byNameMaskOfCallee written) (\<lambda>byName.
       if list_ex (\<lambda>(p, a). isNamedArg a) args then applyNamed r fn args pos
       else
         (case snd fn of
            SelectN _ q name \<Rightarrow> applySelect r (0 # fst fn) q name args byName pos
          | IdentN idPos name \<Rightarrow> applyIdent r fn idPos name args byName pos
          | _ \<Rightarrow> seqA (r_expr r (fst fn) (snd fn)) (compileArgsAndCall r args pos byName)))"

definition compileApply :: "CompileRules \<Rightarrow> path \<Rightarrow> SourcePos \<Rightarrow> Node \<Rightarrow> Node list \<Rightarrow> Node \<Rightarrow> unit compiling" where
  "compileApply r path pos fn args whole =
     (let ordinary =
        andThen (getA (\<lambda>s. calleeNode s (0 # path) fn)) (\<lambda>callee. applyCallee r callee fn (childArgs 1 path args) pos)
      in andThen theFn (\<lambda>f.
         case fn_tailrec f of
           None \<Rightarrow> ordinary
         | Some i \<Rightarrow>
             andThen (matchSelfCall i path whole) (\<lambda>m.
               case m of Some argLists \<Rightarrow> compileTailCall r i path pos argLists | None \<Rightarrow> ordinary)))"

subsection \<open>Selections and assignments\<close>

definition compileSelect :: "CompileRules \<Rightarrow> path \<Rightarrow> SourcePos \<Rightarrow> Node \<Rightarrow> byte_string \<Rightarrow> unit compiling" where
  "compileSelect r path pos q name =
     (case q of
        SuperN _ qualifier \<Rightarrow> compileSuperSend r name [] qualifier pos
      | _ \<Rightarrow>
          andThen (getA (\<lambda>s. liftedGlobalPath s (SelectN pos q name))) (\<lambda>lifted.
            if lifted \<noteq> [] then compileIdent r path pos lifted
            else
              seqA (r_expr r (0 # path) q)
                (if name = ''unary_-'' then emitC NEG 0 pos 0
                 else if name = ''unary_!'' then emitC OP_NOT 0 pos 0
                 else
                   seqA (andThen (sendSite name 0) (\<lambda>k. emitC SEND k pos 0))
                   (andThen (getA (\<lambda>s. memberOf s name)) (\<lambda>m.
                     if m \<noteq> None \<and> mi_byNameValue (the m) then emitC FORCE_THUNK 0 pos 0 else ret ())))))"

definition assignMember :: "CompileRules \<Rightarrow> path \<Rightarrow> SourcePos \<Rightarrow> byte_string \<Rightarrow> MemberInfo \<Rightarrow> Node \<Rightarrow> unit compiling" where
  "assignMember r path pos name m v =
     (if mi_kind m \<noteq> MK_Var then compileError (''Reassignment to val '' @ name) pos
      else
        andThen (getA (\<lambda>s. memberOf s (setterName name))) (\<lambda>setter.
          case setter of
            None \<Rightarrow> compileError (name @ '' cannot be assigned here: it has no setter'') pos
          | Some setter \<Rightarrow>
              seqA (loadThis pos)
              (seqA (r_expr r (1 # path) v) (emitConst SEND (RSendSite (mi_key setter) 1 []) pos (-1)))))"

definition compileAssign :: "CompileRules \<Rightarrow> path \<Rightarrow> SourcePos \<Rightarrow> Node \<Rightarrow> Node \<Rightarrow> unit compiling" where
  "compileAssign r path pos target v =
     (case target of
        IdentN idPos name \<Rightarrow>
          andThen (resolve name idPos) (\<lambda>res.
            case res of
              ResMember m \<Rightarrow> assignMember r path pos name m v
            | ResLocal info \<Rightarrow>
                if li_kind info \<noteq> BK_Var then compileError (''Reassignment to val '' @ name) pos
                else
                  seqA (r_expr r (1 # path) v)
                  (if li_captured info \<and> \<not> li_boxed info then logicError ''compiler: captured var is not boxed''
                   else seqA (storeLocal info pos) (emitC PUSH_UNIT 0 pos 1))
            | ResGlobal g \<Rightarrow>
                if gb_kind g \<noteq> BK_Var then compileError (''Reassignment to val '' @ name) pos
                else
                  seqA (r_expr r (1 # path) v)
                  (seqA (emitConst STORE_GLOBAL (RSymbol (gb_key g)) pos (-1)) (emitC PUSH_UNIT 0 pos 1)))
      | _ \<Rightarrow> logicError ''compiler: assignment target not desugared'')"

subsection \<open>Interpolations\<close>

definition pushString :: "byte_string \<Rightarrow> SourcePos \<Rightarrow> unit compiling" where
  "pushString text pos = emitConst PUSH_CONST (RString text) pos 1"

definition pushPiece :: "byte_string \<Rightarrow> SourcePos \<Rightarrow> nat compiling" where
  "pushPiece text pos = (if text = [] then ret 0 else seqA (pushString text pos) (ret 1))"

fun joinPieces ::
  "CompileRules \<Rightarrow> SourcePos \<Rightarrow> byte_string list \<Rightarrow> (path \<times> Node) list \<Rightarrow> nat \<Rightarrow> nat compiling" where
  "joinPieces r pos literals [] pieces = ret pieces"
| "joinPieces r pos literals ((p, a) # args) pieces =
     andThen (pushPiece (hd literals) pos) (\<lambda>n.
     seqA (r_expr r p a) (joinPieces r pos (tl literals) args (pieces + n + 1)))"

fun asCompilerError :: "FormatError \<Rightarrow> SourcePos \<Rightarrow> CompilerError" where
  "asCompilerError (FormatError.CompileError msg) pos = CompilerError.CompileError msg pos"
| "asCompilerError (InvalidArgument msg) pos = CompilerError.CompileError msg pos"
| "asCompilerError (IllegalArgument msg) pos = CompilerError.CompileError msg pos"
| "asCompilerError OutOfRange pos = StdOutOfRange"

definition formatted :: "FormatError + 'a \<Rightarrow> SourcePos \<Rightarrow> 'a compiling" where
  "formatted x pos = (case x of Inl e \<Rightarrow> throw (asCompilerError e pos) | Inr a \<Rightarrow> ret a)"

fun formatArgs ::
  "CompileRules \<Rightarrow> SourcePos \<Rightarrow> byte_string list \<Rightarrow> (path \<times> Node) list \<Rightarrow> byte_string list \<Rightarrow> unit compiling" where
  "formatArgs r pos literals [] specs = ret ()"
| "formatArgs r pos literals ((p, a) # args) specs =
     andThen (formatted (unescapePercent (hd literals)) pos) (\<lambda>l.
     seqA (pushString l pos)
     (seqA (r_expr r p a)
     (seqA (pushString (hd specs) pos)
       (formatArgs r pos (tl literals) args (tl specs)))))"

definition compileFormatString ::
  "CompileRules \<Rightarrow> path \<Rightarrow> SourcePos \<Rightarrow> byte_string list \<Rightarrow> Node list \<Rightarrow> byte_string list \<Rightarrow> unit compiling" where
  "compileFormatString r path pos literals args specs =
     (let argc = 1 + 3 * length args in
      seqA (formatted (checkSpecs specs) pos)
      (seqA (compileIdent r path pos ''__fmt'')
      (seqA (formatArgs r pos literals (childArgs 0 path args) specs)
      (andThen (formatted (unescapePercent (last literals)) pos) (\<lambda>l.
       seqA (pushString l pos) (emitC CALL argc pos (- int argc)))))))"

text \<open>The syntax tree has one literal more than arguments.\<close>

definition compileInterp ::
  "CompileRules \<Rightarrow> path \<Rightarrow> SourcePos \<Rightarrow> byte_string \<Rightarrow> byte_string list \<Rightarrow> Node list \<Rightarrow> byte_string list \<Rightarrow> unit compiling" where
  "compileInterp r path pos interpolator literals args specs =
     (if interpolator = ''f'' then compileFormatString r path pos literals args specs
      else
        andThen (joinPieces r pos literals (childArgs 0 path args) 0) (\<lambda>pieces.
        andThen (pushPiece (last literals) pos) (\<lambda>n.
          if pieces + n = 0 then pushString [] pos
          else
            seqA (if pieces + n = 1 then pushString [] pos else ret ())
              (let k = (if pieces + n = 1 then 2 else pieces + n) in emitC CONCAT k pos (1 - int k)))))"

end
