(* ===== verification/CompilerPatterns.thy ===== *)
theory CompilerPatterns
  imports CompilerCalls
begin

text \<open>
  Patterns and type tests (\<^verbatim>\<open>src/src/compiler/CompilePatterns.cpp\<close>).  A pattern is compiled against a slot; the
  jumps to take when it fails are threaded through as a list, the vector \<^verbatim>\<open>fail\<close> of the code.
\<close>

subsection \<open>Variables\<close>

definition bindPattern :: "byte_string \<Rightarrow> nat \<Rightarrow> SourcePos \<Rightarrow> unit compiling" where
  "bindPattern name k pos =
     (if name = ''_'' then ret ()
      else
        andThen (declareLocal name BK_Val False []) (\<lambda>info.
        seqA (emitC PUSH_LOCAL k pos 1) (emitC STORE_LOCAL (li_slot info) pos (-1))))"

definition checkNoVariables :: "Node Pattern \<Rightarrow> unit compiling" where
  "checkNoVariables p =
     (case patternVariables p of
        [] \<Rightarrow> ret ()
      | v # _ \<Rightarrow> compileError (''Illegal variable '' @ v @ '' in pattern alternative'') (pt_pos p))"

fun firstRepeated :: "byte_string list \<Rightarrow> byte_string list \<Rightarrow> byte_string option" where
  "firstRepeated seen [] = None"
| "firstRepeated seen (v # vs) = (if v \<in> set seen then Some v else firstRepeated (v # seen) vs)"

definition checkDistinctVariables :: "Node Pattern \<Rightarrow> unit compiling" where
  "checkDistinctVariables p =
     (case firstRepeated [] (patternVariables p) of
        None \<Rightarrow> ret ()
      | Some v \<Rightarrow> compileError (''duplicate pattern variable: '' @ v) (pt_pos p))"

subsection \<open>Tests\<close>

definition failJump :: "Op \<Rightarrow> SourcePos \<Rightarrow> nat list \<Rightarrow> nat list compiling" where
  "failJump op pos fail = andThen (emitJumpC op pos (-1)) (\<lambda>at. ret (fail @ [at]))"

definition emitProtoTest :: "byte_string \<Rightarrow> nat \<Rightarrow> SourcePos \<Rightarrow> nat list \<Rightarrow> nat list compiling" where
  "emitProtoTest typeKey k pos fail =
     seqA (emitC PUSH_LOCAL k pos 1)
     (seqA (emitConst TEST_PROTO (RSymbol typeKey) pos 0)
       (failJump JUMP_IF_FALSE pos fail))"

definition typeCodeIndex :: "TypeCode \<Rightarrow> nat" where
  "typeCodeIndex c = length (takeWhile (\<lambda>d. d \<noteq> c) typeCodes)"

definition testType :: "TypeCode \<Rightarrow> nat \<Rightarrow> SourcePos \<Rightarrow> unit compiling" where
  "testType code k pos = seqA (emitC PUSH_LOCAL k pos 1) (emitC TEST_TYPE (typeCodeIndex code) pos 0)"

definition builtinCodes :: "(byte_string \<times> TypeCode) list" where
  "builtinCodes =
     [(''Int'', TC_Integer), (''Long'', TC_Integer), (''Short'', TC_Integer), (''Byte'', TC_Integer),
      (''BigInt'', TC_Integer), (''Integer'', TC_Integer), (''Double'', TC_Double), (''Float'', TC_Double),
      (''Boolean'', TC_Boolean), (''Char'', TC_Char), (''String'', TC_String), (''Unit'', TC_Unit),
      (''List'', TC_List), (''Function'', TC_Function), (''AnyRef'', TC_AnyRef), (''Object'', TC_AnyRef),
      (''AnyVal'', TC_AnyVal), (''Null'', TC_Null), (''Nothing'', TC_Nothing)]"

text \<open>\<^verbatim>\<open>Function0\<close> to \<^verbatim>\<open>Function22\<close> and any other number.\<close>

definition builtinCode :: "byte_string \<Rightarrow> TypeCode option" where
  "builtinCode name =
     (case map_of builtinCodes name of
        Some c \<Rightarrow> Some c
      | None \<Rightarrow>
          if startsWith ''Function'' name \<and> length name > 8 \<and> list_all isdigit (drop 8 name)
          then Some TC_Function else None)"

definition kThrowableKey :: byte_string where
  "kThrowableKey = ''@Throwable''"

definition testedName :: "TypeTree \<Rightarrow> byte_string option" where
  "testedName t =
     (case tt_kind t of
        TK_Name \<Rightarrow> Some (tt_name t)
      | TK_Applied \<Rightarrow> Some (tt_name t)
      | TK_Tuple \<Rightarrow> Some (''Tuple'' @ natToString (length (tt_args t)))
      | TK_Function \<Rightarrow> Some ''Function''
      | _ \<Rightarrow> None)"

definition runtimeName :: "GlobalTable \<Rightarrow> byte_string \<Rightarrow> byte_string" where
  "runtimeName g name =
     followTypeAlias g (stripPrefixes [''scala.'', ''java.lang.'', ''Predef.''] (followTypeAlias g name))"

fun splitDots :: "byte_string \<Rightarrow> byte_string list" where
  "splitDots [] = [[]]"
| "splitDots (c # cs) =
     (if c = CHR ''.'' then [] # splitDots cs
      else (case splitDots cs of [] \<Rightarrow> [[c]] | w # ws \<Rightarrow> (c # w) # ws))"

definition valueInScope :: "Compiler \<Rightarrow> byte_string \<Rightarrow> bool" where
  "valueInScope s head \<longleftrightarrow>
     boundInChain (c_fns s) head \<or> memberOf s head \<noteq> None \<or>
     (case firstBinding (c_globals s) (scopedNames s head) of None \<Rightarrow> False | Some g \<Rightarrow> gb_kind g \<noteq> BK_Builtin)"

definition valueNamedByType :: "Compiler \<Rightarrow> byte_string \<Rightarrow> SourcePos \<Rightarrow> Node option" where
  "valueNamedByType s name pos =
     (case splitDots name of
        [] \<Rightarrow> None
      | head # rest \<Rightarrow>
          if [] \<in> set (head # rest) \<or> \<not> valueInScope s head then None
          else Some (foldl (\<lambda>n p. SelectN pos n p) (IdentN pos head) rest))"

text \<open>In a catch every value without the marker of \<^verbatim>\<open>Throwable\<close> is foreign; elsewhere the run time decides.\<close>

definition orForeign :: "CompileRules \<Rightarrow> path \<Rightarrow> nat \<Rightarrow> SourcePos \<Rightarrow> bool \<Rightarrow> unit compiling" where
  "orForeign r path k pos thrown =
     seqA (emitC DUP 0 pos 1)
     (andThen (emitJumpC JUMP_IF_TRUE pos (-1)) (\<lambda>fin.
      seqA (emitC POP 0 pos (-1))
      (seqA
        (if thrown
         then seqA (emitC PUSH_LOCAL k pos 1)
              (seqA (emitConst TEST_PROTO (RSymbol kThrowableKey) pos 0) (emitC OP_NOT 0 pos 0))
         else seqA (compileIdent r path pos ''__isForeignObject'')
              (seqA (emitC PUSH_LOCAL k pos 1) (emitC CALL 1 pos (-1))))
        (patchHere fin))))"

definition testClass :: "CompileRules \<Rightarrow> path \<Rightarrow> ClassInfo \<Rightarrow> nat \<Rightarrow> SourcePos \<Rightarrow> bool \<Rightarrow> bool compiling" where
  "testClass r path c k pos inPattern =
     andThen (getA (\<lambda>s. c_catchSlot s = Some k)) (\<lambda>thrown.
       let throwable = (ci_key c = kThrowableKey); exception = (ci_key c = ''@Exception'') in
       if throwable \<and> thrown \<and> inPattern then ret False
       else
         seqA (emitC PUSH_LOCAL k pos 1)
         (seqA (emitConst TEST_PROTO (RSymbol (ci_key c)) pos 0)
         (seqA (if throwable \<or> exception then orForeign r path k pos thrown else ret ()) (ret True))))"

text \<open>Whether a test was emitted; its answer is then on the stack.\<close>

definition compileTypeTest :: "CompileRules \<Rightarrow> path \<Rightarrow> TypeTree \<Rightarrow> nat \<Rightarrow> SourcePos \<Rightarrow> bool \<Rightarrow> bool compiling" where
  "compileTypeTest r path t k pos inPattern =
     (case testedName t of
        None \<Rightarrow> compileError ''this type cannot be tested at run time'' pos
      | Some written \<Rightarrow>
          andThen (getA c_globals) (\<lambda>g.
          let name = runtimeName g written in
          if name = ''Any'' then (if inPattern then ret False else seqA (testType TC_NonNull k pos) (ret True))
          else
            (case builtinCode name of
               Some code \<Rightarrow> seqA (testType code k pos) (ret True)
             | None \<Rightarrow>
                 (case findType g name of
                    Some c \<Rightarrow> testClass r path c k pos inPattern
                  | None \<Rightarrow>
                      andThen (getA (\<lambda>s. if tt_kind t = TK_Name then valueNamedByType s (tt_name t) pos else None)) (\<lambda>v.
                        case v of
                          Some typeValue \<Rightarrow>
                            seqA (compileIdent r path pos ''__isInstanceOf'')
                            (seqA (emitC PUSH_LOCAL k pos 1)
                            (seqA (r_expr r path typeValue)
                            (seqA (emitC CALL 2 pos (-2)) (ret True))))
                        | None \<Rightarrow> compileError (''Not found: type '' @ name) pos)))))"

definition compileInstanceOf ::
  "CompileRules \<Rightarrow> path \<Rightarrow> Node \<Rightarrow> TypeTree \<Rightarrow> bool \<Rightarrow> SourcePos \<Rightarrow> unit compiling" where
  "compileInstanceOf r path v t cast pos =
     seqA (r_expr r path v)
     (andThen newSlot (\<lambda>k.
      seqA (emitC STORE_LOCAL k pos (-1))
      (if \<not> cast then seqA (compileTypeTest r path t k pos False) (ret ())
       else
         seqA (testType TC_Null k pos)
         (andThen (emitJumpC JUMP_IF_TRUE pos (-1)) (\<lambda>isNull.
          seqA (compileTypeTest r path t k pos False)
          (andThen (emitJumpC JUMP_IF_TRUE pos (-1)) (\<lambda>accepted.
           seqA (emitC PUSH_LOCAL k pos 1)
           (seqA (emitConst CAST_FAIL (RString (renderType t)) pos 0)
           (seqA (adjust (-1))
           (seqA (patchHere isNull)
           (seqA (patchHere accepted)
             (emitC PUSH_LOCAL k pos 1))))))))))))"

subsection \<open>Fields\<close>

text \<open>The last field is on top of the stack, so the slots are filled backwards.\<close>

fun storeFields :: "SourcePos \<Rightarrow> nat \<Rightarrow> nat list \<Rightarrow> nat list compiling" where
  "storeFields pos 0 slots = ret slots"
| "storeFields pos (Suc n) slots =
     andThen newSlot (\<lambda>k. seqA (emitC STORE_LOCAL k pos (-1)) (storeFields pos n (k # slots)))"

fun matchAll ::
  "CompileRules \<Rightarrow> path \<Rightarrow> nat \<Rightarrow> (Node Pattern \<times> nat) list \<Rightarrow> nat list \<Rightarrow> nat list compiling" where
  "matchAll r path k [] fail = ret fail"
| "matchAll r path k ((p, s) # rest) fail =
     andThen (r_pattern r ((k + 1) # path) p s fail) (matchAll r path (k + 1) rest)"

definition extractInto ::
  "CompileRules \<Rightarrow> path \<Rightarrow> byte_string list \<Rightarrow> nat \<Rightarrow> Node Pattern list \<Rightarrow> nat list \<Rightarrow> SourcePos \<Rightarrow> nat list compiling" where
  "extractInto r path keys k subs fail pos =
     (if length subs \<noteq> length keys
      then logicError (''compiler: extractInto with '' @ natToString (length subs) @ '' sub-patterns for '' @
             natToString (length keys) @ '' fields'')
      else
        seqA (emitC PUSH_LOCAL k pos 1)
        (seqA (emitConst UNAPPLY_FIELDS (RNames keys) pos (int (length keys) - 1))
        (andThen (storeFields pos (length keys) []) (\<lambda>slots.
          matchAll r path 0 (zip subs slots) fail))))"

definition tupleKeys :: "nat \<Rightarrow> byte_string list" where
  "tupleKeys n = map (\<lambda>k. ''_'' @ natToString k) [1..<n + 1]"

subsection \<open>Extractors\<close>

definition sendFixed :: "byte_string \<Rightarrow> nat \<Rightarrow> SourcePos \<Rightarrow> unit compiling" where
  "sendFixed name argc pos = emitConst SEND (RSendSite name (of_nat argc) []) pos (- int argc)"

definition pushInt :: "nat \<Rightarrow> SourcePos \<Rightarrow> unit compiling" where
  "pushInt k pos = emitConst PUSH_CONST (RInt (int k)) pos 1"

definition storeNew :: "SourcePos \<Rightarrow> nat compiling" where
  "storeNew pos = andThen newSlot (\<lambda>k. seqA (emitC STORE_LOCAL k pos (-1)) (ret k))"

definition compileConsPattern ::
  "CompileRules \<Rightarrow> path \<Rightarrow> SourcePos \<Rightarrow> Node Pattern list \<Rightarrow> nat \<Rightarrow> nat list \<Rightarrow> nat list compiling" where
  "compileConsPattern r path pos args k fail =
     (case args of
        [hp, tp] \<Rightarrow>
          seqA (testType TC_ConsList k pos)
          (andThen (failJump JUMP_IF_FALSE pos fail) (\<lambda>fail.
           seqA (emitC PUSH_LOCAL k pos 1)
           (seqA (emitC UNCONS 0 pos 1)
           (andThen newSlot (\<lambda>tail.
            andThen newSlot (\<lambda>head.
            seqA (emitC STORE_LOCAL tail pos (-1))
            (seqA (emitC STORE_LOCAL head pos (-1))
            (andThen (r_pattern r (1 # path) hp head fail) (r_pattern r (2 # path) tp tail)))))))))
      | _ \<Rightarrow> compileError ''the :: pattern takes two patterns'' pos)"

fun listElements ::
  "CompileRules \<Rightarrow> path \<Rightarrow> SourcePos \<Rightarrow> nat \<Rightarrow> nat \<Rightarrow> Node Pattern list \<Rightarrow> nat list \<Rightarrow> nat list compiling" where
  "listElements r path pos k n [] fail = ret fail"
| "listElements r path pos k n (p # ps) fail =
     seqA (emitC PUSH_LOCAL k pos 1)
     (seqA (pushInt n pos)
     (seqA (sendFixed ''apply'' 1 pos)
     (andThen (storeNew pos) (\<lambda>element.
      andThen (r_pattern r ((n + 1) # path) p element fail) (listElements r path pos k (n + 1) ps)))))"

definition compileListPattern ::
  "CompileRules \<Rightarrow> path \<Rightarrow> SourcePos \<Rightarrow> Node Pattern list \<Rightarrow> nat \<Rightarrow> nat list \<Rightarrow> nat list compiling" where
  "compileListPattern r path pos args k fail =
     (let sq = (args \<noteq> [] \<and> pt_kind (last args) = PK_SeqWildcard);
          fixed = (if sq then length args - 1 else length args)
      in seqA (testType TC_List k pos)
         (andThen (failJump JUMP_IF_FALSE pos fail) (\<lambda>fail.
          seqA (emitC PUSH_LOCAL k pos 1)
          (seqA (sendFixed ''length'' 0 pos)
          (seqA (pushInt fixed pos)
          (seqA (emitC (if sq then GE else EQ) 0 pos (-1))
          (andThen (failJump JUMP_IF_FALSE pos fail) (\<lambda>fail.
           andThen (listElements r path pos k 0 (take fixed args) fail) (\<lambda>fail.
           if sq \<and> pt_name (last args) \<noteq> []
           then
             seqA (emitC PUSH_LOCAL k pos 1)
             (seqA (pushInt fixed pos)
             (seqA (sendFixed ''drop'' 1 pos)
             (andThen (storeNew pos) (\<lambda>rest. seqA (bindPattern (pt_name (last args)) rest pos) (ret fail)))))
           else ret fail)))))))))"

definition firstNamed :: "GlobalTable \<Rightarrow> byte_string list \<Rightarrow> byte_string \<Rightarrow> byte_string" where
  "firstNamed g candidates fallback =
     (case filter (\<lambda>c. findType g c \<noteq> None \<or> binding g c \<noteq> None) candidates of [] \<Rightarrow> fallback | c # _ \<Rightarrow> c)"

definition synthesisedUnapply :: "ClassInfo \<Rightarrow> GlobalBinding option \<Rightarrow> bool" where
  "synthesisedUnapply cls term \<longleftrightarrow>
     ci_isCase cls \<and> ci_kind cls = CK_Class \<and>
     (ci_builtin cls \<and> ci_companionTermKey cls = [] \<or>
      \<not> ci_companionHasUnapply cls \<and> (\<exists>t. term = Some t \<and> gb_key t = ci_companionTermKey cls))"

definition customExtractor ::
  "CompileRules \<Rightarrow> path \<Rightarrow> SourcePos \<Rightarrow> Node \<Rightarrow> Node Pattern list \<Rightarrow> nat \<Rightarrow> nat list \<Rightarrow> nat list compiling" where
  "customExtractor r path pos e args k fail =
     seqA (r_expr r (0 # path) e)
     (seqA (emitC PUSH_LOCAL k pos 1)
     (seqA (sendFixed ''unapply'' 1 pos)
     (andThen (storeNew pos) (\<lambda>result.
      seqA (emitC PUSH_LOCAL result pos 1)
      (if args = [] then failJump JUMP_IF_FALSE pos fail
       else
         seqA (sendFixed ''isEmpty'' 0 pos)
         (andThen (failJump JUMP_IF_TRUE pos fail) (\<lambda>fail.
          seqA (emitC PUSH_LOCAL result pos 1)
          (seqA (sendFixed ''get'' 0 pos)
          (andThen (storeNew pos) (\<lambda>got.
           case args of
             [p] \<Rightarrow> r_pattern r (1 # path) p got fail
           | _ \<Rightarrow> extractInto r path (tupleKeys (length args)) got args fail pos))))))))))"

text \<open>\<open>fixedName\<close>: the extractor is written as a plain name.\<close>

definition extractNamed ::
  "CompileRules \<Rightarrow> path \<Rightarrow> SourcePos \<Rightarrow> byte_string \<Rightarrow> bool \<Rightarrow> bool \<Rightarrow> Node \<Rightarrow> Node Pattern list \<Rightarrow> nat \<Rightarrow> nat list \<Rightarrow> nat list compiling" where
  "extractNamed r path pos name fixedName shadowed e args k fail =
     andThen (getA (\<lambda>s. (binding (c_globals s) name, if shadowed then None else findType (c_globals s) name))) (\<lambda>(term, cls).
       let userDefined = (shadowed \<or> (\<exists>t. term = Some t \<and> gb_kind t \<noteq> BK_Builtin)) in
       if name = ''::'' \<and> \<not> userDefined then compileConsPattern r path pos args k fail
       else if name = ''List'' \<and> \<not> userDefined \<and> term \<noteq> None then compileListPattern r path pos args k fail
       else if cls \<noteq> None \<and> synthesisedUnapply (the cls) term
       then
         if length args \<noteq> length (ci_fields (the cls))
         then compileError (''wrong number of arguments for pattern '' @ name @ '': expected '' @
                natToString (length (ci_fields (the cls))) @ '', found '' @ natToString (length args)) pos
         else andThen (emitProtoTest (ci_key (the cls)) k pos fail) (\<lambda>fail.
                extractInto r path (ci_fields (the cls)) k args fail pos)
       else if \<not> shadowed \<and> term = None \<and> fixedName then compileError (''Not found: '' @ name) pos
       else customExtractor r path pos e args k fail)"

definition compileExtractor ::
  "CompileRules \<Rightarrow> path \<Rightarrow> SourcePos \<Rightarrow> byte_string \<Rightarrow> Node option \<Rightarrow> Node Pattern list \<Rightarrow> nat \<Rightarrow> nat list \<Rightarrow> nat list compiling" where
  "compileExtractor r path pos written expr args k fail =
     andThen (deref expr) (\<lambda>e.
       case e of
         IdentN _ _ \<Rightarrow>
           andThen (getA (\<lambda>s. firstNamed (c_globals s) (scopedNames s written) written)) (\<lambda>name.
           andThen (capture name) (\<lambda>found.
           andThen (getA (\<lambda>s. found \<noteq> None \<or> memberOf s name \<noteq> None)) (\<lambda>shadowed.
             extractNamed r path pos name True shadowed e args k fail)))
       | _ \<Rightarrow> extractNamed r path pos written False False e args k fail)"

subsection \<open>Patterns\<close>

fun alternatives ::
  "CompileRules \<Rightarrow> path \<Rightarrow> SourcePos \<Rightarrow> nat \<Rightarrow> nat \<Rightarrow> Node Pattern list \<Rightarrow> nat list \<Rightarrow> nat list \<Rightarrow> (nat list \<times> nat list) compiling" where
  "alternatives r path pos k n [] matched fail = ret (matched, fail)"
| "alternatives r path pos k n (p # ps) matched fail =
     seqA (checkNoVariables p)
     (if ps = [] then andThen (r_pattern r ((n + 1) # path) p k fail) (\<lambda>fail. ret (matched, fail))
      else
        andThen (r_pattern r ((n + 1) # path) p k []) (\<lambda>others.
        andThen (emitJumpC JUMP pos 0) (\<lambda>j.
        seqA (forA patchHere others) (alternatives r path pos k (n + 1) ps (matched @ [j]) fail))))"

definition firstArg :: "'a list \<Rightarrow> 'a compiling" where
  "firstArg xs = (case xs of [] \<Rightarrow> throw NullPointer | x # _ \<Rightarrow> ret x)"

definition compilePattern :: "CompileRules \<Rightarrow> path \<Rightarrow> Node Pattern \<Rightarrow> nat \<Rightarrow> nat list \<Rightarrow> nat list compiling" where
  "compilePattern r path p k fail =
     (case p of Pattern kind pos name expr type args \<Rightarrow>
      let equal =
        andThen (deref expr) (\<lambda>e.
        seqA (r_expr r (0 # path) e)
        (seqA (emitC PUSH_LOCAL k pos 1)
        (seqA (emitC EQ 0 pos (-1))
          (failJump JUMP_IF_FALSE pos fail))))
      in case kind of
           PK_Wildcard \<Rightarrow> ret fail
         | PK_Var \<Rightarrow> seqA (bindPattern name k pos) (ret fail)
         | PK_Literal \<Rightarrow> equal
         | PK_Stable \<Rightarrow> equal
         | PK_Typed \<Rightarrow>
             andThen (deref type) (\<lambda>t.
             andThen (compileTypeTest r path t k pos True) (\<lambda>tested.
             andThen (if tested then failJump JUMP_IF_FALSE pos fail else ret fail) (\<lambda>fail.
             andThen (firstArg args) (\<lambda>a. r_pattern r (1 # path) a k fail))))
         | PK_Bind \<Rightarrow>
             andThen (firstArg args) (\<lambda>a.
             andThen (r_pattern r (1 # path) a k fail) (\<lambda>fail. seqA (bindPattern name k pos) (ret fail)))
         | PK_Alt \<Rightarrow>
             andThen (alternatives r path pos k 0 args [] fail) (\<lambda>(matched, fail).
             seqA (forA patchHere matched) (ret fail))
         | PK_Tuple \<Rightarrow>
             (let n = length args in
              if n > kMaxTupleArity
              then compileError ''tuple patterns of more than 22 elements are not supported (D32)'' pos
              else andThen (emitProtoTest (tupleTypeKey n) k pos fail) (\<lambda>fail.
                     extractInto r path (tupleKeys n) k args fail pos))
         | PK_Extractor \<Rightarrow> compileExtractor r path pos name expr args k fail
         | PK_SeqWildcard \<Rightarrow>
             compileError (''a sequence wildcard is only allowed as the last argument of a sequence '' @
               ''pattern such as List(a, rest*)'') pos)"

end
