(* ===== verification/CompilerControl.thy ===== *)
theory CompilerControl
  imports CompilerPatterns
begin

text \<open>
  Control flow: conditionals, loops, blocks, \<^verbatim>\<open>return\<close>, \<^verbatim>\<open>match\<close>, \<^verbatim>\<open>throw\<close> and \<^verbatim>\<open>try\<close>, and the dispatch over node
  kinds (\<^verbatim>\<open>src/src/compiler/Compiler.cpp\<close>, \<^verbatim>\<open>CompilePatterns.cpp\<close>).

  \<open>rulesAt\<close> ties the recursion: the rules with fuel \<open>Suc n\<close> are the routines over the rules with fuel \<open>n\<close>, and
  the rules with fuel 0 answer \<open>StackOverflow\<close>, as the check of the native stack does.

  \<^verbatim>\<open>emitEnclosingFinallys\<close> walks a vector by reverse iterators; the model walks it by index, and the
  reallocation that a \<^verbatim>\<open>try\<close> inside a \<^verbatim>\<open>finally\<close> body causes during the walk is left out.
\<close>

subsection \<open>Conditionals, loops and returns\<close>

definition compileIf :: "CompileRules \<Rightarrow> path \<Rightarrow> SourcePos \<Rightarrow> Node \<Rightarrow> Node \<Rightarrow> Node option \<Rightarrow> unit compiling" where
  "compileIf r path pos c t e =
     seqA (r_expr r (0 # path) c)
     (andThen (emitJumpC JUMP_IF_FALSE pos (-1)) (\<lambda>toElse.
      seqA (r_expr r (1 # path) t)
      (andThen (emitJumpC JUMP pos 0) (\<lambda>toEnd.
       seqA (patchHere toElse)
       (seqA (adjust (-1))
       (seqA (andThen (deref e) (r_expr r (2 # path)))
         (patchHere toEnd)))))))"

definition compileWhile :: "CompileRules \<Rightarrow> path \<Rightarrow> SourcePos \<Rightarrow> Node \<Rightarrow> Node \<Rightarrow> unit compiling" where
  "compileWhile r path pos c b =
     andThen codePos (\<lambda>start.
     seqA (r_expr r (0 # path) c)
     (andThen (emitJumpC JUMP_IF_FALSE pos (-1)) (\<lambda>toEnd.
      seqA (r_expr r (1 # path) b)
      (seqA (emitC POP 0 pos (-1))
      (seqA (emitJumpBackC start pos)
      (seqA (patchHere toEnd)
        (emitC PUSH_UNIT 0 pos 1)))))))"

definition addHole :: "nat \<Rightarrow> nat \<times> nat \<Rightarrow> unit compiling" where
  "addHole k hole =
     updateFn (\<lambda>f. f\<lparr>fn_finallys := (fn_finallys f)[k := (fn_finallys f ! k)\<lparr>af_holes := af_holes (fn_finallys f ! k) @ [hole]\<rparr>]\<rparr>)"

definition emitFinally :: "CompileRules \<Rightarrow> SourcePos \<Rightarrow> nat \<Rightarrow> unit compiling" where
  "emitFinally r pos k =
     andThen theFn (\<lambda>f.
     andThen codePos (\<lambda>start.
     seqA (r_expr r (af_path (fn_finallys f ! k)) (af_body (fn_finallys f ! k)))
     (seqA (emitC POP 0 pos (-1))
     (andThen codePos (\<lambda>stop. addHole k (start, stop))))))"

definition emitEnclosingFinallys :: "CompileRules \<Rightarrow> SourcePos \<Rightarrow> unit compiling" where
  "emitEnclosingFinallys r pos = andThen theFn (\<lambda>f. forA (emitFinally r pos) [0..<length (fn_finallys f)])"

definition compileReturn :: "CompileRules \<Rightarrow> path \<Rightarrow> SourcePos \<Rightarrow> Node option \<Rightarrow> unit compiling" where
  "compileReturn r path pos v =
     andThen theFn (\<lambda>f.
     if \<not> fn_allowsReturn f
     then compileError (if fn_isTopLevel f then ''return outside a method definition''
                        else ''return inside a lambda is not supported'') pos
     else
       seqA (case v of Some e \<Rightarrow> r_expr r (0 # path) e | None \<Rightarrow> emitC PUSH_UNIT 0 pos 1)
       (seqA (emitEnclosingFinallys r pos)
       (seqA (emitC RETURN 0 pos (-1))
         (adjust 1))))"

subsection \<open>Blocks\<close>

definition definedName :: "Node \<Rightarrow> byte_string option" where
  "definedName s = (case s of ValDefN v _ _ \<Rightarrow> Some (vd_name v) | DefDefN d _ _ \<Rightarrow> Some (dd_name d) | _ \<Rightarrow> None)"

fun checkDefinedOnce :: "byte_string list \<Rightarrow> Node list \<Rightarrow> unit compiling" where
  "checkDefinedOnce seen [] = ret ()"
| "checkDefinedOnce seen (s # ss) =
     (case definedName s of
        None \<Rightarrow> checkDefinedOnce seen ss
      | Some name \<Rightarrow>
          if name = ''_'' then checkDefinedOnce seen ss
          else if name \<in> set seen then compileError (name @ '' is already defined'') (nodePos s)
          else checkDefinedOnce (name # seen) ss)"

definition bodyOf :: "DefHead \<Rightarrow> Node option \<Rightarrow> Node compiling" where
  "bodyOf d b = (case b of None \<Rightarrow> compileError ''a method definition needs a body'' (dd_pos d) | Some e \<Rightarrow> ret e)"

definition rhsOf :: "ValHead \<Rightarrow> Node option \<Rightarrow> Node compiling" where
  "rhsOf v e = (case e of None \<Rightarrow> compileError ''a value definition needs an initialiser'' (vd_pos v) | Some e \<Rightarrow> ret e)"

definition declareIn :: "byte_string \<Rightarrow> BindingKind \<Rightarrow> path \<Rightarrow> u32 list \<Rightarrow> SourcePos \<Rightarrow> unit compiling" where
  "declareIn name kind p masks pos =
     andThen (getA (\<lambda>s. p \<in> c_boxed s)) (\<lambda>boxed.
     andThen (declareLocal name kind boxed masks) (\<lambda>info.
       if li_boxed info then emitC MAKE_CELL (li_slot info) pos 0 else ret ()))"

definition declareStat :: "path \<Rightarrow> Node \<Rightarrow> unit compiling" where
  "declareStat p s =
     (case s of
        DefDefN d pls b \<Rightarrow> andThen (lift (byNameMasksOfDef pls b)) (\<lambda>masks. declareIn (dd_name d) (kindOfDef pls) p masks (dd_pos d))
      | ValDefN v _ _ \<Rightarrow> declareIn (vd_name v) (kindOfVal v) p [] (vd_pos v)
      | _ \<Rightarrow> ret ())"

definition storeNamed :: "byte_string \<Rightarrow> SourcePos \<Rightarrow> unit compiling" where
  "storeNamed name pos = andThen theFn (\<lambda>f. andThen (deref (findInFunction f name)) (\<lambda>info. storeLocal info pos))"

definition tailTarget :: "TailRecKind \<Rightarrow> byte_string \<Rightarrow> byte_string \<Rightarrow> path \<Rightarrow> DefHead \<Rightarrow> Node Param list list \<Rightarrow> Node option \<Rightarrow> TailRecTarget option" where
  "tailTarget kind key alias p d pls b =
     (if isTailrec d \<and> pls \<noteq> []
      then Some \<lparr>tt_path = p, tt_head = d, tt_lists = pls, tt_body = b, tt_tailKind = kind, tt_key = key, tt_receiverAlias = alias\<rparr>
      else None)"

definition compileDef :: "CompileRules \<Rightarrow> path \<Rightarrow> DefHead \<Rightarrow> Node Param list list \<Rightarrow> Node option \<Rightarrow> TailRecTarget option \<Rightarrow> unit compiling" where
  "compileDef r p d pls b tailrec =
     andThen (bodyOf d b) (\<lambda>body.
       compileFunction r (dd_name d) (paramsOf pls) p (0 # p) body FS_Def (dd_pos d) False True [] tailrec)"

definition hoistStat :: "CompileRules \<Rightarrow> path \<Rightarrow> Node \<Rightarrow> unit compiling" where
  "hoistStat r p s =
     (case s of
        DefDefN d pls b \<Rightarrow>
          seqA (compileDef r p d pls b (tailTarget TR_Local [] [] p d pls b)) (storeNamed (dd_name d) (dd_pos d))
      | ValDefN v e _ \<Rightarrow>
          if vd_isLazy v
          then seqA (andThen (rhsOf v e) (\<lambda>rhs. compileLazyThunk r (0 # p) rhs (vd_pos v))) (storeNamed (vd_name v) (vd_pos v))
          else ret ()
      | _ \<Rightarrow> ret ())"

text \<open>One statement; the answer is whether it left the value of the block on the stack.\<close>

definition runStat :: "CompileRules \<Rightarrow> path \<Rightarrow> Node \<Rightarrow> bool \<Rightarrow> bool compiling" where
  "runStat r p s isLast =
     (case s of
        TypeDefN _ \<Rightarrow> if isLast then seqA (emitC PUSH_UNIT 0 (nodePos s) 1) (ret True) else ret False
      | ImportN d \<Rightarrow> seqA (compileImport (r_env r) d) (ret False)
      | DefDefN _ _ _ \<Rightarrow> ret False
      | ValDefN v e _ \<Rightarrow>
          if vd_isLazy v then ret False
          else seqA (andThen (rhsOf v e) (r_expr r (0 # p))) (seqA (storeNamed (vd_name v) (vd_pos v)) (ret False))
      | _ \<Rightarrow>
          seqA (r_expr r p s)
            (if isLast then ret True else seqA (emitC POP 0 (nodePos s) (-1)) (ret False)))"

fun runStats :: "CompileRules \<Rightarrow> (path \<times> Node) list \<Rightarrow> bool compiling" where
  "runStats r [] = ret False"
| "runStats r ((p, s) # rest) =
     andThen (runStat r p s (rest = [])) (\<lambda>v. if rest = [] then ret v else runStats r rest)"

definition compileStats :: "CompileRules \<Rightarrow> (path \<times> Node) list \<Rightarrow> SourcePos \<Rightarrow> unit compiling" where
  "compileStats r stats pos =
     seqA pushScope
     (seqA (forA (\<lambda>(p, s). declareStat p s) stats)
     (seqA (forA (\<lambda>(p, s). hoistStat r p s) stats)
     (andThen (runStats r stats) (\<lambda>valueOnStack.
      seqA (if valueOnStack then ret () else emitC PUSH_UNIT 0 pos 1)
        popScope))))"

definition compileBlock :: "CompileRules \<Rightarrow> path \<Rightarrow> SourcePos \<Rightarrow> Node list \<Rightarrow> unit compiling" where
  "compileBlock r path pos stats = seqA (checkDefinedOnce [] stats) (compileStats r (childArgs 0 path stats) pos)"

subsection \<open>Matches\<close>

text \<open>One case; \<open>test\<close> compiles its pattern.  The answer is the jump to the end.\<close>

definition compileCase ::
  "CompileRules \<Rightarrow> nat list compiling \<Rightarrow> path \<Rightarrow> nat \<Rightarrow> (Node Pattern, Node) CaseDef \<Rightarrow> nat compiling" where
  "compileCase r test path j c =
     seqA (checkDistinctVariables (cd_pattern c))
     (seqA pushScope
     (andThen test (\<lambda>fail.
      andThen
        (case cd_guard c of
           None \<Rightarrow> ret fail
         | Some g \<Rightarrow> seqA (r_expr r ((3 * j + 2) # path) g) (failJump JUMP_IF_FALSE (cd_pos c) fail)) (\<lambda>fail.
      seqA (r_expr r ((3 * j + 3) # path) (cd_body c))
      (andThen (emitJumpC JUMP (cd_pos c) 0) (\<lambda>exit.
       seqA (adjust (-1))
       (seqA (forA patchHere fail)
       (seqA popScope (ret exit)))))))))"

fun compileCases ::
  "CompileRules \<Rightarrow> (nat \<Rightarrow> (Node Pattern, Node) CaseDef \<Rightarrow> nat list compiling) \<Rightarrow> path \<Rightarrow> nat \<Rightarrow>
   (Node Pattern, Node) CaseDef list \<Rightarrow> nat list \<Rightarrow> nat list compiling" where
  "compileCases r test path j [] exits = ret exits"
| "compileCases r test path j (c # cs) exits =
     andThen (compileCase r (test j c) path j c) (\<lambda>exit. compileCases r test path (j + 1) cs (exits @ [exit]))"

definition compileMatch ::
  "CompileRules \<Rightarrow> path \<Rightarrow> SourcePos \<Rightarrow> Node \<Rightarrow> (Node Pattern, Node) CaseDef list \<Rightarrow> unit compiling" where
  "compileMatch r path pos e cases =
     seqA (r_expr r (0 # path) e)
     (andThen (storeNew pos) (\<lambda>k.
      andThen (compileCases r (\<lambda>j c. r_pattern r ((3 * j + 1) # path) (cd_pattern c) k []) path 0 cases []) (\<lambda>toEnd.
      seqA (emitC PUSH_LOCAL k pos 1)
      (seqA (emitC MATCH_ERROR 0 pos 0)
        (forA patchHere toEnd)))))"

subsection \<open>Exceptions\<close>

definition compileThrow :: "CompileRules \<Rightarrow> path \<Rightarrow> SourcePos \<Rightarrow> Node \<Rightarrow> unit compiling" where
  "compileThrow r path pos e =
     seqA (r_expr r (0 # path) e) (seqA (emitC THROW 0 pos (-1)) (emitC PUSH_UNIT 0 pos 1))"

text \<open>The pattern of a catch case, with \<^verbatim>\<open>catchScrutineeSlot_\<close> set.\<close>

definition catchTest :: "CompileRules \<Rightarrow> path \<Rightarrow> nat \<Rightarrow> nat \<Rightarrow> (Node Pattern, Node) CaseDef \<Rightarrow> nat list compiling" where
  "catchTest r path k j c =
     andThen (getA c_catchSlot) (\<lambda>outer.
     seqA (putA (\<lambda>s. s\<lparr>c_catchSlot := Some k\<rparr>))
     (andThen (r_pattern r ((3 * j + 1) # path) (cd_pattern c) k []) (\<lambda>fail.
      seqA (putA (\<lambda>s. s\<lparr>c_catchSlot := outer\<rparr>)) (ret fail))))"

definition compileCatchCases ::
  "CompileRules \<Rightarrow> path \<Rightarrow> (Node Pattern, Node) CaseDef list \<Rightarrow> nat \<Rightarrow> SourcePos \<Rightarrow> unit compiling" where
  "compileCatchCases r path cases k pos =
     andThen (compileCases r (catchTest r path k) path 0 cases []) (\<lambda>exits.
     seqA (emitC RETHROW k pos 0)
     (seqA (adjust 1)
       (forA patchHere exits)))"

datatype Verdict = V_All | V_Unknown | V_Keys

definition combineVerdicts :: "(Verdict \<times> (byte_string \<times> bool) list) list \<Rightarrow> Verdict \<times> (byte_string \<times> bool) list" where
  "combineVerdicts vs =
     (if V_All \<in> fst ` set vs then (V_All, [])
      else (if V_Unknown \<in> fst ` set vs then V_Unknown else V_Keys, concat (map snd vs)))"

definition classifyType :: "GlobalTable \<Rightarrow> TypeTree \<Rightarrow> Verdict \<times> (byte_string \<times> bool) list" where
  "classifyType g t =
     (if tt_kind t \<noteq> TK_Name \<and> tt_kind t \<noteq> TK_Applied then (V_Unknown, [])
      else
        let name = runtimeName g (tt_name t) in
        if name = ''Any'' then (V_All, [])
        else
          (case findType g name of
             None \<Rightarrow> (V_Unknown, [])
           | Some c \<Rightarrow>
               if ci_key c = kThrowableKey then (V_All, [])
               else (V_Keys, [(ci_key c, ci_key c = ''@Exception'')])))"

fun classify :: "GlobalTable \<Rightarrow> Node Pattern \<Rightarrow> Verdict \<times> (byte_string \<times> bool) list" where
  "classify g (Pattern kind pos name expr type args) =
     (case kind of
        PK_Wildcard \<Rightarrow> (V_All, [])
      | PK_Var \<Rightarrow> (V_All, [])
      | PK_Bind \<Rightarrow> (case args of a # _ \<Rightarrow> classify g a | [] \<Rightarrow> (V_Unknown, []))
      | PK_Alt \<Rightarrow> combineVerdicts (map (classify g) args)
      | PK_Typed \<Rightarrow>
          (case (args, type) of
             (a # _, Some t) \<Rightarrow>
               if pt_kind a \<noteq> PK_Wildcard \<and> pt_kind a \<noteq> PK_Var then (V_Unknown, []) else classifyType g t
           | _ \<Rightarrow> (V_Unknown, []))
      | _ \<Rightarrow> (V_Unknown, []))"

fun catchFilterFrom :: "GlobalTable \<Rightarrow> (Node Pattern, Node) CaseDef list \<Rightarrow> CatchFilter \<Rightarrow> CatchFilter" where
  "catchFilterFrom g [] f = f"
| "catchFilterFrom g (c # cs) f =
     (case (if cd_guard c \<noteq> None then (V_Unknown, []) else classify g (cd_pattern c)) of
        (V_All, _) \<Rightarrow> f\<lparr>cf_all := True\<rparr>
      | (V_Unknown, keys) \<Rightarrow> catchFilterFrom g cs (f\<lparr>cf_unknown := True, cf_keys := cf_keys f @ keys\<rparr>)
      | (V_Keys, keys) \<Rightarrow> catchFilterFrom g cs (f\<lparr>cf_keys := cf_keys f @ keys\<rparr>))"

definition catchFilterOf :: "GlobalTable \<Rightarrow> (Node Pattern, Node) CaseDef list \<Rightarrow> CatchFilter" where
  "catchFilterOf g cases = catchFilterFrom g cases \<lparr>cf_all = False, cf_unknown = False, cf_keys = []\<rparr>"

text \<open>A range of code without its holes.\<close>

fun rangesFrom :: "nat \<Rightarrow> nat \<Rightarrow> nat \<Rightarrow> (nat \<times> nat) list \<Rightarrow> (nat \<times> nat) list" where
  "rangesFrom start stop at [] = (if stop > at then [(at, stop)] else [])"
| "rangesFrom start stop at ((a, b) # holes) =
     (if a \<ge> stop \<or> b \<le> start then rangesFrom start stop at holes
      else (if a > at then [(at, a)] else []) @ rangesFrom start stop (if b > at then b else at) holes)"

definition addHandlerRanges ::
  "nat \<Rightarrow> nat \<Rightarrow> int \<Rightarrow> nat \<Rightarrow> HandlerKind \<Rightarrow> (nat \<times> nat) list \<Rightarrow> nat \<Rightarrow> unit compiling" where
  "addHandlerRanges start stop entryDepth k kind holes target =
     forA (\<lambda>(a, b).
       updateFn (onBody (\<lambda>m.
         case addHandler \<lparr>hd_startPc = a, hd_endPc = b, hd_handlerPc = 0, hd_stackDepth = entryDepth, hd_slot = int k, hd_kind = kind\<rparr> m of
           (i, m') \<Rightarrow> patchHandlerBody i target m'))) (rangesFrom start stop start holes)"

text \<open>Control arrives at the current position with depth \<open>d\<close>.\<close>

definition restartAt :: "int \<Rightarrow> unit compiling" where
  "restartAt d = updateFn (\<lambda>f. f\<lparr>fn_depth := d, fn_depths := (fn_depths f)(length (bm_code (fnBody f)) \<mapsto> d)\<rparr>)"

definition enterFinally :: "path \<Rightarrow> Node option \<Rightarrow> nat \<Rightarrow> unit compiling" where
  "enterFinally p fin k =
     (case fin of
        None \<Rightarrow> ret ()
      | Some e \<Rightarrow> updateFn (\<lambda>f. f\<lparr>fn_finallys := \<lparr>af_path = p, af_body = e, af_slot = k, af_holes = []\<rparr> # fn_finallys f\<rparr>))"

definition finallyHoles :: "Node option \<Rightarrow> FunctionState \<Rightarrow> (nat \<times> nat) list" where
  "finallyHoles fin f = (if fin = None then [] else af_holes (hd (fn_finallys f)))"

definition compileCatch ::
  "CompileRules \<Rightarrow> path \<Rightarrow> (Node Pattern, Node) CaseDef list \<Rightarrow> int \<Rightarrow> nat \<Rightarrow> SourcePos \<Rightarrow> nat compiling" where
  "compileCatch r path cases entryDepth k pos =
     (if cases = [] then ret 0
      else
        andThen codePos (\<lambda>catchBody.
        seqA (restartAt entryDepth) (seqA (compileCatchCases r path cases k pos) (ret catchBody))))"

definition compileCleanup ::
  "CompileRules \<Rightarrow> path \<Rightarrow> Node \<Rightarrow> nat \<Rightarrow> nat \<Rightarrow> int \<Rightarrow> nat \<Rightarrow> (nat \<times> nat) list \<Rightarrow> SourcePos \<Rightarrow> unit compiling" where
  "compileCleanup r p fin tryStart protectedEnd entryDepth k holes pos =
     andThen (emitRaw JUMP 0 (sourceLine pos) 0) (\<lambda>skipCleanup.
     andThen codePos (\<lambda>cleanup.
     seqA (addHandlerRanges tryStart protectedEnd entryDepth k HK_Finally holes cleanup)
     (seqA (updateFn (\<lambda>f. f\<lparr>fn_finallys := tl (fn_finallys f)\<rparr>))
     (seqA (restartAt entryDepth)
     (seqA (r_expr r p fin)
     (seqA (emitC POP 0 pos (-1))
     (seqA (emitC RETHROW k pos 0)
     (seqA (patchHere skipCleanup)
     (seqA (restartAt (entryDepth + 1))
     (seqA (r_expr r p fin)
       (emitC POP 0 pos (-1))))))))))))"

definition compileTry ::
  "CompileRules \<Rightarrow> path \<Rightarrow> SourcePos \<Rightarrow> Node \<Rightarrow> (Node Pattern, Node) CaseDef list \<Rightarrow> Node option \<Rightarrow> unit compiling" where
  "compileTry r path pos body cases fin =
     (let finPath = (3 * length cases + 1) # path in
      andThen theFn (\<lambda>f. let entryDepth = fn_depth f in
      andThen newSlot (\<lambda>k.
      andThen codePos (\<lambda>tryStart.
      seqA (enterFinally finPath fin k)
      (seqA (r_expr r (0 # path) body)
      (andThen codePos (\<lambda>tryEnd.
       andThen (emitRaw JUMP 0 (sourceLine pos) 0) (\<lambda>skip.
       andThen (compileCatch r path cases entryDepth k pos) (\<lambda>catchBody.
       seqA (patchHere skip)
       (andThen codePos (\<lambda>protectedEnd.
        andThen theFn (\<lambda>f. let holes = finallyHoles fin f in
        seqA
          (if cases = [] then ret ()
           else
             seqA (addHandlerRanges tryStart tryEnd entryDepth k HK_Catch holes catchBody)
               (andThen (getA c_globals) (\<lambda>g. updateFn (onBody (setCatchFilter catchBody (catchFilterOf g cases))))))
          (case fin of
             None \<Rightarrow> ret ()
           | Some e \<Rightarrow> compileCleanup r finPath e tryStart protectedEnd entryDepth k holes pos)))))))))))))"

subsection \<open>Expressions\<close>

definition pushConst :: "PoolRequest \<Rightarrow> SourcePos \<Rightarrow> unit compiling" where
  "pushConst q pos = emitConst PUSH_CONST q pos 1"

definition compileTypeApply :: "CompileRules \<Rightarrow> path \<Rightarrow> SourcePos \<Rightarrow> Node \<Rightarrow> TypeTree list \<Rightarrow> unit compiling" where
  "compileTypeApply r path pos f types =
     (case (f, types) of
        (SelectN _ q name, [t]) \<Rightarrow>
          if name = ''isInstanceOf'' \<or> name = ''asInstanceOf''
          then compileInstanceOf r (0 # 0 # path) q t (name = ''asInstanceOf'') pos
          else r_expr r (0 # path) f
      | _ \<Rightarrow> r_expr r (0 # path) f)"

definition compileLambda ::
  "CompileRules \<Rightarrow> path \<Rightarrow> SourcePos \<Rightarrow> Node Param list \<Rightarrow> Node option \<Rightarrow> bool \<Rightarrow> bool \<Rightarrow> unit compiling" where
  "compileLambda r path pos params body ownsReturn fromCurried =
     (case body of
        None \<Rightarrow> compileError ''a function literal needs a body'' pos
      | Some b \<Rightarrow>
          andThen (getA (\<lambda>s. if ownsReturn \<and> fromCurried then c_curriedTailRec s else None)) (\<lambda>tailrec.
          seqA (if tailrec = None then ret () else putA (\<lambda>s. s\<lparr>c_curriedTailRec := None\<rparr>))
            (compileFunction r ''<lambda>'' params path (0 # path) b (if ownsReturn then FS_Def else FS_Lambda) pos False
               fromCurried [] tailrec)))"

definition compileNode :: "CompileRules \<Rightarrow> path \<Rightarrow> Node \<Rightarrow> unit compiling" where
  "compileNode r path n =
     (case n of
        IntLitN pos v fits digits base \<Rightarrow> pushConst (if fits then RInt v else RBigInt digits base) pos
      | FloatLitN pos v _ \<Rightarrow> pushConst (RDouble v) pos
      | StringLitN pos v \<Rightarrow> pushConst (RString v) pos
      | CharLitN pos c \<Rightarrow> pushConst (RChar c) pos
      | BoolLitN pos b \<Rightarrow> emitC (if b then PUSH_TRUE else PUSH_FALSE) 0 pos 1
      | NullLitN pos \<Rightarrow> emitC PUSH_NULL 0 pos 1
      | UnitLitN pos \<Rightarrow> emitC PUSH_UNIT 0 pos 1
      | InterpStringN pos i ls as ss \<Rightarrow> compileInterp r path pos i ls as ss
      | TupleN pos es \<Rightarrow> compileTuple r path pos es
      | SpliceN pos _ \<Rightarrow> compileError ''a splice must be the last argument of a function call'' pos
      | NamedArgN pos _ _ \<Rightarrow> compileError ''a named argument is only allowed in an argument list'' pos
      | IdentN pos name \<Rightarrow> compileIdent r path pos name
      | SelectN pos q name \<Rightarrow> compileSelect r path pos q name
      | ApplyN pos f as _ _ \<Rightarrow> compileApply r path pos f as n
      | TypeApplyN pos f ts \<Rightarrow> compileTypeApply r path pos f ts
      | AssignN pos t v \<Rightarrow> compileAssign r path pos t v
      | IfN pos c t e \<Rightarrow> compileIf r path pos c t e
      | WhileN pos c b \<Rightarrow> compileWhile r path pos c b
      | ReturnN pos v \<Rightarrow> compileReturn r path pos v
      | BlockN pos ss _ \<Rightarrow> compileBlock r path pos ss
      | LambdaN pos ps b own curried \<Rightarrow> compileLambda r path pos ps b own curried
      | ValDefN v _ _ \<Rightarrow> compileError ''definition used as an expression'' (vd_pos v)
      | DefDefN d _ _ \<Rightarrow> compileError ''definition used as an expression'' (dd_pos d)
      | ImportN d \<Rightarrow> compileError ''definition used as an expression'' (im_pos d)
      | TypeDefN _ \<Rightarrow> compileError ''definition used as an expression'' (nodePos n)
      | TemplateDefN _ _ _ _ _ \<Rightarrow>
          compileError (''classes, traits and objects must be defined at the top level '' @ ''of a file or in an object'') (nodePos n)
      | NewN pos t as _ \<Rightarrow> compileNew r path pos t as
      | MatchN pos e cs \<Rightarrow> compileMatch r path pos e cs
      | TryN pos b cs f \<Rightarrow> compileTry r path pos b cs f
      | ThrowN pos e \<Rightarrow> compileThrow r path pos e
      | SuperN pos _ \<Rightarrow>
          compileError ([CHR 0x27] @ ''super'' @ [CHR 0x27] @ '' must be followed by '' @ [CHR 0x27] @ ''.'' @ [CHR 0x27] @
            '' and a member name'') pos
      | ExtensionDefN pos _ _ _ \<Rightarrow> compileError ''an extension must be defined at the top level of a file'' pos
      | ForN _ _ _ _ \<Rightarrow> logicError ''compiler: for-comprehension not desugared''
      | InfixN _ _ _ _ \<Rightarrow> logicError ''compiler: node kind not desugared''
      | PrefixN _ _ _ \<Rightarrow> logicError ''compiler: node kind not desugared''
      | ParensN _ _ \<Rightarrow> logicError ''compiler: node kind not desugared''
      | TypedN _ _ _ \<Rightarrow> logicError ''compiler: node kind not desugared'')"

fun rulesAt :: "Environment \<Rightarrow> nat \<Rightarrow> CompileRules" where
  "rulesAt env 0 =
     \<lparr>r_expr = \<lambda>path n. throw StackOverflow, r_pattern = \<lambda>path p k fail. throw StackOverflow, r_fuel = 0, r_env = env\<rparr>"
| "rulesAt env (Suc n) =
     \<lparr>r_expr = compileNode (rulesAt env n), r_pattern = compilePattern (rulesAt env n), r_fuel = n, r_env = env\<rparr>"

definition compileExpr :: "Environment \<Rightarrow> nat \<Rightarrow> path \<Rightarrow> Node \<Rightarrow> unit compiling" where
  "compileExpr env fuel path n = r_expr (rulesAt env fuel) path n"

end
