(* ===== verification/StackCert.thy ===== *)
theory StackCert
  imports StackFlow
begin

text \<open>How a certificate grows with the code: appending an instruction, patching a jump, adding constants,
  blocks, slots and handlers.\<close>

subsection \<open>Fetching\<close>

lemma fetch_bounds: "fetch c i = Some (op, n, nx) \<Longrightarrow> i < nx \<and> nx \<le> length c \<and> (nx = i + 1 \<or> nx = i + 2)"
  by (auto simp: fetch_def Let_def split: if_splits option.splits)

lemma fetch_append: "fetch c i = Some r \<Longrightarrow> fetch (c @ ws) i = Some r"
  by (auto simp: fetch_def Let_def nth_append split: if_splits option.splits)

lemma fetch_emitted:
  assumes "op \<noteq> EXTEND" "n \<le> kMaxExtendedOperand"
  shows "fetch (c @ emitted op n) (length c) = Some (op, n, length c + length (emitted op n))"
proof (cases "n > kMaxOperand")
  case True
  have "drop_bit 24 n < 2 ^ 24" using assms(2) by (simp add: drop_bit_eq_div kMaxExtendedOperand_def)
  moreover have "n AND kMaxOperand < 2 ^ 24"
    using and_low_bits[of n 24] by (simp add: kMaxOperand_def)
  ultimately show ?thesis
    using True assms(1) opNumber_range[of EXTEND] opNumber_range[of op] operand_split[of n]
    by (simp add: fetch_def emitted_def nth_append Let_def del: opNumber.simps)
next
  case False
  then show ?thesis
    using assms(1) opNumber_range[of op]
    by (simp add: fetch_def emitted_def nth_append Let_def kMaxOperand_def del: opNumber.simps)
qed

lemma fetch_word:
  assumes "fetch c w = Some (op, n, w + 1)"
  shows "w < length c" "unat (c ! w AND 0xFF) = opNumber op" "unat (drop_bit kOperandShift (c ! w)) = n" "op \<noteq> EXTEND"
proof -
  have "w < length c \<and> opOfByte (unat (c ! w AND 0xFF)) = Some op \<and> unat (drop_bit kOperandShift (c ! w)) = n \<and> op \<noteq> EXTEND"
    using assms by (auto simp: fetch_def Let_def split: if_splits option.splits)
  moreover have "opNumber op = b" if "opOfByte b = Some op" for b
    using that by (auto simp: opOfByte_def find_Some_iff)
  ultimately show "w < length c" "unat (c ! w AND 0xFF) = opNumber op" "unat (drop_bit kOperandShift (c ! w)) = n" "op \<noteq> EXTEND"
    by auto
qed

lemma fetch_patched:
  assumes "fetch c w = Some (op, n, w + 1)" "offset \<le> kMaxOperand"
  shows "fetch (c[w := instrWord (unat (c ! w AND 0xFF)) offset]) w = Some (op, offset, w + 1)"
  using fetch_word[OF assms(1)] assms(2) opNumber_range[of op]
  by (simp add: fetch_def Let_def kMaxOperand_def del: opNumber.simps)

lemma fetch_unpatched:
  assumes "fetch c w = Some (op, n, w + 1)" "fetch c i = Some r" "i \<noteq> w" "snd (snd r) \<noteq> w + 1"
  shows "fetch (c[w := v]) i = Some r"
proof -
  obtain o' n' nx where r: "r = (o', n', nx)" by (cases r) auto
  have b: "i < nx" "nx = i + 1 \<or> nx = i + 2" using fetch_bounds assms(2) r by blast+
  have "i + 1 \<noteq> w" if "nx = i + 2" using assms(4) that r by auto
  then show ?thesis using assms(2,3) b r
    by (auto simp: fetch_def Let_def split: if_splits option.splits)
qed

subsection \<open>Growth of the module\<close>

text \<open>The same code and handlers, with more constants, blocks and whatever else an instruction does not read.\<close>

definition poolGrows :: "BytecodeModule \<Rightarrow> BytecodeModule \<Rightarrow> bool" where
  "poolGrows m m' \<longleftrightarrow>
     (\<exists>cs. bm_consts (moduleBody m') = bm_consts (moduleBody m) @ cs) \<and> (\<exists>bs. moduleBlocks m' = moduleBlocks m @ bs)"

lemma poolGrows_refl [simp]: "poolGrows m m"
  by (simp add: poolGrows_def)

lemma poolGrows_trans: "poolGrows m m' \<Longrightarrow> poolGrows m' m'' \<Longrightarrow> poolGrows m m''"
  by (auto simp: poolGrows_def)

lemma constIs_grows: "constIs m k ks \<Longrightarrow> poolGrows m m' \<Longrightarrow> constIs m' k ks \<and> constAt m' k = constAt m k"
  by (auto simp: constIs_def constAt_def poolGrows_def nth_append)

lemma operandOk_grows:
  assumes "operandOk m slots op n" "poolGrows m m'" "slots \<le> slots'"
  shows "operandOk m' slots' op n \<and> stackUse m' op n = stackUse m op n"
proof -
  have "n < length (moduleBlocks m) \<Longrightarrow> n < length (moduleBlocks m') \<and> moduleBlocks m' ! n = moduleBlocks m ! n"
    using assms(2) by (auto simp: poolGrows_def nth_append)
  then show ?thesis using assms constIs_grows[OF _ assms(2), of n]
    by (cases op) (auto simp: siteArgc_def siteNames_def)
qed

lemma certInstr_grows:
  assumes "certInstr m slots peak D P i d" "poolGrows m m'" "slots \<le> slots'" "peak \<le> peak'"
    "bm_code (moduleBody m') = bm_code (moduleBody m)"
  shows "certInstr m' slots' peak' D P i d"
proof -
  from assms(1) obtain op n nx a b where i: "fetch (bm_code (moduleBody m)) i = Some (op, n, nx)"
      "operandOk m slots op n" "stackUse m op n = (a, b)" "int a \<le> d" "d \<le> peak" "d - int a + int b \<le> peak"
      "fallsThrough op \<longrightarrow> D nx = Some (d - int a + int b)"
      "isJump op \<longrightarrow> (case P (nx - 1) of None \<Rightarrow> D (nx + n) = Some (d - int a) | Some e \<Rightarrow> e = d - int a)"
      "op = JUMP_BACK \<longrightarrow> n \<le> nx \<and> D (nx - n) = Some d" "nx = i + 2 \<longrightarrow> D (i + 1) = None"
    unfolding certInstr_def by blast
  moreover have "operandOk m' slots' op n" "stackUse m' op n = (a, b)"
    using operandOk_grows[OF i(2) assms(2,3)] i(3) by simp_all
  moreover have "d \<le> peak'" "d - int a + int b \<le> peak'" using i assms(4) by simp_all
  ultimately show ?thesis unfolding certInstr_def assms(5) by blast
qed

lemma certified_grows:
  assumes "certified m slots peak D P" "poolGrows m m'" "slots \<le> slots'" "peak \<le> peak'"
    "bm_code (moduleBody m') = bm_code (moduleBody m)" "bm_handlers (moduleBody m') = bm_handlers (moduleBody m)"
  shows "certified m' slots' peak' D P"
  using assms(1,3) certInstr_grows[OF _ assms(2-5)]
  unfolding certified_def certHandler_def certPending_def assms(5,6) by fastforce

subsection \<open>Appending an instruction\<close>

definition agrees :: "BytecodeModule \<Rightarrow> (nat \<Rightarrow> int option) \<Rightarrow> int \<Rightarrow> bool" where
  "agrees m D d \<longleftrightarrow> D (length (bm_code (moduleBody m))) \<in> {None, Some d}"

lemma certInstr_append:
  assumes "certInstr m slots peak D P i d" "i < length (bm_code (moduleBody m))" "peak \<le> peak'"
    "bm_code (moduleBody m') = bm_code (moduleBody m) @ ws" "poolGrows m m'"
    "\<And>j e. j \<le> length (bm_code (moduleBody m)) \<Longrightarrow> D j = Some e \<Longrightarrow> D' j = Some e"
    "\<And>j. j < length (bm_code (moduleBody m)) \<Longrightarrow> D j = None \<Longrightarrow> D' j = None"
    "\<And>j. j < length (bm_code (moduleBody m)) \<Longrightarrow> P' j = P j"
    "\<And>j e. D j = Some e \<Longrightarrow> j \<le> length (bm_code (moduleBody m))"
  shows "certInstr m' slots peak' D' P' i d"
proof -
  let ?c = "bm_code (moduleBody m)"
  from assms(1) obtain op n nx a b where i: "fetch ?c i = Some (op, n, nx)"
      "operandOk m slots op n" "stackUse m op n = (a, b)" "int a \<le> d" "d \<le> peak" "d - int a + int b \<le> peak"
      "fallsThrough op \<longrightarrow> D nx = Some (d - int a + int b)"
      "isJump op \<longrightarrow> (case P (nx - 1) of None \<Rightarrow> D (nx + n) = Some (d - int a) | Some e \<Rightarrow> e = d - int a)"
      "op = JUMP_BACK \<longrightarrow> n \<le> nx \<and> D (nx - n) = Some d" "nx = i + 2 \<longrightarrow> D (i + 1) = None"
    unfolding certInstr_def by blast
  note b = fetch_bounds[OF i(1)]
  have keep: "D' j = Some e" if "D j = Some e" for j e using assms(6,9) that by blast
  have "fetch (bm_code (moduleBody m')) i = Some (op, n, nx)" using fetch_append[OF i(1)] assms(4) by simp
  moreover have "operandOk m' slots op n" "stackUse m' op n = (a, b)"
    using operandOk_grows[OF i(2) assms(5) order_refl] i(3) by simp_all
  moreover have "d \<le> peak'" "d - int a + int b \<le> peak'" using i assms(3) by simp_all
  moreover have "fallsThrough op \<longrightarrow> D' nx = Some (d - int a + int b)" using i(7) keep by blast
  moreover have "isJump op \<longrightarrow> (case P' (nx - 1) of None \<Rightarrow> D' (nx + n) = Some (d - int a) | Some e \<Rightarrow> e = d - int a)"
    using i(8) keep assms(8)[of "nx - 1"] b by (auto split: option.splits)
  moreover have "op = JUMP_BACK \<longrightarrow> n \<le> nx \<and> D' (nx - n) = Some d" using i(9) keep by blast
  moreover have "nx = i + 2 \<longrightarrow> D' (i + 1) = None" using i(10) assms(7)[of "i + 1"] b by auto
  ultimately show ?thesis using i(4) unfolding certInstr_def by blast
qed

lemma certified_emit:
  assumes cert: "certified m slots peak D P" and ag: "agrees m D d" and d: "0 \<le> d"
    and op: "op \<noteq> EXTEND" "n \<le> kMaxExtendedOperand" "operandOk m slots op n" "stackUse m op n = (a, b)"
    and depth: "int a \<le> d" "peak \<le> peak'" "d \<le> peak'" "d - int a + int b \<le> peak'"
    and m': "bm_code (moduleBody m') = bm_code (moduleBody m) @ emitted op n"
      "bm_consts (moduleBody m') = bm_consts (moduleBody m)" "moduleBlocks m' = moduleBlocks m"
      "bm_handlers (moduleBody m') = bm_handlers (moduleBody m)"
    and jump: "isJump op \<longrightarrow> n = 0"
    and D': "D' = D(length (bm_code (moduleBody m)) \<mapsto> d,
        length (bm_code (moduleBody m')) := (if fallsThrough op then Some (d - int a + int b) else None))"
    and P': "P' = (if isJump op then P(length (bm_code (moduleBody m')) - 1 \<mapsto> d - int a) else P)"
    and loop: "op = JUMP_BACK \<longrightarrow> n \<le> length (bm_code (moduleBody m')) \<and> length (bm_code (moduleBody m')) - n \<le> length (bm_code (moduleBody m)) \<and>
        D' (length (bm_code (moduleBody m')) - n) = Some d"
  shows "certified m' slots peak' D' P'"
proof -
  let ?c = "bm_code (moduleBody m)" and ?c' = "bm_code (moduleBody m')"
  let ?len = "length ?c" and ?nx = "length ?c'"
  have nx: "?len < ?nx" "?nx \<le> ?len + 2" using m'(1) by (simp_all add: emitted_def)
  have new: "fetch ?c' ?len = Some (op, n, ?nx)" using fetch_emitted[OF op(1,2), of ?c] m'(1) by simp
  have grows: "poolGrows m m'" using m' by (simp add: poolGrows_def)
  note use = operandOk_grows[OF op(3) grows, of slots]
  from cert have start: "D 0 = Some 0"
    and at: "\<And>i e. D i = Some e \<Longrightarrow> 0 \<le> e \<and> i \<le> ?len \<and> (i < ?len \<longrightarrow> certInstr m slots peak D P i e)"
    and hs: "\<And>h. h \<in> set (bm_handlers (moduleBody m)) \<Longrightarrow> certHandler m slots D h"
    and pend: "\<And>w e. P w = Some e \<Longrightarrow> certPending m D w"
    unfolding certified_def by blast+
  have keep: "D' j = Some e" if "D j = Some e" for j e
    using that at[OF that] nx ag D' by (auto simp: agrees_def)
  have none: "D' j = None" if "j < ?len" "D j = None" for j using that nx D' by simp
  have pw: "P' j = P j" if "j < ?len" for j
  proof -
    have "j \<noteq> ?nx - 1" using that nx by linarith
    then show ?thesis using P' by simp
  qed
  have here: "certInstr m' slots peak' D' P' ?len d"
  proof -
    have "D' ?nx = (if fallsThrough op then Some (d - int a + int b) else None)" using D' by simp
    moreover have "isJump op \<longrightarrow> P' (?nx - 1) = Some (d - int a)" using P' by simp
    moreover have "?nx = ?len + 2 \<longrightarrow> D' (?len + 1) = None"
      using D' at[of "?len + 1"] by (cases "D (?len + 1)") auto
    ultimately show ?thesis unfolding certInstr_def
      using new use op(4) depth loop by (intro exI[of _ op] exI[of _ n] exI[of _ ?nx] exI[of _ a] exI[of _ b]) simp
  qed
  have "0 \<le> e \<and> i \<le> ?nx \<and> (i < ?nx \<longrightarrow> certInstr m' slots peak' D' P' i e)" if De: "D' i = Some e" for i e
  proof -
    consider "i < ?len" "D i = Some e" | "i = ?len" "e = d" | "i = ?nx" "e = d - int a + int b"
    proof -
      assume c: "i < ?len \<Longrightarrow> D i = Some e \<Longrightarrow> thesis" "i = ?len \<Longrightarrow> e = d \<Longrightarrow> thesis"
        "i = ?nx \<Longrightarrow> e = d - int a + int b \<Longrightarrow> thesis"
      have "i = ?nx \<and> e = d - int a + int b \<or> i = ?len \<and> e = d \<or> i \<noteq> ?len \<and> D i = Some e"
        using De nx D' by (auto split: if_splits)
      then show thesis using c at[of i e] by fastforce
    qed
    then show ?thesis
    proof cases
      case 1
      have "certInstr m' slots peak' D' P' i e"
        by (rule certInstr_append[where m = m and D = D and P = P])
          (use 1 at[OF 1(2)] depth(2) m'(1) grows keep none at pw in auto)
      then show ?thesis using 1 at[OF 1(2)] nx by simp
    next
      case 2
      then show ?thesis using here d nx by simp
    next
      case 3
      then show ?thesis using depth(1) by simp
    qed
  qed
  moreover have "certHandler m' slots D' h" if "h \<in> set (bm_handlers (moduleBody m'))" for h
  proof -
    note h = hs[of h, unfolded certHandler_def]
    have hm: "h \<in> set (bm_handlers (moduleBody m))" using that m'(4) by simp
    have "hd_stackDepth h \<le> e"
      if "D' i = Some e" "fetch ?c' i = Some (o', k, x)" "hd_startPc h \<le> x - 1" "x - 1 < hd_endPc h" for i e o' k x
    proof -
      have "x - 1 < ?len" using that(4) h[OF hm] by simp
      then have "i < ?len" using fetch_bounds[OF that(2)] by auto
      then have "D i = Some e" using that(1) nx D' by simp
      moreover from this have "certInstr m slots peak D P i e" using at \<open>i < ?len\<close> by blast
      then obtain r where "fetch ?c i = Some r" by (auto simp: certInstr_def)
      then have "fetch ?c i = Some (o', k, x)" using fetch_append[of ?c i r] that(2) m'(1) by simp
      ultimately show ?thesis using h[OF hm] that(3,4) by blast
    qed
    then show ?thesis using h[OF hm] keep m'(1) unfolding certHandler_def by auto
  qed
  moreover have "certPending m' D' w" if "P' w = Some e" for w e
  proof (cases "isJump op \<and> w = ?nx - 1")
    case True
    then have "n = 0" using jump by simp
    then have "?nx = ?len + 1" using m'(1) by (simp add: emitted_def)
    then show ?thesis using True new \<open>n = 0\<close> D' nx unfolding certPending_def by auto
  next
    case False
    then have "P w = Some e" using that P' by (auto split: if_splits)
    from pend[OF this] show ?thesis unfolding certPending_def using keep fetch_append m'(1) by fastforce
  qed
  moreover have "D' 0 = Some 0" using keep start by blast
  ultimately show ?thesis unfolding certified_def by blast
qed

subsection \<open>Patching a jump\<close>

lemma certified_land:
  assumes "certified m slots peak D P" "agrees m D d" "0 \<le> d"
  shows "certified m slots peak (D(length (bm_code (moduleBody m)) \<mapsto> d)) P"
proof -
  let ?c = "bm_code (moduleBody m)"
  let ?D = "D(length ?c \<mapsto> d)"
  from assms(1) have at: "\<And>i e. D i = Some e \<Longrightarrow> 0 \<le> e \<and> i \<le> length ?c \<and> (i < length ?c \<longrightarrow> certInstr m slots peak D P i e)"
    and hs: "\<And>h. h \<in> set (bm_handlers (moduleBody m)) \<Longrightarrow> certHandler m slots D h"
    and start: "D 0 = Some 0" and pend: "\<And>w e. P w = Some e \<Longrightarrow> certPending m D w"
    unfolding certified_def by blast+
  have keep: "?D j = Some e" if "D j = Some e" for j e using that assms(2) by (auto simp: agrees_def)
  have "certInstr m slots peak ?D P i e" if "D i = Some e" "i < length ?c" for i e
    by (rule certInstr_append[where m = m and D = D and P = P and ws = "[]"]) (use that at keep in auto)
  moreover have "certHandler m slots ?D h" if "h \<in> set (bm_handlers (moduleBody m))" for h
  proof -
    have "hd_stackDepth h \<le> e"
      if "?D i = Some e" "fetch ?c i = Some (o', k, x)" "hd_startPc h \<le> x - 1" "x - 1 < hd_endPc h" for i e o' k x
    proof -
      have "D i = Some e" using that(1) fetch_bounds[OF that(2)] by (auto split: if_splits)
      then show ?thesis using hs[OF \<open>h \<in> _\<close>] that(2-4) unfolding certHandler_def by blast
    qed
    moreover have "?D (hd_handlerPc h) = Some (hd_stackDepth h)" using hs[OF that] keep unfolding certHandler_def by blast
    ultimately show ?thesis using hs[OF that] unfolding certHandler_def by blast
  qed
  moreover have "certPending m ?D w" if "P w = Some e" for w e
    using pend[OF that] keep unfolding certPending_def by blast
  moreover have "?D 0 = Some 0" using keep[OF start] .
  ultimately show ?thesis using at assms(3) unfolding certified_def by (auto split: if_splits)
qed

lemma certified_patch:
  assumes cert: "certified m slots peak D P" and w: "P w = Some e" and ag: "agrees m D e"
    and patch: "patchJumpTo w (length (bm_code (moduleBody m))) (moduleBody m) = Inr b"
  shows "certified (Module b (moduleBlocks m)) slots peak (D(length (bm_code (moduleBody m)) \<mapsto> e)) (P(w := None))"
proof -
  let ?c = "bm_code (moduleBody m)" and ?m' = "Module b (moduleBlocks m)"
  let ?len = "length ?c" and ?D = "D(length ?c \<mapsto> e)" and ?P = "P(w := None)"
  define offset where "offset = ?len - (w + 1)"
  have pend: "certPending m D v" if "P v = Some x" for v x using cert that unfolding certified_def by blast
  obtain dw ow where jw: "D w = Some dw" "fetch ?c w = Some (ow, 0, w + 1)" "isJump ow"
    using pend[OF w] by (auto simp: certPending_def)
  note word = fetch_word[OF jw(2)]
  have off: "offset \<le> kMaxOperand" "w < ?len"
    and b: "b = (moduleBody m)\<lparr>bm_code := ?c[w := instrWord (unat (?c ! w AND 0xFF)) offset]\<rparr>"
    using patch word(1) by (auto simp: patchJumpTo_def Let_def offset_def split: if_splits)
  have c': "bm_code b = ?c[w := instrWord (unat (?c ! w AND 0xFF)) offset]" "length (bm_code b) = ?len" using b by simp_all
  have other: "bm_consts b = bm_consts (moduleBody m)" "bm_handlers b = bm_handlers (moduleBody m)" using b by simp_all
  have here: "fetch (bm_code b) w = Some (ow, offset, w + 1)" using fetch_patched[OF jw(2) off(1)] c' by simp
  from cert have at: "\<And>i x. D i = Some x \<Longrightarrow> 0 \<le> x \<and> i \<le> ?len \<and> (i < ?len \<longrightarrow> certInstr m slots peak D P i x)"
    and hs: "\<And>h. h \<in> set (bm_handlers (moduleBody m)) \<Longrightarrow> certHandler m slots D h" and start: "D 0 = Some 0"
    unfolding certified_def by blast+
  have keep: "?D j = Some x" if "D j = Some x" for j x using that ag by (auto simp: agrees_def)
  have use: "operandOk ?m' slots op n \<and> stackUse ?m' op n = stackUse m op n" if "operandOk m slots op n" for op n
    by (rule operandOk_grows[OF that]) (simp_all add: poolGrows_def other)
  have edge: "fetch (bm_code b) i = Some (op, n, nx) \<and> nx \<noteq> w + 1"
    if "D i = Some x" "fetch ?c i = Some (op, n, nx)" "i \<noteq> w" for i x op n nx
  proof -
    have "i < ?len" using fetch_bounds[OF that(2)] by simp
    then have "nx = i + 2 \<longrightarrow> D (i + 1) = None" using at[OF that(1)] that(2) by (auto simp: certInstr_def)
    then have "nx \<noteq> w + 1" using fetch_bounds[OF that(2)] that(3) jw(1) by auto
    then show ?thesis using fetch_unpatched[OF jw(2) that(2,3)] c' by simp
  qed
  have orig: "fetch ?c i = Some (op, if i = w then 0 else n, nx)"
    if Di: "D i = Some x" and Fi: "fetch (bm_code b) i = Some (op, n, nx)" for i x op n nx
  proof (cases "i = w")
    case True
    then show ?thesis using Fi here jw(2) by simp
  next
    case False
    have "i < ?len" using fetch_bounds[OF Fi] c' by simp
    then obtain r where r: "fetch ?c i = Some r" using at[OF Di] by (auto simp: certInstr_def)
    then show ?thesis using edge[OF Di _ False] Fi False by (cases r) auto
  qed
  have e: "e = dw - int (fst (stackUse m ow 0)) \<and> 0 \<le> e"
  proof -
    have "certInstr m slots peak D P w dw" using at[OF jw(1)] off(2) by blast
    then show ?thesis using jw w by (auto simp: certInstr_def)
  qed
  have step: "certInstr ?m' slots peak ?D ?P i x" if "D i = Some x" "i < ?len" for i x
  proof -
    from at[OF that(1)] that(2) have "certInstr m slots peak D P i x" by blast
    then obtain op n nx a b' where i: "fetch ?c i = Some (op, n, nx)"
        "operandOk m slots op n" "stackUse m op n = (a, b')" "int a \<le> x" "x \<le> peak" "x - int a + int b' \<le> peak"
        "fallsThrough op \<longrightarrow> D nx = Some (x - int a + int b')"
        "isJump op \<longrightarrow> (case P (nx - 1) of None \<Rightarrow> D (nx + n) = Some (x - int a) | Some e \<Rightarrow> e = x - int a)"
        "op = JUMP_BACK \<longrightarrow> n \<le> nx \<and> D (nx - n) = Some x" "nx = i + 2 \<longrightarrow> D (i + 1) = None"
      unfolding certInstr_def by blast
    have inner: "nx = i + 2 \<longrightarrow> ?D (i + 1) = None" using i(10) fetch_bounds[OF i(1)] by auto
    show ?thesis
    proof (cases "i = w")
      case True
      then have e': "op = ow" "n = 0" "nx = w + 1" "x = dw" using i(1) jw that by simp_all
      have "stackUse ?m' ow offset = (a, b')" "operandOk ?m' slots ow offset"
        using i(3) jw(3) e' by (auto simp: isJump_def)
      moreover have "ow \<noteq> JUMP_BACK" using jw(3) by (auto simp: isJump_def)
      moreover have "w + 1 + offset = ?len" using off(2) unfolding offset_def by linarith
      then have "?D (w + 1 + offset) = Some (x - int a)" using e e' i(3) by (simp del: add_Suc add_Suc_right)
      moreover have "fallsThrough ow \<longrightarrow> ?D (w + 1) = Some (x - int a + int b')" using i(7) e' keep by blast
      moreover have "?P (w + 1 - 1) = None" by simp
      ultimately show ?thesis unfolding certInstr_def True
        using here i(4-6) by (intro exI[of _ ow] exI[of _ offset] exI[of _ "w + 1"] exI[of _ a] exI[of _ b'])
          (simp only: option.case simp_thms, simp)
    next
      case False
      note f = edge[OF that(1) i(1) False]
      have "?P (nx - 1) = P (nx - 1)" using f fetch_bounds[OF i(1)] by auto
      then have "isJump op \<longrightarrow> (case ?P (nx - 1) of None \<Rightarrow> ?D (nx + n) = Some (x - int a) | Some e \<Rightarrow> e = x - int a)"
        using i(8) keep[of "nx + n"] by (cases "P (nx - 1)") simp_all
      moreover have "fallsThrough op \<longrightarrow> ?D nx = Some (x - int a + int b')" using i(7) keep by blast
      moreover have "op = JUMP_BACK \<longrightarrow> n \<le> nx \<and> ?D (nx - n) = Some x" using i(9) keep by blast
      moreover have "operandOk ?m' slots op n" "stackUse ?m' op n = (a, b')" using use[OF i(2)] i(3) by simp_all
      moreover have "fetch (bm_code (moduleBody ?m')) i = Some (op, n, nx)" using f by simp
      ultimately show ?thesis unfolding certInstr_def using i(4-6) inner by blast
    qed
  qed
  have "certHandler ?m' slots ?D h" if "h \<in> set (bm_handlers b)" for h
  proof -
    note h = hs[of h, unfolded certHandler_def]
    have hm: "h \<in> set (bm_handlers (moduleBody m))" using that other by simp
    have "hd_stackDepth h \<le> x"
      if "?D i = Some x" "fetch (bm_code b) i = Some (o', k, y)" "hd_startPc h \<le> y - 1" "y - 1 < hd_endPc h" for i x o' k y
    proof -
      have "D i = Some x" using that(1) fetch_bounds[OF that(2)] c' by (auto split: if_splits)
      from orig[OF this that(2)] show ?thesis using h[OF hm] \<open>D i = Some x\<close> that(3,4) by blast
    qed
    then show ?thesis using h[OF hm] keep c' unfolding certHandler_def by auto
  qed
  moreover have "certPending ?m' ?D v" if "?P v = Some x" for v x
  proof -
    have v: "v \<noteq> w" "P v = Some x" using that by (auto split: if_splits)
    obtain dv ov where "D v = Some dv" "fetch ?c v = Some (ov, 0, v + 1)" "isJump ov"
      using pend[OF v(2)] by (auto simp: certPending_def)
    then show ?thesis using edge v(1) keep unfolding certPending_def by auto
  qed
  moreover have "0 \<le> x \<and> i \<le> ?len \<and> (i < ?len \<longrightarrow> certInstr ?m' slots peak ?D ?P i x)" if "?D i = Some x" for i x
    using that step at[of i x] e by (cases "i = ?len") auto
  ultimately show ?thesis using keep[OF start] c' unfolding certified_def by auto
qed

subsection \<open>Handlers\<close>

lemma certified_handlers:
  assumes "certified m slots peak D P" "bm_code (moduleBody m') = bm_code (moduleBody m)"
    "bm_consts (moduleBody m') = bm_consts (moduleBody m)" "moduleBlocks m' = moduleBlocks m"
    "\<And>h. h \<in> set (bm_handlers (moduleBody m')) \<Longrightarrow> h \<in> set (bm_handlers (moduleBody m)) \<or> certHandler m slots D h"
  shows "certified m' slots peak D P"
proof -
  have use: "operandOk m' slots op n = operandOk m slots op n \<and> stackUse m' op n = stackUse m op n" for op n
    using assms(3,4) by (cases op) (simp_all add: constIs_def constAt_def siteArgc_def siteNames_def)
  have "certHandler m' slots D h" if "h \<in> set (bm_handlers (moduleBody m'))" for h
    using assms(1) assms(5)[OF that] unfolding certified_def certHandler_def assms(2) by blast
  moreover have "certInstr m' slots peak D P = certInstr m slots peak D P" "certPending m' D = certPending m D"
    by (simp_all add: fun_eq_iff certInstr_def certPending_def use assms(2))
  ultimately show ?thesis using assms(1) by (simp add: certified_def assms(2))
qed

end
