(* ===== verification/Spec2Isabelle.thy ===== *)
theory Spec2Isabelle
  imports Linearizer Hashing Disassembler FrontEnd ReadyStack Semaphore ModuleTable GlobalTable Format
    DapTransport Selectors CompilerControl StackCert
begin

text \<open>
  \<^bold>\<open>protoScala: a verification development\<close>

  \<^bold>\<open>The program.\<close>  protoScala compiles a dialect of Scala 3 to a word bytecode and runs it.  Source text
  goes through \<^verbatim>\<open>src/src/frontend/\<close>: the lexer (\<^verbatim>\<open>Lexer.cpp\<close>) produces raw tokens, the layout pass
  (\<^verbatim>\<open>Layout.cpp\<close>) inserts Newline, Indent and Outdent tokens by the offside rule, the parser
  (\<^verbatim>\<open>Parser.cpp\<close>) builds the tree of \<^verbatim>\<open>AST.h\<close>, and the desugarer (\<^verbatim>\<open>Desugar.cpp\<close>) rewrites it into core
  forms.  \<^verbatim>\<open>src/src/compiler/\<close> turns core forms into one \<^verbatim>\<open>BytecodeModule\<close> per function body, and
  \<^verbatim>\<open>src/src/runtime/\<close> executes those over the objects of the external protoCore library.  Classes are
  ordered by \<^verbatim>\<open>frontend/Linearizer.cpp\<close>; values are hashed by \<^verbatim>\<open>runtime/Hashing.h\<close>.

  \<^bold>\<open>What models what.\<close>  A theory models one source file or a part of it; a definition has the name of
  the function it models unless the name is taken in HOL.

  \<^item> \<open>Prelude\<close>, \<open>Monads\<close>: bytes and characters of the C locale, list lemmas, the error monad
    (\<open>Inl\<close> is a C++ exception) and the state-and-error monad.
  \<^item> \<open>UnicodeLetters\<close>, \<open>Utf8\<close>, \<open>Tokens\<close>, \<open>Scanner\<close>, \<open>Tokenizer\<close>, \<open>TokenStream\<close>: \<^verbatim>\<open>UnicodeLetters.h\<close>, \<^verbatim>\<open>Token.h\<close>,
    \<^verbatim>\<open>Lexer.h\<close>, \<^verbatim>\<open>Lexer.cpp\<close>.  The cursor is a record passed from call to call.  Shown: decoding and encoding
    are inverse on scalar values and decoding accepts nothing else; the binary search decides membership;
    the shape, placing and spelling of the token stream; exact integer literals; keywords.
  \<^item> \<open>Layout\<close>: \<^verbatim>\<open>Layout.cpp\<close>.  Shown: inserted tokens nest with the brackets, erasing them gives the raw
    tokens back, where separators stand, and that a lexical error is never lost.
  \<^item> \<open>AST\<close>, \<open>AstRender\<close>, \<open>AstWalk\<close>: \<^verbatim>\<open>AST.h\<close> and \<^verbatim>\<open>AST.cpp\<close>.  \<^verbatim>\<open>Expr\<close> is one datatype whose record of fields is
    the class's; a null pointer is \<open>None\<close>.  Shown: the iterative teardown frees each node once, copying and
    rebasing.
  \<^item> \<open>Operators\<close>, \<open>Strtod\<close>, \<open>ParserState\<close>, \<open>ParserTypes\<close>, \<open>ParserTerms\<close>, \<open>ParserPatterns\<close>, \<open>ParserExpr\<close>,
    \<open>ParserDefs\<close>, \<open>ParserTemplates\<close>, \<open>ParserGrammar\<close>: all routines of \<^verbatim>\<open>Parser.cpp\<close>.  A routine is an action on
    the parser state that returns a value or the \<^verbatim>\<open>ParseError\<close> of the source.
  \<^item> \<open>ParserLogic\<close>, \<open>ParserShape\<close>, \<open>ParserWalk\<close>, \<open>ParserWalkExpr\<close>, \<open>ParserWalkTerms\<close>, \<open>ParserWalkDefs\<close>,
    \<open>ParserWalkTemplates\<close>, \<open>HoleTexts\<close>, \<open>ParserTotal\<close>: a weakest-precondition calculus for those actions and
    one lemma per routine, under the locale \<open>parsed_trees\<close>, whose laws say which trees the grammar may build.
    Shown: no routine runs out of its bound, and every law-abiding predicate holds of every parsed tree.
  \<^item> \<open>DesugarExpr\<close>, \<open>DesugarCore\<close>, \<open>DesugarUnit\<close>, \<open>DesugarLift\<close>, \<open>DesugarPipeline\<close>: \<^verbatim>\<open>Desugar.cpp\<close>.  Shown: on the trees
    \<open>parsedTree\<close> (theory \<open>ParsedTree\<close>) describes, desugaring succeeds and leaves core forms only; lifting,
    companions and enumerations.
  \<^item> \<open>FrontEnd\<close>: the composition, from text to core forms.
  \<^item> \<open>Linearizer\<close>: \<^verbatim>\<open>Linearizer.cpp\<close>, against the definition of the language specification.
  \<^item> \<open>Opcodes\<close>, \<open>Bytecode\<close>, \<open>Disassembler\<close>: \<^verbatim>\<open>Opcodes.h\<close>, \<^verbatim>\<open>BytecodeModule.h\<close>, \<^verbatim>\<open>BytecodeModule.cpp\<close>.  Code words are
    32-bit words.  Shown: emission and decoding are inverse, jumps land, the constant pool and the handler
    table give back what was put in.
  \<^item> \<open>Hashing\<close>: \<^verbatim>\<open>Hashing.h\<close>, on 32-bit words with wrap-around.
  \<^item> \<open>ClassInfo\<close>, \<open>GlobalTable\<close>: \<^verbatim>\<open>ClassInfo.h\<close>, \<^verbatim>\<open>ClassInfo.cpp\<close>, \<^verbatim>\<open>GlobalTable.h\<close>, the compiler's tables.  What all
    copies of a table share is a record beside the table, so that a rolled-back unit is a table put back.  The
    locale \<open>key_supply\<close> is the contract of the key counters.  Shown: which declarations of a session get a new
    key, and when the key of a runtime type is handed out again.
  \<^item> \<open>StackFlow\<close>, \<open>StackCert\<close>: the operand stack of the interpreter loop (\<^verbatim>\<open>ExecutionEngine.cpp\<close>): how many values
    every instruction takes and leaves, where control goes, and the entry of a handler.  Shown: a module with
    a certificate of depths never underflows or overflows its frame, and emission keeps the certificate.
  \<^item> \<open>CompilerState\<close>, \<open>Captures\<close>, \<open>CompilerImports\<close>, \<open>CompilerTail\<close>, \<open>CompilerFunctions\<close>, \<open>CompilerCalls\<close>,
    \<open>CompilerPatterns\<close>, \<open>CompilerControl\<close>: code generation, \<^verbatim>\<open>Compiler.h\<close>, \<^verbatim>\<open>Compiler.cpp\<close>, \<^verbatim>\<open>CompilePatterns.cpp\<close>,
    \<^verbatim>\<open>CompileTailRec.cpp\<close> and the expressions of \<^verbatim>\<open>CompileTemplates.cpp\<close>.  The compiler object is a record, an
    exception a value, the functions being compiled a list with the innermost first, a pointer to a node its
    path.  The loader of modules is an argument.
  \<^item> \<open>Format\<close>: \<^verbatim>\<open>FormatSpec.cpp\<close>, \<^verbatim>\<open>Format.cpp\<close>, \<^verbatim>\<open>prim_fmt\<close> and \<^verbatim>\<open>string_format\<close> of \<^verbatim>\<open>Primitives.cpp\<close>, \<^verbatim>\<open>compileFormat\<close> of
    \<^verbatim>\<open>Compiler.cpp\<close>.  What a protoCore value shows itself as is an argument.  Shown: specifiers are read back,
    decimal renderings too, and \<^verbatim>\<open>String.format\<close> agrees with the f-interpolator.
  \<^item> \<open>ReadyStack\<close>, \<open>Semaphore\<close>: \<^verbatim>\<open>runtime/ReadyStack.h\<close> and \<^verbatim>\<open>runtime/Semaphore.h\<close>, the lock-free stack of ready
    actors and the semaphore of the workers, as step relations of any number of threads under sequential
    consistency.  Counters that only the proofs read are auxiliary and marked so.  Shown: the stack refines an
    atomic stack as long as no thread is overtaken by \<open>2 ^ 32\<close> updates of a head it has read (the width of the
    generation), no index is followed into a missing chunk, a swap succeeds only on a head that has not been
    updated since it was read, and no wake-up is lost.
  \<^item> \<open>ModuleTable\<close>: \<^verbatim>\<open>repl/ModuleTable.cpp\<close> and \<^verbatim>\<open>Session::loadModuleFile\<close>.  Shown: one loader per path at a
    time; two threads with crossed imports wait for each other; a path may be loaded twice.
  \<^item> \<open>DapTransport\<close>, \<open>Selectors\<close>: \<^verbatim>\<open>dap/DapTransport.cpp\<close>, \<^verbatim>\<open>umd/SmalltalkSelector.h\<close>, \<^verbatim>\<open>umd/Prefixes.h\<close>.  Shown:
    written messages are read back, and the selector of a call is the one the documented rules give.

  \<^bold>\<open>Bounds.\<close>  The parser's mutual recursion is by a level: six levels for each token that is left and six
  more, since no chain of calls is longer between two consumed tokens.  Its loops take the number of
  remaining tokens as their bound, and the parsers started on interpolation holes the length of the text,
  which is larger than the length of a hole's text.  \<open>parser_terminates\<close> shows that none of them is ever
  exhausted, so the model returns what the source returns.  The scanner's loops are bounded by the remaining
  text in the same way.  The compiler's recursion is bounded by the fuel of \<open>rulesAt\<close>, which stands for the
  native stack: without fuel a routine answers \<open>StackOverflow\<close>, the error of \<^verbatim>\<open>checkNativeStack\<close>.

  \<^bold>\<open>Numbers.\<close>  A \<^verbatim>\<open>double\<close> is its 64-bit pattern; \<^verbatim>\<open>strtod\<close> of the C library is modelled on the spellings
  the lexer produces (theory \<open>Strtod\<close>), as the nearest double with ties to even.  Integers of the source that
  can wrap are words or carry their bound.

  \<^bold>\<open>Not modelled.\<close>  The compilation of whole units and of templates (\<^verbatim>\<open>compileUnit\<close>, \<^verbatim>\<open>compileTemplate\<close> and what
  they call) is left out.  The values of the execution engine, the primitives, the actors and the debugger work on protoCore
  objects, whose sources are not part of the repository, or on threads, sockets and files; the C++
  transpiler prints text for an external compiler.  Checks of the native stack depend on the machine the
  program runs on and are left out of the parser and the desugarer.
\<close>

end
